(* ===== verification/Go_Prelude.thy ===== *)
theory Go_Prelude
  imports Complex_Main "HOL-Library.AList" "HOL-Library.Char_ord" "HOL-Library.List_Lexorder"
begin

text \<open>
  What the components share: the values of Go the code uses (errors, strings as bytes, 64-bit
  integers, floating-point numbers, instants, maps) and the library lemmas about them.

  \<^item> An \<open>error\<close> is a value of \<open>go_error\<close>: a sentinel variable, a formatted error kept as its
    format string and arguments, an error wrapped by \<open>%w\<close>, or a run-time panic.
  \<^item> A \<open>string\<close> is its list of bytes, compared bytewise as Go does.
  \<^item> An \<open>int\<close> or \<open>int64\<close> is an integer; where an operation can leave the 64-bit range the
    wrap-around is written out with \<open>wrap64\<close>.
  \<^item> A \<open>time.Time\<close> is its number of nanoseconds since Go's zero instant, so \<open>IsZero\<close> is
    \<open>t = 0\<close>; a \<open>time.Duration\<close> is a number of nanoseconds.
  \<^item> A map is an association list with distinct keys. A Go program may see the entries in any
    order; the list order stands for one of them.
\<close>

named_theorems go_simps \<open>rewrite rules for the Go library functions of the model\<close>
named_theorems check_simps \<open>rules that turn a passed sequence of checks into its facts\<close>

section \<open>Errors\<close>

datatype fmt_arg = ArgS string | ArgI int

datatype go_error =
    Sentinel string
  | Errorf string "fmt_arg list"
  | Wrapf go_error string
  | Panic string

text \<open>\<open>errors.Is\<close>: the error itself or one it wraps.\<close>

fun errors_Is :: "go_error \<Rightarrow> go_error \<Rightarrow> bool" where
  "errors_Is (Wrapf e s) t = (Wrapf e s = t \<or> errors_Is e t)"
| "errors_Is e t = (e = t)"

text \<open>
  A Go function that returns \<open>error\<close> returns \<open>go_error option\<close> here (\<open>None\<close> is \<open>nil\<close>). A
  sequence of early returns \<open>if c { return e }\<close> is a list of guards of which the first that
  fails gives the result.
\<close>

definition guard :: "bool \<Rightarrow> go_error \<Rightarrow> go_error option" where
  "guard b e = (if b then Some e else None)"

fun first_err :: "go_error option list \<Rightarrow> go_error option" where
  "first_err [] = None"
| "first_err (None # xs) = first_err xs"
| "first_err (Some e # xs) = Some e"

lemma first_err_None [check_simps]: "first_err xs = None \<longleftrightarrow> (\<forall>x\<in>set xs. x = None)"
  by (induction xs rule: first_err.induct) auto

lemma first_err_Some: "first_err xs = Some e \<Longrightarrow> Some e \<in> set xs"
  by (induction xs rule: first_err.induct) auto

lemma guard_None [check_simps]: "guard b e = None \<longleftrightarrow> \<not> b"
  by (simp add: guard_def)

lemma guard_Some [check_simps]: "guard b e = Some e' \<longleftrightarrow> b \<and> e' = e"
  by (auto simp: guard_def)

text \<open>A function that returns a value after its checks.\<close>

lemma case_err_Inr:
  "(case c of Some e \<Rightarrow> Inl e | None \<Rightarrow> r) = Inr x \<longleftrightarrow> c = None \<and> r = Inr x"
  by (cases c) auto

lemma case_err_pair:
  "(case c of Some e \<Rightarrow> (p, Inl e) | None \<Rightarrow> r) = (p', Inr x) \<longleftrightarrow> c = None \<and> r = (p', Inr x)"
  by (cases c) auto

text \<open>A result that evaluates to success or to an error, in the form of an equation.\<close>

lemma ok_result: "\<not> isl (snd x) \<Longrightarrow> x = (fst x, Inr (projr (snd x)))"
  by (cases x; cases "snd x") auto

lemma err_result: "isl (snd x) \<Longrightarrow> x = (fst x, Inl (projl (snd x)))"
  by (cases x; cases "snd x") auto

text \<open>Checks over the elements of a slice, with their indices.\<close>

fun check_indexed :: "nat \<Rightarrow> (nat \<Rightarrow> 'a \<Rightarrow> go_error option) \<Rightarrow> 'a list \<Rightarrow> go_error option" where
  "check_indexed i f [] = None"
| "check_indexed i f (x # xs) = (case f i x of Some e \<Rightarrow> Some e | None \<Rightarrow> check_indexed (Suc i) f xs)"

lemma check_indexed_None:
  "check_indexed i f xs = None \<longleftrightarrow> (\<forall>j < length xs. f (i + j) (xs ! j) = None)"
proof (induction xs arbitrary: i)
  case Nil
  then show ?case by simp
next
  case (Cons x xs)
  have "(\<forall>j < length (x # xs). f (i + j) ((x # xs) ! j) = None) \<longleftrightarrow>
      f i x = None \<and> (\<forall>j < length xs. f (Suc i + j) (xs ! j) = None)"
    by (auto simp: less_Suc_eq_0_disj)
  then show ?case using Cons.IH [of "Suc i"] by (simp split: option.splits)
qed

lemma check_indexed_None_set:
  assumes "\<And>i x. f i x = None \<longleftrightarrow> P x"
  shows "check_indexed i f xs = None \<longleftrightarrow> (\<forall>x\<in>set xs. P x)"
  by (simp add: check_indexed_None assms all_set_conv_all_nth)

lemma check_indexed_guard [check_simps]:
  "check_indexed i (\<lambda>j x. guard (b x) (e j x)) xs = None \<longleftrightarrow> (\<forall>x\<in>set xs. \<not> b x)"
  by (rule check_indexed_None_set) (simp add: guard_None)

text \<open>Checks over a slice that also remember the keys of the elements before, as the loops with a
  \<open>seen\<close> map do.\<close>

fun check_seen ::
  "nat \<Rightarrow> ('a \<Rightarrow> 'k) \<Rightarrow> (nat \<Rightarrow> 'k list \<Rightarrow> 'a \<Rightarrow> go_error option) \<Rightarrow> 'k list \<Rightarrow> 'a list \<Rightarrow> go_error option" where
  "check_seen i key f seen [] = None"
| "check_seen i key f seen (x # xs) =
     (case f i seen x of
        Some e \<Rightarrow> Some e
      | None \<Rightarrow> check_seen (Suc i) key f (key x # seen) xs)"

lemma check_seen_None:
  assumes "\<And>i seen x. f i seen x = None \<longleftrightarrow> key x \<notin> set seen \<and> P x"
  shows "check_seen i key f seen xs = None \<longleftrightarrow>
    distinct (map key xs) \<and> set seen \<inter> key ` set xs = {} \<and> (\<forall>x\<in>set xs. P x)"
proof (induction xs arbitrary: i seen)
  case Nil
  then show ?case by simp
next
  case (Cons x xs)
  show ?case
  proof (cases "f i seen x")
    case None
    then show ?thesis using assms [of i seen x] Cons.IH [of "Suc i" "key x # seen"] by auto
  next
    case (Some e)
    then have "\<not> (key x \<notin> set seen \<and> P x)" using assms [of i seen x] by simp
    then show ?thesis using Some by auto
  qed
qed

text \<open>\<open>p != nil && c(*p)\<close>\<close>

definition opt_any :: "('a \<Rightarrow> bool) \<Rightarrow> 'a option \<Rightarrow> bool" where
  "opt_any P x = (case x of None \<Rightarrow> False | Some r \<Rightarrow> P r)"

lemma opt_any_iff [check_simps]: "opt_any P x \<longleftrightarrow> (\<exists>r. x = Some r \<and> P r)"
  by (auto simp: opt_any_def split: option.splits)

section \<open>Strings\<close>

definition ascii_space :: "char \<Rightarrow> bool" where
  "ascii_space c \<longleftrightarrow> c \<in> set [CHR 0x09, CHR 0x0A, CHR 0x0B, CHR 0x0C, CHR 0x0D, CHR 0x20]"

text \<open>
  The white space of \<open>unicode.IsSpace\<close> beyond ASCII, in UTF-8: U+0085 and U+00A0 in two bytes,
  U+1680, U+2000 to U+200A, U+2028, U+2029, U+202F, U+205F and U+3000 in three.
\<close>

definition space2 :: "char \<Rightarrow> char \<Rightarrow> bool" where
  "space2 c d \<longleftrightarrow> c = CHR 0xC2 \<and> (d = CHR 0x85 \<or> d = CHR 0xA0)"

definition space3 :: "char \<Rightarrow> char \<Rightarrow> char \<Rightarrow> bool" where
  "space3 c d e \<longleftrightarrow>
     (c = CHR 0xE1 \<and> d = CHR 0x9A \<and> e = CHR 0x80) \<or>
     (c = CHR 0xE2 \<and> d = CHR 0x80 \<and>
       (CHR 0x80 \<le> e \<and> e \<le> CHR 0x8A \<or> e = CHR 0xA8 \<or> e = CHR 0xA9 \<or> e = CHR 0xAF)) \<or>
     (c = CHR 0xE2 \<and> d = CHR 0x81 \<and> e = CHR 0x9F) \<or>
     (c = CHR 0xE3 \<and> d = CHR 0x80 \<and> e = CHR 0x80)"

text \<open>The number of bytes of the white-space rune a string starts with, 0 when it starts with none.\<close>

fun space_prefix :: "string \<Rightarrow> nat" where
  "space_prefix (c # d # e # s) =
     (if ascii_space c then 1 else if space2 c d then 2 else if space3 c d e then 3 else 0)"
| "space_prefix [c, d] = (if ascii_space c then 1 else if space2 c d then 2 else 0)"
| "space_prefix [c] = (if ascii_space c then 1 else 0)"
| "space_prefix [] = 0"

text \<open>The same for the end of a string, whose bytes are given last first.\<close>

fun space_suffix :: "string \<Rightarrow> nat" where
  "space_suffix (e # d # c # s) =
     (if ascii_space e then 1 else if space2 d e then 2 else if space3 c d e then 3 else 0)"
| "space_suffix [e, d] = (if ascii_space e then 1 else if space2 d e then 2 else 0)"
| "space_suffix [e] = (if ascii_space e then 1 else 0)"
| "space_suffix [] = 0"

lemma space_prefix_length: "space_prefix s \<le> length s"
  by (cases s rule: space_prefix.cases) auto

lemma space_suffix_length: "space_suffix s \<le> length s"
  by (cases s rule: space_suffix.cases) auto

function trim_by :: "(string \<Rightarrow> nat) \<Rightarrow> string \<Rightarrow> string" where
  "trim_by f s = (if s = [] \<or> f s = 0 then s else trim_by f (drop (f s) s))"
  by pat_completeness auto
termination by (relation "measure (\<lambda>(f, s). length s)") auto

declare trim_by.simps [simp del]

definition TrimSpace :: "string \<Rightarrow> string" where
  "TrimSpace s = rev (trim_by space_suffix (rev (trim_by space_prefix s)))"

abbreviation blank :: "string \<Rightarrow> bool" where
  "blank s \<equiv> TrimSpace s = []"

lemma trim_by_Nil [simp]: "trim_by f [] = []"
  by (simp add: trim_by.simps)

lemma TrimSpace_Nil [simp]: "TrimSpace [] = []"
  by (simp add: TrimSpace_def)

lemma not_blank_not_Nil: "\<not> blank s \<Longrightarrow> s \<noteq> []"
  by auto

lemma trim_by_stop: "trim_by f (trim_by f s) = trim_by f s"
proof (induction f s rule: trim_by.induct)
  case (1 f s)
  then show ?case by (cases "s = [] \<or> f s = 0") (simp_all add: trim_by.simps [of f s])
qed

lemma trim_by_fixed: "f s = 0 \<Longrightarrow> trim_by f s = s"
  by (simp add: trim_by.simps [of f s])

lemma trim_by_end: "trim_by f s = [] \<or> f (trim_by f s) = 0"
proof (induction f s rule: trim_by.induct)
  case (1 f s)
  then show ?case by (cases "s = [] \<or> f s = 0") (auto simp: trim_by.simps [of f s])
qed

lemma trim_by_drop: "\<exists>k. trim_by f s = drop k s"
proof (induction f s rule: trim_by.induct)
  case (1 f s)
  show ?case
  proof (cases "s = [] \<or> f s = 0")
    case True
    then show ?thesis by (auto simp: trim_by.simps [of f s] intro: exI [of _ 0])
  next
    case False
    then obtain k where "trim_by f (drop (f s) s) = drop k (drop (f s) s)" using 1 [OF False] by (elim exE)
    then have "trim_by f s = drop (k + f s) s" using False by (simp add: trim_by.simps [of f s])
    then show ?thesis by blast
  qed
qed

text \<open>A prefix of a string that starts with white space starts with the same white space.\<close>

lemma space_prefix_append: "space_prefix s \<noteq> 0 \<Longrightarrow> space_prefix (s @ t) \<noteq> 0"
  by (cases s rule: space_prefix.cases; cases t rule: space_prefix.cases) (auto split: if_splits)

lemma TrimSpace_no_prefix: "TrimSpace s = [] \<or> space_prefix (TrimSpace s) = 0"
proof -
  let ?p = "trim_by space_prefix s"
  obtain k where k: "trim_by space_suffix (rev ?p) = drop k (rev ?p)" using trim_by_drop by blast
  then have t: "TrimSpace s = take (length ?p - k) ?p" by (simp add: TrimSpace_def drop_rev)
  have "space_prefix (TrimSpace s) = 0" if "?p \<noteq> []"
  proof (rule ccontr)
    assume "space_prefix (TrimSpace s) \<noteq> 0"
    then have "space_prefix (TrimSpace s @ drop (length ?p - k) ?p) \<noteq> 0" by (rule space_prefix_append)
    then have "space_prefix ?p \<noteq> 0" by (simp add: t)
    then show False using trim_by_end [of space_prefix s] that by simp
  qed
  then show ?thesis by (cases "?p = []") (simp_all add: TrimSpace_def)
qed

lemma TrimSpace_idem [simp]: "TrimSpace (TrimSpace s) = TrimSpace s"
proof (cases "TrimSpace s = []")
  case True
  then show ?thesis by simp
next
  case False
  then have "trim_by space_prefix (TrimSpace s) = TrimSpace s" using TrimSpace_no_prefix trim_by_fixed by blast
  moreover have "trim_by space_suffix (rev (TrimSpace s)) = rev (TrimSpace s)"
    by (simp add: TrimSpace_def trim_by_stop)
  ultimately show ?thesis by (simp add: TrimSpace_def [of "TrimSpace s"])
qed

lemma space2_high: "space2 c d \<Longrightarrow> 128 \<le> (of_char c :: nat) \<and> 128 \<le> (of_char d :: nat)"
  by (auto simp: space2_def)

lemma space3_high: "space3 c d e \<Longrightarrow> 128 \<le> (of_char c :: nat) \<and> 128 \<le> (of_char e :: nat)"
  by (auto simp: space3_def less_eq_char_def)

lemma space_prefix_plain:
  assumes "list_all (\<lambda>c. \<not> ascii_space c \<and> (of_char c :: nat) < 128) s"
  shows "space_prefix s = 0"
  using assms by (cases s rule: space_prefix.cases) (auto dest: space2_high space3_high)

lemma space_suffix_plain:
  assumes "list_all (\<lambda>c. \<not> ascii_space c \<and> (of_char c :: nat) < 128) s"
  shows "space_suffix s = 0"
  using assms by (cases s rule: space_suffix.cases) (auto dest: space2_high space3_high)

lemma TrimSpace_plain: "list_all (\<lambda>c. \<not> ascii_space c \<and> (of_char c :: nat) < 128) s \<Longrightarrow> TrimSpace s = s"
  using space_prefix_plain [of s] space_suffix_plain [of "rev s"] by (simp add: TrimSpace_def trim_by_fixed)

lemma space_suffix_plain_end:
  "\<not> ascii_space c \<Longrightarrow> of_char c < (128::nat) \<Longrightarrow> space_suffix (xs @ [c]) \<le> length xs"
  by (cases xs rule: space_suffix.cases) (auto dest: space2_high space3_high)

lemma trim_plain_end:
  assumes "\<not> ascii_space c" and "of_char c < (128::nat)"
  shows "trim_by space_suffix (xs @ [c]) \<noteq> []"
proof (induction "length xs" arbitrary: xs rule: less_induct)
  case less
  let ?k = "space_suffix (xs @ [c])"
  have le: "?k \<le> length xs" by (rule space_suffix_plain_end [OF assms])
  show ?case
  proof (cases "?k = 0")
    case False
    then have "length (drop ?k xs) < length xs" using le by simp
    from less [OF this] False show ?thesis using le by (simp add: trim_by.simps [of _ "xs @ [c]"])
  qed (simp add: trim_by.simps [of _ "xs @ [c]"])
qed

lemma plain_not_blank:
  assumes "\<not> ascii_space c" and "of_char c < (128::nat)"
  shows "\<not> blank (c # s)"
proof -
  have "space_prefix (c # s) = 0"
    using assms by (cases "c # s" rule: space_prefix.cases) (auto dest: space2_high space3_high)
  then have "trim_by space_prefix (c # s) = c # s" by (simp add: trim_by.simps [of _ "c # s"])
  then show ?thesis using trim_plain_end [OF assms, of "rev s"] by (simp add: TrimSpace_def)
qed

text \<open>ASCII case folding; bytes beyond ASCII are left as they are.\<close>

definition lower_char :: "char \<Rightarrow> char" where
  "lower_char c =
     (if CHR ''A'' \<le> c \<and> c \<le> CHR ''Z'' then char_of ((of_char c :: nat) + 32) else c)"

definition ToLower :: "string \<Rightarrow> string" where
  "ToLower s = map lower_char s"

definition EqualFold :: "string \<Rightarrow> string \<Rightarrow> bool" where
  "EqualFold s t \<longleftrightarrow> ToLower s = ToLower t"

lemma EqualFold_refl [simp]: "EqualFold s s"
  by (simp add: EqualFold_def)

fun HasPrefix :: "string \<Rightarrow> string \<Rightarrow> bool" where
  "HasPrefix s [] = True"
| "HasPrefix [] (p # ps) = False"
| "HasPrefix (c # s) (p # ps) = (c = p \<and> HasPrefix s ps)"

fun Contains :: "string \<Rightarrow> string \<Rightarrow> bool" where
  "Contains [] n = (n = [])"
| "Contains (c # s) n = (HasPrefix (c # s) n \<or> Contains s n)"

lemma HasPrefix_iff: "HasPrefix s p \<longleftrightarrow> (\<exists>t. s = p @ t)"
  by (induction s p rule: HasPrefix.induct) auto

lemma Contains_iff: "Contains s n \<longleftrightarrow> (\<exists>u v. s = u @ n @ v)"
proof (induction s)
  case Nil
  then show ?case by auto
next
  case (Cons c s)
  have "(\<exists>u v. c # s = u @ n @ v) \<longleftrightarrow> (\<exists>v. c # s = n @ v) \<or> (\<exists>u v. s = u @ n @ v)"
    by (auto simp: Cons_eq_append_conv)
  then show ?case using Cons.IH by (simp add: HasPrefix_iff)
qed

text \<open>The decimal rendering of \<open>%d\<close>.\<close>

fun utoa :: "nat \<Rightarrow> string" where
  "utoa n = (if n < 10 then [char_of (48 + n)] else utoa (n div 10) @ [char_of (48 + n mod 10)])"

declare utoa.simps [simp del]

definition itoa :: "int \<Rightarrow> string" where
  "itoa i = (if i < 0 then ''-'' @ utoa (nat (- i)) else utoa (nat i))"

section \<open>Integers, instants and floating-point numbers\<close>

definition maxInt64 :: int where "maxInt64 = 2 ^ 63 - 1"
definition minInt64 :: int where "minInt64 = - (2 ^ 63)"

definition wrap64 :: "int \<Rightarrow> int" where
  "wrap64 x = (x + 2 ^ 63) mod 2 ^ 64 - 2 ^ 63"

definition in64 :: "int \<Rightarrow> bool" where
  "in64 x \<longleftrightarrow> minInt64 \<le> x \<and> x \<le> maxInt64"

lemma wrap64_id [simp]: "in64 x \<Longrightarrow> wrap64 x = x"
  by (simp add: in64_def wrap64_def minInt64_def maxInt64_def)

lemma in64_wrap64 [simp]: "in64 (wrap64 x)"
proof -
  have "0 \<le> (x + 2 ^ 63) mod 2 ^ 64" and "(x + 2 ^ 63) mod 2 ^ 64 < (2::int) ^ 64"
    by (rule pos_mod_sign, simp) (rule pos_mod_bound, simp)
  then show ?thesis by (simp add: in64_def wrap64_def minInt64_def maxInt64_def)
qed

text \<open>\<open>Time.Sub\<close> saturates at the largest and smallest duration.\<close>

definition time_Sub :: "int \<Rightarrow> int \<Rightarrow> int" where
  "time_Sub t u = max minInt64 (min maxInt64 (t - u))"

abbreviation IsZero :: "int \<Rightarrow> bool" where
  "IsZero t \<equiv> t = 0"

definition hour :: int where "hour = 3600 * 1000000000"
definition minute :: int where "minute = 60 * 1000000000"

text \<open>
  A \<open>float64\<close> is a rational number, an infinity or not a number. An integer of more than 53
  significant bits is rounded to the nearest even mantissa when it is converted.
\<close>

datatype gofloat = FFin rat | FInf bool | FNaN

function mantissa_shift :: "int \<Rightarrow> nat" where
  "mantissa_shift m = (if m < 2 ^ 53 then 0 else Suc (mantissa_shift (m div 2)))"
  by pat_completeness auto
termination by (relation "measure (\<lambda>m. nat m)") auto

declare mantissa_shift.simps [simp del]

definition round53 :: "int \<Rightarrow> int" where
  "round53 n =
     (let m = \<bar>n\<bar>; e = mantissa_shift m; q = m div 2 ^ e; r = m mod 2 ^ e; h = 2 ^ e div 2;
          q' = (if e = 0 \<or> r < h \<or> r = h \<and> even q then q else q + 1)
      in sgn n * q' * 2 ^ e)"

definition float_of_int :: "int \<Rightarrow> gofloat" where
  "float_of_int n = FFin (of_int (round53 n))"

lemma round53_small: "\<bar>n\<bar> < 2 ^ 53 \<Longrightarrow> round53 n = n"
  by (simp add: round53_def Let_def mantissa_shift.simps [of "\<bar>n\<bar>"] sgn_mult_abs)

text \<open>
  \<open>int64(f)\<close> truncates towards zero; outside the range of \<open>int64\<close> the language leaves the value
  to the implementation, and amd64 gives the smallest integer.
\<close>

definition trunc_rat :: "rat \<Rightarrow> int" where
  "trunc_rat r = (if 0 \<le> r then \<lfloor>r\<rfloor> else - \<lfloor>- r\<rfloor>)"

fun int_of_float :: "gofloat \<Rightarrow> int" where
  "int_of_float (FFin r) = (let t = trunc_rat r in if in64 t then t else minInt64)"
| "int_of_float f = minInt64"

text \<open>IEEE comparison: every comparison with a NaN but \<open>!=\<close> is false.\<close>

fun float_less :: "gofloat \<Rightarrow> gofloat \<Rightarrow> bool" where
  "float_less (FFin a) (FFin b) = (a < b)"
| "float_less (FFin a) (FInf pos) = pos"
| "float_less (FInf pos) (FFin b) = (\<not> pos)"
| "float_less (FInf p) (FInf q) = (\<not> p \<and> q)"
| "float_less _ _ = False"

fun float_eq :: "gofloat \<Rightarrow> gofloat \<Rightarrow> bool" where
  "float_eq (FFin a) (FFin b) = (a = b)"
| "float_eq (FInf p) (FInf q) = (p = q)"
| "float_eq _ _ = False"

lemma float_less_asym: "float_less a b \<Longrightarrow> \<not> float_less b a \<and> \<not> float_eq a b"
  by (cases a; cases b) auto

lemma float_trichotomy: "a \<noteq> FNaN \<Longrightarrow> b \<noteq> FNaN \<Longrightarrow> float_less a b \<or> float_eq a b \<or> float_less b a"
  by (cases a; cases b) auto

section \<open>Maps\<close>

type_synonym ('k, 'v) gomap = "('k \<times> 'v) list"

abbreviation mget :: "('k, 'v) gomap \<Rightarrow> 'k \<Rightarrow> 'v option" where
  "mget m k \<equiv> map_of m k"

abbreviation mput :: "'k \<Rightarrow> 'v \<Rightarrow> ('k, 'v) gomap \<Rightarrow> ('k, 'v) gomap" where
  "mput k v m \<equiv> AList.update k v m"

abbreviation mdel :: "'k \<Rightarrow> ('k, 'v) gomap \<Rightarrow> ('k, 'v) gomap" where
  "mdel k m \<equiv> AList.delete k m"

abbreviation mkeys :: "('k, 'v) gomap \<Rightarrow> 'k list" where
  "mkeys m \<equiv> map fst m"

abbreviation mvals :: "('k, 'v) gomap \<Rightarrow> 'v list" where
  "mvals m \<equiv> map snd m"

abbreviation mwf :: "('k, 'v) gomap \<Rightarrow> bool" where
  "mwf m \<equiv> distinct (mkeys m)"

text \<open>Reading a missing key gives the zero value of the element type.\<close>

definition mget0 :: "'v \<Rightarrow> ('k, 'v) gomap \<Rightarrow> 'k \<Rightarrow> 'v" where
  "mget0 z m k = (case mget m k of Some v \<Rightarrow> v | None \<Rightarrow> z)"

text \<open>The contract of a map: what a read returns after a write or a deletion.\<close>

locale go_map =
  fixes empty :: 'm
    and get :: "'m \<Rightarrow> 'k \<Rightarrow> 'v option"
    and put :: "'k \<Rightarrow> 'v \<Rightarrow> 'm \<Rightarrow> 'm"
    and del :: "'k \<Rightarrow> 'm \<Rightarrow> 'm"
    and ok :: "'m \<Rightarrow> bool"
  assumes get_empty: "get empty k = None"
    and get_put: "get (put k v m) j = (if j = k then Some v else get m j)"
    and get_del: "get (del k m) j = (if j = k then None else get m j)"
    and ok_empty: "ok empty"
    and ok_put: "ok m \<Longrightarrow> ok (put k v m)"
    and ok_del: "ok m \<Longrightarrow> ok (del k m)"
begin

definition puts :: "('k \<times> 'v) list \<Rightarrow> 'm \<Rightarrow> 'm" where
  "puts kvs m = fold (\<lambda>(k, v). put k v) kvs m"

lemma ok_puts: "ok m \<Longrightarrow> ok (puts kvs m)"
  unfolding puts_def by (induction kvs arbitrary: m) (auto intro: ok_put)

lemma get_puts_other: "j \<notin> fst ` set kvs \<Longrightarrow> get (puts kvs m) j = get m j"
  unfolding puts_def by (induction kvs arbitrary: m) (auto simp: get_put)

lemma put_del_restores: "get m k = None \<Longrightarrow> get (del k (put k v m)) = get m"
  by (rule ext) (auto simp: get_put get_del)

lemma put_back_restores: "get m k = Some w \<Longrightarrow> get (put k w (put k v m)) = get m"
  by (rule ext) (auto simp: get_put)

end

lemma mget_mput [simp]: "mget (mput k v m) j = (if j = k then Some v else mget m j)"
  by (simp add: update_conv')

lemma mput_same: "mget m k = Some v \<Longrightarrow> mput k v m = m"
  by (induction m) (auto split: if_splits)

lemma mget_mdel [simp]: "mget (mdel k m) j = (if j = k then None else mget m j)"
  by (simp add: delete_conv')

lemma mwf_mput [simp, intro]: "mwf m \<Longrightarrow> mwf (mput k v m)"
  by (simp add: distinct_update)

lemma mwf_mdel [simp, intro]: "mwf m \<Longrightarrow> mwf (mdel k m)"
  by (simp add: distinct_delete)

interpretation gm: go_map "[]" map_of AList.update AList.delete "\<lambda>m. distinct (map fst m)"
  by unfold_locales auto

lemma mget0_mput [simp]: "mget0 z (mput k v m) j = (if j = k then v else mget0 z m j)"
  by (simp add: mget0_def)

lemma mkeys_mput [simp]: "set (mkeys (mput k v m)) = insert k (set (mkeys m))"
  by (induction m) auto

lemma mget_in_vals: "mget m k = Some v \<Longrightarrow> v \<in> set (mvals m)"
  by (force dest: map_of_SomeD)

lemma mvals_mget: "mwf m \<Longrightarrow> v \<in> set (mvals m) \<longleftrightarrow> (\<exists>k. mget m k = Some v)"
  by (force dest: map_of_SomeD)

lemma mkeys_mget: "k \<in> set (mkeys m) \<longleftrightarrow> mget m k \<noteq> None"
  by (simp add: map_of_eq_None_iff)

lemma length_mput: "length (mput k v m) = (if mget m k = None then Suc (length m) else length m)"
  by (induction m) auto

text \<open>Checks over the values of a map say something about every entry.\<close>

lemma mvals_all_mput:
  assumes "\<forall>x\<in>set (mvals m). P x" and "P v"
  shows "\<forall>x\<in>set (mvals (mput k v m)). P x"
  using assms by (induction m) auto

lemma set_mput_subset: "set (mput k v m) \<subseteq> insert (k, v) (set m)"
  by (induction m) auto

text \<open>An invariant of the entries of a map, and of the entry a write adds.\<close>

definition mall :: "('k \<Rightarrow> 'v \<Rightarrow> bool) \<Rightarrow> ('k, 'v) gomap \<Rightarrow> bool" where
  "mall P m \<longleftrightarrow> (\<forall>(k, v)\<in>set m. P k v)"

lemma mall_mput [intro]: "mall P m \<Longrightarrow> P k v \<Longrightarrow> mall P (mput k v m)"
  using set_mput_subset [of k v m] by (auto simp: mall_def)

lemma mall_mdel [intro]: "mall P m \<Longrightarrow> mall P (mdel k m)"
  by (auto simp: mall_def AList.delete_eq)

lemma mall_mget: "mall P m \<Longrightarrow> mget m k = Some v \<Longrightarrow> P k v"
  by (auto simp: mall_def dest: map_of_SomeD)

lemma mall_iff: "mwf m \<Longrightarrow> mall P m \<longleftrightarrow> (\<forall>k v. mget m k = Some v \<longrightarrow> P k v)"
  by (auto simp: mall_def)

lemma mall_Nil [simp]: "mall P []"
  by (simp add: mall_def)

lemma mall_mono: "mall P m \<Longrightarrow> (\<And>k v. P k v \<Longrightarrow> Q k v) \<Longrightarrow> mall Q m"
  by (auto simp: mall_def)

text \<open>\<open>m[k(x)] = append(m[k(x)], v(x))\<close> over the elements of a slice.\<close>

definition group_into :: "('a \<Rightarrow> 'k) \<Rightarrow> ('a \<Rightarrow> 'v) \<Rightarrow> 'a list \<Rightarrow> ('k, 'v list) gomap" where
  "group_into k v xs = fold (\<lambda>x m. mput (k x) (mget0 [] m (k x) @ [v x]) m) xs []"

lemma mget0_group_fold:
  "mget0 [] (fold (\<lambda>x m. mput (k x) (mget0 [] m (k x) @ [v x]) m) xs m) j =
     mget0 [] m j @ map v (filter (\<lambda>x. k x = j) xs)"
  by (induction xs arbitrary: m) auto

lemma mget0_group_into: "mget0 [] (group_into k v xs) j = map v (filter (\<lambda>x. k x = j) xs)"
  unfolding group_into_def by (subst mget0_group_fold) (simp add: mget0_def)

section \<open>Ordered insertion\<close>

text \<open>
  \<open>sort.Strings\<close> and \<open>sort.SliceStable\<close>: insertion of each element before the first that is
  greater keeps equal elements in their order.
\<close>

fun insert_stable :: "('a \<Rightarrow> 'a \<Rightarrow> bool) \<Rightarrow> 'a \<Rightarrow> 'a list \<Rightarrow> 'a list" where
  "insert_stable lt x [] = [x]"
| "insert_stable lt x (y # ys) = (if lt y x then y # insert_stable lt x ys else x # y # ys)"

definition sort_stable :: "('a \<Rightarrow> 'a \<Rightarrow> bool) \<Rightarrow> 'a list \<Rightarrow> 'a list" where
  "sort_stable lt xs = foldr (insert_stable lt) xs []"

lemma set_insert_stable [simp]: "set (insert_stable lt x ys) = insert x (set ys)"
  by (induction ys) auto

lemma set_sort_stable [simp]: "set (sort_stable lt xs) = set xs"
  unfolding sort_stable_def by (induction xs) auto

lemma length_insert_stable [simp]: "length (insert_stable lt x ys) = Suc (length ys)"
  by (induction ys) auto

lemma length_sort_stable [simp]: "length (sort_stable lt xs) = length xs"
  unfolding sort_stable_def by (induction xs) auto

lemma distinct_insert_stable:
  "distinct (map f (insert_stable lt x ys)) \<longleftrightarrow> f x \<notin> f ` set ys \<and> distinct (map f ys)"
  by (induction ys) auto

lemma distinct_sort_stable: "distinct (map f (sort_stable lt xs)) \<longleftrightarrow> distinct (map f xs)"
  unfolding sort_stable_def
proof (induction xs)
  case Nil
  then show ?case by simp
next
  case (Cons x xs)
  have "set (foldr (insert_stable lt) xs []) = set xs"
    using set_sort_stable [of lt xs] by (simp add: sort_stable_def)
  then show ?case using Cons.IH by (simp add: distinct_insert_stable)
qed

lemma sorted_insert_stable:
  assumes tr: "\<And>a b c. le a b \<Longrightarrow> le b c \<Longrightarrow> le a c"
    and less_le: "\<And>a b. lt a b \<Longrightarrow> le a b" and not_less: "\<And>a b. \<not> lt a b \<Longrightarrow> le b a"
  shows "sorted_wrt le ys \<Longrightarrow> sorted_wrt le (insert_stable lt x ys)"
  by (induction ys) (auto dest: less_le not_less intro: tr)

lemma sorted_sort_stable:
  assumes "\<And>a b c. le a b \<Longrightarrow> le b c \<Longrightarrow> le a c"
    and "\<And>a b. lt a b \<Longrightarrow> le a b" and "\<And>a b. \<not> lt a b \<Longrightarrow> le b a"
  shows "sorted_wrt le (sort_stable lt xs)"
  unfolding sort_stable_def
  by (induction xs) (simp_all add: sorted_insert_stable [where le = le, OF assms])

abbreviation sort_strings :: "string list \<Rightarrow> string list" where
  "sort_strings xs \<equiv> sort_stable (<) xs"

lemma sorted_sort_strings: "sorted (sort_strings xs)"
proof -
  have "sorted_wrt (\<le>) (sort_strings xs)" by (rule sorted_sort_stable) auto
  then show ?thesis by simp
qed

end
