(* ===== verification/Orch_Model.thy ===== *)
theory Orch_Model
  imports Go_Prelude
begin

text \<open>
  The data of \<open>internal/orchestration\<close>: definitions of agents and squads, the workflow graph, the
  frozen execution plan, attempts and their structured results (\<open>model.go\<close>), the projection the
  reducer works on (\<open>transition.go\<close>), and the context envelope of \<open>internal/harness\<close> as far as
  the reducer reads it. A struct is a record whose fields carry a prefix for the struct; a string
  type with constants is a datatype with one constructor per constant, one for the empty string
  where the code tests for it, and one for every other string. A pointer is an option, a slice a
  list (nil and empty slices are not told apart by the code modelled here).
\<close>

section \<open>Values of type any\<close>

record Budget =
  b_Tokens :: int
  b_ToolCalls :: int
  b_CostCents :: int
  b_Duration :: int
  b_Concurrent :: int

definition zeroBudget :: Budget where
  "zeroBudget = \<lparr>b_Tokens = 0, b_ToolCalls = 0, b_CostCents = 0, b_Duration = 0, b_Concurrent = 0\<rparr>"

text \<open>
  The element type of a composite value: a type switch tells \<open>[]any\<close> from
  \<open>[]map[string]any\<close> and \<open>map[string]any\<close> from \<open>map[string][]any\<close>.
\<close>

datatype elem = ElemAny | ElemMap | ElemSlice

datatype any =
    VNil
  | VBool bool
  | VString string
  | VInt int
  | VInt8 int
  | VInt16 int
  | VInt32 int
  | VInt64 int
  | VUint int
  | VUint64 int
  | VFloat64 gofloat
  | VFloat32 gofloat
  | VStrings "string list"
  | VSlice elem "any list"
  | VMap elem "(string \<times> any) list"
  | VBudget Budget

type_synonym fields = "(string, any) gomap"

section \<open>Policies\<close>

record CapabilityRef =
  cap_Name :: string
  cap_Version :: string

record SchemaRef =
  s_ID :: string
  s_Version :: int

record ToolPolicy =
  tp_Allowed :: "string list"
  tp_Denied :: "string list"
  tp_Network :: bool
  tp_SecretScopes :: "string list"

record MemoryPolicy =
  mp_ReadScopes :: "string list"
  mp_WriteScopes :: "string list"
  mp_RequireEvidence :: bool

record EnvironmentReference =
  env_Name :: string
  env_SecretRef :: string

record ExecutorBinding =
  x_ProviderID :: string
  x_RuntimeID :: string
  x_Model :: string
  x_ThinkingLevel :: string
  x_ServiceTier :: string
  x_CustomArgs :: "string list"
  x_RuntimeConfig :: "(string, string) gomap"
  x_Environment :: "EnvironmentReference list"
  x_ProviderVersion :: string
  x_BinaryDigest :: string
  x_RequiredCaps :: "string list"
  x_ConfigVersion :: string

record ConversationStarter =
  cs_Label :: string
  cs_Prompt :: string

record DisabledRuntimeSkill =
  ds_RuntimeID :: string
  ds_Provider :: string
  ds_Root :: string
  ds_Key :: string
  ds_Name :: string
  ds_Plugin :: string

record AgentAccessPolicy =
  ap_Mode :: string
  ap_MemberIDs :: "string list"

section \<open>The workflow graph\<close>

datatype NodeKind =
  NodeAgent | NodeSquad | NodeGate | NodeHuman | NodeMerge | NodeRepair | NodeKindOther string

datatype JoinPolicy = JoinUnset | JoinAll | JoinQuorum | JoinFirstSuccess | JoinOther string

datatype EdgeEvent =
  EdgeSuccess | EdgeFailure | EdgeTimeout | EdgeApproval | EdgeBug | EdgeCancel | EdgeOther string

record VersionedRef =
  r_ID :: string
  r_Revision :: int
  r_Version :: int

record ContextPolicy =
  cp_Required :: "string list"
  cp_Optional :: "string list"
  cp_MaxTokens :: int

record RetryPolicy =
  rp_MaxAttempts :: int
  rp_Backoff :: int
  rp_RetryOn :: "string list"

datatype Predicate =
  Predicate (pr_Kind: string) (pr_Field: string) (pr_Op: string) (pr_Value: any)
    (pr_Children: "Predicate list")

definition zeroPredicate :: Predicate where
  "zeroPredicate = Predicate '''' '''' '''' VNil []"

record GatePolicy =
  gp_Predicate :: Predicate
  gp_RequiredEvidence :: "string list"
  gp_FailureCode :: string

record MergePolicy =
  mg_ConflictPolicy :: string
  mg_KeyFields :: "string list"
  mg_RequireEvidence :: bool

record RepairPolicy =
  rep_TargetNodeID :: string
  rep_Scope :: "string list"
  rep_VerificationNodeIDs :: "string list"
  rep_MaxRounds :: int
  rep_Budget :: Budget

record WorkflowNode =
  n_ID :: string
  n_Kind :: NodeKind
  n_AgentRef :: "VersionedRef option"
  n_SquadRef :: "VersionedRef option"
  n_InputContract :: SchemaRef
  n_OutputContract :: SchemaRef
  n_ContextPolicy :: ContextPolicy
  n_ToolPolicy :: ToolPolicy
  n_RetryPolicy :: RetryPolicy
  n_Timeout :: int
  n_Budget :: Budget
  n_JoinPolicy :: JoinPolicy
  n_JoinQuorum :: int
  n_JoinFailurePolicy :: string
  n_GatePolicy :: GatePolicy
  n_MergePolicy :: MergePolicy
  n_RepairPolicy :: RepairPolicy

record WorkflowEdge =
  e_ID :: string
  e_From :: string
  e_To :: string
  e_On :: EdgeEvent
  e_Predicate :: Predicate
  e_Priority :: int
  e_MaxTraversals :: int
  e_RequiredEvidence :: "string list"
  e_LoopGroup :: string
  e_FanOut :: bool

record WorkflowGraph =
  g_ID :: string
  g_Version :: int
  g_EntryNodeIDs :: "string list"
  g_ExitNodeIDs :: "string list"
  g_Nodes :: "WorkflowNode list"
  g_Edges :: "WorkflowEdge list"
  g_ValidationDigest :: string

text \<open>The zero value of a node: what a lookup loop leaves when no node matches.\<close>

definition zeroSchema :: SchemaRef where
  "zeroSchema = \<lparr>s_ID = '''', s_Version = 0\<rparr>"

definition zeroToolPolicy :: ToolPolicy where
  "zeroToolPolicy = \<lparr>tp_Allowed = [], tp_Denied = [], tp_Network = False, tp_SecretScopes = []\<rparr>"

definition zeroNode :: WorkflowNode where
  "zeroNode = \<lparr>n_ID = '''', n_Kind = NodeKindOther '''', n_AgentRef = None, n_SquadRef = None,
     n_InputContract = zeroSchema, n_OutputContract = zeroSchema,
     n_ContextPolicy = \<lparr>cp_Required = [], cp_Optional = [], cp_MaxTokens = 0\<rparr>,
     n_ToolPolicy = zeroToolPolicy,
     n_RetryPolicy = \<lparr>rp_MaxAttempts = 0, rp_Backoff = 0, rp_RetryOn = []\<rparr>,
     n_Timeout = 0, n_Budget = zeroBudget, n_JoinPolicy = JoinUnset, n_JoinQuorum = 0,
     n_JoinFailurePolicy = '''',
     n_GatePolicy = \<lparr>gp_Predicate = zeroPredicate, gp_RequiredEvidence = [], gp_FailureCode = ''''\<rparr>,
     n_MergePolicy = \<lparr>mg_ConflictPolicy = '''', mg_KeyFields = [], mg_RequireEvidence = False\<rparr>,
     n_RepairPolicy = \<lparr>rep_TargetNodeID = '''', rep_Scope = [], rep_VerificationNodeIDs = [],
       rep_MaxRounds = 0, rep_Budget = zeroBudget\<rparr>\<rparr>"

text \<open>The loop that finds a node of the frozen graph by its ID.\<close>

fun find_node :: "WorkflowNode list \<Rightarrow> string \<Rightarrow> WorkflowNode" where
  "find_node [] i = zeroNode"
| "find_node (n # ns) i = (if n_ID n = i then n else find_node ns i)"

section \<open>Agents and squads\<close>

datatype AgentStatus = AgentDraft | AgentActive | AgentDisabled | AgentArchived | AgentOther string

record AgentDefinition =
  ag_ID :: string
  ag_WorkspaceID :: string
  ag_Revision :: int
  ag_Name :: string
  ag_OwnerID :: string
  ag_Description :: string
  ag_AvatarURL :: string
  ag_Role :: string
  ag_Instructions :: string
  ag_ConversationStarters :: "ConversationStarter list"
  ag_AccessPolicy :: AgentAccessPolicy
  ag_SkillIDs :: "string list"
  ag_DisabledRuntimeSkills :: "DisabledRuntimeSkill list"
  ag_MCPServerIDs :: "string list"
  ag_Capabilities :: "CapabilityRef list"
  ag_ToolPolicy :: ToolPolicy
  ag_MemoryPolicy :: MemoryPolicy
  ag_ExecutorBinding :: ExecutorBinding
  ag_ConcurrencyBudget :: Budget
  ag_InputSchema :: SchemaRef
  ag_OutputSchema :: SchemaRef
  ag_Graph :: WorkflowGraph
  ag_Status :: AgentStatus
  ag_CreatedBy :: string
  ag_CreatedAt :: int
  ag_UpdatedAt :: int

datatype SquadStatus = SquadDraft | SquadPublished | SquadDisabled | SquadArchived | SquadOther string

record CapabilityConstraint =
  cc_Name :: string
  cc_Required :: bool

record SquadMember =
  sm_ID :: string
  sm_AgentID :: string
  sm_SquadID :: string
  sm_Role :: string
  sm_Leader :: bool
  sm_InputSchema :: SchemaRef
  sm_OutputSchema :: SchemaRef
  sm_CapabilityConstraints :: "CapabilityConstraint list"
  sm_MaxAttempts :: int
  sm_Budget :: Budget
  sm_Optional :: bool

record SquadPolicy =
  sp_MaxNestingDepth :: int
  sp_Budget :: Budget
  sp_ToolPolicy :: ToolPolicy
  sp_HumanExitRequired :: bool

record SquadDefinition =
  sq_ID :: string
  sq_WorkspaceID :: string
  sq_Name :: string
  sq_Description :: string
  sq_Revision :: int
  sq_PublishedVersion :: int
  sq_Members :: "SquadMember list"
  sq_Graph :: WorkflowGraph
  sq_Policy :: SquadPolicy
  sq_Status :: SquadStatus

section \<open>Plans, leases, results and attempts\<close>

record PolicySnapshot =
  ps_Digest :: string
  ps_ToolPolicy :: ToolPolicy
  ps_Budget :: Budget
  ps_CapturedAt :: int

record ContextRef =
  cr_SessionID :: string
  cr_ManifestDigest :: string
  cr_ReplayKey :: string

datatype PlanStatus =
  PlanUnset | PlanDraft | PlanValidating | PlanReady | PlanWaiting | PlanRunning | PlanTerminal
  | PlanOther string

record RequirementExecutionPlan =
  pl_ID :: string
  pl_RequirementID :: string
  pl_WorkspaceID :: string
  pl_GraphSnapshot :: WorkflowGraph
  pl_SelectedRef :: VersionedRef
  pl_PolicySnapshot :: PolicySnapshot
  pl_ContextRoot :: ContextRef
  pl_PlanHash :: string
  pl_Status :: PlanStatus
  pl_Revision :: int
  pl_IdempotencyKey :: string
  pl_Deadline :: int
  pl_CreatedAt :: int
  pl_ParentPlanID :: string
  pl_ParentAttemptID :: string

record Lease =
  l_Key :: string
  l_Owner :: string
  l_FencingToken :: int
  l_ExpiresAt :: int

record StructuredResult =
  sr_Outcome :: string
  sr_ReasonCode :: string
  sr_Fields :: fields
  sr_Summary :: string
  sr_EvidenceIDs :: "string list"

definition zeroResult :: StructuredResult where
  "zeroResult = \<lparr>sr_Outcome = '''', sr_ReasonCode = '''', sr_Fields = [], sr_Summary = '''',
     sr_EvidenceIDs = []\<rparr>"

datatype AttemptStatus =
  AttemptUnset | AttemptPending | AttemptReady | AttemptRunning | AttemptWaiting | AttemptPassed
  | AttemptFailed | AttemptCancelled | AttemptTimedOut | AttemptOther string

datatype RepairLifecycle =
  RepairUnset | RepairPlanned | RepairDispatched | RepairPatched | RepairVerifying | RepairVerified
  | RepairFailed | RepairExhausted | RepairOther string

record FailureReason =
  f_Code :: string
  f_Message :: string
  f_Retryable :: bool

text \<open>
  The fields of \<open>harness.ContextManifest\<close> and \<open>harness.ContextEnvelope\<close> that the reducer reads
  or checks. The verification of their digests (\<open>ContextEnvelope.Validate\<close>) is an argument of
  the operations that call it.
\<close>

record ContextManifest =
  cm_SessionID :: string
  cm_Version :: int
  cm_TokenBudget :: int
  cm_TokenEstimate :: int
  cm_Digest :: string

record ContextEnvelope =
  ce_Manifest :: ContextManifest
  ce_SelectionDigest :: string
  ce_ReplayKey :: string

record NodeAttempt =
  a_ID :: string
  a_PlanID :: string
  a_NodeID :: string
  a_AttemptNo :: int
  a_RunID :: string
  a_SessionID :: string
  a_WorkDir :: string
  a_Lease :: Lease
  a_IdempotencyKey :: string
  a_InputManifest :: ContextEnvelope
  a_OutputArtifacts :: "string list"
  a_Result :: StructuredResult
  a_RepairState :: RepairLifecycle
  a_RepairPlanID :: string
  a_Status :: AttemptStatus
  a_FailureReason :: "FailureReason option"
  a_ParentAttemptID :: string
  a_RetryOf :: string
  a_ChildPlanID :: string
  a_StartedAt :: "int option"
  a_FinishedAt :: "int option"

record FeedbackDecision =
  fd_ID :: string
  fd_PlanID :: string
  fd_SourceAttempt :: string
  fd_SourceNode :: string
  fd_TargetNode :: string
  fd_EdgeID :: string
  fd_StructuredResult :: StructuredResult
  fd_EvidenceIDs :: "string list"
  fd_Reason :: string
  fd_LoopCount :: int
  fd_IdempotencyKey :: string

record RepairPlan =
  rpl_ID :: string
  rpl_PlanID :: string
  rpl_RepairNodeID :: string
  rpl_RepairAttemptID :: string
  rpl_RepairAttemptIDs :: "string list"
  rpl_TargetNodeID :: string
  rpl_VerificationNodeIDs :: "string list"
  rpl_SourceAttemptIDs :: "string list"
  rpl_Scope :: "string list"
  rpl_MaxRounds :: int
  rpl_Round :: int
  rpl_State :: RepairLifecycle
  rpl_StateHistory :: "RepairLifecycle list"
  rpl_TargetAttemptID :: string
  rpl_VerificationAttempts :: "(string, string) gomap"
  rpl_VerifiedNodes :: "(string, bool) gomap"
  rpl_PatchArtifactIDs :: "string list"
  rpl_VerificationArtifactIDs :: "string list"
  rpl_LastReasonCode :: string

section \<open>The projection of a plan\<close>

record NodeProjection =
  np_NodeID :: string
  np_Status :: AttemptStatus
  np_CurrentAttempt :: string
  np_AttemptNo :: int
  np_RetryAt :: "int option"
  np_RetryCount :: int
  np_ReadyEdgeIDs :: "string list"

definition zeroNodeProjection :: NodeProjection where
  "zeroNodeProjection = \<lparr>np_NodeID = '''', np_Status = AttemptUnset, np_CurrentAttempt = '''',
     np_AttemptNo = 0, np_RetryAt = None, np_RetryCount = 0, np_ReadyEdgeIDs = []\<rparr>"

record PlanProjection =
  p_PlanID :: string
  p_Revision :: int
  p_Status :: PlanStatus
  p_TerminalOutcome :: string
  p_Nodes :: "(string, NodeProjection) gomap"
  p_Attempts :: "(string, NodeAttempt) gomap"
  p_Traversals :: "(string, int) gomap"
  p_Decisions :: "FeedbackDecision list"
  p_RepairPlans :: "(string, RepairPlan) gomap"
  p_Idempotency :: "(string, string) gomap"
  p_TokenUsage :: int
  p_ToolCalls :: int
  p_CostCents :: int

record TransitionInput =
  in_PlanRevision :: int
  in_AttemptID :: string
  in_LeaseToken :: int
  in_Event :: string
  in_Result :: StructuredResult
  in_Failure :: "FailureReason option"
  in_OutputArtifacts :: "string list"
  in_IdempotencyKey :: string
  in_PayloadHash :: string
  in_Now :: int

section \<open>Sentinel errors\<close>

definition ErrStaleAttempt :: go_error where
  "ErrStaleAttempt = Sentinel ''stale attempt''"

definition ErrInvalidTransition :: go_error where
  "ErrInvalidTransition = Sentinel ''invalid transition''"

definition ErrAmbiguousTransition :: go_error where
  "ErrAmbiguousTransition = Sentinel ''ambiguous transition''"

definition ErrLoopExhausted :: go_error where
  "ErrLoopExhausted = Sentinel ''loop traversal limit exhausted''"

definition ErrLeaseLost :: go_error where
  "ErrLeaseLost = Sentinel ''lease or fencing token is no longer valid''"

definition ErrIdempotencyConflict :: go_error where
  "ErrIdempotencyConflict = Sentinel ''idempotency key payload conflict''"

definition ErrEvidenceRequired :: go_error where
  "ErrEvidenceRequired = Sentinel ''terminal transition requires committed evidence''"

definition ErrDeadlineExceeded :: go_error where
  "ErrDeadlineExceeded = Sentinel ''plan or node deadline exceeded''"

definition ErrBudgetExceeded :: go_error where
  "ErrBudgetExceeded = Sentinel ''execution budget exceeded''"

definition ErrRetryBackoff :: go_error where
  "ErrRetryBackoff = Sentinel ''retry backoff is still active''"

lemmas sentinel_defs = ErrStaleAttempt_def ErrInvalidTransition_def ErrAmbiguousTransition_def
  ErrLoopExhausted_def ErrLeaseLost_def ErrIdempotencyConflict_def ErrEvidenceRequired_def
  ErrDeadlineExceeded_def ErrBudgetExceeded_def ErrRetryBackoff_def

section \<open>Small helpers the files share\<close>

definition contains :: "string list \<Rightarrow> string \<Rightarrow> bool" where
  "contains xs v \<longleftrightarrow> v \<in> set xs"

text \<open>\<open>appendUnique\<close>: the non-empty strings of both slices, each at its first occurrence.\<close>

fun append_unique_loop :: "string list \<Rightarrow> string list \<Rightarrow> string list" where
  "append_unique_loop acc [] = acc"
| "append_unique_loop acc (v # vs) =
     (if v = '''' \<or> v \<in> set acc then append_unique_loop acc vs
      else append_unique_loop (acc @ [v]) vs)"

definition appendUnique :: "string list \<Rightarrow> string list \<Rightarrow> string list" where
  "appendUnique values additions = append_unique_loop [] (values @ additions)"

lemma set_append_unique_loop:
  "set (append_unique_loop acc vs) = set acc \<union> (set vs - {''''})"
  by (induction acc vs rule: append_unique_loop.induct) auto

lemma distinct_append_unique_loop:
  "distinct acc \<Longrightarrow> distinct (append_unique_loop acc vs)"
  by (induction acc vs rule: append_unique_loop.induct) auto

lemma set_appendUnique [simp]: "set (appendUnique xs ys) = (set xs \<union> set ys) - {''''}"
  by (auto simp: appendUnique_def set_append_unique_loop)

lemma distinct_appendUnique [simp]: "distinct (appendUnique xs ys)"
  by (simp add: appendUnique_def distinct_append_unique_loop)

lemma find_node_ID: "i \<in> n_ID ` set ns \<Longrightarrow> n_ID (find_node ns i) = i \<and> find_node ns i \<in> set ns"
  by (induction ns) auto

end
