(* ===== verification/Orch_Predicate.thy ===== *)
theory Orch_Predicate
  imports Orch_Model
begin

text \<open>
  The predicate language of edges and gates (\<open>validate.go\<close>): \<open>ValidatePredicate\<close> accepts a bounded
  data AST, \<open>EvaluatePredicate\<close> evaluates it against the fields of a result. The loops over the
  children of a composite predicate are functions of their own, mutually recursive with the
  predicate's. Indexing the children of a \<open>not\<close> can panic, which is an error value here.
\<close>

section \<open>Operations\<close>

fun number :: "any \<Rightarrow> gofloat option" where
  "number (VInt n) = Some (float_of_int n)"
| "number (VInt64 n) = Some (float_of_int n)"
| "number (VFloat64 f) = Some f"
| "number (VFloat32 f) = Some f"
| "number _ = None"

text \<open>\<open>reflect.DeepEqual\<close> on the values the code compares: the dynamic types are the same and the
  contents are equal, maps entry by entry.\<close>

primrec deepEqual :: "any \<Rightarrow> any \<Rightarrow> bool" where
  "deepEqual VNil w = (w = VNil)"
| "deepEqual (VBool b) w = (w = VBool b)"
| "deepEqual (VString s) w = (w = VString s)"
| "deepEqual (VInt n) w = (w = VInt n)"
| "deepEqual (VInt8 n) w = (w = VInt8 n)"
| "deepEqual (VInt16 n) w = (w = VInt16 n)"
| "deepEqual (VInt32 n) w = (w = VInt32 n)"
| "deepEqual (VInt64 n) w = (w = VInt64 n)"
| "deepEqual (VUint n) w = (w = VUint n)"
| "deepEqual (VUint64 n) w = (w = VUint64 n)"
| "deepEqual (VFloat64 f) w = (case w of VFloat64 g \<Rightarrow> float_eq f g | _ \<Rightarrow> False)"
| "deepEqual (VFloat32 f) w = (case w of VFloat32 g \<Rightarrow> float_eq f g | _ \<Rightarrow> False)"
| "deepEqual (VStrings xs) w = (w = VStrings xs)"
| "deepEqual (VSlice e xs) w =
     (case w of VSlice e' ys \<Rightarrow> e = e' \<and> list_all2 (\<lambda>f y. f y) (map deepEqual xs) ys | _ \<Rightarrow> False)"
| "deepEqual (VMap e m) w =
     (case w of
        VMap e' m' \<Rightarrow> e = e' \<and> length m = length m' \<and>
          list_all (\<lambda>(k, f). case map_of m' k of Some y \<Rightarrow> f y | None \<Rightarrow> False)
            (map (map_prod (\<lambda>k. k) deepEqual) m)
      | _ \<Rightarrow> False)"
| "deepEqual (VBudget b) w = (w = VBudget b)"

definition fieldKind :: "string \<Rightarrow> bool" where
  "fieldKind kind \<longleftrightarrow> kind \<in> set [''field_eq'', ''number_cmp'', ''contains'', ''exists'']"

definition compositeKind :: "string \<Rightarrow> bool" where
  "compositeKind kind \<longleftrightarrow> kind \<in> set [''all'', ''any'', ''not'']"

text \<open>The checks of a field comparison: the first branch of the switch in \<open>ValidatePredicate\<close>.\<close>

definition validateField :: "string \<Rightarrow> string \<Rightarrow> string \<Rightarrow> any \<Rightarrow> string \<Rightarrow> go_error option" where
  "validateField kind field op val path =
     first_err
       [guard (blank field) (Errorf ''%s.field.required'' [ArgS path]),
        guard (kind = ''contains'' \<and> (case val of VString _ \<Rightarrow> False | _ \<Rightarrow> True))
          (Errorf ''%s.value.string_required'' [ArgS path]),
        guard (kind = ''number_cmp'' \<and> op \<notin> set [''eq'', ''ne'', ''lt'', ''lte'', ''gt'', ''gte''])
          (Errorf ''%s.op.invalid'' [ArgS path]),
        guard (kind = ''number_cmp'' \<and> number val = None)
          (Errorf ''%s.value.number_required'' [ArgS path])]"

text \<open>The checks of a composite before its children: the second branch of the switch.\<close>

definition validateArity :: "string \<Rightarrow> nat \<Rightarrow> string \<Rightarrow> go_error option" where
  "validateArity kind n path =
     first_err
       [guard (n = 0) (Errorf ''%s.children.required'' [ArgS path]),
        guard (kind = ''not'' \<and> n \<noteq> 1) (Errorf ''%s.children.one_required'' [ArgS path]),
        guard (32 < n) (Errorf ''%s.children.too_many'' [ArgS path])]"

definition childPath :: "string \<Rightarrow> nat \<Rightarrow> string" where
  "childPath path i = path @ ''.children['' @ utoa i @ '']''"

definition depthExceeded :: "string \<Rightarrow> go_error" where
  "depthExceeded path = Errorf ''%s.depth_exceeded'' [ArgS path]"

definition kindInvalid :: "string \<Rightarrow> go_error" where
  "kindInvalid path = Errorf ''%s.kind.invalid'' [ArgS path]"

fun ValidatePredicate :: "Predicate \<Rightarrow> nat \<Rightarrow> string \<Rightarrow> go_error option"
  and ValidateChildren :: "Predicate list \<Rightarrow> nat \<Rightarrow> nat \<Rightarrow> string \<Rightarrow> go_error option" where
  "ValidatePredicate (Predicate kind field op val cs) depth path =
     (if 8 < depth then Some (depthExceeded path)
      else if blank kind then None
      else if fieldKind kind then validateField kind field op val path
      else if compositeKind kind then
        (case validateArity kind (length cs) path of
           Some e \<Rightarrow> Some e
         | None \<Rightarrow> ValidateChildren cs 0 depth path)
      else Some (kindInvalid path))"
| "ValidateChildren [] i depth path = None"
| "ValidateChildren (c # cs) i depth path =
     (case ValidatePredicate c (Suc depth) (childPath path i) of
        Some e \<Rightarrow> Some e
      | None \<Rightarrow> ValidateChildren cs (Suc i) depth path)"

text \<open>The comparison of one field (the part of \<open>evalPredicate\<close> after the lookup).\<close>

definition evalField :: "string \<Rightarrow> string \<Rightarrow> any \<Rightarrow> any \<Rightarrow> bool" where
  "evalField kind op val v =
     (if kind = ''contains'' then
        (case v of VString sv \<Rightarrow> (case val of VString needle \<Rightarrow> Contains sv needle | _ \<Rightarrow> False)
         | _ \<Rightarrow> False)
      else if kind = ''field_eq'' then deepEqual v val
      else if kind = ''number_cmp'' then
        (case number v of None \<Rightarrow> False
         | Some a \<Rightarrow>
           (case number val of None \<Rightarrow> False
            | Some b \<Rightarrow>
              (if op = ''eq'' then float_eq a b
               else if op = ''ne'' then \<not> float_eq a b
               else if op = ''lt'' then float_less a b
               else if op = ''lte'' then float_less a b \<or> float_eq a b
               else if op = ''gt'' then float_less b a
               else if op = ''gte'' then float_less b a \<or> float_eq b a
               else False)))
      else False)"

datatype predKind = KAll | KAny | KNot | KExists | KField

definition predKindOf :: "string \<Rightarrow> predKind" where
  "predKindOf kind =
     (if kind = ''all'' then KAll else if kind = ''any'' then KAny else if kind = ''not'' then KNot
      else if kind = ''exists'' then KExists else KField)"

definition panicIndex :: go_error where
  "panicIndex = Panic ''index out of range [0] with length 0''"

fun evalPredicate :: "Predicate \<Rightarrow> fields \<Rightarrow> go_error + bool"
  and evalAll :: "Predicate list \<Rightarrow> fields \<Rightarrow> go_error + bool"
  and evalAny :: "Predicate list \<Rightarrow> fields \<Rightarrow> go_error + bool" where
  "evalPredicate (Predicate kind field op val cs) f =
     (case predKindOf kind of
        KAll \<Rightarrow> evalAll cs f
      | KAny \<Rightarrow> evalAny cs f
      | KNot \<Rightarrow>
          (case cs of
             [] \<Rightarrow> Inl panicIndex
           | c # _ \<Rightarrow> (case evalPredicate c f of Inl e \<Rightarrow> Inl e | Inr b \<Rightarrow> Inr (\<not> b)))
      | KExists \<Rightarrow> Inr (mget f field \<noteq> None)
      | KField \<Rightarrow>
          (case mget f field of None \<Rightarrow> Inr False | Some v \<Rightarrow> Inr (evalField kind op val v)))"
| "evalAll [] f = Inr True"
| "evalAll (c # cs) f =
     (case evalPredicate c f of Inl e \<Rightarrow> Inl e | Inr b \<Rightarrow> if b then evalAll cs f else Inr False)"
| "evalAny [] f = Inr False"
| "evalAny (c # cs) f =
     (case evalPredicate c f of Inl e \<Rightarrow> Inl e | Inr b \<Rightarrow> if b then Inr True else evalAny cs f)"

definition EvaluatePredicate :: "Predicate \<Rightarrow> fields \<Rightarrow> go_error + bool" where
  "EvaluatePredicate p f =
     (case ValidatePredicate p 0 ''predicate'' of
        Some e \<Rightarrow> Inl e
      | None \<Rightarrow> if blank (pr_Kind p) then Inr True else evalPredicate p f)"

section \<open>Meaning\<close>

text \<open>What a predicate means: composites are the logical connectives, a field comparison is false on
  a missing field.\<close>

fun pred_holds :: "Predicate \<Rightarrow> fields \<Rightarrow> bool" where
  "pred_holds (Predicate kind field op val cs) f =
     (case predKindOf kind of
        KAll \<Rightarrow> (\<forall>c\<in>set cs. pred_holds c f)
      | KAny \<Rightarrow> (\<exists>c\<in>set cs. pred_holds c f)
      | KNot \<Rightarrow> (\<forall>c\<in>set cs. \<not> pred_holds c f)
      | KExists \<Rightarrow> mget f field \<noteq> None
      | KField \<Rightarrow> (\<exists>v. mget f field = Some v \<and> evalField kind op val v))"

text \<open>The bound the validator puts on the shape: composites nested at most \<open>d\<close> deep, with 1 to 32
  children.\<close>

fun bounded_pred :: "nat \<Rightarrow> Predicate \<Rightarrow> bool" where
  "bounded_pred d (Predicate kind field op val cs) \<longleftrightarrow>
     (compositeKind kind \<longrightarrow>
        0 < d \<and> cs \<noteq> [] \<and> length cs \<le> 32 \<and> (predKindOf kind = KNot \<longrightarrow> length cs = 1) \<and>
        (\<forall>c\<in>set cs. bounded_pred (d - 1) c))"

lemma kind_cases:
  "compositeKind kind \<Longrightarrow> \<not> blank kind \<and> \<not> fieldKind kind"
proof -
  have "\<not> blank ''all''" "\<not> blank ''any''" "\<not> blank ''not''" by code_simp+
  then show "compositeKind kind \<Longrightarrow> \<not> blank kind \<and> \<not> fieldKind kind"
    by (auto simp: compositeKind_def fieldKind_def)
qed

lemma compositeKind_iff: "compositeKind kind \<longleftrightarrow> predKindOf kind \<in> {KAll, KAny, KNot}"
  by (auto simp: compositeKind_def predKindOf_def)

lemma ValidateChildren_None:
  "ValidateChildren cs i depth path = None \<Longrightarrow> c \<in> set cs \<Longrightarrow>
     \<exists>pa. ValidatePredicate c (Suc depth) pa = None"
  by (induction cs arbitrary: i) (auto split: option.splits)

lemma ValidatePredicate_children:
  assumes "ValidatePredicate (Predicate kind field op val cs) depth path = None"
    and "compositeKind kind"
  shows "depth \<le> 8 \<and> cs \<noteq> [] \<and> length cs \<le> 32 \<and> (predKindOf kind = KNot \<longrightarrow> length cs = 1) \<and>
     (\<forall>c\<in>set cs. \<exists>pa. ValidatePredicate c (Suc depth) pa = None)"
proof -
  from assms have "depth \<le> 8" and ar: "validateArity kind (length cs) path = None"
    and ch: "ValidateChildren cs 0 depth path = None"
    by (auto simp: kind_cases split: if_splits option.splits)
  moreover from ar have "cs \<noteq> [] \<and> length cs \<le> 32 \<and> (predKindOf kind = KNot \<longrightarrow> length cs = 1)"
    by (auto simp: validateArity_def check_simps predKindOf_def split: if_splits)
  ultimately show ?thesis using ValidateChildren_None by blast
qed

lemma ValidatePredicate_depth: "ValidatePredicate p depth path = None \<Longrightarrow> depth \<le> 8"
  by (cases p) (auto split: if_splits)

lemma validated_bounded:
  "ValidatePredicate p depth path = None \<Longrightarrow> bounded_pred (8 - depth) p"
proof (induction p arbitrary: depth path)
  case (Predicate kind field op val cs)
  show ?case
  proof (cases "compositeKind kind")
    case True
    note ch = ValidatePredicate_children [OF Predicate.prems True]
    have child: "\<forall>c\<in>set cs. bounded_pred (8 - Suc depth) c"
      using Predicate.IH ch by blast
    from ch have "hd cs \<in> set cs" by simp
    then have "Suc depth \<le> 8" using ch ValidatePredicate_depth by blast
    then have "0 < 8 - depth" by simp
    then show ?thesis using ch child by simp
  next
    case False
    then show ?thesis by simp
  qed
qed

text \<open>Whether a predicate is accepted does not depend on the path its errors are reported under.\<close>

lemma validateField_path: "validateField kind field op val pa = None \<longleftrightarrow> validateField kind field op val pb = None"
  by (simp add: validateField_def check_simps)

lemma validateArity_path: "validateArity kind n pa = None \<longleftrightarrow> validateArity kind n pb = None"
  by (simp add: validateArity_def check_simps)

lemma ValidatePredicate_path:
  "(ValidatePredicate p depth pa = None) = (ValidatePredicate p depth pb = None)"
  "(ValidateChildren cs i depth pa = None) = (ValidateChildren cs j depth pb = None)"
proof (induction p depth pa and cs i depth pa arbitrary: pb and j pb
    rule: ValidatePredicate_ValidateChildren.induct)
  case (1 kind field op val cs depth path)
  show ?case
  proof (cases "8 < depth \<or> blank kind \<or> fieldKind kind \<or> \<not> compositeKind kind")
    case True
    then show ?thesis using validateField_path by auto
  next
    case False
    have "ValidateChildren cs 0 depth path = None \<longleftrightarrow> ValidateChildren cs 0 depth pb = None"
      if "validateArity kind (length cs) path = None"
      using 1 False that by auto
    then show ?thesis using False validateArity_path [of kind "length cs" path pb]
      by (auto split: option.splits)
  qed
next
  case (2 i depth path)
  then show ?case by simp
next
  case (3 c cs i depth path)
  have "ValidatePredicate c (Suc depth) (childPath path i) = None \<longleftrightarrow>
      ValidatePredicate c (Suc depth) (childPath pb j) = None" using 3 by blast
  moreover have "ValidateChildren cs (Suc i) depth path = None \<longleftrightarrow> ValidateChildren cs (Suc j) depth pb = None"
    if "ValidatePredicate c (Suc depth) (childPath path i) = None" using 3 that by blast
  ultimately show ?case by (auto split: option.splits)
qed

lemma evalAll_holds:
  assumes "\<forall>c\<in>set cs. evalPredicate c f = Inr (pred_holds c f)"
  shows "evalAll cs f = Inr (\<forall>c\<in>set cs. pred_holds c f)"
  using assms by (induction cs) auto

lemma evalAny_holds:
  assumes "\<forall>c\<in>set cs. evalPredicate c f = Inr (pred_holds c f)"
  shows "evalAny cs f = Inr (\<exists>c\<in>set cs. pred_holds c f)"
  using assms by (induction cs) auto

lemma bounded_eval: "bounded_pred d p \<Longrightarrow> evalPredicate p f = Inr (pred_holds p f)"
proof (induction p arbitrary: d)
  case (Predicate kind field op val cs)
  have ch: "\<forall>c\<in>set cs. evalPredicate c f = Inr (pred_holds c f)"
    if "compositeKind kind"
    using Predicate that by fastforce
  show ?case
  proof (cases "compositeKind kind")
    case True
    then show ?thesis
      using ch Predicate.prems evalAll_holds [of cs f] evalAny_holds [of cs f]
      by (cases cs) (auto simp: compositeKind_iff)
  next
    case False
    then show ?thesis by (auto simp: compositeKind_iff split: option.splits predKind.splits)
  qed
qed

lemma validated_eval:
  "ValidatePredicate p depth path = None \<Longrightarrow> evalPredicate p f = Inr (pred_holds p f)"
  using validated_bounded bounded_eval by blast

lemma EvaluatePredicate_Inr:
  "EvaluatePredicate p f = Inr b \<longleftrightarrow>
     ValidatePredicate p 0 ''predicate'' = None \<and> b = (blank (pr_Kind p) \<or> pred_holds p f)"
  by (auto simp: EvaluatePredicate_def validated_eval split: option.splits)

section \<open>Properties\<close>

text \<open>
  C36: Predicate evaluation. A predicate that validates evaluates to its logical meaning (the short-circuit loops
  are conjunction and disjunction, a comparison on a missing field is false, the blank predicate is true),
  and one that does not is reported with the validation error. Evaluation never indexes a missing child, so
  it never panics.
\<close>

theorem EvaluatePredicate_meaning:
  "EvaluatePredicate p f =
     (case ValidatePredicate p 0 ''predicate'' of
        Some e \<Rightarrow> Inl e
      | None \<Rightarrow> Inr (blank (pr_Kind p) \<or> pred_holds p f))"
proof (cases "ValidatePredicate p 0 ''predicate''")
  case None
  then show ?thesis using EvaluatePredicate_Inr [of p f "blank (pr_Kind p) \<or> pred_holds p f"] by simp
next
  case (Some e)
  then show ?thesis by (simp add: EvaluatePredicate_def)
qed

end
