(* ===== verification/Graph_Search.thy ===== *)
theory Graph_Search
  imports Go_Prelude
begin

text \<open>
  The graph searches of \<open>validate.go\<close> and \<open>transition.go\<close> over adjacency maps: the breadth-first
  marking loops, the breadth-first path searches, and the three-colour depth-first search for a
  cycle. Each loop is a function with a termination proof, and each is shown to compute what it
  stands for: the nodes reachable from the queue, a path in the reflexive transitive closure, a
  cycle of the edge relation.
\<close>

section \<open>Loops\<close>

text \<open>\<open>for len(q) > 0 { id := q[0]; q = q[1:]; if seen[id] { continue }; seen[id] = true;
  q = append(q, outgoing[id]...) }\<close>\<close>

function bfs_mark :: "('a, 'a list) gomap \<Rightarrow> 'a list \<Rightarrow> 'a list \<Rightarrow> 'a list" where
  "bfs_mark out [] seen = seen"
| "bfs_mark out (x # q) seen =
     (if x \<in> set seen then bfs_mark out q seen
      else bfs_mark out (q @ mget0 [] out x) (x # seen))"
  by pat_completeness auto

lemma mget0_no_key: "x \<notin> set (mkeys out) \<Longrightarrow> mget0 z out x = z"
  by (metis mget0_def mkeys_mget option.simps(4))

lemma visit_measure:
  assumes "x \<notin> set seen"
    and "\<not> card (fst ` set out - insert x (set seen)) < card (fst ` set out - set seen)"
  shows "card (fst ` set out - insert x (set seen)) = card (fst ` set out - set seen) \<and>
    mget0 [] out x = []"
proof (cases "x \<in> fst ` set out")
  case True
  then have "fst ` set out - insert x (set seen) \<subset> fst ` set out - set seen"
    using assms(1) by blast
  then show ?thesis using assms(2) by (simp add: psubset_card_mono)
next
  case False
  then have "fst ` set out - insert x (set seen) = fst ` set out - set seen" by blast
  then show ?thesis using False mget0_no_key [of x out "[]"] by simp
qed

termination bfs_mark
  by (relation "measures [\<lambda>(out, q, seen). card (set (mkeys out) - set seen), \<lambda>(out, q, seen). length q]")
    (auto dest: visit_measure)

text \<open>The loop of \<open>pathExists\<close>: the target is tested before the seen mark.\<close>

function path_loop :: "('a, 'a list) gomap \<Rightarrow> 'a \<Rightarrow> 'a list \<Rightarrow> 'a list \<Rightarrow> bool" where
  "path_loop out t [] seen = False"
| "path_loop out t (x # q) seen =
     (if x = t then True
      else if x \<in> set seen then path_loop out t q seen
      else path_loop out t (q @ mget0 [] out x) (x # seen))"
  by pat_completeness auto
termination
  by (relation "measures [\<lambda>(out, t, q, seen). card (set (mkeys out) - set seen), \<lambda>(out, t, q, seen). length q]")
    (auto dest: visit_measure)

text \<open>The loop of \<open>hasHumanExit\<close>: the seen mark is tested before the goal.\<close>

function goal_loop :: "('a, 'a list) gomap \<Rightarrow> ('a \<Rightarrow> bool) \<Rightarrow> 'a list \<Rightarrow> 'a list \<Rightarrow> bool" where
  "goal_loop out P [] seen = False"
| "goal_loop out P (x # q) seen =
     (if x \<in> set seen then goal_loop out P q seen
      else if P x then True
      else goal_loop out P (q @ mget0 [] out x) (x # seen))"
  by pat_completeness auto
termination
  by (relation "measures [\<lambda>(out, P, q, seen). card (set (mkeys out) - set seen), \<lambda>(out, P, q, seen). length q]")
    (auto dest: visit_measure)

text \<open>
  The loop of \<open>repairPathExists\<close> over a list of edges: the inner loop returns at once when it
  meets the target and otherwise marks and enqueues what it has not seen.
\<close>

fun scan_succs :: "'a \<Rightarrow> 'a list \<Rightarrow> 'a list \<Rightarrow> 'a list \<Rightarrow> ('a list \<times> 'a list) option" where
  "scan_succs t [] q seen = Some (q, seen)"
| "scan_succs t (y # ys) q seen =
     (if y = t then None
      else if y \<in> set seen then scan_succs t ys q seen
      else scan_succs t ys (q @ [y]) (y # seen))"

definition succs :: "('a \<times> 'a) list \<Rightarrow> 'a \<Rightarrow> 'a list" where
  "succs es x = map snd (filter (\<lambda>e. fst e = x) es)"

lemma set_succs [simp]: "set (succs es x) = {y. (x, y) \<in> set es}"
  by (force simp: succs_def)

lemma scan_succs_Some:
  "scan_succs t ys q seen = Some (q', seen') \<Longrightarrow>
     (\<exists>new. q' = q @ new \<and> set new = set ys - set seen) \<and> set seen' = set seen \<union> set ys \<and> t \<notin> set ys"
proof (induction t ys q seen rule: scan_succs.induct)
  case (1 t q seen)
  then show ?case by auto
next
  case (2 t y ys q seen)
  show ?case
  proof (cases "y \<in> set seen")
    case True
    with "2.prems" have "scan_succs t ys q seen = Some (q', seen')" and "y \<noteq> t"
      by (auto split: if_splits)
    with "2.IH"(1) True show ?thesis by fastforce
  next
    case False
    with "2.prems" have sc: "scan_succs t ys (q @ [y]) (y # seen) = Some (q', seen')" and "y \<noteq> t"
      by (auto split: if_splits)
    from "2.IH"(2) [OF \<open>y \<noteq> t\<close> False sc] obtain new
      where "q' = q @ y # new" and "set new = set ys - insert y (set seen)"
        and "set seen' = insert y (set seen) \<union> set ys" and "t \<notin> set ys"
      by auto
    with False \<open>y \<noteq> t\<close> show ?thesis by (intro conjI exI [of _ "y # new"]) auto
  qed
qed

lemma scan_succs_None: "scan_succs t ys q seen = None \<longleftrightarrow> t \<in> set ys"
  by (induction t ys q seen rule: scan_succs.induct) auto

function repair_loop :: "('a \<times> 'a) list \<Rightarrow> 'a \<Rightarrow> 'a list \<Rightarrow> 'a list \<Rightarrow> bool" where
  "repair_loop es t [] seen = False"
| "repair_loop es t (x # q) seen =
     (case scan_succs t (succs es x) q seen of
        None \<Rightarrow> True
      | Some (q', seen') \<Rightarrow> repair_loop es t q' seen')"
  by pat_completeness auto
termination
proof (relation "measures [\<lambda>(es, t, q, seen). card (snd ` set es - set seen), \<lambda>(es, t, q, seen). length q]",
    goal_cases)
  case 1
  then show ?case by simp
next
  case (2 es t x q seen y q' seen')
  then have sc: "scan_succs t (succs es x) q seen = Some (q', seen')" by simp
  from scan_succs_Some [OF sc] obtain new where new: "q' = q @ new" "set new = set (succs es x) - set seen"
    and seen': "set seen' = set seen \<union> set (succs es x)" by blast
  show ?case
  proof (cases new)
    case Nil
    then have "set seen' = set seen" using new seen' by auto
    then show ?thesis using new Nil by simp
  next
    case (Cons y new')
    then have y: "y \<in> set (succs es x)" "y \<notin> set seen" using new by auto
    then have "y \<in> snd ` set es" by force
    then have "snd ` set es - set seen' \<subset> snd ` set es - set seen" using y seen' by blast
    then have "card (snd ` set es - set seen') < card (snd ` set es - set seen)"
      by (intro psubset_card_mono) auto
    then show ?thesis by simp
  qed
qed

section \<open>Reachability\<close>

definition out_rel :: "('a, 'a list) gomap \<Rightarrow> ('a \<times> 'a) set" where
  "out_rel out = {(x, y). y \<in> set (mget0 [] out x)}"

lemma out_rel_Image: "out_rel out `` {x} = set (mget0 [] out x)"
  by (auto simp: out_rel_def)

lemma rtrancl_Image_closed: "r `` X \<subseteq> X \<Longrightarrow> r\<^sup>* `` X \<subseteq> X"
proof
  fix y
  assume cl: "r `` X \<subseteq> X" and "y \<in> r\<^sup>* `` X"
  then obtain x where "x \<in> X" "(x, y) \<in> r\<^sup>*" by blast
  from this(2,1) cl show "y \<in> X" by (induction rule: rtrancl_induct) auto
qed

lemma bfs_mark_sound:
  "set (bfs_mark out q seen) \<subseteq> set seen \<union> (out_rel out)\<^sup>* `` set q"
proof (induction out q seen rule: bfs_mark.induct)
  case (1 out seen)
  then show ?case by simp
next
  case (2 out x q seen)
  have step: "(out_rel out)\<^sup>* `` set (mget0 [] out x) \<subseteq> (out_rel out)\<^sup>* `` {x}"
    using out_rel_Image [of out x] by (blast intro: converse_rtrancl_into_rtrancl)
  show ?case
  proof (cases "x \<in> set seen")
    case True
    with 2 show ?thesis by auto
  next
    case False
    then have "set (bfs_mark out (x # q) seen) \<subseteq>
        insert x (set seen) \<union> ((out_rel out)\<^sup>* `` set q \<union> (out_rel out)\<^sup>* `` set (mget0 [] out x))"
      using "2.IH"(2) by (simp add: Image_Un)
    moreover have "(out_rel out)\<^sup>* `` set (x # q) = (out_rel out)\<^sup>* `` {x} \<union> (out_rel out)\<^sup>* `` set q"
      by auto
    ultimately show ?thesis using step by blast
  qed
qed

lemma bfs_mark_complete:
  assumes "out_rel out `` set seen \<subseteq> set seen \<union> set q"
  shows "set seen \<union> set q \<subseteq> set (bfs_mark out q seen) \<and>
    out_rel out `` set (bfs_mark out q seen) \<subseteq> set (bfs_mark out q seen)"
  using assms
proof (induction out q seen rule: bfs_mark.induct)
  case (1 out seen)
  then show ?case by simp
next
  case (2 out x q seen)
  show ?case
  proof (cases "x \<in> set seen")
    case True
    with 2 show ?thesis by auto
  next
    case False
    have "out_rel out `` set (x # seen) \<subseteq> set (x # seen) \<union> set (q @ mget0 [] out x)"
      using "2.prems" out_rel_Image [of out x] by auto
    with "2.IH"(2) [OF False] False show ?thesis by auto
  qed
qed

theorem bfs_mark_reachable: "set (bfs_mark out q []) = (out_rel out)\<^sup>* `` set q"
proof
  show "set (bfs_mark out q []) \<subseteq> (out_rel out)\<^sup>* `` set q"
    using bfs_mark_sound [of out q "[]"] by simp
  have "set q \<subseteq> set (bfs_mark out q [])"
    and cl: "out_rel out `` set (bfs_mark out q []) \<subseteq> set (bfs_mark out q [])"
    using bfs_mark_complete [of out "[]" q] by auto
  then show "(out_rel out)\<^sup>* `` set q \<subseteq> set (bfs_mark out q [])"
    using rtrancl_Image_closed [OF cl] by blast
qed

text \<open>The path searches return true exactly when the marking loop would mark a goal.\<close>

lemma bfs_mark_mono: "set seen \<subseteq> set (bfs_mark out q seen)"
  by (induction out q seen rule: bfs_mark.induct) auto

lemma goal_loop_mark:
  "(\<forall>x\<in>set seen. \<not> P x) \<Longrightarrow> goal_loop out P q seen \<longleftrightarrow> (\<exists>x\<in>set (bfs_mark out q seen). P x)"
proof (induction out P q seen rule: goal_loop.induct)
  case (1 out P seen)
  then show ?case by simp
next
  case (2 out P x q seen)
  have "x \<in> set (bfs_mark out (q @ mget0 [] out x) (x # seen))"
    using bfs_mark_mono [of "x # seen" out "q @ mget0 [] out x"] by simp
  with 2 show ?case by auto
qed

lemma path_loop_mark:
  "t \<notin> set seen \<Longrightarrow> path_loop out t q seen \<longleftrightarrow> t \<in> set (bfs_mark out q seen)"
proof (induction out t q seen rule: path_loop.induct)
  case (1 out t seen)
  then show ?case by simp
next
  case (2 out t x q seen)
  have "x \<in> set (bfs_mark out (q @ mget0 [] out x) (x # seen))"
    using bfs_mark_mono [of "x # seen" out "q @ mget0 [] out x"] by simp
  with 2 show ?case by auto
qed

theorem path_loop_reachable: "path_loop out t [s] [] \<longleftrightarrow> (s, t) \<in> (out_rel out)\<^sup>*"
  using path_loop_mark [of t "[]" out "[s]"] bfs_mark_reachable [of out "[s]"]
  by (simp del: path_loop.simps bfs_mark.simps)

theorem goal_loop_reachable: "goal_loop out P [s] [] \<longleftrightarrow> (\<exists>x. (s, x) \<in> (out_rel out)\<^sup>* \<and> P x)"
  using goal_loop_mark [of "[]" P out "[s]"] bfs_mark_reachable [of out "[s]"]
  by (auto simp del: goal_loop.simps bfs_mark.simps)

lemma repair_loop_sound:
  "repair_loop es t q seen \<Longrightarrow> \<exists>x\<in>set q. (x, t) \<in> (set es)\<^sup>+"
proof (induction es t q seen rule: repair_loop.induct)
  case (1 es t seen)
  then show ?case by simp
next
  case (2 es t x q seen)
  show ?case
  proof (cases "scan_succs t (succs es x) q seen")
    case None
    then have "(x, t) \<in> set es" by (simp add: scan_succs_None)
    then show ?thesis by auto
  next
    case (Some r)
    then obtain q' seen' where r: "scan_succs t (succs es x) q seen = Some (q', seen')"
      by (cases r) auto
    with "2.prems" "2.IH" obtain y where y: "y \<in> set q'" "(y, t) \<in> (set es)\<^sup>+" by fastforce
    from scan_succs_Some [OF r] y(1) have "y \<in> set q \<or> (x, y) \<in> set es" by auto
    with y(2) show ?thesis by (auto intro: trancl_into_trancl2)
  qed
qed

lemma repair_loop_complete:
  assumes "\<not> repair_loop es t q seen" and "set q \<subseteq> set seen"
    and "set es `` (set seen - set q) \<subseteq> set seen" and "t \<notin> set es `` (set seen - set q)"
  shows "\<exists>S. set seen \<subseteq> S \<and> set es `` S \<subseteq> S \<and> t \<notin> set es `` S"
  using assms
proof (induction es t q seen rule: repair_loop.induct)
  case (1 es t seen)
  then show ?case by auto
next
  case (2 es t x q seen)
  from "2.prems"(1) obtain q' seen' where r: "scan_succs t (succs es x) q seen = Some (q', seen')"
    and nr: "\<not> repair_loop es t q' seen'" by (auto split: option.splits)
  from scan_succs_Some [OF r] have q': "set q' = set q \<union> (set es `` {x} - set seen)"
    and seen': "set seen' = set seen \<union> set es `` {x}" and nt: "t \<notin> set es `` {x}" by auto
  have sub: "set seen' - set q' \<subseteq> insert x (set seen - set (x # q))"
    using q' seen' by auto
  have im: "set es `` (set seen' - set q') \<subseteq> set es `` {x} \<union> set es `` (set seen - set (x # q))"
    using sub by blast
  have ex: "\<exists>S. set seen' \<subseteq> S \<and> set es `` S \<subseteq> S \<and> t \<notin> set es `` S"
  proof (rule "2.IH" [OF r _ nr])
    show "(q', seen') = (q', seen')" by simp
    show "set q' \<subseteq> set seen'" using q' seen' "2.prems"(2) by auto
    have "set es `` {x} \<union> set es `` (set seen - set (x # q)) \<subseteq> set seen'"
      using "2.prems"(3) unfolding seen' by (simp add: le_supI1)
    with im show "set es `` (set seen' - set q') \<subseteq> set seen'" by (rule order_trans)
    have "t \<notin> set es `` {x} \<union> set es `` (set seen - set (x # q))"
      using nt "2.prems"(4) by simp
    with im show "t \<notin> set es `` (set seen' - set q')" by (rule contra_subsetD)
  qed
  have "set seen \<subseteq> set seen'" unfolding seen' by simp
  with ex show ?case by (meson order_trans)
qed

theorem repair_loop_reachable:
  "s = t \<or> repair_loop es t [s] [s] \<longleftrightarrow> (s, t) \<in> (set es)\<^sup>*"
proof
  assume "s = t \<or> repair_loop es t [s] [s]"
  then show "(s, t) \<in> (set es)\<^sup>*"
    using repair_loop_sound [of es t "[s]" "[s]"] by (auto simp del: repair_loop.simps intro: trancl_into_rtrancl)
next
  assume p: "(s, t) \<in> (set es)\<^sup>*"
  show "s = t \<or> repair_loop es t [s] [s]"
  proof (rule ccontr)
    assume neg: "\<not> (s = t \<or> repair_loop es t [s] [s])"
    then obtain S where S: "s \<in> S" "set es `` S \<subseteq> S" "t \<notin> set es `` S"
      using repair_loop_complete [of es t "[s]" "[s]"] by auto
    from p neg obtain u where "(s, u) \<in> (set es)\<^sup>*" "(u, t) \<in> set es"
      by (metis rtranclE)
    moreover have "u \<in> S" using rtrancl_Image_closed [OF S(2)] S(1) calculation(1) by blast
    ultimately show False using S(3) by blast
  qed
qed

section \<open>The contract of a path search\<close>

locale path_search =
  fixes finds :: "'a \<Rightarrow> 'a \<Rightarrow> bool"
    and step :: "('a \<times> 'a) set"
  assumes finds_iff: "finds x y \<longleftrightarrow> (x, y) \<in> step\<^sup>*"
begin

lemma finds_self: "finds x x"
  by (simp add: finds_iff)

lemma finds_step: "(x, y) \<in> step \<Longrightarrow> finds x y"
  by (auto simp: finds_iff)

lemma finds_compose: "finds x y \<Longrightarrow> finds y z \<Longrightarrow> finds x z"
  by (auto simp: finds_iff)

lemma finds_first_step: "finds x y \<Longrightarrow> x \<noteq> y \<Longrightarrow> \<exists>z. (x, z) \<in> step \<and> finds z y"
  by (auto simp: finds_iff elim: converse_rtranclE)

lemma finds_last_step: "finds x y \<Longrightarrow> x \<noteq> y \<Longrightarrow> \<exists>z. finds x z \<and> (z, y) \<in> step"
  by (auto simp: finds_iff elim: rtranclE)

end

section \<open>Cycle detection\<close>

text \<open>
  The recursive \<open>visit\<close> of \<open>ValidateGraph\<close>: an absent colour is 0, 1 is on the stack, 2 is
  finished. The loop over the outgoing edges of a node calls \<open>visit\<close> on a node of colour 0, which
  colours it 1, runs the loop on its edges and colours it 2; it stops at the first edge into a
  node of colour 1, whose edge is the error.
\<close>

type_synonym 'a colours = "('a, int) gomap"

abbreviation colour :: "'a colours \<Rightarrow> 'a \<Rightarrow> int" where
  "colour c x \<equiv> mget0 0 c x"

function dfs_edges ::
  "('a, 'e list) gomap \<Rightarrow> ('e \<Rightarrow> 'a) \<Rightarrow> 'e list \<Rightarrow> 'a colours \<Rightarrow> 'e option \<times> 'a colours" where
  "dfs_edges out dst [] c = (None, c)"
| "dfs_edges out dst (e # es) c =
     (if colour c (dst e) = 1 then (Some e, c)
      else if colour c (dst e) = 0 then
        (case dfs_edges out dst (mget0 [] out (dst e)) (mput (dst e) 1 c) of
           (Some err, c') \<Rightarrow> (Some err, c')
         | (None, c') \<Rightarrow> dfs_edges out dst es (mput (dst e) 2 c'))
      else dfs_edges out dst es c)"
  by pat_completeness auto

definition coloured :: "'a colours \<Rightarrow> 'a set" where
  "coloured c = {x. colour c x \<noteq> 0}"

lemma coloured_mput [simp]: "k \<noteq> 0 \<Longrightarrow> coloured (mput x k c) = insert x (coloured c)"
  by (auto simp: coloured_def)

definition targets :: "('a, 'e list) gomap \<Rightarrow> ('e \<Rightarrow> 'a) \<Rightarrow> 'e list \<Rightarrow> 'a set" where
  "targets out dst es = dst ` (set es \<union> (\<Union>l\<in>set (mvals out). set l))"

lemma finite_targets [simp]: "finite (targets out dst es)"
  by (simp add: targets_def)

lemma mget0_vals: "set (mget0 [] out x) \<subseteq> (\<Union>l\<in>set (mvals out). set l)"
  by (cases "mget out x") (use mget_in_vals in \<open>fastforce simp: mget0_def\<close>)+

lemma dfs_edges_grows:
  "dfs_edges_dom (out, dst, es, c) \<Longrightarrow> coloured c \<subseteq> coloured (snd (dfs_edges out dst es c))"
proof (induction out dst es c rule: dfs_edges.pinduct)
  case (1 out dst c)
  then show ?case by (simp add: dfs_edges.psimps)
next
  case (2 out dst e es c)
  then show ?case by (fastforce simp: dfs_edges.psimps split: prod.splits option.splits)
qed

termination dfs_edges
proof (relation "measures [\<lambda>(out, dst, es, c). card (targets out dst es - coloured c),
    \<lambda>(out, dst, es, c). length es]", goal_cases)
  case 1
  then show ?case by simp
next
  case (2 out dst e es c)
  have "targets out dst (mget0 [] out (dst e)) - insert (dst e) (coloured c) \<subset>
      targets out dst (e # es) - coloured c"
    using 2 mget0_vals [of out "dst e"] by (auto simp: targets_def coloured_def)
  then show ?case by (simp add: psubset_card_mono)
next
  case (3 out dst e es c r y)
  from 3 have eq: "dfs_edges out dst (mget0 [] out (dst e)) (mput (dst e) 1 c) = (None, y)"
    and dom: "dfs_edges_dom (out, dst, mget0 [] out (dst e), mput (dst e) 1 c)" by auto
  have "coloured (mput (dst e) 1 c) \<subseteq> coloured y"
    using dfs_edges_grows [OF dom] unfolding eq by simp
  then have "targets out dst es - coloured (mput (dst e) 2 y) \<subseteq> targets out dst (e # es) - coloured c"
    by (auto simp: targets_def)
  then have "card (targets out dst es - coloured (mput (dst e) 2 y)) \<le> card (targets out dst (e # es) - coloured c)"
    by (intro card_mono) auto
  then show ?case by (auto simp: le_less)
next
  case (4 out dst e es c)
  have "targets out dst es - coloured c \<subseteq> targets out dst (e # es) - coloured c"
    by (auto simp: targets_def)
  then have "card (targets out dst es - coloured c) \<le> card (targets out dst (e # es) - coloured c)"
    by (intro card_mono) auto
  then show ?case by (auto simp: le_less)
qed

text \<open>The outer loop over all nodes.\<close>

fun dfs_nodes :: "('a, 'e list) gomap \<Rightarrow> ('e \<Rightarrow> 'a) \<Rightarrow> 'a list \<Rightarrow> 'a colours \<Rightarrow> 'e option" where
  "dfs_nodes out dst [] c = None"
| "dfs_nodes out dst (x # xs) c =
     (if colour c x = 0 then
        (case dfs_edges out dst (mget0 [] out x) (mput x 1 c) of
           (Some err, c') \<Rightarrow> Some err
         | (None, c') \<Rightarrow> dfs_nodes out dst xs (mput x 2 c'))
      else dfs_nodes out dst xs c)"

definition edge_rel :: "('a, 'e list) gomap \<Rightarrow> ('e \<Rightarrow> 'a) \<Rightarrow> ('a \<times> 'a) set" where
  "edge_rel out dst = {(x, dst e) | x e. e \<in> set (mget0 [] out x)}"

lemma edge_rel_Image: "edge_rel out dst `` {x} = dst ` set (mget0 [] out x)"
  by (auto simp: edge_rel_def)

definition on_stack :: "'a colours \<Rightarrow> 'a set" where
  "on_stack c = {x. colour c x = 1}"

definition finished :: "'a colours \<Rightarrow> 'a set" where
  "finished c = {x. colour c x \<noteq> 0 \<and> colour c x \<noteq> 1}"

lemma stack_mput [simp]:
  "on_stack (mput x 1 c) = insert x (on_stack c)"
  "on_stack (mput x 2 c) = on_stack c - {x}"
  "finished (mput x 1 c) = finished c - {x}"
  "finished (mput x 2 c) = insert x (finished c)"
  by (auto simp: on_stack_def finished_def)

lemma dfs_edges_stack:
  "dfs_edges out dst es c = (None, c') \<Longrightarrow> on_stack c' = on_stack c \<and> finished c \<subseteq> finished c'"
proof (induction out dst es c arbitrary: c' rule: dfs_edges.induct)
  case (1 out dst c)
  then show ?case by simp
next
  case (2 out dst e es c)
  show ?case
  proof (cases "colour c (dst e) = 0")
    case True
    then obtain c1 where c1: "dfs_edges out dst (mget0 [] out (dst e)) (mput (dst e) 1 c) = (None, c1)"
      and rest: "dfs_edges out dst es (mput (dst e) 2 c1) = (None, c')"
      using "2.prems" by (auto split: prod.splits option.splits)
    from True have "dst e \<notin> on_stack c" "dst e \<notin> finished c" by (auto simp: on_stack_def finished_def)
    moreover have "on_stack c1 = on_stack (mput (dst e) 1 c) \<and> finished (mput (dst e) 1 c) \<subseteq> finished c1"
      using "2.IH"(1) True c1 by simp
    moreover have "on_stack c' = on_stack (mput (dst e) 2 c1) \<and> finished (mput (dst e) 2 c1) \<subseteq> finished c'"
      using "2.IH"(2) True c1 rest by auto
    ultimately show ?thesis by auto
  next
    case False
    with 2 show ?thesis by (auto split: if_splits)
  qed
qed

text \<open>The invariant of the search: the finished nodes are closed under edges and carry no cycle.\<close>

definition dfs_inv :: "('a \<times> 'a) set \<Rightarrow> 'a colours \<Rightarrow> bool" where
  "dfs_inv R c \<longleftrightarrow> R `` finished c \<subseteq> finished c \<and> acyclic (R \<inter> finished c \<times> UNIV)"

lemma acyclic_extend:
  assumes "acyclic (R \<inter> B \<times> UNIV)" and cl: "R `` B \<subseteq> B" and x: "x \<notin> B" and sub: "R `` {x} \<subseteq> B"
  shows "acyclic (R \<inter> insert x B \<times> UNIV)"
proof (rule acyclicI, rule allI, rule notI)
  fix y
  let ?S = "R \<inter> insert x B \<times> UNIV"
  assume cyc: "(y, y) \<in> ?S\<^sup>+"
  have inB: "(u, v) \<in> ?S\<^sup>+ \<Longrightarrow> u \<in> B \<Longrightarrow> v \<in> B \<and> (u, v) \<in> (R \<inter> B \<times> UNIV)\<^sup>+" for u v
  proof (induction rule: trancl_induct)
    case (base v)
    then show ?case using cl by auto
  next
    case (step v w)
    then have "v \<in> B" "(u, v) \<in> (R \<inter> B \<times> UNIV)\<^sup>+" by auto
    moreover from this(1) step(2) have "(v, w) \<in> R \<inter> B \<times> UNIV" by auto
    ultimately show ?case using cl by (auto intro: trancl_into_trancl)
  qed
  show False
  proof (cases "y \<in> B")
    case True
    then show False using inB [OF cyc] assms(1) by (auto simp: acyclic_def)
  next
    case False
    from cyc obtain z where z: "(y, z) \<in> ?S" and zy: "z = y \<or> (z, y) \<in> ?S\<^sup>+"
      by (meson tranclD rtranclD)
    with False have "y = x" by auto
    with z sub have "z \<in> B" by auto
    with zy False inB show False by auto
  qed
qed

lemma dfs_inv_finish:
  assumes "dfs_inv R c" and "x \<notin> finished c" and "R `` {x} \<subseteq> finished c"
  shows "dfs_inv R (mput x 2 c)"
proof -
  have "R `` insert x (finished c) = R `` {x} \<union> R `` finished c" by blast
  then show ?thesis
    using assms acyclic_extend [of R "finished c" x] by (auto simp: dfs_inv_def)
qed

lemma dfs_edges_inv:
  "dfs_edges out dst es c = (None, c') \<Longrightarrow> dfs_inv (edge_rel out dst) c \<Longrightarrow>
     dfs_inv (edge_rel out dst) c' \<and> dst ` set es \<subseteq> finished c'"
proof (induction out dst es c arbitrary: c' rule: dfs_edges.induct)
  case (1 out dst c)
  then show ?case by simp
next
  case (2 out dst e es c)
  let ?R = "edge_rel out dst"
  show ?case
  proof (cases "colour c (dst e) = 0")
    case True
    then obtain c1 where c1: "dfs_edges out dst (mget0 [] out (dst e)) (mput (dst e) 1 c) = (None, c1)"
      and rest: "dfs_edges out dst es (mput (dst e) 2 c1) = (None, c')"
      using "2.prems" by (auto split: prod.splits option.splits)
    from True have new: "dst e \<notin> finished c" by (auto simp: finished_def)
    then have "dfs_inv ?R (mput (dst e) 1 c)" using "2.prems"(2) by (simp add: dfs_inv_def)
    then have i1: "dfs_inv ?R c1" and s1: "dst ` set (mget0 [] out (dst e)) \<subseteq> finished c1"
      using "2.IH"(1) True c1 by auto
    have st: "on_stack c1 = insert (dst e) (on_stack c)" using dfs_edges_stack [OF c1] by simp
    then have "dst e \<notin> finished c1" by (auto simp: on_stack_def finished_def)
    then have "dfs_inv ?R (mput (dst e) 2 c1)"
      using i1 s1 by (intro dfs_inv_finish) (simp_all add: edge_rel_Image)
    then have "dfs_inv ?R c' \<and> dst ` set es \<subseteq> finished c'"
      using "2.IH"(2) True c1 rest by auto
    moreover have "dst e \<in> finished c'" using dfs_edges_stack [OF rest] by auto
    ultimately show ?thesis by simp
  next
    case False
    then have ne: "colour c (dst e) \<noteq> 1" and rest: "dfs_edges out dst es c = (None, c')"
      using "2.prems"(1) by (auto split: if_splits)
    with False have "dst e \<in> finished c'" using dfs_edges_stack [OF rest] by (auto simp: finished_def)
    then show ?thesis using "2.IH"(3) [OF ne False rest "2.prems"(2)] by simp
  qed
qed

lemma dfs_nodes_inv:
  "dfs_nodes out dst xs c = None \<Longrightarrow> dfs_inv (edge_rel out dst) c \<Longrightarrow> on_stack c = {} \<Longrightarrow>
     \<exists>c'. dfs_inv (edge_rel out dst) c' \<and> finished c \<union> set xs \<subseteq> finished c'"
proof (induction xs arbitrary: c)
  case Nil
  then show ?case by auto
next
  case (Cons x xs)
  let ?R = "edge_rel out dst"
  show ?case
  proof (cases "colour c x = 0")
    case True
    then obtain c1 where c1: "dfs_edges out dst (mget0 [] out x) (mput x 1 c) = (None, c1)"
      and rest: "dfs_nodes out dst xs (mput x 2 c1) = None"
      using Cons.prems(1) by (auto split: prod.splits option.splits)
    from True have new: "x \<notin> finished c" by (auto simp: finished_def)
    then have "dfs_inv ?R (mput x 1 c)" using Cons.prems(2) by (simp add: dfs_inv_def)
    then have i1: "dfs_inv ?R c1" and s1: "dst ` set (mget0 [] out x) \<subseteq> finished c1"
      using dfs_edges_inv [OF c1] by auto
    have st: "on_stack c1 = {x}" and fi: "finished c - {x} \<subseteq> finished c1"
      using dfs_edges_stack [OF c1] Cons.prems(3) by auto
    then have "x \<notin> finished c1" by (auto simp: on_stack_def finished_def)
    then have "dfs_inv ?R (mput x 2 c1)"
      using i1 s1 by (intro dfs_inv_finish) (simp_all add: edge_rel_Image)
    from Cons.IH [OF rest this] st obtain c' where
      "dfs_inv ?R c'" "finished (mput x 2 c1) \<union> set xs \<subseteq> finished c'" by auto
    then show ?thesis using fi new by (intro exI [of _ c']) auto
  next
    case False
    then have "x \<in> finished c" using Cons.prems(3) by (auto simp: on_stack_def finished_def)
    moreover obtain c' where "dfs_inv ?R c'" "finished c \<union> set xs \<subseteq> finished c'"
      using Cons.IH [of c] Cons.prems False by auto
    ultimately show ?thesis by (intro exI [of _ c']) auto
  qed
qed

lemma dfs_edges_cycle:
  "dfs_edges out dst es c = (Some err, c') \<Longrightarrow> dst ` set es \<subseteq> edge_rel out dst `` {cur} \<Longrightarrow>
     (\<forall>s\<in>on_stack c. (s, cur) \<in> (edge_rel out dst)\<^sup>*) \<Longrightarrow> \<not> acyclic (edge_rel out dst)"
proof (induction out dst es c arbitrary: c' cur rule: dfs_edges.induct)
  case (1 out dst c)
  then show ?case by simp
next
  case (2 out dst e es c)
  let ?R = "edge_rel out dst"
  from "2.prems"(2) have edge: "(cur, dst e) \<in> ?R" and rest: "dst ` set es \<subseteq> ?R `` {cur}" by auto
  consider (gray) "colour c (dst e) = 1" | (white) "colour c (dst e) = 0"
    | (black) "colour c (dst e) \<noteq> 1" "colour c (dst e) \<noteq> 0" by blast
  then show ?case
  proof cases
    case gray
    then have "(dst e, cur) \<in> ?R\<^sup>*" using "2.prems"(3) by (auto simp: on_stack_def)
    with edge have "(cur, cur) \<in> ?R\<^sup>+" by (rule rtrancl_into_trancl2)
    then show ?thesis by (auto simp: acyclic_def)
  next
    case white
    have st: "\<forall>s\<in>on_stack (mput (dst e) 1 c). (s, dst e) \<in> ?R\<^sup>*"
      using "2.prems"(3) edge by (auto intro: rtrancl_into_rtrancl)
    show ?thesis
    proof (cases "dfs_edges out dst (mget0 [] out (dst e)) (mput (dst e) 1 c)")
      case (Pair r c1)
      show ?thesis
      proof (cases r)
        case None
        have "dst e \<notin> on_stack c" using white by (simp add: on_stack_def)
        then have "on_stack (mput (dst e) 2 c1) = on_stack c"
          using dfs_edges_stack [OF Pair [unfolded None]] by auto
        then show ?thesis
          using "2.IH"(2) [of r c1 c' cur] white Pair None "2.prems" rest by auto
      next
        case (Some err')
        have "dst ` set (mget0 [] out (dst e)) \<subseteq> ?R `` {dst e}" by (simp add: edge_rel_Image)
        then show ?thesis using "2.IH"(1) [of c1 "dst e"] white Pair Some "2.prems"(1) st by auto
      qed
    qed
  next
    case black
    then show ?thesis using "2.IH"(3) [of c' cur] "2.prems" rest by auto
  qed
qed

lemma dfs_nodes_cycle:
  "dfs_nodes out dst xs c = Some err \<Longrightarrow> on_stack c = {} \<Longrightarrow> \<not> acyclic (edge_rel out dst)"
proof (induction xs arbitrary: c)
  case Nil
  then show ?case by simp
next
  case (Cons x xs)
  show ?case
  proof (cases "colour c x = 0")
    case True
    show ?thesis
    proof (cases "dfs_edges out dst (mget0 [] out x) (mput x 1 c)")
      case (Pair r c1)
      show ?thesis
      proof (cases r)
        case None
        then have "on_stack (mput x 2 c1) = {}"
          using dfs_edges_stack [OF Pair [unfolded None]] Cons.prems(2) by auto
        then show ?thesis using Cons True Pair None by auto
      next
        case (Some err')
        show ?thesis
        proof (rule dfs_edges_cycle)
          show "dfs_edges out dst (mget0 [] out x) (mput x 1 c) = (Some err', c1)" using Pair Some by simp
          show "dst ` set (mget0 [] out x) \<subseteq> edge_rel out dst `` {x}" by (simp add: edge_rel_Image)
          show "\<forall>s\<in>on_stack (mput x 1 c). (s, x) \<in> (edge_rel out dst)\<^sup>*" using Cons.prems(2) by auto
        qed
      qed
    qed
  next
    case False
    then show ?thesis using Cons by auto
  qed
qed

text \<open>The search over all nodes finds an error exactly when the edge relation has a cycle, whatever
  the order of the nodes.\<close>

theorem dfs_nodes_acyclic:
  assumes "Domain (edge_rel out dst) \<subseteq> set xs"
  shows "dfs_nodes out dst xs [] = None \<longleftrightarrow> acyclic (edge_rel out dst)"
proof
  assume none: "dfs_nodes out dst xs [] = None"
  have "dfs_inv (edge_rel out dst) []" and "on_stack ([] :: 'a colours) = {}"
    by (auto simp: dfs_inv_def finished_def on_stack_def mget0_def acyclic_def)
  from dfs_nodes_inv [OF none this] obtain c'
    where "dfs_inv (edge_rel out dst) c'" and "set xs \<subseteq> finished c'" by auto
  then have "acyclic (edge_rel out dst \<inter> finished c' \<times> UNIV)" and
    "edge_rel out dst \<inter> finished c' \<times> UNIV = edge_rel out dst"
    using assms by (auto simp: dfs_inv_def)
  then show "acyclic (edge_rel out dst)" by simp
next
  assume "acyclic (edge_rel out dst)"
  then show "dfs_nodes out dst xs [] = None"
    using dfs_nodes_cycle [of out dst xs "[]"]
    by (cases "dfs_nodes out dst xs []") (auto simp: on_stack_def mget0_def)
qed

end
