(* ===== verification/Orch_Example.thy ===== *)
theory Orch_Example
  imports Orch_Model
begin

text \<open>
  Concrete data for the witnesses: a workflow that implements, checks and repairs. The node
  \<open>impl\<close> is implemented, \<open>qa\<close> verifies it, a bug leads to the repair node \<open>fix\<close>, whose success
  edge reopens \<open>impl\<close>; the two edges of the loop are bounded.
\<close>

definition exNode :: "string \<Rightarrow> NodeKind \<Rightarrow> WorkflowNode" where
  "exNode i k = zeroNode\<lparr>n_ID := i, n_Kind := k,
     n_AgentRef := (if k = NodeAgent then Some \<lparr>r_ID = ''agent'', r_Revision = 1, r_Version = 0\<rparr> else None)\<rparr>"

definition exEdge :: "string \<Rightarrow> string \<Rightarrow> string \<Rightarrow> EdgeEvent \<Rightarrow> int \<Rightarrow> WorkflowEdge" where
  "exEdge i src dst ev bound = \<lparr>e_ID = i, e_From = src, e_To = dst, e_On = ev, e_Predicate = zeroPredicate,
     e_Priority = 0, e_MaxTraversals = bound, e_RequiredEvidence = [], e_LoopGroup = '''', e_FanOut = False\<rparr>"

definition exImpl :: WorkflowNode where
  "exImpl = (exNode ''impl'' NodeAgent)\<lparr>n_RetryPolicy := \<lparr>rp_MaxAttempts = 3, rp_Backoff = 1000, rp_RetryOn = []\<rparr>\<rparr>"

definition exFix :: WorkflowNode where
  "exFix = (exNode ''fix'' NodeRepair)\<lparr>n_RepairPolicy := \<lparr>rep_TargetNodeID = ''impl'', rep_Scope = [],
     rep_VerificationNodeIDs = [''qa''], rep_MaxRounds = 2, rep_Budget = zeroBudget\<rparr>\<rparr>"

definition exGraph :: WorkflowGraph where
  "exGraph = \<lparr>g_ID = ''g'', g_Version = 1, g_EntryNodeIDs = [''impl''], g_ExitNodeIDs = [''qa''],
     g_Nodes = [exImpl, exNode ''qa'' NodeAgent, exFix],
     g_Edges = [exEdge ''e1'' ''impl'' ''qa'' EdgeSuccess 0, exEdge ''e2'' ''qa'' ''fix'' EdgeBug 2,
       exEdge ''e3'' ''fix'' ''impl'' EdgeSuccess 2],
     g_ValidationDigest = ''''\<rparr>"

definition exBudget :: Budget where
  "exBudget = \<lparr>b_Tokens = 1000, b_ToolCalls = 10, b_CostCents = 100, b_Duration = 0, b_Concurrent = 2\<rparr>"

definition exPlan :: RequirementExecutionPlan where
  "exPlan = \<lparr>pl_ID = ''p1'', pl_RequirementID = ''r1'', pl_WorkspaceID = ''w1'', pl_GraphSnapshot = exGraph,
     pl_SelectedRef = \<lparr>r_ID = ''s'', r_Revision = 1, r_Version = 0\<rparr>,
     pl_PolicySnapshot = \<lparr>ps_Digest = '''', ps_ToolPolicy = zeroToolPolicy, ps_Budget = exBudget, ps_CapturedAt = 0\<rparr>,
     pl_ContextRoot = \<lparr>cr_SessionID = ''s1'', cr_ManifestDigest = ''d'', cr_ReplayKey = ''k''\<rparr>, pl_PlanHash = ''h'',
     pl_Status = PlanReady, pl_Revision = 1, pl_IdempotencyKey = '''', pl_Deadline = 0, pl_CreatedAt = 1,
     pl_ParentPlanID = '''', pl_ParentAttemptID = ''''\<rparr>"

definition exEnvelope :: ContextEnvelope where
  "exEnvelope = \<lparr>ce_Manifest = \<lparr>cm_SessionID = ''s1'', cm_Version = 1, cm_TokenBudget = 100, cm_TokenEstimate = 10,
     cm_Digest = ''d''\<rparr>, ce_SelectionDigest = ''sel'', ce_ReplayKey = ''key''\<rparr>"

definition exLease :: Lease where
  "exLease = \<lparr>l_Key = ''k'', l_Owner = ''w'', l_FencingToken = 1, l_ExpiresAt = 1000\<rparr>"

definition exInput :: "string \<Rightarrow> StructuredResult \<Rightarrow> FailureReason option \<Rightarrow> TransitionInput" where
  "exInput event result failure = \<lparr>in_PlanRevision = 1, in_AttemptID = '''', in_LeaseToken = 1, in_Event = event,
     in_Result = result, in_Failure = failure, in_OutputArtifacts = [], in_IdempotencyKey = ''key1'',
     in_PayloadHash = ''hash'', in_Now = 100\<rparr>"

definition exResult :: "string \<Rightarrow> StructuredResult" where
  "exResult outcome = zeroResult\<lparr>sr_Outcome := outcome, sr_EvidenceIDs := [''ev''],
     sr_Fields := [(''tokens'', VInt 5)]\<rparr>"

definition exAttempt :: "string \<Rightarrow> string \<Rightarrow> AttemptStatus \<Rightarrow> NodeAttempt" where
  "exAttempt i node st = \<lparr>a_ID = i, a_PlanID = ''p1'', a_NodeID = node, a_AttemptNo = 1, a_RunID = '''', a_SessionID = '''',
     a_WorkDir = '''', a_Lease = exLease, a_IdempotencyKey = '''', a_InputManifest = exEnvelope, a_OutputArtifacts = [],
     a_Result = zeroResult, a_RepairState = RepairUnset, a_RepairPlanID = '''', a_Status = st, a_FailureReason = None,
     a_ParentAttemptID = '''', a_RetryOf = '''', a_ChildPlanID = '''', a_StartedAt = Some 50,
     a_FinishedAt = (if st = AttemptRunning then None else Some 90)\<rparr>"

definition exNodeState :: "string \<Rightarrow> AttemptStatus \<Rightarrow> string \<Rightarrow> NodeProjection" where
  "exNodeState node st attempt = zeroNodeProjection\<lparr>np_NodeID := node, np_Status := st, np_CurrentAttempt := attempt,
     np_AttemptNo := (if attempt = '''' then 0 else 1)\<rparr>"

text \<open>The projection while the first attempt at \<open>impl\<close> runs.\<close>

definition exRunning :: PlanProjection where
  "exRunning = \<lparr>p_PlanID = ''p1'', p_Revision = 1, p_Status = PlanRunning, p_TerminalOutcome = '''',
     p_Nodes = [(''impl'', exNodeState ''impl'' AttemptRunning ''a1''), (''qa'', exNodeState ''qa'' AttemptPending ''''),
       (''fix'', exNodeState ''fix'' AttemptPending '''')],
     p_Attempts = [(''a1'', exAttempt ''a1'' ''impl'' AttemptRunning)], p_Traversals = [], p_Decisions = [],
     p_RepairPlans = [], p_Idempotency = [], p_TokenUsage = 10, p_ToolCalls = 0, p_CostCents = 0\<rparr>"

text \<open>The projection while \<open>qa\<close>, the exit node, checks the result, after \<open>loops\<close> rounds of the feedback edge.\<close>

definition exChecking :: "int \<Rightarrow> PlanProjection" where
  "exChecking loops = exRunning\<lparr>
     p_Nodes := [(''impl'', exNodeState ''impl'' AttemptPassed ''a1''), (''qa'', exNodeState ''qa'' AttemptRunning ''a2''),
       (''fix'', exNodeState ''fix'' AttemptPending '''')],
     p_Attempts := [(''a1'', exAttempt ''a1'' ''impl'' AttemptPassed), (''a2'', exAttempt ''a2'' ''qa'' AttemptRunning)],
     p_Traversals := [(''e2'', loops)]\<rparr>"

text \<open>The projection while the repaired \<open>impl\<close> runs as the dispatched target of a repair plan.\<close>

definition exRepair :: RepairPlan where
  "exRepair = \<lparr>rpl_ID = ''rp'', rpl_PlanID = ''p1'', rpl_RepairNodeID = ''fix'', rpl_RepairAttemptID = ''a3'',
     rpl_RepairAttemptIDs = [''a3''], rpl_TargetNodeID = ''impl'', rpl_VerificationNodeIDs = [''qa''],
     rpl_SourceAttemptIDs = [], rpl_Scope = [], rpl_MaxRounds = 2, rpl_Round = 1, rpl_State = RepairDispatched,
     rpl_StateHistory = [RepairPlanned, RepairDispatched], rpl_TargetAttemptID = ''a4'', rpl_VerificationAttempts = [],
     rpl_VerifiedNodes = [], rpl_PatchArtifactIDs = [], rpl_VerificationArtifactIDs = [], rpl_LastReasonCode = ''''\<rparr>"

definition exRepairing :: PlanProjection where
  "exRepairing = exRunning\<lparr>
     p_Nodes := [(''impl'', (exNodeState ''impl'' AttemptRunning ''a4'')\<lparr>np_AttemptNo := 2\<rparr>),
       (''qa'', exNodeState ''qa'' AttemptFailed ''a2''), (''fix'', exNodeState ''fix'' AttemptPassed ''a3'')],
     p_Attempts := [(''a1'', exAttempt ''a1'' ''impl'' AttemptPassed), (''a2'', exAttempt ''a2'' ''qa'' AttemptFailed),
       (''a3'', exAttempt ''a3'' ''fix'' AttemptPassed),
       (''a4'', (exAttempt ''a4'' ''impl'' AttemptRunning)\<lparr>a_AttemptNo := 2, a_RepairState := RepairDispatched,
          a_RepairPlanID := ''rp''\<rparr>)],
     p_RepairPlans := [(''rp'', exRepair)]\<rparr>"

lemmas example_defs = exNode_def exEdge_def exImpl_def exFix_def exGraph_def exBudget_def exPlan_def exEnvelope_def
  exLease_def exInput_def exResult_def exAttempt_def exNodeState_def exRunning_def exChecking_def exRepair_def exRepairing_def

end
