(* ===== verification/Orch_Graph.thy ===== *)
theory Orch_Graph
  imports Orch_Predicate Graph_Search Orch_Example
begin

text \<open>
  \<open>ValidateGraph\<close> (\<open>validate.go\<close>) with the repair-target resolution (\<open>structural.go\<close>) and the
  success-path search (\<open>transition.go\<close>) it calls. The validator is a sequence of early returns; a
  loop with a \<open>seen\<close> map is \<open>check_seen\<close>. The component's specification is \<open>graph_ok\<close>, which
  says what an accepted graph is in terms of the reachability and acyclicity of its edge
  relations; the validator accepts exactly these graphs.
\<close>

section \<open>Operations\<close>

definition validateBudget :: "Budget \<Rightarrow> string \<Rightarrow> go_error option" where
  "validateBudget b label =
     guard (b_Tokens b < 0 \<or> b_ToolCalls b < 0 \<or> b_CostCents b < 0 \<or> b_Duration b < 0 \<or> b_Concurrent b < 0)
       (Errorf ''%s cannot contain negative values'' [ArgS label])"

definition maxWorkflowNodes :: nat where "maxWorkflowNodes = 1000"
definition maxWorkflowEdges :: nat where "maxWorkflowEdges = 5000"

definition nodeErr :: "string \<Rightarrow> nat \<Rightarrow> go_error" where
  "nodeErr suffix i = Errorf (''graph.nodes[%d].'' @ suffix) [ArgI (int i)]"

definition nodeErr2 :: "string \<Rightarrow> nat \<Rightarrow> nat \<Rightarrow> go_error" where
  "nodeErr2 suffix i j = Errorf (''graph.nodes[%d].'' @ suffix) [ArgI (int i), ArgI (int j)]"

definition edgeErr :: "string \<Rightarrow> nat \<Rightarrow> go_error" where
  "edgeErr suffix i = Errorf (''graph.edges[%d].'' @ suffix) [ArgI (int i)]"

text \<open>The body of the first loop over the nodes.\<close>

definition validateNode :: "nat \<Rightarrow> string list \<Rightarrow> WorkflowNode \<Rightarrow> go_error option" where
  "validateNode i seen n =
     (let gp = n_GatePolicy n; mp = n_MergePolicy n; rp = n_RepairPolicy n; b = n_Budget n in
      first_err
       [guard (blank (n_ID n)) (nodeErr ''id.required'' i),
        guard (n_ID n \<in> set seen) (nodeErr ''id.duplicate'' i),
        guard (n_Kind n = NodeAgent \<and> n_AgentRef n = None) (nodeErr ''agent_ref.required'' i),
        guard (n_Kind n = NodeSquad \<and> n_SquadRef n = None) (nodeErr ''squad_ref.required'' i),
        guard (case n_Kind n of NodeKindOther _ \<Rightarrow> True | _ \<Rightarrow> False) (nodeErr ''kind.invalid'' i),
        guard (opt_any (\<lambda>r. blank (r_ID r)) (n_AgentRef n)) (nodeErr ''agent_ref.id.required'' i),
        guard (opt_any (\<lambda>r. r_Revision r < 1) (n_AgentRef n)) (nodeErr ''agent_ref.revision.required'' i),
        guard (opt_any (\<lambda>r. blank (r_ID r)) (n_SquadRef n)) (nodeErr ''squad_ref.id.required'' i),
        guard (opt_any (\<lambda>r. r_Revision r < 1 \<and> r_Version r < 1) (n_SquadRef n))
          (nodeErr ''squad_ref.revision.required'' i),
        guard (n_Timeout n < 0 \<or> cp_MaxTokens (n_ContextPolicy n) < 0 \<or> b_Tokens b < 0 \<or>
            b_ToolCalls b < 0 \<or> b_CostCents b < 0 \<or> b_Concurrent b < 0 \<or> b_Duration b < 0 \<or>
            rp_MaxAttempts (n_RetryPolicy n) < 0 \<or> rp_Backoff (n_RetryPolicy n) < 0)
          (nodeErr ''budget_or_retry.invalid'' i),
        guard (case n_JoinPolicy n of JoinOther _ \<Rightarrow> True | _ \<Rightarrow> False) (nodeErr ''join_policy.invalid'' i),
        guard (n_JoinQuorum n < 0) (nodeErr ''join_quorum.invalid'' i),
        guard (n_JoinFailurePolicy n \<notin> set ['''', ''wait'', ''short_circuit''])
          (nodeErr ''join_failure_policy.invalid'' i),
        ValidatePredicate (gp_Predicate gp) 0 (''graph.nodes['' @ utoa i @ ''].gate_policy.predicate''),
        guard (n_Kind n \<noteq> NodeGate \<and>
            (\<not> blank (pr_Kind (gp_Predicate gp)) \<or> gp_RequiredEvidence gp \<noteq> [] \<or> \<not> blank (gp_FailureCode gp)))
          (nodeErr ''gate_policy.kind_mismatch'' i),
        check_indexed 0 (\<lambda>j ev. guard (blank ev) (nodeErr2 ''gate_policy.required_evidence[%d].required'' i j))
          (gp_RequiredEvidence gp),
        guard (n_Kind n \<noteq> NodeMerge \<and>
            (\<not> blank (mg_ConflictPolicy mp) \<or> mg_KeyFields mp \<noteq> [] \<or> mg_RequireEvidence mp))
          (nodeErr ''merge_policy.kind_mismatch'' i),
        guard (mg_ConflictPolicy mp \<notin> set ['''', ''collect'', ''prefer_priority'', ''fail''])
          (nodeErr ''merge_policy.conflict_policy.invalid'' i),
        check_indexed 0 (\<lambda>j key. guard (blank key) (nodeErr2 ''merge_policy.key_fields[%d].required'' i j))
          (mg_KeyFields mp),
        guard (n_Kind n \<noteq> NodeRepair \<and>
            (\<not> blank (rep_TargetNodeID rp) \<or> rep_Scope rp \<noteq> [] \<or> rep_VerificationNodeIDs rp \<noteq> [] \<or>
             rep_MaxRounds rp \<noteq> 0 \<or> rep_Budget rp \<noteq> zeroBudget))
          (nodeErr ''repair_policy.kind_mismatch'' i),
        guard (rep_MaxRounds rp < 0) (nodeErr ''repair_policy.max_rounds.invalid'' i),
        guard (n_Kind n = NodeRepair \<and> rep_TargetNodeID rp = n_ID n)
          (nodeErr ''repair_policy.target_node_id.self_reference'' i),
        guard (n_Kind n = NodeRepair \<and> rep_VerificationNodeIDs rp = [])
          (nodeErr ''repair_policy.verification_node_ids.required'' i),
        guard (n_Kind n = NodeRepair \<and> rep_MaxRounds rp = 0) (nodeErr ''repair_policy.max_rounds.required'' i),
        validateBudget (rep_Budget rp) (''graph.nodes['' @ utoa i @ ''].repair_policy.budget''),
        check_indexed 0 (\<lambda>j s. guard (blank s) (nodeErr2 ''repair_policy.scope[%d].required'' i j))
          (rep_Scope rp)])"

text \<open>The loops over the entry and exit node IDs.\<close>

definition validateEndpoint :: "string \<Rightarrow> string list \<Rightarrow> nat \<Rightarrow> string list \<Rightarrow> string \<Rightarrow> go_error option" where
  "validateEndpoint label nodes i seen x =
     first_err
       [guard (x \<notin> set nodes) (Errorf (label @ ''[%d].unknown'') [ArgI (int i)]),
        guard (x \<in> set seen) (Errorf (label @ ''[%d].duplicate'') [ArgI (int i)])]"

text \<open>The node map, and the adjacency maps that the loop over the edges builds.\<close>

definition nodeMap :: "WorkflowNode list \<Rightarrow> (string, WorkflowNode) gomap" where
  "nodeMap ns = fold (\<lambda>n m. mput (n_ID n) n m) ns []"

definition outgoing :: "WorkflowGraph \<Rightarrow> (string, string list) gomap" where
  "outgoing g = group_into e_From e_To (g_Edges g)"

definition incoming :: "WorkflowGraph \<Rightarrow> (string, string list) gomap" where
  "incoming g = group_into e_To e_From (g_Edges g)"

text \<open>The body of the loop over the edges.\<close>

definition validateEdge ::
  "(string, WorkflowNode) gomap \<Rightarrow> nat \<Rightarrow> string list \<Rightarrow> WorkflowEdge \<Rightarrow> go_error option" where
  "validateEdge nodes i seen e =
     (let out = n_OutputContract (mget0 zeroNode nodes (e_From e));
          inp = n_InputContract (mget0 zeroNode nodes (e_To e));
          typed = s_ID out \<noteq> '''' \<or> s_ID inp \<noteq> '''' in
      first_err
       [guard (blank (e_ID e)) (edgeErr ''id.required'' i),
        guard (e_ID e \<in> set seen) (edgeErr ''id.duplicate'' i),
        guard (mget nodes (e_From e) = None) (edgeErr ''from.unknown'' i),
        guard (mget nodes (e_To e) = None) (edgeErr ''to.unknown'' i),
        guard (e_From e = e_To e \<and> e_MaxTraversals e < 1) (edgeErr ''max_traversals.required'' i),
        guard (case e_On e of EdgeOther _ \<Rightarrow> True | _ \<Rightarrow> False) (edgeErr ''on.invalid'' i),
        guard (e_MaxTraversals e < 0) (edgeErr ''max_traversals.invalid'' i),
        check_indexed 0 (\<lambda>j ev. guard (blank ev)
            (Errorf ''graph.edges[%d].required_evidence[%d].required'' [ArgI (int i), ArgI (int j)]))
          (e_RequiredEvidence e),
        guard (e_LoopGroup e \<noteq> '''' \<and> e_MaxTraversals e < 1) (edgeErr ''loop_group.max_traversals.required'' i),
        guard (e_FanOut e \<and> e_Priority e < 0) (edgeErr ''fan_out.priority.invalid'' i),
        ValidatePredicate (e_Predicate e) 0 (''graph.edges['' @ utoa i @ ''].predicate''),
        guard (typed \<and> (s_ID out = '''' \<or> s_ID inp = '''')) (edgeErr ''schema_contract.missing'' i),
        guard (typed \<and> s_ID out \<noteq> s_ID inp) (edgeErr ''schema_contract.disconnected'' i),
        guard (typed \<and> 0 < s_Version out \<and> 0 < s_Version inp \<and> s_Version out \<noteq> s_Version inp)
          (edgeErr ''schema_contract.version_mismatch'' i)])"

text \<open>The target of a repair node (\<open>structural.go\<close>) and the path search (\<open>transition.go\<close>).\<close>

definition resolveRepairTarget :: "WorkflowGraph \<Rightarrow> WorkflowNode \<Rightarrow> string" where
  "resolveRepairTarget g n =
     (let explicit = TrimSpace (rep_TargetNodeID (n_RepairPolicy n)) in
      if explicit \<noteq> '''' then explicit
      else case remdups (map e_To (filter (\<lambda>e. e_From e = n_ID n \<and> e_To e \<noteq> n_ID n \<and> e_On e = EdgeSuccess)
             (g_Edges g))) of
             [t] \<Rightarrow> t
           | _ \<Rightarrow> '''')"

definition pathEdges :: "WorkflowGraph \<Rightarrow> EdgeEvent \<Rightarrow> (string \<times> string) list" where
  "pathEdges g ev =
     map (\<lambda>e. (e_From e, e_To e))
       (filter (\<lambda>e. \<not> (e_On e \<noteq> ev \<or> e_MaxTraversals e = 0 \<and> e_LoopGroup e \<noteq> '''')) (g_Edges g))"

definition repairPathExists :: "WorkflowGraph \<Rightarrow> string \<Rightarrow> string \<Rightarrow> EdgeEvent \<Rightarrow> bool" where
  "repairPathExists g src dst ev = (src = dst \<or> repair_loop (pathEdges g ev) dst [src] [src])"

text \<open>The body of the second loop over the nodes.\<close>

definition validateJoin :: "WorkflowGraph \<Rightarrow> nat \<Rightarrow> WorkflowNode \<Rightarrow> go_error option" where
  "validateJoin g i n =
     (let nodes = nodeMap (g_Nodes g); rp = n_RepairPolicy n; target = resolveRepairTarget g n in
      first_err
       [guard (n_JoinPolicy n = JoinQuorum \<and> 0 < n_JoinQuorum n \<and>
            int (length (mget0 [] (incoming g) (n_ID n))) < n_JoinQuorum n)
          (nodeErr ''join_quorum.exceeds_incoming'' i),
        guard (rep_TargetNodeID rp \<noteq> '''' \<and> mget nodes (rep_TargetNodeID rp) = None)
          (nodeErr ''repair_policy.target_node_id.unknown'' i),
        check_indexed 0 (\<lambda>j x. guard (mget nodes x = None)
            (nodeErr2 ''repair_policy.verification_node_ids[%d].unknown'' i j))
          (rep_VerificationNodeIDs rp),
        guard (n_Kind n = NodeRepair \<and> target = '''')
          (nodeErr ''repair_policy.target_node_id.required_or_uniquely_derivable'' i),
        guard (n_Kind n = NodeRepair \<and> \<not> repairPathExists g (n_ID n) target EdgeSuccess)
          (nodeErr ''repair_policy.target_node_id.unreachable'' i),
        check_indexed 0 (\<lambda>j x. guard (n_Kind n = NodeRepair \<and> \<not> repairPathExists g target x EdgeSuccess)
            (nodeErr2 ''repair_policy.verification_node_ids[%d].unreachable'' i j))
          (rep_VerificationNodeIDs rp)])"

definition pathExists :: "(string, string list) gomap \<Rightarrow> string \<Rightarrow> string \<Rightarrow> bool" where
  "pathExists out start target = path_loop out target [start] []"

definition hasHumanExit ::
  "(string, WorkflowNode) gomap \<Rightarrow> (string, string list) gomap \<Rightarrow> string \<Rightarrow> bool" where
  "hasHumanExit nodes out start = goal_loop out (\<lambda>x. n_Kind (mget0 zeroNode nodes x) = NodeHuman) [start] []"

definition unboundedOutgoing :: "WorkflowGraph \<Rightarrow> (string, WorkflowEdge list) gomap" where
  "unboundedOutgoing g = group_into e_From (\<lambda>e. e) (filter (\<lambda>e. e_MaxTraversals e < 1) (g_Edges g))"

definition ValidateGraph :: "WorkflowGraph \<Rightarrow> go_error option" where
  "ValidateGraph g =
     (let nodes = nodeMap (g_Nodes g); ids = mkeys nodes;
          reachable = bfs_mark (outgoing g) (g_EntryNodeIDs g) [];
          toExit = bfs_mark (incoming g) (g_ExitNodeIDs g) [] in
      first_err
       [guard (blank (g_ID g)) (Errorf ''graph.id.required'' []),
        guard (g_Nodes g = []) (Errorf ''graph.nodes.empty'' []),
        guard (maxWorkflowNodes < length (g_Nodes g))
          (Errorf ''graph.nodes.too_many: maximum is %d'' [ArgI (int maxWorkflowNodes)]),
        guard (maxWorkflowEdges < length (g_Edges g))
          (Errorf ''graph.edges.too_many: maximum is %d'' [ArgI (int maxWorkflowEdges)]),
        guard (g_Version g < 1) (Errorf ''graph.version.required'' []),
        check_seen 0 n_ID validateNode [] (g_Nodes g),
        guard (g_EntryNodeIDs g = [] \<or> g_ExitNodeIDs g = []) (Errorf ''graph.entry_exit.required'' []),
        check_seen 0 (\<lambda>x. x) (validateEndpoint ''graph.entry_node_ids'' ids) [] (g_EntryNodeIDs g),
        check_seen 0 (\<lambda>x. x) (validateEndpoint ''graph.exit_node_ids'' ids) [] (g_ExitNodeIDs g),
        check_seen 0 e_ID (validateEdge nodes) [] (g_Edges g),
        check_indexed 0 (validateJoin g) (g_Nodes g),
        check_indexed 0 (\<lambda>j x. guard (x \<notin> set reachable) (Errorf ''graph.nodes.%s.unreachable'' [ArgS x])) ids,
        check_indexed 0 (\<lambda>j x. guard (x \<notin> set toExit) (Errorf ''graph.nodes.%s.no_exit_path'' [ArgS x])) ids,
        check_indexed 0 (\<lambda>j e. guard
            (0 < e_MaxTraversals e \<and> e_LoopGroup e \<noteq> '''' \<and> pathExists (outgoing g) (e_To e) (e_From e) \<and>
             \<not> hasHumanExit nodes (outgoing g) (e_From e))
            (Errorf ''graph.edges.%s.loop_group.human_exit.required'' [ArgS (e_ID e)])) (g_Edges g),
        map_option (\<lambda>e. Errorf ''graph.edges.%s.max_traversals.required'' [ArgS (e_ID e)])
          (dfs_nodes (unboundedOutgoing g) e_To (map n_ID (g_Nodes g)) [])])"

section \<open>Specification\<close>

definition nodeIDs :: "WorkflowGraph \<Rightarrow> string set" where
  "nodeIDs g = n_ID ` set (g_Nodes g)"

definition edgeStep :: "WorkflowGraph \<Rightarrow> (string \<times> string) set" where
  "edgeStep g = {(e_From e, e_To e) | e. e \<in> set (g_Edges g)}"

definition unboundedStep :: "WorkflowGraph \<Rightarrow> (string \<times> string) set" where
  "unboundedStep g = {(e_From e, e_To e) | e. e \<in> set (g_Edges g) \<and> e_MaxTraversals e < 1}"

definition successStep :: "WorkflowGraph \<Rightarrow> (string \<times> string) set" where
  "successStep g = {(e_From e, e_To e) | e. e \<in> set (g_Edges g) \<and> e_On e = EdgeSuccess \<and>
     (e_MaxTraversals e = 0 \<longrightarrow> e_LoopGroup e = '''')}"

definition refs_ok :: "WorkflowNode \<Rightarrow> bool" where
  "refs_ok n \<longleftrightarrow>
     (n_Kind n = NodeAgent \<longrightarrow> n_AgentRef n \<noteq> None) \<and> (n_Kind n = NodeSquad \<longrightarrow> n_SquadRef n \<noteq> None) \<and>
     (\<forall>s. n_Kind n \<noteq> NodeKindOther s) \<and>
     (\<forall>r. n_AgentRef n = Some r \<longrightarrow> \<not> blank (r_ID r) \<and> 1 \<le> r_Revision r) \<and>
     (\<forall>r. n_SquadRef n = Some r \<longrightarrow> \<not> blank (r_ID r) \<and> (1 \<le> r_Revision r \<or> 1 \<le> r_Version r))"

definition nonneg_budget :: "Budget \<Rightarrow> bool" where
  "nonneg_budget b \<longleftrightarrow>
     0 \<le> b_Tokens b \<and> 0 \<le> b_ToolCalls b \<and> 0 \<le> b_CostCents b \<and> 0 \<le> b_Duration b \<and> 0 \<le> b_Concurrent b"

definition limits_ok :: "WorkflowNode \<Rightarrow> bool" where
  "limits_ok n \<longleftrightarrow>
     0 \<le> n_Timeout n \<and> 0 \<le> cp_MaxTokens (n_ContextPolicy n) \<and> nonneg_budget (n_Budget n) \<and>
     0 \<le> rp_MaxAttempts (n_RetryPolicy n) \<and> 0 \<le> rp_Backoff (n_RetryPolicy n) \<and>
     (\<forall>s. n_JoinPolicy n \<noteq> JoinOther s) \<and> 0 \<le> n_JoinQuorum n \<and>
     n_JoinFailurePolicy n \<in> {'''', ''wait'', ''short_circuit''}"

definition gate_ok :: "WorkflowNode \<Rightarrow> bool" where
  "gate_ok n \<longleftrightarrow> (let gp = n_GatePolicy n in
     ValidatePredicate (gp_Predicate gp) 0 [] = None \<and>
     (n_Kind n \<noteq> NodeGate \<longrightarrow>
        blank (pr_Kind (gp_Predicate gp)) \<and> gp_RequiredEvidence gp = [] \<and> blank (gp_FailureCode gp)) \<and>
     (\<forall>ev\<in>set (gp_RequiredEvidence gp). \<not> blank ev))"

definition merge_ok :: "WorkflowNode \<Rightarrow> bool" where
  "merge_ok n \<longleftrightarrow> (let mp = n_MergePolicy n in
     (n_Kind n \<noteq> NodeMerge \<longrightarrow>
        blank (mg_ConflictPolicy mp) \<and> mg_KeyFields mp = [] \<and> \<not> mg_RequireEvidence mp) \<and>
     mg_ConflictPolicy mp \<in> {'''', ''collect'', ''prefer_priority'', ''fail''} \<and>
     (\<forall>key\<in>set (mg_KeyFields mp). \<not> blank key))"

definition repair_ok :: "WorkflowNode \<Rightarrow> bool" where
  "repair_ok n \<longleftrightarrow> (let rp = n_RepairPolicy n in
     (n_Kind n \<noteq> NodeRepair \<longrightarrow> blank (rep_TargetNodeID rp) \<and> rep_Scope rp = [] \<and>
        rep_VerificationNodeIDs rp = [] \<and> rep_MaxRounds rp = 0 \<and> rep_Budget rp = zeroBudget) \<and>
     0 \<le> rep_MaxRounds rp \<and>
     (n_Kind n = NodeRepair \<longrightarrow> rep_TargetNodeID rp \<noteq> n_ID n \<and> rep_VerificationNodeIDs rp \<noteq> [] \<and>
        1 \<le> rep_MaxRounds rp) \<and>
     nonneg_budget (rep_Budget rp) \<and> (\<forall>s\<in>set (rep_Scope rp). \<not> blank s))"

definition node_ok :: "WorkflowNode \<Rightarrow> bool" where
  "node_ok n \<longleftrightarrow> \<not> blank (n_ID n) \<and> refs_ok n \<and> limits_ok n \<and> gate_ok n \<and> merge_ok n \<and> repair_ok n"

definition contract_ok :: "SchemaRef \<Rightarrow> SchemaRef \<Rightarrow> bool" where
  "contract_ok out inp \<longleftrightarrow> s_ID out = s_ID inp \<and>
     (s_ID out \<noteq> '''' \<longrightarrow> 0 < s_Version out \<longrightarrow> 0 < s_Version inp \<longrightarrow> s_Version out = s_Version inp)"

definition edge_ok :: "WorkflowGraph \<Rightarrow> WorkflowEdge \<Rightarrow> bool" where
  "edge_ok g e \<longleftrightarrow>
     \<not> blank (e_ID e) \<and> e_From e \<in> nodeIDs g \<and> e_To e \<in> nodeIDs g \<and>
     (e_From e = e_To e \<longrightarrow> 1 \<le> e_MaxTraversals e) \<and> (\<forall>s. e_On e \<noteq> EdgeOther s) \<and>
     0 \<le> e_MaxTraversals e \<and> (\<forall>ev\<in>set (e_RequiredEvidence e). \<not> blank ev) \<and>
     (e_LoopGroup e \<noteq> '''' \<longrightarrow> 1 \<le> e_MaxTraversals e) \<and> (e_FanOut e \<longrightarrow> 0 \<le> e_Priority e) \<and>
     ValidatePredicate (e_Predicate e) 0 [] = None \<and>
     contract_ok (n_OutputContract (find_node (g_Nodes g) (e_From e)))
       (n_InputContract (find_node (g_Nodes g) (e_To e)))"

definition join_ok :: "WorkflowGraph \<Rightarrow> WorkflowNode \<Rightarrow> bool" where
  "join_ok g n \<longleftrightarrow> (let rp = n_RepairPolicy n; target = resolveRepairTarget g n in
     (n_JoinPolicy n = JoinQuorum \<longrightarrow> 0 < n_JoinQuorum n \<longrightarrow>
        n_JoinQuorum n \<le> int (length (filter (\<lambda>e. e_To e = n_ID n) (g_Edges g)))) \<and>
     (rep_TargetNodeID rp \<noteq> '''' \<longrightarrow> rep_TargetNodeID rp \<in> nodeIDs g) \<and>
     set (rep_VerificationNodeIDs rp) \<subseteq> nodeIDs g \<and>
     (n_Kind n = NodeRepair \<longrightarrow> target \<noteq> '''' \<and> (n_ID n, target) \<in> (successStep g)\<^sup>* \<and>
        (\<forall>v\<in>set (rep_VerificationNodeIDs rp). (target, v) \<in> (successStep g)\<^sup>*)))"

definition human_exit_ok :: "WorkflowGraph \<Rightarrow> WorkflowEdge \<Rightarrow> bool" where
  "human_exit_ok g e \<longleftrightarrow>
     (0 < e_MaxTraversals e \<longrightarrow> e_LoopGroup e \<noteq> '''' \<longrightarrow> (e_To e, e_From e) \<in> (edgeStep g)\<^sup>* \<longrightarrow>
       (\<exists>h. (e_From e, h) \<in> (edgeStep g)\<^sup>* \<and> n_Kind (find_node (g_Nodes g) h) = NodeHuman))"

definition graph_ok :: "WorkflowGraph \<Rightarrow> bool" where
  "graph_ok g \<longleftrightarrow>
     \<not> blank (g_ID g) \<and> g_Nodes g \<noteq> [] \<and> length (g_Nodes g) \<le> maxWorkflowNodes \<and>
     length (g_Edges g) \<le> maxWorkflowEdges \<and> 1 \<le> g_Version g \<and>
     distinct (map n_ID (g_Nodes g)) \<and> (\<forall>n\<in>set (g_Nodes g). node_ok n) \<and>
     g_EntryNodeIDs g \<noteq> [] \<and> g_ExitNodeIDs g \<noteq> [] \<and>
     distinct (g_EntryNodeIDs g) \<and> set (g_EntryNodeIDs g) \<subseteq> nodeIDs g \<and>
     distinct (g_ExitNodeIDs g) \<and> set (g_ExitNodeIDs g) \<subseteq> nodeIDs g \<and>
     distinct (map e_ID (g_Edges g)) \<and> (\<forall>e\<in>set (g_Edges g). edge_ok g e) \<and>
     (\<forall>n\<in>set (g_Nodes g). join_ok g n) \<and>
     nodeIDs g \<subseteq> (edgeStep g)\<^sup>* `` set (g_EntryNodeIDs g) \<and>
     (\<forall>x\<in>nodeIDs g. \<exists>y\<in>set (g_ExitNodeIDs g). (x, y) \<in> (edgeStep g)\<^sup>*) \<and>
     (\<forall>e\<in>set (g_Edges g). human_exit_ok g e) \<and>
     acyclic (unboundedStep g)"

section \<open>The validator decides the specification\<close>

lemma nodeMap_fold_None:
  "mget (fold (\<lambda>n m. mput (n_ID n) n m) ns m) x = None \<longleftrightarrow> x \<notin> n_ID ` set ns \<and> mget m x = None"
  by (induction ns arbitrary: m) auto

lemma nodeMap_fold_other:
  "x \<notin> n_ID ` set ns \<Longrightarrow> mget (fold (\<lambda>n m. mput (n_ID n) n m) ns m) x = mget m x"
  by (induction ns arbitrary: m) auto

lemma nodeMap_fold:
  "distinct (map n_ID ns) \<Longrightarrow> x \<in> n_ID ` set ns \<Longrightarrow>
     mget (fold (\<lambda>n m. mput (n_ID n) n m) ns m) x = Some (find_node ns x)"
proof (induction ns arbitrary: m)
  case Nil
  then show ?case by simp
next
  case (Cons n ns)
  show ?case
  proof (cases "x = n_ID n")
    case True
    then show ?thesis using Cons.prems nodeMap_fold_other [of x ns] by simp
  next
    case False
    then show ?thesis using Cons by simp
  qed
qed

lemma mget_nodeMap:
  "distinct (map n_ID ns) \<Longrightarrow> x \<in> n_ID ` set ns \<Longrightarrow> mget (nodeMap ns) x = Some (find_node ns x)"
  by (simp add: nodeMap_def nodeMap_fold)

lemma mget_nodeMap_None: "mget (nodeMap ns) x = None \<longleftrightarrow> x \<notin> n_ID ` set ns"
  by (simp add: nodeMap_def nodeMap_fold_None)

lemma set_mkeys_nodeMap [simp]: "set (mkeys (nodeMap ns)) = n_ID ` set ns"
  using mkeys_mget [of _ "nodeMap ns"] mget_nodeMap_None [of ns] by blast

lemma find_node_missing: "x \<notin> n_ID ` set ns \<Longrightarrow> find_node ns x = zeroNode"
  by (induction ns) auto

lemma mget0_nodeMap: "distinct (map n_ID ns) \<Longrightarrow> mget0 zeroNode (nodeMap ns) x = find_node ns x"
  by (cases "x \<in> n_ID ` set ns")
    (simp_all add: mget0_def mget_nodeMap mget_nodeMap_None [THEN iffD2] find_node_missing)

lemma validateBudget_None [check_simps]: "validateBudget b label = None \<longleftrightarrow> nonneg_budget b"
  by (auto simp: validateBudget_def nonneg_budget_def check_simps)

text \<open>The conjuncts of \<open>node_ok\<close> in the form of the validator's tests.\<close>

lemma refs_ok_tests:
  "refs_ok n \<longleftrightarrow> \<not> (n_Kind n = NodeAgent \<and> n_AgentRef n = None) \<and>
     \<not> (n_Kind n = NodeSquad \<and> n_SquadRef n = None) \<and> \<not> (\<exists>s. n_Kind n = NodeKindOther s) \<and>
     \<not> (\<exists>r. n_AgentRef n = Some r \<and> blank (r_ID r)) \<and> \<not> (\<exists>r. n_AgentRef n = Some r \<and> r_Revision r < 1) \<and>
     \<not> (\<exists>r. n_SquadRef n = Some r \<and> blank (r_ID r)) \<and>
     \<not> (\<exists>r. n_SquadRef n = Some r \<and> r_Revision r < 1 \<and> r_Version r < 1)"
  unfolding refs_ok_def by (auto simp: not_less)

lemma limits_ok_tests:
  "limits_ok n \<longleftrightarrow>
     \<not> (n_Timeout n < 0 \<or> cp_MaxTokens (n_ContextPolicy n) < 0 \<or> b_Tokens (n_Budget n) < 0 \<or>
        b_ToolCalls (n_Budget n) < 0 \<or> b_CostCents (n_Budget n) < 0 \<or> b_Concurrent (n_Budget n) < 0 \<or>
        b_Duration (n_Budget n) < 0 \<or> rp_MaxAttempts (n_RetryPolicy n) < 0 \<or> rp_Backoff (n_RetryPolicy n) < 0) \<and>
     \<not> (\<exists>s. n_JoinPolicy n = JoinOther s) \<and> \<not> n_JoinQuorum n < 0 \<and>
     \<not> n_JoinFailurePolicy n \<notin> {'''', ''wait'', ''short_circuit''}"
  unfolding limits_ok_def nonneg_budget_def by (auto simp: not_less)

lemma gate_ok_tests:
  "gate_ok n \<longleftrightarrow> ValidatePredicate (gp_Predicate (n_GatePolicy n)) 0 [] = None \<and>
     \<not> (n_Kind n \<noteq> NodeGate \<and> (\<not> blank (pr_Kind (gp_Predicate (n_GatePolicy n))) \<or>
         gp_RequiredEvidence (n_GatePolicy n) \<noteq> [] \<or> \<not> blank (gp_FailureCode (n_GatePolicy n)))) \<and>
     (\<forall>ev\<in>set (gp_RequiredEvidence (n_GatePolicy n)). \<not> blank ev)"
  unfolding gate_ok_def Let_def by blast

lemma merge_ok_tests:
  "merge_ok n \<longleftrightarrow> \<not> (n_Kind n \<noteq> NodeMerge \<and> (\<not> blank (mg_ConflictPolicy (n_MergePolicy n)) \<or>
         mg_KeyFields (n_MergePolicy n) \<noteq> [] \<or> mg_RequireEvidence (n_MergePolicy n))) \<and>
     \<not> mg_ConflictPolicy (n_MergePolicy n) \<notin> {'''', ''collect'', ''prefer_priority'', ''fail''} \<and>
     (\<forall>key\<in>set (mg_KeyFields (n_MergePolicy n)). \<not> blank key)"
  unfolding merge_ok_def Let_def by blast

lemma repair_ok_tests:
  "repair_ok n \<longleftrightarrow>
     \<not> (n_Kind n \<noteq> NodeRepair \<and> (\<not> blank (rep_TargetNodeID (n_RepairPolicy n)) \<or> rep_Scope (n_RepairPolicy n) \<noteq> [] \<or>
         rep_VerificationNodeIDs (n_RepairPolicy n) \<noteq> [] \<or> rep_MaxRounds (n_RepairPolicy n) \<noteq> 0 \<or>
         rep_Budget (n_RepairPolicy n) \<noteq> zeroBudget)) \<and>
     \<not> rep_MaxRounds (n_RepairPolicy n) < 0 \<and>
     \<not> (n_Kind n = NodeRepair \<and> rep_TargetNodeID (n_RepairPolicy n) = n_ID n) \<and>
     \<not> (n_Kind n = NodeRepair \<and> rep_VerificationNodeIDs (n_RepairPolicy n) = []) \<and>
     \<not> (n_Kind n = NodeRepair \<and> rep_MaxRounds (n_RepairPolicy n) = 0) \<and>
     nonneg_budget (rep_Budget (n_RepairPolicy n)) \<and> (\<forall>s\<in>set (rep_Scope (n_RepairPolicy n)). \<not> blank s)"
  unfolding repair_ok_def Let_def by (rule iffI; elim conjE; intro conjI; auto)

lemma kind_other_case:
  "(case k of NodeKindOther x \<Rightarrow> True | _ \<Rightarrow> False) \<longleftrightarrow> (\<exists>s. k = NodeKindOther s)"
  by (cases k) auto

lemma join_other_case:
  "(case j of JoinOther x \<Rightarrow> True | _ \<Rightarrow> False) \<longleftrightarrow> (\<exists>s. j = JoinOther s)"
  by (cases j) auto

lemma edge_other_case:
  "(case ev of EdgeOther x \<Rightarrow> True | _ \<Rightarrow> False) \<longleftrightarrow> (\<exists>s. ev = EdgeOther s)"
  by (cases ev) auto

lemma validateNode_None:
  "validateNode i seen n = None \<longleftrightarrow> n_ID n \<notin> set seen \<and> node_ok n"
proof -
  have pth: "ValidatePredicate p 0 (''graph.nodes['' @ s) = None \<longleftrightarrow> ValidatePredicate p 0 [] = None" for p s
    by (rule ValidatePredicate_path)
  show ?thesis
    unfolding validateNode_def node_ok_def refs_ok_tests limits_ok_tests gate_ok_tests merge_ok_tests
      repair_ok_tests Let_def
    by (simp only: check_simps kind_other_case join_other_case pth list.set ball_simps conj_assoc)
      (rule iffI; elim conjE; intro conjI; (assumption | rule TrueI))
qed

lemma validateEndpoint_None:
  "validateEndpoint label nodes i seen x = None \<longleftrightarrow> x \<notin> set seen \<and> x \<in> set nodes"
  by (auto simp: validateEndpoint_def check_simps)

lemma contract_ok_tests:
  "contract_ok out inp \<longleftrightarrow>
     \<not> ((s_ID out \<noteq> '''' \<or> s_ID inp \<noteq> '''') \<and> (s_ID out = '''' \<or> s_ID inp = '''')) \<and>
     \<not> ((s_ID out \<noteq> '''' \<or> s_ID inp \<noteq> '''') \<and> s_ID out \<noteq> s_ID inp) \<and>
     \<not> ((s_ID out \<noteq> '''' \<or> s_ID inp \<noteq> '''') \<and> 0 < s_Version out \<and> 0 < s_Version inp \<and>
        s_Version out \<noteq> s_Version inp)"
  unfolding contract_ok_def by auto

lemma edge_ok_tests:
  "edge_ok g e \<longleftrightarrow> \<not> blank (e_ID e) \<and> \<not> e_From e \<notin> n_ID ` set (g_Nodes g) \<and>
     \<not> e_To e \<notin> n_ID ` set (g_Nodes g) \<and> \<not> (e_From e = e_To e \<and> e_MaxTraversals e < 1) \<and>
     \<not> (\<exists>s. e_On e = EdgeOther s) \<and> \<not> e_MaxTraversals e < 0 \<and>
     (\<forall>ev\<in>set (e_RequiredEvidence e). \<not> blank ev) \<and> \<not> (e_LoopGroup e \<noteq> '''' \<and> e_MaxTraversals e < 1) \<and>
     \<not> (e_FanOut e \<and> e_Priority e < 0) \<and> ValidatePredicate (e_Predicate e) 0 [] = None \<and>
     contract_ok (n_OutputContract (find_node (g_Nodes g) (e_From e)))
       (n_InputContract (find_node (g_Nodes g) (e_To e)))"
  unfolding edge_ok_def nodeIDs_def by (rule iffI; elim conjE; intro conjI) (auto simp: not_less)

lemma validateEdge_None:
  assumes "distinct (map n_ID (g_Nodes g))"
  shows "validateEdge (nodeMap (g_Nodes g)) i seen e = None \<longleftrightarrow> e_ID e \<notin> set seen \<and> edge_ok g e"
proof -
  have pth: "ValidatePredicate p 0 (''graph.edges['' @ s) = None \<longleftrightarrow> ValidatePredicate p 0 [] = None" for p s
    by (rule ValidatePredicate_path)
  show ?thesis
    unfolding validateEdge_def edge_ok_tests contract_ok_tests Let_def
    by (simp only: check_simps edge_other_case pth mget0_nodeMap [OF assms] mget_nodeMap_None list.set ball_simps)
      (rule iffI; elim conjE; intro conjI; (assumption | rule TrueI))
qed

text \<open>The path searches over the graph's edges follow their step relations.\<close>

lemma set_pathEdges_success: "set (pathEdges g EdgeSuccess) = successStep g"
  by (auto simp: pathEdges_def successStep_def)

interpretation success_path: path_search "\<lambda>x y. repairPathExists g x y EdgeSuccess" "successStep g" for g
  by unfold_locales (simp only: repairPathExists_def repair_loop_reachable set_pathEdges_success)

lemma out_rel_outgoing: "out_rel (outgoing g) = edgeStep g"
  by (auto simp: out_rel_def outgoing_def edgeStep_def mget0_group_into)

lemma out_rel_incoming: "out_rel (incoming g) = (edgeStep g)\<inverse>"
  by (auto simp: out_rel_def incoming_def edgeStep_def mget0_group_into)

interpretation graph_path: path_search "pathExists (outgoing g)" "edgeStep g" for g
  by unfold_locales (simp only: pathExists_def path_loop_reachable out_rel_outgoing)

lemma hasHumanExit_iff:
  assumes "distinct (map n_ID (g_Nodes g))"
  shows "hasHumanExit (nodeMap (g_Nodes g)) (outgoing g) x \<longleftrightarrow>
    (\<exists>h. (x, h) \<in> (edgeStep g)\<^sup>* \<and> n_Kind (find_node (g_Nodes g) h) = NodeHuman)"
  by (simp only: hasHumanExit_def goal_loop_reachable out_rel_outgoing mget0_nodeMap [OF assms])

lemma validateJoin_None: "validateJoin g i n = None \<longleftrightarrow> join_ok g n"
proof -
  have len: "int (length (mget0 [] (incoming g) x)) = int (length (filter (\<lambda>e. e_To e = x) (g_Edges g)))" for x
    by (simp add: incoming_def mget0_group_into)
  show ?thesis
    unfolding validateJoin_def join_ok_def Let_def
    by (simp only: check_simps list.set ball_simps mget_nodeMap_None success_path.finds_iff len nodeIDs_def)
      (rule iffI; elim conjE; intro conjI; auto simp: not_less)
qed

lemma edge_rel_unbounded: "edge_rel (unboundedOutgoing g) e_To = unboundedStep g"
  by (auto simp: edge_rel_def unboundedOutgoing_def unboundedStep_def mget0_group_into)

lemma cycle_check_None:
  assumes "\<forall>e\<in>set (g_Edges g). edge_ok g e"
  shows "map_option f (dfs_nodes (unboundedOutgoing g) e_To (map n_ID (g_Nodes g)) []) = None \<longleftrightarrow>
    acyclic (unboundedStep g)"
proof -
  have "Domain (unboundedStep g) \<subseteq> set (map n_ID (g_Nodes g))"
    using assms by (auto simp: unboundedStep_def edge_ok_def nodeIDs_def)
  then show ?thesis using dfs_nodes_acyclic [of "unboundedOutgoing g" e_To] by (simp add: edge_rel_unbounded)
qed

lemma exits_None:
  "x \<in> set (bfs_mark (incoming g) ys []) \<longleftrightarrow> (\<exists>y\<in>set ys. (x, y) \<in> (edgeStep g)\<^sup>*)"
  unfolding bfs_mark_reachable out_rel_incoming by (auto simp: rtrancl_converse)

lemma ValidateGraph_iff: "ValidateGraph g = None \<longleftrightarrow> graph_ok g"
proof -
  let ?ns = "g_Nodes g" and ?es = "g_Edges g"
  have nodes: "check_seen 0 n_ID validateNode [] ?ns = None \<longleftrightarrow>
      distinct (map n_ID ?ns) \<and> (\<forall>n\<in>set ?ns. node_ok n)"
    by (subst check_seen_None [where P = node_ok]) (simp_all add: validateNode_None)
  have ends: "check_seen 0 (\<lambda>x. x) (validateEndpoint l (mkeys (nodeMap ?ns))) [] xs = None \<longleftrightarrow>
      distinct xs \<and> set xs \<subseteq> nodeIDs g" for l xs
    by (subst check_seen_None [where P = "\<lambda>x. x \<in> n_ID ` set ?ns"])
      (auto simp only: validateEndpoint_None nodeIDs_def set_mkeys_nodeMap list.map_ident list.set image_ident)
  have edges: "check_seen 0 e_ID (validateEdge (nodeMap ?ns)) [] ?es = None \<longleftrightarrow>
      distinct (map e_ID ?es) \<and> (\<forall>e\<in>set ?es. edge_ok g e)" if "distinct (map n_ID ?ns)"
    by (subst check_seen_None [where P = "edge_ok g"]) (simp_all add: validateEdge_None that)
  have joins: "check_indexed 0 (validateJoin g) ?ns = None \<longleftrightarrow> (\<forall>n\<in>set ?ns. join_ok g n)"
    by (rule check_indexed_None_set) (rule validateJoin_None)
  have reach: "(\<forall>x\<in>set (mkeys (nodeMap ?ns)). \<not> x \<notin> set (bfs_mark (outgoing g) (g_EntryNodeIDs g) [])) \<longleftrightarrow>
      nodeIDs g \<subseteq> (edgeStep g)\<^sup>* `` set (g_EntryNodeIDs g)"
    unfolding bfs_mark_reachable out_rel_outgoing set_mkeys_nodeMap nodeIDs_def by blast
  have exits: "(\<forall>x\<in>set (mkeys (nodeMap ?ns)). \<not> x \<notin> set (bfs_mark (incoming g) (g_ExitNodeIDs g) [])) \<longleftrightarrow>
      (\<forall>x\<in>nodeIDs g. \<exists>y\<in>set (g_ExitNodeIDs g). (x, y) \<in> (edgeStep g)\<^sup>*)"
    unfolding exits_None set_mkeys_nodeMap nodeIDs_def by simp
  have human: "(\<forall>e\<in>set ?es. \<not> (0 < e_MaxTraversals e \<and> e_LoopGroup e \<noteq> '''' \<and>
        pathExists (outgoing g) (e_To e) (e_From e) \<and> \<not> hasHumanExit (nodeMap ?ns) (outgoing g) (e_From e))) \<longleftrightarrow>
      (\<forall>e\<in>set ?es. human_exit_ok g e)" if "distinct (map n_ID ?ns)"
    unfolding hasHumanExit_iff [OF that] graph_path.finds_iff human_exit_ok_def by blast
  show ?thesis
  proof (cases "distinct (map n_ID ?ns) \<and> (\<forall>e\<in>set ?es. edge_ok g e)")
    case True
    then have d: "distinct (map n_ID ?ns)" and e: "\<forall>e\<in>set ?es. edge_ok g e" by auto
    show ?thesis
      unfolding ValidateGraph_def graph_ok_def Let_def
      by (simp only: check_simps list.set ball_simps nodes ends joins reach exits edges [OF d] human [OF d]
          cycle_check_None [OF e] not_less de_Morgan_disj)
        (rule iffI; elim conjE; intro conjI; (assumption | rule TrueI))
  next
    case False
    then have "\<not> graph_ok g" by (auto simp: graph_ok_def)
    moreover have "ValidateGraph g \<noteq> None"
      unfolding ValidateGraph_def Let_def
      using False nodes edges by (simp only: check_simps list.set ball_simps) blast
    ultimately show ?thesis by simp
  qed
qed

section \<open>Properties\<close>

text \<open>
  C6: \<open>ValidateGraph\<close> decides \<open>graph_ok\<close>: it accepts a workflow graph exactly when the graph has an ID, a version,
  nodes, entries and exits, its nodes, edges, joins and policies are well formed with distinct IDs, every node is
  reachable from an entry and reaches an exit, the edges without a traversal bound form no cycle, and every
  bounded loop group has a path to a human node. The worklist searches and the depth-first cycle check are
  replaced by reachability and acyclicity of relations in \<open>graph_ok\<close>.
\<close>

theorem ValidateGraph_decides: "(case ValidateGraph g of None \<Rightarrow> True | Some e \<Rightarrow> False) = graph_ok g"
  using ValidateGraph_iff [of g] by (cases "ValidateGraph g") auto

text \<open>A walk is a sequence of edges each of which starts where the one before ends.\<close>

fun walk :: "WorkflowGraph \<Rightarrow> WorkflowEdge list \<Rightarrow> bool" where
  "walk g [] = True"
| "walk g [e] = (e \<in> set (g_Edges g))"
| "walk g (e # f # w) = (e \<in> set (g_Edges g) \<and> e_To e = e_From f \<and> walk g (f # w))"

text \<open>The number of traversals of bounded edges in a walk.\<close>

definition boundedSteps :: "WorkflowEdge list \<Rightarrow> nat" where
  "boundedSteps w = length (filter (\<lambda>e. 0 < e_MaxTraversals e) w)"

definition walkRank :: "WorkflowGraph \<Rightarrow> string \<Rightarrow> nat" where
  "walkRank g x = card ((unboundedStep g)\<^sup>+ `` {x})"

lemma walkRank_finite: "finite ((unboundedStep g)\<^sup>+ `` {x})"
proof -
  have "unboundedStep g \<subseteq> (\<lambda>e. (e_From e, e_To e)) ` set (g_Edges g)" by (auto simp: unboundedStep_def)
  then have "finite (unboundedStep g)" by (rule finite_subset) simp
  then show ?thesis by (simp add: finite_Image)
qed

text \<open>What the termination argument uses of a valid graph.\<close>

lemma graph_okD:
  assumes "graph_ok g"
  shows "g_Nodes g \<noteq> []" and "card (nodeIDs g) = length (g_Nodes g)" and "distinct (g_Edges g)"
    and "(x, y) \<in> unboundedStep g \<Longrightarrow> y \<in> nodeIDs g" and "(x, x) \<notin> (unboundedStep g)\<^sup>+"
proof -
  have d: "distinct (map n_ID (g_Nodes g))" and de: "distinct (map e_ID (g_Edges g))"
    and e: "\<forall>e\<in>set (g_Edges g). edge_ok g e" and a: "acyclic (unboundedStep g)"
    using assms unfolding graph_ok_def by blast+
  show "g_Nodes g \<noteq> []" using assms unfolding graph_ok_def by blast
  show "card (nodeIDs g) = length (g_Nodes g)" using distinct_card [OF d] by (simp add: nodeIDs_def)
  show "distinct (g_Edges g)" using de by (simp add: distinct_map)
  show "(x, y) \<in> unboundedStep g \<Longrightarrow> y \<in> nodeIDs g" using e by (auto simp: unboundedStep_def edge_ok_def)
  show "(x, x) \<notin> (unboundedStep g)\<^sup>+" using a by (simp add: acyclic_def)
qed

lemma walkRank_less:
  assumes "graph_ok g"
  shows "walkRank g x < length (g_Nodes g)"
proof -
  have sub: "insert x ((unboundedStep g)\<^sup>+ `` {x}) \<subseteq> insert x (nodeIDs g)"
    using graph_okD(4) [OF assms] by (auto elim: tranclE)
  have fin: "finite (nodeIDs g)" by (simp add: nodeIDs_def)
  have rank: "Suc (walkRank g x) = card (insert x ((unboundedStep g)\<^sup>+ `` {x}))"
    using walkRank_finite graph_okD(5) [OF assms] by (simp add: walkRank_def card_insert_if)
  show ?thesis
  proof (cases "x \<in> nodeIDs g")
    case True
    then have "Suc (walkRank g x) \<le> card (nodeIDs g)"
      unfolding rank using sub fin by (intro card_mono) (auto simp: insert_absorb)
    then show ?thesis using graph_okD(2) [OF assms] by simp
  next
    case False
    have "(x, y) \<notin> unboundedStep g" for y
      using assms False unfolding graph_ok_def unboundedStep_def edge_ok_def by blast
    then have "(unboundedStep g)\<^sup>+ `` {x} = {}" by (blast dest: tranclD)
    then show ?thesis using graph_okD(1) [OF assms] by (simp add: walkRank_def)
  qed
qed

lemma walkRank_step:
  assumes "graph_ok g" and "(x, y) \<in> unboundedStep g"
  shows "walkRank g y < walkRank g x"
  unfolding walkRank_def
proof (rule psubset_card_mono)
  show "finite ((unboundedStep g)\<^sup>+ `` {x})" by (rule walkRank_finite)
  have "y \<notin> (unboundedStep g)\<^sup>+ `` {y}" using graph_okD(5) [OF assms(1)] by simp
  moreover have "y \<in> (unboundedStep g)\<^sup>+ `` {x}" using assms(2) by auto
  ultimately show "(unboundedStep g)\<^sup>+ `` {y} \<subset> (unboundedStep g)\<^sup>+ `` {x}"
    using assms(2) by (auto intro: trancl_into_trancl2)
qed

lemma walk_tail: "walk g (e # w) \<Longrightarrow> e \<in> set (g_Edges g) \<and> walk g w \<and> (w \<noteq> [] \<longrightarrow> e_To e = e_From (hd w))"
  by (cases w) auto

lemma walk_length:
  assumes "graph_ok g" and "walk g (e # w)"
  shows "length (e # w) \<le> walkRank g (e_From e) + boundedSteps (e # w) * length (g_Nodes g)"
  using assms(2)
proof (induction w arbitrary: e)
  case Nil
  show ?case
  proof (cases "0 < e_MaxTraversals e")
    case True
    then show ?thesis using graph_okD(1) [OF assms(1)] by (cases "g_Nodes g") (auto simp: boundedSteps_def)
  next
    case False
    then have "(e_From e, e_To e) \<in> unboundedStep g" using Nil by (auto simp: unboundedStep_def)
    then show ?thesis using walkRank_step [OF assms(1)] by fastforce
  qed
next
  case (Cons f w)
  note e = walk_tail [OF Cons.prems]
  have ih: "length (f # w) \<le> walkRank g (e_To e) + boundedSteps (f # w) * length (g_Nodes g)"
    using Cons.IH [of f] e by simp
  show ?case
  proof (cases "0 < e_MaxTraversals e")
    case True
    then show ?thesis using ih walkRank_less [OF assms(1), of "e_To e"] by (simp add: boundedSteps_def)
  next
    case False
    then have "(e_From e, e_To e) \<in> unboundedStep g" using e by (auto simp: unboundedStep_def)
    then show ?thesis using ih walkRank_step [OF assms(1)] False by (fastforce simp: boundedSteps_def)
  qed
qed

definition traversalBudget :: "WorkflowGraph \<Rightarrow> nat" where
  "traversalBudget g = sum_list (map (\<lambda>e. nat (e_MaxTraversals e)) (g_Edges g))"

lemma boundedSteps_budget:
  assumes "distinct es" and "set w \<subseteq> set es"
    and "\<forall>e\<in>set es. 0 < e_MaxTraversals e \<longrightarrow> int (count_list w e) \<le> e_MaxTraversals e"
  shows "boundedSteps w \<le> sum_list (map (\<lambda>e. nat (e_MaxTraversals e)) es)"
proof -
  have "boundedSteps w = sum (count_list (filter (\<lambda>e. 0 < e_MaxTraversals e) w)) (set es)"
    unfolding boundedSteps_def using assms(2) by (subst sum_count_set) auto
  also have "\<dots> \<le> sum (\<lambda>e. nat (e_MaxTraversals e)) (set es)"
  proof (rule sum_mono)
    fix e
    assume e: "e \<in> set es"
    have "count_list (filter P w) e = (if P e then count_list w e else 0)" for P by (induction w) auto
    then show "count_list (filter (\<lambda>e. 0 < e_MaxTraversals e) w) e \<le> nat (e_MaxTraversals e)"
      using assms(3) e by auto
  qed
  also have "\<dots> = sum_list (map (\<lambda>e. nat (e_MaxTraversals e)) es)"
    using assms(1) by (rule sum.distinct_set_conv_list)
  finally show ?thesis .
qed

text \<open>
  C18: Valid workflows terminate. In a graph that \<open>ValidateGraph\<close> accepts, a walk along the edges that takes each
  bounded edge no more often than its bound has at most as many steps as there are nodes, times one more
  than the sum of all bounds.
\<close>

theorem valid_graph_walk_bounded:
  assumes "ValidateGraph g = None" and "walk g w"
    and "\<forall>e\<in>set (g_Edges g). 0 < e_MaxTraversals e \<longrightarrow> int (count_list w e) \<le> e_MaxTraversals e"
  shows "length w \<le> (traversalBudget g + 1) * length (g_Nodes g)"
proof (cases w)
  case Nil
  then show ?thesis by simp
next
  case (Cons e v)
  have g: "graph_ok g" using assms(1) by (simp add: ValidateGraph_iff)
  then have d: "distinct (g_Edges g)" by (rule graph_okD)
  have "walk g u \<Longrightarrow> set u \<subseteq> set (g_Edges g)" for u by (induction g u rule: walk.induct) auto
  then have "boundedSteps w \<le> traversalBudget g"
    unfolding traversalBudget_def using boundedSteps_budget [OF d] assms(2,3) by blast
  then have "boundedSteps w * length (g_Nodes g) \<le> traversalBudget g * length (g_Nodes g)" by (rule mult_le_mono1)
  moreover have "length w \<le> walkRank g (e_From e) + boundedSteps w * length (g_Nodes g)"
    using walk_length [OF g] assms(2) Cons by simp
  moreover note walkRank_less [OF g, of "e_From e"]
  ultimately show ?thesis unfolding add_mult_distrib mult_1 by linarith
qed

theorem valid_graph_walk_bounded_witness:
  "length (g_Edges exGraph) \<le> (traversalBudget exGraph + 1) * length (g_Nodes exGraph)"
proof (rule valid_graph_walk_bounded)
  show "ValidateGraph exGraph = None" by code_simp
  show "walk exGraph (g_Edges exGraph)" by code_simp
  show "\<forall>e\<in>set (g_Edges exGraph). 0 < e_MaxTraversals e \<longrightarrow> int (count_list (g_Edges exGraph) e) \<le> e_MaxTraversals e"
    by code_simp
qed

end
