(* ===== verification/Orch_Repair.thy ===== *)
theory Orch_Repair
  imports Orch_Graph Orch_Example
begin

text \<open>
  The repair lifecycle of \<open>transition.go\<close>: the transition table, the recorded history, the choice
  of the repair plan an attempt belongs to when it starts, the repair plan a finished repair node
  creates, and what a finished target or verification attempt does to its plan. The component's
  invariant is \<open>repair_wf\<close>: a history that starts as planned, follows the table and ends in the
  current state, within the configured number of rounds.
\<close>

section \<open>Operations\<close>

definition zeroRepairPlan :: RepairPlan where
  "zeroRepairPlan = \<lparr>rpl_ID = '''', rpl_PlanID = '''', rpl_RepairNodeID = '''', rpl_RepairAttemptID = '''',
     rpl_RepairAttemptIDs = [], rpl_TargetNodeID = '''', rpl_VerificationNodeIDs = [], rpl_SourceAttemptIDs = [],
     rpl_Scope = [], rpl_MaxRounds = 0, rpl_Round = 0, rpl_State = RepairUnset, rpl_StateHistory = [],
     rpl_TargetAttemptID = '''', rpl_VerificationAttempts = [], rpl_VerifiedNodes = [],
     rpl_PatchArtifactIDs = [], rpl_VerificationArtifactIDs = [], rpl_LastReasonCode = ''''\<rparr>"

fun validRepairLifecycle :: "RepairLifecycle \<Rightarrow> bool" where
  "validRepairLifecycle RepairUnset = False"
| "validRepairLifecycle (RepairOther s) = False"
| "validRepairLifecycle _ = True"

definition repairLifecycleTransitionAllowed :: "RepairLifecycle \<Rightarrow> RepairLifecycle \<Rightarrow> bool" where
  "repairLifecycleTransitionAllowed src dst =
     (if src = dst then True
      else case src of
        RepairPlanned \<Rightarrow> dst = RepairDispatched \<or> dst = RepairFailed \<or> dst = RepairExhausted
      | RepairDispatched \<Rightarrow> dst = RepairPatched \<or> dst = RepairFailed \<or> dst = RepairExhausted
      | RepairPatched \<Rightarrow> dst = RepairVerifying \<or> dst = RepairFailed \<or> dst = RepairExhausted
      | RepairVerifying \<Rightarrow> dst = RepairVerified \<or> dst = RepairFailed \<or> dst = RepairExhausted
      | RepairFailed \<Rightarrow> dst = RepairPlanned \<or> dst = RepairExhausted
      | _ \<Rightarrow> False)"

text \<open>\<open>setRepairState\<close> returns false without a change or true with the new state; false is
  \<open>None\<close> here.\<close>

definition setRepairState :: "RepairPlan \<Rightarrow> RepairLifecycle \<Rightarrow> RepairPlan option" where
  "setRepairState repair nxt =
     (if \<not> validRepairLifecycle nxt then None
      else if rpl_State repair = RepairUnset then
        Some (repair\<lparr>rpl_State := nxt, rpl_StateHistory := rpl_StateHistory repair @ [nxt]\<rparr>)
      else if \<not> repairLifecycleTransitionAllowed (rpl_State repair) nxt then None
      else
        (let h = (if rpl_StateHistory repair = [] then [rpl_State repair] else rpl_StateHistory repair);
             h' = (if last h \<noteq> rpl_State repair then h @ [rpl_State repair] else h)
         in if rpl_State repair \<noteq> nxt
            then Some (repair\<lparr>rpl_State := nxt, rpl_StateHistory := h' @ [nxt]\<rparr>)
            else Some (repair\<lparr>rpl_StateHistory := h'\<rparr>)))"

definition repairMarker :: "string \<Rightarrow> string" where
  "repairMarker repairID = ''repair:'' @ repairID @ '':target''"

text \<open>\<open>resetRepairRound\<close>: the body of its loop, and the loop over the target and the verification
  nodes.\<close>

definition resetRepairNode :: "RepairPlan \<Rightarrow> string \<Rightarrow> PlanProjection \<Rightarrow> PlanProjection" where
  "resetRepairNode repair nodeID p =
     (case mget (p_Nodes p) nodeID of
        None \<Rightarrow> p
      | Some node \<Rightarrow>
          if np_Status node = AttemptRunning then p
          else p\<lparr>p_Nodes := mput nodeID
            (if nodeID = rpl_TargetNodeID repair
             then node\<lparr>np_RetryAt := None, np_Status := AttemptReady,
                    np_ReadyEdgeIDs := [repairMarker (rpl_ID repair)]\<rparr>
             else node\<lparr>np_RetryAt := None, np_Status := AttemptPending, np_ReadyEdgeIDs := []\<rparr>)
            (p_Nodes p)\<rparr>)"

definition resetRepairRound :: "PlanProjection \<Rightarrow> RepairPlan \<Rightarrow> PlanProjection" where
  "resetRepairRound p repair =
     fold (resetRepairNode repair) (rpl_TargetNodeID repair # rpl_VerificationNodeIDs repair) p"

definition retryableCodes :: "string list" where
  "retryableCodes = [''provider_failed'', ''provider_timeout'', ''provider_result_missing'',
     ''provider_tool_evidence_missing'', ''upstream_error'', ''timeout'', ''lease_expired'']"

definition isRetryableRepairProviderFailure :: "NodeAttempt \<Rightarrow> bool" where
  "isRetryableRepairProviderFailure attempt \<longleftrightarrow>
     (a_Status attempt = AttemptFailed \<or> a_Status attempt = AttemptTimedOut) \<and>
     opt_any (\<lambda>f. f_Retryable f \<and> f_Code f \<in> set retryableCodes) (a_FailureReason attempt)"

definition retryableRepairProviderAttempt :: "PlanProjection \<Rightarrow> string \<Rightarrow> bool" where
  "retryableRepairProviderAttempt p attemptID \<longleftrightarrow>
     attemptID \<noteq> '''' \<and> opt_any isRetryableRepairProviderFailure (mget (p_Attempts p) attemptID)"

definition repairReadyFrom ::
  "PlanProjection \<Rightarrow> WorkflowGraph \<Rightarrow> string \<Rightarrow> string \<Rightarrow> string \<Rightarrow> bool \<Rightarrow> bool" where
  "repairReadyFrom p g nodeID src repairID verification \<longleftrightarrow>
     opt_any (\<lambda>node.
       \<not> verification \<and> contains (np_ReadyEdgeIDs node) (repairMarker repairID) \<or>
       list_ex (\<lambda>readyID. list_ex (\<lambda>e. e_ID e = readyID \<and> e_From e = src \<and> e_To e = nodeID \<and>
           e_On e = EdgeSuccess) (g_Edges g)) (np_ReadyEdgeIDs node) \<or>
       verification \<and>
       list_ex (\<lambda>readyID. list_ex (\<lambda>e. e_ID e = readyID \<and> e_To e = nodeID \<and> e_On e = EdgeSuccess \<and>
           repairPathExists g src (e_From e) EdgeSuccess) (g_Edges g)) (np_ReadyEdgeIDs node))
     (mget (p_Nodes p) nodeID)"

text \<open>The body of the loop of \<open>repairPlanForDispatch\<close>: the state it returns for this plan, if any.\<close>

definition dispatchState :: "PlanProjection \<Rightarrow> WorkflowGraph \<Rightarrow> string \<Rightarrow> RepairPlan \<Rightarrow> RepairLifecycle option" where
  "dispatchState p g nodeID repair =
     (let targetRetry = rpl_TargetNodeID repair = nodeID \<and> rpl_State repair = RepairDispatched \<and>
            retryableRepairProviderAttempt p (rpl_TargetAttemptID repair);
          verificationAttemptID = mget0 '''' (rpl_VerificationAttempts repair) nodeID;
          verifiable = contains (rpl_VerificationNodeIDs repair) nodeID \<and>
            (rpl_State repair = RepairPatched \<or> rpl_State repair = RepairVerifying) \<and>
            rpl_TargetAttemptID repair \<noteq> '''';
          verificationRetry = verifiable \<and> retryableRepairProviderAttempt p verificationAttemptID
      in if rpl_TargetNodeID repair = nodeID \<and>
            ((rpl_State repair = RepairPlanned \<and> rpl_TargetAttemptID repair = '''') \<or> targetRetry) \<and>
            (targetRetry \<or> repairReadyFrom p g nodeID (rpl_RepairNodeID repair) (rpl_ID repair) False)
         then Some RepairDispatched
         else if verifiable \<and> repairReadyFrom p g nodeID (rpl_TargetNodeID repair) (rpl_ID repair) True \<and>
            (verificationAttemptID = '''' \<or> verificationRetry)
         then Some RepairVerifying
         else if verificationRetry then Some RepairVerifying
         else None)"

fun dispatch_loop :: "PlanProjection \<Rightarrow> WorkflowGraph \<Rightarrow> string \<Rightarrow> string list \<Rightarrow> string \<times> RepairLifecycle" where
  "dispatch_loop p g nodeID [] = ([], RepairUnset)"
| "dispatch_loop p g nodeID (i # ids) =
     (case dispatchState p g nodeID (mget0 zeroRepairPlan (p_RepairPlans p) i) of
        Some st \<Rightarrow> (i, st)
      | None \<Rightarrow> dispatch_loop p g nodeID ids)"

definition repairPlanForDispatch :: "PlanProjection \<Rightarrow> WorkflowGraph \<Rightarrow> string \<Rightarrow> string \<times> RepairLifecycle" where
  "repairPlanForDispatch p g nodeID = dispatch_loop p g nodeID (sort_strings (mkeys (p_RepairPlans p)))"

definition repairLifecycleAtStart :: "PlanProjection \<Rightarrow> WorkflowGraph \<Rightarrow> string \<Rightarrow> RepairLifecycle" where
  "repairLifecycleAtStart p g nodeID =
     (case repairPlanForDispatch p g nodeID of (repairID, state) \<Rightarrow>
        if repairID \<noteq> '''' then state else RepairUnset)"

text \<open>Reading the fields of a structured result; a missing key reads as nil.\<close>

definition fget :: "fields \<Rightarrow> string \<Rightarrow> any" where
  "fget f k = mget0 VNil f k"

fun asString :: "any \<Rightarrow> string" where
  "asString (VString s) = s"
| "asString _ = []"

fun isString :: "any \<Rightarrow> bool" where
  "isString (VString s) = True"
| "isString _ = False"

fun stringSliceValue :: "any \<Rightarrow> string list" where
  "stringSliceValue (VStrings xs) = xs"
| "stringSliceValue (VSlice ElemAny xs) =
     map asString (filter (\<lambda>v. isString v \<and> \<not> blank (asString v)) xs)"
| "stringSliceValue _ = []"

fun intValue :: "any \<Rightarrow> int" where
  "intValue (VInt n) = n"
| "intValue (VInt64 n) = n"
| "intValue (VFloat64 f) = int_of_float f"
| "intValue _ = 0"

fun verificationIDs :: "any \<Rightarrow> string list" where
  "verificationIDs (VStrings xs) = xs"
| "verificationIDs (VSlice ElemAny xs) = map asString (filter isString xs)"
| "verificationIDs _ = []"

definition repairVerificationNodes :: "NodeAttempt \<Rightarrow> string list" where
  "repairVerificationNodes attempt =
     verificationIDs (fget (sr_Fields (a_Result attempt)) ''verification_node_ids'')"

definition invalidTransition :: "string \<Rightarrow> string \<Rightarrow> go_error" where
  "invalidTransition msg arg = Wrapf ErrInvalidTransition (msg @ arg)"

definition createRepairPlan ::
  "PlanProjection \<Rightarrow> RequirementExecutionPlan \<Rightarrow> NodeAttempt \<Rightarrow> go_error + RepairPlan" where
  "createRepairPlan p plan attempt =
     (let fields = sr_Fields (a_Result attempt);
          target = TrimSpace (asString (fget fields ''target_node_id''));
          verification = repairVerificationNodes attempt;
          maxRounds = intValue (fget fields ''max_rounds'');
          g = pl_GraphSnapshot plan
      in case first_err
           [guard (target = '''' \<or> verification = [] \<or> maxRounds < 1)
              (invalidTransition ''repair decision is incomplete'' ''''),
            guard (mget (p_Nodes p) target = None) (invalidTransition ''repair target is unknown: '' target),
            check_indexed 0 (\<lambda>j v. guard (mget (p_Nodes p) v = None)
              (invalidTransition ''repair verification node is unknown: '' v)) verification,
            guard (\<not> repairPathExists g (a_NodeID attempt) target EdgeSuccess)
              (invalidTransition ''repair target is not on a success edge: '' target),
            check_indexed 0 (\<lambda>j v. guard (\<not> repairPathExists g target v EdgeSuccess)
              (invalidTransition ''verification node is not reachable from target: '' v)) verification]
         of Some e \<Rightarrow> Inl e
          | None \<Rightarrow> Inr
              \<lparr>rpl_ID = pl_ID plan @ '':repair:'' @ a_ID attempt, rpl_PlanID = pl_ID plan,
               rpl_RepairNodeID = a_NodeID attempt, rpl_RepairAttemptID = a_ID attempt,
               rpl_RepairAttemptIDs = [a_ID attempt], rpl_TargetNodeID = target,
               rpl_VerificationNodeIDs = verification,
               rpl_SourceAttemptIDs = stringSliceValue (fget fields ''source_attempt_ids''),
               rpl_Scope = stringSliceValue (fget fields ''scope''), rpl_MaxRounds = maxRounds,
               rpl_Round = 1, rpl_State = RepairPlanned, rpl_StateHistory = [RepairPlanned],
               rpl_TargetAttemptID = '''', rpl_VerificationAttempts = [], rpl_VerifiedNodes = [],
               rpl_PatchArtifactIDs = [], rpl_VerificationArtifactIDs = [], rpl_LastReasonCode = ''''\<rparr>)"

abbreviation putRepair :: "RepairPlan \<Rightarrow> PlanProjection \<Rightarrow> PlanProjection" where
  "putRepair repair p \<equiv> p\<lparr>p_RepairPlans := mput (rpl_ID repair) repair (p_RepairPlans p)\<rparr>"

text \<open>The branch of \<open>advanceRepairAttemptState\<close> for a failed, timed out or cancelled attempt, which
  the code has once for a dispatched target and once for a verification attempt.\<close>

definition failRepairRound ::
  "PlanProjection \<Rightarrow> RepairPlan \<Rightarrow> string \<Rightarrow> PlanProjection \<times> (go_error + RepairLifecycle)" where
  "failRepairRound p repair reopenMsg =
     (case setRepairState repair RepairFailed of
        None \<Rightarrow> (p, Inl (invalidTransition ''repair cannot transition to failed: '' (rpl_ID repair)))
      | Some failed \<Rightarrow>
          if rpl_Round failed < rpl_MaxRounds failed then
            (let again = failed\<lparr>rpl_Round := wrap64 (rpl_Round failed + 1), rpl_TargetAttemptID := '''',
                   rpl_VerificationAttempts := [], rpl_VerifiedNodes := []\<rparr>;
                 p' = resetRepairRound p again
             in case setRepairState again RepairPlanned of
                  None \<Rightarrow> (p', Inl (invalidTransition reopenMsg (rpl_ID repair)))
                | Some planned \<Rightarrow> (putRepair planned p', Inr RepairFailed))
          else
            (case setRepairState failed RepairExhausted of
               None \<Rightarrow> (p, Inl (invalidTransition ''repair cannot transition to exhausted: '' (rpl_ID repair)))
             | Some exhausted \<Rightarrow> (putRepair exhausted p, Inr RepairExhausted)))"

abbreviation attemptFailed :: "NodeAttempt \<Rightarrow> bool" where
  "attemptFailed a \<equiv>
     a_Status a = AttemptFailed \<or> a_Status a = AttemptTimedOut \<or> a_Status a = AttemptCancelled"

text \<open>
  The \<open>VerifiedNodes\<close> map of the plan under verification is shared with the projection, so the
  verification mark stays even when the state cannot be set.
\<close>

definition passVerification ::
  "PlanProjection \<Rightarrow> RepairPlan \<Rightarrow> NodeAttempt \<Rightarrow> PlanProjection \<times> (go_error + RepairLifecycle)" where
  "passVerification p repair attempt =
     (let verified = mput (a_NodeID attempt) True (rpl_VerifiedNodes repair);
          shared = p\<lparr>p_RepairPlans := mput (a_RepairPlanID attempt) (repair\<lparr>rpl_VerifiedNodes := verified\<rparr>)
                    (p_RepairPlans p)\<rparr>;
          marked = repair\<lparr>rpl_VerifiedNodes := verified,
            rpl_VerificationArtifactIDs := appendUnique (rpl_VerificationArtifactIDs repair) (a_OutputArtifacts attempt)\<rparr>;
          complete = (length verified = length (rpl_VerificationNodeIDs repair))
      in case setRepairState marked (if complete then RepairVerified else RepairVerifying) of
           None \<Rightarrow> (shared, Inl (invalidTransition
             (if complete then ''repair cannot transition to verified: '' else ''repair cannot remain verifying: '')
             (rpl_ID repair)))
         | Some repair' \<Rightarrow> (putRepair repair' p,
             Inr (if rpl_State repair' = RepairVerified then RepairVerified else RepairVerifying)))"

definition advanceRepairAttemptState ::
  "PlanProjection \<Rightarrow> NodeAttempt \<Rightarrow> PlanProjection \<times> (go_error + RepairLifecycle)" where
  "advanceRepairAttemptState p attempt =
     (if a_RepairPlanID attempt = '''' then (p, Inr (a_RepairState attempt))
      else case mget (p_RepairPlans p) (a_RepairPlanID attempt) of
        None \<Rightarrow> (p, Inl (invalidTransition ''repair plan is missing: '' (a_RepairPlanID attempt)))
      | Some repair \<Rightarrow>
          if isRetryableRepairProviderFailure attempt then (putRepair repair p, Inr (a_RepairState attempt))
          else if a_RepairState attempt = RepairDispatched \<and> a_Status attempt = AttemptPassed then
            (case setRepairState repair RepairPatched of
               None \<Rightarrow> (p, Inl (invalidTransition ''repair cannot transition to patched: '' (rpl_ID repair)))
             | Some patched \<Rightarrow>
                 (putRepair (patched\<lparr>rpl_PatchArtifactIDs :=
                    appendUnique (rpl_PatchArtifactIDs patched) (a_OutputArtifacts attempt)\<rparr>) p, Inr RepairPatched))
          else if a_RepairState attempt = RepairDispatched \<and> attemptFailed attempt then
            failRepairRound p repair ''repair cannot reopen after failure: ''
          else if a_RepairState attempt = RepairVerifying \<and> a_Status attempt = AttemptPassed then
            passVerification p repair attempt
          else if a_RepairState attempt = RepairVerifying \<and> attemptFailed attempt then
            failRepairRound p repair ''repair cannot reopen after verification failure: ''
          else (p, Inr (a_RepairState attempt)))"

definition repairVerified :: "RepairPlan \<Rightarrow> bool" where
  "repairVerified repair \<longleftrightarrow>
     \<not> (rpl_State repair \<noteq> RepairVerified) \<and>
     \<not> (rpl_VerificationNodeIDs repair = [] \<or>
        length (rpl_VerifiedNodes repair) < length (rpl_VerificationNodeIDs repair)) \<and>
     list_all (\<lambda>v. mget0 False (rpl_VerifiedNodes repair) v) (rpl_VerificationNodeIDs repair)"

definition allRepairsVerified :: "PlanProjection \<Rightarrow> bool" where
  "allRepairsVerified p \<longleftrightarrow> list_all repairVerified (mvals (p_RepairPlans p))"

definition repairVerificationPending :: "PlanProjection \<Rightarrow> bool" where
  "repairVerificationPending p \<longleftrightarrow>
     list_ex (\<lambda>repair. rpl_State repair \<in> set [RepairPlanned, RepairDispatched, RepairPatched, RepairVerifying])
       (mvals (p_RepairPlans p))"

section \<open>The recorded history\<close>

text \<open>
  A machine that records the states it passes through: a move goes to an allowed state and appends
  it to the history unless it stays where it is. What a run of moves keeps is proved once here.
\<close>

locale recorded_machine =
  fixes state :: "'s \<Rightarrow> 'q"
    and hist :: "'s \<Rightarrow> 'q list"
    and allowed :: "'q \<Rightarrow> 'q \<Rightarrow> bool"
    and start :: 'q
    and move :: "'s \<Rightarrow> 'q \<Rightarrow> 's option"
  assumes allowed_refl: "allowed q q"
    and move_state: "hist s \<noteq> [] \<Longrightarrow> last (hist s) = state s \<Longrightarrow> move s q = Some s' \<Longrightarrow>
      allowed (state s) q \<and> state s' = q \<and>
      hist s' = (if state s = q then hist s else hist s @ [q])"
begin

definition recorded :: "'s \<Rightarrow> bool" where
  "recorded s \<longleftrightarrow> hist s \<noteq> [] \<and> hd (hist s) = start \<and> last (hist s) = state s \<and> successively allowed (hist s)"

fun moves :: "'s \<Rightarrow> 'q list \<Rightarrow> 's option" where
  "moves s [] = Some s"
| "moves s (q # qs) = (case move s q of None \<Rightarrow> None | Some s' \<Rightarrow> moves s' qs)"

lemma recorded_move:
  assumes "recorded s" and "move s q = Some s'"
  shows "recorded s'"
proof -
  from assms(1) have h: "hist s \<noteq> []" "last (hist s) = state s" by (auto simp: recorded_def)
  note m = move_state [OF h assms(2)]
  show ?thesis
  proof (cases "state s = q")
    case True
    then show ?thesis using assms(1) m by (simp add: recorded_def)
  next
    case False
    then show ?thesis using assms(1) m by (auto simp: recorded_def successively_append_iff)
  qed
qed

lemma recorded_moves: "recorded s \<Longrightarrow> moves s qs = Some s' \<Longrightarrow> recorded s'"
  by (induction qs arbitrary: s) (auto split: option.splits dest: recorded_move)

lemma hist_move_prefix:
  assumes "recorded s" and "move s q = Some s'"
  shows "\<exists>ext. hist s' = hist s @ ext"
  using assms move_state [of s q s'] by (auto simp: recorded_def)

lemma hist_moves_prefix: "recorded s \<Longrightarrow> moves s qs = Some s' \<Longrightarrow> \<exists>ext. hist s' = hist s @ ext"
proof (induction qs arbitrary: s)
  case Nil
  then show ?case by simp
next
  case (Cons q qs)
  then obtain s1 where s1: "move s q = Some s1" "moves s1 qs = Some s'" by (auto split: option.splits)
  then show ?case
    using Cons.IH [OF recorded_move [OF Cons.prems(1) s1(1)] s1(2)] hist_move_prefix [OF Cons.prems(1) s1(1)]
    by auto
qed

lemma stuck_moves:
  assumes "\<And>q. allowed (state s) q \<longleftrightarrow> q = state s" and "recorded s" and "moves s qs = Some s'"
  shows "state s' = state s \<and> hist s' = hist s"
  using assms
proof (induction qs arbitrary: s)
  case Nil
  then show ?case by simp
next
  case (Cons q qs)
  then obtain s1 where s1: "move s q = Some s1" "moves s1 qs = Some s'" by (auto split: option.splits)
  from Cons.prems(2) have h: "hist s \<noteq> []" "last (hist s) = state s" by (auto simp: recorded_def)
  from move_state [OF h s1(1)] Cons.prems(1) have "state s1 = state s" "hist s1 = hist s" by auto
  then show ?case using Cons.IH [of s1] s1 Cons.prems(1) recorded_move [OF Cons.prems(2) s1(1)] by simp
qed

end

lemma setRepairState_Some:
  assumes "rpl_StateHistory r \<noteq> []" and "last (rpl_StateHistory r) = rpl_State r"
    and "rpl_State r \<noteq> RepairUnset" and "setRepairState r q = Some r'"
  shows "repairLifecycleTransitionAllowed (rpl_State r) q \<and>
    r' = r\<lparr>rpl_State := q, rpl_StateHistory := (if rpl_State r = q then rpl_StateHistory r else rpl_StateHistory r @ [q])\<rparr>"
  using assms by (auto simp: setRepairState_def Let_def split: if_splits)

text \<open>The states a plan can be in after its creation; the unset state is not one of them.\<close>

definition repairMove :: "RepairPlan \<Rightarrow> RepairLifecycle \<Rightarrow> RepairPlan option" where
  "repairMove r q = (if rpl_State r = RepairUnset then None else setRepairState r q)"

interpretation repair_machine:
  recorded_machine rpl_State rpl_StateHistory repairLifecycleTransitionAllowed RepairPlanned repairMove
proof unfold_locales
  show "repairLifecycleTransitionAllowed q q" for q by (simp add: repairLifecycleTransitionAllowed_def)
  fix s q s'
  assume "rpl_StateHistory s \<noteq> []" "last (rpl_StateHistory s) = rpl_State s" "repairMove s q = Some s'"
  then show "repairLifecycleTransitionAllowed (rpl_State s) q \<and> rpl_State s' = q \<and>
      rpl_StateHistory s' = (if rpl_State s = q then rpl_StateHistory s else rpl_StateHistory s @ [q])"
    using setRepairState_Some [of s q s'] by (auto simp: repairMove_def split: if_splits)
qed

definition repair_wf :: "RepairPlan \<Rightarrow> bool" where
  "repair_wf r \<longleftrightarrow> repair_machine.recorded r \<and> validRepairLifecycle (rpl_State r) \<and>
     1 \<le> rpl_Round r \<and> rpl_Round r \<le> rpl_MaxRounds r \<and> in64 (rpl_MaxRounds r)"

lemma repair_wf_update [simp]:
  "repair_wf (r\<lparr>rpl_TargetAttemptID := x\<rparr>) = repair_wf r"
  "repair_wf (r\<lparr>rpl_VerificationAttempts := va\<rparr>) = repair_wf r"
  "repair_wf (r\<lparr>rpl_VerifiedNodes := vn\<rparr>) = repair_wf r"
  "repair_wf (r\<lparr>rpl_PatchArtifactIDs := ps\<rparr>) = repair_wf r"
  "repair_wf (r\<lparr>rpl_VerificationArtifactIDs := vs\<rparr>) = repair_wf r"
  "repair_wf (r\<lparr>rpl_LastReasonCode := x\<rparr>) = repair_wf r"
  by (simp_all add: repair_wf_def repair_machine.recorded_def)

text \<open>
  What a plan may do: its history grows at the end, its round does not go down, its contract stays,
  and once verified or exhausted it stays so.
\<close>

definition repair_progress :: "RepairPlan \<Rightarrow> RepairPlan \<Rightarrow> bool" where
  "repair_progress r r' \<longleftrightarrow>
     (\<exists>ext. rpl_StateHistory r' = rpl_StateHistory r @ ext) \<and> rpl_Round r \<le> rpl_Round r' \<and>
     rpl_ID r' = rpl_ID r \<and> rpl_PlanID r' = rpl_PlanID r \<and> rpl_MaxRounds r' = rpl_MaxRounds r \<and>
     rpl_RepairNodeID r' = rpl_RepairNodeID r \<and> rpl_RepairAttemptID r' = rpl_RepairAttemptID r \<and>
     rpl_RepairAttemptIDs r' = rpl_RepairAttemptIDs r \<and>
     rpl_TargetNodeID r' = rpl_TargetNodeID r \<and> rpl_VerificationNodeIDs r' = rpl_VerificationNodeIDs r \<and>
     (rpl_State r \<in> {RepairVerified, RepairExhausted} \<longrightarrow> rpl_State r' = rpl_State r)"

lemma repair_progress_refl [simp]: "repair_progress r r"
  by (simp add: repair_progress_def)

lemma repair_progress_trans: "repair_progress a b \<Longrightarrow> repair_progress b c \<Longrightarrow> repair_progress a c"
  by (auto simp: repair_progress_def)

lemma repair_progress_update [simp]:
  "repair_progress r (r'\<lparr>rpl_TargetAttemptID := x\<rparr>) = repair_progress r r'"
  "repair_progress r (r'\<lparr>rpl_VerificationAttempts := va\<rparr>) = repair_progress r r'"
  "repair_progress r (r'\<lparr>rpl_VerifiedNodes := vn\<rparr>) = repair_progress r r'"
  "repair_progress r (r'\<lparr>rpl_PatchArtifactIDs := ps\<rparr>) = repair_progress r r'"
  "repair_progress r (r'\<lparr>rpl_VerificationArtifactIDs := vs\<rparr>) = repair_progress r r'"
  "repair_progress r (r'\<lparr>rpl_LastReasonCode := x\<rparr>) = repair_progress r r'"
  by (simp_all add: repair_progress_def)

lemma terminal_not_allowed:
  "q \<in> {RepairVerified, RepairExhausted} \<Longrightarrow> repairLifecycleTransitionAllowed q q' \<longleftrightarrow> q' = q"
  by (auto simp: repairLifecycleTransitionAllowed_def)

lemma setRepairState_wf:
  assumes "repair_wf r" and "setRepairState r q = Some r'"
  shows "repair_wf r' \<and> rpl_State r' = q \<and> rpl_Round r' = rpl_Round r \<and> repair_progress r r'"
proof -
  from assms(1) have v: "rpl_State r \<noteq> RepairUnset" by (auto simp: repair_wf_def)
  then have mv: "repairMove r q = Some r'" using assms(2) by (simp add: repairMove_def)
  have r: "repair_machine.recorded r" using assms(1) by (simp add: repair_wf_def)
  then have h: "rpl_StateHistory r \<noteq> []" "last (rpl_StateHistory r) = rpl_State r"
    by (auto simp: repair_machine.recorded_def)
  note r' = setRepairState_Some [OF h v assms(2)]
  have rec: "repair_machine.recorded r'" using r mv by (rule repair_machine.recorded_move)
  have "validRepairLifecycle q" using assms(2) by (auto simp: setRepairState_def split: if_splits)
  then have "repair_wf r' \<and> rpl_State r' = q \<and> rpl_Round r' = rpl_Round r"
    using rec r' assms(1) by (simp add: repair_wf_def)
  moreover have "repair_progress r r'" using r' terminal_not_allowed by (auto simp: repair_progress_def)
  ultimately show ?thesis by simp
qed

lemma setRepairState_defined:
  "rpl_State r \<noteq> RepairUnset \<Longrightarrow> validRepairLifecycle q \<Longrightarrow>
     repairLifecycleTransitionAllowed (rpl_State r) q \<Longrightarrow> \<exists>r'. setRepairState r q = Some r'"
  by (simp add: setRepairState_def Let_def)

lemma setRepairState_None_iff:
  "validRepairLifecycle (rpl_State r) \<Longrightarrow> validRepairLifecycle q \<Longrightarrow>
     setRepairState r q = None \<longleftrightarrow> \<not> repairLifecycleTransitionAllowed (rpl_State r) q"
  by (auto simp: setRepairState_def Let_def)

section \<open>Progress of a repair plan\<close>

text \<open>The entries of the repair map: keyed by their own ID, well formed.\<close>

definition repairs_wf :: "PlanProjection \<Rightarrow> bool" where
  "repairs_wf p \<longleftrightarrow> mwf (p_RepairPlans p) \<and> mall (\<lambda>k r. rpl_ID r = k \<and> repair_wf r) (p_RepairPlans p)"

lemma repairs_wf_get: "repairs_wf p \<Longrightarrow> mget (p_RepairPlans p) k = Some r \<Longrightarrow> rpl_ID r = k \<and> repair_wf r"
  unfolding repairs_wf_def by (blast dest: mall_mget)

lemma repairs_wf_put: "repairs_wf p \<Longrightarrow> repair_wf r \<Longrightarrow> rpl_ID r = k \<Longrightarrow>
    repairs_wf (p\<lparr>p_RepairPlans := mput k r (p_RepairPlans p)\<rparr>)"
  by (auto simp: repairs_wf_def)

lemma repairs_wf_Nodes [simp]: "repairs_wf (p\<lparr>p_Nodes := m\<rparr>) = repairs_wf p"
  by (simp add: repairs_wf_def)

text \<open>
  What a reset or a route may do to the node projections: a node that is not running may become
  ready or pending; its lineage stays.
\<close>

definition node_reopen :: "NodeProjection \<Rightarrow> NodeProjection \<Rightarrow> bool" where
  "node_reopen n n' \<longleftrightarrow> n' = n \<or>
     (np_Status n \<noteq> AttemptRunning \<and> np_Status n' \<in> {AttemptReady, AttemptPending} \<and>
      np_NodeID n' = np_NodeID n \<and> np_CurrentAttempt n' = np_CurrentAttempt n \<and>
      np_AttemptNo n' = np_AttemptNo n)"

definition reopens :: "(string, NodeProjection) gomap \<Rightarrow> (string, NodeProjection) gomap \<Rightarrow> bool" where
  "reopens m m' \<longleftrightarrow> (mwf m \<longrightarrow> mwf m') \<and> (\<forall>k. rel_option node_reopen (mget m k) (mget m' k))"

lemma node_reopen_refl [simp]: "node_reopen n n"
  by (simp add: node_reopen_def)

lemma node_reopen_trans: "node_reopen a b \<Longrightarrow> node_reopen b c \<Longrightarrow> node_reopen a c"
  by (auto simp: node_reopen_def)

lemma reopens_refl [simp]: "reopens m m"
  by (simp add: reopens_def rel_option_reflI)

lemma rel_option_reopen_trans:
  "rel_option node_reopen x y \<Longrightarrow> rel_option node_reopen y z \<Longrightarrow> rel_option node_reopen x z"
  by (cases x; cases y; cases z) (auto intro: node_reopen_trans)

lemma reopens_trans: "reopens a b \<Longrightarrow> reopens b c \<Longrightarrow> reopens a c"
  by (simp add: reopens_def) (blast intro: rel_option_reopen_trans)

lemma reopens_put: "mget m k = Some n \<Longrightarrow> node_reopen n n' \<Longrightarrow> reopens m (mput k n' m)"
  by (auto simp: reopens_def rel_option_reflI)

lemma reopens_get:
  "reopens m m' \<Longrightarrow> mget m' k = Some n' \<Longrightarrow> \<exists>n. mget m k = Some n \<and> node_reopen n n'"
  unfolding reopens_def by (metis option_rel_Some2)

lemma reopens_None: "reopens m m' \<Longrightarrow> mget m' k = None \<longleftrightarrow> mget m k = None"
  unfolding reopens_def by (metis option.rel_distinct(1) option.rel_distinct(2) option.exhaust)

definition only_nodes :: "PlanProjection \<Rightarrow> PlanProjection \<Rightarrow> bool" where
  "only_nodes p p' \<longleftrightarrow> (\<exists>m. p' = p\<lparr>p_Nodes := m\<rparr> \<and> reopens (p_Nodes p) m)"

lemma only_nodes_refl [simp]: "only_nodes p p"
  by (auto simp: only_nodes_def intro: exI [of _ "p_Nodes p"])

lemma only_nodes_trans: "only_nodes a b \<Longrightarrow> only_nodes b c \<Longrightarrow> only_nodes a c"
  by (auto simp: only_nodes_def) (blast intro: reopens_trans)

lemma only_nodes_put:
  "mget (p_Nodes p) k = Some n \<Longrightarrow> node_reopen n n' \<Longrightarrow> only_nodes p (p\<lparr>p_Nodes := mput k n' (p_Nodes p)\<rparr>)"
  by (auto simp: only_nodes_def reopens_put)

lemma resetRepairNode_only_nodes: "only_nodes p (resetRepairNode r x p)"
proof (cases "mget (p_Nodes p) x")
  case None
  then show ?thesis by (simp add: resetRepairNode_def)
next
  case (Some node)
  then show ?thesis
    by (auto simp: resetRepairNode_def intro!: only_nodes_put) (auto simp: node_reopen_def)
qed

lemma resetRepair_fold_only_nodes: "only_nodes p (fold (resetRepairNode r) xs p)"
  by (induction xs arbitrary: p) (auto intro: only_nodes_trans resetRepairNode_only_nodes)

lemma resetRepairRound_only_nodes: "only_nodes p (resetRepairRound p r)"
  unfolding resetRepairRound_def by (rule resetRepair_fold_only_nodes)

lemma allowed_Failed:
  "repairLifecycleTransitionAllowed q RepairFailed \<longleftrightarrow>
     q \<in> {RepairPlanned, RepairDispatched, RepairPatched, RepairVerifying, RepairFailed}"
  by (cases q) (auto simp: repairLifecycleTransitionAllowed_def)

text \<open>A failed round either opens the next one or, in the last round, exhausts the plan.\<close>

lemma failRepairRound_again:
  assumes "repair_wf r" and "rpl_State r \<in> {RepairPlanned, RepairDispatched, RepairPatched, RepairVerifying, RepairFailed}"
    and less: "rpl_Round r < rpl_MaxRounds r"
  shows "\<exists>r' p'. failRepairRound p r msg = (putRepair r' p', Inr RepairFailed) \<and> only_nodes p p' \<and>
      repair_wf r' \<and> rpl_State r' = RepairPlanned \<and> rpl_Round r' = rpl_Round r + 1 \<and> repair_progress r r'"
proof -
  have un: "rpl_State r \<noteq> RepairUnset" using assms(2) by auto
  obtain f where f: "setRepairState r RepairFailed = Some f"
    using setRepairState_defined [OF un, of RepairFailed] assms(2) allowed_Failed by auto
  note fw = setRepairState_wf [OF assms(1) f]
  define a where "a = f\<lparr>rpl_Round := wrap64 (rpl_Round f + 1), rpl_TargetAttemptID := '''',
     rpl_VerificationAttempts := [], rpl_VerifiedNodes := []\<rparr>"
  have rnd: "wrap64 (rpl_Round f + 1) = rpl_Round r + 1"
    using fw less assms(1) by (intro trans [OF wrap64_id]) (auto simp: repair_wf_def in64_def minInt64_def)
  have aw: "repair_wf a"
    using fw less rnd assms(1) unfolding a_def
    by (auto simp: repair_wf_def repair_machine.recorded_def repair_progress_def)
  have ap: "repair_progress r a" using fw rnd assms(2) by (auto simp: a_def repair_progress_def)
  obtain r' where r': "setRepairState a RepairPlanned = Some r'"
    using setRepairState_defined [of a RepairPlanned] fw by (auto simp: a_def repairLifecycleTransitionAllowed_def)
  note rw = setRepairState_wf [OF aw r']
  have "failRepairRound p r msg = (putRepair r' (resetRepairRound p a), Inr RepairFailed)"
    using less fw f r' by (simp add: failRepairRound_def Let_def a_def repair_progress_def)
  moreover have "rpl_Round r' = rpl_Round r + 1" using rw fw rnd by (simp add: a_def)
  moreover have "repair_progress r r'" using ap rw repair_progress_trans by blast
  ultimately show ?thesis using rw resetRepairRound_only_nodes [of p a] by blast
qed

lemma failRepairRound_last:
  assumes "repair_wf r" and "rpl_State r \<in> {RepairPlanned, RepairDispatched, RepairPatched, RepairVerifying, RepairFailed}"
    and eq: "rpl_Round r = rpl_MaxRounds r"
  shows "\<exists>r'. failRepairRound p r msg = (putRepair r' p, Inr RepairExhausted) \<and>
      repair_wf r' \<and> rpl_State r' = RepairExhausted \<and> rpl_Round r' = rpl_Round r \<and> repair_progress r r'"
proof -
  have un: "rpl_State r \<noteq> RepairUnset" using assms(2) by auto
  obtain f where f: "setRepairState r RepairFailed = Some f"
    using setRepairState_defined [OF un, of RepairFailed] assms(2) allowed_Failed by auto
  note fw = setRepairState_wf [OF assms(1) f]
  obtain r' where r': "setRepairState f RepairExhausted = Some r'"
    using setRepairState_defined [of f RepairExhausted] fw by (auto simp: repairLifecycleTransitionAllowed_def)
  have "failRepairRound p r msg = (putRepair r' p, Inr RepairExhausted)"
    using eq fw f r' by (simp add: failRepairRound_def repair_progress_def)
  moreover have "repair_progress r r'" using fw setRepairState_wf [of f, OF _ r'] repair_progress_trans by blast
  ultimately show ?thesis using setRepairState_wf [of f, OF _ r'] fw by (intro exI [of _ r']) simp
qed

lemma failRepairRound_stuck:
  assumes "repair_wf r" and "rpl_State r \<in> {RepairVerified, RepairExhausted}"
  shows "\<exists>e. failRepairRound p r msg = (p, Inl e)"
proof -
  have "\<not> repairLifecycleTransitionAllowed (rpl_State r) RepairFailed"
    using assms(2) unfolding allowed_Failed by fastforce
  moreover have "validRepairLifecycle (rpl_State r)" using assms(1) by (simp add: repair_wf_def)
  ultimately have "setRepairState r RepairFailed = None" using setRepairState_None_iff [of r RepairFailed] by simp
  then show ?thesis by (simp add: failRepairRound_def)
qed

text \<open>
  The state after a repair step: only node projections that are not running and repair plans change,
  and every repair plan makes progress.
\<close>

definition repair_step_ok :: "PlanProjection \<Rightarrow> PlanProjection \<Rightarrow> bool" where
  "repair_step_ok p p' \<longleftrightarrow>
     (\<exists>m rs. p' = p\<lparr>p_Nodes := m, p_RepairPlans := rs\<rparr> \<and> reopens (p_Nodes p) m) \<and> repairs_wf p' \<and>
     (\<forall>k r. mget (p_RepairPlans p) k = Some r \<longrightarrow>
        (\<exists>r'. mget (p_RepairPlans p') k = Some r' \<and> repair_progress r r'))"

lemma repair_step_refl: "repairs_wf p \<Longrightarrow> repair_step_ok p p"
  unfolding repair_step_ok_def
  by (intro conjI exI [of _ "p_Nodes p"] exI [of _ "p_RepairPlans p"]) auto

lemma repair_step_put:
  assumes "repairs_wf p" and "only_nodes p q" and "mget (p_RepairPlans p) k = Some r"
    and "repair_wf r'" and "repair_progress r r'"
  shows "repair_step_ok p (q\<lparr>p_RepairPlans := mput k r' (p_RepairPlans q)\<rparr>)"
proof -
  from assms(2) obtain m where m: "q = p\<lparr>p_Nodes := m\<rparr>" "reopens (p_Nodes p) m" by (auto simp: only_nodes_def)
  have "rpl_ID r' = k" using repairs_wf_get [OF assms(1,3)] assms(5) by (simp add: repair_progress_def)
  then have "repairs_wf (q\<lparr>p_RepairPlans := mput k r' (p_RepairPlans q)\<rparr>)"
    using assms(1,4) m by (intro repairs_wf_put) auto
  then show ?thesis
    using assms(3,5) m unfolding repair_step_ok_def by (auto intro!: exI [of _ m])
qed

lemma failRepairRound_step:
  assumes "repairs_wf p" and "mget (p_RepairPlans p) k = Some r" and "failRepairRound p r msg = (p', res)"
  shows "repair_step_ok p p'"
proof -
  note r = repairs_wf_get [OF assms(1,2)]
  consider (live) "rpl_State r \<in> {RepairPlanned, RepairDispatched, RepairPatched, RepairVerifying, RepairFailed}"
    | (stuck) "rpl_State r \<in> {RepairVerified, RepairExhausted}"
    using r by (cases "rpl_State r") (auto simp: repair_wf_def)
  then show ?thesis
  proof cases
    case live
    show ?thesis
    proof (cases "rpl_Round r < rpl_MaxRounds r")
      case True
      with failRepairRound_again [of r p msg] live r assms(3) obtain r' q
        where q: "p' = putRepair r' q" "only_nodes p q" "repair_wf r'" "repair_progress r r'" by auto
      then have "rpl_ID r' = k" using r by (simp add: repair_progress_def)
      then show ?thesis using repair_step_put [OF assms(1) q(2) assms(2) q(3,4)] q(1) by simp
    next
      case False
      then have "rpl_Round r = rpl_MaxRounds r" using r by (simp add: repair_wf_def)
      with failRepairRound_last [of r p msg] live r assms(3) obtain r'
        where q: "p' = putRepair r' p" "repair_wf r'" "repair_progress r r'" by auto
      then have "rpl_ID r' = k" using r by (simp add: repair_progress_def)
      then show ?thesis using repair_step_put [OF assms(1) only_nodes_refl assms(2) q(2,3)] q(1) by simp
    qed
  next
    case stuck
    then show ?thesis using failRepairRound_stuck [of r p msg] r assms(1,3) by (auto intro: repair_step_refl)
  qed
qed

lemma passVerification_step:
  assumes "repairs_wf p" and "mget (p_RepairPlans p) (a_RepairPlanID a) = Some r"
    and "passVerification p r a = (p', res)"
  shows "repair_step_ok p p'"
proof -
  note r = repairs_wf_get [OF assms(1,2)]
  define m where "m = r\<lparr>rpl_VerifiedNodes := mput (a_NodeID a) True (rpl_VerifiedNodes r),
    rpl_VerificationArtifactIDs := appendUnique (rpl_VerificationArtifactIDs r) (a_OutputArtifacts a)\<rparr>"
  have m: "repair_wf m" "repair_progress r m" using r by (simp_all add: m_def)
  show ?thesis
  proof (cases "setRepairState m (if length (mput (a_NodeID a) True (rpl_VerifiedNodes r)) =
      length (rpl_VerificationNodeIDs r) then RepairVerified else RepairVerifying)")
    case None
    then have "p' = p\<lparr>p_RepairPlans := mput (a_RepairPlanID a)
        (r\<lparr>rpl_VerifiedNodes := mput (a_NodeID a) True (rpl_VerifiedNodes r)\<rparr>) (p_RepairPlans p)\<rparr>"
      using assms(3) by (simp add: passVerification_def Let_def m_def)
    then show ?thesis using repair_step_put [OF assms(1) only_nodes_refl assms(2)] r by simp
  next
    case (Some r')
    note rw = setRepairState_wf [OF m(1) Some]
    then have "repair_progress r r'" using m(2) repair_progress_trans by blast
    moreover have "p' = putRepair r' p"
      using assms(3) Some by (simp add: passVerification_def Let_def m_def)
    moreover have "rpl_ID r' = a_RepairPlanID a" using r calculation(1) by (simp add: repair_progress_def)
    ultimately show ?thesis using repair_step_put [OF assms(1) only_nodes_refl assms(2)] rw by simp
  qed
qed

lemma advance_step:
  assumes "repairs_wf p" and "advanceRepairAttemptState p a = (p', res)"
  shows "repair_step_ok p p'"
proof (cases "a_RepairPlanID a = '''' \<or> mget (p_RepairPlans p) (a_RepairPlanID a) = None")
  case True
  then show ?thesis
    using assms by (auto simp: advanceRepairAttemptState_def intro: repair_step_refl split: if_splits)
next
  case False
  then obtain r where g: "a_RepairPlanID a \<noteq> ''''" "mget (p_RepairPlans p) (a_RepairPlanID a) = Some r" by auto
  note r = repairs_wf_get [OF assms(1) g(2)]
  have patched: "repair_step_ok p (putRepair (r'\<lparr>rpl_PatchArtifactIDs := ids\<rparr>) p)"
    if "setRepairState r RepairPatched = Some r'" for r' ids
  proof -
    have w: "repair_wf r'" "repair_progress r r'" using setRepairState_wf [OF _ that] r by auto
    then have "rpl_ID r' = a_RepairPlanID a" using r by (simp add: repair_progress_def)
    then show ?thesis using repair_step_put [OF assms(1) only_nodes_refl g(2)] w by simp
  qed
  have same: "repair_step_ok p (putRepair r p)"
    using repair_step_put [OF assms(1) only_nodes_refl g(2)] r by simp
  show ?thesis
    using assms(2) g same patched repair_step_refl [OF assms(1)] failRepairRound_step [OF assms(1) g(2)]
      passVerification_step [OF assms(1) g(2)]
    unfolding advanceRepairAttemptState_def by (auto split: if_splits option.splits)
qed

section \<open>Properties\<close>

text \<open>
  Repair plans only move forward. Whatever finished attempt is reported to it, \<open>advanceRepairAttemptState\<close> changes
  nothing but repair plans and nodes that are not running; every repair plan stays well formed (a recorded
  history of allowed lifecycle moves that ends in its state, a round between one and its bound), keeps its
  identity, extends its history, never lowers its round and never leaves the states verified and exhausted.
\<close>

theorem advanceRepairAttemptState_progress:
  assumes "repairs_wf p" and "advanceRepairAttemptState p a = (p', res)"
  shows "repairs_wf p' \<and> p_Attempts p' = p_Attempts p \<and> p_Status p' = p_Status p \<and> p_Traversals p' = p_Traversals p \<and>
    (\<forall>k n. mget (p_Nodes p) k = Some n \<longrightarrow> np_Status n = AttemptRunning \<longrightarrow> mget (p_Nodes p') k = Some n) \<and>
    (\<forall>k r. mget (p_RepairPlans p) k = Some r \<longrightarrow>
       (\<exists>r'. mget (p_RepairPlans p') k = Some r' \<and> repair_wf r' \<and> repair_progress r r'))"
proof -
  note s = advance_step [OF assms]
  then obtain m rs where p': "p' = p\<lparr>p_Nodes := m, p_RepairPlans := rs\<rparr>" and m: "reopens (p_Nodes p) m"
    by (auto simp: repair_step_ok_def)
  have "mget (p_Nodes p') k = Some n" if "mget (p_Nodes p) k = Some n" "np_Status n = AttemptRunning" for k n
    using m that unfolding p' reopens_def by (auto simp: node_reopen_def option_rel_Some1 dest: spec [of _ k])
  moreover have w: "repairs_wf p'" and "\<forall>k r. mget (p_RepairPlans p) k = Some r \<longrightarrow>
      (\<exists>r'. mget (p_RepairPlans p') k = Some r' \<and> repair_progress r r')"
    using s unfolding repair_step_ok_def by blast+
  moreover have "p_Attempts p' = p_Attempts p \<and> p_Status p' = p_Status p \<and> p_Traversals p' = p_Traversals p"
    by (simp add: p')
  ultimately show ?thesis using repairs_wf_get [OF w] by blast
qed

theorem advanceRepairAttemptState_progress_witness:
  "repairs_wf (fst (advanceRepairAttemptState exRepairing (exAttempt ''a4'' ''impl'' AttemptFailed)))"
proof -
  have "repairs_wf exRepairing"
    unfolding repairs_wf_def mall_def repair_wf_def repair_machine.recorded_def by code_simp
  from advanceRepairAttemptState_progress [OF this surjective_pairing] show ?thesis by simp
qed

text \<open>
  Repair rounds are bounded. A failed round of a live repair plan opens the next round, planned again with
  its target and verification links cleared, until the last round, whose failure exhausts the plan.
\<close>

theorem failRepairRound_bounded:
  assumes "repair_wf r" and "rpl_State r \<notin> {RepairVerified, RepairExhausted}"
  shows "\<exists>p' r'. mget (p_RepairPlans p') (rpl_ID r) = Some r' \<and> repair_wf r' \<and> repair_progress r r' \<and>
    (if rpl_Round r < rpl_MaxRounds r
     then failRepairRound p r msg = (p', Inr RepairFailed) \<and> rpl_State r' = RepairPlanned \<and> rpl_Round r' = rpl_Round r + 1
     else failRepairRound p r msg = (p', Inr RepairExhausted) \<and> rpl_State r' = RepairExhausted \<and> rpl_Round r' = rpl_MaxRounds r)"
proof -
  have live: "rpl_State r \<in> {RepairPlanned, RepairDispatched, RepairPatched, RepairVerifying, RepairFailed}"
    using assms by (cases "rpl_State r") (auto simp: repair_wf_def)
  show ?thesis
  proof (cases "rpl_Round r < rpl_MaxRounds r")
    case True
    from failRepairRound_again [OF assms(1) live this, of p msg] obtain r' q
      where r': "failRepairRound p r msg = (putRepair r' q, Inr RepairFailed)" "repair_wf r'" "rpl_State r' = RepairPlanned"
        "rpl_Round r' = rpl_Round r + 1" "repair_progress r r'" by blast
    then have "mget (p_RepairPlans (putRepair r' q)) (rpl_ID r) = Some r'" by (simp add: repair_progress_def)
    then show ?thesis using r' True by auto
  next
    case False
    then have eq: "rpl_Round r = rpl_MaxRounds r" using assms(1) by (simp add: repair_wf_def)
    from failRepairRound_last [OF assms(1) live this, of p msg] obtain r'
      where r': "failRepairRound p r msg = (putRepair r' p, Inr RepairExhausted)" "repair_wf r'"
        "rpl_State r' = RepairExhausted" "rpl_Round r' = rpl_Round r" "repair_progress r r'" by blast
    then have "mget (p_RepairPlans (putRepair r' p)) (rpl_ID r) = Some r'" by (simp add: repair_progress_def)
    then show ?thesis using r' False eq by auto
  qed
qed

theorem failRepairRound_bounded_witness:
  "\<exists>r'. mget (p_RepairPlans (fst (failRepairRound exRepairing (exRepair\<lparr>rpl_Round := 2\<rparr>) ''m''))) ''rp'' = Some r' \<and>
     rpl_State r' = RepairExhausted"
proof -
  have "repair_wf (exRepair\<lparr>rpl_Round := 2\<rparr>)" unfolding repair_wf_def repair_machine.recorded_def by code_simp
  from failRepairRound_bounded [OF this, of exRepairing "''m''"] show ?thesis by (auto simp: exRepair_def)
qed

end
