(* ===== verification/Orch_Projection.thy ===== *)
theory Orch_Projection
  imports Orch_Repair Orch_Example
begin

text \<open>
  The plan projection (\<open>transition.go\<close>): the invariants \<open>Validate\<close> checks before a projection is
  persisted or replayed, and \<open>NewProjection\<close>, which opens the entry nodes of a frozen plan. The
  specification of \<open>Validate\<close> is \<open>projection_ok\<close>, the conjunction of what it says of each attempt,
  repair plan and node; \<open>Validate\<close> accepts exactly the projections that satisfy it.
\<close>

section \<open>Operations\<close>

text \<open>The body of the loop over the attempts.\<close>

definition validateAttempt :: "PlanProjection \<Rightarrow> string \<Rightarrow> NodeAttempt \<Rightarrow> go_error option" where
  "validateAttempt p i a =
     first_err
       [guard (a_ID a \<noteq> i \<or> a_PlanID a \<noteq> p_PlanID p \<or> a_NodeID a = '''' \<or> a_AttemptNo a < 1 \<or>
            cm_SessionID (ce_Manifest (a_InputManifest a)) = '''' \<or> cm_Digest (ce_Manifest (a_InputManifest a)) = '''')
          (Errorf ''invalid attempt %s'' [ArgS i]),
        (case a_Status a of
           AttemptPending \<Rightarrow> Some (Errorf ''attempt %s has non-running persisted status %q'' [ArgS i])
         | AttemptReady \<Rightarrow> Some (Errorf ''attempt %s has non-running persisted status %q'' [ArgS i])
         | AttemptRunning \<Rightarrow> guard (IsZero (l_ExpiresAt (a_Lease a)) \<or> a_StartedAt a = None)
             (Errorf ''running attempt %s has no lease or start time'' [ArgS i])
         | AttemptWaiting \<Rightarrow> guard (a_FinishedAt a \<noteq> None)
             (Errorf ''waiting attempt %s cannot have finish time'' [ArgS i])
         | AttemptPassed \<Rightarrow> guard (a_FinishedAt a = None) (Errorf ''terminal attempt %s has no finish time'' [ArgS i])
         | AttemptFailed \<Rightarrow> guard (a_FinishedAt a = None) (Errorf ''terminal attempt %s has no finish time'' [ArgS i])
         | AttemptCancelled \<Rightarrow> guard (a_FinishedAt a = None) (Errorf ''terminal attempt %s has no finish time'' [ArgS i])
         | AttemptTimedOut \<Rightarrow> guard (a_FinishedAt a = None) (Errorf ''terminal attempt %s has no finish time'' [ArgS i])
         | _ \<Rightarrow> Some (Errorf ''attempt %s has invalid status %q'' [ArgS i])),
        guard (a_RepairState a \<noteq> RepairUnset \<and> \<not> validRepairLifecycle (a_RepairState a))
          (Errorf ''attempt %s has invalid repair state %q'' [ArgS i])]"

text \<open>The errors of the checks on a repair plan; of the format's arguments only the plan ID is kept.\<close>

definition repairErr :: "string \<Rightarrow> string \<Rightarrow> go_error" where
  "repairErr msg i = Errorf (''repair plan %s '' @ msg) [ArgS i]"

text \<open>The body of the loop over the repair plans, in the order of its checks.\<close>

definition validateRepairHead :: "PlanProjection \<Rightarrow> string \<Rightarrow> RepairPlan \<Rightarrow> go_error option" where
  "validateRepairHead p i r =
     first_err
       [guard (rpl_ID r \<noteq> i \<or> rpl_PlanID r \<noteq> p_PlanID p \<or> rpl_RepairNodeID r = '''' \<or>
            rpl_RepairAttemptID r = '''' \<or> rpl_TargetNodeID r = '''' \<or> rpl_VerificationNodeIDs r = [] \<or>
            rpl_MaxRounds r < 1 \<or> rpl_Round r < 1 \<or> \<not> validRepairLifecycle (rpl_State r))
          (Errorf ''invalid repair plan %s'' [ArgS i]),
        guard (rpl_MaxRounds r < rpl_Round r) (repairErr ''exceeds max rounds'' i),
        check_seen 0 (\<lambda>x. x)
          (\<lambda>j seen x. first_err [guard (blank x) (repairErr ''has an empty verification node'' i),
             guard (x \<in> set seen) (repairErr ''has duplicate verification node %s'' i)])
          [] (rpl_VerificationNodeIDs r),
        guard (rpl_RepairAttemptIDs r = [] \<or> \<not> contains (rpl_RepairAttemptIDs r) (rpl_RepairAttemptID r))
          (repairErr ''has incomplete attempt lineage'' i),
        guard (\<not> opt_any (\<lambda>a. \<not> (a_NodeID a \<noteq> rpl_RepairNodeID r \<or> a_Status a \<noteq> AttemptPassed))
             (mget (p_Attempts p) (rpl_RepairAttemptID r)))
          (repairErr ''has no passed planning attempt'' i),
        guard (rpl_StateHistory r = [] \<or> hd (rpl_StateHistory r) \<noteq> RepairPlanned \<or>
            last (rpl_StateHistory r) \<noteq> rpl_State r)
          (repairErr ''has incomplete state history'' i),
        check_indexed 0 (\<lambda>j (x, y). guard (\<not> repairLifecycleTransitionAllowed x y)
            (repairErr ''has invalid state transition %s -> %s'' i))
          (zip (rpl_StateHistory r) (tl (rpl_StateHistory r)))]"

definition validateRepairTarget :: "PlanProjection \<Rightarrow> string \<Rightarrow> RepairPlan \<Rightarrow> go_error option" where
  "validateRepairTarget p i r =
     (if rpl_State r \<in> set [RepairDispatched, RepairPatched, RepairVerifying, RepairVerified] then
        first_err
          [guard (rpl_TargetAttemptID r = '''') (repairErr ''is %s without a target attempt'' i),
           (case mget (p_Attempts p) (rpl_TargetAttemptID r) of
              None \<Rightarrow> Some (repairErr ''points to an invalid target attempt'' i)
            | Some target \<Rightarrow> first_err
                [guard (a_NodeID target \<noteq> rpl_TargetNodeID r) (repairErr ''points to an invalid target attempt'' i),
                 guard (rpl_State r = RepairDispatched \<and> a_Status target \<noteq> AttemptRunning)
                   (repairErr ''is dispatched without a running target attempt'' i),
                 guard (rpl_State r \<in> set [RepairPatched, RepairVerifying, RepairVerified] \<and>
                     a_Status target \<noteq> AttemptPassed)
                   (repairErr ''has state %s without a passed target attempt'' i)])]
      else None)"

definition validateVerificationAttempt ::
  "PlanProjection \<Rightarrow> string \<Rightarrow> RepairPlan \<Rightarrow> string \<Rightarrow> string \<Rightarrow> go_error option" where
  "validateVerificationAttempt p i r nodeID attemptID =
     first_err
       [guard (nodeID \<notin> set (rpl_VerificationNodeIDs r) \<or> blank attemptID)
          (repairErr ''has an undeclared verification attempt for %s'' i),
        (case mget (p_Attempts p) attemptID of
           None \<Rightarrow> Some (repairErr ''has an invalid verification attempt for %s'' i)
         | Some v \<Rightarrow> first_err
             [guard (a_NodeID v \<noteq> nodeID) (repairErr ''has an invalid verification attempt for %s'' i),
              guard (rpl_State r = RepairVerifying \<and> a_Status v \<noteq> AttemptRunning \<and> a_Status v \<noteq> AttemptPassed)
                (repairErr ''is verifying with non-running verification attempt for %s'' i)])]"

definition validateRepairVerification :: "PlanProjection \<Rightarrow> string \<Rightarrow> RepairPlan \<Rightarrow> go_error option" where
  "validateRepairVerification p i r =
     (if rpl_State r \<in> set [RepairVerifying, RepairVerified] then
        first_err
          [guard (rpl_VerificationAttempts r = []) (repairErr ''is %s without verification attempts'' i),
           check_indexed 0 (\<lambda>j (nodeID, attemptID). validateVerificationAttempt p i r nodeID attemptID)
             (rpl_VerificationAttempts r)]
      else None)"

definition validateRepairVerified :: "PlanProjection \<Rightarrow> string \<Rightarrow> RepairPlan \<Rightarrow> go_error option" where
  "validateRepairVerified p i r =
     (if rpl_State r = RepairVerified then
        first_err
          [guard (rpl_TargetAttemptID r = '''') (repairErr ''is verified without target patch attempt'' i),
           guard (length (rpl_VerificationAttempts r) < length (rpl_VerificationNodeIDs r))
             (repairErr ''is verified without all verification attempts'' i),
           check_indexed 0 (\<lambda>j nodeID. first_err
               [guard (\<not> mget0 False (rpl_VerifiedNodes r) nodeID)
                  (repairErr ''is verified without verification result for %s'' i),
                guard (\<not> opt_any (\<lambda>v. \<not> (a_NodeID v \<noteq> nodeID \<or> a_Status v \<noteq> AttemptPassed))
                    (mget (p_Attempts p) (mget0 '''' (rpl_VerificationAttempts r) nodeID)))
                  (repairErr ''is verified without a passed verification attempt for %s'' i)])
             (rpl_VerificationNodeIDs r)]
      else None)"

definition validateRepair :: "PlanProjection \<Rightarrow> string \<Rightarrow> RepairPlan \<Rightarrow> go_error option" where
  "validateRepair p i r =
     first_err [validateRepairHead p i r, validateRepairTarget p i r, validateRepairVerification p i r,
       validateRepairVerified p i r]"

definition nodeStatusValid :: "AttemptStatus \<Rightarrow> bool" where
  "nodeStatusValid s \<longleftrightarrow> s \<in> set [AttemptPending, AttemptReady, AttemptRunning, AttemptWaiting,
     AttemptPassed, AttemptFailed, AttemptCancelled, AttemptTimedOut]"

text \<open>The body of the loop over the nodes.\<close>

definition validateNodeProjection :: "PlanProjection \<Rightarrow> string \<Rightarrow> NodeProjection \<Rightarrow> go_error option" where
  "validateNodeProjection p i n =
     first_err
       [guard (np_NodeID n \<noteq> i) (Errorf ''invalid node projection %s'' [ArgS i]),
        guard (\<not> nodeStatusValid (np_Status n)) (Errorf ''node %s has invalid status %q'' [ArgS i]),
        (if np_CurrentAttempt n \<noteq> '''' then
           (case mget (p_Attempts p) (np_CurrentAttempt n) of
              None \<Rightarrow> Some (Errorf ''node %s points to unknown attempt'' [ArgS i])
            | Some a \<Rightarrow> first_err
                [guard (a_NodeID a \<noteq> i) (Errorf ''node %s points to unknown attempt'' [ArgS i]),
                 guard (np_Status n = AttemptRunning \<and> a_Status a \<noteq> AttemptRunning)
                   (Errorf ''node %s is running but current attempt is %s'' [ArgS i]),
                 guard (np_Status n = AttemptWaiting \<and> a_Status a \<noteq> AttemptWaiting)
                   (Errorf ''node %s is waiting but current attempt is %s'' [ArgS i])])
         else None)]"

text \<open>
  A nil map and an empty map are one value here, so the check that \<open>Nodes\<close> and \<open>Attempts\<close> are not nil has no counterpart:
  every projection below is made by \<open>NewProjection\<close>, which allocates both maps, or decoded from one that was.
\<close>

definition ValidateProjection :: "PlanProjection \<Rightarrow> go_error option" where
  "ValidateProjection p =
     first_err
       [guard (p_PlanID p = '''' \<or> p_Revision p < 1) (Errorf ''projection plan_id and revision are required'' []),
        guard (p_Status p \<noteq> PlanReady \<and> p_Status p \<noteq> PlanRunning \<and> p_Status p \<noteq> PlanWaiting \<and>
            p_Status p \<noteq> PlanTerminal)
          (Errorf ''invalid projection plan status %q'' []),
        guard (p_TokenUsage p < 0 \<or> p_ToolCalls p < 0 \<or> p_CostCents p < 0)
          (Errorf ''projection usage counters cannot be negative'' []),
        check_indexed 0 (\<lambda>j (i, a). validateAttempt p i a) (p_Attempts p),
        check_indexed 0 (\<lambda>j (i, r). validateRepair p i r) (p_RepairPlans p),
        guard (p_Status p = PlanTerminal \<and> p_TerminalOutcome p = ''succeeded'' \<and> \<not> allRepairsVerified p)
          (Errorf ''terminal success requires every repair plan to be verified'' []),
        check_indexed 0 (\<lambda>j (i, n). validateNodeProjection p i n) (p_Nodes p)]"

definition emptyProjection :: "RequirementExecutionPlan \<Rightarrow> PlanProjection" where
  "emptyProjection plan = \<lparr>p_PlanID = pl_ID plan, p_Revision = pl_Revision plan, p_Status = pl_Status plan,
     p_TerminalOutcome = '''', p_Nodes = [], p_Attempts = [], p_Traversals = [], p_Decisions = [],
     p_RepairPlans = [], p_Idempotency = [], p_TokenUsage = 0, p_ToolCalls = 0, p_CostCents = 0\<rparr>"

definition initialNode :: "WorkflowGraph \<Rightarrow> WorkflowNode \<Rightarrow> NodeProjection" where
  "initialNode g n = zeroNodeProjection\<lparr>np_NodeID := n_ID n,
     np_Status := (if n_ID n \<in> set (g_EntryNodeIDs g) then AttemptReady else AttemptPending)\<rparr>"

definition NewProjection :: "RequirementExecutionPlan \<Rightarrow> go_error + PlanProjection" where
  "NewProjection plan =
     (let g = pl_GraphSnapshot plan in
      case first_err
        [guard (pl_ID plan = '''') (Errorf ''plan id is required'' []),
         guard (\<not> pl_Status plan \<in> set [PlanReady, PlanRunning, PlanWaiting, PlanTerminal] \<or>
             pl_PlanHash plan = '''' \<or> pl_Revision plan < 1)
           (Errorf ''projection requires a frozen execution plan'' []),
         ValidateGraph g]
      of Some e \<Rightarrow> Inl e
       | None \<Rightarrow> Inr ((emptyProjection plan)\<lparr>p_Nodes :=
           fold (\<lambda>n m. mput (n_ID n) (initialNode g n) m) (g_Nodes g) []\<rparr>))"

section \<open>Specification\<close>

definition attempt_ok :: "string \<Rightarrow> string \<Rightarrow> NodeAttempt \<Rightarrow> bool" where
  "attempt_ok planID i a \<longleftrightarrow>
     a_ID a = i \<and> a_PlanID a = planID \<and> a_NodeID a \<noteq> '''' \<and> 1 \<le> a_AttemptNo a \<and>
     cm_SessionID (ce_Manifest (a_InputManifest a)) \<noteq> '''' \<and> cm_Digest (ce_Manifest (a_InputManifest a)) \<noteq> '''' \<and>
     (a_Status a = AttemptRunning \<and> l_ExpiresAt (a_Lease a) \<noteq> 0 \<and> a_StartedAt a \<noteq> None \<or>
      a_Status a = AttemptWaiting \<and> a_FinishedAt a = None \<or>
      a_Status a \<in> {AttemptPassed, AttemptFailed, AttemptCancelled, AttemptTimedOut} \<and> a_FinishedAt a \<noteq> None) \<and>
     (a_RepairState a = RepairUnset \<or> validRepairLifecycle (a_RepairState a))"

definition repair_ok_head :: "(string, NodeAttempt) gomap \<Rightarrow> string \<Rightarrow> string \<Rightarrow> RepairPlan \<Rightarrow> bool" where
  "repair_ok_head as planID i r \<longleftrightarrow>
     rpl_ID r = i \<and> rpl_PlanID r = planID \<and> rpl_RepairNodeID r \<noteq> '''' \<and> rpl_RepairAttemptID r \<noteq> '''' \<and>
     rpl_TargetNodeID r \<noteq> '''' \<and> rpl_VerificationNodeIDs r \<noteq> [] \<and> validRepairLifecycle (rpl_State r) \<and>
     1 \<le> rpl_Round r \<and> rpl_Round r \<le> rpl_MaxRounds r \<and>
     distinct (rpl_VerificationNodeIDs r) \<and> (\<forall>v\<in>set (rpl_VerificationNodeIDs r). \<not> blank v) \<and>
     rpl_RepairAttemptID r \<in> set (rpl_RepairAttemptIDs r) \<and>
     (\<exists>a. mget as (rpl_RepairAttemptID r) = Some a \<and> a_NodeID a = rpl_RepairNodeID r \<and> a_Status a = AttemptPassed) \<and>
     repair_machine.recorded r"

definition repair_ok_target :: "(string, NodeAttempt) gomap \<Rightarrow> RepairPlan \<Rightarrow> bool" where
  "repair_ok_target as r \<longleftrightarrow>
     (rpl_State r \<in> {RepairDispatched, RepairPatched, RepairVerifying, RepairVerified} \<longrightarrow>
       rpl_TargetAttemptID r \<noteq> '''' \<and>
       (\<exists>a. mget as (rpl_TargetAttemptID r) = Some a \<and> a_NodeID a = rpl_TargetNodeID r \<and>
          a_Status a = (if rpl_State r = RepairDispatched then AttemptRunning else AttemptPassed)))"

definition repair_ok_verification :: "(string, NodeAttempt) gomap \<Rightarrow> RepairPlan \<Rightarrow> bool" where
  "repair_ok_verification as r \<longleftrightarrow>
     (rpl_State r \<in> {RepairVerifying, RepairVerified} \<longrightarrow> rpl_VerificationAttempts r \<noteq> [] \<and>
        mall (\<lambda>v aid. v \<in> set (rpl_VerificationNodeIDs r) \<and> \<not> blank aid \<and>
          (\<exists>a. mget as aid = Some a \<and> a_NodeID a = v \<and>
             (rpl_State r = RepairVerifying \<longrightarrow> a_Status a \<in> {AttemptRunning, AttemptPassed})))
          (rpl_VerificationAttempts r)) \<and>
     (rpl_State r = RepairVerified \<longrightarrow>
        length (rpl_VerificationNodeIDs r) \<le> length (rpl_VerificationAttempts r) \<and>
        (\<forall>v\<in>set (rpl_VerificationNodeIDs r). mget (rpl_VerifiedNodes r) v = Some True \<and>
          (\<exists>a. mget as (mget0 '''' (rpl_VerificationAttempts r) v) = Some a \<and> a_NodeID a = v \<and>
             a_Status a = AttemptPassed)))"

definition node_projection_ok :: "(string, NodeAttempt) gomap \<Rightarrow> string \<Rightarrow> NodeProjection \<Rightarrow> bool" where
  "node_projection_ok as i n \<longleftrightarrow> np_NodeID n = i \<and> nodeStatusValid (np_Status n) \<and>
     (np_CurrentAttempt n \<noteq> '''' \<longrightarrow>
       (\<exists>a. mget as (np_CurrentAttempt n) = Some a \<and> a_NodeID a = i \<and>
          (np_Status n \<in> {AttemptRunning, AttemptWaiting} \<longrightarrow> a_Status a = np_Status n)))"

definition projection_ok :: "PlanProjection \<Rightarrow> bool" where
  "projection_ok p \<longleftrightarrow>
     p_PlanID p \<noteq> '''' \<and> 1 \<le> p_Revision p \<and>
     p_Status p \<in> {PlanReady, PlanRunning, PlanWaiting, PlanTerminal} \<and>
     0 \<le> p_TokenUsage p \<and> 0 \<le> p_ToolCalls p \<and> 0 \<le> p_CostCents p \<and>
     mall (attempt_ok (p_PlanID p)) (p_Attempts p) \<and>
     mall (repair_ok_head (p_Attempts p) (p_PlanID p)) (p_RepairPlans p) \<and>
     mall (\<lambda>_. repair_ok_target (p_Attempts p)) (p_RepairPlans p) \<and>
     mall (\<lambda>_. repair_ok_verification (p_Attempts p)) (p_RepairPlans p) \<and>
     (p_Status p = PlanTerminal \<longrightarrow> p_TerminalOutcome p = ''succeeded'' \<longrightarrow> allRepairsVerified p) \<and>
     mall (node_projection_ok (p_Attempts p)) (p_Nodes p)"

section \<open>Validation decides the specification\<close>

lemma check_entries [check_simps]:
  "check_indexed i (\<lambda>j (k, v). f k v) m = None \<longleftrightarrow> mall (\<lambda>k v. f k v = None) m"
  unfolding mall_def by (rule check_indexed_None_set) auto

lemma mall_conj: "mall (\<lambda>k v. P k v \<and> Q k v) m \<longleftrightarrow> mall P m \<and> mall Q m"
  by (auto simp: mall_def)

lemma mall_cong: "(\<And>k v. P k v \<longleftrightarrow> Q k v) \<Longrightarrow> mall P m \<longleftrightarrow> mall Q m"
  by (simp add: mall_def)

lemma validateAttempt_None: "validateAttempt p i a = None \<longleftrightarrow> attempt_ok (p_PlanID p) i a"
  unfolding validateAttempt_def attempt_ok_def
  by (cases "a_Status a") (auto simp: check_simps not_less)

lemma successively_zip: "successively P xs \<longleftrightarrow> (\<forall>(x, y)\<in>set (zip xs (tl xs)). P x y)"
proof (induction xs)
  case Nil
  then show ?case by simp
next
  case (Cons x xs)
  then show ?case by (cases xs) auto
qed

lemma validateRepairHead_None:
  "validateRepairHead p i r = None \<longleftrightarrow> repair_ok_head (p_Attempts p) (p_PlanID p) i r"
proof -
  have vs: "check_seen 0 (\<lambda>x. x) (\<lambda>j seen x. first_err [guard (blank x) e1, guard (x \<in> set seen) e2]) [] xs = None \<longleftrightarrow>
      distinct xs \<and> (\<forall>v\<in>set xs. \<not> blank v)" for e1 e2 and xs :: "string list"
    by (subst check_seen_None [where P = "\<lambda>x. \<not> blank x"]) (auto simp: check_simps)
  have hist: "check_indexed 0 (\<lambda>j (x, y). guard (\<not> repairLifecycleTransitionAllowed x y) e) (zip h (tl h)) = None \<longleftrightarrow>
      successively repairLifecycleTransitionAllowed h" for e h
    unfolding successively_zip check_entries by (simp add: mall_def check_simps)
  show ?thesis
    unfolding validateRepairHead_def repair_ok_head_def repair_machine.recorded_def contains_def
    by (simp only: first_err_None list.set ball_simps vs hist guard_None opt_any_iff not_less de_Morgan_disj not_not)
      (rule iffI; elim conjE; intro conjI; (assumption | force))
qed

lemma validateRepairTarget_None:
  "validateRepairTarget p i r = None \<longleftrightarrow> repair_ok_target (p_Attempts p) r"
  unfolding validateRepairTarget_def repair_ok_target_def
  by (cases "rpl_State r") (auto simp: check_simps split: option.splits)

lemma validateVerificationAttempt_None:
  "validateVerificationAttempt p i r v aid = None \<longleftrightarrow> v \<in> set (rpl_VerificationNodeIDs r) \<and> \<not> blank aid \<and>
     (\<exists>a. mget (p_Attempts p) aid = Some a \<and> a_NodeID a = v \<and>
        (rpl_State r = RepairVerifying \<longrightarrow> a_Status a \<in> {AttemptRunning, AttemptPassed}))"
  unfolding validateVerificationAttempt_def by (auto simp: check_simps split: option.splits)

lemma validateRepairVerified_None:
  "validateRepairVerified p i r = None \<longleftrightarrow> (rpl_State r = RepairVerified \<longrightarrow> rpl_TargetAttemptID r \<noteq> '''' \<and>
     length (rpl_VerificationNodeIDs r) \<le> length (rpl_VerificationAttempts r) \<and>
        (\<forall>v\<in>set (rpl_VerificationNodeIDs r). mget (rpl_VerifiedNodes r) v = Some True \<and>
          (\<exists>a. mget (p_Attempts p) (mget0 '''' (rpl_VerificationAttempts r) v) = Some a \<and> a_NodeID a = v \<and>
             a_Status a = AttemptPassed)))"
proof -
  have vf: "mget0 False m v \<longleftrightarrow> mget m v = Some True" for m :: "(string, bool) gomap" and v
    by (auto simp: mget0_def split: option.splits)
  have loop: "check_indexed j (\<lambda>j v. first_err [guard (\<not> b v) (e1 v), guard (\<not> opt_any (\<lambda>a. a_NodeID a = v \<and>
      a_Status a = AttemptPassed) (m v)) (e2 v)]) xs = None \<longleftrightarrow>
      (\<forall>v\<in>set xs. b v \<and> (\<exists>a. m v = Some a \<and> a_NodeID a = v \<and> a_Status a = AttemptPassed))"
    for b m e1 e2 j and xs :: "string list"
    by (rule check_indexed_None_set) (auto simp: check_simps)
  show ?thesis
    unfolding validateRepairVerified_def
    by (cases "rpl_State r = RepairVerified")
      (simp_all only: first_err_None guard_None loop vf not_less de_Morgan_disj not_not list.set ball_simps if_True if_False
        simp_thms)
qed

lemma validateRepair_None:
  "validateRepair p i r = None \<longleftrightarrow> repair_ok_head (p_Attempts p) (p_PlanID p) i r \<and>
     repair_ok_target (p_Attempts p) r \<and> repair_ok_verification (p_Attempts p) r"
proof -
  have ver: "validateRepairVerification p i r = None \<longleftrightarrow> (rpl_State r \<in> {RepairVerifying, RepairVerified} \<longrightarrow>
      rpl_VerificationAttempts r \<noteq> [] \<and> mall (\<lambda>v aid. v \<in> set (rpl_VerificationNodeIDs r) \<and> \<not> blank aid \<and>
          (\<exists>a. mget (p_Attempts p) aid = Some a \<and> a_NodeID a = v \<and>
             (rpl_State r = RepairVerifying \<longrightarrow> a_Status a \<in> {AttemptRunning, AttemptPassed})))
          (rpl_VerificationAttempts r))"
    unfolding validateRepairVerification_def
    by (simp add: first_err_None guard_None check_entries validateVerificationAttempt_None)
  have "repair_ok_target (p_Attempts p) r \<Longrightarrow> rpl_State r = RepairVerified \<Longrightarrow> rpl_TargetAttemptID r \<noteq> ''''"
    by (simp add: repair_ok_target_def)
  then show ?thesis
    unfolding validateRepair_def repair_ok_verification_def
    by (simp only: first_err_None list.set ball_simps validateRepairHead_None validateRepairTarget_None ver
        validateRepairVerified_None) blast
qed

lemma validateNodeProjection_None:
  "validateNodeProjection p i n = None \<longleftrightarrow> node_projection_ok (p_Attempts p) i n"
  unfolding validateNodeProjection_def node_projection_ok_def
  by (auto simp: check_simps split: option.splits)

lemma ValidateProjection_iff: "ValidateProjection p = None \<longleftrightarrow> projection_ok p"
  unfolding ValidateProjection_def projection_ok_def
  by (simp only: first_err_None list.set ball_simps guard_None check_entries validateAttempt_None
      validateRepair_None validateNodeProjection_None mall_conj not_less de_Morgan_disj)
    (rule iffI; elim conjE; intro conjI; (assumption | blast))

section \<open>The initial projection\<close>

lemma initialNodes_fold:
  "mget (fold (\<lambda>n m. mput (n_ID n) (initialNode g n) m) ns m) k =
     (if k \<in> n_ID ` set ns then Some (zeroNodeProjection\<lparr>np_NodeID := k,
        np_Status := (if k \<in> set (g_EntryNodeIDs g) then AttemptReady else AttemptPending)\<rparr>) else mget m k)"
  by (induction ns arbitrary: m) (auto simp: initialNode_def)

lemma initialNodes_mwf: "mwf m \<Longrightarrow> mwf (fold (\<lambda>n m. mput (n_ID n) (initialNode g n) m) ns m)"
  by (induction ns arbitrary: m) auto

lemma NewProjection_Inr:
  assumes "NewProjection plan = Inr p"
  shows "graph_ok (pl_GraphSnapshot plan) \<and> mwf (p_Nodes p) \<and>
    p = (emptyProjection plan)\<lparr>p_Nodes := p_Nodes p\<rparr> \<and>
    (\<forall>k. mget (p_Nodes p) k =
      (if k \<in> nodeIDs (pl_GraphSnapshot plan) then Some (zeroNodeProjection\<lparr>np_NodeID := k,
         np_Status := (if k \<in> set (g_EntryNodeIDs (pl_GraphSnapshot plan)) then AttemptReady else AttemptPending)\<rparr>)
       else None)) \<and> projection_ok p"
proof -
  let ?g = "pl_GraphSnapshot plan"
  let ?m = "fold (\<lambda>n m. mput (n_ID n) (initialNode ?g n) m) (g_Nodes ?g) []"
  from assms have p: "p = (emptyProjection plan)\<lparr>p_Nodes := ?m\<rparr>"
    and g: "graph_ok ?g" and h: "pl_ID plan \<noteq> ''''" "1 \<le> pl_Revision plan"
      "pl_Status plan \<in> {PlanReady, PlanRunning, PlanWaiting, PlanTerminal}"
    by (auto simp: NewProjection_def Let_def check_simps ValidateGraph_iff not_less split: option.splits)
  have wf: "mwf ?m" by (rule initialNodes_mwf) simp
  have get: "\<forall>k. mget ?m k =
      (if k \<in> nodeIDs ?g then Some (zeroNodeProjection\<lparr>np_NodeID := k,
         np_Status := (if k \<in> set (g_EntryNodeIDs ?g) then AttemptReady else AttemptPending)\<rparr>) else None)"
    by (simp add: initialNodes_fold nodeIDs_def)
  have "mall (node_projection_ok []) ?m"
    unfolding mall_iff [OF wf] using get
    by (auto simp: node_projection_ok_def nodeStatusValid_def zeroNodeProjection_def split: if_splits)
  then have "projection_ok p" unfolding p
    using h by (simp add: projection_ok_def emptyProjection_def allRepairsVerified_def)
  then show ?thesis using g wf get p by simp
qed

section \<open>Properties\<close>

text \<open>
  \<open>Validate\<close> decides \<open>projection_ok\<close>: a projection is accepted for persistence exactly when its plan identity,
  status and usage counters are sane, its attempts are filed under their own IDs with a lease and, when
  finished, with evidence, its nodes point to attempts of their own in a matching state, and its repair plans
  have a recorded lifecycle with target and verification attempts that fit their state.
\<close>

theorem ValidateProjection_decides: "(case ValidateProjection p of None \<Rightarrow> True | Some e \<Rightarrow> False) = projection_ok p"
  using ValidateProjection_iff [of p] by (cases "ValidateProjection p") auto

text \<open>
  The projection of a plan exists exactly when the plan has an ID, a hash, a revision, a frozen status and a
  valid graph.
\<close>

theorem NewProjection_correct:
  "(\<exists>p. NewProjection plan = Inr p) \<longleftrightarrow>
     pl_ID plan \<noteq> '''' \<and> pl_Status plan \<in> {PlanReady, PlanRunning, PlanWaiting, PlanTerminal} \<and>
     pl_PlanHash plan \<noteq> '''' \<and> 1 \<le> pl_Revision plan \<and> graph_ok (pl_GraphSnapshot plan)"
  unfolding NewProjection_def Let_def
  by (simp add: case_err_Inr first_err_None guard_None ValidateGraph_iff not_less)

text \<open>
  A new projection passes its own validation and holds exactly the nodes of the graph, the entry nodes
  ready and all others pending, without attempts, repair plans, traversals or usage.
\<close>

theorem NewProjection_valid:
  assumes "NewProjection plan = Inr p"
  shows "ValidateProjection p = None \<and> p_Attempts p = [] \<and> p_RepairPlans p = [] \<and> p_Traversals p = [] \<and>
    p_TokenUsage p = 0 \<and> p_ToolCalls p = 0 \<and> p_CostCents p = 0 \<and>
    (\<forall>k. map_option np_Status (mget (p_Nodes p) k) =
      (if k \<notin> nodeIDs (pl_GraphSnapshot plan) then None
       else if k \<in> set (g_EntryNodeIDs (pl_GraphSnapshot plan)) then Some AttemptReady else Some AttemptPending))"
proof -
  note n = NewProjection_Inr [OF assms]
  then obtain m where p: "p = (emptyProjection plan)\<lparr>p_Nodes := m\<rparr>" by blast
  have "p_Attempts p = []" "p_RepairPlans p = []" "p_Traversals p = []" "p_TokenUsage p = 0" "p_ToolCalls p = 0"
    "p_CostCents p = 0" unfolding p by (simp_all add: emptyProjection_def)
  then show ?thesis using n by (simp add: ValidateProjection_iff)
qed

theorem NewProjection_valid_witness:
  "ValidateProjection (projr (NewProjection exPlan)) = None \<and> p_Attempts (projr (NewProjection exPlan)) = []"
proof -
  have "\<not> isl (NewProjection exPlan)" by code_simp
  then have "NewProjection exPlan = Inr (projr (NewProjection exPlan))" by simp
  from NewProjection_valid [OF this] show ?thesis by simp
qed

end
