(* ===== verification/Orch_Route.thy ===== *)
theory Orch_Route
  imports Orch_Projection Orch_Example
begin

text \<open>
  Routing (\<open>transition.go\<close>): the usage a result reports, when an edge matches the outcome of an
  attempt, the retry rule with its backoff, and \<open>route\<close>, which opens the next node, fans out,
  retries, or ends the plan. \<open>route\<close> changes the projection before it may fail, so it returns the
  projection it leaves behind together with the error.
\<close>

section \<open>Operations\<close>

text \<open>
  \<open>usageInt64\<close>: a non-negative whole number of any of the numeric types, otherwise 0. The bound of
  the float cases is \<open>float64(^uint64(0) >> 1)\<close>, which is 2^63.
\<close>

fun floatUsage :: "gofloat \<Rightarrow> int" where
  "floatUsage (FFin r) =
     (if 0 \<le> r \<and> r \<le> 2 ^ 63 \<and> float_eq (FFin r) (float_of_int (int_of_float (FFin r)))
      then int_of_float (FFin r) else 0)"
| "floatUsage _ = 0"

fun rawUsage :: "any \<Rightarrow> int" where
  "rawUsage (VInt n) = n"
| "rawUsage (VInt8 n) = n"
| "rawUsage (VInt16 n) = n"
| "rawUsage (VInt32 n) = n"
| "rawUsage (VInt64 n) = n"
| "rawUsage (VUint n) = (if n \<le> maxInt64 then n else 0)"
| "rawUsage (VUint64 n) = (if n \<le> maxInt64 then n else 0)"
| "rawUsage (VFloat64 f) = floatUsage f"
| "rawUsage (VFloat32 f) = floatUsage f"
| "rawUsage _ = 0"

definition usageInt64 :: "fields \<Rightarrow> string \<Rightarrow> int" where
  "usageInt64 f key = (let v = rawUsage (fget f key) in if v < 0 then 0 else v)"

definition usageInt :: "fields \<Rightarrow> string \<Rightarrow> int" where
  "usageInt f key = (let v = usageInt64 f key in if maxInt64 < v then maxInt64 else v)"

definition resultUsage :: "StructuredResult \<Rightarrow> int \<times> int \<times> int" where
  "resultUsage r = (usageInt64 (sr_Fields r) ''tokens'', usageInt (sr_Fields r) ''tool_calls'',
     usageInt64 (sr_Fields r) ''cost_cents'')"

definition resultFields :: "StructuredResult \<Rightarrow> fields" where
  "resultFields r =
     mput ''summary'' (VString (sr_Summary r)) (mput ''outcome'' (VString (sr_Outcome r)) (sr_Fields r))"

definition approvalEvent :: "string \<Rightarrow> string \<Rightarrow> bool" where
  "approvalEvent event outcome \<longleftrightarrow> event = ''approval_granted'' \<or> event = ''approved'' \<or> outcome = ''approved''"

definition bugEvent :: "string \<Rightarrow> string \<Rightarrow> bool" where
  "bugEvent event outcome \<longleftrightarrow> event = ''bug'' \<or> outcome = ''bug''"

definition eventMatches :: "EdgeEvent \<Rightarrow> AttemptStatus \<Rightarrow> string \<Rightarrow> string \<Rightarrow> bool" where
  "eventMatches e s event outcome =
     (case e of
        EdgeSuccess \<Rightarrow> s = AttemptPassed \<and> \<not> approvalEvent event outcome
      | EdgeFailure \<Rightarrow> s = AttemptFailed \<and> \<not> bugEvent event outcome
      | EdgeBug \<Rightarrow> s = AttemptFailed \<and> bugEvent event outcome
      | EdgeTimeout \<Rightarrow> s = AttemptTimedOut
      | EdgeCancel \<Rightarrow> s = AttemptCancelled
      | EdgeApproval \<Rightarrow> approvalEvent event outcome
      | EdgeOther _ \<Rightarrow> False)"

definition retryAllowed :: "WorkflowNode \<Rightarrow> NodeAttempt \<Rightarrow> string \<Rightarrow> bool" where
  "retryAllowed node a event \<longleftrightarrow>
     (case a_FailureReason a of
        None \<Rightarrow> False
      | Some f \<Rightarrow> f_Retryable f \<and>
          (rp_RetryOn (n_RetryPolicy node) = [] \<or>
           list_ex (\<lambda>c. list_ex (\<lambda>v. TrimSpace c \<noteq> '''' \<and> EqualFold (TrimSpace c) v)
               [f_Code f, event, sr_Outcome (a_Result a)])
             (rp_RetryOn (n_RetryPolicy node))))"

text \<open>\<open>edgeSatisfied\<close> (\<open>scheduler.go\<close>).\<close>

definition statusEvent :: "AttemptStatus \<Rightarrow> string \<Rightarrow> string" where
  "statusEvent s outcome =
     (case s of
        AttemptPassed \<Rightarrow> ''success''
      | AttemptFailed \<Rightarrow> if EqualFold outcome ''bug'' then ''bug'' else ''failure''
      | AttemptTimedOut \<Rightarrow> ''timeout''
      | AttemptCancelled \<Rightarrow> ''cancel''
      | AttemptWaiting \<Rightarrow> ''waiting''
      | _ \<Rightarrow> '''')"

definition edgeSatisfied :: "WorkflowEdge \<Rightarrow> NodeAttempt \<Rightarrow> bool" where
  "edgeSatisfied e a \<longleftrightarrow>
     eventMatches (e_On e) (a_Status a) (statusEvent (a_Status a) (sr_Outcome (a_Result a))) (sr_Outcome (a_Result a)) \<and>
     EvaluatePredicate (e_Predicate e) (resultFields (a_Result a)) = Inr True \<and>
     list_all (contains (sr_EvidenceIDs (a_Result a))) (e_RequiredEvidence e)"

text \<open>The doubling of the backoff: \<open>k\<close> iterations at most, capped at a day.\<close>

definition day :: int where "day = 24 * hour"
definition halfDay :: int where "halfDay = 12 * hour"

fun backoff_loop :: "nat \<Rightarrow> int \<Rightarrow> int" where
  "backoff_loop 0 b = b"
| "backoff_loop (Suc k) b =
     (if \<not> (0 < b \<and> b < day) then b
      else if halfDay < b then day
      else backoff_loop k (b + b))"

definition retryBackoff :: "int \<Rightarrow> int \<Rightarrow> int" where
  "retryBackoff retryCount backoff = backoff_loop (nat (retryCount - 1)) backoff"

text \<open>The loop that collects the matching edges.\<close>

fun matchEdges :: "NodeAttempt \<Rightarrow> string \<Rightarrow> WorkflowEdge list \<Rightarrow> go_error + WorkflowEdge list" where
  "matchEdges a event [] = Inr []"
| "matchEdges a event (e # es) =
     (if e_From e \<noteq> a_NodeID a \<or> \<not> eventMatches (e_On e) (a_Status a) event (sr_Outcome (a_Result a))
      then matchEdges a event es
      else case EvaluatePredicate (e_Predicate e) (resultFields (a_Result a)) of
        Inl err \<Rightarrow> Inl err
      | Inr False \<Rightarrow> matchEdges a event es
      | Inr True \<Rightarrow>
          (case find (\<lambda>r. \<not> contains (sr_EvidenceIDs (a_Result a)) r) (e_RequiredEvidence e) of
             Some r \<Rightarrow> Inl (Errorf ''edge %s requires evidence %s'' [ArgS (e_ID e), ArgS r])
           | None \<Rightarrow>
               (case matchEdges a event es of Inl err \<Rightarrow> Inl err | Inr ms \<Rightarrow> Inr (e # ms))))"

definition zeroDecision :: FeedbackDecision where
  "zeroDecision = \<lparr>fd_ID = '''', fd_PlanID = '''', fd_SourceAttempt = '''', fd_SourceNode = '''', fd_TargetNode = '''',
     fd_EdgeID = '''', fd_StructuredResult = zeroResult, fd_EvidenceIDs = [], fd_Reason = '''', fd_LoopCount = 0,
     fd_IdempotencyKey = ''''\<rparr>"

definition edgeDecision ::
  "RequirementExecutionPlan \<Rightarrow> NodeAttempt \<Rightarrow> WorkflowEdge \<Rightarrow> string \<Rightarrow> int \<Rightarrow> string \<Rightarrow> FeedbackDecision" where
  "edgeDecision plan a e reason loops key = zeroDecision\<lparr>fd_PlanID := pl_ID plan, fd_SourceAttempt := a_ID a,
     fd_SourceNode := a_NodeID a, fd_TargetNode := e_To e, fd_EdgeID := e_ID e, fd_StructuredResult := a_Result a,
     fd_EvidenceIDs := sr_EvidenceIDs (a_Result a), fd_Reason := reason, fd_LoopCount := loops,
     fd_IdempotencyKey := key\<rparr>"

text \<open>\<open>p.Traversals[e.ID]++\<close> for a bounded edge, and the bound.\<close>

definition countTraversal :: "WorkflowEdge \<Rightarrow> PlanProjection \<Rightarrow> PlanProjection" where
  "countTraversal e p =
     (if 0 < e_MaxTraversals e
      then p\<lparr>p_Traversals := mput (e_ID e) (wrap64 (mget0 0 (p_Traversals p) (e_ID e) + 1)) (p_Traversals p)\<rparr>
      else p)"

definition traversalExceeded :: "WorkflowEdge \<Rightarrow> PlanProjection \<Rightarrow> bool" where
  "traversalExceeded e p \<longleftrightarrow> 0 < e_MaxTraversals e \<and> e_MaxTraversals e < mget0 0 (p_Traversals p) (e_ID e)"

definition openTarget :: "WorkflowEdge \<Rightarrow> bool \<Rightarrow> PlanProjection \<Rightarrow> PlanProjection" where
  "openTarget e clearRetry p =
     (let target = mget0 zeroNodeProjection (p_Nodes p) (e_To e) in
      if np_Status target = AttemptRunning then p
      else p\<lparr>p_Nodes := mput (e_To e)
        (target\<lparr>np_Status := AttemptReady,
           np_RetryAt := (if clearRetry then None else np_RetryAt target),
           np_ReadyEdgeIDs := appendUnique (np_ReadyEdgeIDs target) [e_ID e]\<rparr>) (p_Nodes p)\<rparr>)"

definition decide :: "string \<Rightarrow> (PlanProjection \<Rightarrow> FeedbackDecision) \<Rightarrow> PlanProjection \<Rightarrow> PlanProjection" where
  "decide key d p = (if key \<noteq> '''' then p\<lparr>p_Decisions := p_Decisions p @ [d p]\<rparr> else p)"

definition fanOutEdge ::
  "RequirementExecutionPlan \<Rightarrow> NodeAttempt \<Rightarrow> string \<Rightarrow> WorkflowEdge \<Rightarrow> PlanProjection \<Rightarrow> PlanProjection" where
  "fanOutEdge plan a key e p =
     decide key (\<lambda>q. edgeDecision plan a e ''fan-out predicate matched''
         (mget0 0 (p_Traversals q) (e_ID e)) (key @ '':'' @ e_ID e))
       (openTarget e True p)"

fun fanOut ::
  "RequirementExecutionPlan \<Rightarrow> NodeAttempt \<Rightarrow> string \<Rightarrow> WorkflowEdge list \<Rightarrow> PlanProjection \<Rightarrow>
     PlanProjection \<times> go_error option" where
  "fanOut plan a key [] p = (p, None)"
| "fanOut plan a key (e # es) p =
     (let p1 = countTraversal e p in
      if traversalExceeded e p1 then (p1, Some ErrLoopExhausted)
      else fanOut plan a key es (fanOutEdge plan a key e p1))"

text \<open>\<open>best := matched[0]\<close>, replaced by an edge of strictly higher priority.\<close>

fun bestEdge :: "WorkflowEdge \<Rightarrow> WorkflowEdge list \<Rightarrow> WorkflowEdge" where
  "bestEdge b [] = b"
| "bestEdge b (e # es) = bestEdge (if e_Priority b < e_Priority e then e else b) es"

definition followEdge ::
  "RequirementExecutionPlan \<Rightarrow> NodeAttempt \<Rightarrow> string \<Rightarrow> WorkflowEdge \<Rightarrow> PlanProjection \<Rightarrow>
     PlanProjection \<times> go_error option" where
  "followEdge plan a key e p =
     (let p1 = countTraversal e p in
      if traversalExceeded e p1 then (p1, Some ErrLoopExhausted)
      else (decide key (\<lambda>q. edgeDecision plan a e ''predicate matched'' (mget0 0 (p_Traversals q) (e_ID e)) key)
              (openTarget e False p1), None))"

definition terminate :: "string \<Rightarrow> PlanProjection \<Rightarrow> PlanProjection" where
  "terminate outcome p = p\<lparr>p_Status := PlanTerminal, p_TerminalOutcome := outcome\<rparr>"

definition statusOutcome :: "AttemptStatus \<Rightarrow> string" where
  "statusOutcome s =
     (case s of AttemptPassed \<Rightarrow> ''succeeded'' | AttemptCancelled \<Rightarrow> ''cancelled'' | AttemptTimedOut \<Rightarrow> ''timed_out''
      | _ \<Rightarrow> ''failed'')"

definition retryScheduled :: "WorkflowNode \<Rightarrow> NodeAttempt \<Rightarrow> string \<Rightarrow> bool" where
  "retryScheduled node a event \<longleftrightarrow>
     (a_Status a = AttemptFailed \<or> a_Status a = AttemptTimedOut) \<and> a_FailureReason a \<noteq> None \<and>
     retryAllowed node a event \<and> a_AttemptNo a < rp_MaxAttempts (n_RetryPolicy node) \<and>
     1 < rp_MaxAttempts (n_RetryPolicy node)"

definition scheduleRetry :: "WorkflowNode \<Rightarrow> NodeAttempt \<Rightarrow> int \<Rightarrow> PlanProjection \<Rightarrow> PlanProjection" where
  "scheduleRetry node a now p =
     (let n = mget0 zeroNodeProjection (p_Nodes p) (a_NodeID a);
          count = wrap64 (np_RetryCount n + 1)
      in p\<lparr>p_Nodes := mput (a_NodeID a) (n\<lparr>np_RetryCount := count,
             np_RetryAt := Some (now + retryBackoff count (rp_Backoff (n_RetryPolicy node))),
             np_Status := AttemptReady\<rparr>) (p_Nodes p),
           p_Status := PlanRunning\<rparr>)"

text \<open>The branch of \<open>route\<close> where no edge matches.\<close>

definition routeUnmatched ::
  "RequirementExecutionPlan \<Rightarrow> NodeAttempt \<Rightarrow> string \<Rightarrow> int \<Rightarrow> PlanProjection \<Rightarrow> PlanProjection \<times> go_error option" where
  "routeUnmatched plan a event now p =
     (let node = find_node (g_Nodes (pl_GraphSnapshot plan)) (a_NodeID a) in
      if retryScheduled node a event then (scheduleRetry node a now p, None)
      else if contains (g_ExitNodeIDs (pl_GraphSnapshot plan)) (a_NodeID a) then
        (if sr_EvidenceIDs (a_Result a) = [] then (p, Some ErrEvidenceRequired)
         else if \<not> allRepairsVerified p then
           (if a_Status a = AttemptPassed \<and> repairVerificationPending p then (p\<lparr>p_Status := PlanRunning\<rparr>, None)
            else (terminate ''failed'' p, None))
         else (terminate (statusOutcome (a_Status a)) p, None))
      else if attemptFailed a then (terminate (statusOutcome (a_Status a)) p, None)
      else (p, None))"

definition planDeadlineTimeout :: "NodeAttempt \<Rightarrow> bool" where
  "planDeadlineTimeout a \<longleftrightarrow> a_Status a = AttemptTimedOut \<and>
     opt_any (\<lambda>f. f_Code f = ''plan_deadline_exceeded'') (a_FailureReason a)"

definition route ::
  "int \<Rightarrow> RequirementExecutionPlan \<Rightarrow> NodeAttempt \<Rightarrow> TransitionInput \<Rightarrow> PlanProjection \<Rightarrow>
     PlanProjection \<times> go_error option" where
  "route clock plan a inp p =
     (let now = (if IsZero (in_Now inp) then clock else in_Now inp); key = in_IdempotencyKey inp in
      if planDeadlineTimeout a then (terminate ''timed_out'' p, None)
      else case matchEdges a (in_Event inp) (g_Edges (pl_GraphSnapshot plan)) of
        Inl err \<Rightarrow> (p, Some err)
      | Inr matched \<Rightarrow>
          (case matched of
             [] \<Rightarrow> routeUnmatched plan a (in_Event inp) now p
           | [e] \<Rightarrow> followEdge plan a key e p
           | e # es \<Rightarrow>
               if list_all e_FanOut matched then fanOut plan a key matched p
               else
                 (let best = bestEdge e es in
                  if 1 < length (filter (\<lambda>x. e_Priority x = e_Priority best) matched)
                  then (p, Some ErrAmbiguousTransition)
                  else followEdge plan a key best p)))"

section \<open>What routing changes\<close>

text \<open>
  Routing touches the plan status and outcome, the readiness of nodes that are not running, the
  traversal counters and, at its end, the list of decisions. Attempts, repair plans, idempotency
  keys and usage stay.
\<close>

definition route_frame :: "PlanProjection \<Rightarrow> PlanProjection \<Rightarrow> bool" where
  "route_frame p p' \<longleftrightarrow>
     (\<exists>st out m tr ds. p' = p\<lparr>p_Status := st, p_TerminalOutcome := out, p_Nodes := m, p_Traversals := tr,
        p_Decisions := p_Decisions p @ ds\<rparr> \<and> reopens (p_Nodes p) m \<and> (mwf (p_Traversals p) \<longrightarrow> mwf tr))"

lemma route_frameI:
  assumes "p' = p\<lparr>p_Status := st, p_TerminalOutcome := out, p_Nodes := m, p_Traversals := tr,
      p_Decisions := p_Decisions p @ ds\<rparr>"
    and "reopens (p_Nodes p) m" and "mwf (p_Traversals p) \<longrightarrow> mwf tr"
  shows "route_frame p p'"
  using assms unfolding route_frame_def by blast

lemma route_frame_refl [simp]: "route_frame p p"
  by (rule route_frameI [where st = "p_Status p" and out = "p_TerminalOutcome p" and m = "p_Nodes p" and ds = "[]"
        and tr = "p_Traversals p"]) auto

lemma route_frame_trans:
  assumes "route_frame a b" and "route_frame b c"
  shows "route_frame a c"
proof -
  from assms(1) obtain st out m tr ds where b: "b = a\<lparr>p_Status := st, p_TerminalOutcome := out, p_Nodes := m,
      p_Traversals := tr, p_Decisions := p_Decisions a @ ds\<rparr>" "reopens (p_Nodes a) m"
      "mwf (p_Traversals a) \<longrightarrow> mwf tr" unfolding route_frame_def by blast
  from assms(2) obtain st' out' m' tr' ds' where c: "c = b\<lparr>p_Status := st', p_TerminalOutcome := out', p_Nodes := m',
      p_Traversals := tr', p_Decisions := p_Decisions b @ ds'\<rparr>" "reopens (p_Nodes b) m'"
      "mwf (p_Traversals b) \<longrightarrow> mwf tr'" unfolding route_frame_def by blast
  have "reopens (p_Nodes a) m'" using b c reopens_trans by auto
  then show ?thesis
    using b c by (intro route_frameI [where st = st' and out = out' and m = m' and tr = tr' and ds = "ds @ ds'"]) auto
qed

lemma route_frame_fields:
  "route_frame p p' \<Longrightarrow> p_PlanID p' = p_PlanID p \<and> p_Revision p' = p_Revision p \<and> p_Attempts p' = p_Attempts p \<and>
     p_RepairPlans p' = p_RepairPlans p \<and> p_Idempotency p' = p_Idempotency p \<and> p_TokenUsage p' = p_TokenUsage p \<and>
     p_ToolCalls p' = p_ToolCalls p \<and> p_CostCents p' = p_CostCents p \<and> reopens (p_Nodes p) (p_Nodes p')"
  by (auto simp: route_frame_def)

lemma route_frame_Decisions: "route_frame p p' \<Longrightarrow> take (length (p_Decisions p)) (p_Decisions p') = p_Decisions p"
  by (auto simp: route_frame_def)

lemma countTraversal_frame [simp]: "route_frame p (countTraversal e p)"
proof (cases "0 < e_MaxTraversals e")
  case True
  then show ?thesis
    by (intro route_frameI [where st = "p_Status p" and out = "p_TerminalOutcome p" and m = "p_Nodes p" and ds = "[]"
          and tr = "mput (e_ID e) (wrap64 (mget0 0 (p_Traversals p) (e_ID e) + 1)) (p_Traversals p)"])
      (auto simp: countTraversal_def)
next
  case False
  then show ?thesis by (simp add: countTraversal_def)
qed

lemma nodes_frame: "reopens (p_Nodes p) m \<Longrightarrow> route_frame p (p\<lparr>p_Nodes := m\<rparr>)"
  by (rule route_frameI [where st = "p_Status p" and out = "p_TerminalOutcome p" and m = m and ds = "[]"
        and tr = "p_Traversals p"]) auto

lemma status_frame: "route_frame p (p\<lparr>p_Status := st\<rparr>)"
  by (rule route_frameI [where st = st and out = "p_TerminalOutcome p" and m = "p_Nodes p" and ds = "[]"
        and tr = "p_Traversals p"]) auto

lemma terminate_frame [simp]: "route_frame p (terminate out p)"
  by (rule route_frameI [where st = PlanTerminal and out = out and m = "p_Nodes p" and ds = "[]"
        and tr = "p_Traversals p"]) (auto simp: terminate_def)

lemma decide_frame [simp]: "route_frame p (decide key d p)"
proof (cases "key = ''''")
  case True
  then show ?thesis by (simp add: decide_def)
next
  case False
  then show ?thesis
    by (intro route_frameI [where st = "p_Status p" and out = "p_TerminalOutcome p" and m = "p_Nodes p" and ds = "[d p]"
          and tr = "p_Traversals p"]) (auto simp: decide_def)
qed

lemma openTarget_frame:
  assumes "mget (p_Nodes p) (e_To e) \<noteq> None"
  shows "route_frame p (openTarget e c p)"
proof -
  from assms obtain n where n: "mget (p_Nodes p) (e_To e) = Some n" by auto
  then show ?thesis
    by (auto simp: openTarget_def Let_def mget0_def node_reopen_def intro!: nodes_frame reopens_put)
qed

lemma scheduleRetry_frame:
  assumes "mget (p_Nodes p) (a_NodeID a) = Some n" and "np_Status n \<noteq> AttemptRunning"
  shows "route_frame p (scheduleRetry node a now p)"
proof -
  have "route_frame p (p\<lparr>p_Nodes := p_Nodes (scheduleRetry node a now p)\<rparr>)"
    using assms by (auto simp: scheduleRetry_def Let_def mget0_def node_reopen_def intro!: nodes_frame reopens_put)
  then have "route_frame p (p\<lparr>p_Nodes := p_Nodes (scheduleRetry node a now p), p_Status := PlanRunning\<rparr>)"
    using route_frame_trans status_frame by blast
  moreover have "p\<lparr>p_Nodes := p_Nodes (scheduleRetry node a now p), p_Status := PlanRunning\<rparr> = scheduleRetry node a now p"
    by (simp add: scheduleRetry_def Let_def)
  ultimately show ?thesis by simp
qed

lemma followEdge_frame:
  assumes "mget (p_Nodes p) (e_To e) \<noteq> None" and "followEdge plan a key e p = (p', r)"
  shows "route_frame p p'"
proof -
  have "mget (p_Nodes (countTraversal e p)) (e_To e) \<noteq> None" using assms(1) by (simp add: countTraversal_def)
  then have "route_frame p (decide key d (openTarget e c (countTraversal e p)))" for d c
    by (meson countTraversal_frame decide_frame openTarget_frame route_frame_trans)
  then show ?thesis using assms(2) by (auto simp: followEdge_def Let_def split: if_splits)
qed

lemma fanOut_frame:
  "(\<forall>e\<in>set es. mget (p_Nodes p) (e_To e) \<noteq> None) \<Longrightarrow> fanOut plan a key es p = (p', r) \<Longrightarrow> route_frame p p'"
proof (induction es arbitrary: p)
  case Nil
  then show ?case by simp
next
  case (Cons e es)
  let ?p1 = "countTraversal e p"
  let ?p2 = "fanOutEdge plan a key e ?p1"
  have "mget (p_Nodes ?p1) (e_To e) \<noteq> None" using Cons.prems(1) by (simp add: countTraversal_def)
  then have f: "route_frame p ?p2" unfolding fanOutEdge_def
    by (meson countTraversal_frame decide_frame openTarget_frame route_frame_trans)
  then have "\<forall>e\<in>set es. mget (p_Nodes ?p2) (e_To e) \<noteq> None"
    using Cons.prems(1) route_frame_fields reopens_None by (metis list.set_intros(2))
  then show ?case
    using Cons.IH [of ?p2] Cons.prems(2) f route_frame_trans
    by (auto simp: Let_def split: if_splits)
qed

lemma matchEdges_subset: "matchEdges a ev es = Inr ms \<Longrightarrow> set ms \<subseteq> set es"
  by (induction es arbitrary: ms) (auto split: if_splits sum.splits bool.splits option.splits)

lemma bestEdge_in: "bestEdge b es \<in> set (b # es)"
  by (induction b es rule: bestEdge.induct) (auto split: if_splits)

lemma routeUnmatched_frame:
  assumes "mget (p_Nodes p) (a_NodeID a) = Some n" and "np_Status n \<noteq> AttemptRunning"
    and "routeUnmatched plan a ev now p = (p', r)"
  shows "route_frame p p'"
  using assms scheduleRetry_frame [OF assms(1,2)] status_frame
  by (auto simp: routeUnmatched_def Let_def split: if_splits)

lemma route_frame_ok:
  assumes "\<forall>e\<in>set (g_Edges (pl_GraphSnapshot plan)). mget (p_Nodes p) (e_To e) \<noteq> None"
    and "mget (p_Nodes p) (a_NodeID a) = Some n" and "np_Status n \<noteq> AttemptRunning"
    and "route clock plan a inp p = (p', r)"
  shows "route_frame p p'"
proof (cases "planDeadlineTimeout a")
  case True
  then show ?thesis using assms(4) by (auto simp: route_def Let_def)
next
  case False
  show ?thesis
  proof (cases "matchEdges a (in_Event inp) (g_Edges (pl_GraphSnapshot plan))")
    case (Inl e)
    then show ?thesis using assms(4) False by (auto simp: route_def Let_def)
  next
    case (Inr ms)
    have ms: "\<forall>e\<in>set ms. mget (p_Nodes p) (e_To e) \<noteq> None" using matchEdges_subset [OF Inr] assms(1) by blast
    consider (none) "ms = []" | (one) e where "ms = [e]" | (many) e f es where "ms = e # f # es"
      by (metis list.exhaust)
    then show ?thesis
    proof cases
      case none
      then show ?thesis using routeUnmatched_frame [OF assms(2,3)] assms(4) False Inr by (simp add: route_def Let_def)
    next
      case one
      then show ?thesis using followEdge_frame ms assms(4) False Inr by (simp add: route_def Let_def)
    next
      case many
      have best: "mget (p_Nodes p) (e_To (bestEdge e (f # es))) \<noteq> None"
        using ms bestEdge_in [of e "f # es"] unfolding many by blast
      show ?thesis
        using many ms followEdge_frame [OF best] fanOut_frame [of ms p] assms(4) False Inr
        by (auto simp: route_def Let_def simp del: bestEdge.simps fanOut.simps split: if_splits)
    qed
  qed
qed

text \<open>
  The fields no routing step touches, whether the graph is valid or not; a node keeps the attempt it
  points to.
\<close>

definition lineage_kept :: "(string, NodeProjection) gomap \<Rightarrow> (string, NodeProjection) gomap \<Rightarrow> bool" where
  "lineage_kept m m' \<longleftrightarrow>
     (\<forall>k n. mget m k = Some n \<longrightarrow> (\<exists>n'. mget m' k = Some n' \<and> np_CurrentAttempt n' = np_CurrentAttempt n))"

lemma lineage_kept_refl [simp]: "lineage_kept m m"
  by (simp add: lineage_kept_def)

lemma lineage_kept_trans: "lineage_kept a b \<Longrightarrow> lineage_kept b c \<Longrightarrow> lineage_kept a c"
  unfolding lineage_kept_def by metis

lemma lineage_kept_put:
  "np_CurrentAttempt n' = np_CurrentAttempt (mget0 zeroNodeProjection m k) \<Longrightarrow> lineage_kept m (mput k n' m)"
  by (auto simp: lineage_kept_def mget0_def)

definition kept :: "PlanProjection \<Rightarrow> PlanProjection \<Rightarrow> bool" where
  "kept p p' \<longleftrightarrow> p_PlanID p' = p_PlanID p \<and> p_Revision p' = p_Revision p \<and> p_Attempts p' = p_Attempts p \<and>
     p_RepairPlans p' = p_RepairPlans p \<and> p_Idempotency p' = p_Idempotency p \<and> p_TokenUsage p' = p_TokenUsage p \<and>
     p_ToolCalls p' = p_ToolCalls p \<and> p_CostCents p' = p_CostCents p \<and> lineage_kept (p_Nodes p) (p_Nodes p') \<and>
     (\<exists>ds. p_Decisions p' = p_Decisions p @ ds)"

lemma kept_refl [simp]: "kept p p"
  by (simp add: kept_def)

lemma kept_trans: "kept a b \<Longrightarrow> kept b c \<Longrightarrow> kept a c"
  by (auto simp: kept_def intro: lineage_kept_trans)

lemma openTarget_kept: "kept p (openTarget e c (countTraversal e p))"
  by (auto simp: kept_def openTarget_def countTraversal_def Let_def intro!: lineage_kept_put)

lemma decide_kept: "kept p q \<Longrightarrow> kept p (decide key d q)"
  by (auto simp: kept_def decide_def)

lemma countTraversal_kept: "kept p (countTraversal e p)"
  by (simp add: kept_def countTraversal_def)

lemma scheduleRetry_kept: "kept p (scheduleRetry node a now p)"
  by (auto simp: kept_def scheduleRetry_def Let_def intro!: lineage_kept_put)

lemma terminate_kept: "kept p (terminate out p)"
  by (simp add: kept_def terminate_def)

lemma fanOut_kept: "fanOut plan a key es p = (p', r) \<Longrightarrow> kept p p'"
proof (induction es arbitrary: p)
  case Nil
  then show ?case by simp
next
  case (Cons e es)
  show ?case
  proof (cases "traversalExceeded e (countTraversal e p)")
    case True
    then show ?thesis using Cons.prems countTraversal_kept by auto
  next
    case False
    then have "kept (fanOutEdge plan a key e (countTraversal e p)) p'" using Cons by simp
    moreover have "kept p (fanOutEdge plan a key e (countTraversal e p))"
      unfolding fanOutEdge_def by (intro decide_kept openTarget_kept)
    ultimately show ?thesis using kept_trans by blast
  qed
qed

lemma followEdge_kept: "followEdge plan a key e p = (p', r) \<Longrightarrow> kept p p'"
  by (auto simp: followEdge_def Let_def split: if_splits intro: decide_kept openTarget_kept countTraversal_kept)

lemma routeUnmatched_kept: "routeUnmatched plan a ev now p = (p', r) \<Longrightarrow> kept p p'"
  by (auto simp: routeUnmatched_def Let_def split: if_splits intro: scheduleRetry_kept terminate_kept)
    (simp add: kept_def)

lemma route_kept: "route clock plan a inp p = (p', r) \<Longrightarrow> kept p p'"
  unfolding route_def Let_def
  by (auto simp del: bestEdge.simps fanOut.simps split: if_splits sum.splits list.splits
      intro: terminate_kept dest!: fanOut_kept followEdge_kept routeUnmatched_kept)

text \<open>A routing step that fails does not end the plan.\<close>

lemma fanOut_outcome:
  "fanOut plan a key es p = (p', r) \<Longrightarrow> p_Status p' = p_Status p \<and> p_TerminalOutcome p' = p_TerminalOutcome p"
  by (induction es arbitrary: p)
    (auto simp: Let_def fanOutEdge_def decide_def openTarget_def countTraversal_def split: if_splits)

lemma followEdge_outcome:
  "followEdge plan a key e p = (p', r) \<Longrightarrow> p_Status p' = p_Status p \<and> p_TerminalOutcome p' = p_TerminalOutcome p"
  by (auto simp: followEdge_def Let_def decide_def openTarget_def countTraversal_def split: if_splits)

lemma routeUnmatched_error: "routeUnmatched plan a ev now p = (p', Some e) \<Longrightarrow> p' = p"
  by (auto simp: routeUnmatched_def Let_def split: if_splits)

lemma route_error_outcome:
  "route clock plan a inp p = (p', Some e) \<Longrightarrow> p_Status p' = p_Status p \<and> p_TerminalOutcome p' = p_TerminalOutcome p"
  unfolding route_def Let_def
  by (auto simp del: bestEdge.simps fanOut.simps split: if_splits sum.splits list.splits
      dest!: fanOut_outcome followEdge_outcome routeUnmatched_error)

section \<open>What routing decides\<close>

text \<open>The edges an outcome takes, as a predicate.\<close>

definition edge_taken :: "NodeAttempt \<Rightarrow> string \<Rightarrow> WorkflowEdge \<Rightarrow> bool" where
  "edge_taken a event e \<longleftrightarrow>
     e_From e = a_NodeID a \<and> eventMatches (e_On e) (a_Status a) event (sr_Outcome (a_Result a)) \<and>
     (blank (pr_Kind (e_Predicate e)) \<or> pred_holds (e_Predicate e) (resultFields (a_Result a))) \<and>
     set (e_RequiredEvidence e) \<subseteq> set (sr_EvidenceIDs (a_Result a))"

lemma matchEdges_taken: "matchEdges a ev es = Inr ms \<Longrightarrow> ms = filter (edge_taken a ev) es"
proof (induction es arbitrary: ms)
  case Nil
  then show ?case by simp
next
  case (Cons e es)
  show ?case
  proof (cases "e_From e \<noteq> a_NodeID a \<or> \<not> eventMatches (e_On e) (a_Status a) ev (sr_Outcome (a_Result a))")
    case True
    then have "\<not> edge_taken a ev e" by (auto simp: edge_taken_def)
    then show ?thesis using Cons True by simp
  next
    case False
    from Cons.prems False obtain b where ev: "EvaluatePredicate (e_Predicate e) (resultFields (a_Result a)) = Inr b"
      by (auto split: sum.splits)
    then have b: "b = (blank (pr_Kind (e_Predicate e)) \<or> pred_holds (e_Predicate e) (resultFields (a_Result a)))"
      by (simp add: EvaluatePredicate_Inr)
    show ?thesis
    proof (cases b)
      case True
      with Cons.prems False ev have find: "find (\<lambda>r. \<not> contains (sr_EvidenceIDs (a_Result a)) r) (e_RequiredEvidence e) = None"
        by (auto split: option.splits)
      then have "set (e_RequiredEvidence e) \<subseteq> set (sr_EvidenceIDs (a_Result a))"
        by (auto simp: find_None_iff contains_def)
      then have t: "edge_taken a ev e" using False b True by (simp add: edge_taken_def)
      obtain ms' where "matchEdges a ev es = Inr ms'" and "ms = e # ms'"
        using Cons.prems False ev True find by (auto split: sum.splits)
      then show ?thesis using Cons.IH t by simp
    next
      case False': False
      then have "\<not> edge_taken a ev e" using b by (auto simp: edge_taken_def)
      then show ?thesis using Cons False ev False' by simp
    qed
  qed
qed

lemma bestEdge_max: "e \<in> set (b # es) \<Longrightarrow> e_Priority e \<le> e_Priority (bestEdge b es)"
  by (induction b es arbitrary: e rule: bestEdge.induct) (fastforce split: if_splits)+

text \<open>The traversal counters stay within the bounds of their edges.\<close>

definition traversals_ok :: "WorkflowGraph \<Rightarrow> PlanProjection \<Rightarrow> bool" where
  "traversals_ok g p \<longleftrightarrow>
     (\<forall>e\<in>set (g_Edges g). 0 < e_MaxTraversals e \<longrightarrow> mget0 0 (p_Traversals p) (e_ID e) \<le> e_MaxTraversals e)"

lemma openTarget_Traversals [simp]: "p_Traversals (openTarget e c p) = p_Traversals p"
  by (simp add: openTarget_def Let_def)

lemma decide_Traversals [simp]: "p_Traversals (decide key d p) = p_Traversals p"
  by (simp add: decide_def)

lemma countTraversal_ok:
  assumes "distinct (map e_ID (g_Edges g))" and "e \<in> set (g_Edges g)" and "traversals_ok g p"
    and "\<not> traversalExceeded e (countTraversal e p)"
  shows "traversals_ok g (countTraversal e p)"
proof -
  have "f = e" if "f \<in> set (g_Edges g)" "e_ID f = e_ID e" for f
    using that assms(1,2) by (auto simp: distinct_map inj_on_def)
  then show ?thesis
    using assms(3,4) by (auto simp: traversals_ok_def countTraversal_def traversalExceeded_def not_less split: if_splits)
qed

lemma followEdge_traversals:
  assumes "distinct (map e_ID (g_Edges g))" and "e \<in> set (g_Edges g)" and "traversals_ok g p"
    and "followEdge plan a key e p = (p', None)"
  shows "traversals_ok g p'"
  using countTraversal_ok [OF assms(1-3)] assms(4)
  by (auto simp: followEdge_def Let_def traversals_ok_def split: if_splits)

lemma fanOut_traversals:
  "distinct (map e_ID (g_Edges g)) \<Longrightarrow> set es \<subseteq> set (g_Edges g) \<Longrightarrow> traversals_ok g p \<Longrightarrow>
     fanOut plan a key es p = (p', None) \<Longrightarrow> traversals_ok g p'"
proof (induction es arbitrary: p)
  case Nil
  then show ?case by simp
next
  case (Cons e es)
  from Cons.prems(4) have "\<not> traversalExceeded e (countTraversal e p)"
    and rest: "fanOut plan a key es (fanOutEdge plan a key e (countTraversal e p)) = (p', None)"
    by (auto simp: Let_def split: if_splits)
  then have "traversals_ok g (fanOutEdge plan a key e (countTraversal e p))"
    using countTraversal_ok [of g e p] Cons.prems(1-3) by (simp add: traversals_ok_def fanOutEdge_def)
  then show ?case using Cons.IH [OF Cons.prems(1) _ _ rest] Cons.prems(2) by simp
qed

lemma routeUnmatched_Traversals: "routeUnmatched plan a ev now p = (p', r) \<Longrightarrow> p_Traversals p' = p_Traversals p"
  by (auto simp: routeUnmatched_def Let_def scheduleRetry_def terminate_def split: if_splits)

text \<open>The shape of a routing step that does not fail, one case for each branch of the code.\<close>

lemma route_cases:
  assumes "route clock plan a inp p = (p', None)"
  obtains (deadline) "planDeadlineTimeout a" "p' = terminate ''timed_out'' p"
  | (unmatched) "filter (edge_taken a (in_Event inp)) (g_Edges (pl_GraphSnapshot plan)) = []"
      "routeUnmatched plan a (in_Event inp) (if IsZero (in_Now inp) then clock else in_Now inp) p = (p', None)"
  | (fan_out) "list_all e_FanOut (filter (edge_taken a (in_Event inp)) (g_Edges (pl_GraphSnapshot plan)))"
      "fanOut plan a (in_IdempotencyKey inp) (filter (edge_taken a (in_Event inp)) (g_Edges (pl_GraphSnapshot plan))) p = (p', None)"
  | (single) e where "e \<in> set (g_Edges (pl_GraphSnapshot plan))" "edge_taken a (in_Event inp) e"
      "followEdge plan a (in_IdempotencyKey inp) e p = (p', None)"
      "\<forall>f\<in>set (g_Edges (pl_GraphSnapshot plan)). edge_taken a (in_Event inp) f \<longrightarrow> e_Priority f \<le> e_Priority e"
proof (cases "planDeadlineTimeout a")
  case True
  then show ?thesis using assms deadline by (auto simp: route_def Let_def)
next
  case False
  let ?es = "g_Edges (pl_GraphSnapshot plan)"
  obtain ms where m: "matchEdges a (in_Event inp) ?es = Inr ms"
    using assms False by (auto simp: route_def Let_def split: sum.splits)
  note ms = matchEdges_taken [OF m]
  have in_ms: "f \<in> set ms \<longleftrightarrow> f \<in> set ?es \<and> edge_taken a (in_Event inp) f" for f by (simp add: ms)
  consider (none) "ms = []" | (one) e where "ms = [e]" | (many) e f es where "ms = e # f # es"
    by (metis list.exhaust)
  then show ?thesis
  proof cases
    case none
    then show ?thesis using assms False m unmatched ms by (auto simp: route_def Let_def)
  next
    case one
    have e: "e \<in> set ?es" "edge_taken a (in_Event inp) e" using in_ms [of e] one by simp_all
    have "e_Priority f \<le> e_Priority e" if "f \<in> set ?es" "edge_taken a (in_Event inp) f" for f
      using in_ms [of f] one that by simp
    moreover have "followEdge plan a (in_IdempotencyKey inp) e p = (p', None)"
      using assms False m one by (simp add: route_def Let_def)
    ultimately show ?thesis using single [of e] e by blast
  next
    case many
    have b: "bestEdge e (f # es) \<in> set ms" using bestEdge_in [of e "f # es"] many by simp
    have best: "\<forall>h\<in>set ms. e_Priority h \<le> e_Priority (bestEdge e (f # es))"
      using bestEdge_max [of _ e "f # es"] unfolding many by blast
    have "route clock plan a inp p = (if list_all e_FanOut ms then fanOut plan a (in_IdempotencyKey inp) ms p
        else if 1 < length (filter (\<lambda>x. e_Priority x = e_Priority (bestEdge e (f # es))) ms)
        then (p, Some ErrAmbiguousTransition) else followEdge plan a (in_IdempotencyKey inp) (bestEdge e (f # es)) p)"
      using False m many by (simp add: route_def Let_def del: bestEdge.simps fanOut.simps)
    then show ?thesis
      using assms fan_out single [of "bestEdge e (f # es)"] b best in_ms ms by (auto split: if_splits simp del: bestEdge.simps)
  qed
qed

lemma route_traversals:
  assumes "distinct (map e_ID (g_Edges (pl_GraphSnapshot plan)))" and "traversals_ok (pl_GraphSnapshot plan) p"
    and "route clock plan a inp p = (p', None)"
  shows "traversals_ok (pl_GraphSnapshot plan) p'"
  using assms(3)
proof (cases rule: route_cases)
  case deadline
  then show ?thesis using assms(2) by (simp add: traversals_ok_def terminate_def)
next
  case unmatched
  then show ?thesis using routeUnmatched_Traversals assms(2) by (simp add: traversals_ok_def)
next
  case fan_out
  show ?thesis by (rule fanOut_traversals [OF assms(1) _ assms(2) fan_out(2)]) auto
next
  case (single e)
  then show ?thesis using followEdge_traversals [OF assms(1) _ assms(2)] by simp
qed

text \<open>Routing ends a plan as succeeded only on a passed exit node with every repair plan verified.\<close>

lemma route_succeeds:
  assumes "route clock plan a inp p = (p', None)" and "p_TerminalOutcome p' = ''succeeded''"
    and "p_Status p' = PlanTerminal" and "p_Status p \<noteq> PlanTerminal"
  shows "a_Status a = AttemptPassed \<and> a_NodeID a \<in> set (g_ExitNodeIDs (pl_GraphSnapshot plan)) \<and>
    allRepairsVerified p \<and> sr_EvidenceIDs (a_Result a) \<noteq> []"
  using assms(1)
proof (cases rule: route_cases)
  case deadline
  then show ?thesis using assms(2) by (simp add: terminate_def)
next
  case unmatched
  then show ?thesis using assms(2-4)
    by (auto simp: routeUnmatched_def Let_def terminate_def scheduleRetry_def statusOutcome_def contains_def
        split: if_splits AttemptStatus.splits)
next
  case fan_out
  then show ?thesis using fanOut_outcome assms(3,4) by fastforce
next
  case (single e)
  then show ?thesis using followEdge_outcome assms(3,4) by fastforce
qed

text \<open>The backoff doubles with each retry and is capped at a day.\<close>

lemma backoff_loop_min: "0 < b \<Longrightarrow> b < day \<Longrightarrow> backoff_loop k b = min day (b * 2 ^ k)"
proof (induction k arbitrary: b)
  case 0
  then show ?case by simp
next
  case (Suc k)
  have big: "day \<le> b * 2 ^ Suc k" if "halfDay < b"
  proof -
    have "b * 1 \<le> b * 2 ^ k" using Suc.prems by (intro mult_left_mono) auto
    then have "day < 2 * (b * 2 ^ k)" using that unfolding day_def halfDay_def by linarith
    then show ?thesis by simp
  qed
  consider (big) "halfDay < b" | (half) "b = halfDay" | (small) "b < halfDay" by linarith
  then show ?case
  proof cases
    case big
    then show ?thesis using Suc.prems \<open>halfDay < b \<Longrightarrow> day \<le> b * 2 ^ Suc k\<close> by simp
  next
    case half
    then have "b + b = day" by (simp add: day_def halfDay_def hour_def)
    moreover have "backoff_loop k day = day" by (cases k) simp_all
    moreover have "day \<le> b * 2 ^ Suc k"
      using half by (simp add: day_def halfDay_def hour_def)
    ultimately show ?thesis using Suc.prems half by simp
  next
    case small
    then have "b + b < day" by (simp add: day_def halfDay_def hour_def)
    then show ?thesis using Suc.IH [of "b + b"] Suc.prems small by (simp add: mult.commute mult.left_commute)
  qed
qed

lemma retryBackoff_min:
  "0 < b \<Longrightarrow> b < day \<Longrightarrow> retryBackoff c b = min day (b * 2 ^ nat (c - 1))"
  by (simp add: retryBackoff_def backoff_loop_min)

section \<open>Properties\<close>

definition topPriority :: "WorkflowEdge list \<Rightarrow> WorkflowEdge list" where
  "topPriority ms = filter (\<lambda>e. \<forall>f\<in>set ms. e_Priority f \<le> e_Priority e) ms"

lemma topPriority_best:
  "topPriority (b # es) = filter (\<lambda>x. e_Priority x = e_Priority (bestEdge b es)) (b # es)"
  unfolding topPriority_def
proof (rule filter_cong [OF refl])
  fix x
  assume x: "x \<in> set (b # es)"
  have "\<forall>f\<in>set (b # es). e_Priority f \<le> e_Priority (bestEdge b es)" using bestEdge_max by blast
  then show "(\<forall>f\<in>set (b # es). e_Priority f \<le> e_Priority x) = (e_Priority x = e_Priority (bestEdge b es))"
    using bestEdge_in [of b es] bestEdge_max [OF x] by (metis order_antisym)
qed

text \<open>
  Routing chooses one edge or refuses. When several edges match a completion and not all of them fan out, the
  edge of the highest priority is followed if there is only one such edge; otherwise the completion is refused as
  ambiguous and the projection is left as it is. The order of the edges in the graph does not matter.
\<close>

theorem route_choice:
  assumes "matchEdges a (in_Event inp) (g_Edges (pl_GraphSnapshot plan)) = Inr ms" and "\<not> planDeadlineTimeout a"
    and "2 \<le> length ms" and "\<not> list_all e_FanOut ms"
  shows "route clock plan a inp p =
    (case topPriority ms of [e] \<Rightarrow> followEdge plan a (in_IdempotencyKey inp) e p
     | _ \<Rightarrow> (p, Some ErrAmbiguousTransition))"
proof -
  obtain e f es where ms: "ms = e # f # es" using assms(3) by (cases ms; cases "tl ms") auto
  let ?b = "bestEdge e (f # es)"
  have r: "route clock plan a inp p =
      (if 1 < length (filter (\<lambda>x. e_Priority x = e_Priority ?b) ms)
       then (p, Some ErrAmbiguousTransition) else followEdge plan a (in_IdempotencyKey inp) ?b p)"
    using assms(1,2,4) unfolding ms by (auto simp: route_def Let_def simp del: bestEdge.simps fanOut.simps filter.simps)
  have top: "topPriority ms = filter (\<lambda>x. e_Priority x = e_Priority ?b) ms" unfolding ms by (rule topPriority_best)
  have b: "?b \<in> set (topPriority ms)"
    unfolding top set_filter using bestEdge_in [of e "f # es", folded ms] by (simp only: mem_Collect_eq simp_thms)
  show ?thesis
  proof (cases "topPriority ms")
    case Nil
    then show ?thesis using b by simp
  next
    case (Cons x xs)
    then show ?thesis using r b unfolding top [symmetric] by (cases xs) auto
  qed
qed

definition exAmbiguous :: "int \<Rightarrow> RequirementExecutionPlan" where
  "exAmbiguous prio = exPlan\<lparr>pl_GraphSnapshot := exGraph\<lparr>g_Edges := g_Edges exGraph @
     [(exEdge ''e4'' ''qa'' ''impl'' EdgeBug 1)\<lparr>e_Priority := prio\<rparr>]\<rparr>\<rparr>"

definition exBug :: NodeAttempt where
  "exBug = (exAttempt ''a2'' ''qa'' AttemptFailed)\<lparr>a_Result := exResult ''bug''\<rparr>"

definition exBugInput :: TransitionInput where
  "exBugInput = exInput ''bug'' (exResult ''bug'') None"

theorem route_choice_witness:
  "route 0 (exAmbiguous 0) exBug exBugInput (exChecking 0) = (exChecking 0, Some ErrAmbiguousTransition)"
proof -
  let ?ms = "[exEdge ''e2'' ''qa'' ''fix'' EdgeBug 2, exEdge ''e4'' ''qa'' ''impl'' EdgeBug 1]"
  have m: "matchEdges exBug (in_Event exBugInput) (g_Edges (pl_GraphSnapshot (exAmbiguous 0))) = Inr ?ms" by code_simp
  have d: "\<not> planDeadlineTimeout exBug" by code_simp
  have f: "\<not> list_all e_FanOut ?ms" by (simp add: exEdge_def)
  have t: "topPriority ?ms = ?ms" by (simp add: topPriority_def exEdge_def)
  show ?thesis using route_choice [OF m d _ f, of 0 "exChecking 0"] t by simp
qed

text \<open>
  Retry delays double and are capped. For a configured backoff below a day the delay before the \<open>c\<close>-th retry is
  the backoff times two to the power \<open>c - 1\<close>, never more than a day, and the loop that computes it never leaves
  the 64-bit range.
\<close>

theorem retryBackoff_doubles:
  assumes "0 < b" and "b < day"
  shows "retryBackoff c b = min day (b * 2 ^ nat (c - 1)) \<and> in64 (retryBackoff c b)"
proof -
  have "retryBackoff c b = min day (b * 2 ^ nat (c - 1))" using assms by (rule retryBackoff_min)
  moreover have "0 \<le> b * 2 ^ nat (c - 1)" using assms(1) by simp
  ultimately show ?thesis by (auto simp: in64_def minInt64_def maxInt64_def day_def hour_def min_def)
qed

theorem retryBackoff_doubles_witness: "retryBackoff 3 1000 = min day (1000 * 2 ^ nat (3 - 1))"
proof -
  have "(1000::int) < day" by (simp add: day_def hour_def)
  from retryBackoff_doubles [OF _ this] show ?thesis by simp
qed

end
