(* ===== verification/Orch_Attempts.thy ===== *)
theory Orch_Attempts
  imports Orch_Route Orch_Example
begin

text \<open>
  \<open>StartAttempt\<close> and \<open>FinishAttempt\<close> (\<open>transition.go\<close>). Both mutate the projection through a
  pointer, so both return the projection they leave behind together with the error or the attempt.
  What the operations take from outside the reducer is an argument: the wall clock, the digest of a
  payload, and the verification of a context envelope (\<open>harness.ContextEnvelope.Validate\<close>). The
  maps of a projection are never nil here; the code creates the ones it finds missing.
\<close>

section \<open>Starting an attempt\<close>

record Ambient =
  am_Now :: int
  am_ValidateContext :: "ContextEnvelope \<Rightarrow> go_error option"
  am_PayloadHash :: "string \<Rightarrow> StructuredResult \<Rightarrow> FailureReason option \<Rightarrow> string"

definition nowOf :: "Ambient \<Rightarrow> int \<Rightarrow> int" where
  "nowOf am t = (if IsZero t then am_Now am else t)"

definition runningCount :: "PlanProjection \<Rightarrow> int" where
  "runningCount p = int (length (filter (\<lambda>a. a_Status a = AttemptRunning) (mvals (p_Attempts p))))"

definition nodeRunningCount :: "PlanProjection \<Rightarrow> string \<Rightarrow> int" where
  "nodeRunningCount p nodeID =
     int (length (filter (\<lambda>a. a_NodeID a = nodeID \<and> a_Status a = AttemptRunning) (mvals (p_Attempts p))))"

definition tokenEstimate :: "NodeAttempt \<Rightarrow> int" where
  "tokenEstimate a = cm_TokenEstimate (ce_Manifest (a_InputManifest a))"

definition nodeTokensUsed :: "PlanProjection \<Rightarrow> string \<Rightarrow> int" where
  "nodeTokensUsed p nodeID =
     wrap64 (sum_list (map tokenEstimate (filter (\<lambda>a. a_NodeID a = nodeID) (mvals (p_Attempts p)))))"

definition completeEnvelope :: "ContextEnvelope \<Rightarrow> bool" where
  "completeEnvelope c \<longleftrightarrow> \<not> (blank (cm_SessionID (ce_Manifest c)) \<or> blank (cm_Digest (ce_Manifest c)) \<or>
     blank (ce_SelectionDigest c) \<or> blank (ce_ReplayKey c) \<or> cm_TokenBudget (ce_Manifest c) \<le> 0 \<or>
     cm_TokenBudget (ce_Manifest c) < cm_TokenEstimate (ce_Manifest c))"

text \<open>The checks before the idempotency key is looked up.\<close>

definition startPlanChecks ::
  "Ambient \<Rightarrow> RequirementExecutionPlan \<Rightarrow> ContextEnvelope \<Rightarrow> TransitionInput \<Rightarrow> PlanProjection \<Rightarrow> go_error option" where
  "startPlanChecks am plan c inp p =
     (let now = nowOf am (in_Now inp); budget = ps_Budget (pl_PolicySnapshot plan);
          est = cm_TokenEstimate (ce_Manifest c) in
      first_err
       [guard (p_PlanID p \<noteq> pl_ID plan) ErrInvalidTransition,
        guard (pl_Status plan \<noteq> PlanReady \<and> pl_Status plan \<noteq> PlanRunning) ErrInvalidTransition,
        guard (\<not> IsZero (pl_Deadline plan) \<and> \<not> now < pl_Deadline plan) ErrDeadlineExceeded,
        guard (0 < b_Tokens budget \<and> b_Tokens budget < wrap64 (p_TokenUsage p + est)) ErrBudgetExceeded,
        guard (0 < b_Concurrent budget \<and> b_Concurrent budget \<le> runningCount p) ErrBudgetExceeded,
        guard (\<not> completeEnvelope c) (Errorf ''attempt requires a complete context envelope'' []),
        map_option (\<lambda>e. Wrapf e ''attempt context envelope'') (am_ValidateContext am c),
        guard (in_PlanRevision inp \<noteq> 0 \<and> in_PlanRevision inp \<noteq> p_Revision p) ErrStaleAttempt])"

text \<open>The idempotency key: a conflict, an attempt already started under the key, or neither.\<close>

definition startReplay :: "TransitionInput \<Rightarrow> PlanProjection \<Rightarrow> (go_error + NodeAttempt) option" where
  "startReplay inp p =
     (if in_IdempotencyKey inp = '''' then None
      else case mget (p_Idempotency p) (in_IdempotencyKey inp) of
        None \<Rightarrow> None
      | Some h \<Rightarrow>
          if h \<noteq> in_PayloadHash inp then Some (Inl ErrIdempotencyConflict)
          else map_option Inr (find (\<lambda>a. a_IdempotencyKey a = in_IdempotencyKey inp) (mvals (p_Attempts p))))"

text \<open>The checks on the node, up to the required attempt ID.\<close>

definition startNodeChecks ::
  "RequirementExecutionPlan \<Rightarrow> string \<Rightarrow> string \<Rightarrow> NodeProjection \<Rightarrow> ContextEnvelope \<Rightarrow> int \<Rightarrow> PlanProjection \<Rightarrow>
     go_error option" where
  "startNodeChecks plan nodeID attemptID n c now p =
     (let def = find_node (g_Nodes (pl_GraphSnapshot plan)) nodeID; est = cm_TokenEstimate (ce_Manifest c) in
      first_err
       [guard (opt_any (\<lambda>t. now < t) (np_RetryAt n)) ErrRetryBackoff,
        guard (0 < b_Tokens (n_Budget def) \<and> b_Tokens (n_Budget def) < wrap64 (nodeTokensUsed p nodeID + est))
          ErrBudgetExceeded,
        guard (0 < cp_MaxTokens (n_ContextPolicy def) \<and> cp_MaxTokens (n_ContextPolicy def) < est)
          (Wrapf ErrBudgetExceeded ''node context token budget exceeded''),
        guard (0 < b_Concurrent (n_Budget def) \<and> b_Concurrent (n_Budget def) \<le> nodeRunningCount p nodeID)
          (Wrapf ErrBudgetExceeded ''node concurrency budget exceeded''),
        guard (np_Status n \<noteq> AttemptReady \<and> np_Status n \<noteq> AttemptFailed \<and> np_Status n \<noteq> AttemptTimedOut)
          (Errorf ''node %s is not ready'' [ArgS nodeID]),
        guard (np_CurrentAttempt n \<noteq> '''' \<and>
            opt_any (\<lambda>a. a_Status a = AttemptRunning) (mget (p_Attempts p) (np_CurrentAttempt n)))
          ErrInvalidTransition,
        guard (blank attemptID) (Errorf ''attempt id is required'' [])])"

text \<open>The checks after the lookup of the attempt ID.\<close>

definition startLeaseChecks ::
  "RequirementExecutionPlan \<Rightarrow> string \<Rightarrow> int \<Rightarrow> Lease \<Rightarrow> TransitionInput \<Rightarrow> int \<Rightarrow> PlanProjection \<Rightarrow> go_error option" where
  "startLeaseChecks plan nodeID attemptNo lease inp now p =
     first_err
       [guard (list_ex (\<lambda>a. a_PlanID a = pl_ID plan \<and> a_NodeID a = nodeID \<and> a_AttemptNo a = attemptNo) (mvals (p_Attempts p)))
          ErrInvalidTransition,
        guard (in_LeaseToken inp \<noteq> 0 \<and> l_FencingToken lease \<noteq> in_LeaseToken inp) ErrLeaseLost,
        guard (\<not> IsZero (l_ExpiresAt lease) \<and> \<not> now < l_ExpiresAt lease) ErrLeaseLost]"

definition newAttempt ::
  "RequirementExecutionPlan \<Rightarrow> string \<Rightarrow> string \<Rightarrow> int \<Rightarrow> Lease \<Rightarrow> ContextEnvelope \<Rightarrow> TransitionInput \<Rightarrow> int \<Rightarrow>
     NodeProjection \<Rightarrow> PlanProjection \<Rightarrow> NodeAttempt" where
  "newAttempt plan nodeID attemptID attemptNo lease c inp now n p =
     (let (repairID, state) = repairPlanForDispatch p (pl_GraphSnapshot plan) nodeID;
          def = find_node (g_Nodes (pl_GraphSnapshot plan)) nodeID
      in \<lparr>a_ID = attemptID, a_PlanID = pl_ID plan, a_NodeID = nodeID, a_AttemptNo = attemptNo, a_RunID = '''',
          a_SessionID = '''', a_WorkDir = '''', a_Lease = lease, a_IdempotencyKey = in_IdempotencyKey inp,
          a_InputManifest = c, a_OutputArtifacts = [], a_Result = zeroResult,
          a_RepairState = (if n_Kind def = NodeRepair then RepairPlanned
             else if repairID \<noteq> '''' then state else repairLifecycleAtStart p (pl_GraphSnapshot plan) nodeID),
          a_RepairPlanID = (if repairID \<noteq> '''' then repairID else ''''),
          a_Status = AttemptRunning, a_FailureReason = None, a_ParentAttemptID = np_CurrentAttempt n,
          a_RetryOf = np_CurrentAttempt n, a_ChildPlanID = '''', a_StartedAt = Some now, a_FinishedAt = None\<rparr>)"

definition repairName :: "RepairLifecycle \<Rightarrow> string" where
  "repairName s =
     (case s of RepairUnset \<Rightarrow> '''' | RepairPlanned \<Rightarrow> ''planned'' | RepairDispatched \<Rightarrow> ''dispatched''
      | RepairPatched \<Rightarrow> ''patched'' | RepairVerifying \<Rightarrow> ''verifying'' | RepairVerified \<Rightarrow> ''verified''
      | RepairFailed \<Rightarrow> ''failed'' | RepairExhausted \<Rightarrow> ''exhausted'' | RepairOther x \<Rightarrow> x)"

text \<open>
  The link of a started attempt to its repair plan: the plan with the attempt recorded, or
  \<open>None\<close> where the code finds that the lifecycle does not allow the step.
\<close>

definition linkRepair :: "NodeAttempt \<Rightarrow> RepairPlan \<Rightarrow> RepairPlan option" where
  "linkRepair a repair =
     (if a_RepairState a = RepairDispatched then
        setRepairState (repair\<lparr>rpl_TargetAttemptID := a_ID a\<rparr>) RepairDispatched
      else if a_RepairState a = RepairVerifying then
        setRepairState (repair\<lparr>rpl_VerificationAttempts := mput (a_NodeID a) (a_ID a) (rpl_VerificationAttempts repair)\<rparr>)
          RepairVerifying
      else Some repair)"

definition withKey :: "TransitionInput \<Rightarrow> PlanProjection \<Rightarrow> PlanProjection" where
  "withKey inp p =
     (if in_IdempotencyKey inp \<noteq> ''''
      then p\<lparr>p_Idempotency := mput (in_IdempotencyKey inp) (in_PayloadHash inp) (p_Idempotency p)\<rparr> else p)"

definition withoutKey :: "TransitionInput \<Rightarrow> PlanProjection \<Rightarrow> PlanProjection" where
  "withoutKey inp p =
     (if in_IdempotencyKey inp \<noteq> '''' then p\<lparr>p_Idempotency := mdel (in_IdempotencyKey inp) (p_Idempotency p)\<rparr> else p)"

definition beginNode :: "NodeAttempt \<Rightarrow> NodeProjection \<Rightarrow> PlanProjection \<Rightarrow> PlanProjection" where
  "beginNode a n p =
     p\<lparr>p_Nodes := mput (a_NodeID a) (n\<lparr>np_Status := AttemptRunning, np_CurrentAttempt := a_ID a,
          np_AttemptNo := a_AttemptNo a, np_RetryAt := None, np_ReadyEdgeIDs := []\<rparr>) (p_Nodes p),
       p_Status := PlanRunning, p_TokenUsage := wrap64 (p_TokenUsage p + tokenEstimate a)\<rparr>"

text \<open>
  The writes of \<open>StartAttempt\<close>. When the repair lifecycle refuses the step the attempt and the key
  are taken back; a refused verification also drops the node's entry of the shared map.
\<close>

definition commitStart ::
  "NodeAttempt \<Rightarrow> NodeProjection \<Rightarrow> TransitionInput \<Rightarrow> PlanProjection \<Rightarrow> PlanProjection \<times> (go_error + NodeAttempt)" where
  "commitStart a n inp p =
     (let p1 = withKey inp p;
          p2 = p1\<lparr>p_Attempts := mput (a_ID a) a (p_Attempts p1)\<rparr>;
          repair = mget0 zeroRepairPlan (p_RepairPlans p2) (a_RepairPlanID a) in
      if a_RepairPlanID a = '''' then (beginNode a n p2, Inr a)
      else case linkRepair a repair of
        Some linked \<Rightarrow>
          (beginNode a n (p2\<lparr>p_RepairPlans := mput (a_RepairPlanID a)
              (linked\<lparr>rpl_LastReasonCode := repairName (a_RepairState a)\<rparr>) (p_RepairPlans p2)\<rparr>), Inr a)
      | None \<Rightarrow>
          (let p3 = (if a_RepairState a = RepairVerifying
                then p2\<lparr>p_RepairPlans := mput (a_RepairPlanID a)
                  (repair\<lparr>rpl_VerificationAttempts := mdel (a_NodeID a) (rpl_VerificationAttempts repair)\<rparr>)
                  (p_RepairPlans p2)\<rparr>
                else p2)
           in (withoutKey inp (p3\<lparr>p_Attempts := mdel (a_ID a) (p_Attempts p3)\<rparr>),
               Inl (invalidTransition ''repair cannot transition to '' (repairName (a_RepairState a))))))"

text \<open>\<open>StartAttempt\<close> from the checks on the node on.\<close>

definition startOnNode ::
  "RequirementExecutionPlan \<Rightarrow> string \<Rightarrow> string \<Rightarrow> int \<Rightarrow> Lease \<Rightarrow> ContextEnvelope \<Rightarrow> TransitionInput \<Rightarrow> int \<Rightarrow>
     NodeProjection \<Rightarrow> PlanProjection \<Rightarrow> PlanProjection \<times> (go_error + NodeAttempt)" where
  "startOnNode plan nodeID attemptID attemptNo lease c inp now n p =
     (case startNodeChecks plan nodeID attemptID n c now p of
        Some e \<Rightarrow> (p, Inl e)
      | None \<Rightarrow>
      case mget (p_Attempts p) attemptID of
        Some old \<Rightarrow>
          if a_IdempotencyKey old = in_IdempotencyKey inp \<and> in_IdempotencyKey inp \<noteq> '''' then (p, Inr old)
          else (p, Inl ErrInvalidTransition)
      | None \<Rightarrow>
        (let no = (if attemptNo < 1 then wrap64 (np_AttemptNo n + 1) else attemptNo) in
         case startLeaseChecks plan nodeID no lease inp now p of
           Some e \<Rightarrow> (p, Inl e)
         | None \<Rightarrow> commitStart (newAttempt plan nodeID attemptID no lease c inp now n p) n inp p))"

definition StartAttempt ::
  "Ambient \<Rightarrow> RequirementExecutionPlan \<Rightarrow> string \<Rightarrow> string \<Rightarrow> int \<Rightarrow> Lease \<Rightarrow> ContextEnvelope \<Rightarrow> TransitionInput \<Rightarrow>
     PlanProjection \<Rightarrow> PlanProjection \<times> (go_error + NodeAttempt)" where
  "StartAttempt am plan nodeID attemptID attemptNo lease c inp p =
     (case startPlanChecks am plan c inp p of
        Some e \<Rightarrow> (p, Inl e)
      | None \<Rightarrow>
      case startReplay inp p of
        Some r \<Rightarrow> (p, r)
      | None \<Rightarrow>
      case mget (p_Nodes p) nodeID of
        None \<Rightarrow> (p, Inl (Errorf ''unknown node %q'' [ArgS nodeID]))
      | Some n \<Rightarrow> startOnNode plan nodeID attemptID attemptNo lease c inp (nowOf am (in_Now inp)) n p)"

section \<open>Finishing an attempt\<close>

text \<open>The status an event gives.\<close>

definition finishStatus :: "string \<Rightarrow> AttemptStatus option" where
  "finishStatus event =
     (if event \<in> set [''success'', ''passed'', ''pass''] then Some AttemptPassed
      else if event \<in> set [''failure'', ''failed'', ''fail'', ''bug''] then Some AttemptFailed
      else if event \<in> set [''timeout'', ''timed_out''] then Some AttemptTimedOut
      else if event \<in> set [''cancel'', ''cancelled''] then Some AttemptCancelled
      else if event \<in> set [''approval'', ''approved''] then Some AttemptWaiting
      else if event = ''waiting'' then Some AttemptWaiting
      else if event = ''approval_granted'' then Some AttemptPassed
      else if event = ''approval_denied'' then Some AttemptFailed
      else None)"

text \<open>The usage of a node so far: the estimates and the reported usage of its attempts.\<close>

definition nodeUsage :: "PlanProjection \<Rightarrow> string \<Rightarrow> int \<times> int \<times> int" where
  "nodeUsage p nodeID =
     (let as = filter (\<lambda>a. a_NodeID a = nodeID) (mvals (p_Attempts p)) in
      (wrap64 (sum_list (map (\<lambda>a. tokenEstimate a + fst (resultUsage (a_Result a))) as)),
       wrap64 (sum_list (map (\<lambda>a. fst (snd (resultUsage (a_Result a)))) as)),
       wrap64 (sum_list (map (\<lambda>a. snd (snd (resultUsage (a_Result a)))) as))))"

text \<open>The idempotency key of a completion: \<open>Some\<close> gives the early return.\<close>

definition finishReplay ::
  "TransitionInput \<Rightarrow> string \<Rightarrow> string \<Rightarrow> NodeAttempt \<Rightarrow> PlanProjection \<Rightarrow> (go_error + NodeAttempt) option" where
  "finishReplay inp key hash a p =
     (if key = '''' then None
      else case mget (p_Idempotency p) key of
        None \<Rightarrow> None
      | Some prev \<Rightarrow>
          if prev \<noteq> '''' \<and> prev \<noteq> hash then Some (Inl ErrIdempotencyConflict)
          else if a_Status a \<noteq> AttemptRunning \<and> (a_Status a \<noteq> AttemptWaiting \<or> in_Event inp \<noteq> ''waiting'')
          then Some (Inr a)
          else None)"

definition evidenceChecks :: "TransitionInput \<Rightarrow> go_error option" where
  "evidenceChecks inp =
     (if in_Event inp \<noteq> ''waiting'' \<and> in_Event inp \<noteq> ''approval'' then
        first_err
          [guard (sr_EvidenceIDs (in_Result inp) = []) ErrEvidenceRequired,
           check_indexed 0 (\<lambda>j ev. guard (blank ev) (Wrapf ErrEvidenceRequired (''evidence_ids['' @ utoa j @ ''] is empty'')))
             (sr_EvidenceIDs (in_Result inp))]
      else None)"

definition planBudgetChecks :: "RequirementExecutionPlan \<Rightarrow> int \<times> int \<times> int \<Rightarrow> PlanProjection \<Rightarrow> go_error option" where
  "planBudgetChecks plan used p =
     (let budget = ps_Budget (pl_PolicySnapshot plan); (tokens, tools, cost) = used in
      first_err
       [guard (0 < b_Tokens budget \<and> b_Tokens budget < wrap64 (p_TokenUsage p + tokens)) ErrBudgetExceeded,
        guard (0 < b_ToolCalls budget \<and> b_ToolCalls budget < wrap64 (p_ToolCalls p + tools)) ErrBudgetExceeded,
        guard (0 < b_CostCents budget \<and> b_CostCents budget < wrap64 (p_CostCents p + cost)) ErrBudgetExceeded])"

definition nodeBudgetChecks ::
  "WorkflowNode \<Rightarrow> int \<times> int \<times> int \<Rightarrow> NodeAttempt \<Rightarrow> int \<Rightarrow> PlanProjection \<Rightarrow> go_error option" where
  "nodeBudgetChecks def used a now p =
     (let (tokens, tools, cost) = used; (nodeTokens, nodeTools, nodeCost) = nodeUsage p (a_NodeID a); b = n_Budget def in
      first_err
       [guard (0 < b_Tokens b \<and> b_Tokens b < wrap64 (nodeTokens + tokens)) (Wrapf ErrBudgetExceeded ''node token budget exceeded''),
        guard (0 < b_ToolCalls b \<and> b_ToolCalls b < wrap64 (nodeTools + tools)) (Wrapf ErrBudgetExceeded ''node tool budget exceeded''),
        guard (0 < b_CostCents b \<and> b_CostCents b < wrap64 (nodeCost + cost)) (Wrapf ErrBudgetExceeded ''node cost budget exceeded''),
        guard (0 < b_Duration b \<and> opt_any (\<lambda>t. b_Duration b < time_Sub now t) (a_StartedAt a))
          (Wrapf ErrBudgetExceeded ''node duration budget exceeded'')])"

definition leaseChecks :: "TransitionInput \<Rightarrow> NodeAttempt \<Rightarrow> int \<Rightarrow> go_error option" where
  "leaseChecks inp a now =
     first_err
       [guard (a_Status a \<noteq> AttemptRunning \<and> a_Status a \<noteq> AttemptWaiting) ErrInvalidTransition,
        guard (in_LeaseToken inp \<noteq> 0 \<and> l_FencingToken (a_Lease a) \<noteq> in_LeaseToken inp) ErrLeaseLost,
        guard (a_Status a \<noteq> AttemptWaiting \<and> a_Status a = AttemptRunning \<and> \<not> IsZero (l_ExpiresAt (a_Lease a)) \<and>
            \<not> now < l_ExpiresAt (a_Lease a) \<and> in_Event inp \<noteq> ''timeout'')
          ErrLeaseLost]"

text \<open>
  The repair plan of a passed repair node: the first live plan of the same node is reused, its
  state, round, history and lineage kept; otherwise the new plan is stored.
\<close>

definition reusableRepair :: "NodeAttempt \<Rightarrow> string \<times> RepairPlan \<Rightarrow> bool" where
  "reusableRepair a kr \<longleftrightarrow> \<not> (rpl_RepairNodeID (snd kr) \<noteq> a_NodeID a \<or> rpl_State (snd kr) = RepairVerified \<or>
     rpl_State (snd kr) = RepairExhausted)"

definition storeRepair :: "RepairPlan \<Rightarrow> NodeAttempt \<Rightarrow> PlanProjection \<Rightarrow> PlanProjection \<times> NodeAttempt" where
  "storeRepair repair a p =
     (case find (reusableRepair a) (p_RepairPlans p) of
        Some (i, old) \<Rightarrow>
          (let repair' = repair\<lparr>rpl_ID := i, rpl_Round := rpl_Round old, rpl_State := rpl_State old,
                 rpl_StateHistory := (if rpl_StateHistory old = [] then [rpl_State old] else rpl_StateHistory old),
                 rpl_RepairAttemptIDs := appendUnique (rpl_RepairAttemptIDs old) [a_ID a]\<rparr>;
               p' = p\<lparr>p_RepairPlans := mput i repair' (p_RepairPlans p)\<rparr>
           in if i = '''' then (p'\<lparr>p_RepairPlans := mput '''' repair' (p_RepairPlans p')\<rparr>, a\<lparr>a_RepairPlanID := ''''\<rparr>)
              else (p', a\<lparr>a_RepairPlanID := i\<rparr>))
      | None \<Rightarrow>
          if a_RepairPlanID a = '''' then
            (p\<lparr>p_RepairPlans := mput (rpl_ID repair) repair (p_RepairPlans p)\<rparr>, a\<lparr>a_RepairPlanID := rpl_ID repair\<rparr>)
          else (p, a))"

definition finishRepair ::
  "RequirementExecutionPlan \<Rightarrow> WorkflowNode \<Rightarrow> NodeAttempt \<Rightarrow> PlanProjection \<Rightarrow> PlanProjection \<times> (go_error + NodeAttempt)" where
  "finishRepair plan def a p =
     (if n_Kind def = NodeRepair then
        (if a_Status a = AttemptPassed then
           (let target = (if blank (rep_TargetNodeID (n_RepairPolicy def))
                  then resolveRepairTarget (pl_GraphSnapshot plan) def
                  else TrimSpace (rep_TargetNodeID (n_RepairPolicy def))) in
            if target = '''' \<or> repairVerificationNodes a = [] then
              (p, Inl (invalidTransition ''repair target and verification contract are required'' ''''))
            else
              (let a' = a\<lparr>a_RepairState := RepairPlanned\<rparr> in
               case createRepairPlan p plan a' of
                 Inl e \<Rightarrow> (p, Inl e)
               | Inr repair \<Rightarrow> (case storeRepair repair a' p of (p', a'') \<Rightarrow> (p', Inr a''))))
         else if a_Status a = AttemptFailed \<or> a_Status a = AttemptTimedOut then
           (p, Inr (a\<lparr>a_RepairState := RepairExhausted\<rparr>))
         else (p, Inr a))
      else if a_RepairState a \<noteq> RepairUnset then
        (case advanceRepairAttemptState p a of
           (p', Inl e) \<Rightarrow> (p', Inl e)
         | (p', Inr st) \<Rightarrow> (p', Inr (a\<lparr>a_RepairState := st\<rparr>)))
      else (p, Inr a))"

text \<open>The attempt with its repair state among the result fields and its finish time.\<close>

definition sealAttempt :: "int \<Rightarrow> NodeAttempt \<Rightarrow> NodeAttempt" where
  "sealAttempt now a =
     (let a1 = (if a_RepairState a \<noteq> RepairUnset
            then a\<lparr>a_Result := (a_Result a)\<lparr>sr_Fields :=
              mput ''repair_state'' (VString (repairName (a_RepairState a))) (sr_Fields (a_Result a))\<rparr>\<rparr>
            else a)
      in a1\<lparr>a_FinishedAt := (if a_Status a1 \<noteq> AttemptWaiting then Some now else None)\<rparr>)"

text \<open>The joins a failed branch opens at once.\<close>

definition shortCircuit :: "WorkflowGraph \<Rightarrow> NodeAttempt \<Rightarrow> WorkflowNode \<Rightarrow> PlanProjection \<Rightarrow> PlanProjection" where
  "shortCircuit g a candidate p =
     (if n_JoinFailurePolicy candidate \<noteq> ''short_circuit'' then p
      else if list_ex (\<lambda>e. e_From e = a_NodeID a \<and> e_To e = n_ID candidate \<and> edgeSatisfied e a) (g_Edges g) then
        (let join = mget0 zeroNodeProjection (p_Nodes p) (n_ID candidate) in
         if np_Status join \<noteq> AttemptRunning \<and> np_Status join \<noteq> AttemptPassed
         then p\<lparr>p_Nodes := mput (n_ID candidate) (join\<lparr>np_Status := AttemptReady\<rparr>) (p_Nodes p)\<rparr>
         else p)
      else p)"

definition openJoins :: "WorkflowGraph \<Rightarrow> NodeAttempt \<Rightarrow> PlanProjection \<Rightarrow> PlanProjection" where
  "openJoins g a p = (if attemptFailed a then fold (shortCircuit g a) (g_Nodes g) p else p)"

definition recordFinish ::
  "string \<Rightarrow> NodeAttempt \<Rightarrow> NodeProjection \<Rightarrow> int \<times> int \<times> int \<Rightarrow> string \<Rightarrow> string \<Rightarrow> PlanProjection \<Rightarrow>
     PlanProjection" where
  "recordFinish attemptID a n used key hash p =
     (let (tokens, tools, cost) = used in
      p\<lparr>p_Attempts := mput attemptID a (p_Attempts p),
        p_Nodes := mput (a_NodeID a) (n\<lparr>np_Status := a_Status a\<rparr>) (p_Nodes p),
        p_TokenUsage := wrap64 (p_TokenUsage p + tokens), p_ToolCalls := wrap64 (p_ToolCalls p + tools),
        p_CostCents := wrap64 (p_CostCents p + cost),
        p_Idempotency := (if key \<noteq> '''' then mput key hash (p_Idempotency p) else p_Idempotency p)\<rparr>)"

text \<open>What is put back when routing fails: \<open>q\<close> is the projection after the failed route, \<open>p\<close> the one
  before the finish was recorded.\<close>

definition rollbackFinish ::
  "string \<Rightarrow> string \<Rightarrow> string \<Rightarrow> PlanProjection \<Rightarrow> PlanProjection \<Rightarrow> PlanProjection" where
  "rollbackFinish attemptID nodeID key p q =
     q\<lparr>p_Attempts := (case mget (p_Attempts p) attemptID of Some a \<Rightarrow> mput attemptID a (p_Attempts q) | None \<Rightarrow> p_Attempts q),
       p_Nodes := (case mget (p_Nodes p) nodeID of Some n \<Rightarrow> mput nodeID n (p_Nodes q) | None \<Rightarrow> p_Nodes q),
       p_Status := p_Status p, p_Traversals := p_Traversals p,
       p_Decisions := take (length (p_Decisions p)) (p_Decisions q), p_RepairPlans := p_RepairPlans p,
       p_Idempotency := (if key = '''' then p_Idempotency q
         else case mget (p_Idempotency p) key of
           Some h \<Rightarrow> mput key h (p_Idempotency q) | None \<Rightarrow> mdel key (p_Idempotency q))\<rparr>"

definition noteReason :: "NodeAttempt \<Rightarrow> PlanProjection \<Rightarrow> PlanProjection" where
  "noteReason a p =
     (if a_RepairPlanID a \<noteq> '''' then
        (case mget (p_RepairPlans p) (a_RepairPlanID a) of
           Some r \<Rightarrow> p\<lparr>p_RepairPlans := mput (a_RepairPlanID a)
             (r\<lparr>rpl_LastReasonCode := sr_ReasonCode (a_Result a)\<rparr>) (p_RepairPlans p)\<rparr>
         | None \<Rightarrow> p)
      else p)"

definition routable :: "NodeAttempt \<Rightarrow> TransitionInput \<Rightarrow> bool" where
  "routable a inp \<longleftrightarrow>
     a_Status a \<in> set [AttemptPassed, AttemptFailed, AttemptTimedOut, AttemptCancelled] \<or>
     (a_Status a = AttemptWaiting \<and> in_Event inp \<noteq> ''waiting'' \<and> in_Event inp \<noteq> ''approval'')"

text \<open>The writes of \<open>FinishAttempt\<close> after the repair step, with the rollback.\<close>

definition commitFinish ::
  "Ambient \<Rightarrow> RequirementExecutionPlan \<Rightarrow> string \<Rightarrow> NodeAttempt \<Rightarrow> NodeProjection \<Rightarrow> int \<times> int \<times> int \<Rightarrow>
     string \<Rightarrow> string \<Rightarrow> TransitionInput \<Rightarrow> PlanProjection \<Rightarrow> PlanProjection \<times> (go_error + NodeAttempt)" where
  "commitFinish am plan attemptID a n used key hash inp p =
     (let p1 = openJoins (pl_GraphSnapshot plan) a (recordFinish attemptID a n used key hash p) in
      if routable a inp then
        (case route (am_Now am) plan a inp p1 of
           (p2, None) \<Rightarrow> (noteReason a p2, Inr a)
         | (p2, Some e) \<Rightarrow> (rollbackFinish attemptID (a_NodeID a) key p p2, Inl e))
      else (noteReason a p1, Inr a))"

definition applyResult :: "TransitionInput \<Rightarrow> AttemptStatus \<Rightarrow> NodeAttempt \<Rightarrow> NodeAttempt" where
  "applyResult inp st a = a\<lparr>a_Result := in_Result inp,
     a_OutputArtifacts := appendUnique (a_OutputArtifacts a) (in_OutputArtifacts inp),
     a_FailureReason := in_Failure inp, a_Status := st\<rparr>"

text \<open>The values a completion works with.\<close>

definition finishKey :: "TransitionInput \<Rightarrow> string" where
  "finishKey inp = TrimSpace (in_IdempotencyKey inp)"

definition finishHash :: "Ambient \<Rightarrow> TransitionInput \<Rightarrow> string" where
  "finishHash am inp = (if finishKey inp \<noteq> '''' \<and> in_PayloadHash inp = ''''
     then am_PayloadHash am (in_Event inp) (in_Result inp) (in_Failure inp) else in_PayloadHash inp)"

definition finishNow :: "Ambient \<Rightarrow> TransitionInput \<Rightarrow> int" where
  "finishNow am inp = nowOf am (in_Now inp)"

definition FinishAttempt ::
  "Ambient \<Rightarrow> RequirementExecutionPlan \<Rightarrow> string \<Rightarrow> TransitionInput \<Rightarrow> PlanProjection \<Rightarrow>
     PlanProjection \<times> (go_error + NodeAttempt)" where
  "FinishAttempt am plan attemptID inp p =
     (case mget (p_Attempts p) attemptID of
        None \<Rightarrow> (p, Inl ErrStaleAttempt)
      | Some a \<Rightarrow>
      if in_PlanRevision inp \<noteq> 0 \<and> in_PlanRevision inp \<noteq> p_Revision p then (p, Inl ErrStaleAttempt)
      else case mget (p_Nodes p) (a_NodeID a) of
        None \<Rightarrow> (p, Inl ErrStaleAttempt)
      | Some n \<Rightarrow>
      if np_CurrentAttempt n \<noteq> attemptID then (p, Inl ErrStaleAttempt)
      else
        (let key = finishKey inp; hash = finishHash am inp;
             now = finishNow am inp; inp' = inp\<lparr>in_Now := now\<rparr>;
             used = resultUsage (in_Result inp);
             def = find_node (g_Nodes (pl_GraphSnapshot plan)) (a_NodeID a)
         in case finishReplay inp key hash a p of
           Some r \<Rightarrow> (p, r)
         | None \<Rightarrow>
         case first_err [leaseChecks inp a now, evidenceChecks inp, planBudgetChecks plan used p,
             nodeBudgetChecks def used a now p] of
           Some e \<Rightarrow> (p, Inl e)
         | None \<Rightarrow>
         case finishStatus (in_Event inp) of
           None \<Rightarrow> (p, Inl (invalidTransition ''unsupported event '' (in_Event inp)))
         | Some st \<Rightarrow>
         case finishRepair plan def (applyResult inp st a) p of
           (p1, Inl e) \<Rightarrow> (p1, Inl e)
         | (p1, Inr a1) \<Rightarrow> commitFinish am plan attemptID (sealAttempt now a1) n used key hash inp' p1))"

section \<open>Properties of starting an attempt\<close>

text \<open>The ambient values of the witnesses, and the first attempt of the example plan.\<close>

definition exAmbient :: Ambient where
  "exAmbient = \<lparr>am_Now = 100, am_ValidateContext = (\<lambda>_. None), am_PayloadHash = (\<lambda>_ _ _. ''x'')\<rparr>"

definition exStartInput :: TransitionInput where
  "exStartInput = (exInput '''' zeroResult None)\<lparr>in_IdempotencyKey := ''start1''\<rparr>"

definition exFresh :: PlanProjection where
  "exFresh = projr (NewProjection exPlan)"

definition exStart :: "string \<Rightarrow> PlanProjection \<times> (go_error + NodeAttempt)" where
  "exStart node = StartAttempt exAmbient exPlan node ''a1'' 0 exLease exEnvelope exStartInput exFresh"

lemma exStart_ok:
  "StartAttempt exAmbient exPlan ''impl'' ''a1'' 0 exLease exEnvelope exStartInput exFresh =
     (fst (exStart ''impl''), Inr (projr (snd (exStart ''impl''))))"
proof -
  have "\<not> isl (snd (exStart ''impl''))" by code_simp
  then show ?thesis using ok_result [of "exStart ''impl''"] by (simp add: exStart_def)
qed

lemma dispatch_loop_found:
  "dispatch_loop p g x ids = (i, st) \<Longrightarrow> i \<noteq> '''' \<Longrightarrow>
     i \<in> set ids \<and> dispatchState p g x (mget0 zeroRepairPlan (p_RepairPlans p) i) = Some st"
  by (induction ids) (auto split: option.splits)

lemma repairPlanForDispatch_found:
  assumes "repairPlanForDispatch p g x = (i, st)" and "i \<noteq> ''''"
  shows "\<exists>r. mget (p_RepairPlans p) i = Some r \<and> dispatchState p g x r = Some st"
proof -
  have "i \<in> set (mkeys (p_RepairPlans p))"
    and d: "dispatchState p g x (mget0 zeroRepairPlan (p_RepairPlans p) i) = Some st"
    using dispatch_loop_found [OF assms(1) [unfolded repairPlanForDispatch_def] assms(2)] by auto
  then obtain r where "mget (p_RepairPlans p) i = Some r" using mkeys_mget [of i "p_RepairPlans p"] by auto
  then show ?thesis using d by (simp add: mget0_def)
qed

lemma dispatchState_Some:
  "dispatchState p g x r = Some st \<Longrightarrow>
     st = RepairDispatched \<and> rpl_TargetNodeID r = x \<and> rpl_State r \<in> {RepairPlanned, RepairDispatched} \<or>
     st = RepairVerifying \<and> x \<in> set (rpl_VerificationNodeIDs r) \<and> rpl_State r \<in> {RepairPatched, RepairVerifying}"
  by (auto simp: dispatchState_def Let_def contains_def split: if_splits)

text \<open>The lifecycle allows every step the dispatch rule chooses, so the rollback in \<open>StartAttempt\<close> is
  never taken.\<close>

lemma linkRepair_defined:
  assumes "a = newAttempt plan x aid no lease c inp now n p" and "a_RepairPlanID a \<noteq> ''''"
  shows "\<exists>r linked. mget (p_RepairPlans p) (a_RepairPlanID a) = Some r \<and> linkRepair a r = Some linked"
proof -
  obtain i st where d: "repairPlanForDispatch p (pl_GraphSnapshot plan) x = (i, st)" by fastforce
  with assms have i: "i \<noteq> ''''" "a_RepairPlanID a = i" by (auto simp: newAttempt_def split: if_splits)
  obtain r where r: "mget (p_RepairPlans p) i = Some r" "dispatchState p (pl_GraphSnapshot plan) x r = Some st"
    using repairPlanForDispatch_found [OF d i(1)] by blast
  have st: "a_RepairState a = RepairPlanned \<or> a_RepairState a = st"
    using assms(1) d i by (simp add: newAttempt_def)
  have "\<exists>linked. linkRepair a r = Some linked"
  proof (cases "a_RepairState a = st")
    case True
    have s: "rpl_State r \<noteq> RepairUnset" using dispatchState_Some [OF r(2)] by auto
    show ?thesis
      using dispatchState_Some [OF r(2)] True s
        setRepairState_defined [of "r\<lparr>rpl_TargetAttemptID := a_ID a\<rparr>" RepairDispatched]
        setRepairState_defined [of "r\<lparr>rpl_VerificationAttempts := mput (a_NodeID a) (a_ID a) (rpl_VerificationAttempts r)\<rparr>"
          RepairVerifying]
      by (auto simp: linkRepair_def repairLifecycleTransitionAllowed_def)
  next
    case False
    then show ?thesis using st by (simp add: linkRepair_def)
  qed
  then show ?thesis using r i by auto
qed

text \<open>The state a successful start leaves.\<close>

definition startedState ::
  "NodeAttempt \<Rightarrow> NodeProjection \<Rightarrow> TransitionInput \<Rightarrow> PlanProjection \<Rightarrow> PlanProjection" where
  "startedState a n inp p =
     (let p2 = (withKey inp p)\<lparr>p_Attempts := mput (a_ID a) a (p_Attempts p)\<rparr> in
      beginNode a n
       (if a_RepairPlanID a = '''' then p2
        else p2\<lparr>p_RepairPlans := mput (a_RepairPlanID a)
          ((the (linkRepair a (the (mget (p_RepairPlans p) (a_RepairPlanID a)))))\<lparr>rpl_LastReasonCode := repairName (a_RepairState a)\<rparr>)
          (p_RepairPlans p)\<rparr>))"

lemma withKey_fields [simp]:
  "p_PlanID (withKey inp p) = p_PlanID p" "p_Revision (withKey inp p) = p_Revision p"
  "p_Attempts (withKey inp p) = p_Attempts p" "p_RepairPlans (withKey inp p) = p_RepairPlans p"
  "p_Nodes (withKey inp p) = p_Nodes p" "p_Status (withKey inp p) = p_Status p"
  "p_TerminalOutcome (withKey inp p) = p_TerminalOutcome p" "p_Traversals (withKey inp p) = p_Traversals p"
  "p_Decisions (withKey inp p) = p_Decisions p" "p_TokenUsage (withKey inp p) = p_TokenUsage p"
  "p_ToolCalls (withKey inp p) = p_ToolCalls p" "p_CostCents (withKey inp p) = p_CostCents p"
  by (simp_all add: withKey_def)

lemma commitStart_eq:
  assumes "a = newAttempt plan x aid no lease c inp now n p"
  shows "commitStart a n inp p = (startedState a n inp p, Inr a)"
proof (cases "a_RepairPlanID a = ''''")
  case True
  then show ?thesis by (simp add: commitStart_def startedState_def Let_def)
next
  case False
  from linkRepair_defined [OF assms False] obtain r linked
    where "mget (p_RepairPlans p) (a_RepairPlanID a) = Some r" "linkRepair a r = Some linked" by blast
  then show ?thesis using False by (simp add: commitStart_def startedState_def Let_def mget0_def)
qed

text \<open>The two ways a start succeeds: the attempt of a replayed key, or a new attempt.\<close>

definition start_conditions ::
  "Ambient \<Rightarrow> RequirementExecutionPlan \<Rightarrow> string \<Rightarrow> string \<Rightarrow> int \<Rightarrow> Lease \<Rightarrow> ContextEnvelope \<Rightarrow> TransitionInput \<Rightarrow>
     PlanProjection \<Rightarrow> NodeProjection \<Rightarrow> bool" where
  "start_conditions am plan nodeID attemptID no lease c inp p n \<longleftrightarrow>
     startPlanChecks am plan c inp p = None \<and> mget (p_Nodes p) nodeID = Some n \<and>
     startNodeChecks plan nodeID attemptID n c (nowOf am (in_Now inp)) p = None \<and>
     mget (p_Attempts p) attemptID = None \<and>
     startLeaseChecks plan nodeID no lease inp (nowOf am (in_Now inp)) p = None"

lemma startOnNode_cases:
  assumes "startOnNode plan nodeID attemptID attemptNo lease c inp now n p = (p', res)"
  obtains (error) e where "res = Inl e" "p' = p"
  | (replay) a where "res = Inr a" "p' = p" "a \<in> set (mvals (p_Attempts p))" "a_IdempotencyKey a = in_IdempotencyKey inp"
      "in_IdempotencyKey inp \<noteq> ''''"
  | (fresh) a no where "no = (if attemptNo < 1 then wrap64 (np_AttemptNo n + 1) else attemptNo)"
      "a = newAttempt plan nodeID attemptID no lease c inp now n p" "res = Inr a"
      "p' = startedState a n inp p" "startNodeChecks plan nodeID attemptID n c now p = None"
      "mget (p_Attempts p) attemptID = None" "startLeaseChecks plan nodeID no lease inp now p = None"
proof (cases "startNodeChecks plan nodeID attemptID n c now p")
  case (Some e)
  then show ?thesis using assms error by (auto simp: startOnNode_def)
next
  case ok: None
  let ?no = "if attemptNo < 1 then wrap64 (np_AttemptNo n + 1) else attemptNo"
  show ?thesis
  proof (cases "mget (p_Attempts p) attemptID")
    case None
    show ?thesis
    proof (cases "startLeaseChecks plan nodeID ?no lease inp now p")
      case None': None
      then show ?thesis
        using assms ok None fresh [OF refl refl] commitStart_eq [OF refl, of plan nodeID attemptID ?no lease c inp now n p]
        by (auto simp: startOnNode_def Let_def)
    next
      case (Some e)
      then show ?thesis using assms ok None error by (auto simp: startOnNode_def Let_def)
    qed
  next
    case (Some old)
    then have "old \<in> set (mvals (p_Attempts p))" by (rule mget_in_vals)
    then show ?thesis using assms ok Some error replay by (auto simp: startOnNode_def split: if_splits)
  qed
qed

lemma startReplay_Inr:
  assumes "startReplay inp p = Some (Inr a)"
  shows "a \<in> set (mvals (p_Attempts p)) \<and> a_IdempotencyKey a = in_IdempotencyKey inp \<and> in_IdempotencyKey inp \<noteq> ''''"
proof -
  from assms have "find (\<lambda>a. a_IdempotencyKey a = in_IdempotencyKey inp) (mvals (p_Attempts p)) = Some a"
    and "in_IdempotencyKey inp \<noteq> ''''"
    by (auto simp: startReplay_def split: if_splits option.splits)
  then show ?thesis using nth_mem by (fastforce simp: find_Some_iff)
qed

lemma StartAttempt_cases:
  assumes "StartAttempt am plan nodeID attemptID attemptNo lease c inp p = (p', res)"
  obtains (error) e where "res = Inl e" "p' = p"
  | (replay) a where "res = Inr a" "p' = p" "a \<in> set (mvals (p_Attempts p))" "a_IdempotencyKey a = in_IdempotencyKey inp"
      "in_IdempotencyKey inp \<noteq> ''''"
  | (fresh) a n no where "no = (if attemptNo < 1 then wrap64 (np_AttemptNo n + 1) else attemptNo)"
      "a = newAttempt plan nodeID attemptID no lease c inp (nowOf am (in_Now inp)) n p" "res = Inr a"
      "p' = startedState a n inp p" "start_conditions am plan nodeID attemptID no lease c inp p n"
proof (cases "startPlanChecks am plan c inp p")
  case (Some e)
  then show ?thesis using assms error by (auto simp: StartAttempt_def)
next
  case plan: None
  show ?thesis
  proof (cases "startReplay inp p")
    case (Some r)
    then have eq: "p' = p" "res = r" using assms plan by (auto simp: StartAttempt_def)
    then show ?thesis using Some error replay startReplay_Inr by (cases r) auto
  next
    case rep: None
    show ?thesis
    proof (cases "mget (p_Nodes p) nodeID")
      case None
      then show ?thesis using assms plan rep error by (auto simp: StartAttempt_def)
    next
      case (Some n)
      then have "startOnNode plan nodeID attemptID attemptNo lease c inp (nowOf am (in_Now inp)) n p = (p', res)"
        using assms plan rep by (simp add: StartAttempt_def)
      then show ?thesis
      proof (cases rule: startOnNode_cases)
        case (error e)
        then show ?thesis using that(1) by blast
      next
        case (replay a)
        then show ?thesis using that(2) by blast
      next
        case (fresh a no)
        moreover from this have "start_conditions am plan nodeID attemptID no lease c inp p n"
          using plan Some by (simp add: start_conditions_def)
        ultimately show ?thesis using that(3) by blast
      qed
    qed
  qed
qed

lemma mput_fresh: "mget m k = None \<Longrightarrow> mput k v m = m @ [(k, v)]"
  by (induction m) (auto split: if_splits)

lemma beginNode_fields [simp]:
  "p_PlanID (beginNode a n p) = p_PlanID p" "p_Revision (beginNode a n p) = p_Revision p"
  "p_Attempts (beginNode a n p) = p_Attempts p" "p_RepairPlans (beginNode a n p) = p_RepairPlans p"
  "p_Status (beginNode a n p) = PlanRunning" "p_Traversals (beginNode a n p) = p_Traversals p"
  "p_Decisions (beginNode a n p) = p_Decisions p" "p_Idempotency (beginNode a n p) = p_Idempotency p"
  "p_TokenUsage (beginNode a n p) = wrap64 (p_TokenUsage p + tokenEstimate a)"
  "p_ToolCalls (beginNode a n p) = p_ToolCalls p" "p_CostCents (beginNode a n p) = p_CostCents p"
  by (simp_all add: beginNode_def)

lemma startedState_fields [simp]:
  "p_PlanID (startedState a n inp p) = p_PlanID p" "p_Revision (startedState a n inp p) = p_Revision p"
  "p_Attempts (startedState a n inp p) = mput (a_ID a) a (p_Attempts p)"
  "p_Status (startedState a n inp p) = PlanRunning" "p_Traversals (startedState a n inp p) = p_Traversals p"
  "p_Decisions (startedState a n inp p) = p_Decisions p"
  "p_TokenUsage (startedState a n inp p) = wrap64 (p_TokenUsage p + tokenEstimate a)"
  "p_ToolCalls (startedState a n inp p) = p_ToolCalls p" "p_CostCents (startedState a n inp p) = p_CostCents p"
  by (simp_all add: startedState_def Let_def)

lemma startedState_Nodes:
  "p_Nodes (startedState a n inp p) = mput (a_NodeID a) (n\<lparr>np_Status := AttemptRunning, np_CurrentAttempt := a_ID a,
     np_AttemptNo := a_AttemptNo a, np_RetryAt := None, np_ReadyEdgeIDs := []\<rparr>) (p_Nodes p)"
  by (simp add: startedState_def Let_def beginNode_def)

lemma newAttempt_fields [simp]:
  "a_ID (newAttempt plan x aid no lease c inp now n p) = aid"
  "a_PlanID (newAttempt plan x aid no lease c inp now n p) = pl_ID plan"
  "a_NodeID (newAttempt plan x aid no lease c inp now n p) = x"
  "a_AttemptNo (newAttempt plan x aid no lease c inp now n p) = no"
  "a_Lease (newAttempt plan x aid no lease c inp now n p) = lease"
  "a_Status (newAttempt plan x aid no lease c inp now n p) = AttemptRunning"
  "a_StartedAt (newAttempt plan x aid no lease c inp now n p) = Some now"
  "a_InputManifest (newAttempt plan x aid no lease c inp now n p) = c"
  "a_IdempotencyKey (newAttempt plan x aid no lease c inp now n p) = in_IdempotencyKey inp"
  "a_ParentAttemptID (newAttempt plan x aid no lease c inp now n p) = np_CurrentAttempt n"
  by (simp_all add: newAttempt_def split: prod.splits)

text \<open>
  A start that reports an error leaves the projection exactly as it was; in particular the
  code's roll-back of a refused repair transition is never needed.
\<close>

theorem StartAttempt_error_unchanged:
  assumes "StartAttempt am plan nodeID attemptID attemptNo lease c inp p = (p', Inl e)"
  shows "p' = p"
  using assms by (cases rule: StartAttempt_cases) auto

theorem StartAttempt_error_unchanged_witness:
  "fst (exStart ''qa'') = exFresh \<and> snd (exStart ''qa'') = Inl (Errorf ''node %s is not ready'' [ArgS ''qa''])"
proof -
  have e: "snd (exStart ''qa'') = Inl (Errorf ''node %s is not ready'' [ArgS ''qa''])" by code_simp
  then have "exStart ''qa'' = (fst (exStart ''qa''), Inl (Errorf ''node %s is not ready'' [ArgS ''qa'']))"
    by (metis prod.collapse)
  then show ?thesis using e StartAttempt_error_unchanged unfolding exStart_def by blast
qed

text \<open>
  A start that succeeds either replays the attempt already started under the same idempotency key,
  without a change, or reserves a new attempt: its ID and its number on the node are new, every
  other attempt is untouched, the node runs it, and the plan stays within its concurrency limit,
  its token budget and its deadline and under an unexpired lease.
\<close>

theorem StartAttempt_reserves:
  assumes "StartAttempt am plan nodeID attemptID attemptNo lease c inp p = (p', Inr a)"
  shows "(p' = p \<and> a \<in> set (mvals (p_Attempts p)) \<and> a_IdempotencyKey a = in_IdempotencyKey inp \<and>
        in_IdempotencyKey inp \<noteq> '''') \<or>
     (mget (p_Attempts p) attemptID = None \<and> p_Attempts p' = p_Attempts p @ [(attemptID, a)] \<and>
      a_ID a = attemptID \<and> a_NodeID a = nodeID \<and> a_PlanID a = p_PlanID p \<and> a_Status a = AttemptRunning \<and>
      (\<forall>b\<in>set (mvals (p_Attempts p)). a_PlanID b = p_PlanID p \<longrightarrow> a_NodeID b = nodeID \<longrightarrow> a_AttemptNo b \<noteq> a_AttemptNo a) \<and>
      (\<exists>n. mget (p_Nodes p') nodeID = Some n \<and> np_Status n = AttemptRunning \<and> np_CurrentAttempt n = attemptID) \<and>
      (\<forall>k. k \<noteq> nodeID \<longrightarrow> mget (p_Nodes p') k = mget (p_Nodes p) k) \<and>
      (0 < b_Concurrent (ps_Budget (pl_PolicySnapshot plan)) \<longrightarrow>
         runningCount p' \<le> b_Concurrent (ps_Budget (pl_PolicySnapshot plan))) \<and>
      (0 < b_Tokens (ps_Budget (pl_PolicySnapshot plan)) \<longrightarrow>
         p_TokenUsage p' \<le> b_Tokens (ps_Budget (pl_PolicySnapshot plan))) \<and>
      (pl_Deadline plan \<noteq> 0 \<longrightarrow> nowOf am (in_Now inp) < pl_Deadline plan) \<and>
      (l_ExpiresAt lease \<noteq> 0 \<longrightarrow> nowOf am (in_Now inp) < l_ExpiresAt lease))"
  using assms
proof (cases rule: StartAttempt_cases)
  case (error e)
  then show ?thesis by simp
next
  case (replay b)
  then show ?thesis by simp
next
  case (fresh b n no)
  then have ab: "a = b" by simp
  from fresh(5) have new: "mget (p_Attempts p) attemptID = None"
    and plan: "startPlanChecks am plan c inp p = None"
    and lease: "startLeaseChecks plan nodeID no lease inp (nowOf am (in_Now inp)) p = None"
    by (auto simp: start_conditions_def)
  have att: "p_Attempts p' = p_Attempts p @ [(attemptID, a)]"
    using fresh ab new by (simp add: mput_fresh)
  have run: "runningCount p' = runningCount p + 1" using att fresh ab by (simp add: runningCount_def)
  have pc: "p_PlanID p = pl_ID plan"
    "0 < b_Concurrent (ps_Budget (pl_PolicySnapshot plan)) \<longrightarrow> runningCount p < b_Concurrent (ps_Budget (pl_PolicySnapshot plan))"
    "0 < b_Tokens (ps_Budget (pl_PolicySnapshot plan)) \<longrightarrow>
       wrap64 (p_TokenUsage p + cm_TokenEstimate (ce_Manifest c)) \<le> b_Tokens (ps_Budget (pl_PolicySnapshot plan))"
    "pl_Deadline plan \<noteq> 0 \<longrightarrow> nowOf am (in_Now inp) < pl_Deadline plan"
    using plan by (auto simp: startPlanChecks_def Let_def check_simps not_less)
  have lc: "\<forall>b\<in>set (mvals (p_Attempts p)). a_PlanID b = pl_ID plan \<longrightarrow> a_NodeID b = nodeID \<longrightarrow> a_AttemptNo b \<noteq> no"
    "l_ExpiresAt lease \<noteq> 0 \<longrightarrow> nowOf am (in_Now inp) < l_ExpiresAt lease"
    using lease by (auto simp: startLeaseChecks_def check_simps list_ex_iff)
  have use: "p_TokenUsage p' = wrap64 (p_TokenUsage p + cm_TokenEstimate (ce_Manifest c))"
    using fresh by (simp add: tokenEstimate_def)
  have node: "\<exists>m. mget (p_Nodes p') nodeID = Some m \<and> np_Status m = AttemptRunning \<and> np_CurrentAttempt m = attemptID"
    and others: "\<forall>k. k \<noteq> nodeID \<longrightarrow> mget (p_Nodes p') k = mget (p_Nodes p) k"
    using fresh by (simp_all add: startedState_Nodes)
  show ?thesis
    using new att run pc lc use node others fresh ab by (intro disjI2 conjI) auto
qed

theorem StartAttempt_reserves_witness:
  "mget (p_Attempts exFresh) ''a1'' = None \<and>
   p_Attempts (fst (exStart ''impl'')) = p_Attempts exFresh @ [(''a1'', projr (snd (exStart ''impl'')))] \<and>
   runningCount (fst (exStart ''impl'')) \<le> 2 \<and> p_TokenUsage (fst (exStart ''impl'')) \<le> 1000"
proof -
  have "fst (exStart ''impl'') \<noteq> exFresh" by code_simp
  moreover have "0 < b_Concurrent (ps_Budget (pl_PolicySnapshot exPlan))" "0 < b_Tokens (ps_Budget (pl_PolicySnapshot exPlan))"
    "b_Concurrent (ps_Budget (pl_PolicySnapshot exPlan)) = 2" "b_Tokens (ps_Budget (pl_PolicySnapshot exPlan)) = 1000"
    by code_simp+
  ultimately show ?thesis using StartAttempt_reserves [OF exStart_ok] by auto
qed

text \<open>What the checks say of the attempts survives new attempts.\<close>

definition extends :: "(string, NodeAttempt) gomap \<Rightarrow> (string, NodeAttempt) gomap \<Rightarrow> bool" where
  "extends as as' \<longleftrightarrow> (\<forall>k a. mget as k = Some a \<longrightarrow> mget as' k = Some a)"

lemma extends_put: "mget as k = None \<Longrightarrow> extends as (mput k a as)"
  by (simp add: extends_def)

lemma repair_ok_head_extends: "extends as as' \<Longrightarrow> repair_ok_head as pid i r \<Longrightarrow> repair_ok_head as' pid i r"
  unfolding extends_def repair_ok_head_def by blast

lemma repair_ok_target_extends: "extends as as' \<Longrightarrow> repair_ok_target as r \<Longrightarrow> repair_ok_target as' r"
  unfolding extends_def repair_ok_target_def by blast

lemma repair_ok_verification_extends:
  "extends as as' \<Longrightarrow> repair_ok_verification as r \<Longrightarrow> repair_ok_verification as' r"
  unfolding extends_def repair_ok_verification_def mall_def by (fastforce split: prod.splits)

lemma node_projection_ok_extends: "extends as as' \<Longrightarrow> node_projection_ok as i n \<Longrightarrow> node_projection_ok as' i n"
  unfolding extends_def node_projection_ok_def by blast

lemma repair_ok_head_update:
  "repair_ok_head as pid i (r\<lparr>rpl_TargetAttemptID := x\<rparr>) = repair_ok_head as pid i r"
  "repair_ok_head as pid i (r\<lparr>rpl_VerificationAttempts := va\<rparr>) = repair_ok_head as pid i r"
  "repair_ok_head as pid i (r\<lparr>rpl_LastReasonCode := x\<rparr>) = repair_ok_head as pid i r"
  by (simp_all add: repair_ok_head_def repair_machine.recorded_def)

lemma repair_ok_reason [simp]:
  "repair_ok_target as (r\<lparr>rpl_LastReasonCode := x\<rparr>) = repair_ok_target as r"
  "repair_ok_verification as (r\<lparr>rpl_LastReasonCode := x\<rparr>) = repair_ok_verification as r"
  by (simp_all add: repair_ok_target_def repair_ok_verification_def)

lemma repair_ok_head_state:
  assumes "repair_ok_head as pid i r" and "setRepairState r q = Some r'"
  shows "repair_ok_head as pid i r' \<and>
    r' = r\<lparr>rpl_State := q, rpl_StateHistory := (if rpl_State r = q then rpl_StateHistory r else rpl_StateHistory r @ [q])\<rparr>"
proof -
  from assms(1) have h: "rpl_StateHistory r \<noteq> []" "last (rpl_StateHistory r) = rpl_State r"
    "rpl_State r \<noteq> RepairUnset" and rec: "repair_machine.recorded r"
    by (auto simp: repair_ok_head_def repair_machine.recorded_def)
  note r' = setRepairState_Some [OF h assms(2)]
  have "repairMove r q = Some r'" using h assms(2) by (simp add: repairMove_def)
  with rec have "repair_machine.recorded r'" by (rule repair_machine.recorded_move)
  moreover have "validRepairLifecycle q" using assms(2) by (auto simp: setRepairState_def split: if_splits)
  ultimately show ?thesis using assms(1) r' by (auto simp: repair_ok_head_def)
qed

text \<open>The repair plan a started attempt is linked to stays valid.\<close>

lemma linked_valid:
  assumes d: "dispatchState p g x r = Some st" and "a_RepairState a = st \<or> a_RepairState a = RepairPlanned"
    and a: "a_NodeID a = x" "a_Status a = AttemptRunning" "\<not> blank (a_ID a)"
    and new: "mget (p_Attempts p) (a_ID a) = None"
    and ok: "repair_ok_head (p_Attempts p) pid i r" "repair_ok_target (p_Attempts p) r" "repair_ok_verification (p_Attempts p) r"
    and patched: "rpl_State r = RepairPatched \<longrightarrow> rpl_VerificationAttempts r = []"
    and l: "linkRepair a r = Some r'"
  shows "repair_ok_head (mput (a_ID a) a (p_Attempts p)) pid i r' \<and>
     repair_ok_target (mput (a_ID a) a (p_Attempts p)) r' \<and> repair_ok_verification (mput (a_ID a) a (p_Attempts p)) r'"
proof -
  let ?as = "mput (a_ID a) a (p_Attempts p)"
  note ext = extends_put [OF new, of a]
  note ok' = repair_ok_head_extends [OF ext ok(1)] repair_ok_target_extends [OF ext ok(2)]
    repair_ok_verification_extends [OF ext ok(3)]
  consider (planned) "a_RepairState a = RepairPlanned"
    | (target) "a_RepairState a = RepairDispatched" "rpl_TargetNodeID r = x"
    | (verify) "a_RepairState a = RepairVerifying" "x \<in> set (rpl_VerificationNodeIDs r)"
        "rpl_State r \<in> {RepairPatched, RepairVerifying}"
    using dispatchState_Some [OF d] assms(2) by auto
  then show ?thesis
  proof cases
    case planned
    then show ?thesis using l ok' by (simp add: linkRepair_def)
  next
    case target
    then have "setRepairState (r\<lparr>rpl_TargetAttemptID := a_ID a\<rparr>) RepairDispatched = Some r'"
      using l by (simp add: linkRepair_def)
    from repair_ok_head_state [OF _ this, of ?as pid i] ok'(1)
    have "repair_ok_head ?as pid i r'" "rpl_State r' = RepairDispatched" "rpl_TargetAttemptID r' = a_ID a"
      "rpl_TargetNodeID r' = x" using target by (auto simp: repair_ok_head_update)
    moreover have "a_ID a \<noteq> ''''" using a(3) by auto
    ultimately show ?thesis using a by (simp add: repair_ok_target_def repair_ok_verification_def)
  next
    case verify
    let ?r = "r\<lparr>rpl_VerificationAttempts := mput x (a_ID a) (rpl_VerificationAttempts r)\<rparr>"
    have "setRepairState ?r RepairVerifying = Some r'"
      using l verify a by (simp add: linkRepair_def)
    from repair_ok_head_state [OF _ this, of ?as pid i] ok'(1)
    have hd: "repair_ok_head ?as pid i r'" and r': "rpl_State r' = RepairVerifying"
      "rpl_TargetAttemptID r' = rpl_TargetAttemptID r" "rpl_TargetNodeID r' = rpl_TargetNodeID r"
      "rpl_VerificationNodeIDs r' = rpl_VerificationNodeIDs r"
      "rpl_VerificationAttempts r' = mput x (a_ID a) (rpl_VerificationAttempts r)"
      by (auto simp: repair_ok_head_update)
    have tgt: "repair_ok_target ?as r'" using ok'(2) verify r' by (auto simp: repair_ok_target_def)
    let ?P = "\<lambda>v aid. v \<in> set (rpl_VerificationNodeIDs r) \<and> \<not> blank aid \<and>
      (\<exists>b. mget ?as aid = Some b \<and> a_NodeID b = v \<and> a_Status b \<in> {AttemptRunning, AttemptPassed})"
    have "mall ?P (rpl_VerificationAttempts r)"
    proof (cases "rpl_VerificationAttempts r = []")
      case False
      then have v: "rpl_State r = RepairVerifying" using verify(3) patched by auto
      then show ?thesis using ok'(3) unfolding repair_ok_verification_def by (simp del: mget_mput)
    qed simp
    then have "mall ?P (mput x (a_ID a) (rpl_VerificationAttempts r))"
      using verify(2) a by (intro mall_mput) auto
    moreover have "mput x (a_ID a) (rpl_VerificationAttempts r) \<noteq> []" by (cases "rpl_VerificationAttempts r") auto
    ultimately have "repair_ok_verification ?as r'" using r' by (simp add: repair_ok_verification_def)
    then show ?thesis using hd tgt by simp
  qed
qed

lemma newAttempt_link:
  assumes "a = newAttempt plan x aid no lease c inp now n p" and "a_RepairPlanID a \<noteq> ''''"
  shows "\<exists>r st r'. mget (p_RepairPlans p) (a_RepairPlanID a) = Some r \<and>
    dispatchState p (pl_GraphSnapshot plan) x r = Some st \<and>
    (a_RepairState a = st \<or> a_RepairState a = RepairPlanned) \<and> linkRepair a r = Some r'"
proof -
  obtain i st where d: "repairPlanForDispatch p (pl_GraphSnapshot plan) x = (i, st)" by fastforce
  with assms have i: "i \<noteq> ''''" "a_RepairPlanID a = i" "a_RepairState a = st \<or> a_RepairState a = RepairPlanned"
    by (auto simp: newAttempt_def split: if_splits)
  from repairPlanForDispatch_found [OF d i(1)] linkRepair_defined [OF assms] i(2,3) show ?thesis by auto
qed

lemma newAttempt_repair_state:
  assumes "a = newAttempt plan x aid no lease c inp now n p"
  shows "a_RepairState a = RepairUnset \<or> validRepairLifecycle (a_RepairState a)"
proof -
  obtain i st where d: "repairPlanForDispatch p (pl_GraphSnapshot plan) x = (i, st)" by fastforce
  have "i \<noteq> '''' \<Longrightarrow> validRepairLifecycle st"
    using repairPlanForDispatch_found [OF d] dispatchState_Some by fastforce
  then show ?thesis using d unfolding assms by (simp add: newAttempt_def repairLifecycleAtStart_def)
qed

lemma startedState_repairs_valid:
  assumes "projection_ok p" and "mwf (p_RepairPlans p)" and "mget (p_Attempts p) aid = None" and "\<not> blank aid"
    and patched: "mall (\<lambda>_ r. rpl_State r = RepairPatched \<longrightarrow> rpl_VerificationAttempts r = []) (p_RepairPlans p)"
    and a: "a = newAttempt plan x aid no lease c inp now n p"
  shows "mall (\<lambda>i r. repair_ok_head (mput aid a (p_Attempts p)) (p_PlanID p) i r \<and>
      repair_ok_target (mput aid a (p_Attempts p)) r \<and> repair_ok_verification (mput aid a (p_Attempts p)) r)
    (p_RepairPlans (startedState a n inp p))"
proof -
  let ?as = "mput aid a (p_Attempts p)"
  let ?P = "\<lambda>i r. repair_ok_head ?as (p_PlanID p) i r \<and> repair_ok_target ?as r \<and> repair_ok_verification ?as r"
  note ext = extends_put [OF assms(3), of a]
  have old: "mall ?P (p_RepairPlans p)"
    using assms(1) repair_ok_head_extends [OF ext] repair_ok_target_extends [OF ext] repair_ok_verification_extends [OF ext]
    unfolding projection_ok_def mall_def by fast
  show ?thesis
  proof (cases "a_RepairPlanID a = ''''")
    case True
    then show ?thesis using old by (simp add: startedState_def Let_def)
  next
    case False
    from newAttempt_link [OF a False] obtain r st r' where
      r: "mget (p_RepairPlans p) (a_RepairPlanID a) = Some r" "dispatchState p (pl_GraphSnapshot plan) x r = Some st"
      "a_RepairState a = st \<or> a_RepairState a = RepairPlanned" "linkRepair a r = Some r'" by blast
    have ok: "repair_ok_head (p_Attempts p) (p_PlanID p) (a_RepairPlanID a) r" "repair_ok_target (p_Attempts p) r"
      "repair_ok_verification (p_Attempts p) r" "rpl_State r = RepairPatched \<longrightarrow> rpl_VerificationAttempts r = []"
      using assms(1) r(1) patched unfolding projection_ok_def by (blast dest: mall_mget)+
    have fld: "a_NodeID a = x" "a_Status a = AttemptRunning" "a_ID a = aid" using a by simp_all
    have "?P (a_RepairPlanID a) r'"
      using linked_valid [OF r(2,3) fld(1,2) _ _ ok r(4)] assms(3,4) unfolding fld(3) by blast
    then have "mall ?P (mput (a_RepairPlanID a) (r'\<lparr>rpl_LastReasonCode := repairName (a_RepairState a)\<rparr>) (p_RepairPlans p))"
      using old by (intro mall_mput) (simp_all add: repair_ok_head_update)
    then show ?thesis using False r by (simp add: startedState_def Let_def)
  qed
qed

text \<open>
  C28: A start keeps the projection valid: what \<open>Validate\<close> checks before persistence holds after it,
  when the lease has an expiry and the counters are within their range, and no repair plan in the
  patched state still carries verification attempts.
\<close>

theorem StartAttempt_valid:
  assumes "StartAttempt am plan nodeID attemptID attemptNo lease c inp p = (p', Inr a)"
    and "ValidateProjection p = None" and "mwf (p_Attempts p)" and "mwf (p_RepairPlans p)"
    and "nodeID \<noteq> ''''" and "l_ExpiresAt lease \<noteq> 0"
    and "0 \<le> cm_TokenEstimate (ce_Manifest c)" and "in64 (p_TokenUsage p + cm_TokenEstimate (ce_Manifest c))"
    and "mall (\<lambda>_ n. 0 \<le> np_AttemptNo n \<and> np_AttemptNo n < maxInt64) (p_Nodes p)"
    and "mall (\<lambda>_ r. rpl_State r = RepairPatched \<longrightarrow> rpl_VerificationAttempts r = []) (p_RepairPlans p)"
  shows "ValidateProjection p' = None"
  using assms(1)
proof (cases rule: StartAttempt_cases)
  case (error e)
  then show ?thesis by simp
next
  case (replay b)
  then show ?thesis using assms(2) by simp
next
  case (fresh b n no)
  have ok: "projection_ok p" using assms(2) by (simp add: ValidateProjection_iff)
  let ?as = "mput attemptID a (p_Attempts p)"
  have a: "a = newAttempt plan nodeID attemptID no lease c inp (nowOf am (in_Now inp)) n p" using fresh by simp
  have new: "mget (p_Attempts p) attemptID = None" and nget: "mget (p_Nodes p) nodeID = Some n"
    and nb: "\<not> blank attemptID" and pid: "p_PlanID p = pl_ID plan" and env: "completeEnvelope c"
    using fresh(5) by (auto simp: start_conditions_def startNodeChecks_def startPlanChecks_def Let_def check_simps)
  have no: "1 \<le> no" using fresh(1) mall_mget [OF assms(9) nget] by (auto simp: in64_def minInt64_def)
  have att: "attempt_ok (p_PlanID p) attemptID a"
    using env assms(5,6) no pid newAttempt_repair_state [OF a] unfolding attempt_ok_def completeEnvelope_def a by auto
  have as: "p_Attempts p' = ?as" "p_PlanID p' = p_PlanID p" "p_Revision p' = p_Revision p" "p_Status p' = PlanRunning"
    "p_ToolCalls p' = p_ToolCalls p" "p_CostCents p' = p_CostCents p" using fresh by simp_all
  have tok: "p_TokenUsage p' = p_TokenUsage p + cm_TokenEstimate (ce_Manifest c)"
    using fresh assms(8) by (simp add: tokenEstimate_def)
  have "mall (attempt_ok (p_PlanID p)) ?as" using ok att unfolding projection_ok_def by (intro mall_mput) auto
  moreover have "mall (\<lambda>i r. repair_ok_head ?as (p_PlanID p) i r \<and> repair_ok_target ?as r \<and> repair_ok_verification ?as r)
      (p_RepairPlans p')"
    using startedState_repairs_valid [OF ok assms(4) new nb assms(10) a] fresh by simp
  moreover have "mall (node_projection_ok ?as) (p_Nodes p')"
  proof -
    have "mall (node_projection_ok ?as) (p_Nodes p)"
      using ok node_projection_ok_extends [OF extends_put [OF new, of a]] unfolding projection_ok_def mall_def by fast
    moreover have "np_NodeID n = nodeID"
      using ok nget mall_mget [of "node_projection_ok (p_Attempts p)"] by (auto simp: projection_ok_def node_projection_ok_def)
    moreover have "a_NodeID a = nodeID" "a_ID a = attemptID" "a_Status a = AttemptRunning" using a by simp_all
    ultimately show ?thesis using fresh
      by (auto simp: startedState_Nodes node_projection_ok_def nodeStatusValid_def intro!: mall_mput)
  qed
  ultimately show ?thesis
    using ok as tok assms(7) unfolding ValidateProjection_iff projection_ok_def by (auto simp: mall_conj)
qed

theorem StartAttempt_valid_witness: "ValidateProjection (fst (exStart ''impl'')) = None"
  by (rule StartAttempt_valid [OF exStart_ok]; code_simp)

end
