(* ===== verification/Orch_Finish.thy ===== *)
theory Orch_Finish
  imports Orch_Attempts Orch_Example
begin

text \<open>
  Properties of \<open>FinishAttempt\<close>: which completions are accepted, what an accepted completion changes
  and what a refused one leaves, that finished attempts never change, that a repeated completion is
  idempotent, and where the code does not do what its comments say.
\<close>

section \<open>The shape of a completion\<close>

definition repair_frame :: "PlanProjection \<Rightarrow> PlanProjection \<Rightarrow> bool" where
  "repair_frame p p' \<longleftrightarrow>
     (\<exists>m rs. p' = p\<lparr>p_Nodes := m, p_RepairPlans := rs\<rparr> \<and> reopens (p_Nodes p) m)"

lemma repair_frameI: "only_nodes p q \<Longrightarrow> repair_frame p (q\<lparr>p_RepairPlans := rs\<rparr>)"
  by (auto simp: repair_frame_def only_nodes_def)

lemma repair_frame_refl [simp]: "repair_frame p p"
  using repair_frameI [of p p "p_RepairPlans p"] by simp

lemma repair_frame_plans [simp]: "repair_frame p (p\<lparr>p_RepairPlans := rs\<rparr>)"
  by (rule repair_frameI) simp

lemma only_nodes_repair_frame: "only_nodes p q \<Longrightarrow> repair_frame p q"
  using repair_frameI [of p q "p_RepairPlans q"] by simp

lemma repair_frame_fields:
  "repair_frame p p' \<Longrightarrow> p_PlanID p' = p_PlanID p \<and> p_Revision p' = p_Revision p \<and> p_Status p' = p_Status p \<and>
     p_TerminalOutcome p' = p_TerminalOutcome p \<and> p_Attempts p' = p_Attempts p \<and> p_Traversals p' = p_Traversals p \<and>
     p_Decisions p' = p_Decisions p \<and> p_Idempotency p' = p_Idempotency p \<and> p_TokenUsage p' = p_TokenUsage p \<and>
     p_ToolCalls p' = p_ToolCalls p \<and> p_CostCents p' = p_CostCents p \<and> reopens (p_Nodes p) (p_Nodes p')"
  by (auto simp: repair_frame_def)

lemma failRepairRound_frame: "failRepairRound p r msg = (p', res) \<Longrightarrow> repair_frame p p'"
  by (auto simp: failRepairRound_def Let_def split: option.splits if_splits
      intro: repair_frameI only_nodes_repair_frame resetRepairRound_only_nodes)

lemma passVerification_frame: "passVerification p r a = (p', res) \<Longrightarrow> repair_frame p p'"
  by (auto simp: passVerification_def Let_def split: option.splits)

lemma advance_frame: "advanceRepairAttemptState p a = (p', res) \<Longrightarrow> repair_frame p p'"
  by (auto simp: advanceRepairAttemptState_def split: option.splits if_splits
      dest: failRepairRound_frame passVerification_frame)

text \<open>The repair step keeps the attempt but for its repair fields.\<close>

definition same_attempt :: "NodeAttempt \<Rightarrow> NodeAttempt \<Rightarrow> bool" where
  "same_attempt a a' \<longleftrightarrow> (\<exists>s i. a' = a\<lparr>a_RepairState := s, a_RepairPlanID := i\<rparr>)"

lemma same_attemptI: "same_attempt a a" "same_attempt a (a\<lparr>a_RepairState := s\<rparr>)"
  "same_attempt a (a\<lparr>a_RepairState := s, a_RepairPlanID := i\<rparr>)"
proof -
  have "a\<lparr>a_RepairState := s\<rparr> = a\<lparr>a_RepairState := s, a_RepairPlanID := a_RepairPlanID a\<rparr>" for s by simp
  then show "same_attempt a (a\<lparr>a_RepairState := s\<rparr>)" unfolding same_attempt_def by blast
  have "a = a\<lparr>a_RepairState := a_RepairState a, a_RepairPlanID := a_RepairPlanID a\<rparr>" by simp
  then show "same_attempt a a" unfolding same_attempt_def by blast
qed (auto simp: same_attempt_def)

lemma storeRepair_frame: "storeRepair r a p = (p', a') \<Longrightarrow> repair_frame p p' \<and> (\<exists>i. a' = a\<lparr>a_RepairPlanID := i\<rparr>)"
  by (auto simp: storeRepair_def Let_def split: option.splits if_splits intro: exI [of _ "a_RepairPlanID a"])

lemma finishRepair_frame:
  assumes "finishRepair plan def a p = (p1, res)"
  shows "repair_frame p p1 \<and> (\<forall>a1. res = Inr a1 \<longrightarrow> same_attempt a a1)"
proof (cases "n_Kind def = NodeRepair")
  case True
  show ?thesis
  proof (cases "a_Status a = AttemptPassed")
    case True': True
    have "same_attempt a (a\<lparr>a_RepairState := RepairPlanned, a_RepairPlanID := i\<rparr>)" for i by (rule same_attemptI)
    then show ?thesis
      using assms True True' storeRepair_frame
      by (fastforce simp: finishRepair_def Let_def split: if_splits sum.splits prod.splits)
  next
    case False
    then show ?thesis using assms True same_attemptI by (auto simp: finishRepair_def split: if_splits)
  qed
next
  case False
  then show ?thesis
    using assms advance_frame same_attemptI by (auto simp: finishRepair_def split: if_splits prod.splits sum.splits)
qed

text \<open>The conditions under which a completion is taken up.\<close>

definition finish_conditions ::
  "Ambient \<Rightarrow> RequirementExecutionPlan \<Rightarrow> string \<Rightarrow> TransitionInput \<Rightarrow> PlanProjection \<Rightarrow> NodeAttempt \<Rightarrow> NodeProjection \<Rightarrow> bool" where
  "finish_conditions am plan attemptID inp p a n \<longleftrightarrow>
     mget (p_Attempts p) attemptID = Some a \<and> (in_PlanRevision inp = 0 \<or> in_PlanRevision inp = p_Revision p) \<and>
     mget (p_Nodes p) (a_NodeID a) = Some n \<and> np_CurrentAttempt n = attemptID \<and>
     finishReplay inp (finishKey inp) (finishHash am inp) a p = None \<and>
     leaseChecks inp a (finishNow am inp) = None \<and> evidenceChecks inp = None \<and>
     planBudgetChecks plan (resultUsage (in_Result inp)) p = None \<and>
     nodeBudgetChecks (find_node (g_Nodes (pl_GraphSnapshot plan)) (a_NodeID a)) (resultUsage (in_Result inp)) a
       (finishNow am inp) p = None"

lemma FinishAttempt_unfold:
  assumes "finish_conditions am plan attemptID inp p a n"
  shows "FinishAttempt am plan attemptID inp p =
    (case finishStatus (in_Event inp) of
       None \<Rightarrow> (p, Inl (invalidTransition ''unsupported event '' (in_Event inp)))
     | Some st \<Rightarrow>
     case finishRepair plan (find_node (g_Nodes (pl_GraphSnapshot plan)) (a_NodeID a)) (applyResult inp st a) p of
       (p1, Inl e) \<Rightarrow> (p1, Inl e)
     | (p1, Inr a1) \<Rightarrow> commitFinish am plan attemptID (sealAttempt (finishNow am inp) a1) n (resultUsage (in_Result inp))
         (finishKey inp) (finishHash am inp) (inp\<lparr>in_Now := finishNow am inp\<rparr>) p1)"
  using assms
  by (auto simp: FinishAttempt_def finish_conditions_def Let_def)

lemma FinishAttempt_refused:
  assumes "\<nexists>a n. finish_conditions am plan attemptID inp p a n" and "FinishAttempt am plan attemptID inp p = (p', res)"
  shows "p' = p \<and> (\<forall>a. res = Inr a \<longrightarrow> mget (p_Attempts p) attemptID = Some a \<and> a_Status a \<noteq> AttemptRunning)"
proof (cases "mget (p_Attempts p) attemptID")
  case None
  then show ?thesis using assms(2) by (auto simp: FinishAttempt_def)
next
  case (Some a)
  show ?thesis
  proof (cases "(in_PlanRevision inp \<noteq> 0 \<and> in_PlanRevision inp \<noteq> p_Revision p) \<or> mget (p_Nodes p) (a_NodeID a) = None \<or>
      opt_any (\<lambda>n. np_CurrentAttempt n \<noteq> attemptID) (mget (p_Nodes p) (a_NodeID a))")
    case True
    then show ?thesis using assms(2) Some by (auto simp: FinishAttempt_def opt_any_def split: if_splits option.splits)
  next
    case False
    then obtain n where n: "mget (p_Nodes p) (a_NodeID a) = Some n" "np_CurrentAttempt n = attemptID"
      "in_PlanRevision inp = 0 \<or> in_PlanRevision inp = p_Revision p" by (auto simp: opt_any_def)
    let ?R = "finishReplay inp (finishKey inp) (finishHash am inp) a p"
    let ?C = "first_err [leaseChecks inp a (finishNow am inp), evidenceChecks inp,
       planBudgetChecks plan (resultUsage (in_Result inp)) p,
       nodeBudgetChecks (find_node (g_Nodes (pl_GraphSnapshot plan)) (a_NodeID a)) (resultUsage (in_Result inp)) a
         (finishNow am inp) p]"
    have nf: "\<not> (?R = None \<and> ?C = None)"
    proof
      assume "?R = None \<and> ?C = None"
      then have "finish_conditions am plan attemptID inp p a n"
        using Some n by (auto simp: finish_conditions_def first_err_None)
      then show False using assms(1) by blast
    qed
    have "FinishAttempt am plan attemptID inp p = (case ?R of Some r \<Rightarrow> (p, r) | None \<Rightarrow> (p, Inl (the ?C)))"
      using Some n nf
      by (auto simp: FinishAttempt_def Let_def simp del: first_err.simps split: option.splits)
    then show ?thesis
      using assms(2) Some by (auto simp: finishReplay_def split: option.splits if_splits)
  qed
qed

text \<open>The projection with the finish recorded, and how the rest of the completion continues from it.\<close>

definition recordedState ::
  "Ambient \<Rightarrow> RequirementExecutionPlan \<Rightarrow> string \<Rightarrow> TransitionInput \<Rightarrow> NodeAttempt \<Rightarrow> NodeProjection \<Rightarrow> PlanProjection \<Rightarrow> PlanProjection" where
  "recordedState am plan attemptID inp b n p1 =
     openJoins (pl_GraphSnapshot plan) b
       (recordFinish attemptID b n (resultUsage (in_Result inp)) (finishKey inp) (finishHash am inp) p1)"

abbreviation timed :: "Ambient \<Rightarrow> TransitionInput \<Rightarrow> TransitionInput" where
  "timed am inp \<equiv> inp\<lparr>in_Now := finishNow am inp\<rparr>"

abbreviation nodeDef :: "RequirementExecutionPlan \<Rightarrow> NodeAttempt \<Rightarrow> WorkflowNode" where
  "nodeDef plan a \<equiv> find_node (g_Nodes (pl_GraphSnapshot plan)) (a_NodeID a)"

lemma routable_timed [simp]: "routable b (timed am inp) = routable b inp"
  by (simp add: routable_def)

lemma FinishAttempt_cases:
  assumes "FinishAttempt am plan attemptID inp p = (p', res)"
  obtains (unchanged) "p' = p" "\<forall>a. res = Inr a \<longrightarrow> mget (p_Attempts p) attemptID = Some a \<and> a_Status a \<noteq> AttemptRunning"
  | (repair_error) a n st e where "finish_conditions am plan attemptID inp p a n" "finishStatus (in_Event inp) = Some st"
      "finishRepair plan (nodeDef plan a) (applyResult inp st a) p = (p', Inl e)" "res = Inl e"
  | (route_error) a n st p1 a1 p2 e where "finish_conditions am plan attemptID inp p a n"
      "finishStatus (in_Event inp) = Some st" "finishRepair plan (nodeDef plan a) (applyResult inp st a) p = (p1, Inr a1)"
      "route (am_Now am) plan (sealAttempt (finishNow am inp) a1) (timed am inp)
         (recordedState am plan attemptID inp (sealAttempt (finishNow am inp) a1) n p1) = (p2, Some e)"
      "p' = rollbackFinish attemptID (a_NodeID a1) (finishKey inp) p1 p2" "res = Inl e"
  | (finished) a n st p1 a1 b p2 where "finish_conditions am plan attemptID inp p a n"
      "finishStatus (in_Event inp) = Some st" "finishRepair plan (nodeDef plan a) (applyResult inp st a) p = (p1, Inr a1)"
      "b = sealAttempt (finishNow am inp) a1"
      "routable b inp \<and> route (am_Now am) plan b (timed am inp) (recordedState am plan attemptID inp b n p1) = (p2, None) \<or>
       \<not> routable b inp \<and> p2 = recordedState am plan attemptID inp b n p1"
      "p' = noteReason b p2" "res = Inr b"
proof (cases "\<exists>a n. finish_conditions am plan attemptID inp p a n")
  case False
  then show ?thesis using FinishAttempt_refused [OF _ assms] unchanged by blast
next
  case True
  then obtain a n where c: "finish_conditions am plan attemptID inp p a n" by blast
  note f = assms [unfolded FinishAttempt_unfold [OF c]]
  show ?thesis
  proof (cases "finishStatus (in_Event inp)")
    case None
    then show ?thesis using f unchanged by auto
  next
    case (Some st)
    obtain p1 r1 where r1: "finishRepair plan (nodeDef plan a) (applyResult inp st a) p = (p1, r1)" by fastforce
    show ?thesis
    proof (cases r1)
      case (Inl e)
      then show ?thesis using f Some r1 repair_error [OF c Some] by auto
    next
      case (Inr a1)
      let ?b = "sealAttempt (finishNow am inp) a1"
      have nb: "a_NodeID ?b = a_NodeID a1" by (simp add: sealAttempt_def Let_def)
      obtain p2 r2 where r2: "route (am_Now am) plan ?b (timed am inp) (recordedState am plan attemptID inp ?b n p1) = (p2, r2)"
        by fastforce
      have "(p', res) = (if routable ?b inp then case r2 of None \<Rightarrow> (noteReason ?b p2, Inr ?b)
            | Some e \<Rightarrow> (rollbackFinish attemptID (a_NodeID a1) (finishKey inp) p1 p2, Inl e)
          else (noteReason ?b (recordedState am plan attemptID inp ?b n p1), Inr ?b))"
        using f Some r1 Inr r2 nb by (auto simp: commitFinish_def Let_def recordedState_def split: option.splits)
      then show ?thesis
        using r2 finished [OF c Some r1 [unfolded Inr] refl] route_error [OF c Some r1 [unfolded Inr]]
        by (auto split: if_splits option.splits)
    qed
  qed
qed

lemma sealAttempt_fields [simp]:
  "a_ID (sealAttempt now a) = a_ID a" "a_NodeID (sealAttempt now a) = a_NodeID a" "a_PlanID (sealAttempt now a) = a_PlanID a"
  "a_Status (sealAttempt now a) = a_Status a" "a_AttemptNo (sealAttempt now a) = a_AttemptNo a"
  "a_RepairPlanID (sealAttempt now a) = a_RepairPlanID a" "a_RepairState (sealAttempt now a) = a_RepairState a"
  "a_FailureReason (sealAttempt now a) = a_FailureReason a" "a_InputManifest (sealAttempt now a) = a_InputManifest a"
  "a_Lease (sealAttempt now a) = a_Lease a" "a_StartedAt (sealAttempt now a) = a_StartedAt a"
  "sr_EvidenceIDs (a_Result (sealAttempt now a)) = sr_EvidenceIDs (a_Result a)"
  "sr_Outcome (a_Result (sealAttempt now a)) = sr_Outcome (a_Result a)"
  "a_FinishedAt (sealAttempt now a) = (if a_Status a = AttemptWaiting then None else Some now)"
  by (auto simp: sealAttempt_def Let_def)

lemma same_attempt_fields:
  "same_attempt a a' \<Longrightarrow> a_ID a' = a_ID a \<and> a_NodeID a' = a_NodeID a \<and> a_PlanID a' = a_PlanID a \<and>
     a_Status a' = a_Status a \<and> a_AttemptNo a' = a_AttemptNo a \<and> a_Result a' = a_Result a \<and>
     a_FailureReason a' = a_FailureReason a \<and> a_InputManifest a' = a_InputManifest a \<and> a_Lease a' = a_Lease a \<and>
     a_StartedAt a' = a_StartedAt a"
  by (auto simp: same_attempt_def)

lemma applyResult_fields [simp]:
  "a_ID (applyResult inp st a) = a_ID a" "a_NodeID (applyResult inp st a) = a_NodeID a"
  "a_PlanID (applyResult inp st a) = a_PlanID a" "a_Status (applyResult inp st a) = st"
  "a_AttemptNo (applyResult inp st a) = a_AttemptNo a" "a_Result (applyResult inp st a) = in_Result inp"
  "a_FailureReason (applyResult inp st a) = in_Failure inp" "a_InputManifest (applyResult inp st a) = a_InputManifest a"
  "a_Lease (applyResult inp st a) = a_Lease a" "a_StartedAt (applyResult inp st a) = a_StartedAt a"
  "a_RepairState (applyResult inp st a) = a_RepairState a" "a_RepairPlanID (applyResult inp st a) = a_RepairPlanID a"
  by (simp_all add: applyResult_def)

text \<open>Opening joins changes nodes only.\<close>

lemma shortCircuit_nodes: "shortCircuit g b c p = p\<lparr>p_Nodes := p_Nodes (shortCircuit g b c p)\<rparr>"
  by (simp add: shortCircuit_def Let_def)

lemma shortCircuit_fold_nodes: "\<exists>m. fold (shortCircuit g b) cs p = p\<lparr>p_Nodes := m\<rparr>"
proof (induction cs arbitrary: p)
  case Nil
  then show ?case by (intro exI [of _ "p_Nodes p"]) simp
next
  case (Cons c cs)
  obtain m where "fold (shortCircuit g b) cs (shortCircuit g b c p) = (shortCircuit g b c p)\<lparr>p_Nodes := m\<rparr>"
    using Cons.IH by blast
  moreover have "(shortCircuit g b c p)\<lparr>p_Nodes := m\<rparr> = p\<lparr>p_Nodes := m\<rparr>"
    by (subst shortCircuit_nodes) simp
  ultimately show ?case by auto
qed

lemma openJoins_nodes: "\<exists>m. openJoins g b p = p\<lparr>p_Nodes := m\<rparr>"
proof (cases "attemptFailed b")
  case True
  then show ?thesis using shortCircuit_fold_nodes by (simp add: openJoins_def)
next
  case False
  then show ?thesis by (intro exI [of _ "p_Nodes p"]) (simp add: openJoins_def)
qed

lemma openJoins_fields [simp]:
  "p_PlanID (openJoins g b p) = p_PlanID p" "p_Revision (openJoins g b p) = p_Revision p"
  "p_Status (openJoins g b p) = p_Status p" "p_TerminalOutcome (openJoins g b p) = p_TerminalOutcome p"
  "p_Attempts (openJoins g b p) = p_Attempts p" "p_Traversals (openJoins g b p) = p_Traversals p"
  "p_Decisions (openJoins g b p) = p_Decisions p" "p_RepairPlans (openJoins g b p) = p_RepairPlans p"
  "p_Idempotency (openJoins g b p) = p_Idempotency p" "p_TokenUsage (openJoins g b p) = p_TokenUsage p"
  "p_ToolCalls (openJoins g b p) = p_ToolCalls p" "p_CostCents (openJoins g b p) = p_CostCents p"
  using openJoins_nodes [of g b p] by auto

lemma recordedState_fields [simp]:
  "p_PlanID (recordedState am plan i inp b n p) = p_PlanID p" "p_Revision (recordedState am plan i inp b n p) = p_Revision p"
  "p_Status (recordedState am plan i inp b n p) = p_Status p"
  "p_TerminalOutcome (recordedState am plan i inp b n p) = p_TerminalOutcome p"
  "p_Attempts (recordedState am plan i inp b n p) = mput i b (p_Attempts p)"
  "p_Traversals (recordedState am plan i inp b n p) = p_Traversals p"
  "p_Decisions (recordedState am plan i inp b n p) = p_Decisions p"
  "p_RepairPlans (recordedState am plan i inp b n p) = p_RepairPlans p"
  "p_Idempotency (recordedState am plan i inp b n p) =
     (if finishKey inp \<noteq> '''' then mput (finishKey inp) (finishHash am inp) (p_Idempotency p) else p_Idempotency p)"
  "p_TokenUsage (recordedState am plan i inp b n p) = wrap64 (p_TokenUsage p + fst (resultUsage (in_Result inp)))"
  "p_ToolCalls (recordedState am plan i inp b n p) = wrap64 (p_ToolCalls p + fst (snd (resultUsage (in_Result inp))))"
  "p_CostCents (recordedState am plan i inp b n p) = wrap64 (p_CostCents p + snd (snd (resultUsage (in_Result inp))))"
  by (simp_all add: recordedState_def recordFinish_def split: prod.splits)

lemma noteReason_fields [simp]:
  "p_PlanID (noteReason b p) = p_PlanID p" "p_Revision (noteReason b p) = p_Revision p"
  "p_Status (noteReason b p) = p_Status p" "p_TerminalOutcome (noteReason b p) = p_TerminalOutcome p"
  "p_Attempts (noteReason b p) = p_Attempts p" "p_Traversals (noteReason b p) = p_Traversals p"
  "p_Decisions (noteReason b p) = p_Decisions p" "p_Nodes (noteReason b p) = p_Nodes p"
  "p_Idempotency (noteReason b p) = p_Idempotency p" "p_TokenUsage (noteReason b p) = p_TokenUsage p"
  "p_ToolCalls (noteReason b p) = p_ToolCalls p" "p_CostCents (noteReason b p) = p_CostCents p"
  by (auto simp: noteReason_def split: option.splits)

section \<open>What a completion may change\<close>

text \<open>
  Concrete completions for the witnesses: the running attempt \<open>a1\<close> of \<open>impl\<close> passes; a second worker with
  an old token sends a completion; the dispatched repair target \<open>a4\<close> fails at its provider.
\<close>

definition exFinish :: "PlanProjection \<times> (go_error + NodeAttempt)" where
  "exFinish = FinishAttempt exAmbient exPlan ''a1'' (exInput ''success'' (exResult ''ok'') None) exRunning"

definition exProviderFailure :: FailureReason where
  "exProviderFailure = \<lparr>f_Code = ''provider_failed'', f_Message = '''', f_Retryable = True\<rparr>"

definition exRepairFinish :: "PlanProjection \<times> (go_error + NodeAttempt)" where
  "exRepairFinish = FinishAttempt exAmbient exPlan ''a4''
     (exInput ''failure'' (exResult ''error'') (Some exProviderFailure)) exRepairing"

lemma exFinish_ok:
  "FinishAttempt exAmbient exPlan ''a1'' (exInput ''success'' (exResult ''ok'') None) exRunning =
     (fst exFinish, Inr (projr (snd exFinish)))"
proof -
  have "\<not> isl (snd exFinish)" by code_simp
  then show ?thesis using ok_result [of exFinish] by (simp add: exFinish_def)
qed

lemma exRepairFinish_ok:
  "FinishAttempt exAmbient exPlan ''a4'' (exInput ''failure'' (exResult ''error'') (Some exProviderFailure)) exRepairing =
     (fst exRepairFinish, Inr (projr (snd exRepairFinish)))"
proof -
  have "\<not> isl (snd exRepairFinish)" by code_simp
  then show ?thesis using ok_result [of exRepairFinish] by (simp add: exRepairFinish_def)
qed

lemma exFinish_changes: "fst exFinish \<noteq> exRunning" "fst exRepairFinish \<noteq> exRepairing"
  by code_simp+

lemma finish_conditions_status:
  "finish_conditions am plan attemptID inp p a n \<Longrightarrow> a_Status a = AttemptRunning \<or> a_Status a = AttemptWaiting"
  by (auto simp: finish_conditions_def leaseChecks_def check_simps)

text \<open>The attempts after a completion: as before, or with the one attempt replaced by its finished form.\<close>

lemma FinishAttempt_attempts:
  assumes "FinishAttempt am plan attemptID inp p = (p', res)"
  shows "p_Attempts p' = p_Attempts p \<or>
    (\<exists>a b. mget (p_Attempts p) attemptID = Some a \<and> (a_Status a = AttemptRunning \<or> a_Status a = AttemptWaiting) \<and>
       res = Inr b \<and> p_Attempts p' = mput attemptID b (p_Attempts p) \<and> a_ID b = a_ID a \<and> a_PlanID b = a_PlanID a \<and>
       a_NodeID b = a_NodeID a \<and> a_AttemptNo b = a_AttemptNo a \<and> a_InputManifest b = a_InputManifest a \<and>
       a_Lease b = a_Lease a)"
  using assms
proof (cases rule: FinishAttempt_cases)
  case unchanged
  then show ?thesis by simp
next
  case (repair_error a n st e)
  then show ?thesis using finishRepair_frame repair_frame_fields by blast
next
  case (route_error a n st p1 a1 p2 e)
  have p1: "p_Attempts p1 = p_Attempts p" using finishRepair_frame [OF route_error(3)] repair_frame_fields by blast
  have "p_Attempts p2 = mput attemptID (sealAttempt (finishNow am inp) a1) (p_Attempts p)"
    using route_kept [OF route_error(4)] p1 by (simp add: kept_def)
  moreover have "mget (p_Attempts p) attemptID = Some a" using route_error(1) by (simp add: finish_conditions_def)
  ultimately show ?thesis using route_error(5) p1 by (simp add: rollbackFinish_def mput_same)
next
  case (finished a n st p1 a1 b p2)
  have f: "p_Attempts p1 = p_Attempts p" "same_attempt (applyResult inp st a) a1"
    using finishRepair_frame [OF finished(3)] repair_frame_fields by blast+
  have "p_Attempts p2 = mput attemptID b (p_Attempts p)"
    using finished(5) route_kept f(1) by (auto simp: kept_def)
  then show ?thesis
    using finished f(2) finish_conditions_status [OF finished(1)]
    by (auto simp: finish_conditions_def dest!: same_attempt_fields)
qed

text \<open>
  C1: Fencing. A completion changes the projection only when its attempt is the current attempt of its node and still
  running or waiting, and when what it brings along fits: a plan revision other than zero is the revision of the
  projection, a fencing token other than zero is the token of the lease of the attempt, and the lease of a running
  attempt that has an expiry has not expired, unless the event is the server's timeout. Zero stands for a field the caller
  leaves out, and what is left out is not compared (\<open>zero_token_accepted\<close>). Any other completion leaves everything
  as it was.
\<close>

theorem FinishAttempt_fenced:
  assumes "FinishAttempt am plan attemptID inp p = (p', res)" and "p' \<noteq> p"
  shows "\<exists>a n. mget (p_Attempts p) attemptID = Some a \<and> mget (p_Nodes p) (a_NodeID a) = Some n \<and>
    np_CurrentAttempt n = attemptID \<and> (a_Status a = AttemptRunning \<or> a_Status a = AttemptWaiting) \<and>
    (in_PlanRevision inp = 0 \<or> in_PlanRevision inp = p_Revision p) \<and>
    (in_LeaseToken inp = 0 \<or> in_LeaseToken inp = l_FencingToken (a_Lease a)) \<and>
    (a_Status a = AttemptRunning \<longrightarrow> l_ExpiresAt (a_Lease a) = 0 \<or>
       nowOf am (in_Now inp) < l_ExpiresAt (a_Lease a) \<or> in_Event inp = ''timeout'')"
proof -
  obtain a n where c: "finish_conditions am plan attemptID inp p a n"
    using FinishAttempt_refused [OF _ assms(1)] assms(2) by blast
  then show ?thesis
    by (intro exI [of _ a] exI [of _ n]) (auto simp: finish_conditions_def leaseChecks_def check_simps finishNow_def)
qed

theorem FinishAttempt_fenced_witness:
  "(\<exists>a n. mget (p_Attempts exRunning) ''a1'' = Some a \<and> mget (p_Nodes exRunning) (a_NodeID a) = Some n \<and>
      np_CurrentAttempt n = ''a1'' \<and> a_Status a \<in> {AttemptRunning, AttemptWaiting}) \<and>
   FinishAttempt exAmbient exPlan ''a1'' ((exInput ''success'' (exResult ''ok'') None)\<lparr>in_LeaseToken := 7\<rparr>) exRunning =
     (exRunning, Inl ErrLeaseLost)"
proof
  show "\<exists>a n. mget (p_Attempts exRunning) ''a1'' = Some a \<and> mget (p_Nodes exRunning) (a_NodeID a) = Some n \<and>
      np_CurrentAttempt n = ''a1'' \<and> a_Status a \<in> {AttemptRunning, AttemptWaiting}"
    using FinishAttempt_fenced [OF exFinish_ok exFinish_changes(1)] by auto
  show "FinishAttempt exAmbient exPlan ''a1'' ((exInput ''success'' (exResult ''ok'') None)\<lparr>in_LeaseToken := 7\<rparr>) exRunning =
     (exRunning, Inl ErrLeaseLost)" by code_simp
qed

definition finishedAttempt :: "NodeAttempt \<Rightarrow> bool" where
  "finishedAttempt a \<longleftrightarrow> a_Status a \<in> {AttemptPassed, AttemptFailed, AttemptCancelled, AttemptTimedOut}"

text \<open>
  Finished attempts are immutable. No completion changes an attempt that has passed, failed, been
  cancelled or timed out, and none changes an attempt other than its own.
\<close>

theorem FinishAttempt_immutable:
  assumes "FinishAttempt am plan attemptID inp p = (p', res)" and "mget (p_Attempts p) k = Some a"
    and "finishedAttempt a \<or> k \<noteq> attemptID"
  shows "mget (p_Attempts p') k = Some a"
  using FinishAttempt_attempts [OF assms(1)] assms(2,3) by (auto simp: finishedAttempt_def)

theorem FinishAttempt_immutable_witness:
  "mget (p_Attempts (fst exRepairFinish)) ''a2'' = Some (exAttempt ''a2'' ''qa'' AttemptFailed)"
proof (rule FinishAttempt_immutable [OF exRepairFinish_ok])
  show "mget (p_Attempts exRepairing) ''a2'' = Some (exAttempt ''a2'' ''qa'' AttemptFailed)"
    by (simp add: exRepairing_def)
  show "finishedAttempt (exAttempt ''a2'' ''qa'' AttemptFailed) \<or> ''a2'' \<noteq> ''a4''"
    by (simp add: finishedAttempt_def exAttempt_def)
qed

text \<open>The usage counters after an accepted completion.\<close>

lemma FinishAttempt_usage:
  assumes "FinishAttempt am plan attemptID inp p = (p', Inr b)" and "p' \<noteq> p"
  shows "p_TokenUsage p' = wrap64 (p_TokenUsage p + fst (resultUsage (in_Result inp))) \<and>
    p_ToolCalls p' = wrap64 (p_ToolCalls p + fst (snd (resultUsage (in_Result inp)))) \<and>
    p_CostCents p' = wrap64 (p_CostCents p + snd (snd (resultUsage (in_Result inp)))) \<and>
    planBudgetChecks plan (resultUsage (in_Result inp)) p = None \<and> evidenceChecks inp = None"
  using assms(1)
proof (cases rule: FinishAttempt_cases)
  case unchanged
  then show ?thesis using assms(2) by simp
next
  case (repair_error a n st e)
  then show ?thesis by simp
next
  case (route_error a n st p1 a1 p2 e)
  then show ?thesis by simp
next
  case (finished a n st p1 a1 b' p2)
  have f: "p_TokenUsage p1 = p_TokenUsage p" "p_ToolCalls p1 = p_ToolCalls p" "p_CostCents p1 = p_CostCents p"
    using finishRepair_frame [OF finished(3)] repair_frame_fields by blast+
  show ?thesis
    using finished(1,5,6) f route_kept by (auto simp: kept_def finish_conditions_def)
qed

lemma usageInt64_nonneg: "0 \<le> usageInt64 f k"
  by (simp add: usageInt64_def Let_def)

lemma usageInt_nonneg: "0 \<le> usageInt f k"
  using usageInt64_nonneg [of f k] by (simp add: usageInt_def Let_def maxInt64_def)

lemma evidenceChecks_None:
  "evidenceChecks inp = None \<longleftrightarrow> (in_Event inp \<notin> {''waiting'', ''approval''} \<longrightarrow>
     sr_EvidenceIDs (in_Result inp) \<noteq> [] \<and> (\<forall>ev\<in>set (sr_EvidenceIDs (in_Result inp)). \<not> blank ev))"
  by (auto simp: evidenceChecks_def check_simps)

text \<open>
  C14: Budgets. After an accepted completion that is neither a wait nor an approval request, evidence
  has been committed; and with counters in range the plan's token, tool-call and cost usage grow by
  what the result reports and stay within the plan's budgets.
\<close>

theorem FinishAttempt_budget:
  assumes "FinishAttempt am plan attemptID inp p = (p', Inr b)" and "p' \<noteq> p"
    and "in64 (p_TokenUsage p + usageInt64 (sr_Fields (in_Result inp)) ''tokens'')"
    and "in64 (p_ToolCalls p + usageInt (sr_Fields (in_Result inp)) ''tool_calls'')"
    and "in64 (p_CostCents p + usageInt64 (sr_Fields (in_Result inp)) ''cost_cents'')"
  shows "p_TokenUsage p \<le> p_TokenUsage p' \<and> p_ToolCalls p \<le> p_ToolCalls p' \<and> p_CostCents p \<le> p_CostCents p' \<and>
    (let budget = ps_Budget (pl_PolicySnapshot plan) in
      (0 < b_Tokens budget \<longrightarrow> p_TokenUsage p' \<le> b_Tokens budget) \<and>
      (0 < b_ToolCalls budget \<longrightarrow> p_ToolCalls p' \<le> b_ToolCalls budget) \<and>
      (0 < b_CostCents budget \<longrightarrow> p_CostCents p' \<le> b_CostCents budget)) \<and>
    (in_Event inp \<notin> {''waiting'', ''approval''} \<longrightarrow> sr_EvidenceIDs (in_Result inp) \<noteq> [] \<and>
      (\<forall>ev\<in>set (sr_EvidenceIDs (in_Result inp)). \<not> blank ev))"
proof -
  note u = FinishAttempt_usage [OF assms(1,2)]
  have ev: "in_Event inp \<notin> {''waiting'', ''approval''} \<longrightarrow> sr_EvidenceIDs (in_Result inp) \<noteq> [] \<and>
      (\<forall>ev\<in>set (sr_EvidenceIDs (in_Result inp)). \<not> blank ev)"
    using u unfolding evidenceChecks_None by blast
  show ?thesis
    using u ev assms(3-5) usageInt64_nonneg [of "sr_Fields (in_Result inp)"] usageInt_nonneg [of "sr_Fields (in_Result inp)"]
    by (auto simp: resultUsage_def planBudgetChecks_def Let_def check_simps not_less)
qed

theorem FinishAttempt_budget_witness:
  "p_TokenUsage exRunning \<le> p_TokenUsage (fst exFinish) \<and> p_TokenUsage (fst exFinish) \<le> 1000 \<and>
   sr_EvidenceIDs (in_Result (exInput ''success'' (exResult ''ok'') None)) \<noteq> []"
proof -
  let ?i = "exInput ''success'' (exResult ''ok'') None"
  have "in64 (p_TokenUsage exRunning + usageInt64 (sr_Fields (in_Result ?i)) ''tokens'')"
    and "in64 (p_ToolCalls exRunning + usageInt (sr_Fields (in_Result ?i)) ''tool_calls'')"
    and "in64 (p_CostCents exRunning + usageInt64 (sr_Fields (in_Result ?i)) ''cost_cents'')" by code_simp+
  moreover have "b_Tokens (ps_Budget (pl_PolicySnapshot exPlan)) = 1000" "in_Event ?i = ''success''" by code_simp+
  ultimately show ?thesis
    using FinishAttempt_budget [OF exFinish_ok exFinish_changes(1)] by (simp add: Let_def)
qed

text \<open>
  Loops are bounded. An accepted completion keeps every bounded edge of the graph within its
  maximal number of traversals.
\<close>

theorem FinishAttempt_traversals:
  assumes "FinishAttempt am plan attemptID inp p = (p', Inr b)"
    and "distinct (map e_ID (g_Edges (pl_GraphSnapshot plan)))" and "traversals_ok (pl_GraphSnapshot plan) p"
  shows "traversals_ok (pl_GraphSnapshot plan) p'"
  using assms(1)
proof (cases rule: FinishAttempt_cases)
  case unchanged
  then show ?thesis using assms(3) by simp
next
  case (repair_error a n st e)
  then show ?thesis by simp
next
  case (route_error a n st p1 a1 p2 e)
  then show ?thesis by simp
next
  case (finished a n st p1 a1 b' p2)
  have "p_Traversals p1 = p_Traversals p"
    using finishRepair_frame [OF finished(3)] repair_frame_fields by blast
  then have "traversals_ok (pl_GraphSnapshot plan) (recordedState am plan attemptID inp b' n p1)"
    using assms(3) by (simp add: traversals_ok_def)
  then have "traversals_ok (pl_GraphSnapshot plan) p2" using finished(5) route_traversals [OF assms(2)] by auto
  then show ?thesis using finished(6) by (simp add: traversals_ok_def)
qed

theorem FinishAttempt_traversals_witness: "traversals_ok exGraph (fst exFinish)"
proof -
  have g: "pl_GraphSnapshot exPlan = exGraph" by (simp add: exPlan_def)
  have "traversals_ok exGraph exRunning" "distinct (map e_ID (g_Edges exGraph))" by code_simp+
  then show ?thesis using FinishAttempt_traversals [OF exFinish_ok, unfolded g] by blast
qed

lemma list_all_mput:
  "list_all P (mvals m) \<Longrightarrow> P v \<Longrightarrow> list_all P (mvals (mput k v m))"
  unfolding list_all_iff by (rule mvals_all_mput)

lemma noteReason_verified: "allRepairsVerified p \<Longrightarrow> allRepairsVerified (noteReason b p)"
proof (cases "a_RepairPlanID b \<noteq> '''' \<and> mget (p_RepairPlans p) (a_RepairPlanID b) \<noteq> None")
  case True
  then obtain r where r: "mget (p_RepairPlans p) (a_RepairPlanID b) = Some r" "a_RepairPlanID b \<noteq> ''''" by auto
  assume v: "allRepairsVerified p"
  then have "repairVerified r" using mget_in_vals [OF r(1)] by (auto simp: allRepairsVerified_def list_all_iff)
  then have "repairVerified (r\<lparr>rpl_LastReasonCode := sr_ReasonCode (a_Result b)\<rparr>)" by (simp add: repairVerified_def)
  then show ?thesis using v r list_all_mput by (simp add: allRepairsVerified_def noteReason_def)
next
  case False
  assume "allRepairsVerified p"
  then show ?thesis using False by (auto simp: noteReason_def split: option.splits)
qed

text \<open>
  C15: A plan ends as succeeded only through a passed exit node with committed evidence, and only when
  every repair plan is verified: all its declared verification nodes have a passing result.
\<close>

theorem FinishAttempt_success:
  assumes "FinishAttempt am plan attemptID inp p = (p', Inr b)" and "p_Status p \<noteq> PlanTerminal"
    and "p_Status p' = PlanTerminal" and "p_TerminalOutcome p' = ''succeeded''"
  shows "a_Status b = AttemptPassed \<and> a_NodeID b \<in> set (g_ExitNodeIDs (pl_GraphSnapshot plan)) \<and>
    sr_EvidenceIDs (a_Result b) \<noteq> [] \<and> allRepairsVerified p'"
  using assms(1)
proof (cases rule: FinishAttempt_cases)
  case unchanged
  then show ?thesis using assms by simp
next
  case (repair_error a n st e)
  then show ?thesis by simp
next
  case (route_error a n st p1 a1 p2 e)
  then show ?thesis by simp
next
  case (finished a n st p1 a1 b' p2)
  let ?r = "recordedState am plan attemptID inp b n p1"
  have b: "b' = b" using finished(7) by simp
  have st: "p_Status p1 = p_Status p" using finishRepair_frame [OF finished(3)] repair_frame_fields by blast
  then have rt: "route (am_Now am) plan b (timed am inp) ?r = (p2, None)"
    using finished(5,6) assms(2,3) b by auto
  have "a_Status b = AttemptPassed \<and> a_NodeID b \<in> set (g_ExitNodeIDs (pl_GraphSnapshot plan)) \<and>
      allRepairsVerified ?r \<and> sr_EvidenceIDs (a_Result b) \<noteq> []"
    using route_succeeds [OF rt] finished(6) assms(2-4) st by simp
  moreover have "p_RepairPlans p2 = p_RepairPlans ?r" using route_kept [OF rt] by (simp add: kept_def)
  ultimately show ?thesis using finished(6) b noteReason_verified by (simp add: allRepairsVerified_def)
qed

definition exExit :: "PlanProjection \<times> (go_error + NodeAttempt)" where
  "exExit = FinishAttempt exAmbient exPlan ''a2'' (exInput ''success'' (exResult ''ok'') None) (exChecking 0)"

lemma exExit_ok:
  "FinishAttempt exAmbient exPlan ''a2'' (exInput ''success'' (exResult ''ok'') None) (exChecking 0) =
     (fst exExit, Inr (projr (snd exExit)))"
proof -
  have "\<not> isl (snd exExit)" by code_simp
  then show ?thesis using ok_result [of exExit] by (simp add: exExit_def)
qed

theorem FinishAttempt_success_witness:
  "p_TerminalOutcome (fst exExit) = ''succeeded'' \<and> a_Status (projr (snd exExit)) = AttemptPassed \<and>
   a_NodeID (projr (snd exExit)) \<in> set (g_ExitNodeIDs exGraph) \<and> allRepairsVerified (fst exExit)"
proof -
  have o: "p_TerminalOutcome (fst exExit) = ''succeeded''" and t: "p_Status (fst exExit) = PlanTerminal"
    and r: "p_Status (exChecking 0) \<noteq> PlanTerminal" by code_simp+
  have "pl_GraphSnapshot exPlan = exGraph" by (simp add: exPlan_def)
  then show ?thesis using FinishAttempt_success [OF exExit_ok r t o] o by simp
qed

text \<open>The node of a finished attempt still points to it.\<close>

lemma shortCircuit_lineage: "lineage_kept (p_Nodes p) (p_Nodes (shortCircuit g b c p))"
  by (auto simp: shortCircuit_def Let_def intro: lineage_kept_put)

lemma openJoins_lineage: "lineage_kept (p_Nodes p) (p_Nodes (openJoins g b p))"
proof -
  have "lineage_kept (p_Nodes p) (p_Nodes (fold (shortCircuit g b) cs p))" for cs
    by (induction cs arbitrary: p) (auto intro: lineage_kept_trans shortCircuit_lineage)
  then show ?thesis by (simp add: openJoins_def)
qed

lemma finished_current:
  assumes "np_CurrentAttempt n = attemptID"
  shows "\<exists>n'. mget (p_Nodes (recordedState am plan attemptID inp b n p1)) (a_NodeID b) = Some n' \<and>
    np_CurrentAttempt n' = attemptID"
proof -
  let ?q = "recordFinish attemptID b n (resultUsage (in_Result inp)) (finishKey inp) (finishHash am inp) p1"
  have "mget (p_Nodes ?q) (a_NodeID b) = Some (n\<lparr>np_Status := a_Status b\<rparr>)"
    by (simp add: recordFinish_def split: prod.splits)
  then show ?thesis
    using openJoins_lineage [of ?q "pl_GraphSnapshot plan" b] assms
    unfolding lineage_kept_def recordedState_def by fastforce
qed

text \<open>
  C33: Completions are idempotent. Sending the same completion again after it was accepted, under its
  idempotency key, returns the same finished attempt and changes nothing.
\<close>

theorem FinishAttempt_idempotent:
  assumes "FinishAttempt am plan attemptID inp p = (p', Inr b)" and "p' \<noteq> p"
    and "finishKey inp \<noteq> ''''" and "finishedAttempt b"
  shows "FinishAttempt am plan attemptID inp p' = (p', Inr b)"
  using assms(1)
proof (cases rule: FinishAttempt_cases)
  case unchanged
  then show ?thesis using assms(2) by simp
next
  case (repair_error a n st e)
  then show ?thesis by simp
next
  case (route_error a n st p1 a1 p2 e)
  then show ?thesis by simp
next
  case (finished a n st p1 a1 b' p2)
  let ?r = "recordedState am plan attemptID inp b n p1"
  have b: "b' = b" using finished(7) by simp
  have k: "kept ?r p2" using finished(5) b route_kept by auto
  have rev: "p_Revision p1 = p_Revision p" using finishRepair_frame [OF finished(3)] repair_frame_fields by blast
  have att: "mget (p_Attempts p') attemptID = Some b" using k finished(6) by (simp add: kept_def)
  have key: "mget (p_Idempotency p') (finishKey inp) = Some (finishHash am inp)"
    using k finished(6) assms(3) by (simp add: kept_def)
  have "np_CurrentAttempt n = attemptID" using finished(1) by (simp add: finish_conditions_def)
  from finished_current [OF this, of am plan inp b p1] k
  obtain n' where n': "mget (p_Nodes p2) (a_NodeID b) = Some n'" "np_CurrentAttempt n' = attemptID"
    unfolding kept_def lineage_kept_def by metis
  have "in_PlanRevision inp = 0 \<or> in_PlanRevision inp = p_Revision p'"
    using finished(1,6) k rev by (auto simp: finish_conditions_def kept_def)
  moreover have "finishReplay inp (finishKey inp) (finishHash am inp) b p' = Some (Inr b)"
    using key assms(3,4) by (auto simp: finishReplay_def finishedAttempt_def)
  ultimately show ?thesis using att n' finished(6) by (auto simp: FinishAttempt_def Let_def)
qed

theorem FinishAttempt_idempotent_witness:
  "FinishAttempt exAmbient exPlan ''a1'' (exInput ''success'' (exResult ''ok'') None) (fst exFinish) =
     (fst exFinish, Inr (projr (snd exFinish)))"
proof (rule FinishAttempt_idempotent [OF exFinish_ok exFinish_changes(1)])
  show "finishKey (exInput ''success'' (exResult ''ok'') None) \<noteq> ''''" by code_simp
  show "finishedAttempt (projr (snd exFinish))" by code_simp
qed

text \<open>
  A rejected completion leaves the attempts, the plan status and outcome, the traversal counters, the
  decisions and the idempotency keys as they were.
\<close>

theorem FinishAttempt_rejected:
  assumes "FinishAttempt am plan attemptID inp p = (p', Inl e)"
  shows "p_Attempts p' = p_Attempts p \<and> p_Status p' = p_Status p \<and> p_TerminalOutcome p' = p_TerminalOutcome p \<and>
    p_Traversals p' = p_Traversals p \<and> p_Decisions p' = p_Decisions p \<and>
    (\<forall>k. mget (p_Idempotency p') k = mget (p_Idempotency p) k)"
  using assms
proof (cases rule: FinishAttempt_cases)
  case unchanged
  then show ?thesis by simp
next
  case (repair_error a n st e)
  then show ?thesis using finishRepair_frame [OF repair_error(3)] repair_frame_fields [of p p'] by simp
next
  case (route_error a n st p1 a1 p2 e')
  note f = repair_frame_fields [of p p1] finishRepair_frame [OF route_error(3)]
  note k = route_kept [OF route_error(4), unfolded kept_def]
  have "p_TerminalOutcome p2 = p_TerminalOutcome p" using route_error_outcome [OF route_error(4)] f by simp
  moreover obtain ds where "p_Decisions p2 = p_Decisions p @ ds" using k f by auto
  moreover have "p_Attempts p' = p_Attempts p" using FinishAttempt_attempts [OF assms] by auto
  moreover have "mget (p_Idempotency p') j = mget (p_Idempotency p) j" for j
    using k f route_error(5) by (auto simp: rollbackFinish_def split: option.splits)
  ultimately show ?thesis using f route_error(5) by (simp add: rollbackFinish_def)
next
  case (finished a n st p1 a1 b p2)
  then show ?thesis by simp
qed

definition exExhausted :: "PlanProjection \<times> (go_error + NodeAttempt)" where
  "exExhausted = FinishAttempt exAmbient exPlan ''a2'' (exInput ''bug'' (exResult ''bug'') None) (exChecking 2)"

theorem FinishAttempt_rejected_witness:
  "snd exExhausted = Inl ErrLoopExhausted \<and> p_Attempts (fst exExhausted) = p_Attempts (exChecking 2) \<and>
   p_Traversals (fst exExhausted) = [(''e2'', 2)]"
proof -
  have e: "snd exExhausted = Inl ErrLoopExhausted" by code_simp
  then have "FinishAttempt exAmbient exPlan ''a2'' (exInput ''bug'' (exResult ''bug'') None) (exChecking 2) =
      (fst exExhausted, Inl ErrLoopExhausted)" unfolding exExhausted_def by (metis prod.collapse)
  from FinishAttempt_rejected [OF this] e show ?thesis by (simp add: exChecking_def)
qed

text \<open>
  The usage of a rejected completion is charged all the same. The counters are not among what the code
  puts back when routing fails, so a completion refused with an exhausted loop still adds its tokens,
  and adds them again each time it is sent.
\<close>

theorem rejected_usage_charged:
  "snd exExhausted = Inl ErrLoopExhausted \<and> p_TokenUsage (exChecking 2) = 10 \<and> p_TokenUsage (fst exExhausted) = 15 \<and>
   p_TokenUsage (fst (FinishAttempt exAmbient exPlan ''a2'' (exInput ''bug'' (exResult ''bug'') None) (fst exExhausted))) = 20"
  by code_simp

text \<open>
  The fencing token is optional. A completion with token zero closes an attempt whose lease has token 1, while one with
  a wrong token is refused.
\<close>

theorem zero_token_accepted:
  "map_option a_Status (mget (p_Attempts (fst (FinishAttempt exAmbient exPlan ''a1'' ((exInput ''success'' (exResult ''ok'') None)\<lparr>in_LeaseToken := 0\<rparr>) exRunning))) ''a1'') =
     Some AttemptPassed \<and>
   snd (FinishAttempt exAmbient exPlan ''a1'' ((exInput ''success'' (exResult ''ok'') None)\<lparr>in_LeaseToken := 2\<rparr>) exRunning) = Inl ErrLeaseLost"
  by code_simp

text \<open>
  The budget test wraps around. A result that reports the largest 64-bit number of tokens passes the
  test against a budget of 1000 tokens and leaves a negative usage counter.
\<close>

theorem usage_overflow_accepted:
  "case FinishAttempt exAmbient exPlan ''a1''
       (exInput ''success'' ((exResult ''ok'')\<lparr>sr_Fields := [(''tokens'', VInt64 9223372036854775807)]\<rparr>) None) exRunning
   of (p', Inr b) \<Rightarrow> p_TokenUsage p' < 0 \<and> ValidateProjection p' \<noteq> None | (p', Inl e) \<Rightarrow> False"
  by code_simp

section \<open>Completions of repair attempts\<close>

lemma FinishAttempt_repair_target:
  assumes "FinishAttempt am plan attemptID inp p = (p', Inr b)" and "p' \<noteq> p"
    and a: "mget (p_Attempts p) attemptID = Some a" "a_RepairPlanID a \<noteq> ''''" "a_RepairState a \<noteq> RepairUnset"
    and kind: "n_Kind (nodeDef plan a) \<noteq> NodeRepair"
    and r: "mget (p_RepairPlans p) (a_RepairPlanID a) = Some r" "rpl_ID r = a_RepairPlanID a"
    and retry: "isRetryableRepairProviderFailure b"
  shows "mget (p_Attempts p') attemptID = Some b \<and>
    (\<exists>reason. mget (p_RepairPlans p') (a_RepairPlanID a) = Some (r\<lparr>rpl_LastReasonCode := reason\<rparr>))"
  using assms(1)
proof (cases rule: FinishAttempt_cases)
  case unchanged
  then show ?thesis using assms(2) by simp
next
  case (repair_error a n st e)
  then show ?thesis by simp
next
  case (route_error a n st p1 a1 p2 e)
  then show ?thesis by simp
next
  case (finished a' n st p1 a1 b' p2)
  have eq: "a' = a" "b' = b" using finished(1,7) a by (auto simp: finish_conditions_def)
  have same: "same_attempt (applyResult inp st a) a1" using finishRepair_frame [OF finished(3)] eq by simp
  then have "isRetryableRepairProviderFailure (applyResult inp st a)"
    using retry finished(4) eq by (auto simp: isRetryableRepairProviderFailure_def dest!: same_attempt_fields)
  then have p1: "p1 = putRepair r p" and a1: "a1 = (applyResult inp st a)\<lparr>a_RepairState := a_RepairState a\<rparr>"
    using finished(3) eq a kind r by (auto simp: finishRepair_def advanceRepairAttemptState_def)
  have k: "kept (recordedState am plan attemptID inp b n p1) p2" using finished(5) eq route_kept by auto
  then have "p_RepairPlans p2 = p_RepairPlans p1" "mget (p_Attempts p2) attemptID = Some b" by (auto simp: kept_def)
  moreover have "a_RepairPlanID b = a_RepairPlanID a" using a1 finished(4) eq by simp
  ultimately show ?thesis using finished(6) eq p1 a(2) r by (auto simp: noteReason_def)
qed

text \<open>
  A transient provider failure of a dispatched repair target cannot be persisted. The code keeps the
  repair plan in its dispatched state so that the node's retry can reopen the target, as its comment
  says, but \<open>Validate\<close> demands a running target attempt for that state: every such completion, though
  accepted by the reducer, leaves a projection that \<open>Validate\<close> rejects.
\<close>

theorem retryable_target_failure_rejected:
  assumes "FinishAttempt am plan attemptID inp p = (p', Inr b)" and "p' \<noteq> p"
    and "mget (p_Attempts p) attemptID = Some a" and "a_RepairPlanID a \<noteq> ''''" and "a_RepairState a = RepairDispatched"
    and "n_Kind (find_node (g_Nodes (pl_GraphSnapshot plan)) (a_NodeID a)) \<noteq> NodeRepair"
    and "mget (p_RepairPlans p) (a_RepairPlanID a) = Some r" and "rpl_ID r = a_RepairPlanID a"
    and "rpl_State r = RepairDispatched" and "rpl_TargetAttemptID r = attemptID"
    and "isRetryableRepairProviderFailure b"
  shows "ValidateProjection p' \<noteq> None"
proof
  assume "ValidateProjection p' = None"
  then have "mall (\<lambda>_. repair_ok_target (p_Attempts p')) (p_RepairPlans p')"
    by (simp add: ValidateProjection_iff projection_ok_def)
  moreover obtain reason where "mget (p_Attempts p') attemptID = Some b"
    "mget (p_RepairPlans p') (a_RepairPlanID a) = Some (r\<lparr>rpl_LastReasonCode := reason\<rparr>)"
    using FinishAttempt_repair_target [OF assms(1-4) _ assms(6-8,11)] assms(5) by auto
  ultimately have "a_Status b = AttemptRunning"
    using mall_mget [of "\<lambda>_. repair_ok_target (p_Attempts p')"] assms(9,10) by (fastforce simp: repair_ok_target_def)
  then show False using assms(11) by (simp add: isRetryableRepairProviderFailure_def)
qed

theorem retryable_target_failure_rejected_witness:
  "ValidateProjection exRepairing = None \<and> ValidateProjection (fst exRepairFinish) \<noteq> None"
proof
  show "ValidateProjection exRepairing = None" by code_simp
  let ?a = "(exAttempt ''a4'' ''impl'' AttemptRunning)\<lparr>a_AttemptNo := 2, a_RepairState := RepairDispatched,
    a_RepairPlanID := ''rp''\<rparr>"
  have a: "mget (p_Attempts exRepairing) ''a4'' = Some ?a" by (simp add: exRepairing_def)
  have f: "a_RepairPlanID ?a \<noteq> ''''" "a_RepairState ?a = RepairDispatched" by simp_all
  have r: "mget (p_RepairPlans exRepairing) (a_RepairPlanID ?a) = Some exRepair" by (simp add: exRepairing_def)
  have s: "rpl_ID exRepair = a_RepairPlanID ?a" "rpl_State exRepair = RepairDispatched"
    "rpl_TargetAttemptID exRepair = ''a4''" by (simp_all add: exRepair_def)
  have k: "n_Kind (find_node (g_Nodes (pl_GraphSnapshot exPlan)) (a_NodeID ?a)) \<noteq> NodeRepair" by code_simp
  have t: "isRetryableRepairProviderFailure (projr (snd exRepairFinish))" by code_simp
  show "ValidateProjection (fst exRepairFinish) \<noteq> None"
    by (rule retryable_target_failure_rejected [OF exRepairFinish_ok exFinish_changes(2) a f k r s t])
qed

end
