(* ===== verification/Transition_System.thy ===== *)
theory Transition_System
  imports Main
begin

text \<open>
  The contract of a stateful component: a set of initial states, a step relation, an invariant that
  every step keeps. What holds of every reachable state and along every run is proved here once; the
  components interpret the locales on their own operations.
\<close>

locale invariant_system =
  fixes init :: "'s \<Rightarrow> bool"
    and step :: "'s \<Rightarrow> 's \<Rightarrow> bool"
    and inv :: "'s \<Rightarrow> bool"
  assumes inv_init: "init s \<Longrightarrow> inv s"
    and inv_step: "inv s \<Longrightarrow> step s t \<Longrightarrow> inv t"
begin

lemma inv_run: "step\<^sup>*\<^sup>* s t \<Longrightarrow> inv s \<Longrightarrow> inv t"
  by (induction rule: rtranclp_induct) (auto intro: inv_step)

lemma inv_reachable: "init s \<Longrightarrow> step\<^sup>*\<^sup>* s t \<Longrightarrow> inv t"
  using inv_init inv_run by blast

end

text \<open>A relation between the states before and after that every step keeps, such as growth of a log.\<close>

locale history_system = invariant_system init step inv
  for init :: "'s \<Rightarrow> bool" and step :: "'s \<Rightarrow> 's \<Rightarrow> bool" and inv :: "'s \<Rightarrow> bool" +
  fixes before :: "'s \<Rightarrow> 's \<Rightarrow> bool"
  assumes before_refl: "before s s"
    and before_trans: "before s t \<Longrightarrow> before t u \<Longrightarrow> before s u"
    and before_step: "inv s \<Longrightarrow> step s t \<Longrightarrow> before s t"
begin

lemma before_run: "step\<^sup>*\<^sup>* s t \<Longrightarrow> inv s \<Longrightarrow> before s t"
proof (induction rule: rtranclp_induct)
  case base
  then show ?case by (simp add: before_refl)
next
  case (step t u)
  then have "before s t" "inv t" using inv_run by auto
  then show ?case using step(2) before_step before_trans by blast
qed

lemma before_reachable: "init r \<Longrightarrow> step\<^sup>*\<^sup>* r s \<Longrightarrow> step\<^sup>*\<^sup>* s t \<Longrightarrow> before s t"
  using before_run inv_reachable by blast

end

text \<open>
  A refinement: the steps of an implementation that keeps an invariant are, seen through an abstraction, steps of an
  abstract machine or no change. Its runs are then runs of the abstract machine.
\<close>

locale refinement =
  fixes cstep :: "'c \<Rightarrow> 'c \<Rightarrow> bool"
    and cinv :: "'c \<Rightarrow> bool"
    and abs :: "'c \<Rightarrow> 'a"
    and astep :: "'a \<Rightarrow> 'a \<Rightarrow> bool"
  assumes cinv_step: "cinv s \<Longrightarrow> cstep s t \<Longrightarrow> cinv t"
    and sim_step: "cinv s \<Longrightarrow> cstep s t \<Longrightarrow> abs t = abs s \<or> astep (abs s) (abs t)"
begin

lemma sim_run: "cstep\<^sup>*\<^sup>* s t \<Longrightarrow> cinv s \<Longrightarrow> cinv t \<and> astep\<^sup>*\<^sup>* (abs s) (abs t)"
proof (induction rule: rtranclp_induct)
  case base
  then show ?case by simp
next
  case (step t u)
  then have t: "cinv t" "astep\<^sup>*\<^sup>* (abs s) (abs t)" by auto
  then show ?case using sim_step [OF t(1) step(2)] cinv_step [OF t(1) step(2)] by (auto intro: rtranclp.rtrancl_into_rtrancl)
qed

end

end
