(* ===== verification/Orch_Scheduler.thy ===== *)
theory Orch_Scheduler
  imports Orch_Finish Transition_System
begin

text \<open>
  The scheduler (\<open>scheduler.go\<close>): the ready queue derived from a projection, the operator actions
  \<open>Retry\<close>, \<open>Cancel\<close>, \<open>Timeout\<close> and \<open>TakeOver\<close>, the capacity limits of a tick, and the reducer as a
  transition system over \<open>StartAttempt\<close>, \<open>FinishAttempt\<close> and these actions.
\<close>

section \<open>The ready queue\<close>

definition incomingEdges :: "WorkflowGraph \<Rightarrow> (string, WorkflowEdge list) gomap" where
  "incomingEdges g = group_into e_To (\<lambda>e. e) (g_Edges g)"

definition sourceNode :: "PlanProjection \<Rightarrow> WorkflowEdge \<Rightarrow> NodeProjection" where
  "sourceNode p e = mget0 zeroNodeProjection (p_Nodes p) (e_From e)"

text \<open>The committed attempt behind an edge, if its source has one and the edge is satisfied by it.\<close>

definition satisfiedBy :: "PlanProjection \<Rightarrow> WorkflowEdge \<Rightarrow> NodeAttempt option" where
  "satisfiedBy p e =
     (if np_CurrentAttempt (sourceNode p e) = '''' then None
      else case mget (p_Attempts p) (np_CurrentAttempt (sourceNode p e)) of
        None \<Rightarrow> None
      | Some a \<Rightarrow> if edgeSatisfied e a then Some a else None)"

definition passedCount :: "PlanProjection \<Rightarrow> WorkflowEdge list \<Rightarrow> int" where
  "passedCount p es = int (length (filter (\<lambda>e. satisfiedBy p e \<noteq> None) es))"

definition failedCount :: "PlanProjection \<Rightarrow> WorkflowEdge list \<Rightarrow> int" where
  "failedCount p es = int (length (filter (\<lambda>e. np_Status (sourceNode p e) \<in>
     set [AttemptFailed, AttemptTimedOut, AttemptCancelled]) es))"

definition joinShortCircuit :: "PlanProjection \<Rightarrow> WorkflowNode \<Rightarrow> WorkflowEdge list \<Rightarrow> bool" where
  "joinShortCircuit p n es \<longleftrightarrow> n_JoinFailurePolicy n = ''short_circuit'' \<and>
     list_ex (\<lambda>e. opt_any (\<lambda>a. a_Status a \<noteq> AttemptPassed \<and> e_On e \<noteq> EdgeSuccess) (satisfiedBy p e)) es"

definition joinNeed :: "WorkflowNode \<Rightarrow> int \<Rightarrow> int" where
  "joinNeed n edges =
     (case n_JoinPolicy n of
        JoinAll \<Rightarrow> edges
      | JoinQuorum \<Rightarrow> if n_JoinQuorum n \<le> 0 then edges div 2 + 1 else n_JoinQuorum n
      | _ \<Rightarrow> 1)"

text \<open>The body of the loop over the nodes.\<close>

definition nodeReady :: "RequirementExecutionPlan \<Rightarrow> PlanProjection \<Rightarrow> int \<Rightarrow> WorkflowNode \<Rightarrow> bool" where
  "nodeReady plan p now n =
     (let state = mget0 zeroNodeProjection (p_Nodes p) (n_ID n);
          edges = mget0 [] (incomingEdges (pl_GraphSnapshot plan)) (n_ID n);
          need = (if n_JoinFailurePolicy n = ''short_circuit'' \<and> 0 < failedCount p edges \<and> joinShortCircuit p n edges
            then 0 else joinNeed n (int (length edges)))
      in np_Status state = AttemptReady \<and> \<not> opt_any (\<lambda>t. now < t) (np_RetryAt state) \<and>
         (edges = [] \<or> need \<le> passedCount p edges))"

definition readyNodesAt :: "RequirementExecutionPlan \<Rightarrow> PlanProjection \<Rightarrow> int \<Rightarrow> WorkflowNode list" where
  "readyNodesAt plan p now =
     sort_stable (\<lambda>x y. n_ID x < n_ID y) (filter (nodeReady plan p now) (mvals (nodeMap (g_Nodes (pl_GraphSnapshot plan)))))"

section \<open>Operator actions\<close>

definition Retry :: "string \<Rightarrow> PlanProjection \<Rightarrow> PlanProjection \<times> go_error option" where
  "Retry nodeID p =
     (case mget (p_Nodes p) (TrimSpace nodeID) of
        None \<Rightarrow> (p, Some (Errorf ''unknown node %q'' [ArgS nodeID]))
      | Some n \<Rightarrow>
          if np_Status n \<noteq> AttemptFailed \<and> np_Status n \<noteq> AttemptTimedOut then (p, Some ErrInvalidTransition)
          else (p\<lparr>p_Nodes := mput nodeID (n\<lparr>np_Status := AttemptReady\<rparr>) (p_Nodes p),
                  p_Status := (if p_Status p = PlanTerminal then PlanRunning else p_Status p)\<rparr>, None))"

definition operatorInput ::
  "RequirementExecutionPlan \<Rightarrow> string \<Rightarrow> int \<Rightarrow> string \<Rightarrow> StructuredResult \<Rightarrow> FailureReason \<Rightarrow> int \<Rightarrow> TransitionInput" where
  "operatorInput plan attemptID token event result failure now =
     \<lparr>in_PlanRevision = pl_Revision plan, in_AttemptID = attemptID, in_LeaseToken = token, in_Event = event,
      in_Result = result, in_Failure = Some failure, in_OutputArtifacts = [], in_IdempotencyKey = '''',
      in_PayloadHash = '''', in_Now = now\<rparr>"

definition operatorResult :: "string \<Rightarrow> string \<Rightarrow> string \<Rightarrow> StructuredResult" where
  "operatorResult outcome summary evidence =
     zeroResult\<lparr>sr_Outcome := outcome, sr_Summary := summary, sr_EvidenceIDs := [evidence]\<rparr>"

definition Cancel ::
  "Ambient \<Rightarrow> RequirementExecutionPlan \<Rightarrow> string \<Rightarrow> int \<Rightarrow> string \<Rightarrow> PlanProjection \<Rightarrow> PlanProjection \<times> (go_error + NodeAttempt)" where
  "Cancel am plan attemptID token reason p =
     FinishAttempt am plan attemptID (operatorInput plan attemptID token ''cancel''
       (operatorResult ''cancelled'' reason (''cancel:'' @ attemptID))
       \<lparr>f_Code = ''cancelled'', f_Message = reason, f_Retryable = False\<rparr> 0) p"

definition Timeout ::
  "Ambient \<Rightarrow> RequirementExecutionPlan \<Rightarrow> string \<Rightarrow> int \<Rightarrow> string \<Rightarrow> PlanProjection \<Rightarrow> PlanProjection \<times> (go_error + NodeAttempt)" where
  "Timeout am plan attemptID token reason p =
     FinishAttempt am plan attemptID (operatorInput plan attemptID token ''timeout''
       (operatorResult ''timeout'' reason (''timeout:'' @ attemptID))
       \<lparr>f_Code = ''timeout'', f_Message = reason, f_Retryable = True\<rparr> 0) p"

text \<open>The attempt with its lease moved to the new owner; \<open>FencingToken++\<close> wraps around.\<close>

definition takenOver :: "string \<Rightarrow> int \<Rightarrow> NodeAttempt \<Rightarrow> NodeAttempt" where
  "takenOver owner now a = a\<lparr>a_Lease := (a_Lease a)\<lparr>l_Owner := owner,
     l_FencingToken := wrap64 (l_FencingToken (a_Lease a) + 1), l_ExpiresAt := now + 15 * minute\<rparr>\<rparr>"

definition TakeOver ::
  "Ambient \<Rightarrow> RequirementExecutionPlan \<Rightarrow> string \<Rightarrow> string \<Rightarrow> int \<Rightarrow> PlanProjection \<Rightarrow> PlanProjection \<times> go_error option" where
  "TakeOver am plan attemptID owner t p =
     (case mget (p_Attempts p) attemptID of
        None \<Rightarrow> (p, Some ErrStaleAttempt)
      | Some a \<Rightarrow>
          if a_Status a \<noteq> AttemptRunning then (p, Some ErrInvalidTransition)
          else if owner = '''' then (p, Some (Errorf ''takeover owner is required'' []))
          else
            (let now = nowOf am t; a' = takenOver owner now a;
                 p1 = p\<lparr>p_Attempts := mput attemptID a' (p_Attempts p)\<rparr>
             in case FinishAttempt am plan attemptID (operatorInput plan '''' (l_FencingToken (a_Lease a')) ''timeout''
                   (operatorResult ''timeout'' ''human takeover'' (''human-takeover:'' @ attemptID))
                   \<lparr>f_Code = ''human_takeover'', f_Message = ''attempt taken over'', f_Retryable = True\<rparr> now) p1
                of (p2, Inl e) \<Rightarrow> (p2, Some e) | (p2, Inr b) \<Rightarrow> (p2, None)))"

section \<open>Capacity\<close>

definition limitForStructural :: "RequirementExecutionPlan \<Rightarrow> int \<Rightarrow> int" where
  "limitForStructural plan configured =
     (let limit = (if configured \<le> 0 then int (length (g_Nodes (pl_GraphSnapshot plan))) else configured);
          concurrent = b_Concurrent (ps_Budget (pl_PolicySnapshot plan))
      in if 0 < concurrent \<and> concurrent < limit then concurrent else limit)"

text \<open>The permits \<open>Tick\<close> computes before it dispatches: 0 means that it must not dispatch.\<close>

definition tickLimit :: "RequirementExecutionPlan \<Rightarrow> int \<Rightarrow> int \<Rightarrow> PlanProjection \<Rightarrow> int" where
  "tickLimit plan configured ready p =
     (let limit = (if configured \<le> 0 then ready else configured);
          concurrent = b_Concurrent (ps_Budget (pl_PolicySnapshot plan));
          capped = (if 0 < concurrent \<and> concurrent < limit then concurrent else limit);
          available = capped - runningCount p;
          final = (if available < capped then available else capped)
      in if final < 0 then 0 else final)"

definition containsAttemptNode :: "NodeAttempt list \<Rightarrow> string \<Rightarrow> bool" where
  "containsAttemptNode attempts nodeID \<longleftrightarrow> list_ex (\<lambda>a. a_NodeID a = nodeID) attempts"

section \<open>The reducer as a transition system\<close>

inductive reducer_step :: "RequirementExecutionPlan \<Rightarrow> PlanProjection \<Rightarrow> PlanProjection \<Rightarrow> bool" for plan where
  start: "StartAttempt am plan nodeID attemptID attemptNo lease c inp p = (p', res) \<Longrightarrow> reducer_step plan p p'"
| finish: "FinishAttempt am plan attemptID inp p = (p', res) \<Longrightarrow> reducer_step plan p p'"
| retry: "Retry nodeID p = (p', r) \<Longrightarrow> reducer_step plan p p'"
| takeover: "TakeOver am plan attemptID owner t p = (p', r) \<Longrightarrow> reducer_step plan p p'"

definition initial_projection :: "RequirementExecutionPlan \<Rightarrow> PlanProjection \<Rightarrow> bool" where
  "initial_projection plan p \<longleftrightarrow> NewProjection plan = Inr p"

text \<open>
  What every reachable projection has: its attempts are filed under their own IDs, belong to the plan,
  and no two attempts of a node have the same number.
\<close>

definition attempts_inv :: "RequirementExecutionPlan \<Rightarrow> PlanProjection \<Rightarrow> bool" where
  "attempts_inv plan p \<longleftrightarrow> mwf (p_Attempts p) \<and>
     (\<forall>k a. mget (p_Attempts p) k = Some a \<longrightarrow> a_ID a = k \<and> a_PlanID a = pl_ID plan) \<and>
     (\<forall>k j a b. mget (p_Attempts p) k = Some a \<longrightarrow> mget (p_Attempts p) j = Some b \<longrightarrow>
        a_NodeID a = a_NodeID b \<longrightarrow> a_AttemptNo a = a_AttemptNo b \<longrightarrow> k = j)"

text \<open>What every step keeps of the attempts: none is lost, finished ones do not change, and no attempt
  changes its identity, node, number or input.\<close>

definition attempt_before :: "NodeAttempt \<Rightarrow> NodeAttempt \<Rightarrow> bool" where
  "attempt_before a b \<longleftrightarrow> (finishedAttempt a \<longrightarrow> b = a) \<and> a_ID b = a_ID a \<and> a_PlanID b = a_PlanID a \<and>
     a_NodeID b = a_NodeID a \<and> a_AttemptNo b = a_AttemptNo a \<and> a_InputManifest b = a_InputManifest a"

definition attempts_before :: "PlanProjection \<Rightarrow> PlanProjection \<Rightarrow> bool" where
  "attempts_before p p' \<longleftrightarrow>
     (\<forall>k a. mget (p_Attempts p) k = Some a \<longrightarrow> (\<exists>b. mget (p_Attempts p') k = Some b \<and> attempt_before a b))"

lemma attempt_before_refl [simp]: "attempt_before a a"
  by (simp add: attempt_before_def)

lemma attempt_before_trans: "attempt_before a b \<Longrightarrow> attempt_before b c \<Longrightarrow> attempt_before a c"
  by (auto simp: attempt_before_def)

lemma attempts_before_refl: "attempts_before p p"
  by (simp add: attempts_before_def)

lemma attempts_before_trans: "attempts_before p q \<Longrightarrow> attempts_before q r \<Longrightarrow> attempts_before p r"
  unfolding attempts_before_def using attempt_before_trans by blast

lemma attempts_same:
  "p_Attempts p' = p_Attempts p \<Longrightarrow> attempts_inv plan p \<Longrightarrow> attempts_inv plan p' \<and> attempts_before p p'"
  by (auto simp: attempts_inv_def attempts_before_def)

lemma attempts_replace:
  assumes inv: "attempts_inv plan p" and get: "mget (p_Attempts p) k = Some a" and "\<not> finishedAttempt a"
    and same: "a_ID b = a_ID a" "a_PlanID b = a_PlanID a" "a_NodeID b = a_NodeID a" "a_AttemptNo b = a_AttemptNo a"
      "a_InputManifest b = a_InputManifest a"
    and p': "p_Attempts p' = mput k b (p_Attempts p)"
  shows "attempts_inv plan p' \<and> attempts_before p p'"
proof
  show "attempts_before p p'" using assms by (auto simp: attempts_before_def attempt_before_def)
  have old: "\<exists>y. mget (p_Attempts p) j = Some y \<and> a_ID x = a_ID y \<and> a_PlanID x = a_PlanID y \<and> a_NodeID x = a_NodeID y \<and>
      a_AttemptNo x = a_AttemptNo y" if "mget (p_Attempts p') j = Some x" for j x
    using that get same p' by (auto split: if_splits)
  show "attempts_inv plan p'"
    unfolding attempts_inv_def
  proof (intro conjI allI impI)
    show "mwf (p_Attempts p')" using inv p' by (simp add: attempts_inv_def)
    show "a_ID x = j" "a_PlanID x = pl_ID plan" if "mget (p_Attempts p') j = Some x" for j x
      using old [OF that] inv by (auto simp: attempts_inv_def)
    show "i = j" if "mget (p_Attempts p') i = Some x" "mget (p_Attempts p') j = Some y" "a_NodeID x = a_NodeID y"
      "a_AttemptNo x = a_AttemptNo y" for i j x y
      using old [OF that(1)] old [OF that(2)] that(3,4) inv unfolding attempts_inv_def by metis
  qed
qed

lemma attempts_add:
  assumes "attempts_inv plan p" and "mget (p_Attempts p) k = None" and "a_ID b = k" and "a_PlanID b = pl_ID plan"
    and "\<forall>a\<in>set (mvals (p_Attempts p)). a_PlanID a = pl_ID plan \<longrightarrow> a_NodeID a = a_NodeID b \<longrightarrow> a_AttemptNo a \<noteq> a_AttemptNo b"
    and "p_Attempts p' = mput k b (p_Attempts p)"
  shows "attempts_inv plan p' \<and> attempts_before p p'"
proof
  show "attempts_before p p'" using assms(2,6) by (auto simp: attempts_before_def)
  have new: "\<not> (a_NodeID a = a_NodeID b \<and> a_AttemptNo a = a_AttemptNo b)" if "mget (p_Attempts p) j = Some a" for j a
    using assms(1,5) that mget_in_vals [OF that] by (auto simp: attempts_inv_def)
  show "attempts_inv plan p'"
    unfolding attempts_inv_def
  proof (intro conjI allI impI)
    show "mwf (p_Attempts p')" using assms(1,6) by (simp add: attempts_inv_def)
    show "a_ID x = j" "a_PlanID x = pl_ID plan" if "mget (p_Attempts p') j = Some x" for j x
      using that assms(1,3,4,6) by (auto simp: attempts_inv_def split: if_splits)
    show "i = j" if "mget (p_Attempts p') i = Some x" "mget (p_Attempts p') j = Some y" "a_NodeID x = a_NodeID y"
      "a_AttemptNo x = a_AttemptNo y" for i j x y
    proof (cases "i = k \<or> j = k")
      case True
      then show ?thesis using that assms(6) new [of i x] new [of j y] by (auto split: if_splits)
    next
      case False
      then show ?thesis using that assms(1,6) unfolding attempts_inv_def by auto
    qed
  qed
qed

lemma start_attempts:
  assumes "StartAttempt am plan nodeID attemptID attemptNo lease c inp p = (p', res)" and "attempts_inv plan p"
  shows "attempts_inv plan p' \<and> attempts_before p p'"
  using assms(1)
proof (cases rule: StartAttempt_cases)
  case (error e)
  then show ?thesis using assms(2) attempts_same by simp
next
  case (replay a)
  then show ?thesis using assms(2) attempts_same by simp
next
  case (fresh a n no)
  show ?thesis
  proof (rule attempts_add [OF assms(2)])
    show "mget (p_Attempts p) attemptID = None" using fresh(5) by (simp add: start_conditions_def)
    show "a_ID a = attemptID" "a_PlanID a = pl_ID plan" "p_Attempts p' = mput attemptID a (p_Attempts p)"
      using fresh by simp_all
    show "\<forall>b\<in>set (mvals (p_Attempts p)). a_PlanID b = pl_ID plan \<longrightarrow> a_NodeID b = a_NodeID a \<longrightarrow> a_AttemptNo b \<noteq> a_AttemptNo a"
      using fresh(2,5) by (auto simp: start_conditions_def startLeaseChecks_def check_simps list_ex_iff)
  qed
qed

lemma finish_attempts:
  assumes "FinishAttempt am plan attemptID inp p = (p', res)" and "attempts_inv plan p"
  shows "attempts_inv plan p' \<and> attempts_before p p'"
  using FinishAttempt_attempts [OF assms(1)]
proof (elim disjE exE conjE)
  assume "p_Attempts p' = p_Attempts p"
  then show ?thesis using attempts_same assms(2) by blast
next
  fix a b
  assume a: "mget (p_Attempts p) attemptID = Some a" "a_Status a = AttemptRunning"
    and b: "p_Attempts p' = mput attemptID b (p_Attempts p)" "a_ID b = a_ID a" "a_PlanID b = a_PlanID a"
    "a_NodeID b = a_NodeID a" "a_AttemptNo b = a_AttemptNo a" "a_InputManifest b = a_InputManifest a"
  then show ?thesis using attempts_replace [OF assms(2) a(1) _ b(2-6) b(1)] by (simp add: finishedAttempt_def)
next
  fix a b
  assume a: "mget (p_Attempts p) attemptID = Some a" "a_Status a = AttemptWaiting"
    and b: "p_Attempts p' = mput attemptID b (p_Attempts p)" "a_ID b = a_ID a" "a_PlanID b = a_PlanID a"
    "a_NodeID b = a_NodeID a" "a_AttemptNo b = a_AttemptNo a" "a_InputManifest b = a_InputManifest a"
  then show ?thesis using attempts_replace [OF assms(2) a(1) _ b(2-6) b(1)] by (simp add: finishedAttempt_def)
qed

lemma takeover_attempts:
  assumes "TakeOver am plan attemptID owner t p = (p', r)" and "attempts_inv plan p"
  shows "attempts_inv plan p' \<and> attempts_before p p'"
proof (cases "\<exists>a. mget (p_Attempts p) attemptID = Some a \<and> a_Status a = AttemptRunning \<and> owner \<noteq> ''''")
  case False
  then have "p' = p" using assms(1) by (auto simp: TakeOver_def split: option.splits if_splits)
  then show ?thesis using attempts_same assms(2) by simp
next
  case True
  then obtain a where a: "mget (p_Attempts p) attemptID = Some a" "a_Status a = AttemptRunning" "owner \<noteq> ''''" by blast
  define b where "b = takenOver owner (nowOf am t) a"
  define p1 where "p1 = p\<lparr>p_Attempts := mput attemptID b (p_Attempts p)\<rparr>"
  have p1: "attempts_inv plan p1 \<and> attempts_before p p1"
    by (rule attempts_replace [OF assms(2) a(1)])
      (use a(2) in \<open>simp_all add: p1_def b_def takenOver_def finishedAttempt_def\<close>)
  obtain res inp where "FinishAttempt am plan attemptID inp p1 = (p', res)"
    using assms(1) a by (auto simp: TakeOver_def Let_def p1_def b_def split: prod.splits sum.splits)
  then show ?thesis using finish_attempts p1 attempts_before_trans by blast
qed

lemma reducer_step_attempts:
  "reducer_step plan p p' \<Longrightarrow> attempts_inv plan p \<Longrightarrow> attempts_inv plan p' \<and> attempts_before p p'"
proof (induction rule: reducer_step.induct)
  case (start am nodeID attemptID attemptNo lease c inp p p' res)
  then show ?case by (rule start_attempts)
next
  case (finish am attemptID inp p p' res)
  then show ?case by (rule finish_attempts)
next
  case (retry nodeID p p' r)
  then have "p_Attempts p' = p_Attempts p" by (auto simp: Retry_def split: option.splits if_splits)
  then show ?case using attempts_same retry(2) by blast
next
  case (takeover am attemptID owner t p p' r)
  then show ?case by (rule takeover_attempts)
qed

lemma initial_attempts: "initial_projection plan p \<Longrightarrow> attempts_inv plan p"
proof -
  assume "initial_projection plan p"
  then have "p = (emptyProjection plan)\<lparr>p_Nodes := p_Nodes p\<rparr>"
    unfolding initial_projection_def using NewProjection_Inr [of plan p] by blast
  then have "p_Attempts p = []" by (metis PlanProjection.select_convs(6) PlanProjection.surjective PlanProjection.update_convs(5) emptyProjection_def)
  then show ?thesis by (simp add: attempts_inv_def)
qed

interpretation reducer: history_system "initial_projection plan" "reducer_step plan" "attempts_inv plan" attempts_before
  for plan
  by unfold_locales
    (auto dest: reducer_step_attempts initial_attempts intro: attempts_before_refl attempts_before_trans)

section \<open>Properties\<close>

text \<open>
  C2: History is immutable. From the initial projection on, along every interleaving of starts, completions,
  retries and takeovers, whether they succeed or fail, no attempt is lost and an attempt that has
  finished never changes again.
\<close>

theorem reducer_history:
  assumes "NewProjection plan = Inr r" and "(reducer_step plan)\<^sup>*\<^sup>* r s" and "(reducer_step plan)\<^sup>*\<^sup>* s t"
    and "mget (p_Attempts s) k = Some a"
  shows "\<exists>b. mget (p_Attempts t) k = Some b \<and> attempt_before a b \<and> (finishedAttempt a \<longrightarrow> b = a)"
proof -
  have "initial_projection plan r" using assms(1) by (simp add: initial_projection_def)
  then have "attempts_before s t" using assms(2,3) by (rule reducer.before_reachable)
  then show ?thesis using assms(4) by (auto simp: attempts_before_def attempt_before_def)
qed

definition exRun1 :: PlanProjection where "exRun1 = fst (exStart ''impl'')"

definition exRun2 :: PlanProjection where
  "exRun2 = fst (FinishAttempt exAmbient exPlan ''a1'' (exInput ''success'' (exResult ''ok'') None) exRun1)"

definition exRun3 :: PlanProjection where
  "exRun3 = fst (StartAttempt exAmbient exPlan ''qa'' ''a2'' 0 exLease exEnvelope
     (exStartInput\<lparr>in_IdempotencyKey := ''start2''\<rparr>) exRun2)"

lemma exRun_new: "NewProjection exPlan = Inr exFresh"
proof -
  have "\<not> isl (NewProjection exPlan)" by code_simp
  then show ?thesis by (simp add: exFresh_def)
qed

lemma exRun_steps: "reducer_step exPlan exFresh exRun1" "reducer_step exPlan exRun1 exRun2" "reducer_step exPlan exRun2 exRun3"
proof -
  show "reducer_step exPlan exFresh exRun1"
    unfolding exRun1_def exStart_def by (rule reducer_step.start) (rule surjective_pairing)
  show "reducer_step exPlan exRun1 exRun2"
    unfolding exRun2_def by (rule reducer_step.finish) (rule surjective_pairing)
  show "reducer_step exPlan exRun2 exRun3"
    unfolding exRun3_def by (rule reducer_step.start) (rule surjective_pairing)
qed

theorem reducer_history_witness:
  "\<exists>a. mget (p_Attempts exRun2) ''a1'' = Some a \<and> a_Status a = AttemptPassed \<and> mget (p_Attempts exRun3) ''a1'' = Some a"
proof -
  have "opt_any (\<lambda>a. a_Status a = AttemptPassed) (mget (p_Attempts exRun2) ''a1'')" by code_simp
  then obtain a where a: "mget (p_Attempts exRun2) ''a1'' = Some a" "a_Status a = AttemptPassed"
    by (auto simp: opt_any_def split: option.splits)
  have r: "(reducer_step exPlan)\<^sup>*\<^sup>* exFresh exRun2" using exRun_steps(1,2) by (meson r_into_rtranclp rtranclp.rtrancl_into_rtrancl)
  have s: "(reducer_step exPlan)\<^sup>*\<^sup>* exRun2 exRun3" using exRun_steps(3) by (rule r_into_rtranclp)
  from reducer_history [OF exRun_new r s a(1)] a show ?thesis by (auto simp: finishedAttempt_def)
qed

text \<open>
  Attempt numbers are unique. In every projection the reducer can reach, the attempts are filed under
  their own IDs, belong to the plan, and two attempts of one node never share a number.
\<close>

theorem reducer_attempt_numbers:
  assumes "NewProjection plan = Inr r" and "(reducer_step plan)\<^sup>*\<^sup>* r s"
    and "mget (p_Attempts s) k = Some a" and "mget (p_Attempts s) j = Some b"
    and "a_NodeID a = a_NodeID b" and "a_AttemptNo a = a_AttemptNo b"
  shows "k = j \<and> a = b \<and> a_ID a = k \<and> a_PlanID a = pl_ID plan"
proof -
  have "initial_projection plan r" using assms(1) by (simp add: initial_projection_def)
  then have "attempts_inv plan s" using assms(2) by (rule reducer.inv_reachable)
  then have "k = j" "a_ID a = k" "a_PlanID a = pl_ID plan" using assms(3-6) unfolding attempts_inv_def by blast+
  then show ?thesis using assms(3,4) by simp
qed

theorem reducer_attempt_numbers_witness:
  "\<exists>a. mget (p_Attempts exRun1) ''a1'' = Some a \<and> a_ID a = ''a1'' \<and> a_PlanID a = pl_ID exPlan"
proof -
  have "mget (p_Attempts exRun1) ''a1'' \<noteq> None" by code_simp
  then obtain a where a: "mget (p_Attempts exRun1) ''a1'' = Some a" by auto
  have "(reducer_step exPlan)\<^sup>*\<^sup>* exFresh exRun1" using exRun_steps(1) by (rule r_into_rtranclp)
  from reducer_attempt_numbers [OF exRun_new this a a] show ?thesis using a by auto
qed

lemma find_node_self: "distinct (map n_ID ns) \<Longrightarrow> n \<in> set ns \<Longrightarrow> find_node ns (n_ID n) = n"
  by (induction ns) auto

lemma mwf_nodeMap: "mwf (nodeMap ns)"
proof -
  have "mwf m \<Longrightarrow> mwf (fold (\<lambda>n m. mput (n_ID n) n m) ns m)" for m by (induction ns arbitrary: m) auto
  then show ?thesis by (simp add: nodeMap_def)
qed

lemma nodeMap_fold_key:
  "mget (fold (\<lambda>n m. mput (n_ID n) n m) ns m) k = Some n \<Longrightarrow> (n_ID n = k \<and> n \<in> set ns) \<or> mget m k = Some n"
proof (induction ns arbitrary: m)
  case Nil
  then show ?case by simp
next
  case (Cons x ns)
  show ?case using Cons.IH [of "mput (n_ID x) x m"] Cons.prems by (auto split: if_splits)
qed

lemma nodeMap_key: "mget (nodeMap ns) k = Some n \<Longrightarrow> n_ID n = k \<and> n \<in> set ns"
  using nodeMap_fold_key [of ns "[]" k n] by (simp add: nodeMap_def)

lemma nodeMap_vals:
  assumes "distinct (map n_ID ns)"
  shows "set (mvals (nodeMap ns)) = set ns" and "distinct (map n_ID (mvals (nodeMap ns)))"
proof -
  have "n \<in> set (mvals (nodeMap ns)) \<longleftrightarrow> n \<in> set ns" for n
    using mvals_mget [OF mwf_nodeMap, of n ns] nodeMap_key [of ns _ n] mget_nodeMap [OF assms, of "n_ID n"]
      find_node_self [OF assms, of n] by (metis imageI)
  then show "set (mvals (nodeMap ns)) = set ns" by blast
  have "n_ID (snd kn) = fst kn" if "kn \<in> set (nodeMap ns)" for kn
    using that map_of_is_SomeI [OF mwf_nodeMap, of "fst kn" "snd kn" ns] nodeMap_key [of ns "fst kn" "snd kn"] by simp
  then have "map n_ID (mvals (nodeMap ns)) = mkeys (nodeMap ns)" by simp
  then show "distinct (map n_ID (mvals (nodeMap ns)))" using mwf_nodeMap by metis
qed

lemma sorted_insert_nodes:
  "sorted (map n_ID ys) \<Longrightarrow> sorted (map n_ID (insert_stable (\<lambda>x y. n_ID x < n_ID y) x ys))"
  by (induction ys) (auto simp: not_less)

text \<open>
  The ready queue of a valid graph is the set of nodes that are ready, each once, in the order of their
  IDs, so it does not depend on the iteration order of the maps it is computed from.
\<close>

theorem readyNodesAt_deterministic:
  assumes "ValidateGraph (pl_GraphSnapshot plan) = None"
  shows "set (readyNodesAt plan p now) = {n \<in> set (g_Nodes (pl_GraphSnapshot plan)). nodeReady plan p now n} \<and>
    distinct (map n_ID (readyNodesAt plan p now)) \<and> sorted (map n_ID (readyNodesAt plan p now))"
proof -
  have d: "distinct (map n_ID (g_Nodes (pl_GraphSnapshot plan)))"
    using assms by (simp add: ValidateGraph_iff graph_ok_def)
  have "distinct (map n_ID (filter (nodeReady plan p now) (mvals (nodeMap (g_Nodes (pl_GraphSnapshot plan))))))"
    by (rule distinct_map_filter) (rule nodeMap_vals(2) [OF d])
  moreover have "sorted (map n_ID (sort_stable (\<lambda>x y. n_ID x < n_ID y) xs))" for xs
    unfolding sort_stable_def by (induction xs) (simp_all add: sorted_insert_nodes)
  ultimately show ?thesis
    unfolding readyNodesAt_def distinct_sort_stable set_sort_stable set_filter nodeMap_vals(1) [OF d] by blast
qed

theorem readyNodesAt_deterministic_witness:
  "map n_ID (readyNodesAt exPlan exRun2 100) = [''qa''] \<and> distinct (map n_ID (readyNodesAt exPlan exRun2 100))"
proof -
  have "ValidateGraph (pl_GraphSnapshot exPlan) = None" by code_simp
  moreover have "map n_ID (readyNodesAt exPlan exRun2 100) = [''qa'']" by code_simp
  ultimately show ?thesis using readyNodesAt_deterministic by blast
qed

section \<open>The first ready queue\<close>

lemma joinNeed_positive: "0 < k \<Longrightarrow> 0 < joinNeed n k"
  by (cases "n_JoinPolicy n") (auto simp: joinNeed_def)

lemma incomingEdges_get: "mget0 [] (incomingEdges g) k = filter (\<lambda>e. e_To e = k) (g_Edges g)"
  by (simp add: incomingEdges_def mget0_group_into)

lemma fresh_source:
  assumes "NewProjection plan = Inr p"
  shows "np_CurrentAttempt (sourceNode p e) = ''''" and "np_Status (sourceNode p e) \<notin> set [AttemptFailed, AttemptTimedOut, AttemptCancelled]"
proof -
  have "mget (p_Nodes p) (e_From e) = None \<or> (\<exists>st. st \<in> {AttemptReady, AttemptPending} \<and>
      mget (p_Nodes p) (e_From e) = Some (zeroNodeProjection\<lparr>np_NodeID := e_From e, np_Status := st\<rparr>))"
    using NewProjection_Inr [OF assms] by auto
  then show "np_CurrentAttempt (sourceNode p e) = ''''"
    and "np_Status (sourceNode p e) \<notin> set [AttemptFailed, AttemptTimedOut, AttemptCancelled]"
    by (auto simp: sourceNode_def mget0_def zeroNodeProjection_def)
qed

lemma fresh_node_ready:
  assumes "NewProjection plan = Inr p" and "n \<in> set (g_Nodes (pl_GraphSnapshot plan))"
  shows "nodeReady plan p now n \<longleftrightarrow> n_ID n \<in> set (g_EntryNodeIDs (pl_GraphSnapshot plan)) \<and>
    (\<forall>e\<in>set (g_Edges (pl_GraphSnapshot plan)). e_To e \<noteq> n_ID n)"
proof -
  let ?es = "filter (\<lambda>e. e_To e = n_ID n) (g_Edges (pl_GraphSnapshot plan))"
  have st: "mget0 zeroNodeProjection (p_Nodes p) (n_ID n) = zeroNodeProjection\<lparr>np_NodeID := n_ID n,
      np_Status := (if n_ID n \<in> set (g_EntryNodeIDs (pl_GraphSnapshot plan)) then AttemptReady else AttemptPending)\<rparr>"
    using NewProjection_Inr [OF assms(1)] assms(2) by (auto simp: nodeIDs_def mget0_def)
  have "passedCount p ?es = 0" "failedCount p ?es = 0"
    using fresh_source [OF assms(1)] by (simp_all add: passedCount_def failedCount_def satisfiedBy_def)
  then have "nodeReady plan p now n \<longleftrightarrow> n_ID n \<in> set (g_EntryNodeIDs (pl_GraphSnapshot plan)) \<and>
      (?es = [] \<or> joinNeed n (int (length ?es)) \<le> 0)"
    using st by (simp add: nodeReady_def Let_def incomingEdges_get opt_any_def zeroNodeProjection_def)
  moreover have "?es \<noteq> [] \<Longrightarrow> 0 < joinNeed n (int (length ?es))" by (rule joinNeed_positive) simp
  ultimately show ?thesis by (auto simp: filter_empty_conv not_le [symmetric])
qed

text \<open>
  The first ready queue. Right after \<open>NewProjection\<close> the scheduler finds exactly the entry nodes that no edge
  leads to. An entry node that a feedback or repair edge leads back to is marked ready but is not in the
  queue, since its incoming edges have no committed source; in the example workflow, whose only entry node
  is the target of the repair loop, the scheduler finds nothing to do.
\<close>

theorem first_ready_queue:
  assumes "NewProjection plan = Inr p"
  shows "set (readyNodesAt plan p now) = {n \<in> set (g_Nodes (pl_GraphSnapshot plan)).
    n_ID n \<in> set (g_EntryNodeIDs (pl_GraphSnapshot plan)) \<and>
    (\<forall>e\<in>set (g_Edges (pl_GraphSnapshot plan)). e_To e \<noteq> n_ID n)}"
proof -
  have "distinct (map n_ID (g_Nodes (pl_GraphSnapshot plan)))"
    using NewProjection_Inr [OF assms] by (simp add: graph_ok_def)
  from nodeMap_vals(1) [OF this] show ?thesis
    unfolding readyNodesAt_def set_sort_stable set_filter by (auto simp: fresh_node_ready [OF assms])
qed

theorem first_ready_queue_witness:
  "readyNodesAt exPlan exFresh 100 = [] \<and> mget (p_Nodes exFresh) ''impl'' \<noteq> None \<and>
   np_Status (the (mget (p_Nodes exFresh) ''impl'')) = AttemptReady"
proof -
  have "set (readyNodesAt exPlan exFresh 100) = {}"
    unfolding first_ready_queue [OF exRun_new] by (auto simp: exPlan_def exGraph_def exEdge_def)
  moreover have "mget (p_Nodes exFresh) ''impl'' \<noteq> None" by code_simp
  moreover have "np_Status (the (mget (p_Nodes exFresh) ''impl'')) = AttemptReady" by code_simp
  ultimately show ?thesis by simp
qed

text \<open>
  C38: Joins. A node of the ready queue is marked ready, is past its retry time, and, unless its failure policy
  is \<open>short_circuit\<close>, as many of its incoming edges are satisfied by the committed current attempt of their
  source as its join policy asks for: all of them, the quorum (a majority when none is set), or one.
\<close>

theorem ready_join_met:
  assumes "ValidateGraph (pl_GraphSnapshot plan) = None" and "n \<in> set (readyNodesAt plan p now)"
    and "n_JoinFailurePolicy n \<noteq> ''short_circuit''"
    and "es = filter (\<lambda>e. e_To e = n_ID n) (g_Edges (pl_GraphSnapshot plan))" and "es \<noteq> []"
    and "good = (\<lambda>e. \<exists>a. mget (p_Attempts p) (np_CurrentAttempt (sourceNode p e)) = Some a \<and> edgeSatisfied e a)"
  shows "np_Status (mget0 zeroNodeProjection (p_Nodes p) (n_ID n)) = AttemptReady \<and>
    (\<forall>t. np_RetryAt (mget0 zeroNodeProjection (p_Nodes p) (n_ID n)) = Some t \<longrightarrow> t \<le> now) \<and>
    (n_JoinPolicy n = JoinAll \<longrightarrow> (\<forall>e\<in>set es. good e)) \<and>
    (n_JoinPolicy n = JoinQuorum \<longrightarrow> (if n_JoinQuorum n \<le> 0 then int (length es) div 2 + 1 else n_JoinQuorum n) \<le>
       int (length (filter good es))) \<and>
    (\<exists>e\<in>set es. good e)"
proof -
  have d: "distinct (map n_ID (g_Nodes (pl_GraphSnapshot plan)))"
    using assms(1) by (simp add: ValidateGraph_iff graph_ok_def)
  have "nodeReady plan p now n" using assms(2) unfolding readyNodesAt_def by simp
  then have r: "np_Status (mget0 zeroNodeProjection (p_Nodes p) (n_ID n)) = AttemptReady"
      "\<not> opt_any (\<lambda>t. now < t) (np_RetryAt (mget0 zeroNodeProjection (p_Nodes p) (n_ID n)))"
      "joinNeed n (int (length es)) \<le> passedCount p es"
    using assms(3-5) by (simp_all add: nodeReady_def Let_def incomingEdges_get)
  have g: "satisfiedBy p e \<noteq> None \<Longrightarrow> good e" for e
    unfolding assms(6) by (auto simp: satisfiedBy_def split: if_splits option.splits)
  have len: "length (filter (\<lambda>e. satisfiedBy p e \<noteq> None) xs) \<le> length (filter good xs)" for xs
    by (induction xs) (use g in auto)
  have need: "joinNeed n (int (length es)) \<le> int (length (filter good es))"
    using r(3) len [of es] by (simp add: passedCount_def)
  have "n_JoinPolicy n = JoinAll \<Longrightarrow> \<forall>e\<in>set es. good e"
  proof
    fix e
    assume "n_JoinPolicy n = JoinAll" "e \<in> set es"
    then show "good e" using need length_filter_less [of e es good] by (auto simp: joinNeed_def not_less [symmetric])
  qed
  moreover have "0 < int (length (filter good es))" using order_less_le_trans [OF joinNeed_positive need] assms(5) by simp
  then have "\<exists>e\<in>set es. good e" by (auto simp: filter_empty_conv)
  moreover have "n_JoinPolicy n = JoinQuorum \<Longrightarrow> (if n_JoinQuorum n \<le> 0 then int (length es) div 2 + 1 else n_JoinQuorum n) \<le>
       int (length (filter good es))" using need by (simp add: joinNeed_def)
  ultimately show ?thesis using r(1,2) by (auto simp: opt_any_iff not_less)
qed

theorem ready_join_met_witness:
  "\<exists>e a. e \<in> set (g_Edges exGraph) \<and> e_To e = ''qa'' \<and>
     mget (p_Attempts exRun2) (np_CurrentAttempt (sourceNode exRun2 e)) = Some a \<and> edgeSatisfied e a"
proof -
  have q: "exNode ''qa'' NodeAgent \<in> set (readyNodesAt exPlan exRun2 100)" by code_simp
  have v: "ValidateGraph (pl_GraphSnapshot exPlan) = None" by code_simp
  have j: "n_JoinFailurePolicy (exNode ''qa'' NodeAgent) \<noteq> ''short_circuit''" by code_simp
  have e: "filter (\<lambda>e. e_To e = n_ID (exNode ''qa'' NodeAgent)) (g_Edges (pl_GraphSnapshot exPlan)) \<noteq> []" by code_simp
  have i: "n_ID (exNode ''qa'' NodeAgent) = ''qa''" by (simp add: exNode_def)
  from ready_join_met [OF v q j refl e refl] show ?thesis by (auto simp: exPlan_def i)
qed

section \<open>Takeover\<close>

lemma finished_attempt_fixed:
  assumes "mget (p_Attempts p) k = Some a" and "finishedAttempt a"
  shows "fst (FinishAttempt am plan k inp p) = p"
proof -
  have "\<nexists>a n. finish_conditions am plan k inp p a n"
  proof
    assume "\<exists>a n. finish_conditions am plan k inp p a n"
    then obtain a' n where "finish_conditions am plan k inp p a' n" by blast
    then show False using finish_conditions_status [of am plan k inp p a' n] assms
      by (auto simp: finish_conditions_def finishedAttempt_def)
  qed
  then show ?thesis using FinishAttempt_refused [of am plan k inp p] by (metis prod.collapse)
qed

text \<open>The status of an attempt that a completion has been accepted for.\<close>

lemma FinishAttempt_status:
  assumes "FinishAttempt am plan k inp p = (p', Inr b)" and "mget (p_Attempts p) k = Some a" and "a_Status a = AttemptRunning"
  shows "mget (p_Attempts p') k = Some b \<and> finishStatus (in_Event inp) = Some (a_Status b) \<and> a_Lease b = a_Lease a"
  using assms(1)
proof (cases rule: FinishAttempt_cases)
  case unchanged
  then show ?thesis using assms by simp
next
  case (repair_error a n st e)
  then show ?thesis by simp
next
  case (route_error a n st p1 a1 p2 e)
  then show ?thesis by simp
next
  case (finished a' n st p1 a1 b' p2)
  have "same_attempt (applyResult inp st a') a1" using finishRepair_frame [OF finished(3)] by blast
  then have "a_Status b = st" using finished(4,7) by (auto dest!: same_attempt_fields)
  moreover have "mget (p_Attempts p') k = Some b \<and> a_Lease b = a_Lease a"
  proof (cases "p_Attempts p' = p_Attempts p")
    case True
    have "a = a'" using finished(1) assms(2) by (simp add: finish_conditions_def)
    moreover have "p_Attempts p2 = mput k b' (p_Attempts p)"
      using finished(5) route_kept finishRepair_frame [OF finished(3)] repair_frame_fields [of p p1] by (auto simp: kept_def)
    then have "mget (p_Attempts p') k = Some b" using finished(6,7) by simp
    ultimately show ?thesis using True assms(2) by simp
  next
    case False
    then show ?thesis using FinishAttempt_attempts [OF assms(1)] assms(2) by auto
  qed
  ultimately show ?thesis using finished(2) by simp
qed

text \<open>
  Takeover fences the previous worker. After a successful takeover the attempt is timed out under the new
  owner with the next fencing token, and no completion whatever for it, from whatever worker and with
  whatever token, changes the projection any more.
\<close>

theorem TakeOver_fences:
  assumes "TakeOver am plan attemptID owner t p = (p', None)"
  shows "\<exists>a b. mget (p_Attempts p) attemptID = Some a \<and> a_Status a = AttemptRunning \<and>
    mget (p_Attempts p') attemptID = Some b \<and> a_Status b = AttemptTimedOut \<and> l_Owner (a_Lease b) = owner \<and>
    l_FencingToken (a_Lease b) = wrap64 (l_FencingToken (a_Lease a) + 1) \<and>
    (\<forall>am' inp. fst (FinishAttempt am' plan attemptID inp p') = p')"
proof -
  obtain a where a: "mget (p_Attempts p) attemptID = Some a" "a_Status a = AttemptRunning" "owner \<noteq> ''''"
    using assms by (auto simp: TakeOver_def split: option.splits if_splits)
  define c where "c = takenOver owner (nowOf am t) a"
  define p1 where "p1 = p\<lparr>p_Attempts := mput attemptID c (p_Attempts p)\<rparr>"
  obtain b inp where f: "FinishAttempt am plan attemptID inp p1 = (p', Inr b)" "in_Event inp = ''timeout''"
    using assms a by (auto simp: TakeOver_def Let_def p1_def c_def operatorInput_def split: prod.splits sum.splits)
  have "mget (p_Attempts p1) attemptID = Some c" "a_Status c = AttemptRunning"
    using a(2) by (simp_all add: p1_def c_def takenOver_def)
  from FinishAttempt_status [OF f(1) this] f(2)
  have b: "mget (p_Attempts p') attemptID = Some b" "a_Status b = AttemptTimedOut" "a_Lease b = a_Lease c"
    by (simp_all add: finishStatus_def)
  then have "\<forall>am' inp. fst (FinishAttempt am' plan attemptID inp p') = p'"
    using finished_attempt_fixed by (simp add: finishedAttempt_def)
  then show ?thesis using a b by (auto simp: c_def takenOver_def)
qed

theorem TakeOver_fences_witness:
  "\<exists>b. mget (p_Attempts (fst (TakeOver exAmbient exPlan ''a1'' ''human'' 100 exRunning))) ''a1'' = Some b \<and>
     l_Owner (a_Lease b) = ''human'' \<and> a_Status b = AttemptTimedOut"
proof -
  have "snd (TakeOver exAmbient exPlan ''a1'' ''human'' 100 exRunning) = None" by code_simp
  then have "TakeOver exAmbient exPlan ''a1'' ''human'' 100 exRunning =
      (fst (TakeOver exAmbient exPlan ''a1'' ''human'' 100 exRunning), None)" by (metis prod.collapse)
  from TakeOver_fences [OF this] show ?thesis by auto
qed

text \<open>
  \<open>Retry\<close> writes under the name it is given. The node is looked up under the trimmed name but stored under
  the untrimmed one, so a retry of \<open>" impl"\<close> reports success, leaves the failed node as it is and adds an
  entry that the validation of the projection rejects.
\<close>

theorem Retry_untrimmed:
  "let p = exRunning\<lparr>p_Nodes := [(''impl'', exNodeState ''impl'' AttemptFailed ''a1'')],
         p_Attempts := [(''a1'', (exAttempt ''a1'' ''impl'' AttemptFailed)\<lparr>a_Result := exResult ''failed''\<rparr>)]\<rparr>
   in ValidateProjection p = None \<and> snd (Retry '' impl'' p) = None \<and>
      mget (p_Nodes (fst (Retry '' impl'' p))) ''impl'' = mget (p_Nodes p) ''impl'' \<and>
      ValidateProjection (fst (Retry '' impl'' p)) \<noteq> None"
  by code_simp

end
