(* ===== verification/Telemetry_Trace.thy ===== *)
theory Telemetry_Trace
  imports Go_Prelude
begin

text \<open>
  W3C trace context propagation (\<open>internal/telemetry/trace.go\<close>): the sctx carried across process boundaries,
  its textual form, the parser that accepts it and the sctx stored in a \<open>context.Context\<close>.

  A context is modelled by the sctx stored under the package's key. The identifiers drawn from the system's
  random source are arguments. \<open>strings.ToLower\<close> folds ASCII letters only in the model; a string with other
  letters is rejected by the hexadecimal decoder before and after folding, since no letter beyond ASCII folds
  to a hexadecimal digit.
\<close>

record SpanContext =
  sp_TraceID :: string
  sp_SpanID :: string
  sp_TraceFlags :: string
  sp_TraceState :: string
  sp_Remote :: bool

definition zeroSpan :: SpanContext where
  "zeroSpan = \<lparr>sp_TraceID = '''', sp_SpanID = '''', sp_TraceFlags = '''', sp_TraceState = '''', sp_Remote = False\<rparr>"

section \<open>Strings\<close>

text \<open>\<open>strings.Split\<close> with a separator of one byte, \<open>strings.SplitN(s, sep, 2)\<close> and \<open>strings.ContainsAny\<close>.\<close>

fun Split :: "char \<Rightarrow> string \<Rightarrow> string list" where
  "Split c [] = [[]]"
| "Split c (x # s) =
     (if x = c then [] # Split c s else case Split c s of [] \<Rightarrow> [[x]] | p # ps \<Rightarrow> (x # p) # ps)"

fun Split2 :: "char \<Rightarrow> string \<Rightarrow> string list" where
  "Split2 c [] = [[]]"
| "Split2 c (x # s) =
     (if x = c then [[], s] else case Split2 c s of [] \<Rightarrow> [[x]] | p # ps \<Rightarrow> (x # p) # ps)"

definition ContainsAny :: "string \<Rightarrow> string \<Rightarrow> bool" where
  "ContainsAny s chars \<longleftrightarrow> list_ex (\<lambda>c. c \<in> set chars) s"

definition hexDigit :: "char \<Rightarrow> bool" where
  "hexDigit c \<longleftrightarrow> CHR ''0'' \<le> c \<and> c \<le> CHR ''9'' \<or> CHR ''a'' \<le> c \<and> c \<le> CHR ''f'' \<or> CHR ''A'' \<le> c \<and> c \<le> CHR ''F''"

text \<open>\<open>hex.DecodeString\<close> succeeds.\<close>

definition hexDecodes :: "string \<Rightarrow> bool" where
  "hexDecodes s \<longleftrightarrow> even (length s) \<and> list_all hexDigit s"

section \<open>Validation\<close>

definition validHex :: "string \<Rightarrow> nat \<Rightarrow> bool" where
  "validHex value n \<longleftrightarrow> \<not> (length value \<noteq> n \<or> value \<noteq> ToLower value) \<and> hexDecodes value"

definition validHexID :: "string \<Rightarrow> nat \<Rightarrow> bool" where
  "validHexID value n \<longleftrightarrow> validHex value n \<and> list_ex (\<lambda>c. c \<noteq> CHR ''0'') value"

definition validFlags :: "string \<Rightarrow> bool" where
  "validFlags value \<longleftrightarrow> validHex value 2"

definition validMember :: "string \<Rightarrow> bool" where
  "validMember member =
     (case Split2 CHR ''='' (TrimSpace member) of
        [k, v] \<Rightarrow> \<not> (k = '''' \<or> v = '''' \<or> 256 < length k \<or> 256 < length v) \<and>
          \<not> ContainsAny (k @ v) [CHR '' '', CHR '','', CHR 0x09]
      | _ \<Rightarrow> False)"

definition validTraceState :: "string \<Rightarrow> bool" where
  "validTraceState value \<longleftrightarrow> value = '''' \<or>
     \<not> (512 < length value \<or> ContainsAny value [CHR 0x0D, CHR 0x0A]) \<and>
     \<not> 32 < length (Split CHR '','' value) \<and> list_all validMember (Split CHR '','' value)"

definition ValidSpan :: "SpanContext \<Rightarrow> bool" where
  "ValidSpan s \<longleftrightarrow> validHexID (sp_TraceID s) 32 \<and> validHexID (sp_SpanID s) 16 \<and> validFlags (sp_TraceFlags s) \<and>
     validTraceState (sp_TraceState s)"

section \<open>The carrier\<close>

definition TraceParent :: "SpanContext \<Rightarrow> string" where
  "TraceParent s =
     (if \<not> ValidSpan s then ''''
      else ''00-'' @ sp_TraceID s @ ''-'' @ sp_SpanID s @ ''-'' @ ToLower (sp_TraceFlags s))"

definition parsedSpan :: "string \<Rightarrow> string \<Rightarrow> string \<Rightarrow> string \<Rightarrow> SpanContext" where
  "parsedSpan tid sid flags state = \<lparr>sp_TraceID = ToLower tid, sp_SpanID = ToLower sid, sp_TraceFlags = ToLower flags,
     sp_TraceState = TrimSpace state, sp_Remote = True\<rparr>"

definition ParseTraceParent :: "string \<Rightarrow> string \<Rightarrow> go_error + SpanContext" where
  "ParseTraceParent v state =
     (let value = TrimSpace v in
      case Split CHR ''-'' value of
        [version0, tid, sid, flags] \<Rightarrow>
          (let version = ToLower version0; sctx = parsedSpan tid sid flags state in
           case first_err
             [guard (length version0 \<noteq> 2 \<or> length tid \<noteq> 32 \<or> length sid \<noteq> 16 \<or> length flags \<noteq> 2)
                (Errorf ''traceparent must contain version, trace-id, parent-id and flags'' []),
              guard (version = ''ff'' \<or> \<not> validHex version 2) (Errorf ''traceparent version is invalid'' []),
              guard (version = ''00'' \<and> length value \<noteq> 55) (Errorf ''traceparent version 00 has an invalid length'' []),
              guard (\<not> ValidSpan sctx) (Errorf ''traceparent contains an invalid or all-zero identifier'' [])]
           of Some e \<Rightarrow> Inl e | None \<Rightarrow> Inr sctx)
      | _ \<Rightarrow> Inl (Errorf ''traceparent must contain version, trace-id, parent-id and flags'' []))"

section \<open>Spans in a context\<close>

text \<open>\<open>traceID\<close> and \<open>spanID\<close> are what \<open>randomHex(16)\<close> and \<open>randomHex(8)\<close> return.\<close>

definition NewRoot :: "string \<Rightarrow> string \<Rightarrow> SpanContext" where
  "NewRoot traceID spanID = \<lparr>sp_TraceID = traceID, sp_SpanID = spanID, sp_TraceFlags = ''01'', sp_TraceState = '''',
     sp_Remote = False\<rparr>"

definition ChildSpan :: "string \<Rightarrow> string \<Rightarrow> SpanContext \<Rightarrow> SpanContext" where
  "ChildSpan traceID spanID parent =
     (if \<not> ValidSpan parent then NewRoot traceID spanID
      else \<lparr>sp_TraceID = sp_TraceID parent, sp_SpanID = spanID, sp_TraceFlags = sp_TraceFlags parent,
            sp_TraceState = sp_TraceState parent, sp_Remote = False\<rparr>)"

type_synonym span_ctx = "SpanContext option"

definition ContextWithSpan :: "span_ctx \<Rightarrow> SpanContext \<Rightarrow> span_ctx" where
  "ContextWithSpan ctx sctx = (if \<not> ValidSpan sctx then ctx else Some (sctx\<lparr>sp_Remote := False\<rparr>))"

definition FromContext :: "span_ctx \<Rightarrow> SpanContext \<times> bool" where
  "FromContext ctx = (case ctx of None \<Rightarrow> (zeroSpan, False) | Some sctx \<Rightarrow> (sctx, ValidSpan sctx))"

definition StartSpan :: "string \<Rightarrow> string \<Rightarrow> span_ctx \<Rightarrow> span_ctx \<times> SpanContext" where
  "StartSpan traceID spanID ctx =
     (let (parent, ok) = FromContext ctx;
          sctx = (if ok then ChildSpan traceID spanID parent else NewRoot traceID spanID)
      in (ContextWithSpan ctx sctx, sctx))"

definition StartRemoteSpan ::
  "string \<Rightarrow> string \<Rightarrow> span_ctx \<Rightarrow> string \<Rightarrow> string \<Rightarrow> span_ctx \<times> SpanContext \<times> go_error option" where
  "StartRemoteSpan traceID spanID ctx traceParent traceState =
     (if TrimSpace traceParent = '''' then (case StartSpan traceID spanID ctx of (c, sctx) \<Rightarrow> (c, sctx, None))
      else case ParseTraceParent (TrimSpace traceParent) traceState of
        Inl e \<Rightarrow> (ContextWithSpan ctx (NewRoot traceID spanID), NewRoot traceID spanID, Some e)
      | Inr parent \<Rightarrow> (ContextWithSpan ctx (ChildSpan traceID spanID parent), ChildSpan traceID spanID parent, None))"

definition Carrier :: "span_ctx \<Rightarrow> string \<times> string" where
  "Carrier ctx = (case FromContext ctx of (sctx, ok) \<Rightarrow> if \<not> ok then ('''', '''') else (TraceParent sctx, sp_TraceState sctx))"

definition EnvironmentOf :: "span_ctx \<Rightarrow> string list" where
  "EnvironmentOf ctx =
     (case Carrier ctx of (parent, state) \<Rightarrow>
        if parent = '''' then []
        else [''TRACEPARENT='' @ parent] @ (if state \<noteq> '''' then [''TRACESTATE='' @ state] else []))"

text \<open>\<open>http.Header\<close> stores its values under the canonical form of the header names.\<close>

definition InjectHeader :: "(string, string list) gomap \<Rightarrow> span_ctx \<Rightarrow> (string, string list) gomap" where
  "InjectHeader header ctx =
     (case FromContext ctx of (sctx, ok) \<Rightarrow>
        if \<not> ok then header
        else (let h = mput ''Traceparent'' [TraceParent sctx] header in
              if sp_TraceState sctx \<noteq> '''' then mput ''Tracestate'' [sp_TraceState sctx] h else mdel ''Tracestate'' h))"

definition TraceIDOf :: "span_ctx \<Rightarrow> string" where
  "TraceIDOf ctx = sp_TraceID (fst (FromContext ctx))"

section \<open>Hexadecimal strings\<close>

lemma hexDigit_plain: "hexDigit c \<Longrightarrow> c \<noteq> CHR ''-'' \<and> \<not> ascii_space c"
  by (auto simp: hexDigit_def ascii_space_def less_eq_char_def)

lemma hexDigit_ascii: "hexDigit c \<Longrightarrow> (of_char c :: nat) < 128"
  by (auto simp: hexDigit_def less_eq_char_def)

lemma Split_plain: "CHR ''-'' \<notin> set s \<Longrightarrow> Split CHR ''-'' s = [s]"
  by (induction s) auto

lemma Split_append: "CHR ''-'' \<notin> set s \<Longrightarrow> Split CHR ''-'' (s @ CHR ''-'' # t) = s # Split CHR ''-'' t"
  by (induction s) auto

lemma Split_nonempty: "Split c s \<noteq> []"
  by (induction s) (auto split: list.splits)

lemma validHex_set: "validHex s n \<Longrightarrow> length s = n \<and> ToLower s = s \<and> list_all hexDigit s \<and> CHR ''-'' \<notin> set s"
  using hexDigit_plain by (fastforce simp: validHex_def hexDecodes_def list_all_iff)

section \<open>Properties\<close>

text \<open>
  C40: Trace context round trip. A valid span whose state carries no surrounding blanks survives the trip through
  its textual form: parsing \<open>TraceParent\<close> gives the span back, marked as remote.
\<close>

theorem trace_roundtrip:
  assumes "ValidSpan s" and "TrimSpace (sp_TraceState s) = sp_TraceState s"
  shows "ParseTraceParent (TraceParent s) (sp_TraceState s) = Inr (s\<lparr>sp_Remote := True\<rparr>)"
proof -
  have t: "validHex (sp_TraceID s) 32" and p: "validHex (sp_SpanID s) 16" and f: "validHex (sp_TraceFlags s) 2"
    using assms(1) by (auto simp: ValidSpan_def validHexID_def validFlags_def)
  note h = validHex_set [OF t] validHex_set [OF p] validHex_set [OF f]
  let ?v = "''00-'' @ sp_TraceID s @ ''-'' @ sp_SpanID s @ ''-'' @ sp_TraceFlags s"
  have v: "TraceParent s = ?v" using assms(1) h by (simp add: TraceParent_def)
  have "list_all (\<lambda>c. \<not> ascii_space c \<and> (of_char c :: nat) < 128) xs" if "list_all hexDigit xs" for xs
    using that hexDigit_plain hexDigit_ascii by (auto simp: list_all_iff)
  then have trim: "TrimSpace ?v = ?v" using h by (intro TrimSpace_plain) (simp add: ascii_space_def)
  have "Split CHR ''-'' ?v = [''00'', sp_TraceID s, sp_SpanID s, sp_TraceFlags s]"
    using h Split_append [of "''00''"] by (simp add: Split_append Split_plain)
  moreover have sctx: "parsedSpan (sp_TraceID s) (sp_SpanID s) (sp_TraceFlags s) (sp_TraceState s) = s\<lparr>sp_Remote := True\<rparr>"
    using h assms(2) by (simp add: parsedSpan_def)
  moreover have "ValidSpan (s\<lparr>sp_Remote := True\<rparr>)" using assms(1) by (simp add: ValidSpan_def)
  moreover have "validHex ''00'' 2" "ToLower ''00'' = ''00''" by code_simp+
  ultimately show ?thesis
    unfolding ParseTraceParent_def Let_def v trim using h by (simp add: guard_def)
qed

definition exSpan :: SpanContext where
  "exSpan = \<lparr>sp_TraceID = ''4bf92f3577b34da6a3ce929d0e0e4736'', sp_SpanID = ''00f067aa0ba902b7'', sp_TraceFlags = ''01'',
     sp_TraceState = ''congo=t61rcWkgMzE'', sp_Remote = False\<rparr>"

theorem trace_roundtrip_witness:
  "ParseTraceParent (TraceParent exSpan) (sp_TraceState exSpan) = Inr (exSpan\<lparr>sp_Remote := True\<rparr>)"
  by (rule trace_roundtrip; code_simp)

text \<open>
  Invalid carriers fail closed. A remote span is always started: an accepted carrier keeps its trace ID, flags
  and state and gets the new span ID; a rejected one is reported and starts a new trace that keeps nothing of the
  carrier. A span that is not valid is never stored in the context.
\<close>

theorem StartRemoteSpan_fails_closed:
  assumes "StartRemoteSpan traceID spanID ctx tp ts = (ctx', sctx, err)" and "TrimSpace tp \<noteq> ''''"
  shows "(case ParseTraceParent tp ts of
       Inr parent \<Rightarrow> err = None \<and> sp_TraceID sctx = sp_TraceID parent \<and> sp_SpanID sctx = spanID \<and>
         sp_TraceFlags sctx = sp_TraceFlags parent \<and> sp_TraceState sctx = TrimSpace ts
     | Inl e \<Rightarrow> err = Some e \<and> sctx = NewRoot traceID spanID) \<and>
    (ctx' = ctx \<or> (\<exists>s. ctx' = Some s \<and> ValidSpan s \<and> TraceParent s = TraceParent sctx))"
proof -
  have same: "ParseTraceParent (TrimSpace tp) ts = ParseTraceParent tp ts" by (simp add: ParseTraceParent_def)
  have v: "ValidSpan parent \<and> sp_TraceState parent = TrimSpace ts" if "ParseTraceParent tp ts = Inr parent" for parent
    using that by (auto simp: ParseTraceParent_def Let_def parsedSpan_def guard_def split: list.splits option.splits if_splits)
  have c: "ContextWithSpan ctx s = ctx \<or> (\<exists>q. ContextWithSpan ctx s = Some q \<and> ValidSpan q \<and> TraceParent q = TraceParent s)" for s
    by (auto simp: ContextWithSpan_def ValidSpan_def TraceParent_def)
  show ?thesis
  proof (cases "ParseTraceParent tp ts")
    case (Inl e)
    then show ?thesis using assms c [of "NewRoot traceID spanID"] same by (auto simp: StartRemoteSpan_def)
  next
    case (Inr parent)
    then show ?thesis using assms c [of "ChildSpan traceID spanID parent"] same v
      by (auto simp: StartRemoteSpan_def ChildSpan_def)
  qed
qed

theorem StartRemoteSpan_fails_closed_witness:
  "sp_TraceID (fst (snd (StartRemoteSpan ''ab'' ''00f067aa0ba902b8'' None (TraceParent exSpan) ''congo=t61rcWkgMzE''))) =
     sp_TraceID exSpan"
proof -
  let ?r = "StartRemoteSpan ''ab'' ''00f067aa0ba902b8'' None (TraceParent exSpan) ''congo=t61rcWkgMzE''"
  have r: "?r = (fst ?r, fst (snd ?r), snd (snd ?r))" by simp
  have n: "TrimSpace (TraceParent exSpan) \<noteq> ''''" by code_simp
  have "ParseTraceParent (TraceParent exSpan) ''congo=t61rcWkgMzE'' = Inr (exSpan\<lparr>sp_Remote := True\<rparr>)" by code_simp
  with StartRemoteSpan_fails_closed [OF r n] show ?thesis by simp
qed

end
