(* ===== verification/Orch_Events.thy ===== *)
theory Orch_Events
  imports Orch_Scheduler Telemetry_Trace
begin

text \<open>
  The event log of a plan (\<open>events.go\<close>): sealed events in a hash chain, the validation of a chain, and the replay
  that rebuilds a projection from its events.

  The JSON encoder and decoder and SHA-256 are arguments of the definitions that use them: \<open>cd_Compact\<close> is
  \<open>json.Compact\<close> (None on an error), \<open>cd_Sha256\<close> the hexadecimal SHA-256, \<open>cd_EventJSON\<close> the JSON text of an event,
  the others decode the payloads of the event types.
\<close>

section \<open>Events\<close>

record Event =
  ev_ID :: string
  ev_PlanID :: string
  ev_WorkspaceID :: string
  ev_RunID :: string
  ev_NodeID :: string
  ev_AttemptID :: string
  ev_Sequence :: int
  ev_Type :: string
  ev_Payload :: string
  ev_PayloadHash :: string
  ev_PreviousHash :: string
  ev_EnvelopeHash :: string
  ev_IdempotencyKey :: string
  ev_FencingToken :: int
  ev_TraceParent :: string
  ev_TraceState :: string
  ev_CreatedAt :: int

text \<open>The payloads of the events, as the replay decodes them.\<close>

record StartedPayload =
  st_NodeID :: string
  st_AttemptID :: string
  st_AttemptNo :: int
  st_Lease :: Lease
  st_Context :: ContextEnvelope
  st_DispatchPayloadHash :: string
  st_StartedAt :: int
  st_ChildPlanID :: string

record BoundPayload =
  bd_AttemptID :: string
  bd_RunID :: string
  bd_SessionID :: string
  bd_WorkDir :: string
  bd_ChildPlanID :: string

record FinishedPayload =
  fi_AttemptID :: string
  fi_Event :: string
  fi_Result :: StructuredResult
  fi_Failure :: "FailureReason option"
  fi_ArtifactIDs :: "string list"
  fi_TransitionIdempotencyKey :: "string option"
  fi_TransitionAt :: int

record Codec =
  cd_Compact :: "string \<Rightarrow> string option"
  cd_Sha256 :: "string \<Rightarrow> string"
  cd_EventJSON :: "Event \<Rightarrow> string"
  cd_Started :: "string \<Rightarrow> go_error + StartedPayload"
  cd_Bound :: "string \<Rightarrow> go_error + BoundPayload"
  cd_Finished :: "string \<Rightarrow> go_error + FinishedPayload"
  cd_Retry :: "string \<Rightarrow> go_error + string"

definition canonicalPayload :: "Codec \<Rightarrow> string \<Rightarrow> string" where
  "canonicalPayload cd payload = (case cd_Compact cd payload of None \<Rightarrow> payload | Some c \<Rightarrow> c)"

definition payloadDigest :: "Codec \<Rightarrow> string \<Rightarrow> string" where
  "payloadDigest cd payload = cd_Sha256 cd (canonicalPayload cd payload)"

definition digestInput :: "Codec \<Rightarrow> Event \<Rightarrow> Event" where
  "digestInput cd e = e\<lparr>ev_EnvelopeHash := '''', ev_Payload := canonicalPayload cd (ev_Payload e)\<rparr>"

definition eventDigest :: "Codec \<Rightarrow> Event \<Rightarrow> string" where
  "eventDigest cd e = cd_Sha256 cd (cd_EventJSON cd (digestInput cd e))"

text \<open>
  \<open>NewEventWithContext\<close>: the fresh ID, the current time, the encoded payload and the trace carrier of the context
  are arguments.
\<close>

definition NewEvent ::
  "Codec \<Rightarrow> string \<Rightarrow> int \<Rightarrow> string \<times> string \<Rightarrow> Event option \<Rightarrow> string \<Rightarrow> string \<Rightarrow> string \<Rightarrow> string \<Rightarrow> go_error + string \<Rightarrow>
     go_error + Event" where
  "NewEvent cd newID now carrier previous planID workspaceID typ idempotency payload =
     (if planID = '''' \<or> workspaceID = '''' \<or> typ = '''' then Inl (Errorf ''plan, workspace and event type are required'' [])
      else case payload of
        Inl e \<Rightarrow> Inl e
      | Inr b \<Rightarrow>
          (let e = \<lparr>ev_ID = newID, ev_PlanID = planID, ev_WorkspaceID = workspaceID, ev_RunID = '''', ev_NodeID = '''',
                 ev_AttemptID = '''', ev_Sequence = 1, ev_Type = typ, ev_Payload = b, ev_PayloadHash = payloadDigest cd b,
                 ev_PreviousHash = '''', ev_EnvelopeHash = '''', ev_IdempotencyKey = idempotency, ev_FencingToken = 0,
                 ev_TraceParent = fst carrier, ev_TraceState = snd carrier, ev_CreatedAt = now\<rparr>;
               e1 = (case previous of None \<Rightarrow> e
                 | Some q \<Rightarrow> e\<lparr>ev_Sequence := wrap64 (ev_Sequence q + 1), ev_PreviousHash := ev_EnvelopeHash q\<rparr>)
           in Inr (e1\<lparr>ev_EnvelopeHash := eventDigest cd e1\<rparr>)))"

definition Seal :: "Codec \<Rightarrow> Event \<Rightarrow> Event" where
  "Seal cd e =
     (let e1 = e\<lparr>ev_PayloadHash := payloadDigest cd (ev_Payload e)\<rparr> in e1\<lparr>ev_EnvelopeHash := eventDigest cd e1\<rparr>)"

section \<open>Chains\<close>

text \<open>One round of the loop: \<open>i\<close> is the index of the event, \<open>prev\<close> the envelope hash before it.\<close>

definition checkEvent :: "Codec \<Rightarrow> string \<Rightarrow> string \<Rightarrow> nat \<Rightarrow> string \<Rightarrow> Event \<Rightarrow> go_error option" where
  "checkEvent cd planID workspaceID i prev e =
     first_err
      [guard (ev_ID e = '''' \<or> ev_Type e = '''' \<or> ev_PlanID e = '''' \<or> ev_WorkspaceID e = '''' \<or> ev_Payload e = '''' \<or>
           ev_PayloadHash e = '''' \<or> ev_EnvelopeHash e = '''')
         (Errorf ''event %d is incomplete'' [ArgI (int i + 1)]),
       guard (ev_PlanID e \<noteq> planID \<or> ev_WorkspaceID e \<noteq> workspaceID) (Errorf ''event scope mismatch'' []),
       guard (ev_Sequence e \<noteq> int i + 1) (Errorf ''event sequence gap at %d'' [ArgI (ev_Sequence e)]),
       guard (ev_PreviousHash e \<noteq> prev) (Errorf ''event previous hash mismatch at %d'' [ArgI (ev_Sequence e)]),
       guard (eventDigest cd e \<noteq> ev_EnvelopeHash e) (Errorf ''event envelope hash mismatch at %d'' [ArgI (ev_Sequence e)]),
       guard (payloadDigest cd (ev_Payload e) \<noteq> ev_PayloadHash e)
         (Errorf ''event payload hash mismatch at %d'' [ArgI (ev_Sequence e)]),
       (if ev_TraceParent e \<noteq> '''' \<or> ev_TraceState e \<noteq> '''' then
          case ParseTraceParent (ev_TraceParent e) (ev_TraceState e) of
            Inl err \<Rightarrow> Some (Wrapf err (''event trace context mismatch at '' @ itoa (ev_Sequence e)))
          | Inr s \<Rightarrow> None
        else None)]"

fun chainLoop :: "Codec \<Rightarrow> string \<Rightarrow> string \<Rightarrow> nat \<Rightarrow> string \<Rightarrow> Event list \<Rightarrow> go_error option" where
  "chainLoop cd planID workspaceID i prev [] = None"
| "chainLoop cd planID workspaceID i prev (e # es) =
     (case checkEvent cd planID workspaceID i prev e of
        Some err \<Rightarrow> Some err
      | None \<Rightarrow> chainLoop cd planID workspaceID (Suc i) (ev_EnvelopeHash e) es)"

definition ValidateEventChain :: "Codec \<Rightarrow> Event list \<Rightarrow> string \<Rightarrow> string \<Rightarrow> go_error option" where
  "ValidateEventChain cd events planID workspaceID = chainLoop cd planID workspaceID 0 '''' events"

section \<open>Replay\<close>

text \<open>The defaults of an \<open>attempt.started\<close> payload, and the child plan recorded on the started attempt.\<close>

definition startedDefaults :: "Event \<Rightarrow> StartedPayload \<Rightarrow> StartedPayload" where
  "startedDefaults e x =
     x\<lparr>st_NodeID := (if st_NodeID x = '''' then ev_NodeID e else st_NodeID x),
       st_AttemptID := (if st_AttemptID x = '''' then ev_AttemptID e else st_AttemptID x),
       st_StartedAt := (if IsZero (st_StartedAt x) then ev_CreatedAt e else st_StartedAt x)\<rparr>"

definition withChildPlan :: "string \<Rightarrow> NodeAttempt \<Rightarrow> PlanProjection \<Rightarrow> PlanProjection" where
  "withChildPlan child started p =
     (if child \<noteq> '''' then p\<lparr>p_Attempts := mput (a_ID started) (started\<lparr>a_ChildPlanID := child\<rparr>) (p_Attempts p)\<rparr> else p)"

definition replayStarted ::
  "Ambient \<Rightarrow> RequirementExecutionPlan \<Rightarrow> Event \<Rightarrow> StartedPayload \<Rightarrow> PlanProjection \<Rightarrow> go_error + PlanProjection" where
  "replayStarted am plan e x0 p =
     (let x = startedDefaults e x0
      in case StartAttempt am plan (st_NodeID x) (st_AttemptID x) (st_AttemptNo x) (st_Lease x) (st_Context x)
           \<lparr>in_PlanRevision = pl_Revision plan, in_AttemptID = '''', in_LeaseToken = l_FencingToken (st_Lease x), in_Event = '''',
            in_Result = zeroResult, in_Failure = None, in_OutputArtifacts = [], in_IdempotencyKey = ev_IdempotencyKey e,
            in_PayloadHash = st_DispatchPayloadHash x, in_Now = st_StartedAt x\<rparr> p of
        (p1, Inl err) \<Rightarrow> Inl err
      | (p1, Inr started) \<Rightarrow> Inr (withChildPlan (st_ChildPlanID x) started p1))"

definition replayBound :: "Event \<Rightarrow> BoundPayload \<Rightarrow> PlanProjection \<Rightarrow> go_error + PlanProjection" where
  "replayBound e x p =
     (if bd_AttemptID x = '''' \<or> ev_AttemptID e \<noteq> '''' \<and> ev_AttemptID e \<noteq> bd_AttemptID x then Inl ErrStaleAttempt
      else case mget (p_Attempts p) (bd_AttemptID x) of
        None \<Rightarrow> Inl ErrStaleAttempt
      | Some a \<Rightarrow>
          if a_Status a \<noteq> AttemptRunning \<or> ev_FencingToken e \<noteq> l_FencingToken (a_Lease a) then Inl ErrStaleAttempt
          else if ev_NodeID e \<noteq> '''' \<and> ev_NodeID e \<noteq> a_NodeID a \<or> bd_RunID x = '''' \<or> bd_SessionID x = '''' \<or> bd_WorkDir x = ''''
          then Inl (Errorf ''attempt.bound provenance is incomplete'' [])
          else Inr (p\<lparr>p_Attempts := mput (bd_AttemptID x) (a\<lparr>a_RunID := bd_RunID x, a_SessionID := bd_SessionID x,
                 a_WorkDir := bd_WorkDir x, a_ChildPlanID := bd_ChildPlanID x\<rparr>) (p_Attempts p)\<rparr>))"

definition replayFinished ::
  "Ambient \<Rightarrow> RequirementExecutionPlan \<Rightarrow> Event \<Rightarrow> FinishedPayload \<Rightarrow> PlanProjection \<Rightarrow> go_error + PlanProjection" where
  "replayFinished am plan e x p =
     (case FinishAttempt am plan (fi_AttemptID x)
         \<lparr>in_PlanRevision = pl_Revision plan, in_AttemptID = '''', in_LeaseToken = ev_FencingToken e, in_Event = fi_Event x,
          in_Result = fi_Result x, in_Failure = fi_Failure x, in_OutputArtifacts = fi_ArtifactIDs x,
          in_IdempotencyKey = (case fi_TransitionIdempotencyKey x of Some k \<Rightarrow> k | None \<Rightarrow> ev_IdempotencyKey e),
          in_PayloadHash = '''', in_Now = (if IsZero (fi_TransitionAt x) then ev_CreatedAt e else fi_TransitionAt x)\<rparr> p of
        (p1, Inl err) \<Rightarrow> Inl err
      | (p1, Inr a) \<Rightarrow> Inr p1)"

definition replayEvent ::
  "Codec \<Rightarrow> Ambient \<Rightarrow> RequirementExecutionPlan \<Rightarrow> Event \<Rightarrow> PlanProjection \<Rightarrow> go_error + PlanProjection" where
  "replayEvent cd am plan e p =
     (if ev_Type e = ''plan.created'' \<or> ev_Type e = ''plan.published'' then Inr p
      else if ev_Type e = ''attempt.started'' then
        (case cd_Started cd (ev_Payload e) of Inl err \<Rightarrow> Inl err | Inr x \<Rightarrow> replayStarted am plan e x p)
      else if ev_Type e = ''attempt.bound'' then
        (case cd_Bound cd (ev_Payload e) of Inl err \<Rightarrow> Inl err | Inr x \<Rightarrow> replayBound e x p)
      else if ev_Type e = ''attempt.finished'' then
        (case cd_Finished cd (ev_Payload e) of Inl err \<Rightarrow> Inl err | Inr x \<Rightarrow> replayFinished am plan e x p)
      else if ev_Type e = ''node.retry_requested'' then
        (case cd_Retry cd (ev_Payload e) of
           Inl err \<Rightarrow> Inl err
         | Inr nodeID \<Rightarrow> (case Retry nodeID p of (p1, Some err) \<Rightarrow> Inl err | (p1, None) \<Rightarrow> Inr p1))
      else Inl (Errorf ''unsupported replay event %q'' [ArgS (ev_Type e)]))"

fun replayLoop ::
  "Codec \<Rightarrow> Ambient \<Rightarrow> RequirementExecutionPlan \<Rightarrow> Event list \<Rightarrow> PlanProjection \<Rightarrow> go_error + PlanProjection" where
  "replayLoop cd am plan [] p = Inr p"
| "replayLoop cd am plan (e # es) p =
     (case replayEvent cd am plan e p of Inl err \<Rightarrow> Inl err | Inr q \<Rightarrow> replayLoop cd am plan es q)"

definition ReplayProjection ::
  "Codec \<Rightarrow> Ambient \<Rightarrow> RequirementExecutionPlan \<Rightarrow> Event list \<Rightarrow> go_error + PlanProjection" where
  "ReplayProjection cd am plan events =
     (case NewProjection plan of
        Inl err \<Rightarrow> Inl err
      | Inr p \<Rightarrow>
          (case ValidateEventChain cd events (pl_ID plan) (pl_WorkspaceID plan) of
             Some err \<Rightarrow> Inl err
           | None \<Rightarrow> replayLoop cd am plan events p))"

section \<open>Lemmas on chains\<close>

lemma eventDigest_envelope [simp]: "eventDigest cd (e\<lparr>ev_EnvelopeHash := h\<rparr>) = eventDigest cd e"
  by (simp add: eventDigest_def digestInput_def)

fun lastHash :: "string \<Rightarrow> Event list \<Rightarrow> string" where
  "lastHash prev [] = prev"
| "lastHash prev (e # es) = lastHash (ev_EnvelopeHash e) es"

lemma lastHash_last: "es \<noteq> [] \<Longrightarrow> lastHash prev es = ev_EnvelopeHash (last es)"
  by (induction es arbitrary: prev) auto

lemma chainLoop_append:
  "chainLoop cd pid ws i prev (es @ fs) = None \<longleftrightarrow>
     chainLoop cd pid ws i prev es = None \<and> chainLoop cd pid ws (i + length es) (lastHash prev es) fs = None"
  by (induction es arbitrary: i prev) (auto split: option.splits)

lemma ValidateEventChain_snoc:
  "ValidateEventChain cd (es @ [e]) pid ws = None \<longleftrightarrow>
     ValidateEventChain cd es pid ws = None \<and> checkEvent cd pid ws (length es) (lastHash '''' es) e = None"
  by (simp add: ValidateEventChain_def chainLoop_append split: option.splits)

lemma checkEvent_None:
  "checkEvent cd pid ws i prev e = None \<longleftrightarrow>
     ev_ID e \<noteq> '''' \<and> ev_Type e \<noteq> '''' \<and> ev_PlanID e = pid \<and> ev_WorkspaceID e = ws \<and> pid \<noteq> '''' \<and> ws \<noteq> '''' \<and>
     ev_Payload e \<noteq> '''' \<and> ev_PayloadHash e \<noteq> '''' \<and> ev_EnvelopeHash e \<noteq> '''' \<and> ev_Sequence e = int i + 1 \<and>
     ev_PreviousHash e = prev \<and> eventDigest cd e = ev_EnvelopeHash e \<and> payloadDigest cd (ev_Payload e) = ev_PayloadHash e \<and>
     (ev_TraceParent e \<noteq> '''' \<or> ev_TraceState e \<noteq> '''' \<longrightarrow>
        \<not> isl (ParseTraceParent (ev_TraceParent e) (ev_TraceState e)))"
  unfolding checkEvent_def by (auto simp: check_simps split: sum.splits)

lemma chainLoop_length_sequence:
  "chainLoop cd pid ws i prev es = None \<Longrightarrow> k < length es \<Longrightarrow> ev_Sequence (es ! k) = int (i + k) + 1"
proof (induction es arbitrary: i prev k)
  case Nil
  then show ?case by simp
next
  case (Cons e es)
  then show ?case by (cases k) (auto simp: checkEvent_None split: option.splits dest: Cons.IH)
qed

section \<open>Lemmas on the replay\<close>

lemma replayLoop_append:
  "replayLoop cd am plan (es @ fs) p =
     (case replayLoop cd am plan es p of Inl err \<Rightarrow> Inl err | Inr q \<Rightarrow> replayLoop cd am plan fs q)"
  by (induction es arbitrary: p) (auto split: sum.splits)

text \<open>An update of an attempt that keeps its identity keeps the invariant on the attempts.\<close>

lemma attempts_inv_update:
  assumes "attempts_inv plan p" and "mget (p_Attempts p) k = Some a"
    and "a_ID b = a_ID a" and "a_PlanID b = a_PlanID a" and "a_NodeID b = a_NodeID a" and "a_AttemptNo b = a_AttemptNo a"
  shows "attempts_inv plan (p\<lparr>p_Attempts := mput k b (p_Attempts p)\<rparr>)"
  unfolding attempts_inv_def
proof (intro conjI allI impI)
  let ?as = "p_Attempts (p\<lparr>p_Attempts := mput k b (p_Attempts p)\<rparr>)"
  have old: "\<exists>y. mget (p_Attempts p) j = Some y \<and> a_ID x = a_ID y \<and> a_PlanID x = a_PlanID y \<and> a_NodeID x = a_NodeID y \<and>
      a_AttemptNo x = a_AttemptNo y" if "mget ?as j = Some x" for j x
    using that assms(2-) by (auto split: if_splits)
  show "mwf ?as" using assms(1) by (simp add: attempts_inv_def)
  show "a_ID x = j" "a_PlanID x = pl_ID plan" if "mget ?as j = Some x" for j x
    using old [OF that] assms(1) by (auto simp: attempts_inv_def)
  show "i = j" if "mget ?as i = Some x" "mget ?as j = Some y" "a_NodeID x = a_NodeID y" "a_AttemptNo x = a_AttemptNo y"
    for i j x y
    using old [OF that(1)] old [OF that(2)] that(3,4) assms(1) unfolding attempts_inv_def by metis
qed

lemma StartAttempt_stored:
  assumes "StartAttempt am plan nodeID attemptID attemptNo lease c inp p = (p', Inr a)" and "attempts_inv plan p"
  shows "mget (p_Attempts p') (a_ID a) = Some a"
  using assms(1)
proof (cases rule: StartAttempt_cases)
  case (error e)
  then show ?thesis by simp
next
  case (replay b)
  then obtain k where "mget (p_Attempts p) k = Some a"
    using assms(2) mvals_mget [of "p_Attempts p" a] by (auto simp: attempts_inv_def)
  then show ?thesis using replay assms(2) by (auto simp: attempts_inv_def)
next
  case (fresh b n no)
  then show ?thesis by simp
qed

lemma replayStarted_inv:
  assumes "replayStarted am plan e x p = Inr q" and "attempts_inv plan p"
  shows "attempts_inv plan q"
proof -
  obtain nodeID attemptID no lease c inp p1 s child
    where s: "StartAttempt am plan nodeID attemptID no lease c inp p = (p1, Inr s)"
      and q: "q = withChildPlan child s p1"
    using assms(1) by (auto simp: replayStarted_def Let_def split: prod.splits sum.splits)
  have "attempts_inv plan p1" using start_attempts [OF s assms(2)] by simp
  then show ?thesis
    using q attempts_inv_update [OF _ StartAttempt_stored [OF s assms(2)]] by (simp add: withChildPlan_def)
qed

lemma replayEvent_inv:
  assumes "replayEvent cd am plan e p = Inr q" and "attempts_inv plan p"
  shows "attempts_inv plan q"
proof -
  have bound: "attempts_inv plan r" if "replayBound e x p = Inr r" for x r
    using that assms(2) by (auto simp: replayBound_def split: if_splits option.splits intro: attempts_inv_update)
  have finished: "attempts_inv plan r" if "replayFinished am plan e x p = Inr r" for x r
    using that finish_attempts [OF _ assms(2)] by (auto simp: replayFinished_def split: prod.splits sum.splits)
  have retry: "attempts_inv plan r" if "Retry n p = (r, None)" for n r
    using that assms(2) attempts_same [of r p plan] by (auto simp: Retry_def split: option.splits if_splits)
  show ?thesis
    using assms bound finished retry replayStarted_inv [OF _ assms(2)]
    unfolding replayEvent_def by (auto split: if_splits sum.splits prod.splits option.splits)
qed

lemma replayLoop_inv: "replayLoop cd am plan es p = Inr q \<Longrightarrow> attempts_inv plan p \<Longrightarrow> attempts_inv plan q"
  by (induction es arbitrary: p) (auto split: sum.splits dest: replayEvent_inv)

section \<open>An example log\<close>

text \<open>
  A codec for the witnesses that encodes events by some of their fields and decodes the payloads of one run of the
  example workflow: the attempt at \<open>impl\<close> is started, bound to a run and finished.
\<close>

definition exCodec :: Codec where
  "exCodec = \<lparr>cd_Compact = Some, cd_Sha256 = (\<lambda>x. ''h'' @ x),
     cd_EventJSON = (\<lambda>e. itoa (ev_Sequence e) @ '','' @ ev_Type e @ '','' @ ev_PreviousHash e),
     cd_Started = (\<lambda>_. Inr \<lparr>st_NodeID = ''impl'', st_AttemptID = ''a1'', st_AttemptNo = 1, st_Lease = exLease,
        st_Context = exEnvelope, st_DispatchPayloadHash = ''hash'', st_StartedAt = 50, st_ChildPlanID = ''''\<rparr>),
     cd_Bound = (\<lambda>_. Inr \<lparr>bd_AttemptID = ''a1'', bd_RunID = ''run'', bd_SessionID = ''s'', bd_WorkDir = ''/w'', bd_ChildPlanID = ''''\<rparr>),
     cd_Finished = (\<lambda>_. Inr \<lparr>fi_AttemptID = ''a1'', fi_Event = ''success'', fi_Result = exResult ''ok'', fi_Failure = None,
        fi_ArtifactIDs = [], fi_TransitionIdempotencyKey = None, fi_TransitionAt = 90\<rparr>),
     cd_Retry = (\<lambda>_. Inr ''impl'')\<rparr>"

definition exEvent :: "Event option \<Rightarrow> string \<Rightarrow> Event" where
  "exEvent prev typ = projr (NewEvent exCodec (''id-'' @ typ) 60 ('''', '''') prev ''p1'' ''w1'' typ (''key-'' @ typ) (Inr ''{}''))"

definition exStarted :: Event where "exStarted = exEvent None ''attempt.started''"
definition exBound :: Event where "exBound = Seal exCodec ((exEvent (Some exStarted) ''attempt.bound'')\<lparr>ev_FencingToken := 1\<rparr>)"
definition exFinished :: Event where "exFinished = Seal exCodec ((exEvent (Some exBound) ''attempt.finished'')\<lparr>ev_FencingToken := 1\<rparr>)"

abbreviation exLog :: "Event list" where "exLog \<equiv> [exStarted, exBound, exFinished]"

lemma exLog_valid: "ValidateEventChain exCodec exLog (pl_ID exPlan) (pl_WorkspaceID exPlan) = None"
  by code_simp

section \<open>Properties\<close>

text \<open>
  C27: The log is tamper evident. Two valid chains of a plan that end in the same envelope hash hold the same events,
  one by one, up to the white space of their JSON payloads, unless two different events of them have the same
  digest.
\<close>

theorem chain_tamper_evident:
  assumes "ValidateEventChain cd es pid ws = None" and "ValidateEventChain cd fs pid ws = None"
    and "lastHash '''' es = lastHash '''' fs"
    and "\<forall>e\<in>set es. \<forall>f\<in>set fs. eventDigest cd e = eventDigest cd f \<longrightarrow> digestInput cd e = digestInput cd f"
  shows "map (digestInput cd) es = map (digestInput cd) fs"
  using assms
proof (induction es arbitrary: fs rule: rev_induct)
  case Nil
  then show ?case
    by (cases fs rule: rev_cases) (auto simp: ValidateEventChain_snoc checkEvent_None lastHash_last)
next
  case (snoc e es)
  have "lastHash '''' (es @ [e]) = ev_EnvelopeHash e" by (simp add: lastHash_last)
  moreover have "ev_EnvelopeHash e \<noteq> ''''" using snoc.prems(1) by (simp add: ValidateEventChain_snoc checkEvent_None)
  ultimately have "fs \<noteq> []" using snoc.prems(3) by auto
  then obtain gs f where fs: "fs = gs @ [f]" by (cases fs rule: rev_cases) auto
  have ce: "ValidateEventChain cd es pid ws = None" "ev_PreviousHash e = lastHash '''' es" "eventDigest cd e = ev_EnvelopeHash e"
    using snoc.prems(1) by (simp_all add: ValidateEventChain_snoc checkEvent_None)
  have cf: "ValidateEventChain cd gs pid ws = None" "ev_PreviousHash f = lastHash '''' gs" "eventDigest cd f = ev_EnvelopeHash f"
    using snoc.prems(2) by (simp_all add: fs ValidateEventChain_snoc checkEvent_None)
  have "eventDigest cd e = eventDigest cd f" using snoc.prems(3) ce(3) cf(3) by (simp add: fs lastHash_last)
  then have same: "digestInput cd e = digestInput cd f" using snoc.prems(4) by (simp add: fs)
  then have "ev_PreviousHash e = ev_PreviousHash f"
    by (metis Event.select_convs(11) Event.surjective Event.update_convs(9,12) digestInput_def)
  then have "lastHash '''' es = lastHash '''' gs" using ce cf by simp
  then have "map (digestInput cd) es = map (digestInput cd) gs"
    using snoc.IH [OF ce(1) cf(1)] snoc.prems(4) by (simp add: fs)
  then show ?case using same by (simp add: fs)
qed

text \<open>
  Two chains of the example: the log, and the same log with blanks in the payloads, as another encoder might store it. The
  codec drops the blanks.
\<close>

definition exCompacting :: Codec where
  "exCompacting = exCodec\<lparr>cd_Compact := \<lambda>s. Some (filter (\<lambda>c. c \<noteq> CHR '' '') s)\<rparr>"

definition exSpaced :: "Event list" where
  "exSpaced = map (\<lambda>e. e\<lparr>ev_Payload := ''{ }''\<rparr>) exLog"

theorem chain_tamper_evident_witness:
  "exLog \<noteq> exSpaced \<and> map (digestInput exCompacting) exLog = map (digestInput exCompacting) exSpaced"
proof
  show "exLog \<noteq> exSpaced" by code_simp
  show "map (digestInput exCompacting) exLog = map (digestInput exCompacting) exSpaced"
  proof (rule chain_tamper_evident)
    show "ValidateEventChain exCompacting exLog ''p1'' ''w1'' = None" by code_simp
    show "ValidateEventChain exCompacting exSpaced ''p1'' ''w1'' = None" by code_simp
    show "lastHash '''' exLog = lastHash '''' exSpaced" by code_simp
    show "\<forall>e\<in>set exLog. \<forall>f\<in>set exSpaced. eventDigest exCompacting e = eventDigest exCompacting f \<longrightarrow> digestInput exCompacting e = digestInput exCompacting f"
      by code_simp
  qed
qed

text \<open>
  A new event extends the chain. The event made for the last event of a valid chain, with an ID, a payload and a
  trace carrier that is absent or well formed, makes the chain longer by one and keeps it valid.
\<close>

theorem NewEvent_extends_chain:
  assumes "ValidateEventChain cd es pid ws = None" and "\<And>x. cd_Sha256 cd x \<noteq> ''''" and "int (length es) < maxInt64"
    and "NewEvent cd newID now carrier (if es = [] then None else Some (last es)) pid ws typ key (Inr b) = Inr e"
    and "newID \<noteq> ''''" and "b \<noteq> ''''"
    and "carrier = ('''', '''') \<or> \<not> isl (ParseTraceParent (fst carrier) (snd carrier))"
  shows "ValidateEventChain cd (es @ [e]) pid ws = None"
proof -
  have req: "pid \<noteq> ''''" "ws \<noteq> ''''" "typ \<noteq> ''''" using assms(4) by (auto simp: NewEvent_def split: if_splits)
  have seq: "wrap64 (ev_Sequence (last es) + 1) = int (length es) + 1" if "es \<noteq> []"
  proof -
    have len: "int (length es - 1) + 1 = int (length es)" using that by (cases es) auto
    have "ev_Sequence (last es) = int (length es)"
      using chainLoop_length_sequence [of cd pid ws 0 "''''" es "length es - 1"] assms(1) that len
      by (simp add: ValidateEventChain_def last_conv_nth)
    then show ?thesis using assms(3) by (simp add: in64_def minInt64_def)
  qed
  have nonempty: "payloadDigest cd x \<noteq> ''''" "eventDigest cd f \<noteq> ''''" for x f
    using assms(2) by (simp_all add: payloadDigest_def eventDigest_def)
  have "checkEvent cd pid ws (length es) (lastHash '''' es) e = None"
    using assms(4-7) req seq nonempty
    by (auto simp: NewEvent_def Let_def checkEvent_None lastHash_last split: if_splits)
      (simp_all add: eventDigest_def digestInput_def)
  then show ?thesis using assms(1) by (simp add: ValidateEventChain_snoc)
qed

theorem NewEvent_extends_chain_witness:
  "ValidateEventChain exCodec ([exStarted] @ [exEvent (Some exStarted) ''attempt.bound'']) ''p1'' ''w1'' = None"
proof (rule NewEvent_extends_chain)
  show "ValidateEventChain exCodec [exStarted] ''p1'' ''w1'' = None" by code_simp
  show "cd_Sha256 exCodec x \<noteq> ''''" for x by (simp add: exCodec_def)
  show "int (length [exStarted]) < maxInt64" by (simp add: maxInt64_def)
  show "NewEvent exCodec ''id-attempt.bound'' 60 ('''', '''') (if [exStarted] = [] then None else Some (last [exStarted]))
      ''p1'' ''w1'' ''attempt.bound'' ''key-attempt.bound'' (Inr ''{}'') = Inr (exEvent (Some exStarted) ''attempt.bound'')"
    by (simp add: exEvent_def NewEvent_def)
qed simp_all

text \<open>
  Replay is incremental. On a valid chain, replaying a prefix and then the rest gives what replaying the whole
  chain gives, so a projection can be rebuilt from a snapshot and the events after it.
\<close>

theorem replay_incremental:
  assumes "ValidateEventChain cd (es @ fs) (pl_ID plan) (pl_WorkspaceID plan) = None"
  shows "ReplayProjection cd am plan (es @ fs) =
    (case ReplayProjection cd am plan es of Inl err \<Rightarrow> Inl err | Inr p \<Rightarrow> replayLoop cd am plan fs p)"
proof -
  have "ValidateEventChain cd es (pl_ID plan) (pl_WorkspaceID plan) = None"
    using assms by (simp add: ValidateEventChain_def chainLoop_append)
  then show ?thesis using assms by (simp add: ReplayProjection_def replayLoop_append split: sum.splits)
qed

theorem replay_incremental_witness:
  "ReplayProjection exCodec exAmbient exPlan exLog =
     (case ReplayProjection exCodec exAmbient exPlan [exStarted, exBound] of
        Inl err \<Rightarrow> Inl err | Inr p \<Rightarrow> replayLoop exCodec exAmbient exPlan [exFinished] p)"
  using replay_incremental [of exCodec "[exStarted, exBound]" "[exFinished]" exPlan exAmbient] exLog_valid by simp

text \<open>
  C32: Replay rebuilds a consistent history. A projection rebuilt from an event chain files every attempt under its own
  ID, holds attempts of the plan only, and never gives two attempts of a node the same number.
\<close>

theorem replay_attempts:
  assumes "ReplayProjection cd am plan es = Inr p"
    and "mget (p_Attempts p) k = Some a" and "mget (p_Attempts p) j = Some b"
  shows "a_ID a = k \<and> a_PlanID a = pl_ID plan \<and> (a_NodeID a = a_NodeID b \<and> a_AttemptNo a = a_AttemptNo b \<longrightarrow> k = j)"
proof -
  obtain r where r: "NewProjection plan = Inr r" "replayLoop cd am plan es r = Inr p"
    using assms(1) by (auto simp: ReplayProjection_def split: sum.splits option.splits)
  have "attempts_inv plan r" using r(1) initial_attempts by (simp add: initial_projection_def)
  then have "attempts_inv plan p" using replayLoop_inv r(2) by blast
  then show ?thesis using assms(2,3) unfolding attempts_inv_def by blast
qed

theorem replay_attempts_witness:
  "\<exists>a. mget (p_Attempts (projr (ReplayProjection exCodec exAmbient exPlan exLog))) ''a1'' = Some a \<and>
     a_ID a = ''a1'' \<and> a_Status a = AttemptPassed"
proof -
  let ?r = "ReplayProjection exCodec exAmbient exPlan exLog"
  have "\<not> isl ?r" by code_simp
  then have r: "?r = Inr (projr ?r)" by simp
  have "opt_any (\<lambda>a. a_Status a = AttemptPassed) (mget (p_Attempts (projr ?r)) ''a1'')" by code_simp
  then obtain a where a: "mget (p_Attempts (projr ?r)) ''a1'' = Some a" "a_Status a = AttemptPassed"
    by (auto simp: opt_any_iff)
  from replay_attempts [OF r a(1) a(1)] a show ?thesis by blast
qed

end
