(* ===== verification/Orch_Definitions.thy ===== *)
theory Orch_Definitions
  imports Orch_Projection Telemetry_Trace
begin

text \<open>
  Agent and squad definitions and the freezing of plans (\<open>model.go\<close>, \<open>diagnostics.go\<close>): the validation of versioned
  definitions before they are stored, the access contract of an agent, and \<open>Freeze\<close>, which turns a draft plan into
  an immutable one.

  Loops over a Go map (\<open>RuntimeConfig\<close>) see the entries in the order of the association list; only the choice of
  the error reported depends on it. The hash of a plan is an argument: it is the SHA-256 of the plan's JSON text.
\<close>

section \<open>Runes and paths\<close>

definition byteIn :: "nat \<Rightarrow> nat \<Rightarrow> char \<Rightarrow> bool" where
  "byteIn lo hi c \<longleftrightarrow> lo \<le> of_char c \<and> of_char c \<le> hi"

abbreviation contByte :: "char \<Rightarrow> bool" where
  "contByte \<equiv> byteIn 0x80 0xBF"

text \<open>The length of the first rune of a string; a byte that starts no valid UTF-8 sequence is a rune of its own.\<close>

definition runeWidth :: "string \<Rightarrow> nat" where
  "runeWidth s =
     (case s of
        b # c # rest \<Rightarrow>
          (if byteIn 0xC2 0xDF b \<and> contByte c then 2
           else case rest of
             d # rest' \<Rightarrow>
               (if contByte d \<and> (b = CHR 0xE0 \<and> byteIn 0xA0 0xBF c \<or> byteIn 0xE1 0xEC b \<and> contByte c \<or>
                     b = CHR 0xED \<and> byteIn 0x80 0x9F c \<or> byteIn 0xEE 0xEF b \<and> contByte c) then 3
                else case rest' of
                  e # _ \<Rightarrow>
                    (if contByte d \<and> contByte e \<and> (b = CHR 0xF0 \<and> byteIn 0x90 0xBF c \<or> byteIn 0xF1 0xF3 b \<and> contByte c \<or>
                          b = CHR 0xF4 \<and> byteIn 0x80 0x8F c) then 4 else 1)
                | [] \<Rightarrow> 1)
           | [] \<Rightarrow> 1)
      | _ \<Rightarrow> 1)"

lemma runeWidth_pos [simp]: "0 < runeWidth s"
  by (auto simp: runeWidth_def split: list.splits)

text \<open>\<open>len([]rune(s))\<close>\<close>

function runeCount :: "string \<Rightarrow> nat" where
  "runeCount s = (if s = [] then 0 else Suc (runeCount (drop (runeWidth s) s)))"
  by pat_completeness auto
termination by (relation "measure length") auto

declare runeCount.simps [simp del]

text \<open>\<open>path.Clean\<close>: blank and \<open>"."\<close> elements are dropped, \<open>".."\<close> removes the element before it.\<close>

definition cleanStep :: "bool \<Rightarrow> string \<Rightarrow> string list \<Rightarrow> string list" where
  "cleanStep rooted x acc =
     (if x = '''' \<or> x = ''.'' then acc
      else if x = ''..'' then
        (case acc of [] \<Rightarrow> if rooted then [] else [''..''] | t # rest \<Rightarrow> if t = ''..'' then ''..'' # acc else rest)
      else x # acc)"

fun joinPath :: "string list \<Rightarrow> string" where
  "joinPath [] = ''''"
| "joinPath [x] = x"
| "joinPath (x # xs) = x @ ''/'' @ joinPath xs"

definition pathClean :: "string \<Rightarrow> string" where
  "pathClean p =
     (if p = '''' then ''.''
      else let rooted = HasPrefix p ''/''; s = joinPath (rev (fold (cleanStep rooted) (Split CHR ''/'' p) []))
           in if rooted then ''/'' @ s else if s = '''' then ''.'' else s)"

text \<open>\<open>strings.ReplaceAll(s, old, new)\<close> for an \<open>old\<close> that is not empty.\<close>

function replaceAll :: "string \<Rightarrow> string \<Rightarrow> string \<Rightarrow> string" where
  "replaceAll old new s =
     (if s = [] then []
      else if old \<noteq> [] \<and> HasPrefix s old then new @ replaceAll old new (drop (length old) s)
      else hd s # replaceAll old new (tl s))"
  by pat_completeness auto
termination by (relation "measure (\<lambda>(old, new, s). length s)") auto

declare replaceAll.simps [simp del]

definition joinNul :: "string list \<Rightarrow> string" where
  "joinNul xs = (case xs of [] \<Rightarrow> [] | y # ys \<Rightarrow> y @ concat (map (\<lambda>z. CHR 0x00 # z) ys))"

text \<open>The two patterns of names: a letter or underscore, then letters, digits, underscores and, for keys, dots and dashes.\<close>

definition letterOrUnderscore :: "char \<Rightarrow> bool" where
  "letterOrUnderscore c \<longleftrightarrow> CHR ''A'' \<le> c \<and> c \<le> CHR ''Z'' \<or> CHR ''a'' \<le> c \<and> c \<le> CHR ''z'' \<or> c = CHR ''_''"

definition nameChar :: "char \<Rightarrow> bool" where
  "nameChar c \<longleftrightarrow> letterOrUnderscore c \<or> CHR ''0'' \<le> c \<and> c \<le> CHR ''9''"

definition environmentNamePattern :: "string \<Rightarrow> bool" where
  "environmentNamePattern s \<longleftrightarrow> (case s of [] \<Rightarrow> False | c # cs \<Rightarrow> letterOrUnderscore c \<and> list_all nameChar cs)"

definition runtimeConfigKeyPattern :: "string \<Rightarrow> bool" where
  "runtimeConfigKeyPattern s \<longleftrightarrow>
     (case s of [] \<Rightarrow> False
      | c # cs \<Rightarrow> letterOrUnderscore c \<and> list_all (\<lambda>d. nameChar d \<or> d = CHR ''.'' \<or> d = CHR ''-'') cs)"

section \<open>Agents\<close>

definition policyOverlap :: "ToolPolicy \<Rightarrow> string" where
  "policyOverlap policy =
     (let denied = filter (\<lambda>x. x \<noteq> '''') (map TrimSpace (tp_Denied policy)) in
      case find (\<lambda>x. x \<in> set denied) (map TrimSpace (tp_Allowed policy)) of Some x \<Rightarrow> x | None \<Rightarrow> '''')"

definition checkStarters :: "ConversationStarter list \<Rightarrow> go_error option" where
  "checkStarters = check_seen 0 (\<lambda>s. ToLower (TrimSpace (cs_Label s)))
     (\<lambda>i seen s. let label = TrimSpace (cs_Label s); prompt = TrimSpace (cs_Prompt s) in first_err
       [guard (label = '''' \<or> prompt = '''')
          (Errorf ''agent conversation_starters[%d] requires label and prompt'' [ArgI (int i)]),
        guard (80 < runeCount label \<or> 4000 < runeCount prompt)
          (Errorf ''agent conversation_starters[%d] exceeds its size limit'' [ArgI (int i)]),
        guard (ToLower label \<in> set seen) (Errorf ''agent conversation starter label %q is duplicated'' [ArgS label])]) []"

definition checkAccessMode :: "AgentAccessPolicy \<Rightarrow> go_error option" where
  "checkAccessMode ap =
     (let mode = ToLower (TrimSpace (ap_Mode ap)) in
      if mode \<in> set ['''', ''private'', ''workspace''] then
        guard (ap_MemberIDs ap \<noteq> []) (Errorf ''agent member access requires access_policy.mode members'' [])
      else if mode = ''members'' then
        guard (ap_MemberIDs ap = []) (Errorf ''agent members access requires at least one member_id'' [])
      else Some (Errorf ''agent access policy mode %q is invalid'' [ArgS mode]))"

text \<open>A list of names that must not be blank and, once trimmed, not repeat.\<close>

definition checkNames :: "string \<Rightarrow> string \<Rightarrow> string list \<Rightarrow> go_error option" where
  "checkNames blankFmt dupFmt = check_seen 0 TrimSpace
     (\<lambda>i seen v. first_err
       [guard (TrimSpace v = '''') (Errorf blankFmt [ArgI (int i)]),
        guard (TrimSpace v \<in> set seen) (Errorf dupFmt [ArgS (TrimSpace v)])]) []"

definition skillIdentity :: "DisabledRuntimeSkill \<Rightarrow> string" where
  "skillIdentity s = joinNul [TrimSpace (ds_RuntimeID s), TrimSpace (ds_Provider s), TrimSpace (ds_Root s),
     TrimSpace (ds_Key s), TrimSpace (ds_Plugin s)]"

definition skillKeyInvalid :: "string \<Rightarrow> bool" where
  "skillKeyInvalid key \<longleftrightarrow>
     (let cleaned = pathClean (replaceAll [CHR 0x5C, CHR 0x5C] ''/'' key) in
      key = '''' \<or> HasPrefix key ''/'' \<or> cleaned = ''.'' \<or> cleaned = ''..'' \<or> HasPrefix cleaned ''../'' \<or> cleaned \<noteq> key)"

definition checkDisabledSkills :: "DisabledRuntimeSkill list \<Rightarrow> go_error option" where
  "checkDisabledSkills = check_seen 0 skillIdentity
     (\<lambda>i seen s. let root = TrimSpace (ds_Root s); key = TrimSpace (ds_Key s) in first_err
       [guard (TrimSpace (ds_RuntimeID s) = '''' \<or> TrimSpace (ds_Provider s) = '''')
          (Errorf ''agent disabled_runtime_skills[%d] requires runtime_id and provider'' [ArgI (int i)]),
        guard (root \<noteq> ''provider'' \<and> root \<noteq> ''universal'' \<and> root \<noteq> ''plugin'')
          (Errorf ''agent disabled_runtime_skills[%d].root is invalid'' [ArgI (int i)]),
        guard (skillKeyInvalid key) (Errorf ''agent disabled_runtime_skills[%d].key is invalid'' [ArgI (int i)]),
        guard ((root = ''plugin'') \<noteq> (TrimSpace (ds_Plugin s) \<noteq> ''''))
          (Errorf ''agent disabled_runtime_skills[%d].plugin does not match its root'' [ArgI (int i)]),
        guard (skillIdentity s \<in> set seen) (Errorf ''agent disabled runtime Skill %q is duplicated'' [ArgS key])]) []"

definition thinkingLevels :: "string list" where
  "thinkingLevels = [''none'', ''minimal'', ''low'', ''medium'', ''high'', ''xhigh'', ''max'', ''off'', ''on'']"

definition secretFragments :: "string list" where
  "secretFragments = [''secret'', ''token'', ''password'', ''credential'', ''api_key'', ''apikey'']"

definition checkRuntimeConfig :: "(string, string) gomap \<Rightarrow> go_error option" where
  "checkRuntimeConfig = check_indexed 0
     (\<lambda>i (key, v). first_err
       [guard (\<not> runtimeConfigKeyPattern key) (Errorf ''agent runtime_config key %q is invalid'' [ArgS key]),
        guard (list_ex (Contains (ToLower key)) secretFragments)
          (Errorf ''agent runtime_config key %q must use environment secret references'' [ArgS key]),
        guard (1024 < length v \<or> ContainsAny v [CHR 0x0D, CHR 0x0A, CHR 0x00])
          (Errorf ''agent runtime_config value for %q is invalid'' [ArgS key])])"

definition checkEnvironment :: "EnvironmentReference list \<Rightarrow> go_error option" where
  "checkEnvironment = check_seen 0 (\<lambda>r. TrimSpace (env_Name r))
     (\<lambda>i seen r. let name = TrimSpace (env_Name r); ref = TrimSpace (env_SecretRef r) in first_err
       [guard (\<not> environmentNamePattern name) (Errorf ''agent environment[%d].name is invalid'' [ArgI (int i)]),
        guard (\<not> HasPrefix ref ''env:'' \<or> \<not> environmentNamePattern (drop 4 ref))
          (Errorf ''agent environment[%d].secret_ref is invalid'' [ArgI (int i)]),
        guard (name \<in> set seen) (Errorf ''agent environment name %q is duplicated'' [ArgS name])]) []"

definition agentStatusKnown :: "AgentStatus \<Rightarrow> bool" where
  "agentStatusKnown st \<longleftrightarrow> (case st of AgentOther s \<Rightarrow> False | _ \<Rightarrow> True)"

definition statusName :: "AgentStatus \<Rightarrow> string" where
  "statusName st = (case st of AgentDraft \<Rightarrow> ''draft'' | AgentActive \<Rightarrow> ''active'' | AgentDisabled \<Rightarrow> ''disabled''
     | AgentArchived \<Rightarrow> ''archived'' | AgentOther s \<Rightarrow> s)"

definition checkBinding :: "ExecutorBinding \<Rightarrow> go_error option" where
  "checkBinding x =
     (let level = TrimSpace (x_ThinkingLevel x); tier = TrimSpace (x_ServiceTier x) in
      first_err
       [check_indexed 0 (\<lambda>i c. guard (blank c) (Errorf ''agent executor required_caps[%d] is empty'' [ArgI (int i)])) (x_RequiredCaps x),
        guard (level \<noteq> '''' \<and> level \<notin> set thinkingLevels) (Errorf ''agent executor thinking_level %q is invalid'' [ArgS level]),
        guard (tier \<noteq> '''' \<and> tier \<noteq> ''priority'' \<and> tier \<noteq> ''flex'')
          (Errorf ''agent executor service_tier %q is invalid'' [ArgS tier]),
        check_indexed 0 (\<lambda>i c. guard (blank c) (Errorf ''agent executor custom_args[%d] is empty'' [ArgI (int i)])) (x_CustomArgs x)])"

definition ValidateAgent :: "AgentDefinition \<Rightarrow> go_error option" where
  "ValidateAgent a =
     (let x = ag_ExecutorBinding a in
      first_err
       [guard (blank (ag_ID a) \<or> blank (ag_WorkspaceID a) \<or> blank (ag_Name a))
          (Errorf ''agent id, workspace_id and name are required'' []),
        guard (ag_Revision a < 1) (Errorf ''agent revision must be positive'' []),
        guard (255 < runeCount (ag_Description a)) (Errorf ''agent description cannot exceed 255 characters'' []),
        guard (3 < length (ag_ConversationStarters a)) (Errorf ''agent cannot have more than three conversation starters'' []),
        checkStarters (ag_ConversationStarters a),
        checkAccessMode (ag_AccessPolicy a),
        checkNames ''agent access_policy.member_ids[%d] is empty'' ''agent access policy member_id %q is duplicated''
          (ap_MemberIDs (ag_AccessPolicy a)),
        checkNames ''agent skill_ids[%d] is empty'' ''agent skill_ids value %q is duplicated'' (ag_SkillIDs a),
        checkNames ''agent mcp_server_ids[%d] is empty'' ''agent mcp_server_ids value %q is duplicated'' (ag_MCPServerIDs a),
        guard (256 < length (ag_DisabledRuntimeSkills a)) (Errorf ''agent cannot disable more than 256 runtime Skills'' []),
        checkDisabledSkills (ag_DisabledRuntimeSkills a),
        guard (\<not> agentStatusKnown (ag_Status a)) (Errorf ''agent status %q is invalid'' [ArgS (statusName (ag_Status a))]),
        validateBudget (ag_ConcurrencyBudget a) ''agent concurrency budget'',
        guard (s_Version (ag_InputSchema a) < 0 \<or> s_Version (ag_OutputSchema a) < 0)
          (Errorf ''agent schema versions cannot be negative'' []),
        guard (policyOverlap (ag_ToolPolicy a) \<noteq> '''')
          (Errorf ''agent tool policy allows and denies %q'' [ArgS (policyOverlap (ag_ToolPolicy a))]),
        guard (ag_Status a = AgentActive \<and>
            (blank (x_ProviderID x) \<or> blank (s_ID (ag_InputSchema a)) \<or> blank (s_ID (ag_OutputSchema a))))
          (Errorf ''active agent requires executor binding and schemas'' []),
        check_indexed 0 (\<lambda>i c. guard (blank (cap_Name c)) (Errorf ''agent capabilities[%d].name is required'' [ArgI (int i)]))
          (ag_Capabilities a),
        checkBinding x,
        (if g_Nodes (ag_Graph a) \<noteq> [] then map_option (\<lambda>e. Wrapf e ''agent graph'') (ValidateGraph (ag_Graph a)) else None),
        guard (32 < length (x_RuntimeConfig x)) (Errorf ''agent runtime_config cannot contain more than 32 entries'' []),
        checkRuntimeConfig (x_RuntimeConfig x),
        guard (64 < length (x_Environment x)) (Errorf ''agent environment cannot contain more than 64 references'' []),
        checkEnvironment (x_Environment x)])"

definition CanInvoke :: "AgentDefinition \<Rightarrow> string \<Rightarrow> bool" where
  "CanInvoke a member =
     (let memberID = TrimSpace member;
          ownerID = (if TrimSpace (ag_OwnerID a) = '''' then TrimSpace (ag_CreatedBy a) else TrimSpace (ag_OwnerID a));
          mode = ToLower (TrimSpace (ap_Mode (ag_AccessPolicy a))) in
      if ownerID = '''' \<and> TrimSpace (ap_Mode (ag_AccessPolicy a)) = '''' then True
      else if memberID \<noteq> '''' \<and> memberID = ownerID then True
      else if mode = ''workspace'' then memberID \<noteq> ''''
      else if mode = ''members'' then list_ex (\<lambda>x. memberID \<noteq> '''' \<and> memberID = TrimSpace x) (ap_MemberIDs (ag_AccessPolicy a))
      else False)"

section \<open>Squads\<close>

definition ValidateMember :: "SquadMember \<Rightarrow> go_error option" where
  "ValidateMember m =
     first_err
      [guard (blank (sm_ID m) \<or> (blank (sm_AgentID m) \<and> blank (sm_SquadID m)) \<or> blank (sm_Role m))
         (Errorf ''squad member id, exactly one agent_id/squad_id, and role are required'' []),
       guard (sm_AgentID m \<noteq> '''' \<and> sm_SquadID m \<noteq> '''') (Errorf ''squad member cannot reference agent and squad together'' []),
       guard (sm_MaxAttempts m < 0) (Errorf ''max_attempts cannot be negative'' []),
       validateBudget (sm_Budget m) ''squad member budget'',
       guard (s_Version (sm_InputSchema m) < 0 \<or> s_Version (sm_OutputSchema m) < 0)
         (Errorf ''squad member schema versions cannot be negative'' []),
       guard (sm_Leader m \<and> sm_AgentID m = '''') (Errorf ''squad leader must reference an agent'' [])]"

definition checkMembers :: "SquadMember list \<Rightarrow> go_error option" where
  "checkMembers = check_seen 0 sm_ID
     (\<lambda>i seen m. first_err
       [map_option (\<lambda>e. Wrapf e (''members['' @ itoa (int i) @ '']'')) (ValidateMember m),
        guard (sm_ID m \<in> set seen) (Errorf ''members[%d].id.duplicate'' [ArgI (int i)])]) []"

definition countSquadLeaders :: "SquadMember list \<Rightarrow> int" where
  "countSquadLeaders ms = int (length (filter sm_Leader ms))"

definition checkSquadPolicy :: "SquadPolicy \<Rightarrow> go_error option" where
  "checkSquadPolicy pol =
     first_err
      [guard (sp_MaxNestingDepth pol < 0 \<or> 8 < sp_MaxNestingDepth pol)
         (Errorf ''squad max_nesting_depth must be between 0 and 8'' []),
       validateBudget (sp_Budget pol) ''squad policy budget'',
       guard (policyOverlap (sp_ToolPolicy pol) \<noteq> '''')
         (Errorf ''squad tool policy allows and denies %q'' [ArgS (policyOverlap (sp_ToolPolicy pol))])]"

definition squadIdentityMissing :: "SquadDefinition \<Rightarrow> bool" where
  "squadIdentityMissing s \<longleftrightarrow> blank (sq_ID s) \<or> blank (sq_WorkspaceID s) \<or> blank (sq_Name s)"

definition ValidateSquad :: "SquadDefinition \<Rightarrow> go_error option" where
  "ValidateSquad s =
     first_err
      [guard (squadIdentityMissing s) (Errorf ''squad id, workspace_id and name are required'' []),
       checkMembers (sq_Members s),
       guard (sq_Status s = SquadPublished \<and> countSquadLeaders (sq_Members s) \<noteq> 1)
         (Errorf ''published squad requires exactly one leader'' []),
       checkSquadPolicy (sq_Policy s),
       ValidateGraph (sq_Graph s)]"

definition squadStatusName :: "SquadStatus \<Rightarrow> string" where
  "squadStatusName st = (case st of SquadDraft \<Rightarrow> ''draft'' | SquadPublished \<Rightarrow> ''published'' | SquadDisabled \<Rightarrow> ''disabled''
     | SquadArchived \<Rightarrow> ''archived'' | SquadOther s \<Rightarrow> s)"

definition ValidateDraft :: "SquadDefinition \<Rightarrow> go_error option" where
  "ValidateDraft s =
     first_err
      [guard (squadIdentityMissing s) (Errorf ''squad id, workspace_id and name are required'' []),
       guard (sq_Revision s < 1) (Errorf ''squad revision must be positive'' []),
       guard (sq_Status s \<noteq> SquadDraft)
         (Errorf ''draft validation requires draft status, got %q'' [ArgS (squadStatusName (sq_Status s))]),
       checkSquadPolicy (sq_Policy s)]"

section \<open>Freezing a plan\<close>

text \<open>
  \<open>hashOf\<close> is the SHA-256 of the JSON text of a plan, or the encoder's error. The digest is taken of the plan without
  its hash, status, revision and creation time.
\<close>

definition canonicalPlanHash ::
  "(RequirementExecutionPlan \<Rightarrow> go_error + string) \<Rightarrow> RequirementExecutionPlan \<Rightarrow> go_error + string" where
  "canonicalPlanHash hashOf p =
     hashOf (p\<lparr>pl_PlanHash := '''', pl_Status := PlanUnset, pl_Revision := 0, pl_CreatedAt := 0\<rparr>)"

definition freezeChecks :: "RequirementExecutionPlan \<Rightarrow> go_error option" where
  "freezeChecks p =
     first_err
      [guard (blank (pl_ID p) \<or> blank (pl_RequirementID p) \<or> blank (pl_WorkspaceID p))
         (Errorf ''plan id, requirement_id and workspace_id are required'' []),
       guard (blank (pl_ParentPlanID p) \<noteq> blank (pl_ParentAttemptID p))
         (Errorf ''parent_plan_id and parent_attempt_id must be provided together'' []),
       ValidateGraph (pl_GraphSnapshot p),
       guard (\<not> IsZero (pl_Deadline p) \<and> \<not> IsZero (pl_CreatedAt p) \<and> \<not> pl_CreatedAt p < pl_Deadline p)
         (Errorf ''plan deadline must be after created_at'' []),
       guard (pl_Status p \<noteq> PlanDraft \<and> pl_Status p \<noteq> PlanValidating) (Errorf ''execution plan is immutable'' [])]"

definition Freeze ::
  "(RequirementExecutionPlan \<Rightarrow> go_error + string) \<Rightarrow> RequirementExecutionPlan \<Rightarrow>
     RequirementExecutionPlan \<times> go_error option" where
  "Freeze hashOf p =
     (case freezeChecks p of
        Some e \<Rightarrow> (p, Some e)
      | None \<Rightarrow>
          (case canonicalPlanHash hashOf p of
             Inl e \<Rightarrow> (p, Some e)
           | Inr h \<Rightarrow> (p\<lparr>pl_PlanHash := h, pl_Status := PlanReady, pl_Revision := 1\<rparr>, None)))"

section \<open>Lemmas\<close>

lemma checkRuntimeConfig_None:
  "checkRuntimeConfig m = None \<longleftrightarrow> (\<forall>(key, v)\<in>set m. runtimeConfigKeyPattern key \<and>
     (\<forall>f\<in>set secretFragments. \<not> Contains (ToLower key) f) \<and> length v \<le> 1024 \<and> \<not> ContainsAny v [CHR 0x0D, CHR 0x0A, CHR 0x00])"
  unfolding checkRuntimeConfig_def
  by (subst check_indexed_None_set [where P = "\<lambda>(key, v). runtimeConfigKeyPattern key \<and>
     (\<forall>f\<in>set secretFragments. \<not> Contains (ToLower key) f) \<and> length v \<le> 1024 \<and> \<not> ContainsAny v [CHR 0x0D, CHR 0x0A, CHR 0x00]"])
    (auto simp: check_simps list_ex_iff not_less)

lemma checkEnvironment_None:
  "checkEnvironment rs = None \<longleftrightarrow> distinct (map (\<lambda>r. TrimSpace (env_Name r)) rs) \<and>
     (\<forall>r\<in>set rs. environmentNamePattern (TrimSpace (env_Name r)) \<and> HasPrefix (TrimSpace (env_SecretRef r)) ''env:'' \<and>
        environmentNamePattern (drop 4 (TrimSpace (env_SecretRef r))))"
  unfolding checkEnvironment_def
  by (subst check_seen_None [where P = "\<lambda>r. environmentNamePattern (TrimSpace (env_Name r)) \<and>
        HasPrefix (TrimSpace (env_SecretRef r)) ''env:'' \<and> environmentNamePattern (drop 4 (TrimSpace (env_SecretRef r)))"])
    (auto simp: check_simps Let_def)

lemma policyOverlap_empty:
  "policyOverlap policy = '''' \<longleftrightarrow>
     (\<forall>x\<in>TrimSpace ` set (tp_Allowed policy). \<forall>y\<in>TrimSpace ` set (tp_Denied policy). x = y \<longrightarrow> x = '''')"
proof -
  let ?denied = "filter (\<lambda>x. x \<noteq> '''') (map TrimSpace (tp_Denied policy))"
  show ?thesis
  proof (cases "find (\<lambda>x. x \<in> set ?denied) (map TrimSpace (tp_Allowed policy))")
    case None
    then have "policyOverlap policy = ''''" by (simp only: policyOverlap_def Let_def option.case)
    moreover have "\<forall>x\<in>TrimSpace ` set (tp_Allowed policy). \<forall>y\<in>TrimSpace ` set (tp_Denied policy). x = y \<longrightarrow> x = ''''"
      using None by (auto simp: find_None_iff)
    ultimately show ?thesis by blast
  next
    case (Some x)
    then have "x \<in> TrimSpace ` set (tp_Allowed policy)" "x \<in> TrimSpace ` set (tp_Denied policy)" "x \<noteq> ''''"
      by (auto simp: find_Some_iff) (metis nth_mem imageI)+
    then show ?thesis using Some by (auto simp: policyOverlap_def Let_def)
  qed
qed

section \<open>Properties\<close>

text \<open>
  No secret enters through an accepted agent. The keys of its runtime configuration match the key pattern and
  contain none of the secret fragments in any case, its environment names are distinct and refer to variables through
  \<open>env:\<close> references, no tool is both allowed and denied, and an active agent has an executor and both schemas.
\<close>

theorem ValidateAgent_no_secrets:
  assumes "ValidateAgent a = None"
  shows "(\<forall>(key, v)\<in>set (x_RuntimeConfig (ag_ExecutorBinding a)).
      runtimeConfigKeyPattern key \<and> (\<forall>f\<in>set secretFragments. \<not> Contains (ToLower key) f)) \<and>
    distinct (map (\<lambda>r. TrimSpace (env_Name r)) (x_Environment (ag_ExecutorBinding a))) \<and>
    (\<forall>r\<in>set (x_Environment (ag_ExecutorBinding a)). HasPrefix (TrimSpace (env_SecretRef r)) ''env:'') \<and>
    (\<forall>x\<in>TrimSpace ` set (tp_Allowed (ag_ToolPolicy a)). x \<in> TrimSpace ` set (tp_Denied (ag_ToolPolicy a)) \<longrightarrow> x = '''') \<and>
    (ag_Status a = AgentActive \<longrightarrow> \<not> blank (x_ProviderID (ag_ExecutorBinding a)) \<and> \<not> blank (s_ID (ag_InputSchema a)) \<and>
       \<not> blank (s_ID (ag_OutputSchema a)))"
proof -
  have "checkRuntimeConfig (x_RuntimeConfig (ag_ExecutorBinding a)) = None" "checkEnvironment (x_Environment (ag_ExecutorBinding a)) = None"
    "policyOverlap (ag_ToolPolicy a) = ''''"
    "ag_Status a = AgentActive \<longrightarrow> \<not> blank (x_ProviderID (ag_ExecutorBinding a)) \<and> \<not> blank (s_ID (ag_InputSchema a)) \<and>
       \<not> blank (s_ID (ag_OutputSchema a))"
    using assms by (simp_all add: ValidateAgent_def Let_def first_err_None guard_None)
  then show ?thesis unfolding checkRuntimeConfig_None checkEnvironment_None policyOverlap_empty by (auto simp: split_beta)
qed

end
