(* ===== verification/Orch_Store.thy ===== *)
theory Orch_Store
  imports Orch_Events Orch_Definitions
begin

text \<open>
  The state of the orchestration repository and its durable snapshot (\<open>repository.go\<close>): the maps a
  \<open>MemoryRepository\<close> keeps, the guarded write of a snapshot, loading it at a restart, backup and restore.

  The world outside is explicit. The files are a map from paths to contents; what the operating system does during one
  call is a value of \<open>io\<close>: it can refuse the lock, fail to read, fail before the atomic rename or fail after it, when
  the directory is synchronised. The JSON encoder and decoder and the hash of a plan are fields of \<open>RepoEnv\<close>, so
  nothing is assumed of them unless a theorem says so. The mutex of the repository makes every operation one step.
\<close>

section \<open>State\<close>

record OutboxRecord =
  ob_ID :: string
  ob_PlanID :: string
  ob_WorkspaceID :: string
  ob_Kind :: string
  ob_IdempotencyKey :: string
  ob_TraceParent :: string
  ob_TraceState :: string
  ob_Payload :: fields
  ob_Status :: string
  ob_Owner :: string
  ob_LeaseExpiresAt :: int
  ob_Attempts :: int
  ob_MaxAttempts :: int
  ob_LastError :: string
  ob_CreatedAt :: int
  ob_UpdatedAt :: int

record MemoryRepository =
  mr_statePath :: string
  mr_revision :: int
  mr_dirty :: bool
  mr_agents :: "(string, AgentDefinition) gomap"
  mr_squads :: "(string, SquadDefinition) gomap"
  mr_plans :: "(string, RequirementExecutionPlan) gomap"
  mr_projections :: "(string, PlanProjection) gomap"
  mr_keys :: "(string, string) gomap"
  mr_events :: "(string, Event list) gomap"
  mr_outbox :: "(string, OutboxRecord) gomap"

record persistedRepository =
  sn_Version :: int
  sn_Revision :: int
  sn_Agents :: "(string, AgentDefinition) gomap"
  sn_Squads :: "(string, SquadDefinition) gomap"
  sn_Plans :: "(string, RequirementExecutionPlan) gomap"
  sn_Projections :: "(string, PlanProjection) gomap"
  sn_Keys :: "(string, string) gomap"
  sn_Events :: "(string, Event list) gomap"
  sn_Outbox :: "(string, OutboxRecord) gomap"

definition ErrNotFound :: go_error where
  "ErrNotFound = Sentinel ''orchestration record not found''"

definition ErrOutboxConflict :: go_error where
  "ErrOutboxConflict = Sentinel ''orchestration outbox conflict''"

definition ErrUnsupportedProfile :: go_error where
  "ErrUnsupportedProfile = Sentinel ''orchestration production profile is unavailable''"

text \<open>An encoder and a decoder of JSON for one type; an error of either is \<open>None\<close>.\<close>

type_synonym 'a json = "('a \<Rightarrow> string option) \<times> (string \<Rightarrow> 'a option)"

record RepoEnv =
  re_Codec :: Codec
  re_PlanHash :: "RequirementExecutionPlan \<Rightarrow> go_error + string"
  re_Marshal :: "persistedRepository \<Rightarrow> go_error + string"
  re_Unmarshal :: "string \<Rightarrow> go_error + persistedRepository"
  re_Agents :: "(string, AgentDefinition) gomap json"
  re_Squads :: "(string, SquadDefinition) gomap json"
  re_Plans :: "(string, RequirementExecutionPlan) gomap json"
  re_Projections :: "(string, PlanProjection) gomap json"
  re_Keys :: "(string, string) gomap json"
  re_Events :: "(string, Event list) gomap json"
  re_Outbox :: "(string, OutboxRecord) gomap json"
  re_Agent :: "AgentDefinition json"
  re_Squad :: "SquadDefinition json"
  re_Plan :: "RequirementExecutionPlan json"
  re_Node :: "NodeProjection json"
  re_Attempt :: "NodeAttempt json"
  re_Decisions :: "FeedbackDecision list json"
  re_Event :: "Event json"
  re_Record :: "OutboxRecord json"
  re_Payload :: "fields \<Rightarrow> string option"

type_synonym disk = "(string, string) gomap"
type_synonym repo = "disk \<times> MemoryRepository"

datatype io = IODone | IOLock go_error | IORead go_error | IOWrite go_error | IOSync go_error

definition cloneValue :: "'a json \<Rightarrow> 'a \<Rightarrow> 'a" where
  "cloneValue js x =
     (case fst js x of None \<Rightarrow> x | Some data \<Rightarrow> (case snd js data of None \<Rightarrow> x | Some y \<Rightarrow> y))"

definition newMemoryRepository :: "string \<Rightarrow> MemoryRepository" where
  "newMemoryRepository p = \<lparr>mr_statePath = p, mr_revision = 0, mr_dirty = False, mr_agents = [], mr_squads = [],
     mr_plans = [], mr_projections = [], mr_keys = [], mr_events = [], mr_outbox = []\<rparr>"

definition key3 :: "string \<Rightarrow> string \<Rightarrow> int \<Rightarrow> string" where
  "key3 ws i num = ws @ '':'' @ i @ '':'' @ itoa num"

definition Profile :: "MemoryRepository \<Rightarrow> string" where
  "Profile r = (if mr_statePath r = '''' then ''memory'' else ''file-single-node'')"

section \<open>Validation of a snapshot\<close>

definition checkPlans :: "RepoEnv \<Rightarrow> (string, RequirementExecutionPlan) gomap \<Rightarrow> go_error option" where
  "checkPlans env = check_indexed 0 (\<lambda>j (i, p). first_err
     [guard (pl_ID p \<noteq> i) (Errorf ''orchestration plan key mismatch %s'' [ArgS i]),
      guard (canonicalPlanHash (re_PlanHash env) p \<noteq> Inr (pl_PlanHash p))
        (Errorf ''orchestration plan %s hash mismatch'' [ArgS i])])"

definition checkProjections :: "(string, PlanProjection) gomap \<Rightarrow> go_error option" where
  "checkProjections = check_indexed 0 (\<lambda>j (i, p). first_err
     [guard (p_PlanID p \<noteq> i) (Errorf ''orchestration projection key mismatch %s'' [ArgS i]),
      map_option (\<lambda>e. Wrapf e (''orchestration projection '' @ i)) (ValidateProjection p)])"

definition checkChains :: "RepoEnv \<Rightarrow> (string, Event list) gomap \<Rightarrow> go_error option" where
  "checkChains env = check_indexed 0 (\<lambda>j (i, es).
     if es = [] then None
     else map_option (\<lambda>e. Wrapf e (''orchestration event chain '' @ i))
            (ValidateEventChain (re_Codec env) es i (ev_WorkspaceID (hd es))))"

definition checkOutbox :: "(string, OutboxRecord) gomap \<Rightarrow> go_error option" where
  "checkOutbox = check_indexed 0 (\<lambda>j (i, x).
     guard (i = '''' \<or> ob_ID x \<noteq> i \<or> ob_PlanID x = '''' \<or> ob_WorkspaceID x = '''' \<or> ob_IdempotencyKey x = '''')
       (Errorf ''invalid orchestration outbox record %s'' [ArgS i]))"

definition validateRepositoryState :: "RepoEnv \<Rightarrow> persistedRepository \<Rightarrow> go_error option" where
  "validateRepositoryState env st =
     first_err
      [guard (sn_Version st \<noteq> 0 \<and> sn_Version st \<noteq> 1)
         (Errorf ''unsupported orchestration snapshot version %d'' [ArgI (sn_Version st)]),
       checkPlans env (sn_Plans st),
       checkProjections (sn_Projections st),
       checkChains env (sn_Events st),
       checkOutbox (sn_Outbox st)]"

section \<open>The durable snapshot\<close>

definition snapshotOf :: "int \<Rightarrow> MemoryRepository \<Rightarrow> persistedRepository" where
  "snapshotOf num r = \<lparr>sn_Version = 1, sn_Revision = num, sn_Agents = mr_agents r, sn_Squads = mr_squads r,
     sn_Plans = mr_plans r, sn_Projections = mr_projections r, sn_Keys = mr_keys r, sn_Events = mr_events r,
     sn_Outbox = mr_outbox r\<rparr>"

text \<open>
  Loading replaces the maps by those of the snapshot, then checks plans, projections and event chains. The error and
  the repository with the maps already replaced are never both used: the only caller drops the repository.
\<close>

definition withSnapshot :: "persistedRepository \<Rightarrow> MemoryRepository \<Rightarrow> MemoryRepository" where
  "withSnapshot st r = r\<lparr>mr_agents := sn_Agents st, mr_squads := sn_Squads st, mr_plans := sn_Plans st,
     mr_projections := sn_Projections st, mr_keys := sn_Keys st, mr_events := sn_Events st, mr_outbox := sn_Outbox st\<rparr>"

definition load :: "RepoEnv \<Rightarrow> go_error option \<Rightarrow> disk \<Rightarrow> MemoryRepository \<Rightarrow> go_error + MemoryRepository" where
  "load env readErr d r =
     (case readErr of
        Some e \<Rightarrow> Inl (Wrapf e ''read orchestration state'')
      | None \<Rightarrow>
          (case mget d (mr_statePath r) of
             None \<Rightarrow> Inr r
           | Some data \<Rightarrow>
               (case re_Unmarshal env data of
                  Inl e \<Rightarrow> Inl (Wrapf e ''decode orchestration state'')
                | Inr st \<Rightarrow>
                    (case first_err [checkPlans env (sn_Plans st), checkProjections (sn_Projections st),
                        checkChains env (sn_Events st)] of
                       Some e \<Rightarrow> Inl e
                     | None \<Rightarrow> Inr (withSnapshot st (r\<lparr>mr_revision := sn_Revision st\<rparr>))))))"

definition NewPersistentRepository :: "RepoEnv \<Rightarrow> go_error option \<Rightarrow> disk \<Rightarrow> string \<Rightarrow> go_error + MemoryRepository" where
  "NewPersistentRepository env readErr d path =
     (let r = newMemoryRepository (TrimSpace path) in
      if mr_statePath r = '''' then Inr r else load env readErr d r)"

definition NewSQLiteRepository ::
  "RepoEnv \<Rightarrow> go_error option \<Rightarrow> disk \<Rightarrow> string \<Rightarrow> go_error + (MemoryRepository \<times> string)" where
  "NewSQLiteRepository env readErr d path =
     (case NewPersistentRepository env readErr d path of Inl e \<Rightarrow> Inl e | Inr r \<Rightarrow> Inr (r, ''sqlite-single-node''))"

definition TrimPrefix :: "string \<Rightarrow> string \<Rightarrow> string" where
  "TrimPrefix s p = (if HasPrefix s p then drop (length p) s else s)"

definition NewPostgresRepository ::
  "RepoEnv \<Rightarrow> go_error option \<Rightarrow> disk \<Rightarrow> string \<Rightarrow> go_error + (MemoryRepository \<times> string \<times> string)" where
  "NewPostgresRepository env readErr d dsn0 =
     (let dsn = TrimSpace dsn0 in
      if dsn = '''' then Inl (Wrapf ErrUnsupportedProfile ''postgres DSN is required'')
      else if Contains dsn ''://'' \<and> \<not> HasPrefix dsn ''file://'' then
        Inl (Wrapf ErrUnsupportedProfile ''configure a PostgreSQL driver for DSN'')
      else case NewPersistentRepository env readErr d (TrimPrefix dsn ''file://'') of
        Inl e \<Rightarrow> Inl e | Inr r \<Rightarrow> Inr (r, ''postgres-contract-test'', dsn))"

definition orchestrationRevision :: "RepoEnv \<Rightarrow> io \<Rightarrow> disk \<Rightarrow> string \<Rightarrow> go_error + int" where
  "orchestrationRevision env w d path =
     (case w of
        IORead e \<Rightarrow> Inl e
      | _ \<Rightarrow>
          (case mget d path of
             None \<Rightarrow> Inr 0
           | Some data \<Rightarrow> (case re_Unmarshal env data of Inl e \<Rightarrow> Inl e | Inr st \<Rightarrow> Inr (sn_Revision st))))"

text \<open>The write of a file: a temporary file, renamed over the old one, then the directory synchronised.\<close>

definition writeFile :: "io \<Rightarrow> string \<Rightarrow> string \<Rightarrow> disk \<Rightarrow> disk \<times> go_error option" where
  "writeFile w path data d =
     (case w of
        IOWrite e \<Rightarrow> (d, Some e)
      | IOSync e \<Rightarrow> (mput path data d, Some e)
      | _ \<Rightarrow> (mput path data d, None))"

definition persistLocked :: "RepoEnv \<Rightarrow> io \<Rightarrow> repo \<Rightarrow> repo \<times> go_error option" where
  "persistLocked env w s =
     (case s of (d, r) \<Rightarrow>
        if mr_statePath r = '''' \<or> \<not> mr_dirty r then (s, None)
        else case w of
          IOLock e \<Rightarrow> (s, Some e)
        | _ \<Rightarrow>
            (case orchestrationRevision env w d (mr_statePath r) of
               Inl e \<Rightarrow> (s, Some e)
             | Inr diskRevision \<Rightarrow>
                 if diskRevision \<noteq> mr_revision r then
                   (s, Some (Errorf ''stale orchestration state: expected revision %d, found %d''
                     [ArgI (mr_revision r), ArgI diskRevision]))
                 else
                   (let num = wrap64 (mr_revision r + 1) in
                    case re_Marshal env (snapshotOf num r) of
                      Inl e \<Rightarrow> (s, Some e)
                    | Inr data \<Rightarrow>
                        (case writeFile w (mr_statePath r) data d of
                           (d', Some e) \<Rightarrow> ((d', r), Some e)
                         | (d', None) \<Rightarrow> ((d', r\<lparr>mr_revision := num, mr_dirty := False\<rparr>), None)))))"

definition Flush :: "RepoEnv \<Rightarrow> io \<Rightarrow> repo \<Rightarrow> repo \<times> go_error option" where
  "Flush env w s = persistLocked env w s"

text \<open>A mutation that was not persisted is undone in memory.\<close>

definition commit ::
  "RepoEnv \<Rightarrow> io \<Rightarrow> (MemoryRepository \<Rightarrow> MemoryRepository) \<Rightarrow> repo \<Rightarrow> repo \<times> go_error option" where
  "commit env w undo s =
     (case persistLocked env w s of
        ((d, r), Some e) \<Rightarrow> ((d, undo r), Some e)
      | (s', None) \<Rightarrow> (s', None))"

section \<open>Backup and restore\<close>

definition writeRepositorySnapshot ::
  "RepoEnv \<Rightarrow> io \<Rightarrow> string \<Rightarrow> persistedRepository \<Rightarrow> disk \<Rightarrow> disk \<times> go_error option" where
  "writeRepositorySnapshot env w path st d =
     (case w of
        IOLock e \<Rightarrow> (d, Some e)
      | _ \<Rightarrow> (case re_Marshal env st of Inl e \<Rightarrow> (d, Some e) | Inr data \<Rightarrow> writeFile w path data d))"

definition clonedSnapshot :: "RepoEnv \<Rightarrow> MemoryRepository \<Rightarrow> persistedRepository" where
  "clonedSnapshot env r = \<lparr>sn_Version = 1, sn_Revision = mr_revision r,
     sn_Agents = cloneValue (re_Agents env) (mr_agents r), sn_Squads = cloneValue (re_Squads env) (mr_squads r),
     sn_Plans = cloneValue (re_Plans env) (mr_plans r),
     sn_Projections = cloneValue (re_Projections env) (mr_projections r),
     sn_Keys = cloneValue (re_Keys env) (mr_keys r), sn_Events = cloneValue (re_Events env) (mr_events r),
     sn_Outbox = cloneValue (re_Outbox env) (mr_outbox r)\<rparr>"

definition Backup :: "RepoEnv \<Rightarrow> io \<Rightarrow> string \<Rightarrow> repo \<Rightarrow> repo \<times> go_error option" where
  "Backup env w path0 s =
     (case s of (d, r) \<Rightarrow>
        let path = TrimSpace path0 in
        if path = '''' then (s, Some (Errorf ''backup path is required'' []))
        else case writeRepositorySnapshot env w path (clonedSnapshot env r) d of (d', err) \<Rightarrow> ((d', r), err))"

text \<open>The file that is read and the snapshot that is written may fail apart from each other.\<close>

definition Restore :: "RepoEnv \<Rightarrow> go_error option \<Rightarrow> io \<Rightarrow> string \<Rightarrow> repo \<Rightarrow> repo \<times> go_error option" where
  "Restore env readErr w path0 s =
     (case s of (d, r) \<Rightarrow>
        let path = TrimSpace path0 in
        if path = '''' then (s, Some (Errorf ''restore path is required'' []))
        else case (case readErr of Some e \<Rightarrow> Inl e
            | None \<Rightarrow> (case mget d path of None \<Rightarrow> Inl (Sentinel ''file does not exist'') | Some data \<Rightarrow> Inr data)) of
          Inl e \<Rightarrow> (s, Some (Wrapf e ''read orchestration backup''))
        | Inr data \<Rightarrow>
            (case re_Unmarshal env data of
               Inl e \<Rightarrow> (s, Some (Wrapf e ''decode orchestration backup''))
             | Inr st \<Rightarrow>
                 (case validateRepositoryState env st of
                    Some e \<Rightarrow> (s, Some e)
                  | None \<Rightarrow>
                      (case commit env w (\<lambda>r'. r\<lparr>mr_dirty := False\<rparr>) (d, (withSnapshot st r)\<lparr>mr_dirty := True\<rparr>) of
                         (s', Some e) \<Rightarrow> (s', Some (Wrapf e ''persist restored orchestration state''))
                       | (s', None) \<Rightarrow> (s', None)))))"

end
