(* ===== verification/Orch_Repository.thy ===== *)
theory Orch_Repository
  imports Orch_Store
begin

text \<open>
  The repository of definitions, plans, projections and events (\<open>repository.go\<close>): every operation that reads or
  changes a \<open>MemoryRepository\<close>, apart from the outbox. Loops over a map see its entries in list order; where the Go
  program may see another order only ties between equal elements differ.
\<close>

section \<open>Agents and squads\<close>

definition zeroGraph :: WorkflowGraph where
  "zeroGraph = \<lparr>g_ID = '''', g_Version = 0, g_EntryNodeIDs = [], g_ExitNodeIDs = [], g_Nodes = [], g_Edges = [],
     g_ValidationDigest = ''''\<rparr>"

definition zeroAgent :: AgentDefinition where
  "zeroAgent = \<lparr>ag_ID = '''', ag_WorkspaceID = '''', ag_Revision = 0, ag_Name = '''', ag_OwnerID = '''', ag_Description = '''',
     ag_AvatarURL = '''', ag_Role = '''', ag_Instructions = '''', ag_ConversationStarters = [],
     ag_AccessPolicy = \<lparr>ap_Mode = '''', ap_MemberIDs = []\<rparr>, ag_SkillIDs = [], ag_DisabledRuntimeSkills = [],
     ag_MCPServerIDs = [], ag_Capabilities = [], ag_ToolPolicy = zeroToolPolicy,
     ag_MemoryPolicy = \<lparr>mp_ReadScopes = [], mp_WriteScopes = [], mp_RequireEvidence = False\<rparr>,
     ag_ExecutorBinding = \<lparr>x_ProviderID = '''', x_RuntimeID = '''', x_Model = '''', x_ThinkingLevel = '''',
       x_ServiceTier = '''', x_CustomArgs = [], x_RuntimeConfig = [], x_Environment = [], x_ProviderVersion = '''',
       x_BinaryDigest = '''', x_RequiredCaps = [], x_ConfigVersion = ''''\<rparr>,
     ag_ConcurrencyBudget = zeroBudget, ag_InputSchema = zeroSchema, ag_OutputSchema = zeroSchema, ag_Graph = zeroGraph,
     ag_Status = AgentOther '''', ag_CreatedBy = '''', ag_CreatedAt = 0, ag_UpdatedAt = 0\<rparr>"

definition zeroSquad :: SquadDefinition where
  "zeroSquad = \<lparr>sq_ID = '''', sq_WorkspaceID = '''', sq_Name = '''', sq_Description = '''', sq_Revision = 0,
     sq_PublishedVersion = 0, sq_Members = [], sq_Graph = zeroGraph,
     sq_Policy = \<lparr>sp_MaxNestingDepth = 0, sp_Budget = zeroBudget, sp_ToolPolicy = zeroToolPolicy,
       sp_HumanExitRequired = False\<rparr>, sq_Status = SquadOther ''''\<rparr>"

text \<open>
  The loops over the stored revisions of a definition are the same for agents and squads: whether the revision
  exists, the highest revision number, and the definition with the highest revision.
\<close>

definition isRevision :: "('a \<Rightarrow> string) \<Rightarrow> ('a \<Rightarrow> string) \<Rightarrow> string \<Rightarrow> string \<Rightarrow> 'a \<Rightarrow> bool" where
  "isRevision wsOf idOf ws i x \<longleftrightarrow> wsOf x = ws \<and> idOf x = i"

fun latestNumber :: "('a \<Rightarrow> int) \<Rightarrow> ('a \<Rightarrow> bool) \<Rightarrow> int \<Rightarrow> 'a list \<Rightarrow> int" where
  "latestNumber num sel acc [] = acc"
| "latestNumber num sel acc (x # xs) = latestNumber num sel (if sel x \<and> acc < num x then num x else acc) xs"

fun latestOf :: "('a \<Rightarrow> int) \<Rightarrow> ('a \<Rightarrow> bool) \<Rightarrow> 'a \<Rightarrow> 'a list \<Rightarrow> 'a" where
  "latestOf num sel out [] = out"
| "latestOf num sel out (x # xs) = latestOf num sel (if sel x \<and> num out < num x then x else out) xs"

text \<open>Putting back what a key held before a write.\<close>

definition mrestore :: "'k \<Rightarrow> 'v option \<Rightarrow> ('k, 'v) gomap \<Rightarrow> ('k, 'v) gomap" where
  "mrestore k old m = (case old of Some v \<Rightarrow> mput k v m | None \<Rightarrow> mdel k m)"

definition saveAgentChecks :: "AgentDefinition \<Rightarrow> int \<Rightarrow> MemoryRepository \<Rightarrow> go_error option" where
  "saveAgentChecks a expected r =
     (let same = isRevision ag_WorkspaceID ag_ID (ag_WorkspaceID a) (ag_ID a);
          latest = latestNumber ag_Revision same 0 (mvals (mr_agents r)) in
      first_err
       [ValidateAgent a,
        guard (list_ex (\<lambda>x. same x \<and> ag_Revision x = ag_Revision a) (mvals (mr_agents r)))
          (Errorf ''agent revision already exists'' []),
        guard (0 < expected \<and> latest \<noteq> expected)
          (Errorf ''agent revision conflict: expected %d, found %d'' [ArgI expected, ArgI latest])])"

definition SaveAgent :: "RepoEnv \<Rightarrow> io \<Rightarrow> AgentDefinition \<Rightarrow> int \<Rightarrow> repo \<Rightarrow> repo \<times> go_error option" where
  "SaveAgent env w a expected s =
     (case s of (d, r) \<Rightarrow>
        (case saveAgentChecks a expected r of
           Some e \<Rightarrow> (s, Some e)
         | None \<Rightarrow>
             (let k = key3 (ag_WorkspaceID a) (ag_ID a) (ag_Revision a) in
              commit env w (\<lambda>r'. r'\<lparr>mr_agents := mrestore k (mget (mr_agents r) k) (mr_agents r'),
                  mr_dirty := mr_dirty r, mr_revision := mr_revision r\<rparr>)
                (d, r\<lparr>mr_agents := mput k a (mr_agents r), mr_dirty := True\<rparr>))))"

definition latestAgentLocked :: "MemoryRepository \<Rightarrow> string \<Rightarrow> string \<Rightarrow> AgentDefinition \<times> bool" where
  "latestAgentLocked r ws i =
     (let out = latestOf ag_Revision (isRevision ag_WorkspaceID ag_ID ws i) zeroAgent (mvals (mr_agents r))
      in (out, ag_ID out \<noteq> ''''))"

definition agentLocked :: "MemoryRepository \<Rightarrow> string \<Rightarrow> string \<Rightarrow> int \<Rightarrow> AgentDefinition \<times> bool" where
  "agentLocked r ws i num =
     (if 0 < num then (case mget (mr_agents r) (key3 ws i num) of Some a \<Rightarrow> (a, True) | None \<Rightarrow> (zeroAgent, False))
      else latestAgentLocked r ws i)"

definition GetAgent :: "RepoEnv \<Rightarrow> string \<Rightarrow> string \<Rightarrow> int \<Rightarrow> MemoryRepository \<Rightarrow> go_error + AgentDefinition" where
  "GetAgent env ws i num r =
     (if 0 < num then
        (case mget (mr_agents r) (key3 ws i num) of
           None \<Rightarrow> Inl ErrNotFound
         | Some a \<Rightarrow> Inr (cloneValue (re_Agent env) a))
      else
        (let out = latestOf ag_Revision (isRevision ag_WorkspaceID ag_ID ws i) zeroAgent (mvals (mr_agents r)) in
         if ag_ID out = '''' then Inl ErrNotFound else Inr (cloneValue (re_Agent env) out)))"

text \<open>The newest revision of each definition that passes a filter, under the key of its workspace and ID.\<close>

definition keepLatest :: "('a \<Rightarrow> string) \<Rightarrow> ('a \<Rightarrow> int) \<Rightarrow> ('a \<Rightarrow> bool) \<Rightarrow> 'a list \<Rightarrow> (string, 'a) gomap" where
  "keepLatest key num sel xs =
     fold (\<lambda>x m. if sel x \<and> (case mget m (key x) of None \<Rightarrow> True | Some old \<Rightarrow> num old < num x) then mput (key x) x m else m) xs []"

definition byNameID :: "('a \<Rightarrow> string) \<Rightarrow> ('a \<Rightarrow> string) \<Rightarrow> 'a \<Rightarrow> 'a \<Rightarrow> bool" where
  "byNameID name ident x y = (if name x = name y then ident x < ident y else name x < name y)"

definition ListAgents :: "RepoEnv \<Rightarrow> string \<Rightarrow> AgentStatus \<Rightarrow> MemoryRepository \<Rightarrow> AgentDefinition list" where
  "ListAgents env ws status r =
     sort_stable (byNameID ag_Name ag_ID)
       (map (cloneValue (re_Agent env))
         (mvals (keepLatest (\<lambda>a. ag_WorkspaceID a @ '':'' @ ag_ID a) ag_Revision
            (\<lambda>a. (ws = '''' \<or> ag_WorkspaceID a = ws) \<and> (status = AgentOther '''' \<or> ag_Status a = status))
            (mvals (mr_agents r)))))"

definition latestSquadLocked :: "MemoryRepository \<Rightarrow> string \<Rightarrow> string \<Rightarrow> SquadDefinition \<times> bool" where
  "latestSquadLocked r ws i =
     (let out = latestOf sq_Revision (isRevision sq_WorkspaceID sq_ID ws i) zeroSquad (mvals (mr_squads r))
      in (out, sq_ID out \<noteq> ''''))"

definition squadLocked :: "MemoryRepository \<Rightarrow> string \<Rightarrow> string \<Rightarrow> int \<Rightarrow> SquadDefinition \<times> bool" where
  "squadLocked r ws i num =
     (if 0 < num then (case mget (mr_squads r) (key3 ws i num) of Some s \<Rightarrow> (s, True) | None \<Rightarrow> (zeroSquad, False))
      else latestSquadLocked r ws i)"

definition GetSquad :: "RepoEnv \<Rightarrow> string \<Rightarrow> string \<Rightarrow> int \<Rightarrow> MemoryRepository \<Rightarrow> go_error + SquadDefinition" where
  "GetSquad env ws i num r =
     (if 0 < num then
        (case mget (mr_squads r) (key3 ws i num) of
           None \<Rightarrow> Inl ErrNotFound
         | Some s \<Rightarrow> Inr (cloneValue (re_Squad env) s))
      else
        (let out = latestOf sq_Revision (isRevision sq_WorkspaceID sq_ID ws i) zeroSquad (mvals (mr_squads r)) in
         if sq_ID out = '''' then Inl ErrNotFound else Inr (cloneValue (re_Squad env) out)))"

definition ListSquads :: "RepoEnv \<Rightarrow> string \<Rightarrow> SquadStatus \<Rightarrow> MemoryRepository \<Rightarrow> SquadDefinition list" where
  "ListSquads env ws status r =
     sort_stable (byNameID sq_Name sq_ID)
       (map (cloneValue (re_Squad env))
         (mvals (keepLatest (\<lambda>s. sq_WorkspaceID s @ '':'' @ sq_ID s) sq_Revision
            (\<lambda>s. (ws = '''' \<or> sq_WorkspaceID s = ws) \<and> (status = SquadOther '''' \<or> sq_Status s = status))
            (mvals (mr_squads r)))))"

subsection \<open>References of a published squad\<close>

definition squadKey :: "SquadDefinition \<Rightarrow> string" where
  "squadKey s = key3 (sq_WorkspaceID s) (sq_ID s) (sq_Revision s)"

definition squadRefs :: "SquadDefinition \<Rightarrow> string list" where
  "squadRefs s =
     filter (\<lambda>i. i \<noteq> '''') (map sm_SquadID (sq_Members s)) @
     map r_ID (List.map_filter n_SquadRef (g_Nodes (sq_Graph s)))"

lemma check_indexed_cong [fundef_cong]:
  assumes "xs = ys" and "i = j" and "\<And>k x. x \<in> set ys \<Longrightarrow> f k x = g k x"
  shows "check_indexed i f xs = check_indexed j g ys"
  unfolding assms(1,2) using assms(3) by (induction ys arbitrary: j) (auto split: option.splits)

lemma latestOf_mem: "latestOf num sel out xs = out \<or> (latestOf num sel out xs \<in> set xs \<and> sel (latestOf num sel out xs))"
proof (induction xs arbitrary: out)
  case Nil
  then show ?case by simp
next
  case (Cons x xs)
  show ?case
  proof (cases "sel x \<and> num out < num x")
    case True
    then show ?thesis using Cons.IH [of x] by (cases "latestOf num sel x xs = x") auto
  next
    case False
    then show ?thesis using Cons.IH [of out] by auto
  qed
qed

lemma latestSquadLocked_stored:
  "latestSquadLocked r ws i = (s, True) \<Longrightarrow> s \<in> set (mvals (mr_squads r)) \<and> sq_WorkspaceID s = ws \<and> sq_ID s = i"
  using latestOf_mem [of sq_Revision "isRevision sq_WorkspaceID sq_ID ws i" zeroSquad "mvals (mr_squads r)"]
  by (auto simp: latestSquadLocked_def Let_def isRevision_def zeroSquad_def)

text \<open>
  The walk over the nested squads. The keys on the path are an argument; they are removed again when a call returns,
  so a call sees those of its callers.
\<close>

function validateSquadGraphRefsLocked ::
  "MemoryRepository \<Rightarrow> SquadDefinition \<Rightarrow> int \<Rightarrow> string list \<Rightarrow> go_error option" where
  "validateSquadGraphRefsLocked r s depth visiting =
     (let lim = sp_MaxNestingDepth (sq_Policy s) in
      if 0 < lim \<and> lim < depth then Some (Errorf ''squad %s nesting depth exceeded'' [ArgS (sq_ID s)])
      else if squadKey s \<in> set visiting then Some (Errorf ''squad %s nested cycle detected'' [ArgS (sq_ID s)])
      else check_indexed 0
        (\<lambda>j nestedID.
           case latestSquadLocked r (sq_WorkspaceID s) nestedID of (nested, ok) \<Rightarrow>
             if \<not> ok \<or> sq_Status nested \<noteq> SquadPublished then
               Some (Errorf ''squad %s nested squad %s unavailable'' [ArgS (sq_ID s), ArgS nestedID])
             else if 0 < lim \<and> lim < depth + 1 then
               Some (Errorf ''squad %s nested squad %s exceeds max_nesting_depth'' [ArgS (sq_ID s), ArgS nestedID])
             else validateSquadGraphRefsLocked r nested (depth + 1) (squadKey s # visiting))
        (squadRefs s))"
  by pat_completeness auto
termination
proof (relation "measure (\<lambda>(r, s, depth, visiting).
    card (insert (squadKey s) (squadKey ` set (mvals (mr_squads r))) - set visiting))", goal_cases)
  case 1
  then show ?case by simp
next
  case (2 r s depth visiting lim j nestedID nested ok)
  let ?K = "squadKey ` set (mvals (mr_squads r))"
  have "latestSquadLocked r (sq_WorkspaceID s) nestedID = (nested, True)" using 2 by auto
  then have "squadKey nested \<in> ?K" using latestSquadLocked_stored by blast
  then have "insert (squadKey nested) ?K = ?K" by blast
  moreover have "?K - set (squadKey s # visiting) \<subset> insert (squadKey s) ?K - set visiting" using 2(3) by auto
  ultimately show ?case by (simp add: psubset_card_mono)
qed

declare validateSquadGraphRefsLocked.simps [simp del]

text \<open>The checks of the members and of the graph references of a squad that is to be published.\<close>

definition capabilityMissing :: "AgentDefinition \<Rightarrow> SquadMember \<Rightarrow> CapabilityConstraint option" where
  "capabilityMissing agent m =
     find (\<lambda>c. cc_Required c \<and> \<not> list_ex (\<lambda>x. cap_Name x = cc_Name c) (ag_Capabilities agent)) (sm_CapabilityConstraints m)"

definition checkMemberAgent :: "MemoryRepository \<Rightarrow> SquadDefinition \<Rightarrow> nat \<Rightarrow> SquadMember \<Rightarrow> go_error option" where
  "checkMemberAgent r s i m =
     (if sm_AgentID m = '''' then None
      else case latestAgentLocked r (sq_WorkspaceID s) (sm_AgentID m) of (agent, ok) \<Rightarrow>
        first_err
         [guard (\<not> ok) (Errorf ''members[%d].agent_id.unavailable'' [ArgI (int i)]),
          guard (ag_Status agent \<noteq> AgentActive) (Errorf ''members[%d].agent_id.inactive'' [ArgI (int i)]),
          map_option (\<lambda>c. Errorf ''members[%d].capability_constraints.%s.unavailable'' [ArgI (int i), ArgS (cc_Name c)])
            (capabilityMissing agent m)])"

definition checkMemberSquad :: "MemoryRepository \<Rightarrow> SquadDefinition \<Rightarrow> nat \<Rightarrow> SquadMember \<Rightarrow> go_error option" where
  "checkMemberSquad r s i m =
     (if sm_SquadID m = '''' then None
      else let lim = sp_MaxNestingDepth (sq_Policy s) in
        case latestSquadLocked r (sq_WorkspaceID s) (sm_SquadID m) of (nested, ok) \<Rightarrow>
        first_err
         [guard (sm_SquadID m = sq_ID s) (Errorf ''members[%d].squad_id.self_reference'' [ArgI (int i)]),
          guard (\<not> ok \<or> sq_Status nested \<noteq> SquadPublished) (Errorf ''members[%d].squad_id.unavailable'' [ArgI (int i)]),
          guard (0 < lim \<and> lim \<le> sp_MaxNestingDepth (sq_Policy nested))
            (Errorf ''members[%d].squad_id.nesting_depth_exceeded'' [ArgI (int i)])])"

definition checkGraphRefs :: "MemoryRepository \<Rightarrow> SquadDefinition \<Rightarrow> nat \<Rightarrow> WorkflowNode \<Rightarrow> go_error option" where
  "checkGraphRefs r s i n =
     first_err
      [(case n_AgentRef n of None \<Rightarrow> None
        | Some ref \<Rightarrow> (case agentLocked r (sq_WorkspaceID s) (r_ID ref) (r_Revision ref) of (agent, ok) \<Rightarrow>
            guard (\<not> ok \<or> ag_Status agent \<noteq> AgentActive) (Errorf ''graph.nodes[%d].agent_ref.unavailable'' [ArgI (int i)]))),
       (case n_SquadRef n of None \<Rightarrow> None
        | Some ref \<Rightarrow> (case squadLocked r (sq_WorkspaceID s) (r_ID ref) (r_Revision ref) of (nested, ok) \<Rightarrow>
            guard (\<not> ok \<or> sq_Status nested \<noteq> SquadPublished)
              (Errorf ''graph.nodes[%d].squad_ref.unavailable'' [ArgI (int i)])))]"

definition validatePublishedSquadLocked :: "MemoryRepository \<Rightarrow> SquadDefinition \<Rightarrow> go_error option" where
  "validatePublishedSquadLocked r s =
     first_err
      [guard (countSquadLeaders (sq_Members s) \<noteq> 1) (Errorf ''published squad requires exactly one leader agent'' []),
       validateSquadGraphRefsLocked r s 0 [],
       check_indexed 0 (\<lambda>i m. first_err [checkMemberAgent r s i m, checkMemberSquad r s i m]) (sq_Members s),
       check_indexed 0 (checkGraphRefs r s) (g_Nodes (sq_Graph s))]"

definition saveSquadChecks :: "SquadDefinition \<Rightarrow> int \<Rightarrow> MemoryRepository \<Rightarrow> go_error option" where
  "saveSquadChecks s expected r =
     (let same = isRevision sq_WorkspaceID sq_ID (sq_WorkspaceID s) (sq_ID s);
          latest = latestNumber sq_Revision same 0 (mvals (mr_squads r)) in
      first_err
       [(if sq_Status s = SquadDraft then ValidateDraft s else ValidateSquad s),
        (if sq_Status s = SquadPublished then validatePublishedSquadLocked r s else None),
        guard (list_ex (\<lambda>x. same x \<and> sq_Revision x = sq_Revision s) (mvals (mr_squads r)))
          (Errorf ''squad revision already exists'' []),
        guard (0 < expected \<and> latest \<noteq> expected)
          (Errorf ''squad revision conflict: expected %d, found %d'' [ArgI expected, ArgI latest])])"

definition SaveSquad :: "RepoEnv \<Rightarrow> io \<Rightarrow> SquadDefinition \<Rightarrow> int \<Rightarrow> repo \<Rightarrow> repo \<times> go_error option" where
  "SaveSquad env w sq expected s =
     (case s of (d, r) \<Rightarrow>
        (case saveSquadChecks sq expected r of
           Some e \<Rightarrow> (s, Some e)
         | None \<Rightarrow>
             (let k = key3 (sq_WorkspaceID sq) (sq_ID sq) (sq_Revision sq) in
              commit env w (\<lambda>r'. r'\<lparr>mr_squads := mrestore k (mget (mr_squads r) k) (mr_squads r'),
                  mr_dirty := mr_dirty r, mr_revision := mr_revision r\<rparr>)
                (d, r\<lparr>mr_squads := mput k sq (mr_squads r), mr_dirty := True\<rparr>))))"

section \<open>Plans\<close>

definition planChecks :: "RepoEnv \<Rightarrow> RequirementExecutionPlan \<Rightarrow> go_error + PlanProjection" where
  "planChecks env p =
     (case first_err
        [guard (pl_ID p = '''' \<or> pl_WorkspaceID p = '''' \<or> pl_RequirementID p = '''' \<or> pl_PlanHash p = '''')
           (Errorf ''plan id, workspace, requirement and hash are required'' []),
         guard (pl_Status p \<notin> set [PlanReady, PlanRunning, PlanWaiting, PlanTerminal])
           (Errorf ''plan must be frozen before persistence'' []),
         guard (canonicalPlanHash (re_PlanHash env) p \<noteq> Inr (pl_PlanHash p))
           (Errorf ''plan hash does not match frozen snapshot'' [])] of
        Some e \<Rightarrow> Inl e
      | None \<Rightarrow> NewProjection p)"

definition planKey :: "RequirementExecutionPlan \<Rightarrow> string" where
  "planKey p = pl_WorkspaceID p @ '':'' @ pl_IdempotencyKey p"

definition withPlanKey :: "RequirementExecutionPlan \<Rightarrow> MemoryRepository \<Rightarrow> MemoryRepository" where
  "withPlanKey p r = (if pl_IdempotencyKey p = '''' then r else r\<lparr>mr_keys := mput (planKey p) (pl_PlanHash p) (mr_keys r)\<rparr>)"

definition restorePlanKey :: "RequirementExecutionPlan \<Rightarrow> string option \<Rightarrow> MemoryRepository \<Rightarrow> MemoryRepository" where
  "restorePlanKey p old r = (if pl_IdempotencyKey p = '''' then r else r\<lparr>mr_keys := mrestore (planKey p) old (mr_keys r)\<rparr>)"

definition withPlan :: "RequirementExecutionPlan \<Rightarrow> PlanProjection \<Rightarrow> MemoryRepository \<Rightarrow> MemoryRepository" where
  "withPlan p projection r = r\<lparr>mr_plans := mput (pl_ID p) p (mr_plans r),
     mr_projections := mput (pl_ID p) projection (mr_projections r)\<rparr>"

definition CreatePlan :: "RepoEnv \<Rightarrow> io \<Rightarrow> RequirementExecutionPlan \<Rightarrow> repo \<Rightarrow> repo \<times> go_error option" where
  "CreatePlan env w p s =
     (case planChecks env p of
        Inl e \<Rightarrow> (s, Some e)
      | Inr projection \<Rightarrow>
          (case s of (d, r) \<Rightarrow>
             let existing = mget0 '''' (mr_keys r) (planKey p); old = mget (mr_keys r) (planKey p); r1 = withPlanKey p r in
             if pl_IdempotencyKey p \<noteq> '''' \<and> existing \<noteq> '''' then
               (s, if existing \<noteq> pl_PlanHash p then Some ErrIdempotencyConflict else None)
             else if mget (mr_plans r1) (pl_ID p) \<noteq> None then
               ((d, restorePlanKey p old r1), Some (Errorf ''plan already exists'' []))
             else
               commit env w (\<lambda>r'. restorePlanKey p old (r'\<lparr>mr_plans := mdel (pl_ID p) (mr_plans r'),
                   mr_projections := mrestore (pl_ID p) (mget (mr_projections r1) (pl_ID p)) (mr_projections r'),
                   mr_dirty := mr_dirty r, mr_revision := mr_revision r\<rparr>))
                 (d, (withPlan p projection r1)\<lparr>mr_dirty := True\<rparr>)))"

definition validatePlanReference :: "MemoryRepository \<Rightarrow> RequirementExecutionPlan \<Rightarrow> nat \<Rightarrow> WorkflowNode \<Rightarrow> go_error option" where
  "validatePlanReference r p i n =
     (case n_Kind n of
        NodeAgent \<Rightarrow>
          (case n_AgentRef n of None \<Rightarrow> None
           | Some ref \<Rightarrow>
               (case mget (mr_agents r) (key3 (pl_WorkspaceID p) (r_ID ref) (r_Revision ref)) of
                  None \<Rightarrow> Some (Errorf ''graph.nodes[%d].agent_ref.unavailable'' [ArgI (int i)])
                | Some agent \<Rightarrow> guard (ag_Status agent \<noteq> AgentActive)
                    (Errorf ''graph.nodes[%d].agent_ref.inactive'' [ArgI (int i)])))
      | NodeSquad \<Rightarrow>
          (case n_SquadRef n of None \<Rightarrow> None
           | Some ref \<Rightarrow>
               (case squadLocked r (pl_WorkspaceID p) (r_ID ref) (r_Revision ref) of (squad, found) \<Rightarrow>
                  first_err
                   [guard (\<not> found \<or> sq_Status squad \<noteq> SquadPublished)
                      (Errorf ''graph.nodes[%d].squad_ref.unavailable'' [ArgI (int i)]),
                    guard (0 < r_Version ref \<and> sq_PublishedVersion squad \<noteq> r_Version ref)
                      (Errorf ''graph.nodes[%d].squad_ref.version_mismatch'' [ArgI (int i)])]))
      | _ \<Rightarrow> None)"

definition validatePlanReferencesLocked :: "MemoryRepository \<Rightarrow> RequirementExecutionPlan \<Rightarrow> go_error option" where
  "validatePlanReferencesLocked r p = check_indexed 0 (validatePlanReference r p) (g_Nodes (pl_GraphSnapshot p))"

definition GetPlan :: "RepoEnv \<Rightarrow> string \<Rightarrow> string \<Rightarrow> MemoryRepository \<Rightarrow> go_error + RequirementExecutionPlan" where
  "GetPlan env ws i r =
     (case mget (mr_plans r) i of
        None \<Rightarrow> Inl ErrNotFound
      | Some p \<Rightarrow> if pl_WorkspaceID p \<noteq> ws then Inl ErrNotFound else Inr (cloneValue (re_Plan env) p))"

definition GetPlanByIdempotency ::
  "RepoEnv \<Rightarrow> string \<Rightarrow> string \<Rightarrow> MemoryRepository \<Rightarrow> go_error + RequirementExecutionPlan" where
  "GetPlanByIdempotency env ws0 key0 r =
     (let ws = TrimSpace ws0; key = TrimSpace key0; hash = mget0 '''' (mr_keys r) (ws @ '':'' @ key) in
      if ws = '''' \<or> key = '''' \<or> hash = '''' then Inl ErrNotFound
      else case find (\<lambda>p. pl_WorkspaceID p = ws \<and> pl_IdempotencyKey p = key \<and> pl_PlanHash p = hash) (mvals (mr_plans r)) of
        Some p \<Rightarrow> Inr (cloneValue (re_Plan env) p)
      | None \<Rightarrow> Inl ErrNotFound)"

definition ListPlans :: "RepoEnv \<Rightarrow> string \<Rightarrow> MemoryRepository \<Rightarrow> RequirementExecutionPlan list" where
  "ListPlans env ws r =
     sort_stable (\<lambda>p q. if pl_CreatedAt p = pl_CreatedAt q then pl_ID p < pl_ID q else pl_CreatedAt p < pl_CreatedAt q)
       (map (cloneValue (re_Plan env)) (filter (\<lambda>p. ws = '''' \<or> pl_WorkspaceID p = ws) (mvals (mr_plans r))))"

section \<open>Projections and events\<close>

text \<open>\<open>cloneProjection\<close> copies the maps and slices of a projection; its value is the projection.\<close>

definition cloneProjection :: "PlanProjection \<Rightarrow> PlanProjection" where
  "cloneProjection p = p"

definition detachedProjection :: "RepoEnv \<Rightarrow> PlanProjection \<Rightarrow> PlanProjection" where
  "detachedProjection env p = p\<lparr>
     p_Nodes := map (\<lambda>(k, v). (k, cloneValue (re_Node env) v)) (p_Nodes p),
     p_Attempts := map (\<lambda>(k, v). (k, cloneValue (re_Attempt env) v)) (p_Attempts p),
     p_Decisions := cloneValue (re_Decisions env) (p_Decisions p)\<rparr>"

definition saveProjectionChecks :: "PlanProjection \<Rightarrow> MemoryRepository \<Rightarrow> go_error option" where
  "saveProjectionChecks p r =
     first_err
      [guard (p_PlanID p = '''') (Errorf ''plan id is required'' []),
       ValidateProjection p,
       (case mget (mr_plans r) (p_PlanID p) of
          None \<Rightarrow> Some ErrNotFound
        | Some plan \<Rightarrow> guard (p_Revision p \<noteq> pl_Revision plan)
            (Errorf ''projection revision %d does not match plan revision %d'' [ArgI (p_Revision p), ArgI (pl_Revision plan)])),
       guard (opt_any (\<lambda>old. p_Revision p < p_Revision old) (mget (mr_projections r) (p_PlanID p)))
         (Errorf ''projection revision regressed'' [])]"

definition SaveProjection :: "RepoEnv \<Rightarrow> io \<Rightarrow> PlanProjection \<Rightarrow> repo \<Rightarrow> repo \<times> go_error option" where
  "SaveProjection env w p s =
     (case s of (d, r) \<Rightarrow>
        (case saveProjectionChecks p r of
           Some e \<Rightarrow> (s, Some e)
         | None \<Rightarrow>
             commit env w (\<lambda>r'. r'\<lparr>mr_projections := mrestore (p_PlanID p) (mget (mr_projections r) (p_PlanID p)) (mr_projections r'),
                 mr_dirty := mr_dirty r, mr_revision := mr_revision r\<rparr>)
               (d, r\<lparr>mr_projections := mput (p_PlanID p) (detachedProjection env p) (mr_projections r), mr_dirty := True\<rparr>)))"

definition GetProjection :: "string \<Rightarrow> MemoryRepository \<Rightarrow> go_error + PlanProjection" where
  "GetProjection i r = (case mget (mr_projections r) i of None \<Rightarrow> Inl ErrNotFound | Some p \<Rightarrow> Inr (cloneProjection p))"

text \<open>An event without a position of its own is placed at the end of the chain and sealed again.\<close>

definition placeEvent :: "Codec \<Rightarrow> Event list \<Rightarrow> Event \<Rightarrow> Event" where
  "placeEvent cd events e =
     (let expected = int (length events) + 1 in
      if ev_Sequence e = 0 \<or> ev_Sequence e = 1 \<and> 1 < expected \<and> ev_PreviousHash e = '''' then
        (let e1 = e\<lparr>ev_Sequence := expected,
               ev_PreviousHash := (if events = [] then ev_PreviousHash e else ev_EnvelopeHash (last events))\<rparr>
         in e1\<lparr>ev_EnvelopeHash := eventDigest cd e1\<rparr>)
      else e)"

definition appendChecks :: "Codec \<Rightarrow> Event list \<Rightarrow> Event \<Rightarrow> go_error option" where
  "appendChecks cd events e =
     first_err
      [guard (ev_Sequence e \<noteq> int (length events) + 1) (Errorf ''event sequence conflict: got %d'' [ArgI (ev_Sequence e)]),
       guard (events \<noteq> [] \<and> ev_PreviousHash e \<noteq> ev_EnvelopeHash (last events)) (Errorf ''event previous hash conflict'' []),
       ValidateEventChain cd (events @ [e]) (ev_PlanID e) (ev_WorkspaceID e)]"

definition appendEventLocked :: "RepoEnv \<Rightarrow> Event \<Rightarrow> MemoryRepository \<Rightarrow> MemoryRepository \<times> go_error option" where
  "appendEventLocked env e r =
     (case mget (mr_plans r) (ev_PlanID e) of
        None \<Rightarrow> (r, Some ErrNotFound)
      | Some plan \<Rightarrow>
          if ev_WorkspaceID e \<noteq> pl_WorkspaceID plan then (r, Some (Errorf ''event workspace does not match plan workspace'' []))
          else let events = mget0 [] (mr_events r) (ev_PlanID e) in
            case find (\<lambda>old. ev_IdempotencyKey e \<noteq> '''' \<and> ev_IdempotencyKey old = ev_IdempotencyKey e) events of
              Some old \<Rightarrow> (r, if ev_PayloadHash old = ev_PayloadHash e then None else Some ErrIdempotencyConflict)
            | None \<Rightarrow>
                (let e1 = placeEvent (re_Codec env) events e in
                 case appendChecks (re_Codec env) events e1 of
                   Some err \<Rightarrow> (r, Some err)
                 | None \<Rightarrow> (r\<lparr>mr_events := mput (ev_PlanID e) (events @ [e1]) (mr_events r), mr_dirty := True\<rparr>, None)))"

text \<open>The rollback of \<open>AppendEvent\<close> cuts the chain to its old length and drops an empty one.\<close>

definition truncateChain :: "string \<Rightarrow> nat \<Rightarrow> MemoryRepository \<Rightarrow> MemoryRepository" where
  "truncateChain pid n r =
     (if n < length (mget0 [] (mr_events r) pid) then
        r\<lparr>mr_events := (if n = 0 then mdel pid (mr_events r)
          else mput pid (take n (mget0 [] (mr_events r) pid)) (mr_events r))\<rparr>
      else r)"

definition AppendEvent :: "RepoEnv \<Rightarrow> io \<Rightarrow> Event \<Rightarrow> repo \<Rightarrow> repo \<times> go_error option" where
  "AppendEvent env w e s =
     (case s of (d, r) \<Rightarrow>
        let beforeLen = length (mget0 [] (mr_events r) (ev_PlanID e)) in
        (case appendEventLocked env e r of
           (r1, Some err) \<Rightarrow> ((d, r1), Some err)
         | (r1, None) \<Rightarrow>
             commit env w (\<lambda>r'. (truncateChain (ev_PlanID e) beforeLen r')\<lparr>mr_dirty := mr_dirty r, mr_revision := mr_revision r\<rparr>)
               (d, r1)))"

definition planEvent :: "RepoEnv \<Rightarrow> RequirementExecutionPlan \<Rightarrow> Event \<Rightarrow> Event" where
  "planEvent env p e =
     (if blank (ev_IdempotencyKey e) then
        (let e1 = e\<lparr>ev_IdempotencyKey := pl_ID p @ '':'' @ ev_Type e\<rparr>
         in e1\<lparr>ev_EnvelopeHash := eventDigest (re_Codec env) e1\<rparr>)
      else e)"

definition retryPlanEvent :: "RepoEnv \<Rightarrow> io \<Rightarrow> RequirementExecutionPlan \<Rightarrow> Event \<Rightarrow> repo \<Rightarrow> repo \<times> go_error option" where
  "retryPlanEvent env w p e s =
     (case s of (d, r) \<Rightarrow>
        (case appendEventLocked env e r of
           (r1, Some err) \<Rightarrow> ((d, r1), Some err)
         | (r1, None) \<Rightarrow>
             commit env w (\<lambda>r'. r'\<lparr>mr_events := mput (pl_ID p) (mget0 [] (mr_events r) (pl_ID p)) (mr_events r'),
                 mr_dirty := mr_dirty r, mr_revision := mr_revision r\<rparr>) (d, r1)))"

definition dropPlan :: "RequirementExecutionPlan \<Rightarrow> MemoryRepository \<Rightarrow> MemoryRepository \<Rightarrow> MemoryRepository" where
  "dropPlan p before r = r\<lparr>mr_plans := mdel (pl_ID p) (mr_plans r), mr_projections := mdel (pl_ID p) (mr_projections r),
     mr_keys := (if pl_IdempotencyKey p = '''' then mr_keys r else mdel (planKey p) (mr_keys r)),
     mr_dirty := mr_dirty before, mr_revision := mr_revision before\<rparr>"

definition CreatePlanWithEvent ::
  "RepoEnv \<Rightarrow> io \<Rightarrow> RequirementExecutionPlan \<Rightarrow> Event \<Rightarrow> repo \<Rightarrow> repo \<times> go_error option" where
  "CreatePlanWithEvent env w p e0 s =
     (case planChecks env p of
        Inl err \<Rightarrow> (s, Some err)
      | Inr projection \<Rightarrow>
          if ev_PlanID e0 \<noteq> pl_ID p \<or> ev_WorkspaceID e0 \<noteq> pl_WorkspaceID p \<or> ev_Type e0 = '''' then
            (s, Some (Errorf ''plan event scope does not match plan'' []))
          else (case s of (d, r) \<Rightarrow>
            let e = planEvent env p e0 in
            case mget (mr_plans r) (pl_ID p) of
              Some existing \<Rightarrow>
                if pl_PlanHash existing \<noteq> pl_PlanHash p then (s, Some ErrIdempotencyConflict)
                else retryPlanEvent env w p e s
            | None \<Rightarrow>
                if pl_IdempotencyKey p \<noteq> '''' \<and> mget0 '''' (mr_keys r) (planKey p) \<notin> set ['''', pl_PlanHash p] then
                  (s, Some ErrIdempotencyConflict)
                else
                  (case appendEventLocked env e (withPlan p projection (withPlanKey p r)) of
                     (r1, Some err) \<Rightarrow> ((d, dropPlan p r r1), Some err)
                   | (r1, None) \<Rightarrow>
                       commit env w (\<lambda>r'. dropPlan p r (r'\<lparr>mr_events := mdel (pl_ID p) (mr_events r')\<rparr>))
                         (d, r1\<lparr>mr_dirty := True\<rparr>))))"

definition commitChecks :: "Event \<Rightarrow> PlanProjection \<Rightarrow> MemoryRepository \<Rightarrow> go_error option" where
  "commitChecks e p r =
     first_err
      [guard (p_PlanID p = '''' \<or> ev_PlanID e \<noteq> p_PlanID p) (Errorf ''event and projection plan scope mismatch'' []),
       ValidateProjection p,
       (case mget (mr_plans r) (p_PlanID p) of
          None \<Rightarrow> Some ErrNotFound
        | Some plan \<Rightarrow> guard (p_Revision p \<noteq> pl_Revision plan \<or> ev_WorkspaceID e \<noteq> pl_WorkspaceID plan)
            (Errorf ''event or projection does not match frozen plan scope'' []))]"

definition CommitEventProjection :: "RepoEnv \<Rightarrow> io \<Rightarrow> Event \<Rightarrow> PlanProjection \<Rightarrow> repo \<Rightarrow> repo \<times> go_error option" where
  "CommitEventProjection env w e p s =
     (case s of (d, r) \<Rightarrow>
        (case commitChecks e p r of
           Some err \<Rightarrow> (s, Some err)
         | None \<Rightarrow>
             (case appendEventLocked env e r of
                (r1, Some err) \<Rightarrow> ((d, r1), Some err)
              | (r1, None) \<Rightarrow>
                  commit env w (\<lambda>r'. r'\<lparr>mr_events := mput (ev_PlanID e) (mget0 [] (mr_events r) (ev_PlanID e)) (mr_events r'),
                      mr_projections := mrestore (p_PlanID p) (mget (mr_projections r) (p_PlanID p)) (mr_projections r'),
                      mr_dirty := mr_dirty r, mr_revision := mr_revision r\<rparr>)
                    (d, r1\<lparr>mr_projections := mput (p_PlanID p) (cloneProjection p) (mr_projections r1), mr_dirty := True\<rparr>))))"

definition ListEvents :: "RepoEnv \<Rightarrow> string \<Rightarrow> int \<Rightarrow> MemoryRepository \<Rightarrow> Event list" where
  "ListEvents env planID after r =
     map (cloneValue (re_Event env)) (filter (\<lambda>e. after < ev_Sequence e) (mget0 [] (mr_events r) planID))"

end
