(* ===== verification/Orch_Outbox.thy ===== *)
theory Orch_Outbox
  imports Orch_Repository
begin

text \<open>
  The outbox of the repository (\<open>repository.go\<close>): intents for side effects, inserted once per idempotency key,
  claimed under a lease by one worker at a time, and acknowledged or failed by the holder of the lease. The readings
  of the clock are arguments.
\<close>

section \<open>Operations\<close>

definition DefaultOutboxMaxAttempts :: int where
  "DefaultOutboxMaxAttempts = 8"

definition zeroRecord :: OutboxRecord where
  "zeroRecord = \<lparr>ob_ID = '''', ob_PlanID = '''', ob_WorkspaceID = '''', ob_Kind = '''', ob_IdempotencyKey = '''',
     ob_TraceParent = '''', ob_TraceState = '''', ob_Payload = [], ob_Status = '''', ob_Owner = '''', ob_LeaseExpiresAt = 0,
     ob_Attempts = 0, ob_MaxAttempts = 0, ob_LastError = '''', ob_CreatedAt = 0, ob_UpdatedAt = 0\<rparr>"

definition jsonEqual :: "RepoEnv \<Rightarrow> fields \<Rightarrow> fields \<Rightarrow> bool" where
  "jsonEqual env a b \<longleftrightarrow> (case re_Payload env a of None \<Rightarrow> False | Some x \<Rightarrow> re_Payload env b = Some x)"

definition trimmedRecord :: "OutboxRecord \<Rightarrow> OutboxRecord" where
  "trimmedRecord x = x\<lparr>ob_PlanID := TrimSpace (ob_PlanID x), ob_WorkspaceID := TrimSpace (ob_WorkspaceID x),
     ob_IdempotencyKey := TrimSpace (ob_IdempotencyKey x)\<rparr>"

definition recordDefaults :: "int \<Rightarrow> int \<Rightarrow> OutboxRecord \<Rightarrow> OutboxRecord" where
  "recordDefaults nano now x =
     (let created = (if IsZero (ob_CreatedAt x) then now else ob_CreatedAt x) in
      x\<lparr>ob_ID := (if ob_ID x = '''' then ''outbox-'' @ itoa nano else ob_ID x), ob_CreatedAt := created, ob_UpdatedAt := created,
        ob_Status := (if ob_Status x = '''' then ''pending'' else ob_Status x),
        ob_MaxAttempts := (if ob_MaxAttempts x \<le> 0 then DefaultOutboxMaxAttempts else ob_MaxAttempts x)\<rparr>)"

definition EnqueueOutbox ::
  "RepoEnv \<Rightarrow> io \<Rightarrow> int \<Rightarrow> int \<Rightarrow> OutboxRecord \<Rightarrow> repo \<Rightarrow> repo \<times> (go_error + OutboxRecord \<times> bool)" where
  "EnqueueOutbox env w nano now rec0 s =
     (case s of (d, r) \<Rightarrow>
        let rec1 = trimmedRecord rec0 in
        if ob_PlanID rec1 = '''' \<or> ob_WorkspaceID rec1 = '''' \<or> ob_IdempotencyKey rec1 = '''' \<or> blank (ob_Kind rec1) then
          (s, Inl (Errorf ''outbox plan, workspace, kind and idempotency key are required'' []))
        else case find (\<lambda>x. ob_PlanID x = ob_PlanID rec1 \<and> ob_IdempotencyKey x = ob_IdempotencyKey rec1) (mvals (mr_outbox r)) of
          Some existing \<Rightarrow>
            if \<not> jsonEqual env (ob_Payload existing) (ob_Payload rec1) \<or> ob_Kind existing \<noteq> ob_Kind rec1 then
              (s, Inl ErrOutboxConflict)
            else (s, Inr (cloneValue (re_Record env) existing, False))
        | None \<Rightarrow>
            (let x = recordDefaults nano now rec1 in
             if ob_MaxAttempts x < 1 then (s, Inl (Errorf ''outbox max_attempts must be positive'' []))
             else case commit env w (\<lambda>r'. r'\<lparr>mr_outbox := mdel (ob_ID x) (mr_outbox r'), mr_dirty := mr_dirty r,
                   mr_revision := mr_revision r\<rparr>)
                 (d, r\<lparr>mr_outbox := mput (ob_ID x) (cloneValue (re_Record env) x) (mr_outbox r), mr_dirty := True\<rparr>) of
               (s', Some e) \<Rightarrow> (s', Inl e)
             | (s', None) \<Rightarrow> (s', Inr (cloneValue (re_Record env) x, True))))"

definition leasedAt :: "int \<Rightarrow> OutboxRecord \<Rightarrow> bool" where
  "leasedAt now x \<longleftrightarrow> ob_Status x = ''leased'' \<and> now < ob_LeaseExpiresAt x"

definition settled :: "OutboxRecord \<Rightarrow> bool" where
  "settled x \<longleftrightarrow> ob_Status x = ''acked'' \<or> ob_Status x = ''failed''"

definition claimed :: "string \<Rightarrow> int \<Rightarrow> int \<Rightarrow> OutboxRecord \<Rightarrow> OutboxRecord" where
  "claimed owner ttl now x = x\<lparr>ob_Status := ''leased'', ob_Owner := owner, ob_LeaseExpiresAt := now + ttl,
     ob_UpdatedAt := now, ob_Attempts := wrap64 (ob_Attempts x + 1)\<rparr>"

text \<open>A record is written; when the snapshot is not, its old value is put back.\<close>

definition putRecord :: "RepoEnv \<Rightarrow> io \<Rightarrow> OutboxRecord \<Rightarrow> OutboxRecord \<Rightarrow> repo \<Rightarrow> repo \<times> go_error option" where
  "putRecord env w x old s =
     (case s of (d, r) \<Rightarrow>
        commit env w (\<lambda>r'. r'\<lparr>mr_outbox := mput (ob_ID x) old (mr_outbox r')\<rparr>)
          (d, r\<lparr>mr_outbox := mput (ob_ID x) x (mr_outbox r), mr_dirty := True\<rparr>))"

definition claimOutboxLocked ::
  "RepoEnv \<Rightarrow> io \<Rightarrow> string \<Rightarrow> string \<Rightarrow> int \<Rightarrow> int \<Rightarrow> repo \<Rightarrow> repo \<times> (go_error + OutboxRecord)" where
  "claimOutboxLocked env w i owner ttl now s =
     (case mget (mr_outbox (snd s)) i of
        None \<Rightarrow> (s, Inl ErrNotFound)
      | Some x \<Rightarrow>
          if settled x then (s, Inl ErrNotFound)
          else if leasedAt now x then (s, Inl ErrLeaseLost)
          else case putRecord env w (claimed owner ttl now x) (mget0 zeroRecord (mr_outbox (snd s)) (ob_ID x)) s of
            (s', Some e) \<Rightarrow> (s', Inl e)
          | (s', None) \<Rightarrow> (s', Inr (cloneValue (re_Record env) (claimed owner ttl now x))))"

definition claimable :: "string \<Rightarrow> int \<Rightarrow> OutboxRecord \<Rightarrow> bool" where
  "claimable planID now x \<longleftrightarrow>
     (planID = '''' \<or> ob_PlanID x = planID) \<and>
     \<not> (settled x \<or> 0 < ob_MaxAttempts x \<and> ob_MaxAttempts x \<le> ob_Attempts x) \<and> \<not> leasedAt now x"

definition selectClaim :: "string \<Rightarrow> int \<Rightarrow> OutboxRecord list \<Rightarrow> OutboxRecord" where
  "selectClaim planID now xs =
     fold (\<lambda>x selected. if claimable planID now x \<and>
         (ob_ID selected = '''' \<or> ob_CreatedAt x < ob_CreatedAt selected \<or> ob_ID x < ob_ID selected)
       then x else selected) xs zeroRecord"

definition ClaimOutbox ::
  "RepoEnv \<Rightarrow> io \<Rightarrow> int \<Rightarrow> string \<Rightarrow> string \<Rightarrow> int \<Rightarrow> int \<Rightarrow> repo \<Rightarrow> repo \<times> (go_error + OutboxRecord)" where
  "ClaimOutbox env w clock planID owner ttl now0 s =
     (if blank owner \<or> ttl \<le> 0 then (s, Inl (Errorf ''outbox owner and positive ttl are required'' []))
      else let now = (if IsZero now0 then clock else now0);
               selected = selectClaim planID now (mvals (mr_outbox (snd s))) in
        if ob_ID selected = '''' then (s, Inl ErrNotFound)
        else claimOutboxLocked env w (ob_ID selected) owner ttl now s)"

definition ClaimOutboxByID ::
  "RepoEnv \<Rightarrow> io \<Rightarrow> int \<Rightarrow> string \<Rightarrow> string \<Rightarrow> int \<Rightarrow> int \<Rightarrow> repo \<Rightarrow> repo \<times> (go_error + OutboxRecord)" where
  "ClaimOutboxByID env w clock i owner ttl now0 s =
     (if blank i then (s, Inl (Errorf ''outbox id is required'' []))
      else if blank owner \<or> ttl \<le> 0 then (s, Inl (Errorf ''outbox owner and positive ttl are required'' []))
      else claimOutboxLocked env w (TrimSpace i) owner ttl (if IsZero now0 then clock else now0) s)"

definition holdsLease :: "string \<Rightarrow> int \<Rightarrow> OutboxRecord \<Rightarrow> bool" where
  "holdsLease owner now x \<longleftrightarrow> leasedAt now x \<and> ob_Owner x = owner"

text \<open>\<open>deliveryErr\<close> is the text of the delivery error, if there was one.\<close>

definition acknowledged :: "int \<Rightarrow> string option \<Rightarrow> OutboxRecord \<Rightarrow> OutboxRecord" where
  "acknowledged now deliveryErr x =
     (case deliveryErr of
        None \<Rightarrow> x\<lparr>ob_Status := ''acked'', ob_LastError := ''''\<rparr>
      | Some msg \<Rightarrow> x\<lparr>ob_LastError := msg,
          ob_Status := (if 0 < ob_MaxAttempts x \<and> ob_MaxAttempts x \<le> ob_Attempts x then ''failed'' else ''pending'')\<rparr>)
     \<lparr>ob_Owner := '''', ob_LeaseExpiresAt := 0, ob_UpdatedAt := now\<rparr>"

definition AckOutbox ::
  "RepoEnv \<Rightarrow> io \<Rightarrow> int \<Rightarrow> string \<Rightarrow> string \<Rightarrow> int \<Rightarrow> string option \<Rightarrow> repo \<Rightarrow> repo \<times> go_error option" where
  "AckOutbox env w clock i owner now0 deliveryErr s =
     (let now = (if IsZero now0 then clock else now0) in
      case mget (mr_outbox (snd s)) (TrimSpace i) of
        None \<Rightarrow> (s, Some ErrNotFound)
      | Some x \<Rightarrow>
          if \<not> holdsLease owner now x then (s, Some ErrLeaseLost)
          else putRecord env w (acknowledged now deliveryErr x) x s)"

definition FailOutbox ::
  "RepoEnv \<Rightarrow> io \<Rightarrow> int \<Rightarrow> string \<Rightarrow> string \<Rightarrow> int \<Rightarrow> string \<Rightarrow> repo \<Rightarrow> repo \<times> go_error option" where
  "FailOutbox env w clock i owner now0 reason s =
     (if blank reason then (s, Some (Errorf ''outbox failure reason is required'' []))
      else let now = (if IsZero now0 then clock else now0) in
        case mget (mr_outbox (snd s)) (TrimSpace i) of
          None \<Rightarrow> (s, Some ErrNotFound)
        | Some x \<Rightarrow>
            if \<not> holdsLease owner now x then (s, Some ErrLeaseLost)
            else putRecord env w (x\<lparr>ob_Status := ''failed'', ob_LastError := reason, ob_Owner := '''', ob_LeaseExpiresAt := 0,
                ob_UpdatedAt := now\<rparr>) x s)"

definition ListOutbox :: "RepoEnv \<Rightarrow> string \<Rightarrow> string \<Rightarrow> MemoryRepository \<Rightarrow> OutboxRecord list" where
  "ListOutbox env planID status r =
     sort_stable (\<lambda>x y. ob_CreatedAt x < ob_CreatedAt y)
       (map (cloneValue (re_Record env))
         (filter (\<lambda>x. (planID = '''' \<or> ob_PlanID x = planID) \<and> (status = '''' \<or> ob_Status x = status)) (mvals (mr_outbox r))))"

end
