(* ===== verification/Orch_RepoSpec.thy ===== *)
theory Orch_RepoSpec
  imports Orch_Outbox
begin

text \<open>
  What the repository promises. \<open>repo_view\<close> is what a client can observe of a repository: the definitions, plans,
  projections, logs and intents as functions of their keys. The abstract machine \<open>spec_step\<close> says how it may change;
  the operations of the implementation refine it, whatever the file system does.
\<close>

section \<open>Views\<close>

record repo_view =
  v_agents :: "string \<Rightarrow> AgentDefinition option"
  v_squads :: "string \<Rightarrow> SquadDefinition option"
  v_plans :: "string \<Rightarrow> RequirementExecutionPlan option"
  v_projections :: "string \<Rightarrow> PlanProjection option"
  v_keys :: "string \<Rightarrow> string option"
  v_log :: "string \<Rightarrow> Event list"
  v_outbox :: "string \<Rightarrow> OutboxRecord option"

definition viewOf :: "MemoryRepository \<Rightarrow> repo_view" where
  "viewOf r = \<lparr>v_agents = mget (mr_agents r), v_squads = mget (mr_squads r), v_plans = mget (mr_plans r),
     v_projections = mget (mr_projections r), v_keys = mget (mr_keys r), v_log = mget0 [] (mr_events r),
     v_outbox = mget (mr_outbox r)\<rparr>"

text \<open>A repository with the same contents: only the revision and the dirty flag of the snapshot may differ.\<close>

definition same_contents :: "MemoryRepository \<Rightarrow> MemoryRepository \<Rightarrow> bool" where
  "same_contents r r' \<longleftrightarrow> (\<exists>n b. r' = r\<lparr>mr_revision := n, mr_dirty := b\<rparr>)"

lemma same_contents_refl [simp]: "same_contents r r"
  unfolding same_contents_def by (rule exI [of _ "mr_revision r"], rule exI [of _ "mr_dirty r"]) simp

lemma same_contents_saved [simp]: "same_contents r (r\<lparr>mr_revision := n, mr_dirty := b\<rparr>)"
  unfolding same_contents_def by blast

lemma same_contents_view: "same_contents r r' \<Longrightarrow> viewOf r' = viewOf r"
  by (auto simp: same_contents_def viewOf_def)

lemma mrestore_mput [simp]: "mrestore k (mget m k) (mput k v m) = m"
proof (cases "mget m k")
  case None
  then show ?thesis by (induction m) (auto simp: mrestore_def split: if_splits)
next
  case (Some w)
  then show ?thesis by (induction m) (auto simp: mrestore_def split: if_splits)
qed

lemma mput_back [simp]: "mget m k = Some w \<Longrightarrow> mput k w (mput k v m) = m"
  by (induction m) (auto split: if_splits)

declare mput_same [simp]

lemma mdel_absent [simp]: "mget m k = None \<Longrightarrow> mdel k m = m"
  by (induction m) (auto split: if_splits)

lemma mdel_mput [simp]: "mget m k = None \<Longrightarrow> mdel k (mput k v m) = m"
  using mrestore_mput [of k m v] by (simp add: mrestore_def)

section \<open>What a write of the snapshot does to the repository\<close>

lemma nested_pair:
  obtains a b c where "x = ((a, b), c)"
  by (cases x; cases "fst x") auto

lemma persistLocked_cases:
  assumes "persistLocked env w (d, r) = ((d', r'), res)"
  obtains (failed) e where "res = Some e" and "r' = r"
  | (written) "res = None" and "same_contents r r'"
  using assms unfolding persistLocked_def Let_def
  by (auto split: if_splits io.splits sum.splits prod.splits option.splits)

lemma commit_cases:
  assumes "commit env w undo (d, r) = ((d', r'), res)"
  obtains (failed) e where "res = Some e" and "r' = undo r"
  | (written) "res = None" and "same_contents r r'"
proof -
  obtain d1 r1 res1 where p: "persistLocked env w (d, r) = ((d1, r1), res1)" by (rule nested_pair)
  from p show thesis
  proof (cases rule: persistLocked_cases)
    case (failed e)
    then show ?thesis using assms p that(1) by (auto simp: commit_def)
  next
    case written
    then show ?thesis using assms p that(2) by (auto simp: commit_def)
  qed
qed

section \<open>What each operation does\<close>

text \<open>
  Every operation either leaves the contents of the repository as they were or makes one change to them. The change is
  the same whether or not the repository is backed by a file.
\<close>

lemma SaveAgent_cases:
  assumes "SaveAgent env w a n (d, r) = ((d', r'), res)"
  obtains (refused) "res \<noteq> None" and "same_contents r r'"
  | (saved) "res = None" and "saveAgentChecks a n r = None"
      and "same_contents (r\<lparr>mr_agents := mput (key3 (ag_WorkspaceID a) (ag_ID a) (ag_Revision a)) a (mr_agents r)\<rparr>) r'"
proof (cases "saveAgentChecks a n r")
  case (Some e)
  then have "((d', r'), res) = ((d, r), Some e)" using assms by (simp add: SaveAgent_def)
  then show ?thesis using that(1) by simp
next
  case None
  let ?k = "key3 (ag_WorkspaceID a) (ag_ID a) (ag_Revision a)"
  from assms None have "commit env w (\<lambda>r'. r'\<lparr>mr_agents := mrestore ?k (mget (mr_agents r) ?k) (mr_agents r'),
      mr_dirty := mr_dirty r, mr_revision := mr_revision r\<rparr>) (d, r\<lparr>mr_agents := mput ?k a (mr_agents r), mr_dirty := True\<rparr>) =
      ((d', r'), res)" by (simp add: SaveAgent_def Let_def)
  then show ?thesis
  proof (cases rule: commit_cases)
    case (failed e)
    then show ?thesis using that(1) by simp
  next
    case written
    then show ?thesis using that(2) None by (auto simp: same_contents_def)
  qed
qed

lemma SaveSquad_cases:
  assumes "SaveSquad env w a n (d, r) = ((d', r'), res)"
  obtains (refused) "res \<noteq> None" and "same_contents r r'"
  | (saved) "res = None" and "saveSquadChecks a n r = None"
      and "same_contents (r\<lparr>mr_squads := mput (key3 (sq_WorkspaceID a) (sq_ID a) (sq_Revision a)) a (mr_squads r)\<rparr>) r'"
proof (cases "saveSquadChecks a n r")
  case (Some e)
  then have "((d', r'), res) = ((d, r), Some e)" using assms by (simp add: SaveSquad_def)
  then show ?thesis using that(1) by simp
next
  case None
  let ?k = "key3 (sq_WorkspaceID a) (sq_ID a) (sq_Revision a)"
  from assms None have "commit env w (\<lambda>r'. r'\<lparr>mr_squads := mrestore ?k (mget (mr_squads r) ?k) (mr_squads r'),
      mr_dirty := mr_dirty r, mr_revision := mr_revision r\<rparr>) (d, r\<lparr>mr_squads := mput ?k a (mr_squads r), mr_dirty := True\<rparr>) =
      ((d', r'), res)" by (simp add: SaveSquad_def Let_def)
  then show ?thesis
  proof (cases rule: commit_cases)
    case (failed e)
    then show ?thesis using that(1) by simp
  next
    case written
    then show ?thesis using that(2) None by (auto simp: same_contents_def)
  qed
qed

lemma withPlanKey_sel [simp]:
  "mr_plans (withPlanKey p r) = mr_plans r" "mr_projections (withPlanKey p r) = mr_projections r"
  "mr_events (withPlanKey p r) = mr_events r" "mr_agents (withPlanKey p r) = mr_agents r"
  "mr_squads (withPlanKey p r) = mr_squads r" "mr_outbox (withPlanKey p r) = mr_outbox r"
  "mr_dirty (withPlanKey p r) = mr_dirty r" "mr_revision (withPlanKey p r) = mr_revision r"
  by (simp_all add: withPlanKey_def)

lemma withPlan_sel [simp]:
  "mr_plans (withPlan p q r) = mput (pl_ID p) p (mr_plans r)"
  "mr_projections (withPlan p q r) = mput (pl_ID p) q (mr_projections r)"
  "mr_events (withPlan p q r) = mr_events r" "mr_agents (withPlan p q r) = mr_agents r" "mr_keys (withPlan p q r) = mr_keys r"
  "mr_squads (withPlan p q r) = mr_squads r" "mr_outbox (withPlan p q r) = mr_outbox r"
  by (simp_all add: withPlan_def)

lemma CreatePlan_cases:
  assumes "CreatePlan env w p (d, r) = ((d', r'), res)"
  obtains (unchanged) "same_contents r r'"
  | (created) q where "res = None" and "planChecks env p = Inr q" and "mget (mr_plans r) (pl_ID p) = None"
      and "pl_IdempotencyKey p = '''' \<or> mget0 '''' (mr_keys r) (planKey p) = ''''"
      and "same_contents (withPlan p q (withPlanKey p r)) r'"
proof (cases "planChecks env p")
  case (Inl e)
  then show ?thesis using assms that(1) by (simp add: CreatePlan_def)
next
  case (Inr q)
  let ?r1 = "withPlanKey p r"
  let ?old = "mget (mr_keys r) (planKey p)"
  have restored: "restorePlanKey p ?old ?r1 = r" by (simp add: restorePlanKey_def withPlanKey_def)
  show ?thesis
  proof (cases "pl_IdempotencyKey p \<noteq> '''' \<and> mget0 '''' (mr_keys r) (planKey p) \<noteq> '''' \<or> mget (mr_plans r) (pl_ID p) \<noteq> None")
    case True
    then show ?thesis using assms Inr that(1) restored by (auto simp: CreatePlan_def Let_def split: if_splits)
  next
    case False
    let ?undo = "\<lambda>r'. restorePlanKey p ?old (r'\<lparr>mr_plans := mdel (pl_ID p) (mr_plans r'),
       mr_projections := mrestore (pl_ID p) (mget (mr_projections ?r1) (pl_ID p)) (mr_projections r'),
       mr_dirty := mr_dirty r, mr_revision := mr_revision r\<rparr>)"
    have undo: "?undo ((withPlan p q ?r1)\<lparr>mr_dirty := True\<rparr>) = r"
      using False by (simp add: restorePlanKey_def withPlanKey_def withPlan_def)
    have "commit env w ?undo (d, (withPlan p q ?r1)\<lparr>mr_dirty := True\<rparr>) = ((d', r'), res)"
      using assms Inr False by (simp add: CreatePlan_def Let_def split: if_splits)
    then show ?thesis
    proof (cases rule: commit_cases)
      case (failed e)
      then show ?thesis using that(1) undo by simp
    next
      case written
      then show ?thesis using that(2) Inr False by (auto simp: same_contents_def)
    qed
  qed
qed

text \<open>A repository with the same view, whose maps are well formed if they were.\<close>

definition repo_wf :: "MemoryRepository \<Rightarrow> bool" where
  "repo_wf r \<longleftrightarrow> mwf (mr_agents r) \<and> mwf (mr_squads r) \<and> mwf (mr_plans r) \<and> mwf (mr_projections r) \<and> mwf (mr_keys r) \<and>
     mwf (mr_events r) \<and> mwf (mr_outbox r)"

definition same_view :: "MemoryRepository \<Rightarrow> MemoryRepository \<Rightarrow> bool" where
  "same_view r r' \<longleftrightarrow> viewOf r' = viewOf r \<and> (repo_wf r \<longrightarrow> repo_wf r')"

lemma same_view_refl [simp]: "same_view r r"
  by (simp add: same_view_def)

lemma same_contents_same_view: "same_contents r r' \<Longrightarrow> same_view r r'"
  by (auto simp: same_contents_def same_view_def viewOf_def repo_wf_def)

lemma same_view_snapshot_fields [simp]:
  "same_view (r\<lparr>mr_dirty := b\<rparr>) r' \<longleftrightarrow> same_view r r'" "same_view (r\<lparr>mr_revision := n\<rparr>) r' \<longleftrightarrow> same_view r r'"
  "same_view r (r'\<lparr>mr_dirty := b\<rparr>) \<longleftrightarrow> same_view r r'" "same_view r (r'\<lparr>mr_revision := n\<rparr>) \<longleftrightarrow> same_view r r'"
  by (simp_all add: same_view_def viewOf_def repo_wf_def)

lemma commit_view:
  assumes "commit env w undo (d, r) = ((d', r'), res)"
  obtains (failed) e where "res = Some e" and "r' = undo r"
  | (written) "res = None" and "same_view r r'"
  using assms by (cases rule: commit_cases) (auto dest: same_contents_same_view intro: that)

lemma SaveProjection_cases:
  assumes "SaveProjection env w p (d, r) = ((d', r'), res)"
  obtains (refused) "res \<noteq> None" and "same_view r r'"
  | (saved) "res = None" and "saveProjectionChecks p r = None"
      and "same_view (r\<lparr>mr_projections := mput (p_PlanID p) (detachedProjection env p) (mr_projections r)\<rparr>) r'"
proof (cases "saveProjectionChecks p r")
  case (Some e)
  then have "((d', r'), res) = ((d, r), Some e)" using assms by (simp add: SaveProjection_def)
  then show ?thesis using that(1) by simp
next
  case None
  let ?k = "p_PlanID p"
  from assms None have "commit env w (\<lambda>r'. r'\<lparr>mr_projections := mrestore ?k (mget (mr_projections r) ?k) (mr_projections r'),
      mr_dirty := mr_dirty r, mr_revision := mr_revision r\<rparr>)
      (d, r\<lparr>mr_projections := mput ?k (detachedProjection env p) (mr_projections r), mr_dirty := True\<rparr>) =
      ((d', r'), res)" by (simp add: SaveProjection_def Let_def)
  then show ?thesis
  proof (cases rule: commit_view)
    case (failed e)
    then show ?thesis using that(1) by simp
  next
    case written
    then show ?thesis using that(2) None by (simp add: same_view_def viewOf_def repo_wf_def)
  qed
qed

subsection \<open>Events\<close>

lemma placeEvent_scope [simp]:
  "ev_PlanID (placeEvent cd es e) = ev_PlanID e" "ev_WorkspaceID (placeEvent cd es e) = ev_WorkspaceID e"
  by (simp_all add: placeEvent_def Let_def)

text \<open>The change an accepted event makes: it is placed at the end of the log of its plan.\<close>

definition logged :: "RepoEnv \<Rightarrow> Event \<Rightarrow> MemoryRepository \<Rightarrow> MemoryRepository" where
  "logged env e r = (let es = mget0 [] (mr_events r) (ev_PlanID e) in
     r\<lparr>mr_events := mput (ev_PlanID e) (es @ [placeEvent (re_Codec env) es e]) (mr_events r)\<rparr>)"

definition event_accepted :: "RepoEnv \<Rightarrow> Event \<Rightarrow> MemoryRepository \<Rightarrow> bool" where
  "event_accepted env e r \<longleftrightarrow> (let es = mget0 [] (mr_events r) (ev_PlanID e) in
     (\<exists>plan. mget (mr_plans r) (ev_PlanID e) = Some plan \<and> ev_WorkspaceID e = pl_WorkspaceID plan) \<and>
     (\<forall>old\<in>set es. ev_IdempotencyKey e = '''' \<or> ev_IdempotencyKey old \<noteq> ev_IdempotencyKey e) \<and>
     ValidateEventChain (re_Codec env) (es @ [placeEvent (re_Codec env) es e]) (ev_PlanID e) (ev_WorkspaceID e) = None)"

lemma appendEventLocked_cases:
  assumes "appendEventLocked env e r = (r', res)"
  obtains (refused) "res \<noteq> None" and "r' = r"
  | (duplicate) old where "res = None" and "r' = r" and "old \<in> set (mget0 [] (mr_events r) (ev_PlanID e))"
      and "ev_IdempotencyKey old = ev_IdempotencyKey e" and "ev_PayloadHash old = ev_PayloadHash e"
  | (appended) "res = None" and "event_accepted env e r" and "r' = (logged env e r)\<lparr>mr_dirty := True\<rparr>"
proof -
  let ?es = "mget0 [] (mr_events r) (ev_PlanID e)"
  let ?same = "\<lambda>old. ev_IdempotencyKey e \<noteq> '''' \<and> ev_IdempotencyKey old = ev_IdempotencyKey e"
  show thesis
  proof (cases "mget (mr_plans r) (ev_PlanID e)")
    case None
    then show ?thesis using assms that(1) by (auto simp: appendEventLocked_def)
  next
    case (Some plan)
    show ?thesis
    proof (cases "find ?same ?es")
      case (Some old)
      then have "old \<in> set ?es" "?same old" by (auto simp: find_Some_iff)
      then show ?thesis using assms that(1,2) Some \<open>mget (mr_plans r) (ev_PlanID e) = Some plan\<close>
        by (auto simp: appendEventLocked_def Let_def split: if_splits)
    next
      case None
      then have fresh: "\<forall>old\<in>set ?es. \<not> ?same old" by (auto simp: find_None_iff)
      show ?thesis
      proof (cases "ev_WorkspaceID e = pl_WorkspaceID plan \<and> appendChecks (re_Codec env) ?es (placeEvent (re_Codec env) ?es e) = None")
        case True
        then have "event_accepted env e r"
          using Some fresh by (auto simp: event_accepted_def appendChecks_def check_simps)
        then show ?thesis using assms that(3) None Some True by (simp add: appendEventLocked_def Let_def logged_def)
      next
        case False
        then consider "ev_WorkspaceID e \<noteq> pl_WorkspaceID plan" |
          err where "appendChecks (re_Codec env) ?es (placeEvent (re_Codec env) ?es e) = Some err" by auto
        then have "\<exists>err. (r, Some err) = (r', res)"
          by cases (use assms None Some in \<open>auto simp: appendEventLocked_def Let_def split: if_splits\<close>)
        then show ?thesis using that(1) by auto
      qed
    qed
  qed
qed

lemma logged_log: "mget0 [] (mr_events (logged env e r)) = (mget0 [] (mr_events r))(ev_PlanID e :=
    mget0 [] (mr_events r) (ev_PlanID e) @ [placeEvent (re_Codec env) (mget0 [] (mr_events r) (ev_PlanID e)) e])"
  by (rule ext) (simp add: logged_def Let_def)

lemma logged_sel [simp]:
  "mr_plans (logged env e r) = mr_plans r" "mr_projections (logged env e r) = mr_projections r"
  "mr_keys (logged env e r) = mr_keys r" "mr_agents (logged env e r) = mr_agents r" "mr_squads (logged env e r) = mr_squads r"
  "mr_outbox (logged env e r) = mr_outbox r" "mr_dirty (logged env e r) = mr_dirty r" "mr_revision (logged env e r) = mr_revision r"
  "mwf (mr_events r) \<Longrightarrow> mwf (mr_events (logged env e r))"
  by (simp_all add: logged_def Let_def)

text \<open>Restoring the log of one plan gives the log of before.\<close>

lemma put_log_back: "mget0 [] (mput pid (mget0 [] m pid) m') = (mget0 [] m')(pid := mget0 [] m pid)"
  by (rule ext) simp

lemma truncateChain_dirty: "truncateChain pid n (r\<lparr>mr_dirty := b\<rparr>) = (truncateChain pid n r)\<lparr>mr_dirty := b\<rparr>"
  by (simp add: truncateChain_def)

lemma truncate_logged:
  "same_view r (truncateChain (ev_PlanID e) (length (mget0 [] (mr_events r) (ev_PlanID e))) (logged env e r))"
  unfolding same_view_def viewOf_def repo_wf_def truncateChain_def
  by (simp add: logged_log logged_def Let_def) (auto simp: mget0_def fun_eq_iff)

lemma AppendEvent_cases:
  assumes "AppendEvent env w e (d, r) = ((d', r'), res)"
  obtains (unchanged) "same_view r r'"
  | (appended) "res = None" and "event_accepted env e r" and "same_view (logged env e r) r'"
proof -
  let ?n = "length (mget0 [] (mr_events r) (ev_PlanID e))"
  obtain r1 res1 where a: "appendEventLocked env e r = (r1, res1)" by fastforce
  let ?undo = "\<lambda>r'. (truncateChain (ev_PlanID e) ?n r')\<lparr>mr_dirty := mr_dirty r, mr_revision := mr_revision r\<rparr>"
  have undo: "same_view r (?undo (q\<lparr>mr_dirty := b\<rparr>))" if "same_view r (truncateChain (ev_PlanID e) ?n q)" for q b
    using that by (simp add: truncateChain_dirty)
  from a show thesis
  proof (cases rule: appendEventLocked_cases)
    case refused
    then show ?thesis using assms a that(1) by (auto simp: AppendEvent_def Let_def)
  next
    case (duplicate old)
    then have "commit env w ?undo (d, r) = ((d', r'), res)" using assms a by (simp add: AppendEvent_def Let_def)
    then show ?thesis using that(1) undo [of r "mr_dirty r"] by (cases rule: commit_view) (auto simp: truncateChain_def)
  next
    case appended
    then have c: "commit env w ?undo (d, (logged env e r)\<lparr>mr_dirty := True\<rparr>) = ((d', r'), res)"
      using assms a by (simp add: AppendEvent_def Let_def)
    from c show ?thesis
    proof (cases rule: commit_view)
      case (failed err)
      then show ?thesis using that(1) undo [OF truncate_logged] by simp
    next
      case written
      then show ?thesis using that(2) appended by simp
    qed
  qed
qed

text \<open>Restoring log and projection of a plan.\<close>

definition unlogged :: "string \<Rightarrow> MemoryRepository \<Rightarrow> MemoryRepository \<Rightarrow> MemoryRepository" where
  "unlogged pid before r = r\<lparr>mr_events := mput pid (mget0 [] (mr_events before) pid) (mr_events r),
     mr_dirty := mr_dirty before, mr_revision := mr_revision before\<rparr>"

lemma unlogged_logged: "same_view r (unlogged (ev_PlanID e) r ((logged env e r)\<lparr>mr_dirty := b\<rparr>))"
  by (simp add: same_view_def viewOf_def repo_wf_def unlogged_def put_log_back logged_log logged_def Let_def)

lemma unlogged_same: "same_view r (unlogged pid r r)"
  by (simp add: same_view_def viewOf_def repo_wf_def unlogged_def put_log_back)

lemma CommitEventProjection_cases:
  assumes "CommitEventProjection env w e p (d, r) = ((d', r'), res)"
  obtains (refused) "res \<noteq> None" and "same_view r r'"
  | (replayed) old where "res = None" and "commitChecks e p r = None" and "old \<in> set (mget0 [] (mr_events r) (ev_PlanID e))"
      and "ev_IdempotencyKey old = ev_IdempotencyKey e" and "ev_PayloadHash old = ev_PayloadHash e"
      and "same_view (r\<lparr>mr_projections := mput (p_PlanID p) p (mr_projections r)\<rparr>) r'"
  | (committed) "res = None" and "commitChecks e p r = None" and "event_accepted env e r"
      and "same_view ((logged env e r)\<lparr>mr_projections := mput (p_PlanID p) p (mr_projections r)\<rparr>) r'"
proof (cases "commitChecks e p r")
  case (Some err)
  then have "((d', r'), res) = ((d, r), Some err)" using assms by (simp add: CommitEventProjection_def)
  then show ?thesis using that(1) by simp
next
  case None
  obtain r1 res1 where a: "appendEventLocked env e r = (r1, res1)" by fastforce
  let ?k = "p_PlanID p"
  let ?undo = "\<lambda>r'. r'\<lparr>mr_events := mput (ev_PlanID e) (mget0 [] (mr_events r) (ev_PlanID e)) (mr_events r'),
     mr_projections := mrestore ?k (mget (mr_projections r) ?k) (mr_projections r'),
     mr_dirty := mr_dirty r, mr_revision := mr_revision r\<rparr>"
  let ?set = "\<lambda>q. q\<lparr>mr_projections := mput ?k p (mr_projections q), mr_dirty := True\<rparr>"
  have undo: "same_view r (?undo (?set q))" if "same_view r (unlogged (ev_PlanID e) r q)" "mr_projections q = mr_projections r" for q
    using that by (simp add: same_view_def viewOf_def repo_wf_def unlogged_def)
  have run: "commit env w ?undo (d, ?set r1) = ((d', r'), res)" if "res1 = None"
    using assms a None that by (simp add: CommitEventProjection_def cloneProjection_def)
  from a show ?thesis
  proof (cases rule: appendEventLocked_cases)
    case refused
    then obtain err where "((d', r'), res) = ((d, r), Some err)"
      using assms a None by (auto simp: CommitEventProjection_def)
    then show ?thesis using that(1) by simp
  next
    case (duplicate old)
    from run [OF duplicate(1)] show ?thesis
    proof (cases rule: commit_view)
      case (failed err)
      then show ?thesis using that(1) undo [OF unlogged_same] duplicate by simp
    next
      case written
      then show ?thesis using that(2) duplicate None by simp
    qed
  next
    case appended
    from run [OF appended(1)] show ?thesis
    proof (cases rule: commit_view)
      case (failed err)
      then show ?thesis using that(1) undo [OF unlogged_logged] appended by simp
    next
      case written
      then show ?thesis using that(3) appended None by simp
    qed
  qed
qed

lemma retryPlanEvent_cases:
  assumes "retryPlanEvent env w p e (d, r) = ((d', r'), res)" and "ev_PlanID e = pl_ID p"
  obtains (unchanged) "same_view r r'"
  | (appended) "res = None" and "event_accepted env e r" and "same_view (logged env e r) r'"
proof -
  obtain r1 res1 where a: "appendEventLocked env e r = (r1, res1)" by fastforce
  have run: "commit env w (unlogged (ev_PlanID e) r) (d, r1) = ((d', r'), res)" if "res1 = None"
    using assms a that by (simp add: retryPlanEvent_def unlogged_def [abs_def])
  from a show thesis
  proof (cases rule: appendEventLocked_cases)
    case refused
    then show ?thesis using assms a that(1) by (auto simp: retryPlanEvent_def)
  next
    case (duplicate old)
    from run [OF duplicate(1)] show ?thesis
      by (cases rule: commit_view) (use that(1) unlogged_same duplicate in auto)
  next
    case appended
    from run [OF appended(1)] show ?thesis
      by (cases rule: commit_view) (use that unlogged_logged appended in auto)
  qed
qed

text \<open>The plan, its first projection, its key and its first event.\<close>

abbreviation planned :: "RequirementExecutionPlan \<Rightarrow> PlanProjection \<Rightarrow> MemoryRepository \<Rightarrow> MemoryRepository" where
  "planned p q r \<equiv> withPlan p q (withPlanKey p r)"

lemma planEvent_scope [simp]: "ev_PlanID (planEvent env p e) = ev_PlanID e" "ev_WorkspaceID (planEvent env p e) = ev_WorkspaceID e"
  by (simp_all add: planEvent_def Let_def)

text \<open>Projections and logs belong to plans.\<close>

definition scoped :: "MemoryRepository \<Rightarrow> bool" where
  "scoped r \<longleftrightarrow> (\<forall>i. mget (mr_plans r) i = None \<longrightarrow> mget (mr_projections r) i = None \<and> mget0 [] (mr_events r) i = [])"

text \<open>A creation that fails after its checks removes the plan, its projection, its log and the key of the plan.\<close>

definition withoutPlanKey :: "RequirementExecutionPlan \<Rightarrow> MemoryRepository \<Rightarrow> MemoryRepository" where
  "withoutPlanKey p r = (if pl_IdempotencyKey p = '''' then r else r\<lparr>mr_keys := mdel (planKey p) (mr_keys r)\<rparr>)"

lemma mdel_log: "mget0 [] (mdel k m) = (mget0 [] m)(k := [])"
  by (rule ext) (simp add: mget0_def)

lemma mdel_absorb [simp]: "mdel k (mput k v m) = mdel k m"
  by (induction m) auto

lemma dropPlan_same_view:
  assumes "mget (mr_plans q1) = (mget (mr_plans r))(pl_ID p := x)" "mget (mr_projections q1) = (mget (mr_projections r))(pl_ID p := y)"
    and "mget0 [] (mr_events q1) = mget0 [] (mr_events r)" "mr_keys q1 = mr_keys (withPlanKey p r)"
    and "mr_agents q1 = mr_agents r" "mr_squads q1 = mr_squads r" "mr_outbox q1 = mr_outbox r" "repo_wf q1"
    and "scoped r" and "mget (mr_plans r) (pl_ID p) = None"
  shows "same_view (withoutPlanKey p r) (dropPlan p r q1)"
proof -
  have "mget (mr_projections r) (pl_ID p) = None" using assms(9,10) by (simp add: scoped_def)
  then have "viewOf (dropPlan p r q1) = viewOf (withoutPlanKey p r)"
    using assms(1-7,10) by (auto simp: viewOf_def dropPlan_def withoutPlanKey_def withPlanKey_def delete_conv' fun_eq_iff)
  moreover have "repo_wf (dropPlan p r q1)" using assms(8) by (simp add: repo_wf_def dropPlan_def)
  ultimately show ?thesis by (simp add: same_view_def)
qed

lemma planned_sel [simp]:
  "repo_wf r \<Longrightarrow> repo_wf (planned p q r)" "mr_keys (planned p q r) = mr_keys (withPlanKey p r)"
  "repo_wf r \<Longrightarrow> repo_wf (logged env e r)" "mwf (mr_keys r) \<Longrightarrow> mwf (mr_keys (withPlanKey p r))"
  by (simp_all add: repo_wf_def) (simp_all add: withPlanKey_def)

lemma CreatePlanWithEvent_fresh_cases:
  assumes run: "(case appendEventLocked env e (planned p q r) of
      (r1, Some err) \<Rightarrow> ((d, dropPlan p r r1), Some err)
    | (r1, None) \<Rightarrow> commit env w (\<lambda>r'. dropPlan p r (r'\<lparr>mr_events := mdel (pl_ID p) (mr_events r')\<rparr>))
         (d, r1\<lparr>mr_dirty := True\<rparr>)) = ((d', r'), res)"
    and wf: "repo_wf r" "scoped r" and new: "mget (mr_plans r) (pl_ID p) = None" and e: "ev_PlanID e = pl_ID p"
  obtains (created) "res = None" and "event_accepted env e (planned p q r)" and "same_view (logged env e (planned p q r)) r'"
  | (dropped) "res \<noteq> None" and "same_view (withoutPlanKey p r) r'"
proof -
  obtain r1 res1 where a: "appendEventLocked env e (planned p q r) = (r1, res1)" by fastforce
  let ?undo = "\<lambda>r'. dropPlan p r (r'\<lparr>mr_events := mdel (pl_ID p) (mr_events r')\<rparr>)"
  have empty: "mget0 [] (mr_events r) (pl_ID p) = []" using wf(2) new by (simp add: scoped_def)
  from a show thesis
  proof (cases rule: appendEventLocked_cases)
    case refused
    have "same_view (withoutPlanKey p r) (dropPlan p r (planned p q r))"
      by (rule dropPlan_same_view) (use wf new in \<open>auto simp: fun_eq_iff\<close>)
    then show ?thesis using refused run a that(2) by auto
  next
    case (duplicate old)
    then show ?thesis using empty e by simp
  next
    case appended
    then have "commit env w ?undo (d, (logged env e (planned p q r))\<lparr>mr_dirty := True\<rparr>) = ((d', r'), res)"
      using run a by simp
    then show ?thesis
    proof (cases rule: commit_view)
      case (failed err)
      have "same_view (withoutPlanKey p r) (?undo ((logged env e (planned p q r))\<lparr>mr_dirty := True\<rparr>))"
        by (rule dropPlan_same_view) (use wf new e empty in \<open>auto simp: fun_eq_iff mdel_log logged_log repo_wf_def\<close>)
      then show ?thesis using failed that(2) by simp
    next
      case written
      then show ?thesis using that(1) appended by simp
    qed
  qed
qed

lemma CreatePlanWithEvent_cases:
  assumes run: "CreatePlanWithEvent env w p e0 (d, r) = ((d', r'), res)" and wf: "repo_wf r" "scoped r"
  obtains (unchanged) "same_view r r'"
  | (appended) "res = None" and "event_accepted env (planEvent env p e0) r" and "same_view (logged env (planEvent env p e0) r) r'"
  | (created) q where "res = None" and "planChecks env p = Inr q" and "mget (mr_plans r) (pl_ID p) = None"
      and "pl_IdempotencyKey p = '''' \<or> mget0 '''' (mr_keys r) (planKey p) \<in> {'''', pl_PlanHash p}"
      and "ev_PlanID e0 = pl_ID p" and "event_accepted env (planEvent env p e0) (planned p q r)"
      and "same_view (logged env (planEvent env p e0) (planned p q r)) r'"
  | (dropped) "res \<noteq> None" and "mget (mr_plans r) (pl_ID p) = None" and "same_view (withoutPlanKey p r) r'"
proof (cases "planChecks env p")
  case (Inl err)
  then show ?thesis using run that(1) by (simp add: CreatePlanWithEvent_def)
next
  case (Inr q)
  let ?taken = "pl_IdempotencyKey p \<noteq> '''' \<and> mget0 '''' (mr_keys r) (planKey p) \<notin> set ['''', pl_PlanHash p]"
  show ?thesis
  proof (cases "ev_PlanID e0 \<noteq> pl_ID p \<or> ev_WorkspaceID e0 \<noteq> pl_WorkspaceID p \<or> ev_Type e0 = ''''")
    case True
    then show ?thesis using run Inr that(1) by (simp add: CreatePlanWithEvent_def)
  next
    case scope: False
    then have e: "ev_PlanID (planEvent env p e0) = pl_ID p" by simp
    show ?thesis
    proof (cases "mget (mr_plans r) (pl_ID p)")
      case (Some existing)
      then consider "r' = r" | "retryPlanEvent env w p (planEvent env p e0) (d, r) = ((d', r'), res)"
        using run Inr scope by (auto simp: CreatePlanWithEvent_def Let_def split: if_splits)
      then show ?thesis
      proof cases
        case 2
        then show ?thesis by (cases rule: retryPlanEvent_cases [OF _ e]) (use that(1,2) in auto)
      qed (use that(1) in simp)
    next
      case None
      show ?thesis
      proof (cases ?taken)
        case True
        then show ?thesis using run Inr scope None that(1) by (simp add: CreatePlanWithEvent_def Let_def)
      next
        case False
        have "(case appendEventLocked env (planEvent env p e0) (planned p q r) of
            (r1, Some err) \<Rightarrow> ((d, dropPlan p r r1), Some err)
          | (r1, None) \<Rightarrow> commit env w (\<lambda>r'. dropPlan p r (r'\<lparr>mr_events := mdel (pl_ID p) (mr_events r')\<rparr>))
               (d, r1\<lparr>mr_dirty := True\<rparr>)) = ((d', r'), res)"
          using run Inr scope None False by (simp add: CreatePlanWithEvent_def Let_def split: if_splits)
        then show ?thesis
          by (cases rule: CreatePlanWithEvent_fresh_cases [OF _ wf None e]) (use that(3,4) Inr None scope False in auto)
      qed
    qed
  qed
qed

subsection \<open>The outbox\<close>

text \<open>An intent that is not yet in the outbox: no record of its plan has its key.\<close>

definition new_intent :: "OutboxRecord \<Rightarrow> MemoryRepository \<Rightarrow> bool" where
  "new_intent x r \<longleftrightarrow> (\<forall>y\<in>set (mvals (mr_outbox r)). ob_PlanID y \<noteq> ob_PlanID x \<or> ob_IdempotencyKey y \<noteq> ob_IdempotencyKey x)"

lemma recordDefaults_sel [simp]:
  "ob_PlanID (recordDefaults nano now x) = ob_PlanID x" "ob_WorkspaceID (recordDefaults nano now x) = ob_WorkspaceID x"
  "ob_IdempotencyKey (recordDefaults nano now x) = ob_IdempotencyKey x" "ob_ID (recordDefaults nano now x) \<noteq> ''''"
  by (simp_all add: recordDefaults_def Let_def)

lemma EnqueueOutbox_cases:
  assumes "EnqueueOutbox env w nano now x0 (d, r) = ((d', r'), res)"
  defines "x \<equiv> recordDefaults nano now (trimmedRecord x0)"
  obtains (unchanged) "same_view r r'"
  | (enqueued) "res = Inr (cloneValue (re_Record env) x, True)" and "new_intent x r"
      and "ob_PlanID x \<noteq> ''''" "ob_WorkspaceID x \<noteq> ''''" "ob_IdempotencyKey x \<noteq> ''''"
      and "same_view (r\<lparr>mr_outbox := mput (ob_ID x) (cloneValue (re_Record env) x) (mr_outbox r)\<rparr>) r'"
  | (removed) "isl res" and "mget (mr_outbox r) (ob_ID x) \<noteq> None" and "new_intent x r"
      and "same_view (r\<lparr>mr_outbox := mdel (ob_ID x) (mr_outbox r)\<rparr>) r'"
proof -
  let ?t = "trimmedRecord x0"
  let ?bad = "ob_PlanID ?t = '''' \<or> ob_WorkspaceID ?t = '''' \<or> ob_IdempotencyKey ?t = '''' \<or> blank (ob_Kind ?t)"
  let ?f = "find (\<lambda>y. ob_PlanID y = ob_PlanID ?t \<and> ob_IdempotencyKey y = ob_IdempotencyKey ?t) (mvals (mr_outbox r))"
  let ?undo = "\<lambda>r'. r'\<lparr>mr_outbox := mdel (ob_ID x) (mr_outbox r'), mr_dirty := mr_dirty r, mr_revision := mr_revision r\<rparr>"
  let ?r1 = "r\<lparr>mr_outbox := mput (ob_ID x) (cloneValue (re_Record env) x) (mr_outbox r), mr_dirty := True\<rparr>"
  show thesis
  proof (cases "?bad \<or> ?f \<noteq> None \<or> ob_MaxAttempts x < 1")
    case True
    then consider "?bad" | y where "\<not> ?bad" "?f = Some y" | "\<not> ?bad" "?f = None" "ob_MaxAttempts x < 1" by auto
    then have "r' = r"
    proof cases
      case 1
      then show ?thesis using assms(1) by (simp add: EnqueueOutbox_def)
    next
      case (2 y)
      then show ?thesis using assms(1) by (simp add: EnqueueOutbox_def Let_def split: if_splits)
    next
      case 3
      then show ?thesis using assms(1) by (simp add: EnqueueOutbox_def Let_def x_def [symmetric])
    qed
    then show ?thesis using that(1) by simp
  next
    case False
    then have new: "new_intent x r" by (auto simp: new_intent_def x_def find_None_iff)
    obtain d1 r1 res1 where c: "commit env w ?undo (d, ?r1) = ((d1, r1), res1)" by (rule nested_pair)
    then have res: "((d', r'), res) = ((d1, r1), case res1 of Some e \<Rightarrow> Inl e | None \<Rightarrow> Inr (cloneValue (re_Record env) x, True))"
      using assms(1) False by (simp add: EnqueueOutbox_def Let_def x_def [symmetric] split: option.splits)
    from c show ?thesis
    proof (cases rule: commit_view)
      case (failed e)
      then have r': "same_view (r\<lparr>mr_outbox := mdel (ob_ID x) (mr_outbox r)\<rparr>) r'" using res
        by (auto simp: same_view_def viewOf_def repo_wf_def)
      show ?thesis
      proof (cases "mget (mr_outbox r) (ob_ID x)")
        case None
        then have "same_view r r'" using failed res by simp
        then show ?thesis using that(1) by simp
      next
        case (Some y)
        then show ?thesis using that(3) failed res r' new by simp
      qed
    next
      case written
      then show ?thesis using that(2) res new False by (simp add: x_def)
    qed
  qed
qed

lemma putRecord_cases:
  assumes "putRecord env w x old (d, r) = ((d', r'), res)" and "mget (mr_outbox r) (ob_ID x) = Some old"
  obtains (failed) "res \<noteq> None" and "same_view r r'"
  | (written) "res = None" and "same_view (r\<lparr>mr_outbox := mput (ob_ID x) x (mr_outbox r)\<rparr>) r'"
proof -
  have "commit env w (\<lambda>r'. r'\<lparr>mr_outbox := mput (ob_ID x) old (mr_outbox r')\<rparr>)
      (d, r\<lparr>mr_outbox := mput (ob_ID x) x (mr_outbox r), mr_dirty := True\<rparr>) = ((d', r'), res)"
    using assms(1) by (simp add: putRecord_def)
  then show thesis by (cases rule: commit_view) (use that assms(2) in auto)
qed

text \<open>Records are filed under their own IDs.\<close>

definition filed :: "MemoryRepository \<Rightarrow> bool" where
  "filed r \<longleftrightarrow> (\<forall>i x. mget (mr_outbox r) i = Some x \<longrightarrow> ob_ID x = i)"

lemma record_sel [simp]:
  "ob_ID (claimed owner ttl now x) = ob_ID x" "ob_ID (acknowledged now res x) = ob_ID x"
  "ob_PlanID (claimed owner ttl now x) = ob_PlanID x" "ob_PlanID (acknowledged now res x) = ob_PlanID x"
  "ob_WorkspaceID (claimed owner ttl now x) = ob_WorkspaceID x" "ob_WorkspaceID (acknowledged now res x) = ob_WorkspaceID x"
  "ob_IdempotencyKey (claimed owner ttl now x) = ob_IdempotencyKey x"
  "ob_IdempotencyKey (acknowledged now res x) = ob_IdempotencyKey x"
  by (auto simp: claimed_def acknowledged_def split: option.splits)

lemma claimOutboxLocked_cases:
  assumes "claimOutboxLocked env w i owner ttl now (d, r) = ((d', r'), res)" and "filed r"
  obtains (unchanged) e where "res = Inl e" and "same_view r r'"
  | (leased) x where "mget (mr_outbox r) i = Some x" and "\<not> settled x" and "\<not> leasedAt now x"
      and "res = Inr (cloneValue (re_Record env) (claimed owner ttl now x))"
      and "same_view (r\<lparr>mr_outbox := mput i (claimed owner ttl now x) (mr_outbox r)\<rparr>) r'"
proof (cases "mget (mr_outbox r) i")
  case None
  then have "((d', r'), res) = ((d, r), Inl ErrNotFound)" using assms(1) by (simp add: claimOutboxLocked_def)
  then show ?thesis using that(1) by simp
next
  case (Some x)
  then have i: "ob_ID x = i" using assms(2) by (simp add: filed_def)
  show ?thesis
  proof (cases "settled x \<or> leasedAt now x")
    case True
    then show ?thesis using assms(1) Some that(1) by (auto simp: claimOutboxLocked_def split: if_splits)
  next
    case False
    obtain d1 r1 res1 where c: "putRecord env w (claimed owner ttl now x) x (d, r) = ((d1, r1), res1)" by (rule nested_pair)
    then have res: "((d', r'), res) = ((d1, r1), case res1 of Some e \<Rightarrow> Inl e | None \<Rightarrow> Inr (cloneValue (re_Record env) (claimed owner ttl now x)))"
      using assms(1) False Some i by (simp add: claimOutboxLocked_def mget0_def split: option.splits)
    have "mget (mr_outbox r) (ob_ID (claimed owner ttl now x)) = Some x" using Some i by simp
    from c this show ?thesis
      by (cases rule: putRecord_cases) (use that res Some False i in \<open>auto split: option.splits\<close>)
  qed
qed

text \<open>An acknowledgement or a failure by the holder of the lease.\<close>

definition settledBy :: "string \<Rightarrow> int \<Rightarrow> OutboxRecord \<Rightarrow> OutboxRecord \<Rightarrow> bool" where
  "settledBy owner now x y \<longleftrightarrow> holdsLease owner now x \<and> ((\<exists>err. y = acknowledged now err x) \<or>
     (\<exists>reason. y = x\<lparr>ob_Status := ''failed'', ob_LastError := reason, ob_Owner := '''', ob_LeaseExpiresAt := 0, ob_UpdatedAt := now\<rparr>))"

lemma settledBy_sel:
  "settledBy owner now x y \<Longrightarrow> ob_ID y = ob_ID x \<and> ob_PlanID y = ob_PlanID x \<and> ob_WorkspaceID y = ob_WorkspaceID x \<and>
     ob_IdempotencyKey y = ob_IdempotencyKey x"
  by (auto simp: settledBy_def)

lemma settle_cases:
  assumes "(AckOutbox env w clock i owner now0 err (d, r) = ((d', r'), res) \<or> FailOutbox env w clock i owner now0 reason (d, r) = ((d', r'), res))"
    and "filed r"
  defines "now \<equiv> (if IsZero now0 then clock else now0)"
  obtains (unchanged) "res \<noteq> None" and "same_view r r'"
  | (settled) x y where "res = None" and "mget (mr_outbox r) (TrimSpace i) = Some x" and "settledBy owner now x y"
      and "same_view (r\<lparr>mr_outbox := mput (TrimSpace i) y (mr_outbox r)\<rparr>) r'"
proof (cases "mget (mr_outbox r) (TrimSpace i)")
  case None
  then have "\<exists>e. ((d', r'), res) = ((d, r), Some e)" using assms(1) by (auto simp: AckOutbox_def FailOutbox_def split: if_splits)
  then show ?thesis using that(1) by auto
next
  case (Some x)
  then have i: "ob_ID x = TrimSpace i" using assms(2) by (simp add: filed_def)
  consider (refused) e where "((d', r'), res) = ((d, r), Some e)" |
    (put) y where "settledBy owner now x y" "putRecord env w y x (d, r) = ((d', r'), res)"
    using assms(1) Some unfolding AckOutbox_def FailOutbox_def Let_def now_def settledBy_def
    by (auto split: if_splits)
  then show ?thesis
  proof cases
    case refused
    then show ?thesis using that(1) by simp
  next
    case put
    then have "mget (mr_outbox r) (ob_ID y) = Some x" using Some i settledBy_sel by simp
    with put(2) show ?thesis
      by (cases rule: putRecord_cases) (use that put(1) Some i settledBy_sel in auto)
  qed
qed

end
