(* ===== verification/Orch_RepoMachine.thy ===== *)
theory Orch_RepoMachine
  imports Orch_RepoSpec Transition_System
begin

text \<open>
  The repository as a state machine. \<open>runOp\<close> runs one operation against whatever the file system does; \<open>repo_step\<close> is one
  operation or one change of the files by another process. The abstract machine \<open>spec_step\<close> has one rule per kind of
  change and knows nothing of files, maps or rollbacks. Every step of the implementation is a step of it or none, so
  what holds of its runs holds of the repository.
\<close>

section \<open>Operations\<close>

datatype repo_op =
    OpSaveAgent AgentDefinition int
  | OpSaveSquad SquadDefinition int
  | OpCreatePlan RequirementExecutionPlan
  | OpCreatePlanWithEvent RequirementExecutionPlan Event
  | OpSaveProjection PlanProjection
  | OpAppendEvent Event
  | OpCommit Event PlanProjection
  | OpEnqueue int int OutboxRecord
  | OpClaim int string string int int
  | OpClaimByID int string string int int
  | OpAck int string string int "string option"
  | OpFail int string string int string
  | OpFlush
  | OpBackup string

definition resultErr :: "repo \<times> (go_error + 'a) \<Rightarrow> repo \<times> go_error option" where
  "resultErr x = (fst x, case snd x of Inl e \<Rightarrow> Some e | Inr _ \<Rightarrow> None)"

fun runOp :: "RepoEnv \<Rightarrow> io \<Rightarrow> repo_op \<Rightarrow> repo \<Rightarrow> repo \<times> go_error option" where
  "runOp env w (OpSaveAgent a n) s = SaveAgent env w a n s"
| "runOp env w (OpSaveSquad a n) s = SaveSquad env w a n s"
| "runOp env w (OpCreatePlan p) s = CreatePlan env w p s"
| "runOp env w (OpCreatePlanWithEvent p e) s = CreatePlanWithEvent env w p e s"
| "runOp env w (OpSaveProjection p) s = SaveProjection env w p s"
| "runOp env w (OpAppendEvent e) s = AppendEvent env w e s"
| "runOp env w (OpCommit e p) s = CommitEventProjection env w e p s"
| "runOp env w (OpEnqueue nano now x) s = resultErr (EnqueueOutbox env w nano now x s)"
| "runOp env w (OpClaim clock planID owner ttl now) s = resultErr (ClaimOutbox env w clock planID owner ttl now s)"
| "runOp env w (OpClaimByID clock i owner ttl now) s = resultErr (ClaimOutboxByID env w clock i owner ttl now s)"
| "runOp env w (OpAck clock i owner now err) s = AckOutbox env w clock i owner now err s"
| "runOp env w (OpFail clock i owner now reason) s = FailOutbox env w clock i owner now reason s"
| "runOp env w OpFlush s = Flush env w s"
| "runOp env w (OpBackup path) s = Backup env w path s"

section \<open>The abstract machine\<close>

text \<open>
  \<open>latest_revision\<close> of the definitions does not matter here: a revision, once published under its key, is never
  changed. A plan comes with its projection and is never changed; its log only grows and is valid at all times. An
  intent is inserted once per plan and key; its delivery is settled by the holder of its lease only.
\<close>

definition intent_free :: "OutboxRecord \<Rightarrow> repo_view \<Rightarrow> bool" where
  "intent_free x v \<longleftrightarrow> (\<forall>i y. v_outbox v i = Some y \<longrightarrow> ob_PlanID y \<noteq> ob_PlanID x \<or> ob_IdempotencyKey y \<noteq> ob_IdempotencyKey x)"

inductive spec_step :: "RepoEnv \<Rightarrow> repo_view \<Rightarrow> repo_view \<Rightarrow> bool" for env where
  publish_agent:
    "v_agents v k = None \<Longrightarrow> ValidateAgent a = None \<Longrightarrow> spec_step env v (v\<lparr>v_agents := (v_agents v)(k \<mapsto> a)\<rparr>)"
| publish_squad:
    "v_squads v k = None \<Longrightarrow> sq_Status s = SquadDraft \<or> ValidateSquad s = None \<Longrightarrow>
     spec_step env v (v\<lparr>v_squads := (v_squads v)(k \<mapsto> s)\<rparr>)"
| create_plan:
    "v_plans v (pl_ID p) = None \<Longrightarrow> NewProjection p = Inr q \<Longrightarrow> canonicalPlanHash (re_PlanHash env) p = Inr (pl_PlanHash p) \<Longrightarrow>
     ks = v_keys v \<or> (\<exists>k. (v_keys v k = None \<or> v_keys v k = Some '''' \<or> v_keys v k = Some (pl_PlanHash p)) \<and>
       ks = (v_keys v)(k \<mapsto> pl_PlanHash p)) \<Longrightarrow>
     es = [] \<or> (\<exists>e. es = [e]) \<Longrightarrow> ValidateEventChain (re_Codec env) es (pl_ID p) (pl_WorkspaceID p) = None \<Longrightarrow>
     spec_step env v (v\<lparr>v_plans := (v_plans v)(pl_ID p \<mapsto> p), v_projections := (v_projections v)(pl_ID p \<mapsto> q),
       v_keys := ks, v_log := (v_log v)(pl_ID p := es)\<rparr>)"
| release_key:
    "spec_step env v (v\<lparr>v_keys := (v_keys v)(k := None)\<rparr>)"
| append:
    "v_plans v pid = Some plan \<Longrightarrow>
     ValidateEventChain (re_Codec env) (v_log v pid @ [e]) pid (pl_WorkspaceID plan) = None \<Longrightarrow>
     spec_step env v (v\<lparr>v_log := (v_log v)(pid := v_log v pid @ [e])\<rparr>)"
| save:
    "v_plans v pid = Some plan \<Longrightarrow> ValidateProjection q = None \<Longrightarrow> p_PlanID q = pid \<Longrightarrow> p_Revision q = pl_Revision plan \<Longrightarrow>
     spec_step env v (v\<lparr>v_projections := (v_projections v)(pid \<mapsto> q)\<rparr>)"
| append_save:
    "v_plans v pid = Some plan \<Longrightarrow> ValidateProjection q = None \<Longrightarrow> p_PlanID q = pid \<Longrightarrow> p_Revision q = pl_Revision plan \<Longrightarrow>
     ValidateEventChain (re_Codec env) (v_log v pid @ [e]) pid (pl_WorkspaceID plan) = None \<Longrightarrow>
     spec_step env v (v\<lparr>v_log := (v_log v)(pid := v_log v pid @ [e]), v_projections := (v_projections v)(pid \<mapsto> q)\<rparr>)"
| enqueue:
    "v_outbox v (ob_ID x) = None \<Longrightarrow> intent_free x v \<Longrightarrow> ob_ID x \<noteq> '''' \<Longrightarrow> ob_PlanID x \<noteq> '''' \<Longrightarrow> ob_WorkspaceID x \<noteq> '''' \<Longrightarrow>
     ob_IdempotencyKey x \<noteq> '''' \<Longrightarrow> spec_step env v (v\<lparr>v_outbox := (v_outbox v)(ob_ID x \<mapsto> x)\<rparr>)"
| claim:
    "v_outbox v i = Some x \<Longrightarrow> \<not> settled x \<Longrightarrow> \<not> leasedAt now x \<Longrightarrow>
     spec_step env v (v\<lparr>v_outbox := (v_outbox v)(i \<mapsto> claimed owner ttl now x)\<rparr>)"
| settle:
    "v_outbox v i = Some x \<Longrightarrow> settledBy owner now x y \<Longrightarrow> spec_step env v (v\<lparr>v_outbox := (v_outbox v)(i \<mapsto> y)\<rparr>)"

text \<open>The invariant of the abstract machine.\<close>

definition view_inv :: "RepoEnv \<Rightarrow> repo_view \<Rightarrow> bool" where
  "view_inv env v \<longleftrightarrow>
     (\<forall>i p. v_plans v i = Some p \<longrightarrow> pl_ID p = i \<and> canonicalPlanHash (re_PlanHash env) p = Inr (pl_PlanHash p) \<and>
        (\<exists>q. v_projections v i = Some q) \<and> ValidateEventChain (re_Codec env) (v_log v i) i (pl_WorkspaceID p) = None) \<and>
     (\<forall>i q. v_projections v i = Some q \<longrightarrow> p_PlanID q = i \<and> ValidateProjection q = None) \<and>
     (\<forall>i. v_plans v i = None \<longrightarrow> v_projections v i = None \<and> v_log v i = []) \<and>
     (\<forall>i x. v_outbox v i = Some x \<longrightarrow> ob_ID x = i \<and> i \<noteq> '''' \<and> ob_PlanID x \<noteq> '''' \<and> ob_WorkspaceID x \<noteq> '''' \<and>
        ob_IdempotencyKey x \<noteq> '''') \<and>
     (\<forall>i j x y. v_outbox v i = Some x \<longrightarrow> v_outbox v j = Some y \<longrightarrow> ob_PlanID x = ob_PlanID y \<longrightarrow>
        ob_IdempotencyKey x = ob_IdempotencyKey y \<longrightarrow> i = j)"

text \<open>What only grows: definitions and plans stay as they are, logs are extended, intents keep their identity.\<close>

definition view_before :: "repo_view \<Rightarrow> repo_view \<Rightarrow> bool" where
  "view_before v u \<longleftrightarrow> v_agents v \<subseteq>\<^sub>m v_agents u \<and> v_squads v \<subseteq>\<^sub>m v_squads u \<and> v_plans v \<subseteq>\<^sub>m v_plans u \<and>
     (\<forall>i. \<exists>es. v_log u i = v_log v i @ es) \<and>
     (\<forall>i x. v_outbox v i = Some x \<longrightarrow> (\<exists>y. v_outbox u i = Some y \<and> ob_PlanID y = ob_PlanID x \<and>
        ob_IdempotencyKey y = ob_IdempotencyKey x \<and> ob_Payload y = ob_Payload x \<and> (settled x \<longrightarrow> y = x)))"

section \<open>Properties of the abstract machine\<close>

lemma NewProjection_scope:
  assumes "NewProjection p = Inr q"
  shows "p_PlanID q = pl_ID p \<and> ValidateProjection q = None"
proof -
  obtain m where "q = (emptyProjection p)\<lparr>p_Nodes := m\<rparr>" using NewProjection_Inr [OF assms] by blast
  then show ?thesis using NewProjection_Inr [OF assms] by (simp add: ValidateProjection_iff emptyProjection_def)
qed

lemma view_inv_step: "spec_step env v u \<Longrightarrow> view_inv env v \<Longrightarrow> view_inv env u"
proof (induction rule: spec_step.induct)
  case (create_plan v p q ks es)
  then have "p_PlanID q = pl_ID p \<and> ValidateProjection q = None" using NewProjection_scope by blast
  then show ?case using create_plan unfolding view_inv_def by auto
next
  case (append v pid plan e)
  then show ?case unfolding view_inv_def by auto
next
  case (save v pid plan q)
  then show ?case unfolding view_inv_def by auto
next
  case (append_save v pid plan q e)
  then show ?case unfolding view_inv_def by auto
next
  case (enqueue v x)
  then show ?case unfolding view_inv_def intent_free_def by (simp; metis)
next
  case (claim v i x now owner ttl)
  then show ?case unfolding view_inv_def by (simp; metis option.inject)
next
  case (settle v i x owner now y)
  then have "ob_ID y = ob_ID x" "ob_PlanID y = ob_PlanID x" "ob_WorkspaceID y = ob_WorkspaceID x"
    "ob_IdempotencyKey y = ob_IdempotencyKey x" using settledBy_sel by auto
  then show ?case using settle unfolding view_inv_def by (simp; metis option.inject)
qed (simp_all add: view_inv_def)

lemma view_before_refl: "view_before v v"
  by (simp add: view_before_def)

lemma view_before_trans:
  assumes "view_before v u" and "view_before u t"
  shows "view_before v t"
proof -
  have maps: "v_agents v \<subseteq>\<^sub>m v_agents t" "v_squads v \<subseteq>\<^sub>m v_squads t" "v_plans v \<subseteq>\<^sub>m v_plans t"
    using assms unfolding view_before_def by (blast intro: map_le_trans)+
  have logs: "\<exists>es. v_log t i = v_log v i @ es" for i
  proof -
    obtain es fs where "v_log u i = v_log v i @ es" "v_log t i = v_log u i @ fs"
      using assms unfolding view_before_def by metis
    then show ?thesis by simp
  qed
  have out: "\<exists>y. v_outbox t i = Some y \<and> ob_PlanID y = ob_PlanID x \<and> ob_IdempotencyKey y = ob_IdempotencyKey x \<and>
      ob_Payload y = ob_Payload x \<and> (settled x \<longrightarrow> y = x)" if o: "v_outbox v i = Some x" for i x
  proof -
    obtain y where y: "v_outbox u i = Some y" "ob_PlanID y = ob_PlanID x" "ob_IdempotencyKey y = ob_IdempotencyKey x"
      "ob_Payload y = ob_Payload x" "settled x \<longrightarrow> y = x"
      using assms(1) o unfolding view_before_def by blast
    then obtain z where z: "v_outbox t i = Some z" "ob_PlanID z = ob_PlanID y" "ob_IdempotencyKey z = ob_IdempotencyKey y"
      "ob_Payload z = ob_Payload y" "settled y \<longrightarrow> z = y"
      using assms(2) unfolding view_before_def by blast
    show ?thesis using y z by (intro exI [of _ z]) auto
  qed
  show ?thesis unfolding view_before_def using maps logs out by blast
qed

lemma record_payload [simp]:
  "ob_Payload (claimed owner ttl now x) = ob_Payload x" "ob_Payload (acknowledged now res x) = ob_Payload x"
  by (auto simp: claimed_def acknowledged_def split: option.splits)

lemma settledBy_unsettled: "settledBy owner now x y \<Longrightarrow> \<not> settled x \<and> ob_Payload y = ob_Payload x"
  by (auto simp: settledBy_def holdsLease_def leasedAt_def settled_def)

lemma map_le_fresh: "m k = None \<Longrightarrow> m \<subseteq>\<^sub>m m(k \<mapsto> x)"
  by (auto simp: map_le_def)

lemma view_before_step: "spec_step env v u \<Longrightarrow> view_inv env v \<Longrightarrow> view_before v u"
proof (induction rule: spec_step.induct)
  case (create_plan v p q ks es)
  then have "v_log v (pl_ID p) = []" by (simp add: view_inv_def)
  then show ?case using create_plan by (auto simp: view_before_def map_le_fresh)
next
  case (settle v i x owner now y)
  then show ?case using settledBy_sel [of owner now x y] settledBy_unsettled [of owner now x y] by (auto simp: view_before_def)
qed (auto simp: view_before_def map_le_fresh)

definition empty_view :: repo_view where
  "empty_view = \<lparr>v_agents = (\<lambda>_. None), v_squads = (\<lambda>_. None), v_plans = (\<lambda>_. None), v_projections = (\<lambda>_. None),
     v_keys = (\<lambda>_. None), v_log = (\<lambda>_. []), v_outbox = (\<lambda>_. None)\<rparr>"

interpretation spec: history_system "\<lambda>v. v = empty_view" "spec_step env" "view_inv env" view_before for env
proof unfold_locales
  show "view_inv env v" if "v = empty_view" for v env
    using that by (simp add: view_inv_def empty_view_def)
  show "view_inv env u" if "view_inv env v" "spec_step env v u" for v u env
    using that view_inv_step by blast
  show "view_before v v" for v by (rule view_before_refl)
  show "view_before v t" if "view_before v u" "view_before u t" for v u t
    using that by (rule view_before_trans)
  show "view_before v u" if "view_inv env v" "spec_step env v u" for v u env
    using that view_before_step by blast
qed

section \<open>Keys of definitions\<close>

lemma utoa_value: "foldl (\<lambda>m c. 10 * m + ((of_char c :: nat) - 48)) 0 (utoa n) = n"
proof (induction n rule: utoa.induct)
  case (1 n)
  show ?case
  proof (cases "n < 10")
    case True
    then show ?thesis by (simp add: utoa.simps [of n])
  next
    case False
    then show ?thesis using 1 by (simp add: utoa.simps [of n])
  qed
qed

lemma utoa_digits: "c \<in> set (utoa n) \<Longrightarrow> 48 \<le> (of_char c :: nat)"
proof (induction n rule: utoa.induct)
  case (1 n)
  show ?case
  proof (cases "n < 10")
    case True
    then show ?thesis using 1 by (simp add: utoa.simps [of n])
  next
    case False
    then show ?thesis using 1 by (auto simp: utoa.simps [of n])
  qed
qed

lemma itoa_inject: "itoa i = itoa j \<Longrightarrow> i = j"
proof -
  have inj: "utoa m = utoa n \<Longrightarrow> m = n" for m n using utoa_value by metis
  have minus: "utoa n \<noteq> CHR ''-'' # s" for n s
    using utoa_digits [of "CHR ''-''" n] by auto
  show "itoa i = itoa j \<Longrightarrow> i = j"
    using minus minus [THEN not_sym] by (auto simp: itoa_def split: if_splits dest!: inj)
qed

definition plain :: "string \<Rightarrow> bool" where
  "plain s \<longleftrightarrow> CHR '':'' \<notin> set s"

lemma append_sep_inject: "x \<notin> set xs \<Longrightarrow> x \<notin> set ys \<Longrightarrow> xs @ x # us = ys @ x # vs \<Longrightarrow> xs = ys \<and> us = vs"
proof (induction xs arbitrary: ys)
  case Nil
  then show ?case by (cases ys) auto
next
  case (Cons a xs)
  then show ?case by (cases ys) auto
qed

lemma key3_inject:
  assumes "key3 ws i n = key3 ws' i' n'" and "plain ws" "plain ws'" "plain i" "plain i'"
  shows "ws = ws' \<and> i = i' \<and> n = n'"
proof -
  have eq: "ws @ CHR '':'' # (i @ CHR '':'' # itoa n) = ws' @ CHR '':'' # (i' @ CHR '':'' # itoa n')"
    using assms(1) by (simp add: key3_def)
  then have 1: "ws = ws'" "i @ CHR '':'' # itoa n = i' @ CHR '':'' # itoa n'"
    using append_sep_inject [OF _ _ eq] assms(2,3) by (auto simp: plain_def)
  then have "i = i'" "itoa n = itoa n'" using append_sep_inject [OF _ _ 1(2)] assms(4,5) by (auto simp: plain_def)
  then show ?thesis using 1(1) itoa_inject by blast
qed

text \<open>Every stored revision is filed under the key of its workspace, ID and revision, with no colon in either name.\<close>

definition keyed :: "MemoryRepository \<Rightarrow> bool" where
  "keyed r \<longleftrightarrow>
     (\<forall>k a. mget (mr_agents r) k = Some a \<longrightarrow> k = key3 (ag_WorkspaceID a) (ag_ID a) (ag_Revision a) \<and>
        plain (ag_WorkspaceID a) \<and> plain (ag_ID a)) \<and>
     (\<forall>k s. mget (mr_squads r) k = Some s \<longrightarrow> k = key3 (sq_WorkspaceID s) (sq_ID s) (sq_Revision s) \<and>
        plain (sq_WorkspaceID s) \<and> plain (sq_ID s))"

lemma agent_key_free:
  assumes "saveAgentChecks a n r = None" and "keyed r" and "plain (ag_WorkspaceID a)" "plain (ag_ID a)"
  shows "mget (mr_agents r) (key3 (ag_WorkspaceID a) (ag_ID a) (ag_Revision a)) = None"
proof (rule ccontr)
  assume "mget (mr_agents r) (key3 (ag_WorkspaceID a) (ag_ID a) (ag_Revision a)) \<noteq> None"
  then obtain b where b: "mget (mr_agents r) (key3 (ag_WorkspaceID a) (ag_ID a) (ag_Revision a)) = Some b" by auto
  then have "ag_WorkspaceID b = ag_WorkspaceID a \<and> ag_ID b = ag_ID a \<and> ag_Revision b = ag_Revision a"
    using assms(2-4) unfolding keyed_def by (metis key3_inject)
  moreover have "b \<in> set (mvals (mr_agents r))" using b by (rule mget_in_vals)
  ultimately show False using assms(1) by (auto simp: saveAgentChecks_def Let_def check_simps list_ex_iff isRevision_def)
qed

lemma squad_key_free:
  assumes "saveSquadChecks a n r = None" and "keyed r" and "plain (sq_WorkspaceID a)" "plain (sq_ID a)"
  shows "mget (mr_squads r) (key3 (sq_WorkspaceID a) (sq_ID a) (sq_Revision a)) = None"
proof (rule ccontr)
  assume "mget (mr_squads r) (key3 (sq_WorkspaceID a) (sq_ID a) (sq_Revision a)) \<noteq> None"
  then obtain b where b: "mget (mr_squads r) (key3 (sq_WorkspaceID a) (sq_ID a) (sq_Revision a)) = Some b" by auto
  then have "sq_WorkspaceID b = sq_WorkspaceID a \<and> sq_ID b = sq_ID a \<and> sq_Revision b = sq_Revision a"
    using assms(2-4) unfolding keyed_def by (metis key3_inject)
  moreover have "b \<in> set (mvals (mr_squads r))" using b by (rule mget_in_vals)
  ultimately show False using assms(1) by (auto simp: saveSquadChecks_def Let_def check_simps list_ex_iff isRevision_def)
qed

section \<open>The implementation refines the abstract machine\<close>

definition repo_inv :: "RepoEnv \<Rightarrow> repo \<Rightarrow> bool" where
  "repo_inv env s \<longleftrightarrow> repo_wf (snd s) \<and> keyed (snd s) \<and> view_inv env (viewOf (snd s))"

text \<open>
  What the callers must respect, and the code does not check: names without a colon, projections and intents that survive
  a JSON round trip, and an ID of an intent that no intent with another plan or key uses. Without it \<open>EnqueueOutbox\<close> replaces
  the other intent (\<open>enqueue_replaces_intent\<close>), or deletes it when the write fails (\<open>failed_enqueue_deletes\<close>). The properties
  that hold for any caller are stated over \<open>any_step\<close>.
\<close>

fun op_ok :: "RepoEnv \<Rightarrow> repo_op \<Rightarrow> MemoryRepository \<Rightarrow> bool" where
  "op_ok env (OpSaveAgent a n) r = (plain (ag_WorkspaceID a) \<and> plain (ag_ID a))"
| "op_ok env (OpSaveSquad s n) r = (plain (sq_WorkspaceID s) \<and> plain (sq_ID s))"
| "op_ok env (OpSaveProjection p) r = (detachedProjection env p = p)"
| "op_ok env (OpEnqueue nano now x0) r =
     (let x = recordDefaults nano now (trimmedRecord x0) in
      cloneValue (re_Record env) x = x \<and>
      (case mget (mr_outbox r) (ob_ID x) of
         None \<Rightarrow> True
       | Some y \<Rightarrow> ob_PlanID y = ob_PlanID x \<and> ob_IdempotencyKey y = ob_IdempotencyKey x))"
| "op_ok env op r = True"

inductive repo_step :: "RepoEnv \<Rightarrow> repo \<Rightarrow> repo \<Rightarrow> bool" for env where
  operation: "op_ok env op (snd s) \<Longrightarrow> repo_step env s (fst (runOp env w op s))"
| other_process: "repo_step env (d, r) (d', r)"

definition simulates :: "RepoEnv \<Rightarrow> MemoryRepository \<Rightarrow> MemoryRepository \<Rightarrow> bool" where
  "simulates env r r' \<longleftrightarrow> repo_wf r' \<and> keyed r' \<and> (viewOf r' = viewOf r \<or> spec_step env (viewOf r) (viewOf r'))"

lemma same_view_keyed: "same_view r r' \<Longrightarrow> keyed r' \<longleftrightarrow> keyed r"
  by (simp add: same_view_def viewOf_def keyed_def)

lemma simulates_same: "same_view r r' \<Longrightarrow> repo_wf r \<Longrightarrow> keyed r \<Longrightarrow> simulates env r r'"
  by (simp add: simulates_def same_view_keyed) (simp add: same_view_def)

lemma simulates_step:
  assumes "same_view r1 r'" and "repo_wf r1" and "keyed r1" and "spec_step env (viewOf r) (viewOf r1)"
  shows "simulates env r r'"
  using assms by (simp add: simulates_def same_view_keyed) (simp add: same_view_def)

lemma viewOf_upd:
  "viewOf (r\<lparr>mr_agents := mput k a (mr_agents r)\<rparr>) = (viewOf r)\<lparr>v_agents := (v_agents (viewOf r))(k \<mapsto> a)\<rparr>"
  "viewOf (r\<lparr>mr_squads := mput k s (mr_squads r)\<rparr>) = (viewOf r)\<lparr>v_squads := (v_squads (viewOf r))(k \<mapsto> s)\<rparr>"
  "viewOf (r\<lparr>mr_projections := mput k q (mr_projections r)\<rparr>) = (viewOf r)\<lparr>v_projections := (v_projections (viewOf r))(k \<mapsto> q)\<rparr>"
  "viewOf (r\<lparr>mr_outbox := mput k x (mr_outbox r)\<rparr>) = (viewOf r)\<lparr>v_outbox := (v_outbox (viewOf r))(k \<mapsto> x)\<rparr>"
  "viewOf (r\<lparr>mr_keys := mdel k (mr_keys r)\<rparr>) = (viewOf r)\<lparr>v_keys := (v_keys (viewOf r))(k := None)\<rparr>"
  by (simp_all add: viewOf_def fun_eq_iff)

lemma viewOf_sel [simp]:
  "v_agents (viewOf r) = mget (mr_agents r)" "v_squads (viewOf r) = mget (mr_squads r)" "v_plans (viewOf r) = mget (mr_plans r)"
  "v_projections (viewOf r) = mget (mr_projections r)" "v_keys (viewOf r) = mget (mr_keys r)"
  "v_log (viewOf r) = mget0 [] (mr_events r)" "v_outbox (viewOf r) = mget (mr_outbox r)"
  by (simp_all add: viewOf_def)

lemma viewOf_logged:
  "viewOf (logged env e r) = (viewOf r)\<lparr>v_log := (v_log (viewOf r))(ev_PlanID e :=
     v_log (viewOf r) (ev_PlanID e) @ [placeEvent (re_Codec env) (v_log (viewOf r) (ev_PlanID e)) e])\<rparr>"
  using logged_log [of env e r] by (simp add: viewOf_def)

lemma sim_SaveAgent:
  assumes "SaveAgent env w a n (d, r) = ((d', r'), res)" and "repo_wf r" "keyed r" "plain (ag_WorkspaceID a)" "plain (ag_ID a)"
  shows "simulates env r r'"
  using assms(1)
proof (cases rule: SaveAgent_cases)
  case refused
  then show ?thesis using assms simulates_same same_contents_same_view by blast
next
  case saved
  let ?k = "key3 (ag_WorkspaceID a) (ag_ID a) (ag_Revision a)"
  have free: "mget (mr_agents r) ?k = None" using agent_key_free saved(2) assms(3-5) by blast
  have valid: "ValidateAgent a = None" using saved(2) by (simp add: saveAgentChecks_def Let_def check_simps)
  show ?thesis
  proof (rule simulates_step [OF same_contents_same_view [OF saved(3)]])
    show "repo_wf (r\<lparr>mr_agents := mput ?k a (mr_agents r)\<rparr>)" using assms(2) by (simp add: repo_wf_def)
    show "keyed (r\<lparr>mr_agents := mput ?k a (mr_agents r)\<rparr>)" using assms(3-5) by (simp add: keyed_def)
    show "spec_step env (viewOf r) (viewOf (r\<lparr>mr_agents := mput ?k a (mr_agents r)\<rparr>))"
      unfolding viewOf_upd by (rule publish_agent) (use free valid in simp_all)
  qed
qed

lemma sim_SaveSquad:
  assumes "SaveSquad env w a n (d, r) = ((d', r'), res)" and "repo_wf r" "keyed r" "plain (sq_WorkspaceID a)" "plain (sq_ID a)"
  shows "simulates env r r'"
  using assms(1)
proof (cases rule: SaveSquad_cases)
  case refused
  then show ?thesis using assms simulates_same same_contents_same_view by blast
next
  case saved
  let ?k = "key3 (sq_WorkspaceID a) (sq_ID a) (sq_Revision a)"
  have free: "mget (mr_squads r) ?k = None" using squad_key_free saved(2) assms(3-5) by blast
  have valid: "sq_Status a = SquadDraft \<or> ValidateSquad a = None"
    using saved(2) by (auto simp: saveSquadChecks_def Let_def check_simps split: if_splits)
  show ?thesis
  proof (rule simulates_step [OF same_contents_same_view [OF saved(3)]])
    show "repo_wf (r\<lparr>mr_squads := mput ?k a (mr_squads r)\<rparr>)" using assms(2) by (simp add: repo_wf_def)
    show "keyed (r\<lparr>mr_squads := mput ?k a (mr_squads r)\<rparr>)" using assms(3-5) by (simp add: keyed_def)
    show "spec_step env (viewOf r) (viewOf (r\<lparr>mr_squads := mput ?k a (mr_squads r)\<rparr>))"
      unfolding viewOf_upd by (rule publish_squad) (use free valid in simp_all)
  qed
qed

lemma planChecks_Inr:
  "planChecks env p = Inr q \<Longrightarrow> NewProjection p = Inr q \<and> canonicalPlanHash (re_PlanHash env) p = Inr (pl_PlanHash p)"
  unfolding planChecks_def by (simp add: case_err_Inr check_simps)

definition planKeys :: "RequirementExecutionPlan \<Rightarrow> (string \<Rightarrow> string option) \<Rightarrow> string \<Rightarrow> string option" where
  "planKeys p ks = (if pl_IdempotencyKey p = '''' then ks else ks(planKey p \<mapsto> pl_PlanHash p))"

lemma viewOf_planned:
  "viewOf (planned p q r) = (viewOf r)\<lparr>v_plans := (v_plans (viewOf r))(pl_ID p \<mapsto> p),
     v_projections := (v_projections (viewOf r))(pl_ID p \<mapsto> q), v_keys := planKeys p (v_keys (viewOf r))\<rparr>"
  by (simp add: viewOf_def withPlan_def withPlanKey_def planKeys_def fun_eq_iff)

lemma keyed_planned [simp]: "keyed (planned p q r) \<longleftrightarrow> keyed r"
  by (simp add: keyed_def)

lemma keyed_logged [simp]: "keyed (logged env e r) \<longleftrightarrow> keyed r"
  by (simp add: keyed_def)

lemma planKeys_ok:
  assumes "pl_IdempotencyKey p = '''' \<or> mget0 '''' (mr_keys r) (planKey p) \<in> {'''', pl_PlanHash p}"
  shows "planKeys p (mget (mr_keys r)) = mget (mr_keys r) \<or> (\<exists>k. (mget (mr_keys r) k = None \<or> mget (mr_keys r) k = Some '''' \<or>
     mget (mr_keys r) k = Some (pl_PlanHash p)) \<and> planKeys p (mget (mr_keys r)) = (mget (mr_keys r))(k \<mapsto> pl_PlanHash p))"
  using assms by (auto simp: planKeys_def mget0_def split: option.splits)

lemma spec_planned:
  assumes "view_inv env (viewOf r)" and "planChecks env p = Inr q" and "mget (mr_plans r) (pl_ID p) = None"
    and "pl_IdempotencyKey p = '''' \<or> mget0 '''' (mr_keys r) (planKey p) \<in> {'''', pl_PlanHash p}"
    and "es = [] \<or> (\<exists>e. es = [e])" and "ValidateEventChain (re_Codec env) es (pl_ID p) (pl_WorkspaceID p) = None"
  shows "spec_step env (viewOf r) ((viewOf (planned p q r))\<lparr>v_log := (v_log (viewOf r))(pl_ID p := es)\<rparr>)"
  unfolding viewOf_planned
  using create_plan [of "viewOf r" p q env "planKeys p (v_keys (viewOf r))" es] planChecks_Inr [OF assms(2)] assms(3,5,6)
    planKeys_ok [OF assms(4)] by simp

lemma sim_CreatePlan:
  assumes "CreatePlan env w p (d, r) = ((d', r'), res)" and "repo_wf r" "keyed r" "view_inv env (viewOf r)"
  shows "simulates env r r'"
  using assms(1)
proof (cases rule: CreatePlan_cases)
  case unchanged
  then show ?thesis using assms simulates_same same_contents_same_view by blast
next
  case (created q)
  have "mget0 [] (mr_events r) (pl_ID p) = []" using assms(4) created(3) by (simp add: view_inv_def)
  then have "(viewOf (planned p q r))\<lparr>v_log := (v_log (viewOf r))(pl_ID p := [])\<rparr> = viewOf (planned p q r)"
    by (simp add: viewOf_planned fun_upd_idem)
  moreover have "spec_step env (viewOf r) ((viewOf (planned p q r))\<lparr>v_log := (v_log (viewOf r))(pl_ID p := [])\<rparr>)"
    by (rule spec_planned) (use assms(4) created in \<open>auto simp: ValidateEventChain_def\<close>)
  ultimately show ?thesis
    using simulates_step [OF same_contents_same_view [OF created(5)]] assms(2,3) by simp
qed

lemma spec_logged:
  assumes "event_accepted env e r"
  shows "spec_step env (viewOf r) (viewOf (logged env e r))"
proof -
  obtain plan where "mget (mr_plans r) (ev_PlanID e) = Some plan" "ev_WorkspaceID e = pl_WorkspaceID plan"
    using assms by (auto simp: event_accepted_def Let_def)
  then show ?thesis unfolding viewOf_logged
    by (intro append) (use assms in \<open>auto simp: event_accepted_def Let_def\<close>)
qed

lemma sim_CreatePlanWithEvent:
  assumes "CreatePlanWithEvent env w p e0 (d, r) = ((d', r'), res)" and "repo_wf r" "keyed r" "view_inv env (viewOf r)"
  shows "simulates env r r'"
proof -
  have sc: "scoped r" using assms(4) by (simp add: scoped_def view_inv_def)
  let ?e = "planEvent env p e0"
  from assms(1,2) sc show ?thesis
  proof (cases rule: CreatePlanWithEvent_cases)
    case unchanged
    then show ?thesis using assms simulates_same by blast
  next
    case appended
    then show ?thesis using simulates_step [OF appended(3)] spec_logged assms(2,3) by simp
  next
    case (created q)
    have none: "mget0 [] (mr_events r) (pl_ID p) = []" using sc created(3) by (simp add: scoped_def)
    let ?e1 = "placeEvent (re_Codec env) [] ?e"
    have chain: "ValidateEventChain (re_Codec env) [?e1] (pl_ID p) (pl_WorkspaceID p) = None"
      using created(5,6) none by (auto simp: event_accepted_def Let_def)
    have "spec_step env (viewOf r) ((viewOf (planned p q r))\<lparr>v_log := (v_log (viewOf r))(pl_ID p := [?e1])\<rparr>)"
      by (rule spec_planned) (use assms(4) created chain in auto)
    moreover have "viewOf (logged env ?e (planned p q r)) = (viewOf (planned p q r))\<lparr>v_log := (v_log (viewOf r))(pl_ID p := [?e1])\<rparr>"
      using none created(5) by (simp add: viewOf_logged)
    ultimately show ?thesis using simulates_step [OF created(7)] assms(2,3) by simp
  next
    case dropped
    show ?thesis
    proof (cases "pl_IdempotencyKey p = ''''")
      case True
      then show ?thesis using dropped(3) assms simulates_same by (simp add: withoutPlanKey_def)
    next
      case False
      then have v: "same_view (r\<lparr>mr_keys := mdel (planKey p) (mr_keys r)\<rparr>) r'" using dropped(3) by (simp add: withoutPlanKey_def)
      show ?thesis
        by (rule simulates_step [OF v])
          (use assms(2,3) release_key [of env "viewOf r" "planKey p"] in \<open>simp_all add: repo_wf_def keyed_def viewOf_upd\<close>)
    qed
  qed
qed

lemma sim_SaveProjection:
  assumes "SaveProjection env w p (d, r) = ((d', r'), res)" and "repo_wf r" "keyed r" "detachedProjection env p = p"
  shows "simulates env r r'"
  using assms(1)
proof (cases rule: SaveProjection_cases)
  case refused
  then show ?thesis using assms simulates_same by blast
next
  case saved
  then obtain plan where "mget (mr_plans r) (p_PlanID p) = Some plan" "p_Revision p = pl_Revision plan" "ValidateProjection p = None"
    by (auto simp: saveProjectionChecks_def check_simps split: option.splits)
  then have "spec_step env (viewOf r) (viewOf (r\<lparr>mr_projections := mput (p_PlanID p) p (mr_projections r)\<rparr>))"
    unfolding viewOf_upd by (intro save) simp_all
  then show ?thesis using simulates_step [OF saved(3)] assms(2-4) by (simp add: repo_wf_def keyed_def)
qed

lemma sim_AppendEvent:
  assumes "AppendEvent env w e (d, r) = ((d', r'), res)" and "repo_wf r" "keyed r"
  shows "simulates env r r'"
  using assms(1)
proof (cases rule: AppendEvent_cases)
  case unchanged
  then show ?thesis using assms simulates_same by blast
next
  case appended
  then show ?thesis using simulates_step [OF appended(3)] spec_logged assms(2,3) by simp
qed

lemma sim_Commit:
  assumes "CommitEventProjection env w e p (d, r) = ((d', r'), res)" and "repo_wf r" "keyed r"
  shows "simulates env r r'"
  using assms(1)
proof (cases rule: CommitEventProjection_cases)
  case refused
  then show ?thesis using assms simulates_same by blast
next
  case (replayed old)
  then obtain plan where "mget (mr_plans r) (p_PlanID p) = Some plan" "p_Revision p = pl_Revision plan" "ValidateProjection p = None"
    by (auto simp: commitChecks_def check_simps split: option.splits)
  then have "spec_step env (viewOf r) (viewOf (r\<lparr>mr_projections := mput (p_PlanID p) p (mr_projections r)\<rparr>))"
    unfolding viewOf_upd by (intro save) simp_all
  then show ?thesis using simulates_step [OF replayed(6)] assms(2,3) by (simp add: repo_wf_def keyed_def)
next
  case committed
  let ?r1 = "(logged env e r)\<lparr>mr_projections := mput (p_PlanID p) p (mr_projections r)\<rparr>"
  obtain plan where plan: "mget (mr_plans r) (p_PlanID p) = Some plan" "p_Revision p = pl_Revision plan" "ValidateProjection p = None"
    "ev_PlanID e = p_PlanID p" "ev_WorkspaceID e = pl_WorkspaceID plan"
    using committed(2) by (auto simp: commitChecks_def check_simps split: option.splits)
  have "viewOf ?r1 = (viewOf (logged env e r))\<lparr>v_projections := (v_projections (viewOf r))(p_PlanID p \<mapsto> p)\<rparr>"
    by (simp add: viewOf_def fun_eq_iff)
  then have "spec_step env (viewOf r) (viewOf ?r1)"
    using append_save [of "viewOf r" "p_PlanID p" plan p env "placeEvent (re_Codec env) (mget0 [] (mr_events r) (ev_PlanID e)) e"]
      plan committed(3) by (simp add: viewOf_logged event_accepted_def Let_def)
  then show ?thesis using simulates_step [OF committed(4)] assms(2,3) by (simp add: repo_wf_def keyed_def)
qed

lemma sim_Enqueue:
  assumes "EnqueueOutbox env w nano now x0 (d, r) = ((d', r'), res)" and "repo_wf r" "keyed r"
    and "op_ok env (OpEnqueue nano now x0) r"
  shows "simulates env r r'"
proof -
  let ?x = "recordDefaults nano now (trimmedRecord x0)"
  have clone: "cloneValue (re_Record env) ?x = ?x" using assms(4) by (simp add: Let_def)
  have free: "mget (mr_outbox r) (ob_ID ?x) = None" if "new_intent ?x r"
  proof (cases "mget (mr_outbox r) (ob_ID ?x)")
    case (Some y)
    then have "ob_PlanID y = ob_PlanID ?x" "ob_IdempotencyKey y = ob_IdempotencyKey ?x" using assms(4) by (auto simp: Let_def)
    then show ?thesis using that mget_in_vals [OF Some] unfolding new_intent_def by blast
  qed
  from assms(1) show ?thesis
  proof (cases rule: EnqueueOutbox_cases)
    case unchanged
    then show ?thesis using assms simulates_same by blast
  next
    case enqueued
    have "intent_free ?x (viewOf r)" using enqueued(2) by (auto simp: new_intent_def intent_free_def dest!: mget_in_vals)
    then have "spec_step env (viewOf r) (viewOf (r\<lparr>mr_outbox := mput (ob_ID ?x) ?x (mr_outbox r)\<rparr>))"
      unfolding viewOf_upd by (intro enqueue) (use free enqueued in simp_all)
    then show ?thesis using simulates_step [OF enqueued(6)] assms(2,3) clone by (simp add: repo_wf_def keyed_def)
  next
    case removed
    then show ?thesis using free by simp
  qed
qed

lemma sim_claim:
  assumes "claimOutboxLocked env w i owner ttl now (d, r) = ((d', r'), res)" and "repo_wf r" "keyed r" "filed r"
  shows "simulates env r r'"
  using assms(1,4)
proof (cases rule: claimOutboxLocked_cases)
  case unchanged
  then show ?thesis using assms simulates_same by blast
next
  case (leased x)
  then have "spec_step env (viewOf r) (viewOf (r\<lparr>mr_outbox := mput i (claimed owner ttl now x) (mr_outbox r)\<rparr>))"
    unfolding viewOf_upd by (intro claim) simp_all
  then show ?thesis using simulates_step [OF leased(5)] assms(2,3) by (simp add: repo_wf_def keyed_def)
qed

lemma sim_settle:
  assumes "AckOutbox env w clock i owner now err (d, r) = ((d', r'), res) \<or> FailOutbox env w clock i owner now reason (d, r) = ((d', r'), res)"
    and "repo_wf r" "keyed r" "filed r"
  shows "simulates env r r'"
  using assms(1,4)
proof (cases rule: settle_cases)
  case unchanged
  then show ?thesis using assms simulates_same by blast
next
  case (settled x y)
  have "spec_step env (viewOf r) (viewOf (r\<lparr>mr_outbox := mput (TrimSpace i) y (mr_outbox r)\<rparr>))"
    unfolding viewOf_upd by (rule settle [OF _ settled(3)]) (use settled(2) in simp)
  then show ?thesis using simulates_step [OF settled(4)] assms(2,3) by (simp add: repo_wf_def keyed_def)
qed

lemma resultErr_obtain: "resultErr f = (s, res) \<Longrightarrow> \<exists>z. f = (s, z)"
  by (cases f) (auto simp: resultErr_def)

lemma sim_op:
  assumes "runOp env w op (d, r) = ((d', r'), res)" and "op_ok env op r" and "repo_wf r" "keyed r" "view_inv env (viewOf r)"
  shows "simulates env r r'"
proof -
  have fl: "filed r" using assms(5) by (simp add: filed_def view_inv_def)
  have refl: "simulates env r r" using assms simulates_same by simp
  show ?thesis
  proof (cases op)
    case (OpEnqueue nano now x)
    then obtain z where "EnqueueOutbox env w nano now x (d, r) = ((d', r'), z)" using assms(1) resultErr_obtain by fastforce
    then show ?thesis using assms(2-4) OpEnqueue sim_Enqueue by blast
  next
    case (OpClaim clock planID owner ttl now)
    then obtain z where "ClaimOutbox env w clock planID owner ttl now (d, r) = ((d', r'), z)"
      using assms(1) resultErr_obtain by fastforce
    then show ?thesis using refl sim_claim assms(3,4) fl by (auto simp: ClaimOutbox_def Let_def split: if_splits)
  next
    case (OpClaimByID clock i owner ttl now)
    then obtain z where "ClaimOutboxByID env w clock i owner ttl now (d, r) = ((d', r'), z)"
      using assms(1) resultErr_obtain by fastforce
    then show ?thesis using refl sim_claim assms(3,4) fl by (auto simp: ClaimOutboxByID_def Let_def split: if_splits)
  next
    case OpFlush
    then have "persistLocked env w (d, r) = ((d', r'), res)" using assms by (simp add: Flush_def)
    then show ?thesis using assms(3,4) simulates_same same_contents_same_view by (cases rule: persistLocked_cases) (auto intro: refl)
  next
    case (OpBackup path)
    then show ?thesis using assms refl by (auto simp: Backup_def Let_def split: if_splits prod.splits)
  qed (use assms fl sim_SaveAgent sim_SaveSquad sim_CreatePlan sim_CreatePlanWithEvent sim_SaveProjection sim_AppendEvent
      sim_Commit sim_settle [OF disjI1] sim_settle [OF disjI2] in auto)
qed

lemma simulates_inv: "simulates env r r' \<Longrightarrow> repo_inv env (d, r) \<Longrightarrow> repo_inv env (d', r')"
  using view_inv_step by (auto simp: simulates_def repo_inv_def)

lemma repo_step_sim: "repo_step env s t \<Longrightarrow> repo_inv env s \<Longrightarrow> simulates env (snd s) (snd t)"
proof (induction rule: repo_step.induct)
  case (operation op s w)
  obtain d r where s: "s = (d, r)" by (cases s)
  obtain d' r' res where "runOp env w op s = ((d', r'), res)" by (rule nested_pair)
  then show ?case using sim_op operation s by (auto simp: repo_inv_def)
next
  case (other_process d r d')
  then show ?case using simulates_same [of r r env] by (simp add: repo_inv_def)
qed

interpretation repository: refinement "repo_step env" "repo_inv env" "\<lambda>s. viewOf (snd s)" "spec_step env" for env
proof unfold_locales
  show "repo_inv env t" if "repo_inv env s" "repo_step env s t" for s t env
    using that repo_step_sim simulates_inv [of env "snd s" "snd t" "fst s" "fst t"] by simp
  show "viewOf (snd t) = viewOf (snd s) \<or> spec_step env (viewOf (snd s)) (viewOf (snd t))" if "repo_inv env s" "repo_step env s t" for s t env
    using that repo_step_sim by (auto simp: simulates_def)
qed

lemma new_repo_inv: "repo_inv env (d, newMemoryRepository path)"
  by (simp add: repo_inv_def repo_wf_def keyed_def view_inv_def newMemoryRepository_def mget0_def)

lemma new_repo_view: "viewOf (newMemoryRepository path) = empty_view"
  by (simp add: viewOf_def newMemoryRepository_def empty_view_def mget0_def fun_eq_iff)

lemma reachable_inv: "(repo_step env)\<^sup>*\<^sup>* (d, newMemoryRepository path) s \<Longrightarrow> repo_inv env s"
  using repository.sim_run new_repo_inv by blast

section \<open>A reachable repository can be restarted\<close>

lemma checkPlans_None:
  "checkPlans env m = None \<longleftrightarrow> mall (\<lambda>i p. pl_ID p = i \<and> canonicalPlanHash (re_PlanHash env) p = Inr (pl_PlanHash p)) m"
  unfolding checkPlans_def check_entries by (simp add: mall_def check_simps)

lemma checkProjections_None:
  "checkProjections m = None \<longleftrightarrow> mall (\<lambda>i p. p_PlanID p = i \<and> ValidateProjection p = None) m"
  unfolding checkProjections_def check_entries by (simp add: mall_def check_simps)

lemma checkChains_None:
  "checkChains env m = None \<longleftrightarrow>
     mall (\<lambda>i es. es = [] \<or> ValidateEventChain (re_Codec env) es i (ev_WorkspaceID (hd es)) = None) m"
  unfolding checkChains_def check_entries by (auto simp: mall_def)

lemma checkOutbox_None:
  "checkOutbox m = None \<longleftrightarrow> mall (\<lambda>i x. i \<noteq> '''' \<and> ob_ID x = i \<and> ob_PlanID x \<noteq> '''' \<and> ob_WorkspaceID x \<noteq> '''' \<and>
     ob_IdempotencyKey x \<noteq> '''') m"
  unfolding checkOutbox_def check_entries by (auto simp: mall_def check_simps)

lemma chain_workspace: "ValidateEventChain cd es pid ws = None \<Longrightarrow> es \<noteq> [] \<Longrightarrow> ev_WorkspaceID (hd es) = ws"
  by (cases es) (auto simp: ValidateEventChain_def checkEvent_None split: option.splits)

lemma inv_checks:
  assumes "repo_inv env (d, r)"
  shows "checkPlans env (mr_plans r) = None" "checkProjections (mr_projections r) = None" "checkChains env (mr_events r) = None"
    "checkOutbox (mr_outbox r) = None"
proof -
  have wf: "mwf (mr_plans r)" "mwf (mr_projections r)" "mwf (mr_events r)" "mwf (mr_outbox r)"
    using assms by (auto simp: repo_inv_def repo_wf_def)
  have inv: "view_inv env (viewOf r)" using assms by (simp add: repo_inv_def)
  show "checkPlans env (mr_plans r) = None" "checkProjections (mr_projections r) = None" "checkOutbox (mr_outbox r) = None"
    using inv unfolding checkPlans_None checkProjections_None checkOutbox_None mall_iff [OF wf(1)] mall_iff [OF wf(2)]
      mall_iff [OF wf(4)] by (auto simp: view_inv_def)
  have "es = [] \<or> ValidateEventChain (re_Codec env) es i (ev_WorkspaceID (hd es)) = None" if "mget (mr_events r) i = Some es" for i es
  proof (cases "mget (mr_plans r) i")
    case None
    then have "mget0 [] (mr_events r) i = []" using inv by (simp add: view_inv_def)
    then show ?thesis using that by (simp add: mget0_def)
  next
    case (Some p)
    then have "ValidateEventChain (re_Codec env) (mget0 [] (mr_events r) i) i (pl_WorkspaceID p) = None"
      using inv by (simp add: view_inv_def)
    then have "ValidateEventChain (re_Codec env) es i (pl_WorkspaceID p) = None" using that by (simp add: mget0_def)
    then show ?thesis using chain_workspace by metis
  qed
  then show "checkChains env (mr_events r) = None" unfolding checkChains_None mall_iff [OF wf(3)] by blast
qed

section \<open>An example repository\<close>

text \<open>An environment whose encoders leave values as they are; the snapshot that decoding returns is a parameter.\<close>

definition noJSON :: "'a json" where
  "noJSON = (\<lambda>_. None, \<lambda>_. None)"

definition exEnv :: "persistedRepository \<Rightarrow> RepoEnv" where
  "exEnv st = \<lparr>re_Codec = exCodec, re_PlanHash = (\<lambda>_. Inr ''h''), re_Marshal = (\<lambda>st. Inr (''rev '' @ itoa (sn_Revision st))),
     re_Unmarshal = (\<lambda>_. Inr st), re_Agents = noJSON, re_Squads = noJSON, re_Plans = noJSON, re_Projections = noJSON,
     re_Keys = noJSON, re_Events = noJSON, re_Outbox = noJSON, re_Agent = noJSON, re_Squad = noJSON, re_Plan = noJSON,
     re_Node = noJSON, re_Attempt = noJSON, re_Decisions = noJSON, re_Event = noJSON, re_Record = noJSON,
     re_Payload = (\<lambda>_. Some '''')\<rparr>"

definition exEnv0 :: RepoEnv where
  "exEnv0 = exEnv (snapshotOf 0 (newMemoryRepository ''''))"

text \<open>The repository after the example plan was created and its first event was appended, with a state file.\<close>

definition exPlanned :: repo where
  "exPlanned = fst (CreatePlanWithEvent exEnv0 IODone exPlan exStarted ([], newMemoryRepository ''/s''))"

lemma exPlanned_reachable: "(repo_step exEnv0)\<^sup>*\<^sup>* ([], newMemoryRepository ''/s'') exPlanned"
  using operation [of exEnv0 "OpCreatePlanWithEvent exPlan exStarted" "([], newMemoryRepository ''/s'')" IODone]
  by (auto simp: exPlanned_def)

section \<open>Properties\<close>

text \<open>
  C3: The repository refines its specification. Whatever sequence of operations, failing writes and changes of the
  state file by other processes leads to a repository, its view is reached by the abstract machine: definitions and
  plans are published once under a free key, plans come with a validated projection, events are only appended to
  valid chains, an intent is inserted once and settled by the holder of its lease. A write that fails half way is no
  step, or at most releases an idempotency key. Callers respect \<open>op_ok\<close>: names without a colon, values that survive
  a JSON round trip, and an ID for a new intent that no other intent uses. \<open>Restore\<close> is no step: it replaces all state by a
  backup. \<open>ImportDefinitionBundle\<close> is none either; what it does to the definitions is stated in \<open>Orch_Bundle\<close>.
\<close>

theorem repository_refines:
  assumes "(repo_step env)\<^sup>*\<^sup>* (d, newMemoryRepository path) s"
  shows "(spec_step env)\<^sup>*\<^sup>* empty_view (viewOf (snd s))"
  using repository.sim_run [OF assms new_repo_inv] by (simp add: new_repo_view)

theorem repository_refines_witness:
  "(spec_step exEnv0)\<^sup>*\<^sup>* empty_view (viewOf (snd exPlanned)) \<and> map_option pl_ID (v_plans (viewOf (snd exPlanned)) ''p1'') = Some ''p1'' \<and>
     length (v_log (viewOf (snd exPlanned)) ''p1'') = 1"
proof (intro conjI)
  show "(spec_step exEnv0)\<^sup>*\<^sup>* empty_view (viewOf (snd exPlanned))" by (rule repository_refines [OF exPlanned_reachable])
  show "map_option pl_ID (v_plans (viewOf (snd exPlanned)) ''p1'') = Some ''p1''" unfolding viewOf_sel by code_simp
  show "length (v_log (viewOf (snd exPlanned)) ''p1'') = 1" unfolding viewOf_sel by code_simp
qed

text \<open>
  C30: Every reachable repository can be restarted. The snapshot of a repository reached by any operations and failures
  passes the validation of a restart and of a restore: plan hashes, projections, event chains and intents are
  consistent, and every plan has a projection.
\<close>

theorem reachable_snapshot_valid:
  assumes "(repo_step env)\<^sup>*\<^sup>* (d, newMemoryRepository path) (d', r)"
  shows "validateRepositoryState env (snapshotOf n r) = None \<and> set (mkeys (mr_plans r)) = set (mkeys (mr_projections r))"
proof
  have inv: "repo_inv env (d', r)" using reachable_inv [OF assms] .
  show "validateRepositoryState env (snapshotOf n r) = None"
    using inv_checks [OF inv] by (simp add: validateRepositoryState_def snapshotOf_def check_simps)
  have "mget (mr_plans r) i = None \<longleftrightarrow> mget (mr_projections r) i = None" for i
    using inv by (cases "mget (mr_plans r) i") (auto simp: repo_inv_def view_inv_def)
  then show "set (mkeys (mr_plans r)) = set (mkeys (mr_projections r))" by (auto simp: mkeys_mget simp del: set_map)
qed

theorem reachable_snapshot_valid_witness:
  "validateRepositoryState exEnv0 (snapshotOf 7 (snd exPlanned)) = None \<and> set (mkeys (mr_plans (snd exPlanned))) = {''p1''}"
proof -
  have "(repo_step exEnv0)\<^sup>*\<^sup>* ([], newMemoryRepository ''/s'') (fst exPlanned, snd exPlanned)" using exPlanned_reachable by simp
  from reachable_snapshot_valid [OF this, of 7]
  have "validateRepositoryState exEnv0 (snapshotOf 7 (snd exPlanned)) = None" by blast
  moreover have "mkeys (mr_plans (snd exPlanned)) = [''p1'']" by code_simp
  ultimately show ?thesis by simp
qed

end
