(* ===== verification/Orch_RepoProps.thy ===== *)
theory Orch_RepoProps
  imports Orch_RepoMachine
begin

text \<open>
  Failure and durability of the repository's operations: what is kept of the history, whoever the callers are, and what more
  when they keep to \<open>op_ok\<close>; a failed operation changes nothing a client can see, a
  successful one is in the state file when it returns, and a restart from that file gives the same repository. Then
  the properties of the outbox: exclusive leases, and that a waiting intent can always be claimed.
\<close>

section \<open>Any caller\<close>

text \<open>
  The repository under callers that respect nothing: names with colons, IDs of intents that are in use, projections that
  do not survive JSON. Only the ID of a new intent must survive the JSON round trip, which it does when it is valid
  UTF-8. What is kept then: maps are well formed, intents are filed under their IDs, projections and logs belong to plans.
\<close>

definition newID :: "int \<Rightarrow> int \<Rightarrow> OutboxRecord \<Rightarrow> string" where
  "newID nano now x = ob_ID (recordDefaults nano now (trimmedRecord x))"

fun id_stable :: "RepoEnv \<Rightarrow> repo_op \<Rightarrow> bool" where
  "id_stable env (OpEnqueue nano now x) \<longleftrightarrow> ob_ID (cloneValue (re_Record env) (recordDefaults nano now (trimmedRecord x))) = newID nano now x"
| "id_stable env op \<longleftrightarrow> True"

inductive any_step :: "RepoEnv \<Rightarrow> repo \<Rightarrow> repo \<Rightarrow> bool" for env where
  any_operation: "id_stable env op \<Longrightarrow> any_step env s (fst (runOp env w op s))"
| any_process: "any_step env (d, r) (d', r)"

definition stored_ok :: "MemoryRepository \<Rightarrow> bool" where
  "stored_ok r \<longleftrightarrow> repo_wf r \<and> filed r \<and> scoped r"

text \<open>What every change keeps: the stored plans, and the logs up to what is appended.\<close>

definition keeps :: "MemoryRepository \<Rightarrow> MemoryRepository \<Rightarrow> bool" where
  "keeps r r' \<longleftrightarrow> stored_ok r' \<and> mget (mr_plans r) \<subseteq>\<^sub>m mget (mr_plans r') \<and>
     (\<forall>i. \<exists>es. mget0 [] (mr_events r') i = mget0 [] (mr_events r) i @ es)"

lemma keeps_refl: "stored_ok r \<Longrightarrow> keeps r r"
  by (simp add: keeps_def)

lemma keeps_stored: "keeps r r' \<Longrightarrow> stored_ok r'"
  by (simp add: keeps_def)

lemma keeps_trans: "keeps r r1 \<Longrightarrow> keeps r1 r2 \<Longrightarrow> keeps r r2"
  unfolding keeps_def by (metis append_assoc map_le_trans)

lemma keeps_view: "keeps r r1 \<Longrightarrow> same_view r1 r' \<Longrightarrow> keeps r r'"
  by (simp add: keeps_def same_view_def stored_ok_def filed_def scoped_def viewOf_def fun_eq_iff)

lemma keeps_same: "stored_ok r \<Longrightarrow> same_view r r' \<Longrightarrow> keeps r r'"
  using keeps_view keeps_refl by blast

lemma keeps_contents: "keeps r r1 \<Longrightarrow> same_contents r1 r' \<Longrightarrow> keeps r r'"
  using keeps_view same_contents_same_view by blast

lemma keeps_planned: "stored_ok r \<Longrightarrow> mget (mr_plans r) (pl_ID p) = None \<Longrightarrow> keeps r (planned p q r)"
  by (auto simp: keeps_def map_le_def stored_ok_def repo_wf_def filed_def scoped_def withPlan_def withPlanKey_def split: if_splits)

lemma keeps_logged: "stored_ok r \<Longrightarrow> event_accepted env e r \<Longrightarrow> keeps r (logged env e r)"
  by (auto simp: keeps_def stored_ok_def repo_wf_def filed_def scoped_def logged_def event_accepted_def Let_def mget0_def)

lemma keeps_projection:
  "stored_ok r \<Longrightarrow> mget (mr_plans r) k \<noteq> None \<Longrightarrow> keeps r (r\<lparr>mr_projections := mput k q (mr_projections r)\<rparr>)"
  by (auto simp: keeps_def stored_ok_def repo_wf_def filed_def scoped_def)

lemma keeps_outbox: "stored_ok r \<Longrightarrow> ob_ID x = k \<Longrightarrow> keeps r (r\<lparr>mr_outbox := mput k x (mr_outbox r)\<rparr>)"
  by (auto simp: keeps_def stored_ok_def repo_wf_def filed_def scoped_def)

lemma keeps_definitions:
  "stored_ok r \<Longrightarrow> keeps r (r\<lparr>mr_agents := mput k a (mr_agents r)\<rparr>)" "stored_ok r \<Longrightarrow> keeps r (r\<lparr>mr_squads := mput k s (mr_squads r)\<rparr>)"
  "stored_ok r \<Longrightarrow> keeps r (withoutPlanKey p r)" "stored_ok r \<Longrightarrow> keeps r (r\<lparr>mr_outbox := mdel k (mr_outbox r)\<rparr>)"
  by (auto simp: keeps_def stored_ok_def repo_wf_def filed_def scoped_def withoutPlanKey_def)

lemmas keeps_change = keeps_refl keeps_planned keeps_logged keeps_projection keeps_outbox keeps_definitions

lemma claim_keeps:
  assumes "claimOutboxLocked env w i owner ttl now (d, r) = ((d', r'), res)" and "stored_ok r"
  shows "keeps r r'"
proof -
  have fl: "filed r" using assms(2) by (simp add: stored_ok_def)
  from assms(1) fl show ?thesis
  proof (cases rule: claimOutboxLocked_cases)
    case (leased x)
    then have "ob_ID x = i" using fl by (simp add: filed_def)
    then show ?thesis using keeps_view [OF keeps_outbox [OF assms(2)] leased(5)] by simp
  qed (use assms(2) keeps_same in blast)
qed

lemma settle_keeps:
  assumes "AckOutbox env w clock i owner now err (d, r) = ((d', r'), res) \<or> FailOutbox env w clock i owner now reason (d, r) = ((d', r'), res)"
    and "stored_ok r"
  shows "keeps r r'"
proof -
  have fl: "filed r" using assms(2) by (simp add: stored_ok_def)
  from assms(1) fl show ?thesis
  proof (cases rule: settle_cases)
    case (settled x y)
    then have "ob_ID y = TrimSpace i" using fl settledBy_sel by (simp add: filed_def)
    then show ?thesis using keeps_view [OF keeps_outbox [OF assms(2)] settled(4)] by simp
  qed (use assms(2) keeps_same in blast)
qed

lemma plan_keeps:
  assumes "CreatePlanWithEvent env w p ev (d, r) = ((d', r'), res)" and "stored_ok r"
  shows "keeps r r'"
proof -
  have wf: "repo_wf r" "scoped r" using assms(2) by (simp_all add: stored_ok_def)
  from assms(1) wf show ?thesis
  proof (cases rule: CreatePlanWithEvent_cases)
    case unchanged
    then show ?thesis using keeps_same assms(2) by blast
  next
    case appended
    then show ?thesis using keeps_view keeps_logged assms(2) by blast
  next
    case dropped
    then show ?thesis using keeps_view keeps_definitions(3) assms(2) by blast
  next
    case (created q)
    have "keeps r (planned p q r)" using keeps_planned assms(2) created(3) by blast
    moreover from this have "keeps (planned p q r) (logged env (planEvent env p ev) (planned p q r))"
      by (rule keeps_logged [OF keeps_stored created(6)])
    ultimately show ?thesis using keeps_trans keeps_view created(7) by blast
  qed
qed

lemma commit_keeps:
  assumes "CommitEventProjection env w ev p (d, r) = ((d', r'), res)" and "stored_ok r"
  shows "keeps r r'"
proof -
  have plan: "mget (mr_plans r) (p_PlanID p) \<noteq> None" if "commitChecks ev p r = None"
    using that by (auto simp: commitChecks_def check_simps split: option.splits)
  from assms(1) show ?thesis
  proof (cases rule: CommitEventProjection_cases)
    case (replayed old)
    then show ?thesis using keeps_view [OF keeps_projection replayed(6)] assms(2) plan by blast
  next
    case committed
    let ?r1 = "logged env ev r"
    have l: "keeps r ?r1" using keeps_logged assms(2) committed(3) by blast
    have "keeps ?r1 (?r1\<lparr>mr_projections := mput (p_PlanID p) p (mr_projections ?r1)\<rparr>)"
      by (rule keeps_projection) (use l plan committed in \<open>simp_all add: keeps_def logged_def Let_def\<close>)
    then have "keeps r (?r1\<lparr>mr_projections := mput (p_PlanID p) p (mr_projections r)\<rparr>)"
      using keeps_trans [OF l] by (simp add: logged_def Let_def)
    then show ?thesis using keeps_view committed(4) by blast
  qed (use assms(2) keeps_same in blast)
qed

lemma op_keeps:
  assumes "runOp env w op (d, r) = ((d', r'), res)" and "id_stable env op" and "stored_ok r"
  shows "keeps r r'"
proof (cases op)
  case (OpSaveAgent a n)
  then have "SaveAgent env w a n (d, r) = ((d', r'), res)" using assms(1) by simp
  then show ?thesis using assms(3) by (cases rule: SaveAgent_cases) (blast intro: keeps_contents keeps_change)+
next
  case (OpSaveSquad a n)
  then have "SaveSquad env w a n (d, r) = ((d', r'), res)" using assms(1) by simp
  then show ?thesis using assms(3) by (cases rule: SaveSquad_cases) (blast intro: keeps_contents keeps_change)+
next
  case (OpCreatePlan p)
  then have "CreatePlan env w p (d, r) = ((d', r'), res)" using assms(1) by simp
  then show ?thesis using assms(3) by (cases rule: CreatePlan_cases) (blast intro: keeps_contents keeps_change)+
next
  case (OpSaveProjection p)
  then have "SaveProjection env w p (d, r) = ((d', r'), res)" using assms(1) by simp
  then show ?thesis
  proof (cases rule: SaveProjection_cases)
    case saved
    then have "mget (mr_plans r) (p_PlanID p) \<noteq> None" by (auto simp: saveProjectionChecks_def check_simps split: option.splits)
    then show ?thesis using keeps_view [OF keeps_projection saved(3)] assms(3) by blast
  qed (use assms(3) keeps_same in blast)
next
  case (OpAppendEvent ev)
  then have "AppendEvent env w ev (d, r) = ((d', r'), res)" using assms(1) by simp
  then show ?thesis using assms(3) by (cases rule: AppendEvent_cases) (blast intro: keeps_view keeps_change)+
next
  case (OpEnqueue nano now x)
  then obtain z where "EnqueueOutbox env w nano now x (d, r) = ((d', r'), z)" using assms(1) resultErr_obtain by fastforce
  moreover have "ob_ID (cloneValue (re_Record env) (recordDefaults nano now (trimmedRecord x))) = ob_ID (recordDefaults nano now (trimmedRecord x))"
    using assms(2) OpEnqueue by (simp add: newID_def)
  ultimately show ?thesis using assms(3) by (cases rule: EnqueueOutbox_cases) (blast intro: keeps_view keeps_change)+
next
  case (OpClaim clock planID owner ttl now)
  then obtain z where "ClaimOutbox env w clock planID owner ttl now (d, r) = ((d', r'), z)" using assms(1) resultErr_obtain by fastforce
  then show ?thesis using claim_keeps keeps_refl assms(3) by (auto simp: ClaimOutbox_def Let_def split: if_splits)
next
  case (OpClaimByID clock i owner ttl now)
  then obtain z where "ClaimOutboxByID env w clock i owner ttl now (d, r) = ((d', r'), z)" using assms(1) resultErr_obtain by fastforce
  then show ?thesis using claim_keeps keeps_refl assms(3) by (auto simp: ClaimOutboxByID_def Let_def split: if_splits)
next
  case OpFlush
  then have "persistLocked env w (d, r) = ((d', r'), res)" using assms(1) by (simp add: Flush_def)
  then show ?thesis using assms(3) by (cases rule: persistLocked_cases) (blast intro: keeps_contents keeps_change)+
next
  case (OpBackup path)
  then show ?thesis using assms(1,3) keeps_refl by (auto simp: Backup_def Let_def split: if_splits prod.splits)
qed (use assms(1,3) plan_keeps commit_keeps settle_keeps [OF disjI1] settle_keeps [OF disjI2] in auto)

lemma any_step_keeps:
  assumes "any_step env s t" and "stored_ok (snd s)"
  shows "keeps (snd s) (snd t)"
  using assms(1)
proof cases
  case (any_operation op w)
  obtain d r where s: "s = (d, r)" by (cases s)
  obtain d' r' res where "runOp env w op s = ((d', r'), res)" by (rule nested_pair)
  then show ?thesis using any_operation assms(2) op_keeps s by auto
qed (use assms(2) keeps_refl in auto)

interpretation any_caller: history_system "\<lambda>s. \<exists>d path. s = (d, newMemoryRepository path)" "any_step env" "\<lambda>s. stored_ok (snd s)"
  "\<lambda>s t. stored_ok (snd s) \<longrightarrow> keeps (snd s) (snd t)" for env
proof unfold_locales
  show "stored_ok (snd s)" if "\<exists>d path. s = (d, newMemoryRepository path)" for s :: repo
    using that by (auto simp: stored_ok_def repo_wf_def filed_def scoped_def newMemoryRepository_def mget0_def)
  show "stored_ok (snd t)" if "stored_ok (snd s)" and "any_step env s t" for s t env
    using any_step_keeps [OF that(2,1)] by (simp add: keeps_def)
  show "stored_ok (snd s) \<longrightarrow> keeps (snd s) (snd s)" for s :: repo by (simp add: keeps_refl)
  show "stored_ok (snd s) \<longrightarrow> keeps (snd s) (snd u)"
    if "stored_ok (snd s) \<longrightarrow> keeps (snd s) (snd t)" "stored_ok (snd t) \<longrightarrow> keeps (snd t) (snd u)" for s t u :: repo
    using that keeps_trans keeps_stored by blast
  show "stored_ok (snd s) \<longrightarrow> keeps (snd s) (snd t)" if "any_step env s t" for s t env
    using any_step_keeps [OF that] by blast
qed

lemma any_stored: "(any_step env)\<^sup>*\<^sup>* (d, newMemoryRepository path) s \<Longrightarrow> stored_ok (snd s)"
  using any_caller.inv_reachable by blast

lemma repo_step_any: "repo_step env s t \<Longrightarrow> any_step env s t"
proof (induction rule: repo_step.induct)
  case (operation op s w)
  then have "id_stable env op" by (cases op) (auto simp: newID_def Let_def)
  then show ?case by (rule any_operation)
qed (rule any_process)

lemma repo_run_any: "(repo_step env)\<^sup>*\<^sup>* s t \<Longrightarrow> (any_step env)\<^sup>*\<^sup>* s t"
  using rtranclp_mono [of "repo_step env" "any_step env"] repo_step_any by blast

section \<open>Failures\<close>

lemma claim_failed:
  assumes "claimOutboxLocked env w i owner ttl now (d, r) = ((d', r'), Inl e)" and "filed r"
  shows "viewOf r' = viewOf r"
  using assms by (cases rule: claimOutboxLocked_cases) (auto simp: same_view_def)

lemma resultErr_Some: "resultErr f = (s, Some e) \<Longrightarrow> f = (s, Inl e)"
  by (cases f) (auto simp: resultErr_def split: sum.splits)

text \<open>An intent is about to be filed under an ID that another intent has.\<close>

fun reuses :: "repo_op \<Rightarrow> string \<Rightarrow> MemoryRepository \<Rightarrow> bool" where
  "reuses (OpEnqueue nano now x) i r \<longleftrightarrow> i = newID nano now x \<and>
     (\<exists>y. mget (mr_outbox r) i = Some y \<and> (ob_PlanID y \<noteq> TrimSpace (ob_PlanID x) \<or> ob_IdempotencyKey y \<noteq> TrimSpace (ob_IdempotencyKey x)))"
| "reuses op i r \<longleftrightarrow> False"

lemma reusesI:
  assumes "mget (mr_outbox r) (newID nano now x) \<noteq> None" and "new_intent (recordDefaults nano now (trimmedRecord x)) r"
  shows "reuses (OpEnqueue nano now x) (newID nano now x) r"
proof -
  obtain y where y: "mget (mr_outbox r) (newID nano now x) = Some y" using assms(1) by blast
  have "ob_PlanID y \<noteq> TrimSpace (ob_PlanID x) \<or> ob_IdempotencyKey y \<noteq> TrimSpace (ob_IdempotencyKey x)"
    using assms(2) mget_in_vals [OF y] by (simp add: new_intent_def trimmedRecord_def del: set_map)
  then show ?thesis using y by simp
qed

lemma failed_view:
  assumes "stored_ok r" and "runOp env w op (d, r) = ((d', r'), Some e)"
  shows "viewOf r' = viewOf r \<or> (\<exists>p ev. op = OpCreatePlanWithEvent p ev \<and>
      viewOf r' = (viewOf r)\<lparr>v_keys := (v_keys (viewOf r))(planKey p := None)\<rparr>) \<or>
    (\<exists>i. reuses op i r \<and> viewOf r' = (viewOf r)\<lparr>v_outbox := (v_outbox (viewOf r))(i := None)\<rparr>)"
proof -
  have inv: "repo_wf r" "filed r" "scoped r" using assms(1) by (simp_all add: stored_ok_def)
  show ?thesis
  proof (cases op)
    case (OpSaveAgent a n)
    then have "SaveAgent env w a n (d, r) = ((d', r'), Some e)" using assms(2) by simp
    then show ?thesis by (cases rule: SaveAgent_cases) (auto dest: same_contents_view)
  next
    case (OpSaveSquad a n)
    then have "SaveSquad env w a n (d, r) = ((d', r'), Some e)" using assms(2) by simp
    then show ?thesis by (cases rule: SaveSquad_cases) (auto dest: same_contents_view)
  next
    case (OpCreatePlan p)
    then have "CreatePlan env w p (d, r) = ((d', r'), Some e)" using assms(2) by simp
    then show ?thesis by (cases rule: CreatePlan_cases) (auto dest: same_contents_view)
  next
    case (OpCreatePlanWithEvent p ev)
    then have "CreatePlanWithEvent env w p ev (d, r) = ((d', r'), Some e)" using assms(2) by simp
    from this inv(1,3) show ?thesis
      by (cases rule: CreatePlanWithEvent_cases)
        (auto simp: same_view_def withoutPlanKey_def viewOf_upd OpCreatePlanWithEvent split: if_splits)
  next
    case (OpSaveProjection p)
    then have "SaveProjection env w p (d, r) = ((d', r'), Some e)" using assms(2) by simp
    then show ?thesis by (cases rule: SaveProjection_cases) (auto simp: same_view_def)
  next
    case (OpAppendEvent ev)
    then have "AppendEvent env w ev (d, r) = ((d', r'), Some e)" using assms(2) by simp
    then show ?thesis by (cases rule: AppendEvent_cases) (auto simp: same_view_def)
  next
    case (OpCommit ev p)
    then have "CommitEventProjection env w ev p (d, r) = ((d', r'), Some e)" using assms(2) by simp
    then show ?thesis by (cases rule: CommitEventProjection_cases) (auto simp: same_view_def)
  next
    case (OpEnqueue nano now x)
    then have "EnqueueOutbox env w nano now x (d, r) = ((d', r'), Inl e)" using assms(2) resultErr_Some by fastforce
    then show ?thesis
    proof (cases rule: EnqueueOutbox_cases)
      case removed
      have "viewOf r' = (viewOf r)\<lparr>v_outbox := (v_outbox (viewOf r))(newID nano now x := None)\<rparr>"
        using removed(4) by (simp add: same_view_def viewOf_def newID_def fun_eq_iff)
      moreover have "reuses op (newID nano now x) r"
        unfolding OpEnqueue by (rule reusesI) (use removed(2,3) in \<open>simp_all add: newID_def\<close>)
      ultimately show ?thesis by blast
    qed (simp_all add: same_view_def)
  next
    case (OpClaim clock planID owner ttl now)
    then have "ClaimOutbox env w clock planID owner ttl now (d, r) = ((d', r'), Inl e)" using assms(2) resultErr_Some by fastforce
    then show ?thesis using claim_failed inv(2) by (auto simp: ClaimOutbox_def Let_def split: if_splits)
  next
    case (OpClaimByID clock i owner ttl now)
    then have "ClaimOutboxByID env w clock i owner ttl now (d, r) = ((d', r'), Inl e)" using assms(2) resultErr_Some by fastforce
    then show ?thesis using claim_failed inv(2) by (auto simp: ClaimOutboxByID_def Let_def split: if_splits)
  next
    case (OpAck clock i owner now err)
    then have "AckOutbox env w clock i owner now err (d, r) = ((d', r'), Some e)" using assms(2) by simp
    from settle_cases [OF disjI1 [OF this] inv(2)] show ?thesis by (metis option.distinct(1) same_view_def)
  next
    case (OpFail clock i owner now reason)
    then have "FailOutbox env w clock i owner now reason (d, r) = ((d', r'), Some e)" using assms(2) by simp
    from settle_cases [OF disjI2 [OF this] inv(2)] show ?thesis by (metis option.distinct(1) same_view_def)
  next
    case OpFlush
    then have "persistLocked env w (d, r) = ((d', r'), Some e)" using assms(2) by (simp add: Flush_def)
    then show ?thesis by (cases rule: persistLocked_cases) auto
  next
    case (OpBackup path)
    then show ?thesis using assms(2) by (auto simp: Backup_def Let_def split: if_splits prod.splits)
  qed
qed

lemma failed_restore:
  assumes "Restore env readErr w file (d, r) = ((d', r'), Some e)"
  shows "viewOf r' = viewOf r"
proof -
  have undo: "viewOf (r\<lparr>mr_dirty := False\<rparr>) = viewOf r" by (simp add: viewOf_def)
  have "viewOf r' = viewOf r" if "commit env w (\<lambda>_. r\<lparr>mr_dirty := False\<rparr>) (d, r1) = ((d', r'), Some x)" for r1 x
    using that undo by (cases rule: commit_cases) auto
  then show ?thesis
    using assms by (auto simp: Restore_def Let_def split: if_splits option.splits sum.splits prod.splits)
qed

section \<open>Durability\<close>

text \<open>The state file holds the snapshot of the repository.\<close>

definition on_disk :: "RepoEnv \<Rightarrow> disk \<Rightarrow> MemoryRepository \<Rightarrow> bool" where
  "on_disk env d r \<longleftrightarrow> \<not> mr_dirty r \<and>
     (\<exists>data. mget d (mr_statePath r) = Some data \<and> re_Marshal env (snapshotOf (mr_revision r) r) = Inr data)"

lemma snapshotOf_meta [simp]: "snapshotOf n (r\<lparr>mr_revision := m, mr_dirty := b\<rparr>) = snapshotOf n r"
  by (simp add: snapshotOf_def)

lemma persistLocked_on_disk:
  assumes "persistLocked env w (d, r) = ((d', r'), None)" and "mr_statePath r \<noteq> ''''" and "mr_dirty r"
  shows "on_disk env d' r' \<and> mr_statePath r' = mr_statePath r"
  using assms unfolding persistLocked_def Let_def on_disk_def writeFile_def
  by (auto split: if_splits io.splits sum.splits prod.splits option.splits)

lemma commit_on_disk:
  assumes "commit env w undo (d, r) = ((d', r'), None)" and "mr_statePath r \<noteq> ''''" and "mr_dirty r"
  shows "on_disk env d' r' \<and> mr_statePath r' = mr_statePath r"
  using assms persistLocked_on_disk unfolding commit_def by (auto split: prod.splits option.splits)

text \<open>A restart from a file that holds the snapshot of a consistent repository gives that repository.\<close>

lemma restart:
  assumes "repo_inv env (d0, r)" and "on_disk env d r" and "TrimSpace (mr_statePath r) = mr_statePath r" and "mr_statePath r \<noteq> ''''"
    and "\<And>data. re_Marshal env (snapshotOf (mr_revision r) r) = Inr data \<Longrightarrow> re_Unmarshal env data = Inr (snapshotOf (mr_revision r) r)"
  shows "NewPersistentRepository env None d (mr_statePath r) = Inr r"
proof -
  obtain data where "mget d (mr_statePath r) = Some data" "re_Unmarshal env data = Inr (snapshotOf (mr_revision r) r)" "\<not> mr_dirty r"
    using assms(2,5) by (auto simp: on_disk_def)
  then show ?thesis using inv_checks [OF assms(1)] assms(3,4)
    by (simp add: NewPersistentRepository_def load_def Let_def newMemoryRepository_def withSnapshot_def snapshotOf_def)
qed

lemma commit_clean:
  assumes "commit env w undo (d, r) = ((d', r'), None)" and "\<not> mr_dirty r"
  shows "r' = r"
  using assms by (auto simp: commit_def persistLocked_def split: prod.splits option.splits)

text \<open>An append of an event is followed by a write unless nothing was to be written.\<close>

lemma append_then_commit:
  assumes "appendEventLocked env e r = (r1, None)" and "commit env w undo (d, r1) = ((d', r'), None)"
    and "mr_statePath r \<noteq> ''''"
  shows "r' = r \<or> on_disk env d' r' \<and> mr_statePath r' = mr_statePath r"
  using assms(1)
proof (cases rule: appendEventLocked_cases)
  case refused
  then show ?thesis by simp
next
  case (duplicate old)
  then show ?thesis using assms(2,3) commit_on_disk commit_clean by (cases "mr_dirty r") blast+
next
  case appended
  then have "mr_dirty r1" "mr_statePath r1 = mr_statePath r" by (auto simp: logged_def Let_def)
  then show ?thesis using commit_on_disk [OF assms(2)] assms(3) by simp
qed

lemma claim_on_disk:
  assumes "claimOutboxLocked env w i owner ttl now (d, r) = ((d', r'), Inr x)" and "mr_statePath r \<noteq> ''''"
  shows "on_disk env d' r' \<and> mr_statePath r' = mr_statePath r"
  using assms commit_on_disk
  by (fastforce simp: claimOutboxLocked_def putRecord_def split: if_splits option.splits prod.splits)

lemma putRecord_on_disk:
  assumes "putRecord env w x old (d, r) = ((d', r'), None)" and "mr_statePath r \<noteq> ''''"
  shows "on_disk env d' r' \<and> mr_statePath r' = mr_statePath r"
  using assms commit_on_disk by (fastforce simp: putRecord_def)

lemma resultErr_None: "resultErr f = (s, None) \<Longrightarrow> \<exists>x. f = (s, Inr x)"
  by (cases f) (auto simp: resultErr_def split: sum.splits)

lemma withPlan_path [simp]: "mr_statePath (withPlan p q r) = mr_statePath r" "mr_statePath (withPlanKey p r) = mr_statePath r"
  by (simp_all add: withPlan_def withPlanKey_def)

lemma append_path:
  assumes "appendEventLocked env e r = (r1, res)"
  shows "mr_statePath r1 = mr_statePath r"
  using assms by (cases rule: appendEventLocked_cases) (auto simp: logged_def Let_def)

lemma CreatePlanWithEvent_on_disk:
  assumes "CreatePlanWithEvent env w p e (d, r) = ((d', r'), None)" and "mr_statePath r \<noteq> ''''"
  shows "r' = r \<or> on_disk env d' r' \<and> mr_statePath r' = mr_statePath r"
proof -
  obtain q where q: "planChecks env p = Inr q" and scope: "\<not> (ev_PlanID e \<noteq> pl_ID p \<or> ev_WorkspaceID e \<noteq> pl_WorkspaceID p \<or> ev_Type e = '''')"
    using assms(1) by (auto simp: CreatePlanWithEvent_def split: sum.splits if_splits)
  let ?e = "planEvent env p e"
  show ?thesis
  proof (cases "mget (mr_plans r) (pl_ID p)")
    case (Some existing)
    then have retry: "retryPlanEvent env w p ?e (d, r) = ((d', r'), None)"
      using assms(1) q scope by (auto simp: CreatePlanWithEvent_def Let_def split: if_splits)
    obtain r1 res1 where a: "appendEventLocked env ?e r = (r1, res1)" by fastforce
    then show ?thesis using retry append_then_commit [of env ?e r r1] assms(2)
      by (auto simp: retryPlanEvent_def split: option.splits)
  next
    case None
    obtain r1 res1 where a: "appendEventLocked env ?e (planned p q r) = (r1, res1)" by fastforce
    have ok: "res1 = None" using assms(1) q scope None a by (cases res1) (auto simp: CreatePlanWithEvent_def Let_def split: if_splits)
    have "mr_statePath r1 = mr_statePath r" using append_path [OF a] by simp
    moreover have "\<exists>undo. commit env w undo (d, r1\<lparr>mr_dirty := True\<rparr>) = ((d', r'), None)"
      using assms(1) q scope None a ok by (auto simp: CreatePlanWithEvent_def Let_def split: if_splits)
    ultimately show ?thesis using commit_on_disk assms(2) by fastforce
  qed
qed

lemma Commit_on_disk:
  assumes "CommitEventProjection env w e p (d, r) = ((d', r'), None)" and "mr_statePath r \<noteq> ''''"
  shows "on_disk env d' r' \<and> mr_statePath r' = mr_statePath r"
proof -
  obtain r1 res1 where a: "appendEventLocked env e r = (r1, res1)" by fastforce
  have ok: "commitChecks e p r = None" "res1 = None"
    using assms(1) a by (auto simp: CommitEventProjection_def split: option.splits)
  have "mr_statePath r1 = mr_statePath r" using append_path [OF a] .
  then show ?thesis using assms a ok commit_on_disk by (fastforce simp: CommitEventProjection_def)
qed

lemma success_on_disk:
  assumes "runOp env w op (d, r) = ((d', r'), None)" and "mr_statePath r \<noteq> ''''" and "viewOf r' \<noteq> viewOf r"
  shows "on_disk env d' r' \<and> mr_statePath r' = mr_statePath r"
proof (cases op)
  case (OpSaveAgent a n)
  then show ?thesis using assms commit_on_disk by (fastforce simp: SaveAgent_def Let_def split: option.splits)
next
  case (OpSaveSquad a n)
  then show ?thesis using assms commit_on_disk by (fastforce simp: SaveSquad_def Let_def split: option.splits)
next
  case (OpCreatePlan p)
  then have "CreatePlan env w p (d, r) = ((d', r'), None)" using assms by simp
  then have "r' = r \<or> (\<exists>undo q. commit env w undo (d, (withPlan p q (withPlanKey p r))\<lparr>mr_dirty := True\<rparr>) = ((d', r'), None))"
    by (auto simp: CreatePlan_def Let_def split: sum.splits if_splits)
  then show ?thesis using assms(2,3) commit_on_disk by fastforce
next
  case (OpCreatePlanWithEvent p e)
  then show ?thesis using assms CreatePlanWithEvent_on_disk by fastforce
next
  case (OpSaveProjection p)
  then show ?thesis using assms commit_on_disk by (fastforce simp: SaveProjection_def Let_def split: option.splits)
next
  case (OpAppendEvent e)
  obtain r1 res1 where a: "appendEventLocked env e r = (r1, res1)" by fastforce
  have ok: "res1 = None" using assms(1) OpAppendEvent a by (cases res1) (auto simp: AppendEvent_def Let_def)
  then have "\<exists>undo. commit env w undo (d, r1) = ((d', r'), None)"
    using assms(1) OpAppendEvent a by (auto simp: AppendEvent_def Let_def)
  then show ?thesis using append_then_commit a ok assms(2,3) by blast
next
  case (OpCommit e p)
  then show ?thesis using assms Commit_on_disk by fastforce
next
  case (OpEnqueue nano now x)
  then obtain z where z: "EnqueueOutbox env w nano now x (d, r) = ((d', r'), Inr z)" using assms(1) resultErr_None by fastforce
  then have "r' = r \<or> (\<exists>undo m. commit env w undo (d, r\<lparr>mr_outbox := m, mr_dirty := True\<rparr>) = ((d', r'), None))"
    by (auto simp: EnqueueOutbox_def Let_def split: if_splits option.splits prod.splits)
  then show ?thesis using assms(2,3) commit_on_disk by fastforce
next
  case (OpClaim clock planID owner ttl now)
  then obtain z where "ClaimOutbox env w clock planID owner ttl now (d, r) = ((d', r'), Inr z)" using assms(1) resultErr_None by fastforce
  then show ?thesis using claim_on_disk assms(2) by (auto simp: ClaimOutbox_def Let_def split: if_splits)
next
  case (OpClaimByID clock i owner ttl now)
  then obtain z where "ClaimOutboxByID env w clock i owner ttl now (d, r) = ((d', r'), Inr z)" using assms(1) resultErr_None by fastforce
  then show ?thesis using claim_on_disk assms(2) by (auto simp: ClaimOutboxByID_def Let_def split: if_splits)
next
  case (OpAck clock i owner now err)
  then show ?thesis using assms putRecord_on_disk by (auto simp: AckOutbox_def Let_def split: if_splits option.splits)
next
  case (OpFail clock i owner now reason)
  then show ?thesis using assms putRecord_on_disk by (auto simp: FailOutbox_def Let_def split: if_splits option.splits)
next
  case OpFlush
  then have "persistLocked env w (d, r) = ((d', r'), None)" using assms by (simp add: Flush_def)
  then show ?thesis using assms(3) by (cases rule: persistLocked_cases) (auto dest: same_contents_view)
next
  case (OpBackup path)
  then show ?thesis using assms by (auto simp: Backup_def Let_def split: if_splits prod.splits)
qed

section \<open>History\<close>

text \<open>
  C7: History is kept. Whoever the callers are (\<open>any_step\<close>: only the ID of a new intent has to survive JSON), from any repository
  on that operations and failures have led to, frozen plans never change or disappear and every event log is extended at
  its end only. When the callers keep to \<open>op_ok\<close> (names
  without a colon, values that survive JSON, no ID of an intent used for another one), stored revisions of agents and squads
  never change or disappear either, and an intent keeps its plan, key and payload; once it is acknowledged or failed it does
  not change at all. \<open>Restore\<close> is not among the operations: it replaces everything by a backup.
\<close>

theorem repository_history:
  assumes "(any_step env)\<^sup>*\<^sup>* (d, newMemoryRepository path) s" and "(any_step env)\<^sup>*\<^sup>* s t"
  shows "mget (mr_plans (snd s)) \<subseteq>\<^sub>m mget (mr_plans (snd t)) \<and>
    (\<forall>i. \<exists>es. mget0 [] (mr_events (snd t)) i = mget0 [] (mr_events (snd s)) i @ es) \<and>
    ((repo_step env)\<^sup>*\<^sup>* (d, newMemoryRepository path) s \<and> (repo_step env)\<^sup>*\<^sup>* s t \<longrightarrow>
       mget (mr_agents (snd s)) \<subseteq>\<^sub>m mget (mr_agents (snd t)) \<and> mget (mr_squads (snd s)) \<subseteq>\<^sub>m mget (mr_squads (snd t)) \<and>
       (\<forall>i x. mget (mr_outbox (snd s)) i = Some x \<longrightarrow> (\<exists>y. mget (mr_outbox (snd t)) i = Some y \<and> ob_PlanID y = ob_PlanID x \<and>
          ob_IdempotencyKey y = ob_IdempotencyKey x \<and> ob_Payload y = ob_Payload x \<and> (settled x \<longrightarrow> y = x))))"
proof -
  have "keeps (snd s) (snd t)" using any_caller.before_run [OF assms(2)] any_stored [OF assms(1)] by simp
  moreover have "view_before (viewOf (snd s)) (viewOf (snd t))"
    if "(repo_step env)\<^sup>*\<^sup>* (d, newMemoryRepository path) s" and "(repo_step env)\<^sup>*\<^sup>* s t"
  proof -
    have inv: "repo_inv env s" using reachable_inv [OF that(1)] .
    then have "(spec_step env)\<^sup>*\<^sup>* (viewOf (snd s)) (viewOf (snd t))" using repository.sim_run [OF that(2)] by simp
    then show ?thesis using spec.before_run inv by (auto simp: repo_inv_def)
  qed
  ultimately show ?thesis by (simp add: keeps_def view_before_def)
qed

text \<open>The example plan, before and after an event is appended to its log.\<close>

theorem repository_history_witness:
  "mget (mr_plans (snd exPlanned)) \<subseteq>\<^sub>m mget (mr_plans (snd (fst (AppendEvent exEnv0 IODone exBound exPlanned)))) \<and>
   (\<exists>es. mget0 [] (mr_events (snd (fst (AppendEvent exEnv0 IODone exBound exPlanned)))) ''p1'' = mget0 [] (mr_events (snd exPlanned)) ''p1'' @ es) \<and>
   mget (mr_agents (snd exPlanned)) \<subseteq>\<^sub>m mget (mr_agents (snd (fst (AppendEvent exEnv0 IODone exBound exPlanned))))"
proof -
  have run: "(repo_step exEnv0)\<^sup>*\<^sup>* exPlanned (fst (runOp exEnv0 IODone (OpAppendEvent exBound) exPlanned))"
    by (rule r_into_rtranclp) (rule operation, simp)
  from repository_history [OF repo_run_any [OF exPlanned_reachable] repo_run_any [OF run]] exPlanned_reachable run
  show ?thesis by simp
qed

section \<open>Properties of failures and restarts\<close>

text \<open>
  C13: A failed operation is atomic, whoever the callers are (\<open>any_step\<close>). When an operation of the repository, a restore included,
  returns an error, at whatever point the file system failed, everything a client can read is as before, with two
  exceptions: a failed \<open>CreatePlanWithEvent\<close> may have released the idempotency key of its plan, and a failed
  \<open>EnqueueOutbox\<close> under an ID that an intent with another plan or key has deletes that intent. Failing imports of definitions
  are treated in \<open>Orch_Bundle\<close>.
\<close>

theorem failed_operation_atomic:
  assumes "(any_step env)\<^sup>*\<^sup>* (d0, newMemoryRepository path) (d, r)"
  shows "(runOp env w op (d, r) = ((d', r'), Some e) \<longrightarrow>
      viewOf r' = viewOf r \<or>
      (\<exists>p ev. op = OpCreatePlanWithEvent p ev \<and> viewOf r' = (viewOf r)\<lparr>v_keys := (v_keys (viewOf r))(planKey p := None)\<rparr>) \<or>
      (\<exists>i. reuses op i r \<and> viewOf r' = (viewOf r)\<lparr>v_outbox := (v_outbox (viewOf r))(i := None)\<rparr>)) \<and>
    (Restore env readErr w file (d, r) = ((d', r'), Some e) \<longrightarrow> viewOf r' = viewOf r)"
proof (intro conjI impI)
  assume "runOp env w op (d, r) = ((d', r'), Some e)"
  from failed_view [OF _ this] show "viewOf r' = viewOf r \<or>
      (\<exists>p ev. op = OpCreatePlanWithEvent p ev \<and> viewOf r' = (viewOf r)\<lparr>v_keys := (v_keys (viewOf r))(planKey p := None)\<rparr>) \<or>
      (\<exists>i. reuses op i r \<and> viewOf r' = (viewOf r)\<lparr>v_outbox := (v_outbox (viewOf r))(i := None)\<rparr>)"
    using any_stored [OF assms] by simp
next
  assume "Restore env readErr w file (d, r) = ((d', r'), Some e)"
  then show "viewOf r' = viewOf r" by (rule failed_restore)
qed

theorem failed_operation_atomic_witness:
  "viewOf (snd (fst (AppendEvent exEnv0 (IOWrite (Sentinel ''disk full'')) exBound exPlanned))) = viewOf (snd exPlanned)"
proof -
  let ?w = "IOWrite (Sentinel ''disk full'')"
  let ?x = "runOp exEnv0 ?w (OpAppendEvent exBound) (fst exPlanned, snd exPlanned)"
  have reach: "(repo_step exEnv0)\<^sup>*\<^sup>* ([], newMemoryRepository ''/s'') (fst exPlanned, snd exPlanned)" using exPlanned_reachable by simp
  have "snd (AppendEvent exEnv0 ?w exBound exPlanned) = Some (Errorf ''stale orchestration state: expected revision %d, found %d'' [ArgI 1, ArgI 0])"
    by code_simp
  then have "?x = ((fst (fst ?x), snd (fst ?x)), Some (Errorf ''stale orchestration state: expected revision %d, found %d'' [ArgI 1, ArgI 0]))"
    by (simp add: prod_eq_iff)
  with failed_operation_atomic [OF repo_run_any [OF reach], of ?w "OpAppendEvent exBound"] show ?thesis by fastforce
qed

text \<open>
  C31: A restart recovers what was committed. When an operation changes a file-backed repository and returns success,
  opening the state file again gives exactly the repository in memory, provided the JSON of this snapshot decodes to it.
\<close>

theorem restart_recovers_commit:
  assumes "(repo_step env)\<^sup>*\<^sup>* (d0, newMemoryRepository path) (d, r)" and "op_ok env op r"
    and "runOp env w op (d, r) = ((d', r'), None)" and "viewOf r' \<noteq> viewOf r"
    and "mr_statePath r \<noteq> ''''" and "TrimSpace (mr_statePath r) = mr_statePath r"
    and "\<And>data. re_Marshal env (snapshotOf (mr_revision r') r') = Inr data \<Longrightarrow> re_Unmarshal env data = Inr (snapshotOf (mr_revision r') r')"
  shows "NewPersistentRepository env None d' (mr_statePath r) = Inr r'"
proof -
  have "repo_inv env (d, r)" using reachable_inv [OF assms(1)] .
  then have "repo_inv env (d', r')"
    using repository.cinv_step [of env "(d, r)"] operation [of env op "(d, r)" w] assms(2,3) by simp
  moreover have "on_disk env d' r'" "mr_statePath r' = mr_statePath r" using success_on_disk [OF assms(3,5,4)] by auto
  ultimately show ?thesis using restart [of env d' r' d'] assms(5-7) by simp
qed

definition exRestart :: RepoEnv where
  "exRestart = exEnv (snapshotOf 1 (snd exPlanned))"

lemma exRestart_same:
  "CreatePlanWithEvent exRestart IODone exPlan exStarted ([], newMemoryRepository ''/s'') =
   ((fst exPlanned, snd exPlanned), None)"
  by code_simp

theorem restart_recovers_commit_witness:
  "NewPersistentRepository exRestart None (fst exPlanned) ''/s'' = Inr (snd exPlanned)"
proof -
  let ?r0 = "newMemoryRepository ''/s''"
  have path: "mr_statePath ?r0 = ''/s''" by (simp add: newMemoryRepository_def)
  have rev1: "mr_revision (snd exPlanned) = 1" by code_simp
  have "NewPersistentRepository exRestart None (fst exPlanned) (mr_statePath ?r0) = Inr (snd exPlanned)"
  proof (rule restart_recovers_commit)
    show "(repo_step exRestart)\<^sup>*\<^sup>* ([], ?r0) ([], ?r0)" by simp
    show "op_ok exRestart (OpCreatePlanWithEvent exPlan exStarted) ?r0" by simp
    show "runOp exRestart IODone (OpCreatePlanWithEvent exPlan exStarted) ([], ?r0) = ((fst exPlanned, snd exPlanned), None)"
      using exRestart_same by simp
    have "mget (mr_plans (snd exPlanned)) ''p1'' \<noteq> None" by code_simp
    moreover have "mget (mr_plans ?r0) ''p1'' = None" by code_simp
    ultimately show "viewOf (snd exPlanned) \<noteq> viewOf ?r0" by (metis viewOf_sel(3))
    show "mr_statePath ?r0 \<noteq> ''''" "TrimSpace (mr_statePath ?r0) = mr_statePath ?r0" by code_simp+
    show "re_Unmarshal exRestart data = Inr (snapshotOf (mr_revision (snd exPlanned)) (snd exPlanned))" for data
      unfolding rev1 by (simp add: exRestart_def exEnv_def)
  qed
  then show ?thesis using path by simp
qed

section \<open>Properties of the outbox\<close>

text \<open>The time at which an operation on a lease acts, and the worker on whose behalf it settles a delivery.\<close>

fun opNow :: "repo_op \<Rightarrow> int option" where
  "opNow (OpClaim clock planID owner ttl now) = Some (if IsZero now then clock else now)"
| "opNow (OpClaimByID clock i owner ttl now) = Some (if IsZero now then clock else now)"
| "opNow (OpAck clock i owner now err) = Some (if IsZero now then clock else now)"
| "opNow (OpFail clock i owner now reason) = Some (if IsZero now then clock else now)"
| "opNow op = None"

fun opSettler :: "repo_op \<Rightarrow> string option" where
  "opSettler (OpAck clock i owner now err) = Some owner"
| "opSettler (OpFail clock i owner now reason) = Some owner"
| "opSettler op = None"

lemma same_view_outbox: "same_view r1 r' \<Longrightarrow> mget (mr_outbox r') = mget (mr_outbox r1)"
  by (simp add: same_view_def viewOf_def)

lemma same_contents_outbox: "same_contents r1 r' \<Longrightarrow> mr_outbox r' = mr_outbox r1"
  by (auto simp: same_contents_def)

lemma withPlan_outbox [simp]: "mr_outbox (withoutPlanKey p r) = mr_outbox r"
  by (simp add: withoutPlanKey_def)

lemma claim_keeps_lease:
  assumes "claimOutboxLocked env w j owner ttl now (d, r) = ((d', r'), res)" and "filed r"
    and "mget (mr_outbox r) i = Some x" and "leasedAt now x"
  shows "mget (mr_outbox r') i = Some x"
  using assms(1,2)
proof (cases rule: claimOutboxLocked_cases)
  case (unchanged e)
  then show ?thesis using assms(3) same_view_outbox by simp
next
  case (leased y)
  then have "j \<noteq> i" using assms(3,4) by auto
  then show ?thesis using same_view_outbox [OF leased(5)] assms(3) by simp
qed

lemma settle_keeps_lease:
  assumes "(AckOutbox env w clock j owner now0 err (d, r) = ((d', r'), res) \<or> FailOutbox env w clock j owner now0 reason (d, r) = ((d', r'), res))"
    and "filed r" and "mget (mr_outbox r) i = Some x" and "owner \<noteq> ob_Owner x"
  shows "mget (mr_outbox r') i = Some x"
  using assms(1,2)
proof (cases rule: settle_cases)
  case unchanged
  then show ?thesis using assms(3) same_view_outbox by simp
next
  case (settled y z)
  then have "TrimSpace j \<noteq> i" using assms(3,4) by (auto simp: settledBy_def holdsLease_def)
  then show ?thesis using same_view_outbox [OF settled(4)] assms(3) by simp
qed

lemma other_keeps_outbox:
  assumes "stored_ok r" and "\<not> reuses op i r" and "runOp env w op (d, r) = ((d', r'), res)"
    and "opNow op = None" and "mget (mr_outbox r) i = Some x"
  shows "mget (mr_outbox r') i = Some x"
proof -
  have inv: "repo_wf r" "filed r" "scoped r" using assms(1) by (simp_all add: stored_ok_def)
  show ?thesis
  proof (cases op)
    case (OpSaveAgent a n)
    then have "SaveAgent env w a n (d, r) = ((d', r'), res)" using assms(3) by simp
    then show ?thesis using assms(5) by (cases rule: SaveAgent_cases) (auto dest!: same_contents_outbox)
  next
    case (OpSaveSquad a n)
    then have "SaveSquad env w a n (d, r) = ((d', r'), res)" using assms(3) by simp
    then show ?thesis using assms(5) by (cases rule: SaveSquad_cases) (auto dest!: same_contents_outbox)
  next
    case (OpCreatePlan p)
    then have "CreatePlan env w p (d, r) = ((d', r'), res)" using assms(3) by simp
    then show ?thesis using assms(5) by (cases rule: CreatePlan_cases) (auto dest!: same_contents_outbox)
  next
    case (OpCreatePlanWithEvent p ev)
    then have "CreatePlanWithEvent env w p ev (d, r) = ((d', r'), res)" using assms(3) by simp
    from this inv(1,3) show ?thesis using assms(5)
      by (cases rule: CreatePlanWithEvent_cases) (auto dest!: same_view_outbox)
  next
    case (OpSaveProjection p)
    then have "SaveProjection env w p (d, r) = ((d', r'), res)" using assms(3) by simp
    then show ?thesis using assms(5) by (cases rule: SaveProjection_cases) (auto dest!: same_view_outbox)
  next
    case (OpAppendEvent ev)
    then have "AppendEvent env w ev (d, r) = ((d', r'), res)" using assms(3) by simp
    then show ?thesis using assms(5) by (cases rule: AppendEvent_cases) (auto dest!: same_view_outbox)
  next
    case (OpCommit ev p)
    then have "CommitEventProjection env w ev p (d, r) = ((d', r'), res)" using assms(3) by simp
    then show ?thesis using assms(5) by (cases rule: CommitEventProjection_cases) (auto dest!: same_view_outbox)
  next
    case (OpEnqueue nano now y)
    then obtain z where "EnqueueOutbox env w nano now y (d, r) = ((d', r'), z)" using assms(3) resultErr_obtain by fastforce
    moreover have "newID nano now y \<noteq> i" if "new_intent (recordDefaults nano now (trimmedRecord y)) r"
      using reusesI [of r nano now y] that assms(2,5) OpEnqueue by auto
    ultimately show ?thesis using assms(5)
      by (cases rule: EnqueueOutbox_cases) (auto simp: newID_def dest!: same_view_outbox)
  next
    case OpFlush
    then have "persistLocked env w (d, r) = ((d', r'), res)" using assms(3) by (simp add: Flush_def)
    then show ?thesis using assms(5) by (cases rule: persistLocked_cases) (auto dest!: same_contents_outbox)
  next
    case (OpBackup path)
    then show ?thesis using assms(3,5) by (auto simp: Backup_def Let_def split: if_splits prod.splits)
  qed (use assms(4) in auto)
qed

text \<open>
  C17: A lease is exclusive, whoever the callers are (\<open>any_step\<close>). While the lease of an intent has not expired at the time an operation
  acts, no operation but an acknowledgement or failure by the owner of the lease changes the intent: no other worker can
  claim or settle it. One operation is excepted: enqueueing another intent, with another plan or key, under the ID of this one
  replaces it, leased or not (\<open>enqueue_replaces_intent\<close>).
\<close>

theorem lease_exclusive:
  assumes "(any_step env)\<^sup>*\<^sup>* (d0, newMemoryRepository path) (d, r)"
    and "runOp env w op (d, r) = ((d', r'), res)"
    and "mget (mr_outbox r) i = Some x" and "ob_Status x = ''leased''"
    and "\<And>t. opNow op = Some t \<Longrightarrow> t < ob_LeaseExpiresAt x" and "opSettler op \<noteq> Some (ob_Owner x)" and "\<not> reuses op i r"
  shows "mget (mr_outbox r') i = Some x"
proof -
  have ok: "stored_ok r" using any_stored [OF assms(1)] by simp
  then have fl: "filed r" by (simp add: stored_ok_def)
  show ?thesis
  proof (cases op)
    case (OpClaim clock planID owner ttl now)
    then obtain z where "ClaimOutbox env w clock planID owner ttl now (d, r) = ((d', r'), z)"
      using assms(2) resultErr_obtain by fastforce
    then show ?thesis using OpClaim claim_keeps_lease fl assms(3-5)
      by (auto simp: ClaimOutbox_def Let_def leasedAt_def split: if_splits)
  next
    case (OpClaimByID clock j owner ttl now)
    then obtain z where "ClaimOutboxByID env w clock j owner ttl now (d, r) = ((d', r'), z)"
      using assms(2) resultErr_obtain by fastforce
    then show ?thesis using OpClaimByID claim_keeps_lease fl assms(3-5)
      by (auto simp: ClaimOutboxByID_def Let_def leasedAt_def split: if_splits)
  next
    case (OpAck clock j owner now err)
    then show ?thesis using settle_keeps_lease [OF disjI1] fl assms(2,3,6) by auto
  next
    case (OpFail clock j owner now reason)
    then show ?thesis using settle_keeps_lease [OF disjI2] fl assms(2,3,6) by auto
  qed (use other_keeps_outbox [OF ok assms(7,2) _ assms(3)] in auto)
qed

definition exIntent :: OutboxRecord where
  "exIntent = zeroRecord\<lparr>ob_ID := ''o1'', ob_PlanID := ''p1'', ob_WorkspaceID := ''w1'', ob_Kind := ''dispatch'',
     ob_IdempotencyKey := ''k1'', ob_MaxAttempts := 2\<rparr>"

text \<open>The example repository in memory with one intent, and the same repository with the intent leased to \<open>a\<close> until 150.\<close>

definition exQueued :: repo where
  "exQueued = fst (EnqueueOutbox exEnv0 IODone 1 10 exIntent ([], newMemoryRepository ''''))"

definition exLeased :: repo where
  "exLeased = fst (ClaimOutbox exEnv0 IODone 0 ''p1'' ''a'' 50 100 exQueued)"

lemma exQueued_reachable: "(repo_step exEnv0)\<^sup>*\<^sup>* ([], newMemoryRepository '''') exQueued"
proof -
  have "op_ok exEnv0 (OpEnqueue 1 10 exIntent) (newMemoryRepository '''')" by code_simp
  then have "repo_step exEnv0 ([], newMemoryRepository '''') (fst (runOp exEnv0 IODone (OpEnqueue 1 10 exIntent) ([], newMemoryRepository '''')))"
    by (intro operation) simp
  then show ?thesis by (simp add: exQueued_def resultErr_def)
qed

lemma exLeased_reachable: "(repo_step exEnv0)\<^sup>*\<^sup>* ([], newMemoryRepository '''') exLeased"
proof -
  have "repo_step exEnv0 exQueued (fst (runOp exEnv0 IODone (OpClaim 0 ''p1'' ''a'' 50 100) exQueued))" by (rule operation) simp
  then show ?thesis using exQueued_reachable by (simp add: exLeased_def resultErr_def rtranclp.rtrancl_into_rtrancl)
qed

abbreviation exLeasedRecord :: OutboxRecord where
  "exLeasedRecord \<equiv> the (mget (mr_outbox (snd exLeased)) ''o1'')"

theorem lease_exclusive_witness:
  "mget (mr_outbox (snd (fst (ClaimOutboxByID exEnv0 IODone 0 ''o1'' ''b'' 50 120 exLeased)))) ''o1'' = Some exLeasedRecord \<and>
     ob_Owner exLeasedRecord = ''a''"
proof
  let ?op = "OpClaimByID 0 ''o1'' ''b'' 50 120"
  let ?x = "runOp exEnv0 IODone ?op (fst exLeased, snd exLeased)"
  have reach: "(repo_step exEnv0)\<^sup>*\<^sup>* ([], newMemoryRepository '''') (fst exLeased, snd exLeased)" using exLeased_reachable by simp
  have run: "?x = ((fst (fst ?x), snd (fst ?x)), snd ?x)" by simp
  have lk: "mget (mr_outbox (snd exLeased)) ''o1'' = Some exLeasedRecord" by code_simp
  have st: "ob_Status exLeasedRecord = ''leased''" "120 < ob_LeaseExpiresAt exLeasedRecord" by code_simp+
  have "mget (mr_outbox (snd (fst ?x))) ''o1'' = Some exLeasedRecord"
    by (rule lease_exclusive [OF repo_run_any [OF reach] run lk st(1)]) (use st(2) in auto)
  then show "mget (mr_outbox (snd (fst (ClaimOutboxByID exEnv0 IODone 0 ''o1'' ''b'' 50 120 exLeased)))) ''o1'' = Some exLeasedRecord"
    by (simp add: resultErr_def)
  show "ob_Owner exLeasedRecord = ''a''" by code_simp
qed

text \<open>A loop that keeps its candidate or takes an element with a property.\<close>

lemma fold_pick:
  assumes "\<And>x s. f x s = s \<or> f x s = x \<and> P x"
  shows "fold f xs acc = acc \<or> fold f xs acc \<in> set xs \<and> P (fold f xs acc)"
proof (induction xs arbitrary: acc)
  case Nil
  then show ?case by simp
next
  case (Cons x xs)
  show ?case
  proof (cases "f x acc = acc")
    case True
    then show ?thesis using Cons.IH [of acc] by auto
  next
    case False
    then have "f x acc = x" "P x" using assms [of x acc] by auto
    then show ?thesis using Cons.IH [of x] by auto
  qed
qed

lemma fold_picks:
  assumes "\<And>x s. N s \<Longrightarrow> x \<in> set xs \<Longrightarrow> N (f x s)" and "\<And>x s. P x \<Longrightarrow> x \<in> set xs \<Longrightarrow> N (f x s)"
    and "N acc \<or> (\<exists>x\<in>set xs. P x)"
  shows "N (fold f xs acc)"
  using assms
proof (induction xs arbitrary: acc)
  case Nil
  then show ?case by simp
next
  case (Cons x xs)
  have "N (f x acc) \<or> (\<exists>y\<in>set xs. P y)" using Cons.prems by auto
  then show ?case using Cons.IH [of "f x acc"] Cons.prems(1,2) by auto
qed

lemma selectClaim_claimable:
  assumes "repo_inv env (d, r)" and "mget (mr_outbox r) i = Some x" and "claimable planID now x"
  defines "y \<equiv> selectClaim planID now (mvals (mr_outbox r))"
  shows "ob_ID y \<noteq> '''' \<and> mget (mr_outbox r) (ob_ID y) = Some y \<and> claimable planID now y"
proof -
  have wf: "mwf (mr_outbox r)" using assms(1) by (simp add: repo_inv_def repo_wf_def)
  have ids: "mget (mr_outbox r) j = Some z \<Longrightarrow> ob_ID z = j \<and> j \<noteq> ''''" for j z
    using assms(1) by (auto simp: repo_inv_def view_inv_def)
  have ne: "z \<in> set (mvals (mr_outbox r)) \<Longrightarrow> ob_ID z \<noteq> ''''" for z using ids mvals_mget [OF wf] by blast
  have "\<exists>z\<in>set (mvals (mr_outbox r)). claimable planID now z" using assms(2,3) mget_in_vals by fast
  then have y: "ob_ID y \<noteq> ''''" unfolding y_def selectClaim_def
    by (intro fold_picks [where N = "\<lambda>s. ob_ID s \<noteq> ''''" and P = "claimable planID now"]) (use ne in \<open>auto split: if_splits\<close>)
  then have zero: "y \<noteq> zeroRecord" by (auto simp: zeroRecord_def)
  have "y = zeroRecord \<or> y \<in> set (mvals (mr_outbox r)) \<and> claimable planID now y"
    unfolding y_def selectClaim_def by (rule fold_pick [where P = "claimable planID now"]) simp
  then have "y \<in> set (mvals (mr_outbox r)) \<and> claimable planID now y" using zero by blast
  then show ?thesis using y ids mvals_mget [OF wf] by blast
qed

lemma ClaimOutbox_memory:
  assumes "repo_inv env (d, r)" and "mr_statePath r = ''''" and "mget (mr_outbox r) i = Some x" and "claimable planID now x"
    and "\<not> blank owner" and "0 < ttl" and "now \<noteq> 0"
  shows "\<exists>y. ClaimOutbox env w clock planID owner ttl now (d, r) =
      ((d, r\<lparr>mr_outbox := mput (ob_ID y) (claimed owner ttl now y) (mr_outbox r), mr_dirty := True\<rparr>),
       Inr (cloneValue (re_Record env) (claimed owner ttl now y))) \<and> claimable planID now y \<and> mget (mr_outbox r) (ob_ID y) = Some y"
proof -
  let ?y = "selectClaim planID now (mvals (mr_outbox r))"
  let ?r' = "r\<lparr>mr_outbox := mput (ob_ID ?y) (claimed owner ttl now ?y) (mr_outbox r), mr_dirty := True\<rparr>"
  have y: "ob_ID ?y \<noteq> ''''" "mget (mr_outbox r) (ob_ID ?y) = Some ?y" "claimable planID now ?y"
    using selectClaim_claimable [OF assms(1,3,4)] by auto
  have "putRecord env w (claimed owner ttl now ?y) ?y (d, r) = ((d, ?r'), None)"
    using assms(2) by (simp add: putRecord_def commit_def persistLocked_def)
  then show ?thesis using y assms(5-7)
    by (intro exI [of _ ?y]) (simp add: ClaimOutbox_def claimOutboxLocked_def Let_def claimable_def mget0_def)
qed

text \<open>
  A waiting intent can be claimed. If some intent of the plan is neither settled, nor exhausted, nor under a running
  lease, and the repository needs no file, \<open>ClaimOutbox\<close> returns an intent, now leased to the caller until the given time
  and within its number of attempts. No intent blocks the others.
\<close>

theorem ClaimOutbox_progress:
  assumes "(repo_step env)\<^sup>*\<^sup>* (d0, newMemoryRepository '''') (d, r)" and "mr_statePath r = ''''"
    and "mget (mr_outbox r) i = Some x" and "claimable planID now x"
    and "\<not> blank owner" and "0 < ttl" and "now \<noteq> 0"
  shows "\<exists>y r'. ClaimOutbox env w clock planID owner ttl now (d, r) =
      ((d, r'), Inr (cloneValue (re_Record env) (claimed owner ttl now y))) \<and> claimable planID now y \<and>
    mget (mr_outbox r) (ob_ID y) = Some y \<and> mget (mr_outbox r') (ob_ID y) = Some (claimed owner ttl now y)"
proof -
  obtain y where "ClaimOutbox env w clock planID owner ttl now (d, r) =
      ((d, r\<lparr>mr_outbox := mput (ob_ID y) (claimed owner ttl now y) (mr_outbox r), mr_dirty := True\<rparr>),
       Inr (cloneValue (re_Record env) (claimed owner ttl now y)))" "claimable planID now y" "mget (mr_outbox r) (ob_ID y) = Some y"
    using ClaimOutbox_memory [OF reachable_inv [OF assms(1)] assms(2-7)] by blast
  then show ?thesis by (intro exI [of _ y]) simp
qed

theorem ClaimOutbox_progress_witness:
  "\<exists>y r'. ClaimOutbox exEnv0 IODone 0 ''p1'' ''b'' 50 200 exLeased =
      ((fst exLeased, r'), Inr (cloneValue (re_Record exEnv0) (claimed ''b'' 50 200 y))) \<and> claimable ''p1'' 200 y \<and>
    mget (mr_outbox (snd exLeased)) (ob_ID y) = Some y \<and> mget (mr_outbox r') (ob_ID y) = Some (claimed ''b'' 50 200 y)"
proof -
  have reach: "(repo_step exEnv0)\<^sup>*\<^sup>* ([], newMemoryRepository '''') (fst exLeased, snd exLeased)" using exLeased_reachable by simp
  have lk: "mget (mr_outbox (snd exLeased)) ''o1'' = Some exLeasedRecord" by code_simp
  have path: "mr_statePath (snd exLeased) = ''''" by code_simp
  have cl: "claimable ''p1'' 200 exLeasedRecord" by code_simp
  have ow: "\<not> blank ''b''" by code_simp
  from ClaimOutbox_progress [OF reach path lk cl ow, of 50 IODone 0] show ?thesis by simp
qed

text \<open>
  An intent is inserted once. In a reachable repository two records with the same plan and idempotency key are the
  same record; and once there is one, enqueueing the plan and key again changes nothing, whether it returns the
  existing record or a conflict.
\<close>

theorem outbox_once:
  assumes "(repo_step env)\<^sup>*\<^sup>* (d0, newMemoryRepository path) (d, r)" and "mget (mr_outbox r) i = Some x"
    and "ob_PlanID (trimmedRecord y) = ob_PlanID x" and "ob_IdempotencyKey (trimmedRecord y) = ob_IdempotencyKey x"
  shows "(\<forall>j z. mget (mr_outbox r) j = Some z \<and> ob_PlanID z = ob_PlanID x \<and> ob_IdempotencyKey z = ob_IdempotencyKey x \<longrightarrow> j = i) \<and>
    fst (EnqueueOutbox env w nano now y (d, r)) = (d, r) \<and>
    (\<forall>z b. snd (EnqueueOutbox env w nano now y (d, r)) = Inr (z, b) \<longrightarrow> z = cloneValue (re_Record env) x \<and> \<not> b)"
proof -
  have inv: "repo_inv env (d, r)" using reachable_inv [OF assms(1)] .
  then have wf: "mwf (mr_outbox r)" by (simp add: repo_inv_def repo_wf_def)
  have uniq: "\<forall>j z. mget (mr_outbox r) j = Some z \<and> ob_PlanID z = ob_PlanID x \<and> ob_IdempotencyKey z = ob_IdempotencyKey x \<longrightarrow> j = i"
    using inv assms(2) unfolding repo_inv_def view_inv_def by auto
  let ?same = "\<lambda>z. ob_PlanID z = ob_PlanID (trimmedRecord y) \<and> ob_IdempotencyKey z = ob_IdempotencyKey (trimmedRecord y)"
  have "find ?same (mvals (mr_outbox r)) \<noteq> None"
    using assms(2-4) mget_in_vals [OF assms(2)] by (auto simp: find_None_iff)
  then obtain z where z: "find ?same (mvals (mr_outbox r)) = Some z" by blast
  then have "z \<in> set (mvals (mr_outbox r))" "?same z" by (auto simp: find_Some_iff)
  then obtain j where j: "mget (mr_outbox r) j = Some z" using mvals_mget [OF wf] by blast
  then have "j = i" using uniq \<open>?same z\<close> assms(3,4) by simp
  then have "z = x" using j assms(2) by simp
  then show ?thesis using uniq z by (auto simp: EnqueueOutbox_def Let_def split: if_splits)
qed

theorem outbox_once_witness:
  "fst (EnqueueOutbox exEnv0 IODone 5 300 exIntent (fst exLeased, snd exLeased)) = (fst exLeased, snd exLeased)"
proof -
  have reach: "(repo_step exEnv0)\<^sup>*\<^sup>* ([], newMemoryRepository '''') (fst exLeased, snd exLeased)" using exLeased_reachable by simp
  have lk: "mget (mr_outbox (snd exLeased)) ''o1'' = Some exLeasedRecord" by code_simp
  have "ob_PlanID (trimmedRecord exIntent) = ob_PlanID exLeasedRecord" "ob_IdempotencyKey (trimmedRecord exIntent) = ob_IdempotencyKey exLeasedRecord"
    by code_simp+
  from outbox_once [OF reach lk this] show ?thesis by blast
qed

section \<open>From a draft to a stored plan\<close>

text \<open>
  C35: Freezing and storing fit together. A draft that \<open>Freeze\<close> accepts is given the digest of its content and revision
  1, keeps everything else, cannot be frozen again, and passes every check of the repository: in a repository without its
  ID and key \<open>CreatePlan\<close> stores it together with a valid initial projection.
\<close>

theorem frozen_plan_stored:
  assumes "Freeze (re_PlanHash env) p = (p', None)" and "\<And>q h. re_PlanHash env q = Inr h \<Longrightarrow> h \<noteq> ''''"
    and "mr_statePath r = ''''" and "mget (mr_plans r) (pl_ID p) = None" and "mget (mr_keys r) (planKey p) = None"
  shows "p' = p\<lparr>pl_PlanHash := pl_PlanHash p', pl_Status := PlanReady, pl_Revision := 1\<rparr> \<and>
    canonicalPlanHash (re_PlanHash env) p' = Inr (pl_PlanHash p') \<and> snd (Freeze (re_PlanHash env) p') \<noteq> None \<and>
    (\<exists>q r'. NewProjection p' = Inr q \<and> ValidateProjection q = None \<and> CreatePlan env w p' (d, r) = ((d, r'), None) \<and>
       mget (mr_plans r') (pl_ID p) = Some p' \<and> mget (mr_projections r') (pl_ID p) = Some q)"
proof -
  obtain h where h: "canonicalPlanHash (re_PlanHash env) p = Inr h" and p': "p' = p\<lparr>pl_PlanHash := h, pl_Status := PlanReady, pl_Revision := 1\<rparr>"
    and checks: "freezeChecks p = None"
    using assms(1) by (auto simp: Freeze_def split: option.splits sum.splits)
  have hash: "canonicalPlanHash (re_PlanHash env) p' = Inr h" using h by (simp add: p' canonicalPlanHash_def)
  have hne: "h \<noteq> ''''" using h assms(2) by (auto simp: canonicalPlanHash_def)
  have ids: "\<not> blank (pl_ID p)" "\<not> blank (pl_RequirementID p)" "\<not> blank (pl_WorkspaceID p)" and g: "ValidateGraph (pl_GraphSnapshot p) = None"
    using checks by (auto simp: freezeChecks_def check_simps)
  then have ne: "pl_ID p \<noteq> ''''" "pl_RequirementID p \<noteq> ''''" "pl_WorkspaceID p \<noteq> ''''" by (auto dest: not_blank_not_Nil)
  have again: "snd (Freeze (re_PlanHash env) p') \<noteq> None"
  proof -
    have "freezeChecks p' \<noteq> None" by (auto simp: freezeChecks_def check_simps p')
    then show ?thesis by (auto simp: Freeze_def)
  qed
  have "\<exists>q. NewProjection p' = Inr q" using g hne ne by (simp add: p' NewProjection_def Let_def case_err_Inr check_simps)
  then obtain q where q: "NewProjection p' = Inr q" by blast
  have pc: "planChecks env p' = Inr q" using q hash hne ne by (simp add: planChecks_def case_err_Inr check_simps p')
  let ?r' = "(withPlan p' q (withPlanKey p' r))\<lparr>mr_dirty := True\<rparr>"
  have "planKey p' = planKey p" by (simp add: planKey_def p')
  then have "CreatePlan env w p' (d, r) = ((d, ?r'), None)"
    using pc assms(3-5) by (simp add: CreatePlan_def Let_def p' mget0_def commit_def persistLocked_def)
  then show ?thesis using p' hash again q NewProjection_scope [OF q]
    by (intro conjI exI [of _ q] exI [of _ ?r']) simp_all
qed

theorem frozen_plan_stored_witness:
  "\<exists>q r'. NewProjection (fst (Freeze (re_PlanHash exEnv0) (exPlan\<lparr>pl_Status := PlanDraft\<rparr>))) = Inr q \<and>
     CreatePlan exEnv0 IODone (fst (Freeze (re_PlanHash exEnv0) (exPlan\<lparr>pl_Status := PlanDraft\<rparr>))) ([], newMemoryRepository '''') =
       (([], r'), None) \<and> mget (mr_projections r') ''p1'' = Some q"
proof -
  let ?p = "exPlan\<lparr>pl_Status := PlanDraft\<rparr>"
  let ?f = "Freeze (re_PlanHash exEnv0) ?p"
  have "snd ?f = None" by code_simp
  then have f: "?f = (fst ?f, None)" by (simp add: prod_eq_iff)
  have ne: "re_PlanHash exEnv0 q = Inr h \<Longrightarrow> h \<noteq> ''''" for q h by (auto simp: exEnv0_def exEnv_def)
  have id1: "pl_ID ?p = ''p1''" by code_simp
  have "\<exists>q r'. NewProjection (fst ?f) = Inr q \<and> ValidateProjection q = None \<and>
      CreatePlan exEnv0 IODone (fst ?f) ([], newMemoryRepository '''') = (([], r'), None) \<and>
      mget (mr_plans r') (pl_ID ?p) = Some (fst ?f) \<and> mget (mr_projections r') (pl_ID ?p) = Some q"
    using frozen_plan_stored [OF f ne, where r = "newMemoryRepository ''''" and d = "[]" and w = IODone]
    by (simp add: newMemoryRepository_def)
  then show ?thesis unfolding id1 by blast
qed

end
