(* ===== verification/Orch_RepoFindings.thy ===== *)
theory Orch_RepoFindings
  imports Orch_RepoProps
begin

text \<open>
  Behaviours of the repository that its comments do not promise: concrete runs, evaluated, and one general statement on
  the failure of the directory synchronisation.
\<close>

section \<open>A repeated commit writes its projection again\<close>

text \<open>The example plan in memory: created, then moved on by the commit of an event with the running projection.\<close>

definition exMem :: repo where
  "exMem = fst (CreatePlanWithEvent exEnv0 IODone exPlan exStarted ([], newMemoryRepository ''''))"

definition exMoved :: repo where
  "exMoved = fst (CommitEventProjection exEnv0 IODone exBound exRunning exMem)"

definition exReplayed :: "repo \<times> go_error option" where
  "exReplayed = CommitEventProjection exEnv0 IODone exStarted (projr (NewProjection exPlan)) exMoved"

text \<open>
  The commit of an event that is already in the log succeeds, appends nothing and still replaces the projection, here a
  newer one by an older one.
\<close>

theorem duplicate_commit_overwrites:
  "snd exReplayed = None \<and> mr_events (snd (fst exReplayed)) = mr_events (snd exMoved) \<and>
   mkeys (p_Attempts (projr (GetProjection ''p1'' (snd exMoved)))) = [''a1''] \<and>
   p_Attempts (projr (GetProjection ''p1'' (snd (fst exReplayed)))) = []"
  by code_simp

section \<open>A failed creation drops a key that was bound before\<close>

definition exKeyed :: RequirementExecutionPlan where
  "exKeyed = exPlan\<lparr>pl_IdempotencyKey := ''once''\<rparr>"

definition exKeyedRepo :: repo where
  "exKeyedRepo = fst (CreatePlan exEnv0 IODone exKeyed ([], newMemoryRepository ''/s''))"

definition exSecond :: "repo \<times> go_error option" where
  "exSecond = CreatePlanWithEvent exEnv0 (IOWrite (Sentinel ''disk full'')) (exKeyed\<lparr>pl_ID := ''p2''\<rparr>)
     (exStarted\<lparr>ev_PlanID := ''p2''\<rparr>) exKeyedRepo"

text \<open>
  A second plan with the same content and key, whose creation fails, leaves the first plan stored but its key
  unbound: a retry no longer finds the first plan.
\<close>

theorem failed_create_drops_key:
  "snd exSecond \<noteq> None \<and> mkeys (mr_plans (snd (fst exSecond))) = [''p1''] \<and>
   \<not> isl (GetPlanByIdempotency exEnv0 ''w1'' ''once'' (snd exKeyedRepo)) \<and>
   GetPlanByIdempotency exEnv0 ''w1'' ''once'' (snd (fst exSecond)) = Inl ErrNotFound"
  by code_simp

section \<open>A failed synchronisation after the rename\<close>

text \<open>
  When the directory cannot be synchronised after the rename, the state file is one revision ahead of the repository,
  which takes its change back. From then on every write is refused as stale.
\<close>

theorem sync_failure_blocks_writes:
  assumes "persistLocked env (IOSync e) (d, r) = ((d', r'), Some e)" and "d' \<noteq> d"
    and "\<And>st data. re_Marshal env st = Inr data \<Longrightarrow> re_Unmarshal env data = Inr st"
    and "mr_statePath r2 = mr_statePath r" and "mr_revision r2 = mr_revision r" and "mr_dirty r2" and "mr_revision r < maxInt64"
    and "in64 (mr_revision r)"
  shows "\<exists>err. snd (persistLocked env IODone (d', r2)) = Some err"
proof -
  have path: "mr_statePath r \<noteq> ''''" using assms(1,2) by (auto simp: persistLocked_def split: if_splits)
  let ?rev = "wrap64 (mr_revision r + 1)"
  have rev1: "?rev = mr_revision r + 1" using assms(7,8) by (simp add: in64_def minInt64_def)
  obtain data where data: "re_Marshal env (snapshotOf ?rev r) = Inr data" "d' = mput (mr_statePath r) data d"
    using assms(1,2) by (auto simp: persistLocked_def writeFile_def Let_def split: if_splits sum.splits)
  then have "orchestrationRevision env IODone d' (mr_statePath r2) = Inr ?rev"
    using assms(3,4) by (simp add: orchestrationRevision_def snapshotOf_def)
  then show ?thesis using assms(4-6) path rev1 by (simp add: persistLocked_def)
qed

section \<open>Keys of definitions collide\<close>

theorem key3_collides: "key3 ''a:b'' ''c'' 1 = key3 ''a'' ''b:c'' 1"
  by code_simp

section \<open>The outbox\<close>

definition exItem :: "string \<Rightarrow> int \<Rightarrow> OutboxRecord" where
  "exItem i created = exIntent\<lparr>ob_ID := i, ob_CreatedAt := created, ob_Status := ''pending''\<rparr>"

text \<open>Which of two waiting intents is claimed depends on the order in which the map is read.\<close>

theorem claim_depends_on_order:
  "ob_ID (selectClaim '''' 100 [exItem ''b'' 1, exItem ''a'' 2]) = ''a'' \<and>
   ob_ID (selectClaim '''' 100 [exItem ''a'' 2, exItem ''b'' 1]) = ''b''"
  by code_simp

text \<open>A claim by ID goes beyond the bound on attempts.\<close>

theorem claim_by_id_ignores_bound:
  "ob_Attempts (projr (snd (ClaimOutboxByID exEnv0 IODone 0 ''o1'' ''a'' 10 100
     ([], (newMemoryRepository '''')\<lparr>mr_outbox := [(''o1'', exIntent\<lparr>ob_Attempts := 2, ob_Status := ''pending''\<rparr>)]\<rparr>)))) = 3 \<and>
   ob_MaxAttempts exIntent = 2"
  by code_simp

text \<open>An intent with another key but the ID of a stored one replaces it.\<close>

theorem enqueue_replaces_intent:
  "\<not> isl (snd (EnqueueOutbox exEnv0 IODone 1 10 (exIntent\<lparr>ob_IdempotencyKey := ''k2''\<rparr>) exQueued)) \<and>
   map ob_IdempotencyKey (mvals (mr_outbox (snd exQueued))) = [''k1''] \<and>
   map ob_IdempotencyKey (mvals (mr_outbox (snd (fst (EnqueueOutbox exEnv0 IODone 1 10 (exIntent\<lparr>ob_IdempotencyKey := ''k2''\<rparr>) exQueued))))) = [''k2'']"
  by code_simp

text \<open>When the write fails, the intent that had the ID is gone, although the operation has returned an error.\<close>

definition exFailedEnqueue :: "repo \<times> (go_error + OutboxRecord \<times> bool)" where
  "exFailedEnqueue = EnqueueOutbox exEnv0 (IOWrite (Sentinel ''disk full'')) 1 10 (exIntent\<lparr>ob_IdempotencyKey := ''k2''\<rparr>)
     ([], (newMemoryRepository ''/s'')\<lparr>mr_outbox := [(''o1'', exIntent)]\<rparr>)"

theorem failed_enqueue_deletes:
  "isl (snd exFailedEnqueue) \<and> mr_outbox (snd (fst exFailedEnqueue)) = []"
  by code_simp

section \<open>The nesting limit of a squad is not that of the squads it nests\<close>

definition exSquad :: "string \<Rightarrow> int \<Rightarrow> string list \<Rightarrow> SquadDefinition" where
  "exSquad i depth nested = zeroSquad\<lparr>sq_ID := i, sq_WorkspaceID := ''w'', sq_Revision := 1, sq_Status := SquadPublished,
     sq_Policy := (sq_Policy zeroSquad)\<lparr>sp_MaxNestingDepth := depth\<rparr>,
     sq_Members := map (\<lambda>n. \<lparr>sm_ID = n, sm_AgentID = '''', sm_SquadID = n, sm_Role = ''r'', sm_Leader = False, sm_InputSchema = zeroSchema,
       sm_OutputSchema = zeroSchema, sm_CapabilityConstraints = [], sm_MaxAttempts = 0, sm_Budget = zeroBudget, sm_Optional = False\<rparr>) nested\<rparr>"

definition exSquads :: MemoryRepository where
  "exSquads = (newMemoryRepository '''')\<lparr>mr_squads := [(key3 ''w'' ''b'' 1, exSquad ''b'' 0 [''c'']), (key3 ''w'' ''c'' 1, exSquad ''c'' 0 [])]\<rparr>"

text \<open>
  A squad that allows one level of nesting is accepted although it nests a squad that nests another: the squads below
  the first have no limit of their own and the walk compares the depth with the limit of the squad it stands on.
\<close>

theorem nesting_limit_not_inherited:
  "validateSquadGraphRefsLocked exSquads (exSquad ''a'' 1 [''b'']) 0 [] = None \<and>
   sp_MaxNestingDepth (sq_Policy (exSquad ''a'' 1 [''b''])) = 1 \<and> squadRefs (exSquad ''b'' 0 [''c'']) = [''c'']"
  by code_simp

end
