(* ===== verification/Orch_Bundle.thy ===== *)
theory Orch_Bundle
  imports Orch_RepoMachine
begin

text \<open>
  The import of a bundle of agent and squad definitions (\<open>definition_bundle.go\<close>): every definition of the bundle is
  completed, validated and compared with what is stored before one durable write. \<open>reflect.DeepEqual\<close> is equality of
  the records. The digest of a bundle is the hash of its JSON text, an argument.
\<close>

section \<open>Operations\<close>

record DefinitionBundle =
  db_Format :: string
  db_SourceWorkspaceID :: string
  db_Agents :: "AgentDefinition list"
  db_Squads :: "SquadDefinition list"

record DefinitionImportReport =
  ir_Format :: string
  ir_Digest :: string
  ir_AgentCount :: int
  ir_SquadCount :: int
  ir_CreatedAgents :: int
  ir_CreatedSquads :: int
  ir_SkippedAgents :: int
  ir_SkippedSquads :: int
  ir_DryRun :: bool

definition DefinitionBundleFormat :: string where
  "DefinitionBundleFormat = ''adro.workspace-definitions.v1''"

definition agentKey :: "AgentDefinition \<Rightarrow> string" where
  "agentKey a = key3 (ag_WorkspaceID a) (ag_ID a) (ag_Revision a)"

definition BundleDigest :: "(DefinitionBundle \<Rightarrow> go_error + string) \<Rightarrow> DefinitionBundle \<Rightarrow> go_error + string" where
  "BundleDigest hashOf b =
     hashOf (b\<lparr>db_Format := DefinitionBundleFormat, db_Agents := sort_stable (\<lambda>x y. agentKey x < agentKey y) (db_Agents b),
       db_Squads := sort_stable (\<lambda>x y. squadKey x < squadKey y) (db_Squads b)\<rparr>)"

definition credentialFragments :: "string list" where
  "credentialFragments = [''token'', ''secret'', ''password'', ''passwd'', ''cookie'', ''api-key'', ''apikey'', ''credential'']"

definition argumentName :: "string \<Rightarrow> string" where
  "argumentName arg = ToLower (TrimSpace (takeWhile (\<lambda>c. c \<noteq> CHR ''='') arg))"

definition validatePortableExecutorBinding :: "ExecutorBinding \<Rightarrow> go_error option" where
  "validatePortableExecutorBinding x =
     first_err
      [guard (\<not> blank (x_ProviderVersion x) \<or> \<not> blank (x_BinaryDigest x))
         (Errorf ''provider_version and binary_digest are machine observations and cannot be imported'' []),
       check_indexed 0 (\<lambda>i arg. guard (list_ex (Contains (argumentName arg)) credentialFragments)
         (Errorf ''custom argument %q may contain a credential and cannot be imported'' [ArgS (argumentName arg)]))
         (x_CustomArgs x)]"

text \<open>What a loop over the definitions of a bundle builds up: the candidate map, the keys seen and two counters.\<close>

type_synonym 'a importing = "(string, 'a) gomap \<times> string list \<times> int \<times> int"

definition agentDefaults :: "string \<Rightarrow> int \<Rightarrow> AgentDefinition \<Rightarrow> AgentDefinition" where
  "agentDefaults ws now a =
     (let created = (if IsZero (ag_CreatedAt a) then now else ag_CreatedAt a) in
      a\<lparr>ag_WorkspaceID := ws, ag_Revision := (if ag_Revision a = 0 then 1 else ag_Revision a),
        ag_Status := (if ag_Status a = AgentOther '''' then AgentActive else ag_Status a),
        ag_CreatedAt := created, ag_UpdatedAt := (if IsZero (ag_UpdatedAt a) then created else ag_UpdatedAt a)\<rparr>)"

definition importAgent ::
  "RepoEnv \<Rightarrow> string \<Rightarrow> int \<Rightarrow> nat \<Rightarrow> AgentDefinition \<Rightarrow> AgentDefinition importing \<Rightarrow> go_error + AgentDefinition importing" where
  "importAgent env ws now i a0 st =
     (case st of (cand, seen, created, skipped) \<Rightarrow>
        let a = agentDefaults ws now (cloneValue (re_Agent env) a0); k = key3 ws (ag_ID a) (ag_Revision a);
            here = ''agents['' @ itoa (int i) @ '']'' in
        case first_err
         [map_option (\<lambda>e. Wrapf e here) (ValidateAgent a),
          map_option (\<lambda>e. Wrapf e here) (validatePortableExecutorBinding (ag_ExecutorBinding a)),
          guard (k \<in> set seen) (Errorf ''agents[%d]: duplicate agent revision %s'' [ArgI (int i), ArgS k])] of
          Some e \<Rightarrow> Inl e
        | None \<Rightarrow>
            (case mget cand k of
               Some existing \<Rightarrow>
                 if existing \<noteq> a\<lparr>ag_CreatedAt := ag_CreatedAt existing, ag_UpdatedAt := ag_UpdatedAt existing\<rparr> then
                   Inl (Errorf ''agents[%d]: agent revision %s conflicts with existing definition'' [ArgI (int i), ArgS k])
                 else Inr (cand, k # seen, created, skipped + 1)
             | None \<Rightarrow> Inr (mput k a cand, k # seen, created + 1, skipped)))"

definition squadDefaults :: "string \<Rightarrow> SquadDefinition \<Rightarrow> SquadDefinition" where
  "squadDefaults ws s = s\<lparr>sq_WorkspaceID := ws, sq_Revision := (if sq_Revision s = 0 then 1 else sq_Revision s),
     sq_Status := (if sq_Status s = SquadOther '''' then SquadPublished else sq_Status s)\<rparr>"

definition importSquad ::
  "RepoEnv \<Rightarrow> string \<Rightarrow> MemoryRepository \<Rightarrow> nat \<Rightarrow> SquadDefinition \<Rightarrow> SquadDefinition importing \<Rightarrow> go_error + SquadDefinition importing" where
  "importSquad env ws r i s0 st =
     (case st of (cand, seen, created, skipped) \<Rightarrow>
        let s = squadDefaults ws (cloneValue (re_Squad env) s0); k = key3 ws (sq_ID s) (sq_Revision s);
            here = ''squads['' @ itoa (int i) @ '']'' in
        case first_err
         [map_option (\<lambda>e. Wrapf e here) (ValidateSquad s),
          (if sq_Status s = SquadPublished then map_option (\<lambda>e. Wrapf e here) (validatePublishedSquadLocked r s) else None),
          guard (k \<in> set seen) (Errorf ''squads[%d]: duplicate squad revision %s'' [ArgI (int i), ArgS k])] of
          Some e \<Rightarrow> Inl e
        | None \<Rightarrow>
            (case mget cand k of
               Some existing \<Rightarrow>
                 if existing \<noteq> s then
                   Inl (Errorf ''squads[%d]: squad revision %s conflicts with existing definition'' [ArgI (int i), ArgS k])
                 else Inr (cand, k # seen, created, skipped + 1)
             | None \<Rightarrow> Inr (mput k s cand, k # seen, created + 1, skipped)))"

fun importLoop :: "(nat \<Rightarrow> 'a \<Rightarrow> 'a importing \<Rightarrow> go_error + 'a importing) \<Rightarrow> nat \<Rightarrow> 'a list \<Rightarrow> 'a importing \<Rightarrow> go_error + 'a importing" where
  "importLoop f i [] st = Inr st"
| "importLoop f i (x # xs) st = (case f i x st of Inl e \<Rightarrow> Inl e | Inr st' \<Rightarrow> importLoop f (Suc i) xs st')"

text \<open>
  The squads are checked against a repository with the candidate agents. Whatever the outcome, the deferred function
  puts back the agents, squads, dirty flag and revision it was given last: those of before, or the new ones after
  a successful write.
\<close>

definition ImportDefinitionBundle ::
  "RepoEnv \<Rightarrow> io \<Rightarrow> (DefinitionBundle \<Rightarrow> go_error + string) \<Rightarrow> int \<Rightarrow> string \<Rightarrow> DefinitionBundle \<Rightarrow> bool \<Rightarrow> repo \<Rightarrow>
     repo \<times> (go_error + DefinitionImportReport)" where
  "ImportDefinitionBundle env w hashOf now ws0 b dryRun s =
     (case s of (d, r) \<Rightarrow>
        let ws = TrimSpace ws0 in
        case first_err
         [guard (ws = '''') (Errorf ''workspace_id is required'' []),
          guard (db_Format b \<noteq> DefinitionBundleFormat) (Errorf ''unsupported bundle format %q'' [ArgS (db_Format b)]),
          guard (db_Agents b = [] \<and> db_Squads b = []) (Errorf ''bundle must contain at least one definition'' [])] of
          Some e \<Rightarrow> (s, Inl e)
        | None \<Rightarrow>
            (case BundleDigest hashOf b of
               Inl e \<Rightarrow> (s, Inl (Wrapf e ''digest bundle''))
             | Inr digest \<Rightarrow>
                 (case importLoop (importAgent env ws now) 0 (db_Agents b) (cloneValue (re_Agents env) (mr_agents r), [], 0, 0) of
                    Inl e \<Rightarrow> (s, Inl e)
                  | Inr (agents, seenA, createdA, skippedA) \<Rightarrow>
                      (case importLoop (importSquad env ws (r\<lparr>mr_agents := agents\<rparr>)) 0 (db_Squads b)
                          (cloneValue (re_Squads env) (mr_squads r), [], 0, 0) of
                         Inl e \<Rightarrow> (s, Inl e)
                       | Inr (squads, seenS, createdS, skippedS) \<Rightarrow>
                           (let report = \<lparr>ir_Format = DefinitionBundleFormat, ir_Digest = digest,
                                  ir_AgentCount = int (length (db_Agents b)), ir_SquadCount = int (length (db_Squads b)),
                                  ir_CreatedAgents = createdA, ir_CreatedSquads = createdS,
                                  ir_SkippedAgents = skippedA, ir_SkippedSquads = skippedS, ir_DryRun = dryRun\<rparr> in
                            if dryRun then (s, Inr report)
                            else case commit env w
                                (\<lambda>r'. r'\<lparr>mr_agents := mr_agents r, mr_squads := mr_squads r, mr_dirty := mr_dirty r,
                                  mr_revision := mr_revision r\<rparr>)
                                (d, r\<lparr>mr_agents := agents, mr_squads := squads, mr_dirty := True\<rparr>) of
                              (s', Some e) \<Rightarrow> (s', Inl (Wrapf e ''persist definition bundle''))
                            | (s', None) \<Rightarrow> (s', Inr report))))))"

section \<open>Lemmas\<close>

text \<open>
  The loops keep what was stored, add definitions of the bundle under keys that were free, and count every element of the
  bundle once.
\<close>

definition imports_from :: "(string \<Rightarrow> 'a \<Rightarrow> bool) \<Rightarrow> (string, 'a) gomap \<Rightarrow> 'a importing \<Rightarrow> bool" where
  "imports_from P m st \<longleftrightarrow> mget m \<subseteq>\<^sub>m mget (fst st) \<and> (\<forall>k x. mget (fst st) k = Some x \<longrightarrow> mget m k = Some x \<or> P k x)"

lemma importLoop_inv:
  assumes "\<And>i x st st'. x \<in> set xs \<Longrightarrow> f i x st = Inr st' \<Longrightarrow> Q st \<Longrightarrow> Q st'" and "importLoop f i xs st = Inr st'" and "Q st"
  shows "Q st'"
  using assms
proof (induction xs arbitrary: i st)
  case (Cons x xs)
  obtain st1 where run: "f i x st = Inr st1" "importLoop f (Suc i) xs st1 = Inr st'" using Cons.prems(2) by (auto split: sum.splits)
  have "Q st1" by (rule Cons.prems(1) [OF list.set_intros(1) run(1) Cons.prems(3)])
  moreover have "Q b" if "y \<in> set xs" "f j y a = Inr b" "Q a" for j y a b
    by (rule Cons.prems(1) [OF list.set_intros(2) [OF that(1)] that(2,3)])
  ultimately show ?case using Cons.IH run(2) by metis
qed simp

lemma importLoop_count:
  assumes "\<And>i x st st'. f i x st = Inr st' \<Longrightarrow> fst (snd (snd st')) + snd (snd (snd st')) = fst (snd (snd st)) + snd (snd (snd st)) + 1"
  shows "importLoop f i xs st = Inr st' \<Longrightarrow>
    fst (snd (snd st')) + snd (snd (snd st')) = fst (snd (snd st)) + snd (snd (snd st)) + int (length xs)"
  by (induction xs arbitrary: i st) (auto split: sum.splits dest!: assms)

text \<open>When a round stores its element, and keeps what is stored, the loop stores all.\<close>

lemma importLoop_stored:
  assumes "\<And>i x st st'. f i x st = Inr st' \<Longrightarrow> mget (fst st) \<subseteq>\<^sub>m mget (fst st') \<and> (\<exists>y. mget (fst st') (key x) = Some y \<and> Q x y)"
    and "importLoop f i xs st = Inr st'"
  shows "mget (fst st) \<subseteq>\<^sub>m mget (fst st') \<and> (\<forall>x\<in>set xs. \<exists>y. mget (fst st') (key x) = Some y \<and> Q x y)"
  using assms(2)
proof (induction xs arbitrary: i st)
  case (Cons x xs)
  obtain st1 where run: "f i x st = Inr st1" "importLoop f (Suc i) xs st1 = Inr st'" using Cons.prems by (auto split: sum.splits)
  note this_ = assms(1) [OF run(1)] and rest = Cons.IH [OF run(2)]
  from this_ obtain y where y: "mget (fst st1) (key x) = Some y" "Q x y" by blast
  then have "mget (fst st') (key x) = Some y" using rest by (auto simp: map_le_def dom_def)
  then show ?case using this_ rest y(2) map_le_trans by auto
qed simp

definition agent_portable :: "string \<Rightarrow> AgentDefinition \<Rightarrow> bool" where
  "agent_portable ws a \<longleftrightarrow> ValidateAgent a = None \<and> validatePortableExecutorBinding (ag_ExecutorBinding a) = None \<and> ag_WorkspaceID a = ws"

text \<open>The definitions of a bundle as they are imported into a workspace.\<close>

definition importedAgent :: "RepoEnv \<Rightarrow> string \<Rightarrow> int \<Rightarrow> AgentDefinition \<Rightarrow> AgentDefinition" where
  "importedAgent env ws now a = agentDefaults ws now (cloneValue (re_Agent env) a)"

definition importedSquad :: "RepoEnv \<Rightarrow> string \<Rightarrow> SquadDefinition \<Rightarrow> SquadDefinition" where
  "importedSquad env ws s = squadDefaults ws (cloneValue (re_Squad env) s)"

lemma imports_put:
  assumes "imports_from P m (cand, rest)" and "mget cand k = None" and "P k x"
  shows "imports_from P m (mput k x cand, rest')"
proof -
  have le: "mget m \<subseteq>\<^sub>m mget cand" and new: "\<forall>k x. mget cand k = Some x \<longrightarrow> mget m k = Some x \<or> P k x"
    using assms(1) by (auto simp: imports_from_def)
  have "mget m k = None" using le assms(2) by (metis domIff map_le_def)
  then have "mget m \<subseteq>\<^sub>m mget (mput k x cand)" using le by (auto simp: map_le_def)
  moreover have "mget m j = Some y \<or> P j y" if "mget (mput k x cand) j = Some y" for j y
    using that new assms(3) by (auto split: if_splits)
  ultimately show ?thesis by (simp add: imports_from_def)
qed

lemma importAgent_cases:
  assumes "importAgent env ws now i a0 st = Inr st'"
  defines "a \<equiv> importedAgent env ws now a0"
  obtains (skipped) existing where "fst st' = fst st" "mget (fst st) (agentKey a) = Some existing"
      "existing = a\<lparr>ag_CreatedAt := ag_CreatedAt existing, ag_UpdatedAt := ag_UpdatedAt existing\<rparr>"
  | (created) "fst st' = mput (agentKey a) a (fst st)" "mget (fst st) (agentKey a) = None" "agent_portable ws a"
proof -
  have ws: "ag_WorkspaceID a = ws" by (simp add: a_def importedAgent_def agentDefaults_def Let_def)
  then have k: "key3 ws (ag_ID a) (ag_Revision a) = agentKey a" by (simp add: agentKey_def)
  show thesis
    using assms(1) that
    by (cases st) (auto simp: importAgent_def Let_def case_err_Inr check_simps agent_portable_def importedAgent_def [symmetric]
        a_def [symmetric] ws k split: option.splits if_splits)
qed

lemma importSquad_cases:
  assumes "importSquad env ws r i s0 st = Inr st'"
  defines "s \<equiv> importedSquad env ws s0"
  obtains (skipped) "fst st' = fst st" "mget (fst st) (squadKey s) = Some s"
  | (created) "fst st' = mput (squadKey s) s (fst st)" "mget (fst st) (squadKey s) = None" "ValidateSquad s = None"
proof -
  have "sq_WorkspaceID s = ws" by (simp add: s_def importedSquad_def squadDefaults_def)
  then have k: "key3 ws (sq_ID s) (sq_Revision s) = squadKey s" by (simp add: squadKey_def)
  show thesis
    using assms(1) that
    by (cases st) (auto simp: importSquad_def Let_def case_err_Inr check_simps importedSquad_def [symmetric] s_def [symmetric] k
        split: option.splits if_splits)
qed

text \<open>What is new comes from the bundle.\<close>

definition agent_from :: "RepoEnv \<Rightarrow> string \<Rightarrow> int \<Rightarrow> DefinitionBundle \<Rightarrow> string \<Rightarrow> AgentDefinition \<Rightarrow> bool" where
  "agent_from env ws now b k a \<longleftrightarrow> a \<in> importedAgent env ws now ` set (db_Agents b) \<and> k = agentKey a \<and> agent_portable ws a"

definition squad_from :: "RepoEnv \<Rightarrow> string \<Rightarrow> DefinitionBundle \<Rightarrow> string \<Rightarrow> SquadDefinition \<Rightarrow> bool" where
  "squad_from env ws b k s \<longleftrightarrow> s \<in> importedSquad env ws ` set (db_Squads b) \<and> k = squadKey s \<and> ValidateSquad s = None"

lemma importAgent_step:
  assumes "importAgent env ws now i a st = Inr st'" and "a \<in> set (db_Agents b)" and "imports_from (agent_from env ws now b) m st"
  shows "imports_from (agent_from env ws now b) m st'"
  using assms(1)
proof (cases rule: importAgent_cases)
  case skipped
  then show ?thesis using assms(3) by (simp add: imports_from_def)
next
  case created
  let ?a = "importedAgent env ws now a"
  from created show ?thesis
    using imports_put [of "agent_from env ws now b" m "fst st" "snd st" "agentKey ?a" ?a "snd st'"] assms(2,3)
    by (simp add: agent_from_def imports_from_def)
qed

lemma importSquad_step:
  assumes "importSquad env ws r i s st = Inr st'" and "s \<in> set (db_Squads b)" and "imports_from (squad_from env ws b) m st"
  shows "imports_from (squad_from env ws b) m st'"
  using assms(1)
proof (cases rule: importSquad_cases)
  case skipped
  then show ?thesis using assms(3) by (simp add: imports_from_def)
next
  case created
  let ?s = "importedSquad env ws s"
  from created show ?thesis
    using imports_put [of "squad_from env ws b" m "fst st" "snd st" "squadKey ?s" ?s "snd st'"] assms(2,3)
    by (simp add: squad_from_def imports_from_def)
qed

text \<open>A stored agent that says what an imported one says: only the times of its creation and change may be its own.\<close>

definition sameAgent :: "AgentDefinition \<Rightarrow> AgentDefinition \<Rightarrow> bool" where
  "sameAgent a x \<longleftrightarrow> x = a\<lparr>ag_CreatedAt := ag_CreatedAt x, ag_UpdatedAt := ag_UpdatedAt x\<rparr>"

lemma importAgent_stores:
  assumes "importAgent env ws now i a st = Inr st'"
  shows "mget (fst st) \<subseteq>\<^sub>m mget (fst st') \<and>
    (\<exists>x. mget (fst st') (agentKey (importedAgent env ws now a)) = Some x \<and> sameAgent (importedAgent env ws now a) x)"
  using assms by (cases rule: importAgent_cases) (auto simp: sameAgent_def map_le_def dom_def)

lemma importSquad_stores:
  assumes "importSquad env ws r i s st = Inr st'"
  shows "mget (fst st) \<subseteq>\<^sub>m mget (fst st') \<and> (\<exists>x. mget (fst st') (squadKey (importedSquad env ws s)) = Some x \<and> x = importedSquad env ws s)"
  using assms by (cases rule: importSquad_cases) (auto simp: map_le_def dom_def)

lemma importAgent_count:
  "importAgent env ws now i a st = Inr st' \<Longrightarrow> fst (snd (snd st')) + snd (snd (snd st')) = fst (snd (snd st)) + snd (snd (snd st)) + 1"
  by (cases st) (auto simp: importAgent_def Let_def case_err_Inr split: option.splits if_splits)

lemma importSquad_count:
  "importSquad env ws r i a st = Inr st' \<Longrightarrow> fst (snd (snd st')) + snd (snd (snd st')) = fst (snd (snd st)) + snd (snd (snd st)) + 1"
  by (cases st) (auto simp: importSquad_def Let_def case_err_Inr split: option.splits if_splits)

lemma Import_cases:
  assumes "ImportDefinitionBundle env w hashOf now ws0 b dryRun (d, r) = ((d', r'), res)"
  obtains (refused) "isl res" and "r' = r"
  | (checked) report where "dryRun" and "res = Inr report" and "r' = r" and "d' = d"
  | (imported) report agents seenA ca sa squads seenS cs ss where "\<not> dryRun" and "res = Inr report"
      and "importLoop (importAgent env (TrimSpace ws0) now) 0 (db_Agents b) (cloneValue (re_Agents env) (mr_agents r), [], 0, 0) =
        Inr (agents, seenA, ca, sa)"
      and "importLoop (importSquad env (TrimSpace ws0) (r\<lparr>mr_agents := agents\<rparr>)) 0 (db_Squads b)
        (cloneValue (re_Squads env) (mr_squads r), [], 0, 0) = Inr (squads, seenS, cs, ss)"
      and "ir_CreatedAgents report = ca" "ir_SkippedAgents report = sa" "ir_CreatedSquads report = cs" "ir_SkippedSquads report = ss"
      and "same_contents (r\<lparr>mr_agents := agents, mr_squads := squads\<rparr>) r'"
proof -
  let ?ws = "TrimSpace ws0"
  let ?checks = "first_err
         [guard (?ws = '''') (Errorf ''workspace_id is required'' []),
          guard (db_Format b \<noteq> DefinitionBundleFormat) (Errorf ''unsupported bundle format %q'' [ArgS (db_Format b)]),
          guard (db_Agents b = [] \<and> db_Squads b = []) (Errorf ''bundle must contain at least one definition'' [])]"
  let ?A = "importLoop (importAgent env ?ws now) 0 (db_Agents b) (cloneValue (re_Agents env) (mr_agents r), [], 0, 0)"
  let ?S = "\<lambda>agents. importLoop (importSquad env ?ws (r\<lparr>mr_agents := agents\<rparr>)) 0 (db_Squads b)
        (cloneValue (re_Squads env) (mr_squads r), [], 0, 0)"
  let ?undo = "\<lambda>r'. r'\<lparr>mr_agents := mr_agents r, mr_squads := mr_squads r, mr_dirty := mr_dirty r, mr_revision := mr_revision r\<rparr>"
  consider (no) "(r' = r \<and> isl res)" | (dry) report where "dryRun" "res = Inr report" "r' = r" "d' = d" |
    (run) digest agents seenA ca sa squads seenS cs ss where "\<not> dryRun" "?checks = None" "BundleDigest hashOf b = Inr digest"
      "?A = Inr (agents, seenA, ca, sa)" "?S agents = Inr (squads, seenS, cs, ss)"
    using assms unfolding ImportDefinitionBundle_def Let_def
    by (cases dryRun) (auto split: option.splits sum.splits prod.splits)
  then show thesis
  proof cases
    case no
    then show ?thesis using that(1) by blast
  next
    case dry
    then show ?thesis using that(2) by blast
  next
    case run
    obtain d1 r1 res1 where c: "commit env w ?undo (d, r\<lparr>mr_agents := agents, mr_squads := squads, mr_dirty := True\<rparr>) = ((d1, r1), res1)"
      by (rule nested_pair)
    from c show ?thesis
    proof (cases rule: commit_cases)
      case (failed e)
      then show ?thesis using that(1) assms run c by (auto simp: ImportDefinitionBundle_def Let_def)
    next
      case written
      then have "same_contents (r\<lparr>mr_agents := agents, mr_squads := squads\<rparr>) r1" by (auto simp: same_contents_def)
      then show ?thesis using that(3) [OF run(1) _ run(4,5)] assms run c written
        by (auto simp: ImportDefinitionBundle_def Let_def)
    qed
  qed
qed

section \<open>Properties\<close>

text \<open>
  C34: A bundle is imported as a whole or not at all. An error, and a dry run, leave the repository as it was. After a
  successful import every agent and every squad of the bundle is stored under its key in the target workspace, completed
  with the defaults of the import; an agent that was stored before may keep its own times. Everything stored before is kept,
  and what is new comes from the bundle: agents that are valid and carry neither machine observations nor credential-like
  arguments, and valid squads. The report counts every definition as created or skipped.
\<close>

theorem ImportDefinitionBundle_all_or_nothing:
  assumes "ImportDefinitionBundle env w hashOf now ws0 b dryRun (d, r) = ((d', r'), res)"
    and "cloneValue (re_Agents env) (mr_agents r) = mr_agents r" and "cloneValue (re_Squads env) (mr_squads r) = mr_squads r"
  shows "case res of
      Inl e \<Rightarrow> r' = r
    | Inr report \<Rightarrow>
        if dryRun then (d', r') = (d, r)
        else (\<forall>a\<in>set (db_Agents b). \<exists>x. mget (mr_agents r') (agentKey (importedAgent env (TrimSpace ws0) now a)) = Some x \<and>
            sameAgent (importedAgent env (TrimSpace ws0) now a) x) \<and>
          (\<forall>s\<in>set (db_Squads b). mget (mr_squads r') (squadKey (importedSquad env (TrimSpace ws0) s)) = Some (importedSquad env (TrimSpace ws0) s)) \<and>
          mget (mr_agents r) \<subseteq>\<^sub>m mget (mr_agents r') \<and> mget (mr_squads r) \<subseteq>\<^sub>m mget (mr_squads r') \<and>
          (\<forall>k a. mget (mr_agents r') k = Some a \<longrightarrow> mget (mr_agents r) k = Some a \<or>
            k = agentKey a \<and> agent_portable (TrimSpace ws0) a \<and> a \<in> importedAgent env (TrimSpace ws0) now ` set (db_Agents b)) \<and>
          (\<forall>k s. mget (mr_squads r') k = Some s \<longrightarrow> mget (mr_squads r) k = Some s \<or>
            k = squadKey s \<and> ValidateSquad s = None \<and> s \<in> importedSquad env (TrimSpace ws0) ` set (db_Squads b)) \<and>
          ir_CreatedAgents report + ir_SkippedAgents report = int (length (db_Agents b)) \<and>
          ir_CreatedSquads report + ir_SkippedSquads report = int (length (db_Squads b))"
  using assms(1)
proof (cases rule: Import_cases)
  case refused
  then show ?thesis by (cases res) auto
next
  case checked
  then show ?thesis by simp
next
  case (imported report agents seenA ca sa squads seenS cs ss)
  let ?ws = "TrimSpace ws0"
  have "imports_from (agent_from env ?ws now b) (mr_agents r) (agents, seenA, ca, sa)"
    by (rule importLoop_inv [OF importAgent_step imported(3)]) (auto simp: assms(2) imports_from_def)
  then have a: "\<forall>k a. mget agents k = Some a \<longrightarrow> mget (mr_agents r) k = Some a \<or> agent_from env ?ws now b k a" by (simp add: imports_from_def)
  have "imports_from (squad_from env ?ws b) (mr_squads r) (squads, seenS, cs, ss)"
    by (rule importLoop_inv [OF importSquad_step imported(4)]) (auto simp: assms(3) imports_from_def)
  then have s: "\<forall>k s. mget squads k = Some s \<longrightarrow> mget (mr_squads r) k = Some s \<or> squad_from env ?ws b k s" by (simp add: imports_from_def)
  note storedA = importLoop_stored [where key = "\<lambda>a. agentKey (importedAgent env ?ws now a)" and Q = "\<lambda>a. sameAgent (importedAgent env ?ws now a)",
      OF importAgent_stores imported(3)]
  note storedS = importLoop_stored [where key = "\<lambda>s. squadKey (importedSquad env ?ws s)" and Q = "\<lambda>s x. x = importedSquad env ?ws s",
      OF importSquad_stores imported(4)]
  have n: "ca + sa = int (length (db_Agents b))" "cs + ss = int (length (db_Squads b))"
    using importLoop_count [OF importAgent_count imported(3)] importLoop_count [OF importSquad_count imported(4)] by simp_all
  have "mr_agents r' = agents" "mr_squads r' = squads" using imported(9) by (auto simp: same_contents_def)
  then show ?thesis
    using imported(1,2,5-8) a [unfolded agent_from_def] s [unfolded squad_from_def] n storedA storedS assms(2,3) by auto
qed

definition exAgent :: AgentDefinition where
  "exAgent = zeroAgent\<lparr>ag_ID := ''agent'', ag_Name := ''Agent'', ag_InputSchema := \<lparr>s_ID = ''in'', s_Version = 1\<rparr>,
     ag_OutputSchema := \<lparr>s_ID = ''out'', s_Version = 1\<rparr>,
     ag_ExecutorBinding := (ag_ExecutorBinding zeroAgent)\<lparr>x_ProviderID := ''codex'', x_CustomArgs := [''--fast'']\<rparr>\<rparr>"

definition exBundle :: DefinitionBundle where
  "exBundle = \<lparr>db_Format = ''adro.workspace-definitions.v1'', db_SourceWorkspaceID = ''w0'', db_Agents = [exAgent], db_Squads = []\<rparr>"

definition exImport :: "repo \<times> (go_error + DefinitionImportReport)" where
  "exImport = ImportDefinitionBundle exEnv0 IODone (\<lambda>_. Inr ''digest'') 7 ''w'' exBundle False ([], newMemoryRepository '''')"

theorem ImportDefinitionBundle_all_or_nothing_witness:
  "\<exists>x. mget (mr_agents (snd (fst exImport))) ''w:agent:1'' = Some x \<and> sameAgent (importedAgent exEnv0 ''w'' 7 exAgent) x \<and> ag_Name x = ''Agent''"
proof -
  let ?r = "newMemoryRepository ''''"
  have run: "ImportDefinitionBundle exEnv0 IODone (\<lambda>_. Inr ''digest'') 7 ''w'' exBundle False ([], ?r) =
      ((fst (fst exImport), snd (fst exImport)), Inr (projr (snd exImport)))"
  proof -
    have "\<not> isl (snd exImport)" by code_simp
    then show ?thesis using ok_result [of exImport] by (simp add: exImport_def)
  qed
  have clone: "cloneValue (re_Agents exEnv0) (mr_agents ?r) = mr_agents ?r" "cloneValue (re_Squads exEnv0) (mr_squads ?r) = mr_squads ?r"
    by (simp_all add: exEnv0_def exEnv_def noJSON_def cloneValue_def Let_def)
  have ws: "TrimSpace ''w'' = ''w''" by code_simp
  have ag: "exAgent \<in> set (db_Agents exBundle)" by (simp add: exBundle_def)
  have k: "agentKey (importedAgent exEnv0 ''w'' 7 exAgent) = ''w:agent:1''" "ag_Name (importedAgent exEnv0 ''w'' 7 exAgent) = ''Agent''" by code_simp+
  from ImportDefinitionBundle_all_or_nothing [OF run clone] ag
  obtain x where "mget (mr_agents (snd (fst exImport))) ''w:agent:1'' = Some x" "sameAgent (importedAgent exEnv0 ''w'' 7 exAgent) x"
    unfolding ws by (auto simp: k)
  moreover from this(2) have "ag_Name x = ag_Name (importedAgent exEnv0 ''w'' 7 exAgent)" 
    unfolding sameAgent_def by (rule arg_cong [where f = ag_Name, THEN trans]) simp
  ultimately show ?thesis using k(2) by simp
qed

theorem ValidateAgent_no_secrets_witness:
  "distinct (map (\<lambda>r. TrimSpace (env_Name r)) (x_Environment (ag_ExecutorBinding (agentDefaults ''w'' 7 exAgent)))) \<and>
   \<not> blank (x_ProviderID (ag_ExecutorBinding (agentDefaults ''w'' 7 exAgent)))"
proof -
  have "ValidateAgent (agentDefaults ''w'' 7 exAgent) = None" by code_simp
  from ValidateAgent_no_secrets [OF this] have
    "distinct (map (\<lambda>r. TrimSpace (env_Name r)) (x_Environment (ag_ExecutorBinding (agentDefaults ''w'' 7 exAgent))))"
    "ag_Status (agentDefaults ''w'' 7 exAgent) = AgentActive \<longrightarrow> \<not> blank (x_ProviderID (ag_ExecutorBinding (agentDefaults ''w'' 7 exAgent)))"
    by auto
  moreover have "ag_Status (agentDefaults ''w'' 7 exAgent) = AgentActive" by code_simp
  ultimately show ?thesis by blast
qed

end
