(* ===== verification/Orch_Drain.thy ===== *)
theory Orch_Drain
  imports Orch_RepoProps
begin

text \<open>
  The outbox dispatcher (\<open>outbox_worker.go\<close>). It relies on the interface \<open>OutboxStore\<close> only: claim an intent under a
  lease, acknowledge it. The locale \<open>outbox_store\<close> states what a store promises, the dispatcher is proved to settle
  every waiting intent on any such store, and the repository in memory is shown to be one.

  The store is a record of operations on a state \<open>'s\<close>. The handler, code of the caller, may change the state as
  well: this stands for whatever other workers do while it delivers. The readings of the clock and the state of the
  context are arguments, numbered by the iterations.
\<close>

section \<open>The dispatcher\<close>

record 's OutboxStore =
  os_Claim :: "string \<Rightarrow> string \<Rightarrow> int \<Rightarrow> int \<Rightarrow> 's \<Rightarrow> 's \<times> (go_error + OutboxRecord)"
  os_Ack :: "string \<Rightarrow> string \<Rightarrow> int \<Rightarrow> string option \<Rightarrow> 's \<Rightarrow> 's \<times> go_error option"

type_synonym 's OutboxHandler = "OutboxRecord \<Rightarrow> 's \<Rightarrow> 's \<times> string option"

record 's OutboxDispatcher =
  od_Store :: "'s OutboxStore option"
  od_Owner :: string
  od_LeaseTTL :: int
  od_MaxBatch :: int

record OutboxDispatchReport =
  dr_Claimed :: int
  dr_Acked :: int
  dr_Retried :: int
  dr_Failed :: int
  dr_LastError :: string
  dr_FailedRecords :: "OutboxRecord list"

definition zeroReport :: OutboxDispatchReport where
  "zeroReport = \<lparr>dr_Claimed = 0, dr_Acked = 0, dr_Retried = 0, dr_Failed = 0, dr_LastError = '''', dr_FailedRecords = []\<rparr>"

text \<open>What an acknowledged delivery adds to the report.\<close>

definition reportDelivery :: "OutboxRecord \<Rightarrow> string option \<Rightarrow> OutboxDispatchReport \<Rightarrow> OutboxDispatchReport" where
  "reportDelivery x deliveryErr rep =
     (case deliveryErr of
        None \<Rightarrow> rep\<lparr>dr_Acked := dr_Acked rep + 1\<rparr>
      | Some msg \<Rightarrow>
          if 0 < ob_MaxAttempts x \<and> ob_MaxAttempts x \<le> ob_Attempts x then
            rep\<lparr>dr_LastError := msg, dr_Failed := dr_Failed rep + 1,
              dr_FailedRecords := dr_FailedRecords rep @ [x\<lparr>ob_Status := ''failed'', ob_LastError := msg\<rparr>]\<rparr>
          else rep\<lparr>dr_LastError := msg, dr_Retried := dr_Retried rep + 1\<rparr>)"

lemma reportDelivery_claimed [simp]: "dr_Claimed (reportDelivery x e rep) = dr_Claimed rep"
  by (simp add: reportDelivery_def split: option.splits)

function drainLoop ::
  "'s OutboxStore \<Rightarrow> (nat \<Rightarrow> int) \<Rightarrow> (nat \<Rightarrow> go_error option) \<Rightarrow> 's OutboxHandler \<Rightarrow> string \<Rightarrow> int \<Rightarrow> int \<Rightarrow> string \<Rightarrow>
     OutboxDispatchReport \<Rightarrow> 's \<Rightarrow> 's \<times> OutboxDispatchReport \<times> go_error option" where
  "drainLoop store clock ctxErr handler owner ttl batch planID rep s =
     (if \<not> dr_Claimed rep < batch then (s, rep, None)
      else let n = nat (dr_Claimed rep) in
        case ctxErr n of
          Some e \<Rightarrow> (s, rep, Some e)
        | None \<Rightarrow>
            (case os_Claim store planID owner ttl (clock (2 * n)) s of
               (s1, Inl e) \<Rightarrow> (s1, rep, if errors_Is e ErrNotFound then None else Some e)
             | (s1, Inr x) \<Rightarrow>
                 (let rep1 = rep\<lparr>dr_Claimed := dr_Claimed rep + 1\<rparr> in
                  case handler x s1 of (s2, deliveryErr) \<Rightarrow>
                  (case os_Ack store (ob_ID x) owner (clock (2 * n + 1)) deliveryErr s2 of
                     (s3, Some e) \<Rightarrow> (s3, rep1, Some e)
                   | (s3, None) \<Rightarrow>
                       drainLoop store clock ctxErr handler owner ttl batch planID (reportDelivery x deliveryErr rep1) s3))))"
  by pat_completeness auto
termination
  by (relation "measure (\<lambda>(store, clock, ctxErr, handler, owner, ttl, batch, planID, rep, s). nat (batch - dr_Claimed rep))") auto

declare drainLoop.simps [simp del]

definition Drain ::
  "'s OutboxDispatcher \<Rightarrow> (nat \<Rightarrow> int) \<Rightarrow> (nat \<Rightarrow> go_error option) \<Rightarrow> string \<Rightarrow> 's OutboxHandler option \<Rightarrow> 's \<Rightarrow>
     's \<times> OutboxDispatchReport \<times> go_error option" where
  "Drain d clock ctxErr planID handler s =
     (case od_Store d of
        None \<Rightarrow> (s, zeroReport, Some (Errorf ''outbox store is required'' []))
      | Some store \<Rightarrow>
          if blank (od_Owner d) then (s, zeroReport, Some (Errorf ''outbox owner is required'' []))
          else
            (case handler of
               None \<Rightarrow> (s, zeroReport, Some (Errorf ''outbox handler is required'' []))
             | Some h \<Rightarrow>
                 drainLoop store clock ctxErr h (od_Owner d) (if od_LeaseTTL d \<le> 0 then 15 * minute else od_LeaseTTL d)
                   (if od_MaxBatch d \<le> 0 then 100 else od_MaxBatch d) planID zeroReport s))"

section \<open>What is left to do\<close>

definition matches :: "string \<Rightarrow> OutboxRecord \<Rightarrow> bool" where
  "matches planID x \<longleftrightarrow> planID = '''' \<or> ob_PlanID x = planID"

text \<open>An intent with a positive bound on its attempts, which are counted from zero.\<close>

definition bounded_attempts :: "OutboxRecord \<Rightarrow> bool" where
  "bounded_attempts x \<longleftrightarrow> 0 \<le> ob_Attempts x \<and> 0 < ob_MaxAttempts x \<and> ob_MaxAttempts x \<le> maxInt64"

text \<open>The deliveries an intent still has, and those of all intents of a plan.\<close>

definition remaining :: "string \<Rightarrow> OutboxRecord \<Rightarrow> nat" where
  "remaining planID x = (if matches planID x \<and> \<not> settled x then nat (ob_MaxAttempts x - ob_Attempts x) else 0)"

definition backlog :: "string \<Rightarrow> (string \<rightharpoonup> OutboxRecord) \<Rightarrow> nat" where
  "backlog planID m = (\<Sum>i\<in>dom m. remaining planID (the (m i)))"

lemma backlog_upd:
  assumes "finite (dom m)" and "m i = Some x" and "remaining planID y < remaining planID x"
  shows "backlog planID (m(i \<mapsto> y)) < backlog planID m"
proof -
  have "i \<in> dom m" using assms(2) by blast
  have "backlog planID (m(i \<mapsto> y)) = remaining planID y + (\<Sum>j\<in>dom m - {i}. remaining planID (the (m j)))"
    unfolding backlog_def using assms(1) \<open>i \<in> dom m\<close> by (simp add: sum.remove [of _ i] insert_absorb)
  moreover have "backlog planID m = remaining planID x + (\<Sum>j\<in>dom m - {i}. remaining planID (the (m j)))"
    unfolding backlog_def using assms(1,2) \<open>i \<in> dom m\<close> by (simp add: sum.remove [of _ i])
  ultimately show ?thesis using assms(3) by simp
qed

lemma backlog_pos:
  assumes "finite (dom m)" and "m i = Some x" and "0 < remaining planID x"
  shows "0 < backlog planID m"
proof -
  have "remaining planID (the (m i)) \<le> backlog planID m"
    unfolding backlog_def using assms(1,2) by (intro member_le_sum) auto
  then show ?thesis using assms by simp
qed

lemma claimable_remaining: "claimable planID now x \<Longrightarrow> bounded_attempts x \<Longrightarrow> 0 < remaining planID x"
  by (auto simp: claimable_def bounded_attempts_def remaining_def matches_def)

lemma claimable_matches: "claimable planID now x \<Longrightarrow> matches planID x"
  by (auto simp: claimable_def matches_def)

lemma claimable_later: "claimable planID now x \<Longrightarrow> now \<le> now' \<Longrightarrow> claimable planID now' x"
  by (auto simp: claimable_def leasedAt_def)

text \<open>The outcome of the delivery of an intent, when it depends on its idempotency key only.\<close>

definition settles :: "(string \<Rightarrow> string option) \<Rightarrow> OutboxRecord \<Rightarrow> OutboxRecord \<Rightarrow> bool" where
  "settles outcome x y \<longleftrightarrow> settled y \<and> (ob_Status y = ''acked'' \<longleftrightarrow> outcome (ob_IdempotencyKey x) = None)"

text \<open>What a drain does to the intents: the waiting ones are settled, the settled ones are kept.\<close>

definition drained ::
  "string \<Rightarrow> int \<Rightarrow> (string \<Rightarrow> string option) \<Rightarrow> (string \<rightharpoonup> OutboxRecord) \<Rightarrow> (string \<rightharpoonup> OutboxRecord) \<Rightarrow> bool" where
  "drained planID now outcome m m' \<longleftrightarrow>
     (\<forall>i x. m i = Some x \<and> claimable planID now x \<longrightarrow> (\<exists>y. m' i = Some y \<and> settles outcome x y)) \<and>
     (\<forall>i x. m i = Some x \<and> settled x \<longrightarrow> m' i = Some x)"

definition unaccounted :: "OutboxDispatchReport \<Rightarrow> int" where
  "unaccounted rep = dr_Claimed rep - dr_Acked rep - dr_Retried rep - dr_Failed rep"

lemma delivered:
  fixes owner ttl now' outcome
  assumes "claimable planID now x" and "bounded_attempts x"
  defines "y \<equiv> acknowledged now' (outcome (ob_IdempotencyKey x)) (claimed owner ttl now x)"
  shows "remaining planID y < remaining planID x" and "bounded_attempts y" and "matches planID y"
    and "settles outcome x y \<or> claimable planID t y"
proof -
  have att: "wrap64 (ob_Attempts x + 1) = ob_Attempts x + 1"
    using assms(1,2) by (intro wrap64_id) (auto simp: claimable_def bounded_attempts_def in64_def maxInt64_def minInt64_def)
  have less: "ob_Attempts x < ob_MaxAttempts x" "\<not> settled x" "matches planID x"
    using assms(1,2) by (auto simp: claimable_def bounded_attempts_def matches_def)
  have sel: "ob_Attempts y = ob_Attempts x + 1" "ob_MaxAttempts y = ob_MaxAttempts x" "ob_PlanID y = ob_PlanID x"
    "ob_Status y = (if outcome (ob_IdempotencyKey x) = None then ''acked''
       else if ob_MaxAttempts x \<le> ob_Attempts x + 1 then ''failed'' else ''pending'')"
    using assms(2) att by (auto simp: y_def acknowledged_def claimed_def bounded_attempts_def split: option.splits)
  show "remaining planID y < remaining planID x" "bounded_attempts y" "matches planID y"
    using less sel assms(2) by (auto simp: remaining_def matches_def bounded_attempts_def)
  show "settles outcome x y \<or> claimable planID t y"
    using less sel by (auto simp: settles_def claimable_def settled_def leasedAt_def matches_def)
qed

section \<open>The contract of a store\<close>

locale outbox_store =
  fixes store :: "'s OutboxStore" and lookup :: "'s \<Rightarrow> string \<rightharpoonup> OutboxRecord" and inv :: "'s \<Rightarrow> bool"
  assumes finite_store: "inv s \<Longrightarrow> finite (dom (lookup s))"
    and claim_some: "inv s \<Longrightarrow> lookup s i = Some x \<Longrightarrow> claimable planID now x \<Longrightarrow> \<not> blank owner \<Longrightarrow> 0 < ttl \<Longrightarrow> now \<noteq> 0 \<Longrightarrow>
      \<exists>y s'. os_Claim store planID owner ttl now s = (s', Inr (claimed owner ttl now y)) \<and> lookup s (ob_ID y) = Some y \<and>
        claimable planID now y \<and> lookup s' = (lookup s)(ob_ID y \<mapsto> claimed owner ttl now y) \<and> inv s'"
    and claim_none: "inv s \<Longrightarrow> (\<And>i x. lookup s i = Some x \<Longrightarrow> \<not> claimable planID now x) \<Longrightarrow> \<not> blank owner \<Longrightarrow> 0 < ttl \<Longrightarrow> now \<noteq> 0 \<Longrightarrow>
      os_Claim store planID owner ttl now s = (s, Inl ErrNotFound)"
    and ack_some: "inv s \<Longrightarrow> lookup s i = Some x \<Longrightarrow> holdsLease owner now x \<Longrightarrow> now \<noteq> 0 \<Longrightarrow>
      \<exists>s'. os_Ack store i owner now err s = (s', None) \<and> lookup s' = (lookup s)(i \<mapsto> acknowledged now err x) \<and> inv s'"
begin

text \<open>One delivery, from the claim to the acknowledgement.\<close>

lemma deliver_one:
  assumes "inv s" and "lookup s i = Some x" and "claimable planID now x" and "\<not> blank owner" and "0 < ttl"
    and "0 < now" and "now \<le> now'" and "now' < now + ttl"
  obtains y s1 s2 where "os_Claim store planID owner ttl now s = (s1, Inr (claimed owner ttl now y))"
    and "lookup s (ob_ID y) = Some y" and "claimable planID now y"
    and "os_Ack store (ob_ID y) owner now' (outcome (ob_IdempotencyKey y)) s1 = (s2, None)"
    and "lookup s2 = (lookup s)(ob_ID y \<mapsto> acknowledged now' (outcome (ob_IdempotencyKey y)) (claimed owner ttl now y))"
    and "inv s2"
proof -
  obtain y s1 where c: "os_Claim store planID owner ttl now s = (s1, Inr (claimed owner ttl now y))" "lookup s (ob_ID y) = Some y"
      "claimable planID now y" "lookup s1 = (lookup s)(ob_ID y \<mapsto> claimed owner ttl now y)" "inv s1"
    using claim_some [OF assms(1-5)] assms(6) by auto
  have "holdsLease owner now' (claimed owner ttl now y)" using assms(8) by (simp add: holdsLease_def leasedAt_def claimed_def)
  then obtain s2 where "os_Ack store (ob_ID y) owner now' (outcome (ob_IdempotencyKey y)) s1 = (s2, None)"
      "lookup s2 = (lookup s1)(ob_ID y \<mapsto> acknowledged now' (outcome (ob_IdempotencyKey y)) (claimed owner ttl now y))" "inv s2"
    using ack_some [OF c(5), of "ob_ID y" _ owner now' "outcome (ob_IdempotencyKey y)"] c(4) assms(6,7) by auto
  then show thesis using that c by simp
qed

lemma drainLoop_settles:
  assumes "inv s" and "\<forall>i x. lookup s i = Some x \<and> matches planID x \<longrightarrow> bounded_attempts x"
    and "dr_Claimed rep + int (backlog planID (lookup s)) \<le> batch" and "0 \<le> dr_Claimed rep"
    and clock: "\<And>n. 0 < clock n" "mono clock" "\<And>n. clock (2 * n + 1) < clock (2 * n) + ttl"
    and "\<not> blank owner" and "0 < ttl" and "\<And>n. ctxErr n = None"
  shows "\<exists>s' rep'. drainLoop store clock ctxErr (\<lambda>x s. (s, outcome (ob_IdempotencyKey x))) owner ttl batch planID rep s = (s', rep', None) \<and>
    drained planID (clock (2 * nat (dr_Claimed rep))) outcome (lookup s) (lookup s') \<and> unaccounted rep' = unaccounted rep"
  using assms(1-4)
proof (induction "backlog planID (lookup s)" arbitrary: s rep rule: less_induct)
  case less
  let ?h = "\<lambda>x s. (s, outcome (ob_IdempotencyKey x))"
  let ?n = "nat (dr_Claimed rep)"
  show ?case
  proof (cases "\<exists>i x. lookup s i = Some x \<and> claimable planID (clock (2 * ?n)) x")
    case False
    then have none: "os_Claim store planID owner ttl (clock (2 * ?n)) s = (s, Inl ErrNotFound)"
      using claim_none [OF less.prems(1)] clock(1) [of "2 * ?n"] assms(8,9) by auto
    have "drainLoop store clock ctxErr ?h owner ttl batch planID rep s = (s, rep, None)"
      by (subst drainLoop.simps) (simp add: none assms(10) ErrNotFound_def)
    then show ?thesis using False by (auto simp: drained_def)
  next
    case True
    then obtain i x where x: "lookup s i = Some x" "claimable planID (clock (2 * ?n)) x" by blast
    have le: "clock (2 * ?n) \<le> clock (2 * ?n + 1)" using clock(2) by (simp add: monoD)
    obtain y s1 s2 where step: "os_Claim store planID owner ttl (clock (2 * ?n)) s = (s1, Inr (claimed owner ttl (clock (2 * ?n)) y))"
        "lookup s (ob_ID y) = Some y" "claimable planID (clock (2 * ?n)) y"
        "os_Ack store (ob_ID y) owner (clock (2 * ?n + 1)) (outcome (ob_IdempotencyKey y)) s1 = (s2, None)"
        "lookup s2 = (lookup s)(ob_ID y \<mapsto> acknowledged (clock (2 * ?n + 1)) (outcome (ob_IdempotencyKey y)) (claimed owner ttl (clock (2 * ?n)) y))"
        "inv s2"
      using deliver_one [OF less.prems(1) x assms(8,9) clock(1) le clock(3)] by blast
    define z where "z = acknowledged (clock (2 * ?n + 1)) (outcome (ob_IdempotencyKey y)) (claimed owner ttl (clock (2 * ?n)) y)"
    have bnd: "bounded_attempts y" using less.prems(2) step(2,3) claimable_matches by blast
    note dl = delivered [OF step(3) bnd, where now' = "clock (2 * ?n + 1)" and outcome = outcome and owner = owner and ttl = ttl, folded z_def]
    note s2 = step(5) [folded z_def]
    have fin: "finite (dom (lookup s))" using finite_store less.prems(1) .
    have smaller: "backlog planID (lookup s2) < backlog planID (lookup s)"
      unfolding s2 by (rule backlog_upd [OF fin step(2) dl(1)])
    define rep2 where "rep2 = reportDelivery (claimed owner ttl (clock (2 * ?n)) y) (outcome (ob_IdempotencyKey y)) (rep\<lparr>dr_Claimed := dr_Claimed rep + 1\<rparr>)"
    have rep2: "dr_Claimed rep2 = dr_Claimed rep + 1"
      "unaccounted rep2 = unaccounted rep"
      by (auto simp: rep2_def reportDelivery_def unaccounted_def split: option.splits)
    have run: "drainLoop store clock ctxErr ?h owner ttl batch planID rep s = drainLoop store clock ctxErr ?h owner ttl batch planID rep2 s2"
      using less.prems(3) backlog_pos [OF fin step(2) claimable_remaining [OF step(3) bnd]] step(1,4)
      by (subst drainLoop.simps) (simp add: assms(10) Let_def rep2_def)
    have bnd2: "\<forall>i x. lookup s2 i = Some x \<and> matches planID x \<longrightarrow> bounded_attempts x"
      using less.prems(2) dl(2) by (auto simp: s2)
    have left: "dr_Claimed rep2 + int (backlog planID (lookup s2)) \<le> batch" "0 \<le> dr_Claimed rep2"
      using less.prems(3,4) smaller rep2(1) by auto
    obtain s' rep' where run2: "drainLoop store clock ctxErr ?h owner ttl batch planID rep2 s2 = (s', rep', None)"
        and IH: "drained planID (clock (2 * nat (dr_Claimed rep2))) outcome (lookup s2) (lookup s')"
        and acc: "unaccounted rep' = unaccounted rep2"
      using less.hyps [OF smaller step(6) bnd2 left] by blast
    have later: "clock (2 * ?n) \<le> clock (2 * nat (dr_Claimed rep2))" by (rule monoD [OF clock(2)]) (use less.prems(4) rep2(1) in simp)
    have key: "ob_IdempotencyKey z = ob_IdempotencyKey y" by (simp add: z_def)
    have "\<exists>v. lookup s' j = Some v \<and> settles outcome w v" if w: "lookup s j = Some w" "claimable planID (clock (2 * ?n)) w" for j w
    proof (cases "j = ob_ID y")
      case True
      then have "w = y" "lookup s2 j = Some z" using w(1) step(2) s2 by auto
      from dl(4) [of "clock (2 * nat (dr_Claimed rep2))"] show ?thesis
      proof
        assume "settles outcome y z"
        then have "lookup s' j = Some z" using IH \<open>lookup s2 j = Some z\<close> by (auto simp: drained_def settles_def)
        then show ?thesis using \<open>settles outcome y z\<close> \<open>w = y\<close> by simp
      next
        assume "claimable planID (clock (2 * nat (dr_Claimed rep2))) z"
        then obtain v where "lookup s' j = Some v" "settles outcome z v"
          using IH \<open>lookup s2 j = Some z\<close> unfolding drained_def by blast
        then show ?thesis using key \<open>w = y\<close> by (simp add: settles_def)
      qed
    next
      case False
      then show ?thesis using IH w(1) claimable_later [OF w(2) later] s2 by (auto simp: drained_def)
    qed
    moreover have "lookup s' j = Some w" if "lookup s j = Some w" "settled w" for j w
      using that IH step(2,3) s2 by (cases "j = ob_ID y") (auto simp: claimable_def drained_def)
    ultimately have "drained planID (clock (2 * ?n)) outcome (lookup s) (lookup s')" by (simp add: drained_def)
    then show ?thesis using run run2 acc rep2(2) by auto
  qed
qed

end

section \<open>The repository in memory is a store\<close>

definition memoryStore :: "RepoEnv \<Rightarrow> io \<Rightarrow> int \<Rightarrow> repo OutboxStore" where
  "memoryStore env w clock0 = \<lparr>os_Claim = ClaimOutbox env w clock0, os_Ack = AckOutbox env w clock0\<rparr>"

text \<open>A reachable repository without a file, whose intents survive a JSON round trip and have IDs without blanks around them.\<close>

definition memory_inv :: "RepoEnv \<Rightarrow> repo \<Rightarrow> bool" where
  "memory_inv env s \<longleftrightarrow> repo_inv env s \<and> mr_statePath (snd s) = '''' \<and> (\<forall>x. cloneValue (re_Record env) x = x) \<and>
     (\<forall>i x. mget (mr_outbox (snd s)) i = Some x \<longrightarrow> TrimSpace i = i)"

lemma selectClaim_none:
  assumes "\<And>x. x \<in> set xs \<Longrightarrow> \<not> claimable planID now x"
  shows "selectClaim planID now xs = zeroRecord"
proof -
  have "fold (\<lambda>x selected. if claimable planID now x \<and> Q x selected then x else selected) xs acc = acc" for Q acc
    using assms by (induction xs arbitrary: acc) auto
  then show ?thesis by (simp add: selectClaim_def)
qed

lemma mkeys_replace: "mget m k = Some v \<Longrightarrow> set (mkeys (mput k w m)) \<subseteq> set (mkeys m)"
  unfolding mkeys_mput using mkeys_mget [of k m] by blast

lemma memory_inv_op:
  assumes "memory_inv env s" and "op_ok env op (snd s)" and "fst (runOp env w op s) = s'"
    and "mr_statePath (snd s') = ''''" and "set (mkeys (mr_outbox (snd s'))) \<subseteq> set (mkeys (mr_outbox (snd s)))"
  shows "memory_inv env s'"
proof -
  have "repo_step env s s'" using repo_step.operation [OF assms(2)] assms(3) by blast
  then have "repo_inv env s'" using repository.cinv_step [of env s s'] assms(1) unfolding memory_inv_def by blast
  moreover have "TrimSpace i = i" if "mget (mr_outbox (snd s')) i = Some x" for i x
  proof -
    have "i \<in> set (mkeys (mr_outbox (snd s)))" using that assms(5) mkeys_mget [of i "mr_outbox (snd s')"] by auto
    then show ?thesis using assms(1) mkeys_mget [of i "mr_outbox (snd s)"] by (auto simp: memory_inv_def)
  qed
  ultimately show ?thesis using assms(1,4) by (simp add: memory_inv_def)
qed

interpretation memory: outbox_store "memoryStore env w clock0" "\<lambda>s. mget (mr_outbox (snd s))" "memory_inv env" for env w clock0
proof unfold_locales
  fix s :: repo and i planID owner :: string and x :: OutboxRecord and ttl now :: int and err :: "string option"
  assume inv: "memory_inv env s"
  obtain d r where s: "s = (d, r)" by (cases s)
  show "finite (dom (mget (mr_outbox (snd s))))" by (simp add: finite_dom_map_of)
  { assume a: "mget (mr_outbox (snd s)) i = Some x" "claimable planID now x" "\<not> blank owner" "0 < ttl" "now \<noteq> 0"
    then obtain y where y: "ClaimOutbox env w clock0 planID owner ttl now (d, r) =
        ((d, r\<lparr>mr_outbox := mput (ob_ID y) (claimed owner ttl now y) (mr_outbox r), mr_dirty := True\<rparr>), Inr (claimed owner ttl now y))"
        "claimable planID now y" "mget (mr_outbox r) (ob_ID y) = Some y"
      using ClaimOutbox_memory [of env d r i x planID now owner ttl w clock0] inv by (auto simp: memory_inv_def s)
    let ?s' = "(d, r\<lparr>mr_outbox := mput (ob_ID y) (claimed owner ttl now y) (mr_outbox r), mr_dirty := True\<rparr>)"
    have "memory_inv env ?s'"
    proof (rule memory_inv_op [OF inv, of "OpClaim clock0 planID owner ttl now" w])
      show "fst (runOp env w (OpClaim clock0 planID owner ttl now) s) = ?s'" using y(1) by (simp add: s resultErr_def)
      show "set (mkeys (mr_outbox (snd ?s'))) \<subseteq> set (mkeys (mr_outbox (snd s)))"
        using mkeys_replace [OF y(3)] by (simp add: s del: set_map)
    qed (use inv in \<open>simp_all add: memory_inv_def s\<close>)
    then show "\<exists>y s'. os_Claim (memoryStore env w clock0) planID owner ttl now s = (s', Inr (claimed owner ttl now y)) \<and>
        mget (mr_outbox (snd s)) (ob_ID y) = Some y \<and> claimable planID now y \<and>
        mget (mr_outbox (snd s')) = (mget (mr_outbox (snd s)))(ob_ID y \<mapsto> claimed owner ttl now y) \<and> memory_inv env s'"
      using y by (intro exI [of _ y] exI [of _ ?s']) (auto simp: memoryStore_def s) }
  { assume a: "\<And>i x. mget (mr_outbox (snd s)) i = Some x \<Longrightarrow> \<not> claimable planID now x" "\<not> blank owner" "0 < ttl" "now \<noteq> 0"
    have "mwf (mr_outbox r)" using inv by (simp add: memory_inv_def repo_inv_def repo_wf_def s)
    then have "selectClaim planID now (mvals (mr_outbox r)) = zeroRecord"
      using a(1) by (intro selectClaim_none) (auto simp: mvals_mget s simp del: set_map)
    then show "os_Claim (memoryStore env w clock0) planID owner ttl now s = (s, Inl ErrNotFound)"
      using a(2-4) by (simp add: memoryStore_def ClaimOutbox_def s zeroRecord_def) }
  { assume a: "mget (mr_outbox (snd s)) i = Some x" "holdsLease owner now x" "now \<noteq> 0"
    have i: "TrimSpace i = i" "ob_ID x = i" using inv a(1) by (auto simp: memory_inv_def repo_inv_def view_inv_def s)
    let ?s' = "(d, r\<lparr>mr_outbox := mput i (acknowledged now err x) (mr_outbox r), mr_dirty := True\<rparr>)"
    have run: "AckOutbox env w clock0 i owner now err s = (?s', None)"
      using a i inv by (simp add: AckOutbox_def putRecord_def commit_def persistLocked_def memory_inv_def s)
    have "memory_inv env ?s'"
    proof (rule memory_inv_op [OF inv, of "OpAck clock0 i owner now err" w])
      show "set (mkeys (mr_outbox (snd ?s'))) \<subseteq> set (mkeys (mr_outbox (snd s)))"
        using mkeys_replace [OF a(1)] by (simp add: s del: set_map)
    qed (use run inv in \<open>simp_all add: memory_inv_def s\<close>)
    then show "\<exists>s'. os_Ack (memoryStore env w clock0) i owner now err s = (s', None) \<and>
        mget (mr_outbox (snd s')) = (mget (mr_outbox (snd s)))(i \<mapsto> acknowledged now err x) \<and> memory_inv env s'"
      using run by (intro exI [of _ ?s']) (auto simp: memoryStore_def s) }
qed

text \<open>
  C24: A drain settles every waiting intent. On a repository in memory, with a batch as large as the deliveries that are
  left, a clock that does not run backwards and acknowledgements within the lease, \<open>Drain\<close> returns without an error.
  Every intent of the plan that could be claimed at the beginning is then acknowledged when its delivery succeeds, and
  failed once its attempts are used up when it does not: an intent that always fails does not keep the others waiting.
  The report counts every claim as acknowledged, retried or failed.
\<close>

theorem Drain_settles:
  assumes "(repo_step env)\<^sup>*\<^sup>* (d0, newMemoryRepository '''') s" and "mr_statePath (snd s) = ''''"
    and "\<And>x. cloneValue (re_Record env) x = x"
    and "\<And>i x. mget (mr_outbox (snd s)) i = Some x \<Longrightarrow> TrimSpace i = i \<and> (matches planID x \<longrightarrow> bounded_attempts x)"
    and "od_Store disp = Some (memoryStore env w clock0)" and "\<not> blank (od_Owner disp)" and "0 < od_LeaseTTL disp"
    and "int (backlog planID (mget (mr_outbox (snd s)))) \<le> od_MaxBatch disp" and "0 < od_MaxBatch disp"
    and "\<And>n. 0 < clock n" and "mono clock" and "\<And>n. clock (2 * n + 1) < clock (2 * n) + od_LeaseTTL disp"
  shows "\<exists>s' rep. Drain disp clock (\<lambda>n. None) planID (Some (\<lambda>x s. (s, outcome (ob_IdempotencyKey x)))) s = (s', rep, None) \<and>
    (\<forall>i x. mget (mr_outbox (snd s)) i = Some x \<and> claimable planID (clock 0) x \<longrightarrow>
       (\<exists>y. mget (mr_outbox (snd s')) i = Some y \<and> settles outcome x y)) \<and>
    dr_Claimed rep = dr_Acked rep + dr_Retried rep + dr_Failed rep"
proof -
  have inv: "memory_inv env s" using reachable_inv [OF assms(1)] assms(2-4) by (auto simp: memory_inv_def)
  have bnd: "\<forall>i x. mget (mr_outbox (snd s)) i = Some x \<and> matches planID x \<longrightarrow> bounded_attempts x" using assms(4) by blast
  have left: "dr_Claimed zeroReport + int (backlog planID (mget (mr_outbox (snd s)))) \<le> od_MaxBatch disp" "0 \<le> dr_Claimed zeroReport"
    using assms(8) by (simp_all add: zeroReport_def)
  have "\<exists>s' rep'. drainLoop (memoryStore env w clock0) clock (\<lambda>n. None) (\<lambda>x s. (s, outcome (ob_IdempotencyKey x))) (od_Owner disp)
        (od_LeaseTTL disp) (od_MaxBatch disp) planID zeroReport s = (s', rep', None) \<and>
      drained planID (clock (2 * nat (dr_Claimed zeroReport))) outcome (mget (mr_outbox (snd s))) (mget (mr_outbox (snd s'))) \<and>
      unaccounted rep' = unaccounted zeroReport"
    by (rule memory.drainLoop_settles [OF inv bnd left assms(10-12) assms(6,7)]) simp
  then show ?thesis using assms(5-7,9) by (auto simp: Drain_def zeroReport_def drained_def unaccounted_def)
qed

text \<open>The example repository with a second intent; the delivery of the first one always fails.\<close>

definition exBacklog :: repo where
  "exBacklog = fst (EnqueueOutbox exEnv0 IODone 2 11 (exIntent\<lparr>ob_ID := ''o2'', ob_IdempotencyKey := ''k2''\<rparr>) exQueued)"

definition exDispatcher :: "repo OutboxDispatcher" where
  "exDispatcher = \<lparr>od_Store = Some (memoryStore exEnv0 IODone 0), od_Owner = ''a'', od_LeaseTTL = 50, od_MaxBatch = 4\<rparr>"

definition exOutcome :: "string \<Rightarrow> string option" where
  "exOutcome key = (if key = ''k1'' then Some ''no'' else None)"

lemma exBacklog_reachable: "(repo_step exEnv0)\<^sup>*\<^sup>* ([], newMemoryRepository '''') exBacklog"
proof -
  have "op_ok exEnv0 (OpEnqueue 2 11 (exIntent\<lparr>ob_ID := ''o2'', ob_IdempotencyKey := ''k2''\<rparr>)) (snd exQueued)" by code_simp
  from repo_step.operation [OF this, of IODone] have "repo_step exEnv0 exQueued exBacklog"
    by (simp add: exBacklog_def resultErr_def)
  then show ?thesis using exQueued_reachable by (rule rtranclp.rtrancl_into_rtrancl [rotated])
qed

lemma exBacklog_records:
  "mr_outbox (snd exBacklog) =
     [(''o1'', recordDefaults 1 10 exIntent), (''o2'', recordDefaults 2 11 (exIntent\<lparr>ob_ID := ''o2'', ob_IdempotencyKey := ''k2''\<rparr>))]"
  by code_simp

theorem Drain_settles_witness:
  "\<exists>s' rep. Drain exDispatcher (\<lambda>n. 100) (\<lambda>n. None) ''p1'' (Some (\<lambda>x s. (s, exOutcome (ob_IdempotencyKey x)))) exBacklog = (s', rep, None) \<and>
     (\<exists>y. mget (mr_outbox (snd s')) ''o1'' = Some y \<and> ob_Status y = ''failed'') \<and>
     (\<exists>y. mget (mr_outbox (snd s')) ''o2'' = Some y \<and> ob_Status y = ''acked'')"
proof -
  let ?o1 = "recordDefaults 1 10 exIntent" and ?o2 = "recordDefaults 2 11 (exIntent\<lparr>ob_ID := ''o2'', ob_IdempotencyKey := ''k2''\<rparr>)"
  have "TrimSpace ''o1'' = ''o1''" "TrimSpace ''o2'' = ''o2''" "bounded_attempts ?o1" "bounded_attempts ?o2" by code_simp+
  then have recs: "mget (mr_outbox (snd exBacklog)) i = Some x \<Longrightarrow> TrimSpace i = i \<and> (matches ''p1'' x \<longrightarrow> bounded_attempts x)" for i x
    by (auto simp: exBacklog_records split: if_splits)
  have rem: "remaining ''p1'' ?o1 = 2" "remaining ''p1'' ?o2 = 2" by code_simp+
  have "dom (mget (mr_outbox (snd exBacklog))) = {''o1'', ''o2''}" by (auto simp: exBacklog_records split: if_splits)
  then have "backlog ''p1'' (mget (mr_outbox (snd exBacklog))) = 4"
    unfolding backlog_def using rem by (simp add: exBacklog_records)
  then have left: "int (backlog ''p1'' (mget (mr_outbox (snd exBacklog)))) \<le> od_MaxBatch exDispatcher" by (simp add: exDispatcher_def)
  have sel: "mr_statePath (snd exBacklog) = ''''" "\<not> blank (od_Owner exDispatcher)" "0 < od_LeaseTTL exDispatcher" "0 < od_MaxBatch exDispatcher"
    by code_simp+
  have id: "cloneValue (re_Record exEnv0) x = x" for x by (simp add: exEnv0_def exEnv_def cloneValue_def noJSON_def)
  have store: "od_Store exDispatcher = Some (memoryStore exEnv0 IODone 0)" by (simp add: exDispatcher_def)
  obtain s' rep where run: "Drain exDispatcher (\<lambda>n. 100) (\<lambda>n. None) ''p1'' (Some (\<lambda>x s. (s, exOutcome (ob_IdempotencyKey x)))) exBacklog = (s', rep, None)"
    and post: "\<forall>i x. mget (mr_outbox (snd exBacklog)) i = Some x \<and> claimable ''p1'' 100 x \<longrightarrow>
       (\<exists>y. mget (mr_outbox (snd s')) i = Some y \<and> settles exOutcome x y)"
    using Drain_settles [OF exBacklog_reachable sel(1) id recs store sel(2,3) left sel(4), of "\<lambda>n. 100" exOutcome]
    by (auto simp: mono_def exDispatcher_def)
  have "claimable ''p1'' 100 ?o1" "claimable ''p1'' 100 ?o2" by code_simp+
  then have "(\<exists>y. mget (mr_outbox (snd s')) ''o1'' = Some y \<and> settles exOutcome ?o1 y) \<and>
      (\<exists>y. mget (mr_outbox (snd s')) ''o2'' = Some y \<and> settles exOutcome ?o2 y)"
    using post by (simp add: exBacklog_records)
  moreover have "settles exOutcome ?o1 y \<longleftrightarrow> ob_Status y = ''failed''" "settles exOutcome ?o2 y \<longleftrightarrow> ob_Status y = ''acked''" for y
    by (auto simp: settles_def settled_def exOutcome_def exIntent_def recordDefaults_def)
  ultimately show ?thesis using run by auto
qed

end
