(* ===== verification/Runtime_Lifecycle.thy ===== *)
theory Runtime_Lifecycle
  imports Go_Prelude Transition_System
begin

text \<open>
  The lifecycle manager (\<open>src/runtime/lifecycle/manager.go\<close>): components with named dependencies are started in a
  stable topological order and stopped in the reverse order of their start.

  A component is code outside the manager: its \<open>Start\<close>, \<open>Stop\<close> and \<open>Health\<close> are functions on a state \<open>'w\<close> that all
  components share. So is the effect of cancelling a context, which is an argument of the operations. A joined error
  (\<open>errors.Join\<close>) is the list of its parts, empty for \<open>nil\<close>.
\<close>

section \<open>Components and the manager\<close>

datatype Status = StatusNew | StatusStarting | StatusReady | StatusDegraded | StatusStopping | StatusStopped | StatusFailed

record Health =
  h_Status :: Status
  h_Reason :: string
  h_ChangedAt :: int

datatype Context = NilContext | Background | Given nat | WithCancel Context | WithTimeout Context int

record 'w Component =
  c_Name :: string
  c_Dependencies :: "string list"
  c_Start :: "Context \<Rightarrow> 'w \<Rightarrow> 'w \<times> go_error option"
  c_Stop :: "Context \<Rightarrow> 'w \<Rightarrow> 'w \<times> go_error option"
  c_Health :: "Context \<Rightarrow> 'w \<Rightarrow> Health"

record 'w Manager =
  m_components :: "(string, 'w Component) gomap"
  m_order :: "string list"
  m_started :: "string list"
  m_cancel :: "Context option"
  m_stopTimeout :: int

section \<open>The order of the components\<close>

type_synonym degrees = "(string, int) gomap \<times> (string, string list) gomap"

fun countDependencies :: "string list \<Rightarrow> string \<Rightarrow> string list \<Rightarrow> string list \<Rightarrow> degrees \<Rightarrow> go_error + degrees" where
  "countDependencies names name seen [] st = Inr st"
| "countDependencies names name seen (d0 # ds) st =
     (let d = TrimSpace d0 in
      if d = '''' \<or> d \<in> set seen then Inl (Errorf ''component %s has an empty or duplicate dependency'' [ArgS name])
      else if d \<notin> set names then Inl (Errorf ''component %s depends on missing component %s'' [ArgS name, ArgS d])
      else countDependencies names name (d # seen) ds
        (case st of (indegree, dependents) \<Rightarrow>
           (mput name (mget0 0 indegree name + 1) indegree, mput d (mget0 [] dependents d @ [name]) dependents)))"

fun countAll :: "string list \<Rightarrow> (string, 'w Component) gomap \<Rightarrow> degrees \<Rightarrow> go_error + degrees" where
  "countAll names [] st = Inr st"
| "countAll names ((name, c) # cs) st =
     (case countDependencies names name [] (c_Dependencies c) st of Inl e \<Rightarrow> Inl e | Inr st' \<Rightarrow> countAll names cs st')"

text \<open>The inner loop: the dependents of a component that has been placed lose one dependency each.\<close>

fun release :: "string list \<Rightarrow> string list \<Rightarrow> (string, int) gomap \<Rightarrow> string list \<times> (string, int) gomap" where
  "release [] ready indegree = (ready, indegree)"
| "release (d # ds) ready indegree =
     (let k = mget0 0 indegree d - 1
      in release ds (if k = 0 then sort_strings (ready @ [d]) else ready) (mput d k indegree))"

definition waiting :: "(string, int) gomap \<Rightarrow> string set" where
  "waiting indegree = {k. 0 < mget0 0 indegree k}"

lemma finite_waiting [simp]: "finite (waiting m)"
proof (rule finite_subset)
  show "waiting m \<subseteq> set (mkeys m)" by (force simp: waiting_def mget0_def split: option.splits dest: map_of_SomeD)
qed simp

lemma release_measure: "length (fst (release ds ready m)) + card (waiting (snd (release ds ready m))) = length ready + card (waiting m)"
proof (induction ds arbitrary: ready m)
  case Nil
  then show ?case by simp
next
  case (Cons d ds)
  let ?k = "mget0 0 m d - 1"
  have "waiting (mput d ?k m) = (if ?k = 0 then waiting m - {d} else waiting m)" by (auto simp: waiting_def)
  moreover have "?k = 0 \<Longrightarrow> d \<in> waiting m" by (simp add: waiting_def)
  moreover have "?k = 0 \<Longrightarrow> 0 < card (waiting m)" using calculation(2) by (auto simp: card_gt_0_iff)
  ultimately show ?case using Cons.IH [of "if ?k = 0 then sort_strings (ready @ [d]) else ready" "mput d ?k m"]
    by (cases "?k = 0") (simp_all add: Let_def)
qed

function kahn :: "(string, string list) gomap \<Rightarrow> string list \<Rightarrow> (string, int) gomap \<Rightarrow> string list \<Rightarrow> string list" where
  "kahn dependents [] indegree order = order"
| "kahn dependents (name # ready) indegree order =
     (let st = release (sort_strings (mget0 [] dependents name)) ready indegree
      in kahn dependents (fst st) (snd st) (order @ [name]))"
  by pat_completeness auto
termination
  by (relation "measure (\<lambda>(dependents, ready, indegree, order). length ready + card (waiting indegree))")
    (auto simp: release_measure)

definition zeroDegrees :: "string list \<Rightarrow> (string, int) gomap" where
  "zeroDegrees names = map (\<lambda>name. (name, 0)) names"

definition stableTopologicalOrder :: "(string, 'w Component) gomap \<Rightarrow> go_error + string list" where
  "stableTopologicalOrder components =
     (case countAll (mkeys components) components (zeroDegrees (mkeys components), []) of
        Inl e \<Rightarrow> Inl e
      | Inr (indegree, dependents) \<Rightarrow>
          (let ready = sort_strings (map fst (filter (\<lambda>(name, degree). degree = 0) indegree));
               order = kahn dependents ready indegree []
           in if length order \<noteq> length components then Inl (Errorf ''lifecycle dependency graph contains a cycle'' [])
              else Inr order))"

fun addComponents ::
  "'w Component option list \<Rightarrow> (string, 'w Component) gomap \<Rightarrow> go_error + (string, 'w Component) gomap" where
  "addComponents [] m = Inr m"
| "addComponents (None # cs) m = Inl (Errorf ''lifecycle component is nil'' [])"
| "addComponents (Some c # cs) m =
     (let name = TrimSpace (c_Name c) in
      if name = '''' then Inl (Errorf ''lifecycle component name is required'' [])
      else if mget m name \<noteq> None then Inl (Errorf ''duplicate lifecycle component %q'' [ArgS name])
      else addComponents cs (mput name c m))"

definition NewManager :: "'w Component option list \<Rightarrow> int \<Rightarrow> go_error + 'w Manager" where
  "NewManager components stopTimeout =
     (let timeout = (if stopTimeout \<le> 0 then 5 * 1000000000 else stopTimeout) in
      case addComponents components [] of
        Inl e \<Rightarrow> Inl e
      | Inr m \<Rightarrow>
          (case stableTopologicalOrder m of
             Inl e \<Rightarrow> Inl e
           | Inr order \<Rightarrow> Inr \<lparr>m_components = m, m_order = order, m_started = [], m_cancel = None, m_stopTimeout = timeout\<rparr>))"

section \<open>Starting and stopping\<close>

definition orBackground :: "Context \<Rightarrow> Context" where
  "orBackground ctx = (if ctx = NilContext then Background else ctx)"

text \<open>A call through the map of components; the order holds names of components only.\<close>

definition callStart :: "(string, 'w Component) gomap \<Rightarrow> string \<Rightarrow> Context \<Rightarrow> 'w \<Rightarrow> 'w \<times> go_error option" where
  "callStart cs name ctx w = (case mget cs name of None \<Rightarrow> (w, Some (Panic ''nil component'')) | Some c \<Rightarrow> c_Start c ctx w)"

definition callStop :: "(string, 'w Component) gomap \<Rightarrow> string \<Rightarrow> Context \<Rightarrow> 'w \<Rightarrow> 'w \<times> go_error option" where
  "callStop cs name ctx w = (case mget cs name of None \<Rightarrow> (w, Some (Panic ''nil component'')) | Some c \<Rightarrow> c_Stop c ctx w)"

fun stopLoop ::
  "(Context \<Rightarrow> 'w \<Rightarrow> 'w) \<Rightarrow> (string, 'w Component) gomap \<Rightarrow> Context \<Rightarrow> string list \<Rightarrow> go_error list \<Rightarrow> 'w \<Rightarrow> 'w \<times> go_error list" where
  "stopLoop cancel cs ctx [] errs w = (w, errs)"
| "stopLoop cancel cs ctx (name # names) errs w =
     (case callStop cs name ctx w of
        (w1, err) \<Rightarrow> stopLoop cancel cs ctx names
          (errs @ (case err of None \<Rightarrow> [] | Some e \<Rightarrow> [Wrapf e (''stop lifecycle component '' @ name)])) (cancel ctx w1))"

definition stopStartedLocked ::
  "(Context \<Rightarrow> 'w \<Rightarrow> 'w) \<Rightarrow> Context \<Rightarrow> 'w Manager \<times> 'w \<Rightarrow> ('w Manager \<times> 'w) \<times> go_error list" where
  "stopStartedLocked cancel parent s =
     (case s of (m, w) \<Rightarrow>
        (case stopLoop cancel (m_components m) (WithTimeout parent (m_stopTimeout m)) (rev (m_started m)) [] w of
           (w', errs) \<Rightarrow> ((m\<lparr>m_started := []\<rparr>, w'), errs)))"

fun startLoop ::
  "(Context \<Rightarrow> 'w \<Rightarrow> 'w) \<Rightarrow> Context \<Rightarrow> string list \<Rightarrow> 'w Manager \<times> 'w \<Rightarrow> ('w Manager \<times> 'w) \<times> go_error list" where
  "startLoop cancel rootCtx [] s = (s, [])"
| "startLoop cancel rootCtx (name # names) (m, w) =
     (case callStart (m_components m) name rootCtx w of
        (w1, Some e) \<Rightarrow>
          (case stopStartedLocked cancel Background (m, cancel rootCtx w1) of
             (s', errs) \<Rightarrow> (s', Wrapf e (''start lifecycle component '' @ name) # errs))
      | (w1, None) \<Rightarrow> startLoop cancel rootCtx names (m\<lparr>m_started := m_started m @ [name]\<rparr>, w1))"

definition Start ::
  "(Context \<Rightarrow> 'w \<Rightarrow> 'w) \<Rightarrow> Context \<Rightarrow> 'w Manager \<times> 'w \<Rightarrow> ('w Manager \<times> 'w) \<times> go_error list" where
  "Start cancel ctx0 s =
     (case s of (m, w) \<Rightarrow>
        if m_started m \<noteq> [] then (s, [])
        else let rootCtx = WithCancel (orBackground ctx0)
             in startLoop cancel rootCtx (m_order m) (m\<lparr>m_cancel := Some rootCtx\<rparr>, w))"

definition Stop ::
  "(Context \<Rightarrow> 'w \<Rightarrow> 'w) \<Rightarrow> Context \<Rightarrow> 'w Manager \<times> 'w \<Rightarrow> ('w Manager \<times> 'w) \<times> go_error list" where
  "Stop cancel ctx0 s =
     (case s of (m, w) \<Rightarrow>
        stopStartedLocked cancel (orBackground ctx0)
          (case m_cancel m of None \<Rightarrow> (m, w) | Some rootCtx \<Rightarrow> (m\<lparr>m_cancel := None\<rparr>, cancel rootCtx w)))"

definition HealthOf :: "Context \<Rightarrow> 'w Manager \<times> 'w \<Rightarrow> go_error + (string, Health) gomap" where
  "HealthOf ctx0 s =
     (case s of (m, w) \<Rightarrow>
        if list_all (\<lambda>name. mget (m_components m) name \<noteq> None) (m_order m) then
          Inr (fold (\<lambda>name res. mput name (c_Health (the (mget (m_components m) name)) (orBackground ctx0) w) res) (m_order m) [])
        else Inl (Panic ''nil component''))"

section \<open>Greedy topological orders\<close>

text \<open>
  The specification of the order: every component comes after its dependencies, and each place goes to the least
  component whose dependencies come before it. There is at most one such order, and there is one exactly when the
  dependencies are acyclic.
\<close>

definition greedy :: "string set \<Rightarrow> (string \<Rightarrow> string set) \<Rightarrow> string list \<Rightarrow> bool" where
  "greedy names deps l \<longleftrightarrow> distinct l \<and> set l \<subseteq> names \<and>
     (\<forall>i < length l. deps (l ! i) \<subseteq> set (take i l) \<and>
        (\<forall>m\<in>names - set (take i l). deps m \<subseteq> set (take i l) \<longrightarrow> l ! i \<le> m))"

definition available :: "string set \<Rightarrow> (string \<Rightarrow> string set) \<Rightarrow> string list \<Rightarrow> string set" where
  "available names deps l = {n\<in>names. n \<notin> set l \<and> deps n \<subseteq> set l}"

locale dependency_graph =
  fixes names :: "string set" and deps :: "string \<Rightarrow> string set"
  assumes finite_names: "finite names" and deps_names: "deps n \<subseteq> names"
begin

abbreviation dep_rel :: "(string \<times> string) set" where
  "dep_rel \<equiv> {(n, d). n \<in> names \<and> d \<in> deps n}"

lemma greedy_take: "greedy names deps l \<Longrightarrow> greedy names deps (take i l)"
  unfolding greedy_def by (auto simp: min_absorb1 min.absorb2 dest: in_set_takeD)

lemma greedy_snoc:
  assumes "greedy names deps l" and "x \<in> available names deps l" and "\<And>m. m \<in> available names deps l \<Longrightarrow> x \<le> m"
  shows "greedy names deps (l @ [x])"
  using assms unfolding greedy_def available_def by (auto simp: nth_append less_Suc_eq)

lemma greedy_nth:
  assumes "greedy names deps l" and "i < length l"
  shows "deps (l ! i) \<subseteq> set (take i l)" and "l ! i \<notin> set (take i l)" and "l ! i \<in> names"
    and "m \<in> names \<Longrightarrow> m \<notin> set (take i l) \<Longrightarrow> deps m \<subseteq> set (take i l) \<Longrightarrow> l ! i \<le> m"
  using assms by (auto simp: greedy_def in_set_conv_nth nth_eq_iff_index_eq subset_iff)

lemma greedy_unique:
  assumes "greedy names deps l" "set l = names" and "greedy names deps k" "set k = names"
  shows "l = k"
proof (rule nth_equalityI)
  show len: "length l = length k" using assms by (metis greedy_def distinct_card)
  have "take i l = take i k" if "i \<le> length l" for i
    using that
  proof (induction i)
    case 0
    then show ?case by simp
  next
    case (Suc i)
    then have i: "i < length l" "i < length k" and eq: "take i l = take i k" using len by auto
    note l = greedy_nth [OF assms(1) i(1)] and k = greedy_nth [OF assms(3) i(2)]
    have "l ! i \<le> k ! i" by (rule l(4)) (use k eq in simp_all)
    moreover have "k ! i \<le> l ! i" by (rule k(4)) (use l eq in simp_all)
    ultimately have "l ! i = k ! i" by simp
    then show ?case using eq i by (simp add: take_Suc_conv_app_nth)
  qed
  from this [of "length l"] show "\<And>i. i < length l \<Longrightarrow> l ! i = k ! i" using len by simp
qed

lemma acyclic_if_greedy:
  assumes "greedy names deps l" "set l = names"
  shows "acyclic dep_rel"
proof -
  define pos where "pos n = (LEAST i. i < length l \<and> l ! i = n)" for n
  have pos: "pos (l ! i) = i" if "i < length l" for i
    unfolding pos_def using that assms(1) by (intro Least_equality) (auto simp: greedy_def nth_eq_iff_index_eq)
  have "(n, d) \<in> dep_rel \<Longrightarrow> pos d < pos n" for n d
  proof -
    assume "(n, d) \<in> dep_rel"
    then obtain i where i: "i < length l" "n = l ! i" "d \<in> deps (l ! i)" using assms(2) by (auto simp: in_set_conv_nth)
    then have "d \<in> set (take i l)" using assms(1) by (auto simp: greedy_def)
    then obtain j where "j < i" "d = l ! j" using i by (auto simp: in_set_conv_nth)
    then show ?thesis using i pos by auto
  qed
  then have "dep_rel \<subseteq> (measure pos)\<inverse>" by auto
  moreover have "acyclic ((measure pos)\<inverse>)" by (simp add: acyclic_converse wf_acyclic)
  ultimately show ?thesis using acyclic_subset by blast
qed

lemma complete_if_stuck:
  assumes "acyclic dep_rel" and "greedy names deps l" and "available names deps l = {}"
  shows "set l = names"
proof (rule ccontr)
  assume "set l \<noteq> names"
  then obtain x where x: "x \<in> names - set l" using assms(2) by (auto simp: greedy_def)
  have "finite dep_rel" by (rule finite_subset [of _ "names \<times> names"]) (use deps_names finite_names in auto)
  then have "wf (dep_rel\<inverse>)" using assms(1) by (simp add: finite_acyclic_wf_converse)
  then obtain z where z: "z \<in> names - set l" "\<And>y. (y, z) \<in> dep_rel\<inverse> \<Longrightarrow> y \<notin> names - set l"
    using x by (rule wfE_min) blast
  then have "deps z \<subseteq> set l" using deps_names by auto
  then show False using z(1) assms(3) by (auto simp: available_def)
qed

end

section \<open>The order is the greedy one\<close>

definition depList :: "'w Component \<Rightarrow> string list" where
  "depList c = map TrimSpace (c_Dependencies c)"

text \<open>The dependencies among the components.\<close>

definition depsOf :: "(string, 'w Component) gomap \<Rightarrow> string \<Rightarrow> string set" where
  "depsOf cs n = (case mget cs n of None \<Rightarrow> {} | Some c \<Rightarrow> set (depList c) \<inter> set (mkeys cs))"

definition deps_ok :: "string set \<Rightarrow> 'w Component \<Rightarrow> bool" where
  "deps_ok names c \<longleftrightarrow> distinct (depList c) \<and> '''' \<notin> set (depList c) \<and> set (depList c) \<subseteq> names"

interpretation lifecycle: dependency_graph "set (mkeys cs)" "depsOf cs" for cs :: "(string, 'w Component) gomap"
  by unfold_locales (auto simp: depsOf_def split: option.splits)

lemma countDependencies_ok:
  "(\<exists>st'. countDependencies names name seen ds st = Inr st') \<longleftrightarrow>
     distinct (map TrimSpace ds) \<and> '''' \<notin> set (map TrimSpace ds) \<and> set (map TrimSpace ds) \<subseteq> set names \<and>
     set (map TrimSpace ds) \<inter> set seen = {}"
proof (induction ds arbitrary: seen st)
  case Nil
  then show ?case by simp
next
  case (Cons d ds)
  show ?case using Cons.IH by (auto simp: Let_def)
qed

lemma countDependencies_result:
  assumes "countDependencies names name seen ds (ind, dpd) = Inr (ind', dpd')" and "name \<in> set (mkeys ind)"
  shows "mget0 0 ind' k = mget0 0 ind k + (if k = name then int (length ds) else 0) \<and>
    mget0 [] dpd' d = mget0 [] dpd d @ (if d \<in> set (map TrimSpace ds) then [name] else []) \<and> mkeys ind' = mkeys ind"
  using assms
proof (induction ds arbitrary: seen ind dpd)
  case Nil
  then show ?case by simp
next
  case (Cons x ds)
  let ?ind = "mput name (mget0 0 ind name + 1) ind" and ?dpd = "mput (TrimSpace x) (mget0 [] dpd (TrimSpace x) @ [name]) dpd"
  have run: "countDependencies names name (TrimSpace x # seen) ds (?ind, ?dpd) = Inr (ind', dpd')"
    using Cons.prems(1) by (auto simp: Let_def split: if_splits)
  have "TrimSpace x \<notin> set (map TrimSpace ds)" using run countDependencies_ok [of names name "TrimSpace x # seen" ds] by auto
  moreover have "mkeys ?ind = mkeys ind" using Cons.prems(2) by (simp add: update_keys)
  ultimately show ?case using Cons.IH [OF run] Cons.prems(2) by auto
qed

lemma countAll_ok:
  "(\<exists>st'. countAll names cs st = Inr st') \<longleftrightarrow> (\<forall>c\<in>set (mvals cs). deps_ok (set names) c)"
proof (induction cs arbitrary: st)
  case Nil
  then show ?case by simp
next
  case (Cons p cs)
  obtain n c where p: "p = (n, c)" by (cases p)
  show ?case using Cons.IH countDependencies_ok [of names n "[]" "c_Dependencies c" st]
    by (cases "countDependencies names n [] (c_Dependencies c) st") (auto simp: p deps_ok_def depList_def)
qed

lemma countAll_result:
  assumes "countAll names cs (ind, dpd) = Inr (ind', dpd')" and "mwf cs" and "set (mkeys cs) \<subseteq> set (mkeys ind)"
  shows "mget0 0 ind' k = mget0 0 ind k + (case mget cs k of None \<Rightarrow> 0 | Some c \<Rightarrow> int (length (depList c))) \<and>
    mget0 [] dpd' d = mget0 [] dpd d @ map fst (filter (\<lambda>(n, c). d \<in> set (depList c)) cs) \<and> mkeys ind' = mkeys ind"
  using assms
proof (induction cs arbitrary: ind dpd)
  case Nil
  then show ?case by simp
next
  case (Cons p cs)
  obtain n c where p: "p = (n, c)" by (cases p)
  obtain i1 d1 where s: "countDependencies names n [] (c_Dependencies c) (ind, dpd) = Inr (i1, d1)"
      "countAll names cs (i1, d1) = Inr (ind', dpd')"
    using Cons.prems(1) by (auto simp: p split: sum.splits)
  have one: "mget0 0 i1 k = mget0 0 ind k + (if k = n then int (length (c_Dependencies c)) else 0)"
      "mget0 [] d1 d = mget0 [] dpd d @ (if d \<in> set (depList c) then [n] else [])" "mkeys i1 = mkeys ind"
    using countDependencies_result [OF s(1), of k d] Cons.prems(3) by (auto simp: p depList_def)
  have "mwf cs" "set (mkeys cs) \<subseteq> set (mkeys i1)" "mget cs n = None"
    using Cons.prems(2,3) one(3) by (auto simp: p map_of_eq_None_iff)
  then show ?case using Cons.IH [OF s(2)] one by (auto simp: p depList_def)
qed

lemma distinct_sort_strings [simp]: "distinct (sort_strings xs) \<longleftrightarrow> distinct xs"
  using distinct_sort_stable [of "\<lambda>x. x" "(<)" xs] by simp

lemma release_result:
  assumes "release ds ready m = (ready', m')" and "distinct ds" and "sorted ready" "distinct ready" and "set ds \<inter> set ready = {}"
  shows "sorted ready' \<and> distinct ready' \<and> set ready' = set ready \<union> {d\<in>set ds. mget0 0 m d = 1} \<and>
    mget0 0 m' k = mget0 0 m k - (if k \<in> set ds then 1 else 0)"
  using assms
proof (induction ds arbitrary: ready m)
  case Nil
  then show ?case by auto
next
  case (Cons d ds)
  let ?r = "if mget0 0 m d - 1 = 0 then sort_strings (ready @ [d]) else ready"
  have "sorted ?r" "distinct ?r" "set ds \<inter> set ?r = {}"
    using Cons.prems sorted_sort_strings by auto
  moreover have "release ds ?r (mput d (mget0 0 m d - 1) m) = (ready', m')" using Cons.prems(1) by (simp add: Let_def)
  ultimately show ?case using Cons.IH [of ?r "mput d (mget0 0 m d - 1) m"] Cons.prems(2) by auto
qed

definition kahn_inv ::
  "string set \<Rightarrow> (string \<Rightarrow> string set) \<Rightarrow> (string, string list) gomap \<Rightarrow> string list \<Rightarrow> (string, int) gomap \<Rightarrow> string list \<Rightarrow> bool" where
  "kahn_inv names deps dp ready m order \<longleftrightarrow> greedy names deps order \<and> sorted ready \<and> distinct ready \<and>
     set ready = available names deps order \<and> (\<forall>n\<in>names. mget0 0 m n = int (card (deps n - set order))) \<and>
     (\<forall>n\<in>names. distinct (mget0 [] dp n) \<and> set (mget0 [] dp n) = {d\<in>names. n \<in> deps d})"

context dependency_graph
begin

lemma greedy_closed: "greedy names deps l \<Longrightarrow> x \<in> set l \<Longrightarrow> deps x \<subseteq> set l"
  using greedy_nth(1) by (fastforce simp: in_set_conv_nth dest: in_set_takeD)

lemma card_one_missing:
  assumes "n \<in> deps d" and "n \<notin> X"
  shows "int (card (deps d - X)) = 1 \<longleftrightarrow> deps d \<subseteq> insert n X"
    and "int (card (deps d - insert n X)) = int (card (deps d - X)) - 1"
proof -
  have fin: "finite (deps d - X)" using deps_names finite_names by (meson finite_Diff finite_subset)
  have eq: "deps d - X = insert n (deps d - insert n X)" using assms by auto
  then have card: "card (deps d - X) = Suc (card (deps d - insert n X))"
    using fin by (metis card_insert_disjoint Diff_iff finite_Diff2 finite_insert insertI1)
  then show "int (card (deps d - insert n X)) = int (card (deps d - X)) - 1" by simp
  have "finite (deps d - insert n X)" using fin eq by (metis finite_insert)
  then show "int (card (deps d - X)) = 1 \<longleftrightarrow> deps d \<subseteq> insert n X" using card by auto
qed

lemma available_snoc:
  assumes "greedy names deps l" and "n \<in> available names deps l"
  shows "available names deps (l @ [n]) = (available names deps l - {n}) \<union> {d\<in>names. n \<in> deps d \<and> deps d \<subseteq> insert n (set l)}"
proof -
  have n: "n \<notin> set l" "deps n \<subseteq> set l" using assms(2) by (auto simp: available_def)
  have "d \<notin> insert n (set l)" if "n \<in> deps d" for d using that n greedy_closed [OF assms(1)] by auto
  then show ?thesis unfolding available_def by auto
qed

lemma kahn_inv_step:
  assumes "kahn_inv names deps dp (n # ready) m order"
    and "release (sort_strings (mget0 [] dp n)) ready m = (ready', m')"
  shows "kahn_inv names deps dp ready' m' (order @ [n])"
proof -
  have inv: "greedy names deps order" "sorted (n # ready)" "distinct (n # ready)" "set (n # ready) = available names deps order"
      "\<And>k. k \<in> names \<Longrightarrow> mget0 0 m k = int (card (deps k - set order))"
      "\<And>k. k \<in> names \<Longrightarrow> distinct (mget0 [] dp k) \<and> set (mget0 [] dp k) = {d\<in>names. k \<in> deps d}"
    using assms(1) by (simp_all add: kahn_inv_def)
  have n: "n \<in> available names deps order" "n \<in> names" "n \<notin> set order" using inv(4) by (auto simp: available_def)
  let ?ds = "sort_strings (mget0 [] dp n)"
  have ds: "distinct ?ds" "set ?ds = {d\<in>names. n \<in> deps d}"
    using inv(6) [OF n(2)] by auto
  have "d \<notin> set ready" if "n \<in> deps d" for d using that n(3) inv(4) by (auto simp: available_def)
  then have disj: "set ?ds \<inter> set ready = {}" using ds(2) by auto
  note rel = release_result [OF assms(2) ds(1) _ _ disj]
  have ready': "sorted ready'" "distinct ready'" "set ready' = set ready \<union> {d\<in>set ?ds. mget0 0 m d = 1}"
    and m': "\<And>k. mget0 0 m' k = mget0 0 m k - (if k \<in> set ?ds then 1 else 0)"
    using rel inv(2,3) by simp_all
  have "greedy names deps (order @ [n])" by (rule greedy_snoc [OF inv(1) n(1)]) (use inv(2,4) in auto)
  moreover have "set ready' = available names deps (order @ [n])"
  proof -
    have "{d\<in>set ?ds. mget0 0 m d = 1} = {d\<in>names. n \<in> deps d \<and> deps d \<subseteq> insert n (set order)}"
      unfolding ds(2) using inv(5) card_one_missing(1) n(3) by auto
    moreover have "set ready = available names deps order - {n}" using inv(3,4) by auto
    ultimately show ?thesis using ready'(3) available_snoc [OF inv(1) n(1)] by simp
  qed
  moreover have "mget0 0 m' k = int (card (deps k - set (order @ [n])))" if "k \<in> names" for k
  proof (cases "n \<in> deps k")
    case True
    then show ?thesis using m' [of k] inv(5) [OF that] card_one_missing(2) [OF True n(3)] that ds(2) by simp
  next
    case False
    then have "deps k - insert n (set order) = deps k - set order" by auto
    then show ?thesis using False m' [of k] inv(5) [OF that] ds(2) by simp
  qed
  ultimately show ?thesis using ready'(1,2) inv(6) by (simp add: kahn_inv_def)
qed

lemma kahn_correct:
  "kahn_inv names deps dp ready m order \<Longrightarrow>
     greedy names deps (kahn dp ready m order) \<and> available names deps (kahn dp ready m order) = {}"
proof (induction dp ready m order rule: kahn.induct)
  case (1 dp m order)
  then show ?case by (simp add: kahn_inv_def)
next
  case (2 dp n ready m order)
  show ?case using 2(1) [OF refl kahn_inv_step [OF 2(2)]] by (simp add: Let_def)
qed

end

lemma zeroDegrees_simps [simp]: "mget0 0 (zeroDegrees ks) k = 0" "mkeys (zeroDegrees ks) = ks"
  by (induction ks) (auto simp: mget0_def zeroDegrees_def)

lemma depsOf_ok:
  assumes "mget cs n = Some c" and "deps_ok (set (mkeys cs)) c"
  shows "depsOf cs n = set (depList c)" and "card (depsOf cs n) = length (depList c)"
  using assms by (auto simp: depsOf_def deps_ok_def inf_absorb1 distinct_card)

lemma stableTopologicalOrder_kahn:
  assumes "mwf cs" and "\<forall>c\<in>set (mvals cs). deps_ok (set (mkeys cs)) c"
  obtains ind dp where
    "countAll (mkeys cs) cs (zeroDegrees (mkeys cs), []) = Inr (ind, dp)"
    "kahn_inv (set (mkeys cs)) (depsOf cs) dp (sort_strings (map fst (filter (\<lambda>(name, degree). degree = 0) ind))) ind []"
proof -
  let ?names = "set (mkeys cs)"
  obtain ind dp where run: "countAll (mkeys cs) cs (zeroDegrees (mkeys cs), []) = Inr (ind, dp)"
    using assms(2) countAll_ok by (metis surj_pair)
  have res: "mget0 0 ind k = (case mget cs k of None \<Rightarrow> 0 | Some c \<Rightarrow> int (length (depList c)))"
      "mget0 [] dp d = map fst (filter (\<lambda>(n, c). d \<in> set (depList c)) cs)" "mkeys ind = mkeys cs" for k d
    using countAll_result [OF run assms(1), of k d] by (simp_all add: mget0_def [of "[]" "[]"])
  have ok: "deps_ok ?names c" if "mget cs n = Some c" for n c using that assms(2) by (blast intro: mget_in_vals)
  have deg: "mget0 0 ind n = int (card (depsOf cs n))" if "n \<in> ?names" for n
  proof -
    obtain c where "mget cs n = Some c" using \<open>n \<in> ?names\<close> mkeys_mget [of n cs] by blast
    then show ?thesis using res(1) [of n] depsOf_ok(2) [OF _ ok] by fastforce
  qed
  have fin: "finite (depsOf cs n)" for n by (auto simp: depsOf_def split: option.splits)
  have "mwf ind" using assms(1) res(3) by simp
  then have val: "(n, k) \<in> set ind \<longleftrightarrow> n \<in> ?names \<and> k = mget0 0 ind n" for n k
    using res(3) by (metis (mono_tags) map_of_eq_Some_iff mget0_def mkeys_mget not_None_eq option.simps(5))
  have "set (map fst (filter (\<lambda>(name, degree). degree = 0) ind)) = available ?names (depsOf cs) []"
    using deg fin by (force simp: available_def val)
  moreover have "distinct (map fst (filter (\<lambda>(name, degree). degree = 0) ind))"
    using \<open>mwf ind\<close> by (simp add: distinct_map_filter)
  moreover have "distinct (mget0 [] dp n) \<and> set (mget0 [] dp n) = {d\<in>?names. n \<in> depsOf cs d}" for n
  proof
    show "distinct (mget0 [] dp n)" using assms(1) by (simp add: res(2) distinct_map_filter)
    have "(k, c) \<in> set cs \<longleftrightarrow> mget cs k = Some c" for k c using assms(1) by simp
    then have "d \<in> set (mget0 [] dp n) \<longleftrightarrow> (\<exists>c. mget cs d = Some c \<and> n \<in> set (depList c))" for d by (force simp: res(2))
    then have "d \<in> set (mget0 [] dp n) \<longleftrightarrow> d \<in> ?names \<and> n \<in> depsOf cs d" for d
      using depsOf_ok(1) [OF _ ok] mkeys_mget [of d cs] by (metis not_None_eq)
    then show "set (mget0 [] dp n) = {d\<in>?names. n \<in> depsOf cs d}" by blast
  qed
  ultimately have "kahn_inv ?names (depsOf cs) dp (sort_strings (map fst (filter (\<lambda>(name, degree). degree = 0) ind))) ind []"
    using deg sorted_sort_strings by (auto simp: kahn_inv_def greedy_def)
  then show thesis using run that by blast
qed

lemma stableTopologicalOrder_iff:
  assumes "mwf cs"
  shows "stableTopologicalOrder cs = Inr order \<longleftrightarrow> (\<forall>c\<in>set (mvals cs). deps_ok (set (mkeys cs)) c) \<and>
    greedy (set (mkeys cs)) (depsOf cs) order \<and> set order = set (mkeys cs)"
proof (cases "\<forall>c\<in>set (mvals cs). deps_ok (set (mkeys cs)) c")
  case False
  then have "\<exists>e. countAll (mkeys cs) cs (zeroDegrees (mkeys cs), []) = Inl e"
    using countAll_ok [of "mkeys cs" cs] by (metis sum.exhaust)
  then show ?thesis using False by (auto simp: stableTopologicalOrder_def)
next
  case True
  obtain ind dp where run: "countAll (mkeys cs) cs (zeroDegrees (mkeys cs), []) = Inr (ind, dp)"
    and inv: "kahn_inv (set (mkeys cs)) (depsOf cs) dp (sort_strings (map fst (filter (\<lambda>(name, degree). degree = 0) ind))) ind []"
    using stableTopologicalOrder_kahn [OF assms True] .
  define k where "k = kahn dp (sort_strings (map fst (filter (\<lambda>(name, degree). degree = 0) ind))) ind []"
  have k: "greedy (set (mkeys cs)) (depsOf cs) k" "available (set (mkeys cs)) (depsOf cs) k = {}"
    unfolding k_def using lifecycle.kahn_correct [OF inv] by auto
  have result: "stableTopologicalOrder cs = (if length k \<noteq> length cs then Inl (Errorf ''lifecycle dependency graph contains a cycle'' []) else Inr k)"
    by (simp add: stableTopologicalOrder_def run k_def Let_def)
  have card: "card (set k) = length k" "card (set (mkeys cs)) = length cs"
    using k(1) assms by (auto simp: greedy_def distinct_card simp flip: set_map)
  have len: "length k = length cs \<longleftrightarrow> set k = set (mkeys cs)"
    using k(1) card card_subset_eq [of "set (mkeys cs)" "set k"] by (auto simp: greedy_def)
  have unique: "set k = set (mkeys cs) \<and> order = k"
    if "greedy (set (mkeys cs)) (depsOf cs) order" "set order = set (mkeys cs)"
    using lifecycle.complete_if_stuck [OF lifecycle.acyclic_if_greedy [OF that] k] lifecycle.greedy_unique [OF that k(1)] by simp
  show ?thesis using result len k(1) unique True by auto
qed

lemma stableTopologicalOrder_exists:
  assumes "mwf cs"
  shows "(\<exists>order. stableTopologicalOrder cs = Inr order) \<longleftrightarrow> (\<forall>c\<in>set (mvals cs). deps_ok (set (mkeys cs)) c) \<and>
    acyclic {(n, d). n \<in> set (mkeys cs) \<and> d \<in> depsOf cs n}"
proof
  assume "\<exists>order. stableTopologicalOrder cs = Inr order"
  then show "(\<forall>c\<in>set (mvals cs). deps_ok (set (mkeys cs)) c) \<and> acyclic {(n, d). n \<in> set (mkeys cs) \<and> d \<in> depsOf cs n}"
    using stableTopologicalOrder_iff [OF assms] lifecycle.acyclic_if_greedy by blast
next
  assume ok: "(\<forall>c\<in>set (mvals cs). deps_ok (set (mkeys cs)) c) \<and> acyclic {(n, d). n \<in> set (mkeys cs) \<and> d \<in> depsOf cs n}"
  obtain ind dp where "kahn_inv (set (mkeys cs)) (depsOf cs) dp (sort_strings (map fst (filter (\<lambda>(name, degree). degree = 0) ind))) ind []"
    using stableTopologicalOrder_kahn [OF assms] ok by blast
  then obtain k where "greedy (set (mkeys cs)) (depsOf cs) k" "available (set (mkeys cs)) (depsOf cs) k = {}"
    using lifecycle.kahn_correct by blast
  then show "\<exists>order. stableTopologicalOrder cs = Inr order"
    using lifecycle.complete_if_stuck ok stableTopologicalOrder_iff [OF assms] by blast
qed

section \<open>The manager\<close>

definition componentMap :: "'w Component option list \<Rightarrow> (string, 'w Component) gomap" where
  "componentMap cs = map (\<lambda>c. (TrimSpace (c_Name c), c)) (map the cs)"

lemma addComponents_iff:
  "addComponents cs m = Inr m' \<longleftrightarrow> None \<notin> set cs \<and> '''' \<notin> set (mkeys (componentMap cs)) \<and>
     distinct (mkeys (componentMap cs)) \<and> set (mkeys (componentMap cs)) \<inter> set (mkeys m) = {} \<and> m' = m @ componentMap cs"
proof (induction cs m rule: addComponents.induct)
  case (1 m)
  then show ?case by (auto simp: componentMap_def)
next
  case (2 cs m)
  then show ?case by simp
next
  case (3 c cs m)
  let ?n = "TrimSpace (c_Name c)"
  have put: "mput ?n c m = m @ [(?n, c)]" if "mget m ?n = None"
    using that by (induction m) auto
  have "mget m ?n \<noteq> None \<longleftrightarrow> ?n \<in> set (mkeys m)" using mkeys_mget [of ?n m] by blast
  moreover have map: "componentMap (Some c # cs) = (?n, c) # componentMap cs" by (simp add: componentMap_def)
  ultimately show ?case
  proof (cases "?n = '''' \<or> mget m ?n \<noteq> None")
    case True
    then show ?thesis using \<open>mget m ?n \<noteq> None \<longleftrightarrow> ?n \<in> set (mkeys m)\<close> by (auto simp: map Let_def)
  next
    case False
    define X where "X = mkeys (componentMap cs)"
    have keys: "mkeys (mput ?n c m) = mkeys m @ [?n]" using put False by simp
    have "addComponents (Some c # cs) m = Inr m' \<longleftrightarrow> None \<notin> set cs \<and> '''' \<notin> set X \<and> distinct X \<and>
        set X \<inter> set (mkeys m @ [?n]) = {} \<and> m' = m @ (?n, c) # componentMap cs"
      using 3 [OF refl] False put unfolding keys X_def by (simp add: Let_def)
    moreover have "mkeys (componentMap (Some c # cs)) = ?n # X" by (simp add: map X_def)
    moreover have "?n \<notin> set (mkeys m)" using False \<open>mget m ?n \<noteq> None \<longleftrightarrow> ?n \<in> set (mkeys m)\<close> by simp
    ultimately show ?thesis using False by (simp only: map) auto
  qed
qed

lemma NewManager_iff:
  "NewManager components t = Inr m \<longleftrightarrow> addComponents components [] = Inr (componentMap components) \<and>
     stableTopologicalOrder (componentMap components) = Inr (m_order m) \<and>
     m = \<lparr>m_components = componentMap components, m_order = m_order m, m_started = [], m_cancel = None,
       m_stopTimeout = (if t \<le> 0 then 5 * 1000000000 else t)\<rparr>"
proof (cases "addComponents components []")
  case (Inl e)
  then show ?thesis by (simp add: NewManager_def)
next
  case (Inr x)
  then have "x = componentMap components" using addComponents_iff [of components "[]" x] by simp
  then show ?thesis using Inr by (cases "stableTopologicalOrder (componentMap components)"; cases m) (auto simp: NewManager_def Let_def)
qed

text \<open>
  C39: The start order. A manager is made exactly when every component is given, the names are distinct and not blank, and
  every dependency is given once, names a component and lies on no cycle. The order then lists every component once,
  after its dependencies, each place taken by the least component that can start; no other order is like this, so the
  iteration order of Go maps does not matter.
\<close>

theorem NewManager_order:
  fixes components :: "'w Component option list"
  defines "cs \<equiv> componentMap components"
  shows "((\<exists>m. NewManager components t = Inr m) \<longleftrightarrow> None \<notin> set components \<and> '''' \<notin> set (mkeys cs) \<and> distinct (mkeys cs) \<and>
      (\<forall>c\<in>set (mvals cs). deps_ok (set (mkeys cs)) c) \<and> acyclic {(n, d). n \<in> set (mkeys cs) \<and> d \<in> depsOf cs n}) \<and>
    (\<forall>m order. NewManager components t = Inr m \<longrightarrow>
      (order = m_order m \<longleftrightarrow> greedy (set (mkeys cs)) (depsOf cs) order \<and> set order = set (mkeys cs)))"
proof -
  have add: "addComponents components [] = Inr m' \<longleftrightarrow> None \<notin> set components \<and> '''' \<notin> set (mkeys cs) \<and> distinct (mkeys cs) \<and> m' = cs" for m'
    using addComponents_iff [of components "[]" m'] by (simp add: cs_def)
  note new = NewManager_iff [of components t, folded cs_def]
  have ex: "(\<exists>m. NewManager components t = Inr m) \<longleftrightarrow> addComponents components [] = Inr cs \<and> (\<exists>order. stableTopologicalOrder cs = Inr order)"
    unfolding new by (metis Manager.select_convs(2))
  have "(\<exists>m. NewManager components t = Inr m) \<longleftrightarrow> None \<notin> set components \<and> '''' \<notin> set (mkeys cs) \<and> distinct (mkeys cs) \<and>
      (\<forall>c\<in>set (mvals cs). deps_ok (set (mkeys cs)) c) \<and> acyclic {(n, d). n \<in> set (mkeys cs) \<and> d \<in> depsOf cs n}"
    using stableTopologicalOrder_exists [of cs] unfolding ex add by blast
  moreover have "order = m_order m \<longleftrightarrow> greedy (set (mkeys cs)) (depsOf cs) order \<and> set order = set (mkeys cs)"
    if "NewManager components t = Inr m" for m order
  proof -
    have "mwf cs" "stableTopologicalOrder cs = Inr (m_order m)" using that unfolding new add by blast+
    then show ?thesis using stableTopologicalOrder_iff [of cs order] stableTopologicalOrder_iff [of cs "m_order m"] by auto
  qed
  ultimately show ?thesis by blast
qed

section \<open>Starts and stops respect the dependencies\<close>

text \<open>Components that record their calls: which component started, failed to start or was stopped, in this order.\<close>

datatype call = Started string | FailedStart string | Stopped string

definition traced :: "'w Component \<Rightarrow> ('w \<times> call list) Component" where
  "traced c = \<lparr>c_Name = c_Name c, c_Dependencies = c_Dependencies c,
     c_Start = (\<lambda>ctx (w, calls). case c_Start c ctx w of (w', err) \<Rightarrow>
        ((w', calls @ [if err = None then Started (TrimSpace (c_Name c)) else FailedStart (TrimSpace (c_Name c))]), err)),
     c_Stop = (\<lambda>ctx (w, calls). case c_Stop c ctx w of (w', err) \<Rightarrow> ((w', calls @ [Stopped (TrimSpace (c_Name c))]), err)),
     c_Health = (\<lambda>ctx (w, calls). c_Health c ctx w)\<rparr>"

fun running :: "string set \<Rightarrow> call list \<Rightarrow> string set" where
  "running X [] = X"
| "running X (Started n # calls) = running (insert n X) calls"
| "running X (FailedStart n # calls) = running X calls"
| "running X (Stopped n # calls) = running (X - {n}) calls"

text \<open>
  A sequence of calls that respects the dependencies: a component is started when it does not run and all its
  dependencies run, and stopped when it runs and nothing that runs depends on it.
\<close>

fun orderly :: "(string \<Rightarrow> string set) \<Rightarrow> string set \<Rightarrow> call list \<Rightarrow> bool" where
  "orderly deps X [] = True"
| "orderly deps X (Started n # calls) = (n \<notin> X \<and> deps n \<subseteq> X \<and> orderly deps (insert n X) calls)"
| "orderly deps X (FailedStart n # calls) = (n \<notin> X \<and> deps n \<subseteq> X \<and> orderly deps X calls)"
| "orderly deps X (Stopped n # calls) = (n \<in> X \<and> (\<forall>d\<in>X. n \<notin> deps d) \<and> orderly deps (X - {n}) calls)"

lemma running_append: "running X (a @ b) = running (running X a) b"
  by (induction X a rule: running.induct) auto

lemma orderly_append: "orderly deps X (a @ b) \<longleftrightarrow> orderly deps X a \<and> orderly deps (running X a) b"
  by (induction X a rule: running.induct) auto

definition quiet :: "(Context \<Rightarrow> 'w \<Rightarrow> 'w) \<Rightarrow> Context \<Rightarrow> 'w \<times> call list \<Rightarrow> 'w \<times> call list" where
  "quiet cancel ctx s = (cancel ctx (fst s), snd s)"

inductive lifecycle_step ::
  "(Context \<Rightarrow> 'w \<Rightarrow> 'w) \<Rightarrow> 'w Manager \<times> 'w \<Rightarrow> 'w Manager \<times> 'w \<Rightarrow> bool" for cancel where
  start: "lifecycle_step cancel s (fst (Start cancel ctx s))"
| stop: "lifecycle_step cancel s (fst (Stop cancel ctx s))"

text \<open>The components of the manager record their calls under the name they are filed under.\<close>

definition recording :: "(string, ('w \<times> call list) Component) gomap \<Rightarrow> bool" where
  "recording cs \<longleftrightarrow> (\<forall>n c. mget cs n = Some c \<longrightarrow> (\<exists>c0. c = traced c0 \<and> TrimSpace (c_Name c0) = n))"

lemma recording_traced:
  assumes "recording cs" and "n \<in> set (mkeys cs)"
  obtains c where "mget cs n = Some (traced c)" and "TrimSpace (c_Name c) = n"
proof -
  obtain c where "mget cs n = Some c" using assms(2) mkeys_mget [of n cs] by blast
  then show thesis using assms(1) that unfolding recording_def by blast
qed

lemma recorded_start:
  assumes "recording cs" and "n \<in> set (mkeys cs)" and "callStart cs n ctx (w, calls) = (w', err)"
  shows "snd w' = calls @ [if err = None then Started n else FailedStart n]"
proof -
  obtain c where "mget cs n = Some (traced c)" "TrimSpace (c_Name c) = n" using recording_traced [OF assms(1,2)] .
  then show ?thesis using assms(3) by (auto simp: callStart_def traced_def split: prod.splits)
qed

lemma recorded_stop:
  assumes "recording cs" and "n \<in> set (mkeys cs)" and "callStop cs n ctx (w, calls) = (w', err)"
  shows "snd w' = calls @ [Stopped n]"
proof -
  obtain c where "mget cs n = Some (traced c)" "TrimSpace (c_Name c) = n" using recording_traced [OF assms(1,2)] .
  then show ?thesis using assms(3) by (auto simp: callStop_def traced_def split: prod.splits)
qed

lemma stopLoop_orderly:
  assumes "recording cs" and "greedy (set (mkeys cs)) (depsOf cs) xs"
    and "orderly (depsOf cs) {} (snd w)" and "running {} (snd w) = set xs"
    and "stopLoop (quiet cancel) cs ctx (rev xs) errs w = (w', errs')"
  shows "orderly (depsOf cs) {} (snd w') \<and> running {} (snd w') = {}"
  using assms(2-)
proof (induction xs arbitrary: w errs rule: rev_induct)
  case Nil
  then show ?case by simp
next
  case (snoc n xs)
  obtain w1 err where call: "callStop cs n ctx w = (w1, err)" by (cases "callStop cs n ctx w")
  have g: "greedy (set (mkeys cs)) (depsOf cs) xs" "n \<notin> set xs" "n \<in> set (mkeys cs)"
    using snoc.prems(1) lifecycle.greedy_take [OF snoc.prems(1), of "length xs"] by (auto simp: greedy_def)
  have log: "snd w1 = snd w @ [Stopped n]" using recorded_stop [OF assms(1) g(3)] call by (cases w) simp
  have "depsOf cs n \<subseteq> set xs" using lifecycle.greedy_nth(1) [OF snoc.prems(1), of "length xs"] by simp
  then have "n \<notin> depsOf cs d" if "d \<in> set (xs @ [n])" for d
    using that g(2) lifecycle.greedy_closed [OF g(1)] by auto
  then have "orderly (depsOf cs) {} (snd (quiet cancel ctx w1)) \<and> running {} (snd (quiet cancel ctx w1)) = set xs"
    using snoc.prems(2,3) g(2) by (auto simp: quiet_def log orderly_append running_append)
  moreover have "stopLoop (quiet cancel) cs ctx (rev xs)
      (errs @ (case err of None \<Rightarrow> [] | Some e \<Rightarrow> [Wrapf e (''stop lifecycle component '' @ n)])) (quiet cancel ctx w1) = (w', errs')"
    using snoc.prems(4) call by simp
  ultimately show ?case using snoc.IH [OF g(1)] by blast
qed

definition managed ::
  "(string, ('w \<times> call list) Component) gomap \<Rightarrow> string list \<Rightarrow> ('w \<times> call list) Manager \<times> ('w \<times> call list) \<Rightarrow> bool" where
  "managed cs order s \<longleftrightarrow> m_components (fst s) = cs \<and> m_order (fst s) = order \<and> orderly (depsOf cs) {} (snd (snd s)) \<and>
     running {} (snd (snd s)) = set (m_started (fst s))"

lemma stopStarted_managed:
  assumes "recording cs" and "greedy (set (mkeys cs)) (depsOf cs) (m_started (fst s))" and "managed cs order s"
  shows "managed cs order (fst (stopStartedLocked (quiet cancel) parent s)) \<and>
    m_started (fst (fst (stopStartedLocked (quiet cancel) parent s))) = []"
proof -
  obtain m w where s: "s = (m, w)" by (cases s)
  obtain w' errs where run: "stopLoop (quiet cancel) cs (WithTimeout parent (m_stopTimeout m)) (rev (m_started m)) [] w = (w', errs)"
    by (meson surj_pair)
  then show ?thesis using stopLoop_orderly [OF assms(1) _ _ _ run] assms(2,3)
    by (auto simp: s managed_def stopStartedLocked_def)
qed

lemma quiet_managed: "managed cs order (m, quiet cancel ctx w) \<longleftrightarrow> managed cs order (m, w)"
  by (simp add: managed_def quiet_def)

lemma startLoop_managed:
  assumes "recording cs" and "greedy (set (mkeys cs)) (depsOf cs) order" and "order = m_started (fst s) @ names"
    and "managed cs order s"
  shows "managed cs order (fst (startLoop (quiet cancel) ctx names s)) \<and>
    m_started (fst (fst (startLoop (quiet cancel) ctx names s))) \<in> {[], order}"
  using assms(3,4)
proof (induction names arbitrary: s)
  case Nil
  then show ?case by simp
next
  case (Cons n names)
  obtain m w where s: "s = (m, w)" by (cases s)
  obtain w1 err where call: "callStart cs n ctx w = (w1, err)" by (cases "callStart cs n ctx w")
  let ?k = "length (m_started m)"
  have k: "?k < length order" "order ! ?k = n" "take ?k order = m_started m" using Cons.prems(1) by (auto simp: s)
  note nth = lifecycle.greedy_nth [OF assms(2) k(1)]
  have log: "snd w1 = snd w @ [if err = None then Started n else FailedStart n]"
    using recorded_start [OF assms(1) nth(3) [unfolded k(2)]] call by (cases w) simp
  have inv: "m_components m = cs" "m_order m = order" "orderly (depsOf cs) {} (snd w)" "running {} (snd w) = set (m_started m)"
    using Cons.prems(2) by (auto simp: s managed_def)
  have g: "greedy (set (mkeys cs)) (depsOf cs) (m_started m)" using lifecycle.greedy_take [OF assms(2), of ?k] k(3) by simp
  show ?case
  proof (cases err)
    case None
    then have "managed cs order (m\<lparr>m_started := m_started m @ [n]\<rparr>, w1)"
      using inv log nth(1,2) k by (auto simp: managed_def orderly_append running_append)
    then show ?thesis using Cons.IH [of "(m\<lparr>m_started := m_started m @ [n]\<rparr>, w1)"] Cons.prems(1) call None inv(1) by (simp add: s)
  next
    case (Some e)
    then have "managed cs order (m, w1)"
      using inv log nth(1,2) k by (auto simp: managed_def orderly_append running_append)
    then show ?thesis using stopStarted_managed [OF assms(1), of "(m, quiet cancel ctx w1)" order cancel Background] g call Some inv(1)
      by (auto simp: s quiet_managed split: prod.splits)
  qed
qed

definition fresh_manager :: "('w \<times> call list) Manager \<times> ('w \<times> call list) \<Rightarrow> bool" where
  "fresh_manager s \<longleftrightarrow> (\<exists>components t. NewManager (map (map_option traced) components) t = Inr (fst s)) \<and> snd (snd s) = []"

definition lifecycle_inv :: "('w \<times> call list) Manager \<times> ('w \<times> call list) \<Rightarrow> bool" where
  "lifecycle_inv s \<longleftrightarrow> recording (m_components (fst s)) \<and>
     greedy (set (mkeys (m_components (fst s)))) (depsOf (m_components (fst s))) (m_order (fst s)) \<and>
     managed (m_components (fst s)) (m_order (fst s)) s \<and> m_started (fst s) \<in> {[], m_order (fst s)}"

definition same_components :: "'w Manager \<times> 'w \<Rightarrow> 'w Manager \<times> 'w \<Rightarrow> bool" where
  "same_components s t \<longleftrightarrow> m_components (fst t) = m_components (fst s) \<and> m_order (fst t) = m_order (fst s)"

lemma greedy_Nil [simp]: "greedy names deps []"
  by (simp add: greedy_def)

lemma fresh_lifecycle_inv:
  assumes "fresh_manager s"
  shows "lifecycle_inv s"
proof -
  obtain components t where new: "NewManager (map (map_option traced) components) t = Inr (fst s)" and log: "snd (snd s) = []"
    using assms by (auto simp: fresh_manager_def)
  let ?cs = "componentMap (map (map_option traced) components)"
  note made = iffD1 [OF NewManager_iff new]
  have add: "addComponents (map (map_option traced) components) [] = Inr ?cs" using made by blast
  have s: "stableTopologicalOrder ?cs = Inr (m_order (fst s))" "m_components (fst s) = ?cs" "m_started (fst s) = []"
    using made by (metis Manager.select_convs(1,3))+
  have ok: "None \<notin> set (map (map_option traced) components)" "mwf ?cs" using add addComponents_iff by blast+
  have "greedy (set (mkeys ?cs)) (depsOf ?cs) (m_order (fst s))" using stableTopologicalOrder_iff [OF ok(2)] s(1) by blast
  moreover have "recording ?cs"
    unfolding recording_def
  proof (intro allI impI)
    fix n c assume "mget ?cs n = Some c"
    then obtain x where x: "x \<in> set components" "n = TrimSpace (c_Name (the (map_option traced x)))" "c = the (map_option traced x)"
      by (auto simp: componentMap_def dest!: map_of_SomeD)
    then obtain c0 where "x = Some c0" using ok(1) by (cases x) force+
    then show "\<exists>c0. c = traced c0 \<and> TrimSpace (c_Name c0) = n" using x by (auto simp: traced_def)
  qed
  ultimately show ?thesis using s(2,3) log by (simp add: lifecycle_inv_def managed_def)
qed

lemma lifecycle_inv_step:
  assumes "lifecycle_inv s" and "lifecycle_step (quiet cancel) s t"
  shows "lifecycle_inv t \<and> same_components s t"
proof -
  obtain m w where s: "s = (m, w)" by (cases s)
  let ?cs = "m_components m" and ?order = "m_order m"
  have inv: "recording ?cs" "greedy (set (mkeys ?cs)) (depsOf ?cs) ?order" "managed ?cs ?order s" "m_started m \<in> {[], ?order}"
    using assms(1) by (auto simp: lifecycle_inv_def s)
  have "managed ?cs ?order t \<and> m_started (fst t) \<in> {[], ?order}"
    using assms(2)
  proof cases
    case (start ctx)
    show ?thesis
    proof (cases "m_started m = []")
      case True
      let ?root = "WithCancel (orBackground ctx)"
      have "managed ?cs ?order (m\<lparr>m_cancel := Some ?root\<rparr>, w)" using inv(3) by (simp add: managed_def s)
      then show ?thesis
        using startLoop_managed [OF inv(1,2), of "(m\<lparr>m_cancel := Some ?root\<rparr>, w)" ?order cancel ?root] True start
        by (simp add: Start_def s Let_def)
    qed (use start inv in \<open>simp add: Start_def s\<close>)
  next
    case (stop ctx)
    define m1 where "m1 = (case m_cancel m of None \<Rightarrow> (m, w) | Some r \<Rightarrow> (m\<lparr>m_cancel := None\<rparr>, quiet cancel r w))"
    have "managed ?cs ?order m1" "m_started (fst m1) = m_started m"
      using inv(3) by (auto simp: m1_def s managed_def quiet_def split: option.splits)
    moreover have "greedy (set (mkeys ?cs)) (depsOf ?cs) (m_started m)" using inv(2,4) by auto
    ultimately show ?thesis using stopStarted_managed [OF inv(1), of m1 ?order cancel "orBackground ctx"] stop
      by (simp add: Stop_def s m1_def)
  qed
  then show ?thesis using inv(1,2) by (auto simp: lifecycle_inv_def same_components_def managed_def s)
qed

interpretation manager: history_system fresh_manager "lifecycle_step (quiet cancel)" lifecycle_inv same_components for cancel
proof unfold_locales
  show "same_components s s" and "same_components s t \<Longrightarrow> same_components t u \<Longrightarrow> same_components s u" for s t u :: "('a \<times> call list) Manager \<times> 'a \<times> call list"
    by (simp_all add: same_components_def)
qed (use fresh_lifecycle_inv lifecycle_inv_step in blast)+

text \<open>
  C26: Starts and stops are orderly. Whatever sequence of \<open>Start\<close> and \<open>Stop\<close> a new manager is given, and whatever its
  components answer: a component is started only while all its dependencies run, and stopped only while nothing that
  depends on it runs; between the calls either all components run or none does. In particular a start that fails half
  way stops everything it has started.
\<close>

theorem lifecycle_orderly:
  assumes "NewManager (map (map_option traced) components) t = Inr m"
    and "(lifecycle_step (quiet cancel))\<^sup>*\<^sup>* (m, (w, [])) (m', (w', calls))"
  shows "orderly (depsOf (m_components m)) {} calls \<and> running {} calls = set (m_started m') \<and>
    (m_started m' = [] \<or> m_started m' = m_order m)"
proof -
  have init: "fresh_manager (m, (w, []))" using assms(1) by (auto simp: fresh_manager_def)
  show ?thesis using manager.inv_reachable [OF init assms(2)] manager.before_reachable [OF init rtranclp.rtrancl_refl assms(2)]
    by (auto simp: lifecycle_inv_def managed_def same_components_def)
qed

text \<open>A store, a queue on it and a server on both; the server fails to start and everything is stopped again.\<close>

definition exComponent :: "string \<Rightarrow> string list \<Rightarrow> bool \<Rightarrow> unit Component" where
  "exComponent name deps ok = \<lparr>c_Name = name, c_Dependencies = deps,
     c_Start = (\<lambda>ctx w. (w, if ok then None else Some (Errorf ''no port'' []))), c_Stop = (\<lambda>ctx w. (w, None)),
     c_Health = (\<lambda>ctx w. \<lparr>h_Status = StatusReady, h_Reason = '''', h_ChangedAt = 0\<rparr>)\<rparr>"

definition exComponents :: "unit Component option list" where
  "exComponents = [Some (exComponent ''server'' [''queue'', ''store''] False), Some (exComponent ''store'' [] True),
     Some (exComponent ''queue'' ['' store''] True)]"

definition exManager :: "(unit \<times> call list) Manager" where
  "exManager = projr (NewManager (map (map_option traced) exComponents) 0)"

definition exCalls :: "((unit \<times> call list) Manager \<times> unit \<times> call list) \<times> go_error list" where
  "exCalls = Start (quiet (\<lambda>ctx w. w)) Background (exManager, ((), []))"

lemma exManager_made: "NewManager (map (map_option traced) exComponents) 0 = Inr exManager"
proof -
  have "\<not> isl (NewManager (map (map_option traced) exComponents) 0)" by code_simp
  then show ?thesis unfolding exManager_def by (cases "NewManager (map (map_option traced) exComponents) 0") auto
qed

theorem lifecycle_orderly_witness:
  "snd (snd (fst exCalls)) = [Started ''store'', Started ''queue'', FailedStart ''server'', Stopped ''queue'', Stopped ''store''] \<and>
   orderly (depsOf (m_components exManager)) {} (snd (snd (fst exCalls)))"
proof
  show "snd (snd (fst exCalls)) = [Started ''store'', Started ''queue'', FailedStart ''server'', Stopped ''queue'', Stopped ''store'']"
    by code_simp
  have "(lifecycle_step (quiet (\<lambda>ctx w. w)))\<^sup>*\<^sup>* (exManager, ((), []))
      (fst (fst exCalls), (fst (snd (fst exCalls)), snd (snd (fst exCalls))))"
    unfolding exCalls_def prod.collapse by (rule r_into_rtranclp, rule lifecycle_step.start)
  from lifecycle_orderly [OF exManager_made this]
  show "orderly (depsOf (m_components exManager)) {} (snd (snd (fst exCalls)))" by blast
qed

theorem NewManager_order_witness:
  "m_order (projr (NewManager exComponents 0)) = [''store'', ''queue'', ''server''] \<and>
   greedy (set (mkeys (componentMap exComponents))) (depsOf (componentMap exComponents)) [''store'', ''queue'', ''server'']"
proof
  show order: "m_order (projr (NewManager exComponents 0)) = [''store'', ''queue'', ''server'']" by code_simp
  have "\<not> isl (NewManager exComponents 0)" by code_simp
  then obtain m where "NewManager exComponents 0 = Inr m" by (cases "NewManager exComponents 0") auto
  then show "greedy (set (mkeys (componentMap exComponents))) (depsOf (componentMap exComponents)) [''store'', ''queue'', ''server'']"
    using NewManager_order [of exComponents 0] order by auto
qed

end
