(* ===== verification/Orch_Structural.thy ===== *)
theory Orch_Structural
  imports Orch_Attempts
begin

text \<open>
  Structural nodes (\<open>structural.go\<close>) and graph diagnostics (\<open>diagnostics.go\<close>): the sources of a node, and the
  decisions of the default gate evaluator, merge reducer and repair controller. A decision is what the executor gives
  to \<open>FinishAttempt\<close>, so the properties are those the reducer asks for: evidence that is never empty or blank, an event
  it knows, and repair decisions that \<open>createRepairPlan\<close> accepts.

  JSON and SHA-256 are arguments: \<open>enc\<close> is the encoding of one field value (empty when it cannot be encoded) and
  \<open>hex\<close> the hexadecimal digest of the encoded decision. A nil map of fields is the empty map.
\<close>

section \<open>Sources and decisions\<close>

record StructuralSource =
  ss_Edge :: WorkflowEdge
  ss_Attempt :: NodeAttempt

record StructuralInput =
  si_Plan :: RequirementExecutionPlan
  si_Projection :: PlanProjection
  si_Node :: WorkflowNode
  si_Attempt :: NodeAttempt
  si_Envelope :: ContextEnvelope
  si_Incoming :: "StructuralSource list"

record StructuralDecision =
  sd_Event :: string
  sd_Result :: StructuredResult
  sd_Failure :: "FailureReason option"
  sd_ArtifactIDs :: "string list"

abbreviation sourceResult :: "StructuralSource \<Rightarrow> StructuredResult" where
  "sourceResult s \<equiv> a_Result (ss_Attempt s)"

definition sourceBefore :: "StructuralSource \<Rightarrow> StructuralSource \<Rightarrow> bool" where
  "sourceBefore x y =
     (if e_Priority (ss_Edge x) = e_Priority (ss_Edge y) then e_ID (ss_Edge x) < e_ID (ss_Edge y)
      else e_Priority (ss_Edge y) < e_Priority (ss_Edge x))"

definition sourceOf :: "PlanProjection \<Rightarrow> WorkflowEdge \<Rightarrow> StructuralSource option" where
  "sourceOf p e =
     (case mget (p_Nodes p) (e_From e) of
        None \<Rightarrow> None
      | Some n \<Rightarrow>
          if np_CurrentAttempt n = '''' then None
          else case mget (p_Attempts p) (np_CurrentAttempt n) of
            None \<Rightarrow> None
          | Some a \<Rightarrow> if edgeSatisfied e a then Some \<lparr>ss_Edge = e, ss_Attempt = a\<rparr> else None)"

definition incomingStructuralSources :: "RequirementExecutionPlan \<Rightarrow> PlanProjection \<Rightarrow> string \<Rightarrow> StructuralSource list" where
  "incomingStructuralSources plan p nodeID =
     sort_stable sourceBefore
       (List.map_filter (\<lambda>e. if e_To e \<noteq> nodeID then None else sourceOf p e) (g_Edges (pl_GraphSnapshot plan)))"

text \<open>The loops over the evidence of the sources: trimmed, not empty and without repetition, in the order of the sources.\<close>

fun collectEvidence :: "string list \<Rightarrow> string list \<Rightarrow> string list" where
  "collectEvidence [] evidence = evidence"
| "collectEvidence (x # xs) evidence =
     (let id = TrimSpace x
      in collectEvidence xs (if id = '''' \<or> id \<in> set evidence then evidence else evidence @ [id]))"

definition structuralEvidence :: "StructuralSource list \<Rightarrow> string list \<Rightarrow> string list \<times> string list" where
  "structuralEvidence sources required =
     (let evidence = collectEvidence (concat (map (\<lambda>s. sr_EvidenceIDs (sourceResult s)) sources)) []
      in (evidence, filter (\<lambda>id. id \<notin> set evidence) required))"

definition branchFields :: "StructuralSource \<Rightarrow> any" where
  "branchFields s = VMap ElemAny
     [(''node_id'', VString (a_NodeID (ss_Attempt s))), (''attempt_id'', VString (a_ID (ss_Attempt s))),
      (''outcome'', VString (sr_Outcome (sourceResult s))), (''reason_code'', VString (sr_ReasonCode (sourceResult s))),
      (''fields'', VMap ElemAny (sr_Fields (sourceResult s)))]"

definition copyFields :: "fields \<Rightarrow> fields \<Rightarrow> fields" where
  "copyFields src dst = fold (\<lambda>(k, v). mput k v) src dst"

definition aggregateStructuralFields :: "StructuralSource list \<Rightarrow> fields" where
  "aggregateStructuralFields sources =
     mput ''branch_count'' (VInt (int (length sources)))
       (mput ''branches'' (VSlice ElemMap (map branchFields sources))
         (fold (\<lambda>s. copyFields (sr_Fields (sourceResult s))) sources []))"

text \<open>The values of one key that have different encodings, in the order of the sources.\<close>

fun differentValues :: "(any \<Rightarrow> string) \<Rightarrow> string \<Rightarrow> StructuralSource list \<Rightarrow> string list \<Rightarrow> any list" where
  "differentValues enc key [] seen = []"
| "differentValues enc key (s # ss) seen =
     (case mget (sr_Fields (sourceResult s)) key of
        None \<Rightarrow> differentValues enc key ss seen
      | Some v \<Rightarrow>
          if enc v \<in> set seen then differentValues enc key ss seen
          else v # differentValues enc key ss (enc v # seen))"

definition conflictKeys :: "StructuralSource list \<Rightarrow> string list \<Rightarrow> string list" where
  "conflictKeys sources keys =
     (if keys = [] then sort_strings (remdups (concat (map (\<lambda>s. mkeys (sr_Fields (sourceResult s))) sources))) else keys)"

definition mergeConflicts :: "(any \<Rightarrow> string) \<Rightarrow> StructuralSource list \<Rightarrow> string list \<Rightarrow> fields" where
  "mergeConflicts enc sources keys =
     fold (\<lambda>key conflicts.
        let values = differentValues enc key sources []
        in if 1 < length values then mput key (VSlice ElemAny values) conflicts else conflicts)
       (conflictKeys sources keys) []"

definition sourceAttemptIDs :: "StructuralSource list \<Rightarrow> string list" where
  "sourceAttemptIDs sources = map (\<lambda>s. a_ID (ss_Attempt s)) sources"

definition appendUniqueEvidence :: "string list \<Rightarrow> string \<Rightarrow> string list" where
  "appendUniqueEvidence evidence x = (if x \<in> set evidence then evidence else evidence @ [x])"

definition structuralDecisionEvidence :: "(string \<Rightarrow> string \<Rightarrow> fields \<Rightarrow> string) \<Rightarrow> string \<Rightarrow> string \<Rightarrow> fields \<Rightarrow> string" where
  "structuralDecisionEvidence hex kind code flds = kind @ ''-decision:'' @ hex kind code flds"

definition passedStructuralDecision ::
  "(string \<Rightarrow> string \<Rightarrow> fields \<Rightarrow> string) \<Rightarrow> string \<Rightarrow> string \<Rightarrow> string \<Rightarrow> string list \<Rightarrow> fields \<Rightarrow> StructuralDecision" where
  "passedStructuralDecision hex kind code summary evidence0 flds =
     (let evidence = (if evidence0 = [] then [structuralDecisionEvidence hex kind code flds] else evidence0);
          artifact = structuralDecisionEvidence hex kind code flds
      in \<lparr>sd_Event = ''success'',
          sd_Result = \<lparr>sr_Outcome = ''pass'', sr_ReasonCode = code, sr_Fields = flds, sr_Summary = summary,
            sr_EvidenceIDs = appendUniqueEvidence evidence artifact\<rparr>,
          sd_Failure = None, sd_ArtifactIDs = [artifact]\<rparr>)"

definition failedStructuralDecision ::
  "(string \<Rightarrow> string \<Rightarrow> fields \<Rightarrow> string) \<Rightarrow> string \<Rightarrow> string \<Rightarrow> string \<Rightarrow> string list \<Rightarrow> fields \<Rightarrow> StructuralDecision" where
  "failedStructuralDecision hex kind code summary evidence flds =
     (let artifact = structuralDecisionEvidence hex kind code flds
      in \<lparr>sd_Event = ''failure'',
          sd_Result = \<lparr>sr_Outcome = ''failure'', sr_ReasonCode = code, sr_Fields = flds, sr_Summary = summary,
            sr_EvidenceIDs = appendUniqueEvidence evidence artifact\<rparr>,
          sd_Failure = Some \<lparr>f_Code = code, f_Message = summary, f_Retryable = False\<rparr>, sd_ArtifactIDs = [artifact]\<rparr>)"

section \<open>Gates\<close>

definition GateReasonPassed :: string where "GateReasonPassed = ''gate_predicate_passed''"
definition GateReasonPredicateFailed :: string where "GateReasonPredicateFailed = ''gate_predicate_failed''"
definition GateReasonEvidenceMissing :: string where "GateReasonEvidenceMissing = ''gate_evidence_missing''"

definition EvaluateGate :: "(string \<Rightarrow> string \<Rightarrow> fields \<Rightarrow> string) \<Rightarrow> StructuralInput \<Rightarrow> go_error + StructuralDecision" where
  "EvaluateGate hex inp =
     (let policy = n_GatePolicy (si_Node inp);
          flds = aggregateStructuralFields (si_Incoming inp)
      in case EvaluatePredicate (gp_Predicate policy) flds of
           Inl e \<Rightarrow> Inl e
         | Inr matched \<Rightarrow>
             (case structuralEvidence (si_Incoming inp) (gp_RequiredEvidence policy) of
                (evidence, missing) \<Rightarrow> Inr
                  (if missing \<noteq> [] then
                     failedStructuralDecision hex ''gate'' GateReasonEvidenceMissing ''gate is missing required evidence'' evidence
                       [(''missing_evidence'', VStrings missing)]
                   else if \<not> matched then
                     failedStructuralDecision hex ''gate''
                       (let code = TrimSpace (gp_FailureCode policy) in if code = '''' then GateReasonPredicateFailed else code)
                       ''gate predicate did not match'' evidence flds
                   else passedStructuralDecision hex ''gate'' GateReasonPassed ''gate predicate matched'' evidence flds)))"

section \<open>Merges\<close>

definition MergeReasonCollected :: string where "MergeReasonCollected = ''merge_collected''"
definition MergeReasonPreferredPriority :: string where "MergeReasonPreferredPriority = ''merge_preferred_priority''"
definition MergeReasonConflict :: string where "MergeReasonConflict = ''merge_conflict''"
definition MergeReasonEvidenceMissing :: string where "MergeReasonEvidenceMissing = ''merge_evidence_missing''"

definition mergeBranch :: "StructuralSource \<Rightarrow> any" where
  "mergeBranch s = VMap ElemAny
     [(''edge_id'', VString (e_ID (ss_Edge s))), (''node_id'', VString (a_NodeID (ss_Attempt s))),
      (''attempt_id'', VString (a_ID (ss_Attempt s))), (''priority'', VInt (e_Priority (ss_Edge s))),
      (''outcome'', VString (sr_Outcome (sourceResult s))), (''reason_code'', VString (sr_ReasonCode (sourceResult s))),
      (''fields'', VMap ElemAny (sr_Fields (sourceResult s))), (''evidence_ids'', VStrings (sr_EvidenceIDs (sourceResult s)))]"

definition preferredBefore :: "StructuralSource \<Rightarrow> StructuralSource \<Rightarrow> bool" where
  "preferredBefore x y =
     (if e_Priority (ss_Edge x) = e_Priority (ss_Edge y) then a_ID (ss_Attempt x) < a_ID (ss_Attempt y)
      else e_Priority (ss_Edge y) < e_Priority (ss_Edge x))"

definition mergeFields :: "(any \<Rightarrow> string) \<Rightarrow> StructuralSource list \<Rightarrow> string list \<Rightarrow> string \<Rightarrow> fields" where
  "mergeFields enc sources keys policy =
     [(''branches'', VSlice ElemMap (map mergeBranch sources)), (''conflicts'', VMap ElemSlice (mergeConflicts enc sources keys)),
      (''conflict_policy'', VString policy)]"

definition ReduceMerge ::
  "(any \<Rightarrow> string) \<Rightarrow> (string \<Rightarrow> string \<Rightarrow> fields \<Rightarrow> string) \<Rightarrow> StructuralInput \<Rightarrow> go_error + StructuralDecision" where
  "ReduceMerge enc hex inp =
     (let mp = n_MergePolicy (si_Node inp);
          sources = si_Incoming inp;
          evidence = fst (structuralEvidence sources []);
          policy = (let t = TrimSpace (mg_ConflictPolicy mp) in if t = '''' then ''collect'' else t);
          flds = mergeFields enc sources (mg_KeyFields mp) policy
      in if mg_RequireEvidence mp \<and> evidence = [] then
           Inr (failedStructuralDecision hex ''merge'' MergeReasonEvidenceMissing ''merge has no committed branch evidence'' evidence [])
         else if policy = ''collect'' then
           Inr (passedStructuralDecision hex ''merge'' MergeReasonCollected ''merge collected branch results'' evidence flds)
         else if policy = ''prefer_priority'' then
           (case sort_stable preferredBefore sources of
              [] \<Rightarrow> Inr (failedStructuralDecision hex ''merge'' MergeReasonEvidenceMissing ''merge has no completed branches'' evidence flds)
            | s # _ \<Rightarrow>
                Inr (passedStructuralDecision hex ''merge'' MergeReasonPreferredPriority ''merge selected the highest priority branch''
                  evidence
                  (mput ''selected_fields'' (VMap ElemAny (sr_Fields (sourceResult s)))
                    (mput ''selected_attempt_id'' (VString (a_ID (ss_Attempt s))) flds))))
         else if policy = ''fail'' then
           Inr (if mergeConflicts enc sources (mg_KeyFields mp) \<noteq> [] then
                  failedStructuralDecision hex ''merge'' MergeReasonConflict ''merge conflict requires a repair or human route'' evidence flds
                else passedStructuralDecision hex ''merge'' MergeReasonCollected ''merge completed without conflicts'' evidence flds)
         else Inl (Errorf ''unsupported merge conflict policy %q'' [ArgS policy]))"

section \<open>Repairs\<close>

definition RepairReasonPlanned :: string where "RepairReasonPlanned = ''repair_planned''"
definition RepairReasonBudgetExhausted :: string where "RepairReasonBudgetExhausted = ''repair_budget_exhausted''"
definition RepairReasonEvidenceMissing :: string where "RepairReasonEvidenceMissing = ''repair_evidence_missing''"
definition RepairReasonTargetMissing :: string where "RepairReasonTargetMissing = ''repair_target_missing''"
definition RepairReasonVerificationMissing :: string where "RepairReasonVerificationMissing = ''repair_verification_missing''"
definition RepairReasonTargetUnreachable :: string where "RepairReasonTargetUnreachable = ''repair_target_unreachable''"
definition RepairReasonVerificationUnreachable :: string where
  "RepairReasonVerificationUnreachable = ''repair_verification_unreachable''"

definition repairRounds :: "WorkflowNode \<Rightarrow> int" where
  "repairRounds n = (if rep_MaxRounds (n_RepairPolicy n) \<le> 0 then 1 else rep_MaxRounds (n_RepairPolicy n))"

definition PlanRepair :: "(string \<Rightarrow> string \<Rightarrow> fields \<Rightarrow> string) \<Rightarrow> StructuralInput \<Rightarrow> StructuralDecision" where
  "PlanRepair hex inp =
     (let g = pl_GraphSnapshot (si_Plan inp); n = si_Node inp; policy = n_RepairPolicy n;
          evidence = fst (structuralEvidence (si_Incoming inp) []);
          round = a_AttemptNo (si_Attempt inp);
          target = resolveRepairTarget g n;
          verification = rep_VerificationNodeIDs policy
      in if evidence = [] then
           failedStructuralDecision hex ''repair'' RepairReasonEvidenceMissing ''repair requires failed evidence'' evidence []
         else if repairRounds n < round then
           failedStructuralDecision hex ''repair'' RepairReasonBudgetExhausted ''repair round budget exhausted'' evidence
             [(''max_rounds'', VInt (repairRounds n)), (''attempt_no'', VInt round)]
         else if target = '''' then
           failedStructuralDecision hex ''repair'' RepairReasonTargetMissing ''repair target is required'' evidence
             [(''repair_node_id'', VString (n_ID n))]
         else if target = n_ID n \<or> \<not> repairPathExists g (n_ID n) target EdgeSuccess then
           failedStructuralDecision hex ''repair'' RepairReasonTargetUnreachable ''repair target is not reachable on a success path''
             evidence [(''target_node_id'', VString target)]
         else if verification = [] then
           failedStructuralDecision hex ''repair'' RepairReasonVerificationMissing ''repair requires at least one verification node''
             evidence [(''target_node_id'', VString target)]
         else case find (\<lambda>v. blank v \<or> \<not> repairPathExists g target v EdgeSuccess) verification of
           Some v \<Rightarrow>
             failedStructuralDecision hex ''repair'' RepairReasonVerificationUnreachable
               ''repair verification node is not reachable from target'' evidence
               [(''target_node_id'', VString target), (''verification_node_id'', VString v)]
         | None \<Rightarrow>
             passedStructuralDecision hex ''repair'' RepairReasonPlanned ''repair plan created'' evidence
               [(''target_node_id'', VString target), (''scope'', VStrings (rep_Scope policy)),
                (''verification_node_ids'', VStrings verification), (''round'', VInt round),
                (''max_rounds'', VInt (repairRounds n)), (''budget'', VBudget (rep_Budget policy)),
                (''source_attempt_ids'', VStrings (sourceAttemptIDs (si_Incoming inp))), (''repair_state'', VString ''planned'')])"

section \<open>Diagnostics\<close>

record GraphDiagnostics =
  gd_NodeCount :: int
  gd_EdgeCount :: int
  gd_AgentNodeCount :: int
  gd_SquadNodeCount :: int
  gd_StructuralNodeCount :: int
  gd_HumanNodeCount :: int
  gd_JoinNodeIDs :: "string list"
  gd_LoopEdgeIDs :: "string list"
  gd_RetryNodeIDs :: "string list"
  gd_RequiredEvidenceEdges :: int
  gd_MaxConcurrency :: int
  gd_TokenBudget :: int
  gd_ToolCallBudget :: int
  gd_CostBudgetCents :: int
  gd_DurationBudget :: int
  gd_RequiresHuman :: bool

definition zeroDiagnostics :: "int \<Rightarrow> int \<Rightarrow> GraphDiagnostics" where
  "zeroDiagnostics nodes edges = \<lparr>gd_NodeCount = nodes, gd_EdgeCount = edges, gd_AgentNodeCount = 0, gd_SquadNodeCount = 0,
     gd_StructuralNodeCount = 0, gd_HumanNodeCount = 0, gd_JoinNodeIDs = [], gd_LoopEdgeIDs = [], gd_RetryNodeIDs = [],
     gd_RequiredEvidenceEdges = 0, gd_MaxConcurrency = 0, gd_TokenBudget = 0, gd_ToolCallBudget = 0, gd_CostBudgetCents = 0,
     gd_DurationBudget = 0, gd_RequiresHuman = False\<rparr>"

definition countKind :: "NodeKind \<Rightarrow> GraphDiagnostics \<Rightarrow> GraphDiagnostics" where
  "countKind k d =
     (case k of
        NodeAgent \<Rightarrow> d\<lparr>gd_AgentNodeCount := gd_AgentNodeCount d + 1\<rparr>
      | NodeSquad \<Rightarrow> d\<lparr>gd_SquadNodeCount := gd_SquadNodeCount d + 1\<rparr>
      | NodeHuman \<Rightarrow> d\<lparr>gd_HumanNodeCount := gd_HumanNodeCount d + 1, gd_RequiresHuman := True\<rparr>
      | _ \<Rightarrow> d\<lparr>gd_StructuralNodeCount := gd_StructuralNodeCount d + 1\<rparr>)"

definition diagnoseNode :: "WorkflowNode \<Rightarrow> GraphDiagnostics \<Rightarrow> GraphDiagnostics" where
  "diagnoseNode n d0 =
     (let d = countKind (n_Kind n) d0; b = n_Budget n in
      d\<lparr>gd_JoinNodeIDs := gd_JoinNodeIDs d @ (if n_JoinPolicy n \<noteq> JoinUnset then [n_ID n] else []),
        gd_RetryNodeIDs := gd_RetryNodeIDs d @ (if 1 < rp_MaxAttempts (n_RetryPolicy n) then [n_ID n] else []),
        gd_MaxConcurrency := (if gd_MaxConcurrency d < b_Concurrent b then b_Concurrent b else gd_MaxConcurrency d),
        gd_TokenBudget := wrap64 (gd_TokenBudget d + b_Tokens b),
        gd_ToolCallBudget := wrap64 (gd_ToolCallBudget d + b_ToolCalls b),
        gd_CostBudgetCents := wrap64 (gd_CostBudgetCents d + b_CostCents b),
        gd_DurationBudget := wrap64 (gd_DurationBudget d + b_Duration b)\<rparr>)"

definition diagnoseEdge :: "WorkflowEdge \<Rightarrow> GraphDiagnostics \<Rightarrow> GraphDiagnostics" where
  "diagnoseEdge e d =
     d\<lparr>gd_LoopEdgeIDs := gd_LoopEdgeIDs d @ (if e_LoopGroup e \<noteq> '''' \<or> 0 < e_MaxTraversals e then [e_ID e] else []),
       gd_RequiredEvidenceEdges := gd_RequiredEvidenceEdges d + (if e_RequiredEvidence e \<noteq> [] then 1 else 0)\<rparr>"

definition DiagnoseGraph :: "WorkflowGraph \<Rightarrow> GraphDiagnostics" where
  "DiagnoseGraph g =
     fold diagnoseEdge (g_Edges g)
       (fold diagnoseNode (g_Nodes g) (zeroDiagnostics (int (length (g_Nodes g))) (int (length (g_Edges g)))))"

text \<open>
  The counters of the kinds partition the nodes, the budgets are the sums over the nodes modulo 64 bits, and a human
  is required exactly when there is a human node.
\<close>

lemma diagnoseNode_counts:
  "gd_AgentNodeCount (diagnoseNode n d) + gd_SquadNodeCount (diagnoseNode n d) + gd_HumanNodeCount (diagnoseNode n d) +
     gd_StructuralNodeCount (diagnoseNode n d) =
   gd_AgentNodeCount d + gd_SquadNodeCount d + gd_HumanNodeCount d + gd_StructuralNodeCount d + 1"
  "gd_TokenBudget (diagnoseNode n d) = wrap64 (gd_TokenBudget d + b_Tokens (n_Budget n))"
  "gd_RequiresHuman (diagnoseNode n d) \<longleftrightarrow> gd_RequiresHuman d \<or> n_Kind n = NodeHuman"
  "gd_NodeCount (diagnoseNode n d) = gd_NodeCount d"
  by (cases "n_Kind n"; simp add: diagnoseNode_def countKind_def Let_def)+

lemma diagnoseNodes_counts:
  fixes d :: GraphDiagnostics
  defines "d' ns \<equiv> fold diagnoseNode ns d"
  shows "gd_AgentNodeCount (d' ns) + gd_SquadNodeCount (d' ns) + gd_HumanNodeCount (d' ns) + gd_StructuralNodeCount (d' ns) =
      gd_AgentNodeCount d + gd_SquadNodeCount d + gd_HumanNodeCount d + gd_StructuralNodeCount d + int (length ns) \<and>
    wrap64 (gd_TokenBudget (d' ns)) = wrap64 (gd_TokenBudget d + sum_list (map (b_Tokens \<circ> n_Budget) ns)) \<and>
    (gd_RequiresHuman (d' ns) \<longleftrightarrow> gd_RequiresHuman d \<or> (\<exists>n\<in>set ns. n_Kind n = NodeHuman)) \<and> gd_NodeCount (d' ns) = gd_NodeCount d"
  unfolding d'_def
proof (induction ns arbitrary: d)
  case (Cons n ns)
  have w: "wrap64 (wrap64 x + y) = wrap64 (x + y)" for x y by (simp add: wrap64_def mod_simps ac_simps)
  show ?case using Cons [of "diagnoseNode n d"] diagnoseNode_counts(1) [of n d] by (auto simp: diagnoseNode_counts(2-4) w add.assoc)
qed simp

lemma diagnoseEdges_frame:
  "fold diagnoseEdge es d = d\<lparr>gd_LoopEdgeIDs := gd_LoopEdgeIDs (fold diagnoseEdge es d),
     gd_RequiredEvidenceEdges := gd_RequiredEvidenceEdges (fold diagnoseEdge es d)\<rparr>"
proof (induction es arbitrary: d)
  case (Cons e es)
  show ?case using Cons [of "diagnoseEdge e d"] by (cases d) (simp add: diagnoseEdge_def)
qed simp

lemma DiagnoseGraph_counts:
  defines "d g \<equiv> DiagnoseGraph g"
  shows "gd_AgentNodeCount (d g) + gd_SquadNodeCount (d g) + gd_HumanNodeCount (d g) + gd_StructuralNodeCount (d g) = gd_NodeCount (d g)"
    and "wrap64 (gd_TokenBudget (d g)) = wrap64 (sum_list (map (b_Tokens \<circ> n_Budget) (g_Nodes g)))"
    and "gd_RequiresHuman (d g) \<longleftrightarrow> (\<exists>n\<in>set (g_Nodes g). n_Kind n = NodeHuman)"
proof -
  let ?z = "zeroDiagnostics (int (length (g_Nodes g))) (int (length (g_Edges g)))"
  let ?d = "fold diagnoseNode (g_Nodes g) ?z"
  obtain l r where "d g = ?d\<lparr>gd_LoopEdgeIDs := l, gd_RequiredEvidenceEdges := r\<rparr>"
    using diagnoseEdges_frame [of "g_Edges g" ?d] unfolding d_def DiagnoseGraph_def by blast
  then show "gd_AgentNodeCount (d g) + gd_SquadNodeCount (d g) + gd_HumanNodeCount (d g) + gd_StructuralNodeCount (d g) = gd_NodeCount (d g)"
    "wrap64 (gd_TokenBudget (d g)) = wrap64 (sum_list (map (b_Tokens \<circ> n_Budget) (g_Nodes g)))"
    "gd_RequiresHuman (d g) \<longleftrightarrow> (\<exists>n\<in>set (g_Nodes g). n_Kind n = NodeHuman)"
    using diagnoseNodes_counts [of "g_Nodes g" ?z] by (simp_all add: zeroDiagnostics_def)
qed

section \<open>What the reducer asks of a decision\<close>

definition decision_ok :: "StructuralDecision \<Rightarrow> bool" where
  "decision_ok d \<longleftrightarrow> sd_Event d \<in> {''success'', ''failure''} \<and> (sd_Event d = ''success'' \<longleftrightarrow> sd_Failure d = None) \<and>
     sr_ReasonCode (sd_Result d) \<noteq> '''' \<and> sr_EvidenceIDs (sd_Result d) \<noteq> [] \<and>
     (\<forall>ev\<in>set (sr_EvidenceIDs (sd_Result d)). \<not> blank ev) \<and>
     sd_ArtifactIDs d \<noteq> [] \<and> set (sd_ArtifactIDs d) \<subseteq> set (sr_EvidenceIDs (sd_Result d))"

lemma decision_not_blank:
  assumes "kind \<in> {''gate'', ''merge'', ''repair''}"
  shows "\<not> blank (structuralDecisionEvidence hex kind code flds)"
proof -
  have "\<not> blank (CHR ''g'' # s)" "\<not> blank (CHR ''m'' # s)" "\<not> blank (CHR ''r'' # s)" for s
    by (rule plain_not_blank; simp add: ascii_space_def)+
  then show ?thesis using assms by (auto simp: structuralDecisionEvidence_def)
qed

lemma collectEvidence_set: "set (collectEvidence xs evidence) = set evidence \<union> (TrimSpace ` set xs - {''''})"
  by (induction xs evidence rule: collectEvidence.induct) (auto simp: Let_def)

lemma structuralEvidence_set:
  "set (fst (structuralEvidence sources required)) = (\<Union>s\<in>set sources. TrimSpace ` set (sr_EvidenceIDs (sourceResult s))) - {''''}"
  by (auto simp: structuralEvidence_def Let_def collectEvidence_set)

lemma structuralEvidence_not_blank:
  "ev \<in> set (fst (structuralEvidence sources required)) \<Longrightarrow> \<not> blank ev"
  by (auto simp: structuralEvidence_set)

lemma passed_decision_ok:
  assumes "kind \<in> {''gate'', ''merge'', ''repair''}" and "code \<noteq> ''''" and "\<forall>ev\<in>set evidence. \<not> blank ev"
  shows "decision_ok (passedStructuralDecision hex kind code summary evidence flds)"
  using assms decision_not_blank [OF assms(1)]
  by (auto simp: decision_ok_def passedStructuralDecision_def appendUniqueEvidence_def Let_def)

lemma failed_decision_ok:
  assumes "kind \<in> {''gate'', ''merge'', ''repair''}" and "code \<noteq> ''''" and "\<forall>ev\<in>set evidence. \<not> blank ev"
  shows "decision_ok (failedStructuralDecision hex kind code summary evidence flds)"
  using assms decision_not_blank [OF assms(1)]
  by (auto simp: decision_ok_def failedStructuralDecision_def appendUniqueEvidence_def Let_def)

lemmas reason_defs = GateReasonPassed_def GateReasonPredicateFailed_def GateReasonEvidenceMissing_def MergeReasonCollected_def
  MergeReasonPreferredPriority_def MergeReasonConflict_def MergeReasonEvidenceMissing_def RepairReasonPlanned_def
  RepairReasonBudgetExhausted_def RepairReasonEvidenceMissing_def RepairReasonTargetMissing_def
  RepairReasonVerificationMissing_def RepairReasonTargetUnreachable_def RepairReasonVerificationUnreachable_def

text \<open>The contract of the interfaces \<open>GateEvaluator\<close>, \<open>MergeReducer\<close> and \<open>RepairController\<close> that the executor relies on.\<close>

locale structural_controller =
  fixes decide :: "StructuralInput \<Rightarrow> go_error + StructuralDecision"
  assumes complete: "decide inp = Inr d \<Longrightarrow> decision_ok d"
begin

text \<open>A completion that carries the decision has a status and passes the evidence checks of the reducer.\<close>

lemma decision_finishes:
  assumes "decide inp = Inr d" and "in_Event t = sd_Event d" and "in_Result t = sd_Result d"
  shows "evidenceChecks t = None \<and> finishStatus (in_Event t) = Some (if sd_Failure d = None then AttemptPassed else AttemptFailed)"
  using complete [OF assms(1)] assms(2,3)
  by (auto simp: decision_ok_def evidenceChecks_def finishStatus_def check_simps)

end

interpretation gate: structural_controller "EvaluateGate hex" for hex
proof
  fix inp d assume d: "EvaluateGate hex inp = Inr d"
  have nb: "\<forall>ev\<in>set (fst (structuralEvidence (si_Incoming inp) r)). \<not> blank ev" for r
    using structuralEvidence_not_blank by blast
  show "decision_ok d"
    using d nb [of "gp_RequiredEvidence (n_GatePolicy (si_Node inp))"] unfolding EvaluateGate_def
    by (auto simp: Let_def reason_defs split: sum.splits prod.splits if_splits
        intro!: passed_decision_ok failed_decision_ok)
qed

interpretation merge: structural_controller "ReduceMerge enc hex" for enc hex
proof
  fix inp d assume d: "ReduceMerge enc hex inp = Inr d"
  have nb: "\<forall>ev\<in>set (fst (structuralEvidence (si_Incoming inp) [])). \<not> blank ev"
    using structuralEvidence_not_blank by blast
  show "decision_ok d"
    using d nb unfolding ReduceMerge_def Let_def
    by (auto simp: reason_defs split: if_splits list.splits intro!: passed_decision_ok failed_decision_ok)
qed

interpretation repair: structural_controller "\<lambda>inp. Inr (PlanRepair hex inp)" for hex
proof
  fix inp d assume d: "Inr (PlanRepair hex inp) = (Inr d :: go_error + StructuralDecision)"
  have nb: "\<forall>ev\<in>set (fst (structuralEvidence (si_Incoming inp) [])). \<not> blank ev"
    using structuralEvidence_not_blank by blast
  show "decision_ok d"
    using d nb unfolding PlanRepair_def Let_def
    by (auto simp: reason_defs split: if_splits option.splits intro!: passed_decision_ok failed_decision_ok)
qed

section \<open>The meaning of the decisions\<close>

lemma passed_sel [simp]:
  "sd_Event (passedStructuralDecision hex kind code summary evidence flds) = ''success''"
  "sr_ReasonCode (sd_Result (passedStructuralDecision hex kind code summary evidence flds)) = code"
  "sr_Fields (sd_Result (passedStructuralDecision hex kind code summary evidence flds)) = flds"
  by (simp_all add: passedStructuralDecision_def Let_def)

lemma failed_sel [simp]:
  "sd_Event (failedStructuralDecision hex kind code summary evidence flds) = ''failure''"
  "sr_ReasonCode (sd_Result (failedStructuralDecision hex kind code summary evidence flds)) = code"
  "sr_Fields (sd_Result (failedStructuralDecision hex kind code summary evidence flds)) = flds"
  by (simp_all add: failedStructuralDecision_def Let_def)

text \<open>A structural node of an accepted plan.\<close>

definition accepted_input :: "StructuralInput \<Rightarrow> bool" where
  "accepted_input inp \<longleftrightarrow> ValidateGraph (pl_GraphSnapshot (si_Plan inp)) = None \<and> si_Node inp \<in> set (g_Nodes (pl_GraphSnapshot (si_Plan inp)))"

lemma accepted_input_ok:
  assumes "accepted_input inp"
  shows "graph_ok (pl_GraphSnapshot (si_Plan inp))" "node_ok (si_Node inp)" "join_ok (pl_GraphSnapshot (si_Plan inp)) (si_Node inp)"
  using assms by (auto simp: accepted_input_def ValidateGraph_iff graph_ok_def)

definition committed :: "StructuralSource list \<Rightarrow> string set" where
  "committed sources = (\<Union>s\<in>set sources. TrimSpace ` set (sr_EvidenceIDs (sourceResult s))) - {''''}"

lemma structuralEvidence_committed:
  "set (fst (structuralEvidence sources required)) = committed sources"
  "snd (structuralEvidence sources required) = [] \<longleftrightarrow> set required \<subseteq> committed sources"
proof -
  show c: "set (fst (structuralEvidence sources required)) = committed sources" by (simp only: structuralEvidence_set committed_def)
  have "snd (structuralEvidence sources required) = [] \<longleftrightarrow> set required \<subseteq> set (fst (structuralEvidence sources required))"
    by (auto simp: structuralEvidence_def Let_def filter_empty_conv)
  then show "snd (structuralEvidence sources required) = [] \<longleftrightarrow> set required \<subseteq> committed sources" by (simp only: c)
qed

lemma gate_predicate:
  assumes "gate_ok n"
  shows "EvaluatePredicate (gp_Predicate (n_GatePolicy n)) f =
    Inr (blank (pr_Kind (gp_Predicate (n_GatePolicy n))) \<or> pred_holds (gp_Predicate (n_GatePolicy n)) f)"
proof -
  have "ValidatePredicate (gp_Predicate (n_GatePolicy n)) 0 [] = None" using assms by (simp add: gate_ok_def Let_def)
  then have "ValidatePredicate (gp_Predicate (n_GatePolicy n)) 0 ''predicate'' = None" using ValidatePredicate_path(1) by blast
  then show ?thesis by (simp add: EvaluatePredicate_Inr)
qed

lemma structuralEvidence_missing: "snd (structuralEvidence sources required) = filter (\<lambda>r. r \<notin> committed sources) required"
  unfolding structuralEvidence_committed(1) [of sources required, symmetric] by (simp add: structuralEvidence_def Let_def)

lemma decision_sel [simp]:
  "sd_Event (passedStructuralDecision hex kind code summary ev flds) = ''success''"
  "sr_ReasonCode (sd_Result (passedStructuralDecision hex kind code summary ev flds)) = code"
  "sr_Summary (sd_Result (passedStructuralDecision hex kind code summary ev flds)) = summary"
  "sr_Fields (sd_Result (passedStructuralDecision hex kind code summary ev flds)) = flds"
  "sd_Event (failedStructuralDecision hex kind code summary ev flds) = ''failure''"
  "sr_ReasonCode (sd_Result (failedStructuralDecision hex kind code summary ev flds)) = code"
  "sr_Summary (sd_Result (failedStructuralDecision hex kind code summary ev flds)) = summary"
  "sr_Fields (sd_Result (failedStructuralDecision hex kind code summary ev flds)) = flds"
  "sd_Failure (failedStructuralDecision hex kind code summary ev flds) = Some \<lparr>f_Code = code, f_Message = summary, f_Retryable = False\<rparr>"
  by (simp_all add: passedStructuralDecision_def failedStructuralDecision_def Let_def)

lemma decision_evidence:
  "set ev \<subseteq> set (sr_EvidenceIDs (sd_Result (passedStructuralDecision hex kind code summary ev flds)))"
  "set ev \<subseteq> set (sr_EvidenceIDs (sd_Result (failedStructuralDecision hex kind code summary ev flds)))"
  by (auto simp: passedStructuralDecision_def failedStructuralDecision_def Let_def appendUniqueEvidence_def)

text \<open>
  C12: Gates. For a gate of an accepted plan the evaluator always decides; it passes exactly when the predicate of the
  gate holds of the fields of the sources (the blank predicate always does) and every required piece of evidence was
  committed by one of them. Otherwise it fails. The reason code, the summary and the failure say why: missing evidence,
  with the list of what is missing, or a predicate that does not hold, under the failure code of the policy if it has
  one. The decision carries all evidence of the sources and, unless evidence is missing, their fields.
\<close>

theorem EvaluateGate_meaning:
  assumes "accepted_input inp"
  defines "policy \<equiv> n_GatePolicy (si_Node inp)"
  defines "holds \<equiv> blank (pr_Kind (gp_Predicate policy)) \<or> pred_holds (gp_Predicate policy) (aggregateStructuralFields (si_Incoming inp))"
    and "evident \<equiv> \<forall>r\<in>set (gp_RequiredEvidence policy). r \<noteq> '''' \<and> (\<exists>s\<in>set (si_Incoming inp). r \<in> TrimSpace ` set (sr_EvidenceIDs (a_Result (ss_Attempt s))))"
  shows "\<exists>d. EvaluateGate hex inp = Inr d \<and> decision_ok d \<and> (sd_Event d = ''success'' \<longleftrightarrow> evident \<and> holds) \<and>
    (sr_ReasonCode (sd_Result d), sr_Summary (sd_Result d)) =
      (if \<not> evident then (''gate_evidence_missing'', ''gate is missing required evidence'')
       else if \<not> holds then (if blank (gp_FailureCode policy) then ''gate_predicate_failed'' else TrimSpace (gp_FailureCode policy), ''gate predicate did not match'')
       else (''gate_predicate_passed'', ''gate predicate matched'')) \<and>
    (sd_Event d \<noteq> ''success'' \<longrightarrow>
      sd_Failure d = Some \<lparr>f_Code = sr_ReasonCode (sd_Result d), f_Message = sr_Summary (sd_Result d), f_Retryable = False\<rparr>) \<and>
    sr_Fields (sd_Result d) =
      (if evident then aggregateStructuralFields (si_Incoming inp)
       else [(''missing_evidence'', VStrings (filter (\<lambda>r. r \<notin> committed (si_Incoming inp)) (gp_RequiredEvidence policy)))]) \<and>
    committed (si_Incoming inp) \<subseteq> set (sr_EvidenceIDs (sd_Result d))"
proof -
  let ?ss = "si_Incoming inp" and ?req = "gp_RequiredEvidence policy"
  let ?missing = "filter (\<lambda>r. r \<notin> committed ?ss) ?req"
  have e: "?missing \<noteq> [] \<longleftrightarrow> \<not> evident" unfolding evident_def committed_def by (auto simp: filter_empty_conv)
  obtain ev where split: "structuralEvidence ?ss ?req = (ev, ?missing)"
    using structuralEvidence_missing [of ?ss ?req] by (metis prod.collapse)
  then have c: "set ev = committed ?ss" using structuralEvidence_committed(1) [of ?ss ?req] by simp
  have "gate_ok (si_Node inp)" using accepted_input_ok [OF assms(1)] by (simp add: node_ok_def)
  note p = gate_predicate [OF this, of "aggregateStructuralFields ?ss", folded policy_def, folded holds_def]
  have run: "EvaluateGate hex inp = Inr
      (if \<not> evident then failedStructuralDecision hex ''gate'' GateReasonEvidenceMissing ''gate is missing required evidence'' ev
         [(''missing_evidence'', VStrings ?missing)]
       else if \<not> holds then failedStructuralDecision hex ''gate''
         (if blank (gp_FailureCode policy) then GateReasonPredicateFailed else TrimSpace (gp_FailureCode policy))
         ''gate predicate did not match'' ev (aggregateStructuralFields ?ss)
       else passedStructuralDecision hex ''gate'' GateReasonPassed ''gate predicate matched'' ev (aggregateStructuralFields ?ss))"
    unfolding EvaluateGate_def Let_def policy_def [symmetric] p split e sum.case prod.case by simp
  note facts = gate.complete [OF run] decision_evidence [of ev hex "''gate''", unfolded c]
  note reasons = GateReasonEvidenceMissing_def GateReasonPredicateFailed_def GateReasonPassed_def
  consider (missing) "\<not> evident" | (refused) "evident" "\<not> holds" | (passed) "evident" "holds" by blast
  then show ?thesis
  proof cases
    case missing
    with facts show ?thesis unfolding run reasons by simp
  next
    case refused
    with facts show ?thesis unfolding run reasons by simp
  next
    case passed
    with facts show ?thesis unfolding run reasons by simp
  qed
qed

lemma differentValues_enc:
  "enc ` set (differentValues enc key ss seen) = {enc v |v s. s \<in> set ss \<and> mget (sr_Fields (sourceResult s)) key = Some v} - set seen \<and>
   distinct (map enc (differentValues enc key ss seen))"
proof (induction enc key ss seen rule: differentValues.induct)
  case (2 enc key s ss seen)
  show ?case
  proof (cases "mget (sr_Fields (sourceResult s)) key")
    case (Some v)
    then show ?thesis using 2(2) [OF Some] 2(3) [OF Some] by (cases "enc v \<in> set seen") auto
  qed (use 2(1) in auto)
qed simp

text \<open>Two sources give a key values that are encoded differently.\<close>

definition disagree :: "(any \<Rightarrow> string) \<Rightarrow> StructuralSource list \<Rightarrow> string \<Rightarrow> bool" where
  "disagree enc sources key \<longleftrightarrow> (\<exists>s\<in>set sources. \<exists>t\<in>set sources. \<exists>v w.
     mget (sr_Fields (sourceResult s)) key = Some v \<and> mget (sr_Fields (sourceResult t)) key = Some w \<and> enc v \<noteq> enc w)"

lemma differentValues_disagree: "1 < length (differentValues enc key sources []) \<longleftrightarrow> disagree enc sources key"
proof -
  let ?vs = "map enc (differentValues enc key sources [])"
  have s: "set ?vs = {enc v |v s. s \<in> set sources \<and> mget (sr_Fields (sourceResult s)) key = Some v}" and d: "distinct ?vs"
    using differentValues_enc [of enc key sources "[]"] by simp_all
  have "1 < length ?vs \<longleftrightarrow> (\<exists>x\<in>set ?vs. \<exists>y\<in>set ?vs. x \<noteq> y)"
    using d by (cases ?vs rule: remdups_adj.cases) auto
  then show ?thesis unfolding s disagree_def by (auto 4 4)
qed

lemma conflicts_fold:
  "fold (\<lambda>key conflicts. let values = f key in if 1 < length values then mput key (VSlice ElemAny values) conflicts else conflicts) keys m = []
   \<longleftrightarrow> m = [] \<and> (\<forall>key\<in>set keys. \<not> 1 < length (f key))"
proof (induction keys arbitrary: m)
  case (Cons key keys)
  have "mput k v m' \<noteq> []" for k and v :: any and m' by (cases m') auto
  then show ?case by (simp add: Cons [unfolded Let_def One_nat_def] Let_def)
qed simp

definition conflicting :: "(any \<Rightarrow> string) \<Rightarrow> StructuralSource list \<Rightarrow> string list \<Rightarrow> bool" where
  "conflicting enc sources keys \<longleftrightarrow> (\<exists>key. (keys = [] \<or> key \<in> set keys) \<and> disagree enc sources key)"

lemma disagree_key: "disagree enc sources key \<Longrightarrow> key \<in> set (concat (map (\<lambda>s. mkeys (sr_Fields (sourceResult s))) sources))"
proof -
  assume "disagree enc sources key"
  then obtain s where s: "s \<in> set sources" and "mget (sr_Fields (sourceResult s)) key \<noteq> None"
    unfolding disagree_def by blast
  then have "key \<in> set (mkeys (sr_Fields (sourceResult s)))" unfolding mkeys_mget by simp
  with s show ?thesis by auto
qed

lemma mergeConflicts_empty: "mergeConflicts enc sources keys = [] \<longleftrightarrow> \<not> conflicting enc sources keys"
proof -
  have "key \<in> set (concat (map (\<lambda>s. mkeys (sr_Fields (sourceResult s))) sources))" if "disagree enc sources key" for key
    using that by (rule disagree_key)
  then show ?thesis
    unfolding mergeConflicts_def conflicts_fold differentValues_disagree conflicting_def conflictKeys_def by auto
qed

lemma conflicts_keys:
  "mget (fold (\<lambda>key conflicts. let values = f key in if 1 < length values then mput key (g values) conflicts else conflicts) ks acc) key \<noteq> None \<longleftrightarrow>
     mget acc key \<noteq> None \<or> key \<in> set ks \<and> 1 < length (f key)"
  by (induction ks arbitrary: acc) (auto simp: Let_def)

lemma mergeConflicts_keys:
  "mget (mergeConflicts enc sources keys) key \<noteq> None \<longleftrightarrow> (keys = [] \<or> key \<in> set keys) \<and> disagree enc sources key"
  using disagree_key [of enc sources key]
  unfolding mergeConflicts_def conflicts_keys differentValues_disagree conflictKeys_def by auto

definition preferred :: "StructuralSource list \<Rightarrow> StructuralSource \<Rightarrow> bool" where
  "preferred sources s \<longleftrightarrow> (\<forall>t\<in>set sources. e_Priority (ss_Edge t) \<le> e_Priority (ss_Edge s) \<and>
    (e_Priority (ss_Edge t) = e_Priority (ss_Edge s) \<longrightarrow> a_ID (ss_Attempt s) \<le> a_ID (ss_Attempt t)))"

lemma preferred_first:
  assumes "sort_stable preferredBefore sources = s # rest"
  shows "s \<in> set sources \<and> preferred sources s"
proof -
  let ?le = "\<lambda>x y. e_Priority (ss_Edge y) < e_Priority (ss_Edge x) \<or>
    e_Priority (ss_Edge y) = e_Priority (ss_Edge x) \<and> a_ID (ss_Attempt x) \<le> a_ID (ss_Attempt y)"
  have "sorted_wrt ?le (sort_stable preferredBefore sources)"
    by (rule sorted_sort_stable) (auto simp: preferredBefore_def split: if_splits)
  moreover have "set sources = insert s (set rest)" using set_sort_stable [of preferredBefore sources] assms by simp
  ultimately show ?thesis using assms by (auto simp: preferred_def)
qed

lemma merge_policies:
  "TrimSpace ''collect'' = ''collect''" "TrimSpace ''prefer_priority'' = ''prefer_priority''" "TrimSpace ''fail'' = ''fail''"
  by (rule TrimSpace_plain; simp add: ascii_space_def)+

text \<open>What a merge reports of a branch: its edge and attempt, and the whole result of the attempt.\<close>

definition branchOf :: "any \<Rightarrow> StructuralSource \<Rightarrow> bool" where
  "branchOf v s \<longleftrightarrow> (\<exists>m. v = VMap ElemAny m \<and> fget m ''edge_id'' = VString (e_ID (ss_Edge s)) \<and>
     fget m ''node_id'' = VString (a_NodeID (ss_Attempt s)) \<and> fget m ''attempt_id'' = VString (a_ID (ss_Attempt s)) \<and>
     fget m ''priority'' = VInt (e_Priority (ss_Edge s)) \<and> fget m ''outcome'' = VString (sr_Outcome (sourceResult s)) \<and>
     fget m ''reason_code'' = VString (sr_ReasonCode (sourceResult s)) \<and> fget m ''fields'' = VMap ElemAny (sr_Fields (sourceResult s)) \<and>
     fget m ''evidence_ids'' = VStrings (sr_EvidenceIDs (sourceResult s)))"

lemma branchOf_mergeBranch: "branchOf (mergeBranch s) s"
  by (simp add: branchOf_def mergeBranch_def fget_def mget0_def)

text \<open>The fields of a merge that has not failed for lack of evidence report every branch, in order, and every disagreement.\<close>

definition mergeReported :: "(any \<Rightarrow> string) \<Rightarrow> StructuralSource list \<Rightarrow> string list \<Rightarrow> fields \<Rightarrow> bool" where
  "mergeReported enc sources keys f \<longleftrightarrow>
     (\<exists>bs. fget f ''branches'' = VSlice ElemMap bs \<and> list_all2 branchOf bs sources) \<and>
     (\<exists>m. fget f ''conflicts'' = VMap ElemSlice m \<and> (\<forall>key. mget m key \<noteq> None \<longleftrightarrow> (keys = [] \<or> key \<in> set keys) \<and> disagree enc sources key))"

lemma mergeReported_fields: "mergeReported enc sources keys (mergeFields enc sources keys policy)"
proof -
  have "list_all2 branchOf (map mergeBranch sources) sources"
    by (simp add: list_all2_conv_all_nth branchOf_mergeBranch)
  moreover have "fget (mergeFields enc sources keys policy) ''branches'' = VSlice ElemMap (map mergeBranch sources)"
    "fget (mergeFields enc sources keys policy) ''conflicts'' = VMap ElemSlice (mergeConflicts enc sources keys)"
    by (simp_all add: mergeFields_def fget_def mget0_def)
  ultimately show ?thesis unfolding mergeReported_def using mergeConflicts_keys by blast
qed

lemma mergeReported_put:
  "k \<noteq> ''branches'' \<Longrightarrow> k \<noteq> ''conflicts'' \<Longrightarrow> mergeReported enc sources keys (mput k x f) \<longleftrightarrow> mergeReported enc sources keys f"
  by (simp add: mergeReported_def fget_def mget0_def)

text \<open>
  C29: Merges. For a merge node of an accepted plan the reducer always decides. It fails exactly when evidence is required
  and no branch committed any, when the policy is to fail and two branches give a key field values with different
  encodings (any field, when no key fields are named), or when a branch is to be preferred and there is none. In every case
  but the first, the fields of the decision hold every branch, in order, with its edge, its attempt and the attempt's result,
  and the keys on which branches disagree; the decision always carries the evidence of all branches. The preferred branch is
  one of highest priority, the first by attempt ID among those, and its fields are selected.
\<close>

theorem ReduceMerge_meaning:
  assumes "accepted_input inp"
  defines "sources \<equiv> si_Incoming inp" and "policy \<equiv> n_MergePolicy (si_Node inp)"
  shows "\<exists>d. ReduceMerge enc hex inp = Inr d \<and> decision_ok d \<and> committed sources \<subseteq> set (sr_EvidenceIDs (sd_Result d)) \<and>
    (sd_Event d = ''failure'' \<longleftrightarrow> mg_RequireEvidence policy \<and> committed sources = {} \<or>
       mg_ConflictPolicy policy = ''fail'' \<and> conflicting enc sources (mg_KeyFields policy) \<or>
       mg_ConflictPolicy policy = ''prefer_priority'' \<and> sources = []) \<and>
    (\<not> (mg_RequireEvidence policy \<and> committed sources = {}) \<longrightarrow> mergeReported enc sources (mg_KeyFields policy) (sr_Fields (sd_Result d))) \<and>
    (sd_Event d = ''success'' \<and> mg_ConflictPolicy policy = ''prefer_priority'' \<longrightarrow>
       (\<exists>s\<in>set sources. fget (sr_Fields (sd_Result d)) ''selected_attempt_id'' = VString (a_ID (ss_Attempt s)) \<and>
          fget (sr_Fields (sd_Result d)) ''selected_fields'' = VMap ElemAny (sr_Fields (a_Result (ss_Attempt s))) \<and>
          (\<forall>t\<in>set sources. e_Priority (ss_Edge t) \<le> e_Priority (ss_Edge s) \<and>
            (e_Priority (ss_Edge t) = e_Priority (ss_Edge s) \<longrightarrow> a_ID (ss_Attempt s) \<le> a_ID (ss_Attempt t)))))"
proof -
  have e: "fst (structuralEvidence sources []) = [] \<longleftrightarrow> committed sources = {}"
    using structuralEvidence_committed(1) [of sources "[]"] by (metis set_empty)
  note unfold = ReduceMerge_def [of enc hex inp, folded sources_def policy_def, unfolded Let_def e mergeConflicts_empty]
  have cases: "mg_ConflictPolicy policy \<in> {'''', ''collect'', ''fail'', ''prefer_priority''}"
    using accepted_input_ok(2) [OF assms(1)] by (auto simp: node_ok_def merge_ok_def Let_def policy_def)
  have empty: "sources = [] \<longleftrightarrow> sort_stable preferredBefore sources = []"
    using length_sort_stable [of preferredBefore sources] by (metis length_0_conv)
  have "\<exists>d. ReduceMerge enc hex inp = Inr d"
    using cases by (cases "sort_stable preferredBefore sources") (auto simp: unfold merge_policies)
  then obtain d where d: "ReduceMerge enc hex inp = Inr d" by blast
  have "sd_Event d = ''failure'' \<longleftrightarrow> mg_RequireEvidence policy \<and> committed sources = {} \<or>
       mg_ConflictPolicy policy = ''fail'' \<and> conflicting enc sources (mg_KeyFields policy) \<or>
       mg_ConflictPolicy policy = ''prefer_priority'' \<and> sources = []"
    using cases d unfolding empty
    by (cases "sort_stable preferredBefore sources") (auto simp: unfold merge_policies split: if_splits)
  moreover have "set (fst (structuralEvidence sources [])) \<subseteq> set (sr_EvidenceIDs (sd_Result d))"
    using cases d
    by (cases "sort_stable preferredBefore sources")
      (auto simp: unfold merge_policies decision_evidence [THEN subsetD] split: if_splits simp del: structuralEvidence_committed)
  moreover have "mergeReported enc sources (mg_KeyFields policy) (sr_Fields (sd_Result d))"
    if "\<not> (mg_RequireEvidence policy \<and> committed sources = {})"
    using that cases d
    by (cases "sort_stable preferredBefore sources")
      (auto simp: unfold merge_policies mergeReported_fields mergeReported_put split: if_splits)
  moreover have "\<exists>s\<in>set sources. fget (sr_Fields (sd_Result d)) ''selected_attempt_id'' = VString (a_ID (ss_Attempt s)) \<and>
      fget (sr_Fields (sd_Result d)) ''selected_fields'' = VMap ElemAny (sr_Fields (a_Result (ss_Attempt s))) \<and> preferred sources s"
    if "sd_Event d = ''success''" and "mg_ConflictPolicy policy = ''prefer_priority''"
    using that d preferred_first by (auto simp: unfold merge_policies fget_def mget0_def split: list.splits if_splits)
  moreover have "decision_ok d" by (rule merge.complete [OF d])
  ultimately show ?thesis using d unfolding structuralEvidence_committed(1) by (auto simp: preferred_def)
qed

lemma success_target_known:
  assumes "graph_ok g" and "(x, y) \<in> (successStep g)\<^sup>*" and "x \<noteq> y"
  shows "y \<in> nodeIDs g"
proof -
  from assms(2,3) obtain z where "(z, y) \<in> successStep g" by (metis rtranclE)
  then show ?thesis using assms(1) by (auto simp: successStep_def graph_ok_def edge_ok_def)
qed

lemma repair_target_other:
  assumes "join_ok g n" and "node_ok n" and "n_Kind n = NodeRepair" and "\<forall>x\<in>nodeIDs g. TrimSpace x = x"
  shows "resolveRepairTarget g n \<noteq> n_ID n"
proof (cases "blank (rep_TargetNodeID (n_RepairPolicy n))")
  case True
  let ?ts = "remdups (map e_To (filter (\<lambda>e. e_From e = n_ID n \<and> e_To e \<noteq> n_ID n \<and> e_On e = EdgeSuccess) (g_Edges g)))"
  have r: "resolveRepairTarget g n = (case ?ts of [t] \<Rightarrow> t | _ \<Rightarrow> '''')" using True by (simp add: resolveRepairTarget_def)
  have "resolveRepairTarget g n \<noteq> ''''" using assms(1,3) by (simp add: join_ok_def Let_def)
  then obtain t where ts: "?ts = [t]" and t: "resolveRepairTarget g n = t" unfolding r by (auto split: list.splits)
  have "t \<in> set ?ts" by (simp only: ts list.set insertI1)
  then show ?thesis unfolding t by auto
next
  case False
  then have "rep_TargetNodeID (n_RepairPolicy n) \<in> nodeIDs g" using assms(1) by (auto simp: join_ok_def Let_def)
  then have "resolveRepairTarget g n = rep_TargetNodeID (n_RepairPolicy n)" using False assms(4) by (simp add: resolveRepairTarget_def)
  then show ?thesis using assms(2,3) by (simp add: node_ok_def repair_ok_def Let_def)
qed

text \<open>What a repair plan has to hold for a repair node and the sources of its attempt.\<close>

definition plans_repair :: "StructuralInput \<Rightarrow> RepairPlan \<Rightarrow> bool" where
  "plans_repair inp r \<longleftrightarrow> (let policy = n_RepairPolicy (si_Node inp) in
     rpl_RepairNodeID r = n_ID (si_Node inp) \<and> rpl_TargetNodeID r = resolveRepairTarget (pl_GraphSnapshot (si_Plan inp)) (si_Node inp) \<and>
     rpl_VerificationNodeIDs r = rep_VerificationNodeIDs policy \<and> rpl_Scope r = rep_Scope policy \<and>
     rpl_MaxRounds r = rep_MaxRounds policy \<and> rpl_SourceAttemptIDs r = map (\<lambda>s. a_ID (ss_Attempt s)) (si_Incoming inp) \<and>
     rpl_State r = RepairPlanned)"

text \<open>
  C16: Repairs. For a repair node of an accepted plan whose node IDs have no blanks around them, an attempt within the
  rounds of the policy and with evidence of its sources always gets a repair decision, and the reducer accepts it:
  \<open>createRepairPlan\<close> makes the repair plan with the target, the verification nodes, the scope, the rounds and the
  sources of the decision. Beyond the rounds, or without evidence, the decision is a failure.
\<close>

theorem PlanRepair_accepted:
  assumes "accepted_input inp" and "n_Kind (si_Node inp) = NodeRepair"
    and "\<forall>n\<in>set (g_Nodes (pl_GraphSnapshot (si_Plan inp))). TrimSpace (n_ID n) = n_ID n \<and> mget (p_Nodes p) (n_ID n) \<noteq> None"
    and "a_NodeID a = n_ID (si_Node inp)" and "a_Result a = sd_Result (PlanRepair hex inp)"
  shows "if committed (si_Incoming inp) \<noteq> {} \<and> a_AttemptNo (si_Attempt inp) \<le> rep_MaxRounds (n_RepairPolicy (si_Node inp))
    then sd_Event (PlanRepair hex inp) = ''success'' \<and> (\<exists>r. createRepairPlan p (si_Plan inp) a = Inr r \<and> plans_repair inp r)
    else sd_Event (PlanRepair hex inp) = ''failure''"
proof -
  let ?g = "pl_GraphSnapshot (si_Plan inp)" and ?n = "si_Node inp"
  let ?target = "resolveRepairTarget ?g ?n" and ?policy = "n_RepairPolicy (si_Node inp)"
  note ok = accepted_input_ok [OF assms(1)]
  have e: "fst (structuralEvidence (si_Incoming inp) []) = [] \<longleftrightarrow> committed (si_Incoming inp) = {}"
    using structuralEvidence_committed(1) [of "si_Incoming inp" "[]"] by (metis set_empty)
  have rounds: "repairRounds ?n = rep_MaxRounds ?policy" and one: "1 \<le> rep_MaxRounds ?policy"
    and v: "rep_VerificationNodeIDs ?policy \<noteq> []"
    using ok(2) assms(2) by (auto simp: repairRounds_def node_ok_def repair_ok_def Let_def)
  have t: "?target \<noteq> ''''" "?target \<noteq> n_ID ?n" "(n_ID ?n, ?target) \<in> (successStep ?g)\<^sup>*"
    "\<forall>v\<in>set (rep_VerificationNodeIDs ?policy). (?target, v) \<in> (successStep ?g)\<^sup>*"
    "set (rep_VerificationNodeIDs ?policy) \<subseteq> nodeIDs ?g"
    using ok(3) assms(2) repair_target_other [OF ok(3,2) assms(2)] assms(3) by (auto simp: join_ok_def Let_def nodeIDs_def)
  have known: "?target \<in> nodeIDs ?g" using success_target_known [OF ok(1) t(3)] t(2) by metis
  have vb: "find (\<lambda>v. blank v \<or> \<not> repairPathExists ?g ?target v EdgeSuccess) (rep_VerificationNodeIDs ?policy) = None"
    using t(4,5) ok(1) by (auto simp: find_None_iff success_path.finds_iff graph_ok_def node_ok_def nodeIDs_def)
  have trimmed: "TrimSpace ?target = ?target" and nodes: "\<forall>x\<in>nodeIDs ?g. mget (p_Nodes p) x \<noteq> None"
    using known assms(3) by (auto simp: nodeIDs_def)
  show ?thesis
  proof (cases "committed (si_Incoming inp) \<noteq> {} \<and> a_AttemptNo (si_Attempt inp) \<le> rep_MaxRounds ?policy")
    case True
    then have d: "PlanRepair hex inp = passedStructuralDecision hex ''repair'' RepairReasonPlanned ''repair plan created''
        (fst (structuralEvidence (si_Incoming inp) []))
        [(''target_node_id'', VString ?target), (''scope'', VStrings (rep_Scope ?policy)),
         (''verification_node_ids'', VStrings (rep_VerificationNodeIDs ?policy)), (''round'', VInt (a_AttemptNo (si_Attempt inp))),
         (''max_rounds'', VInt (rep_MaxRounds ?policy)), (''budget'', VBudget (rep_Budget ?policy)),
         (''source_attempt_ids'', VStrings (sourceAttemptIDs (si_Incoming inp))), (''repair_state'', VString ''planned'')]"
      using e t v vb by (simp add: PlanRepair_def Let_def rounds success_path.finds_iff)
    then have "\<exists>r. createRepairPlan p (si_Plan inp) a = Inr r \<and> plans_repair inp r"
      using t v known trimmed nodes assms(4) one
      by (auto simp: createRepairPlan_def repairVerificationNodes_def fget_def mget0_def assms(5) case_err_Inr check_simps
          success_path.finds_iff plans_repair_def Let_def sourceAttemptIDs_def)
    then show ?thesis using True d by simp
  next
    case False
    then have "fst (structuralEvidence (si_Incoming inp) []) = [] \<or> repairRounds ?n < a_AttemptNo (si_Attempt inp)"
      using e by (auto simp: rounds)
    then have "sd_Event (PlanRepair hex inp) = ''failure''" by (auto simp: PlanRepair_def Let_def)
    with False show ?thesis by simp
  qed
qed

section \<open>Examples\<close>

text \<open>Two agents are merged, a gate asks for the evidence of one of them; both report the same number of tokens.\<close>

definition exJoined :: WorkflowGraph where
  "exJoined = exGraph\<lparr>g_EntryNodeIDs := [''a'', ''b''], g_ExitNodeIDs := [''g''],
     g_Nodes := [exNode ''a'' NodeAgent, exNode ''b'' NodeAgent,
       (exNode ''m'' NodeMerge)\<lparr>n_MergePolicy := \<lparr>mg_ConflictPolicy = ''fail'', mg_KeyFields = [], mg_RequireEvidence = True\<rparr>\<rparr>,
       (exNode ''g'' NodeGate)\<lparr>n_GatePolicy := \<lparr>gp_Predicate = Predicate ''number_cmp'' ''tokens'' ''lt'' (VInt 9) [],
          gp_RequiredEvidence = [''ev''], gp_FailureCode = ''''\<rparr>\<rparr>],
     g_Edges := [exEdge ''e1'' ''a'' ''m'' EdgeSuccess 0, exEdge ''e2'' ''b'' ''m'' EdgeSuccess 0, exEdge ''e3'' ''m'' ''g'' EdgeSuccess 0]\<rparr>"

definition exSource :: "string \<Rightarrow> string \<Rightarrow> string \<Rightarrow> StructuralSource" where
  "exSource edge node attempt = \<lparr>ss_Edge = exEdge edge node ''m'' EdgeSuccess 0,
     ss_Attempt = (exAttempt attempt node AttemptPassed)\<lparr>a_Result := exResult ''pass''\<rparr>\<rparr>"

definition exStructural :: "WorkflowGraph \<Rightarrow> nat \<Rightarrow> StructuralSource list \<Rightarrow> StructuralInput" where
  "exStructural g i sources = \<lparr>si_Plan = exPlan\<lparr>pl_GraphSnapshot := g\<rparr>, si_Projection = exRunning, si_Node = g_Nodes g ! i,
     si_Attempt = exAttempt ''x'' ''x'' AttemptRunning, si_Envelope = exEnvelope, si_Incoming = sources\<rparr>"

lemma exStructural_accepted: "accepted_input (exStructural exJoined 2 ss)" "accepted_input (exStructural exJoined 3 ss)"
  "accepted_input (exStructural exGraph 2 ss)"
proof -
  have "ValidateGraph exJoined = None" "ValidateGraph exGraph = None" by code_simp+
  moreover have "g_Nodes exJoined ! 2 \<in> set (g_Nodes exJoined)" "g_Nodes exJoined ! 3 \<in> set (g_Nodes exJoined)"
    "g_Nodes exGraph ! 2 \<in> set (g_Nodes exGraph)"
    by (simp_all add: exJoined_def exGraph_def numeral_2_eq_2 numeral_3_eq_3)
  ultimately show "accepted_input (exStructural exJoined 2 ss)" "accepted_input (exStructural exJoined 3 ss)"
    "accepted_input (exStructural exGraph 2 ss)"
    by (simp_all add: accepted_input_def exStructural_def)
qed

theorem EvaluateGate_meaning_witness:
  "\<exists>d. EvaluateGate (\<lambda>k c f. ''00'') (exStructural exJoined 3 [exSource ''e1'' ''a'' ''a1'', exSource ''e2'' ''b'' ''a2'']) = Inr d \<and>
     sd_Event d = ''success'' \<and> decision_ok d"
proof -
  let ?inp = "exStructural exJoined 3 [exSource ''e1'' ''a'' ''a1'', exSource ''e2'' ''b'' ''a2'']"
  have "EvaluatePredicate (gp_Predicate (n_GatePolicy (si_Node ?inp))) (aggregateStructuralFields (si_Incoming ?inp)) = Inr True"
    by code_simp
  then have "blank (pr_Kind (gp_Predicate (n_GatePolicy (si_Node ?inp)))) \<or>
    pred_holds (gp_Predicate (n_GatePolicy (si_Node ?inp))) (aggregateStructuralFields (si_Incoming ?inp))"
    by (simp add: EvaluatePredicate_Inr)
  moreover have "gp_RequiredEvidence (n_GatePolicy (si_Node ?inp)) = [''ev'']" by code_simp
  moreover have "TrimSpace ''ev'' = ''ev''" by code_simp
  ultimately show ?thesis using EvaluateGate_meaning [OF exStructural_accepted(2) [of "si_Incoming ?inp"], of "\<lambda>k c f. ''00''"]
    by (auto simp: exStructural_def exSource_def exResult_def)
qed

theorem ReduceMerge_meaning_witness:
  "\<exists>d. ReduceMerge (\<lambda>v. ''5'') (\<lambda>k c f. ''00'') (exStructural exJoined 2 [exSource ''e1'' ''a'' ''a1'', exSource ''e2'' ''b'' ''a2'']) = Inr d \<and>
     sd_Event d \<noteq> ''failure''"
proof -
  let ?ss = "[exSource ''e1'' ''a'' ''a1'', exSource ''e2'' ''b'' ''a2'']"
  let ?inp = "exStructural exJoined 2 ?ss"
  have "n_MergePolicy (si_Node ?inp) = \<lparr>mg_ConflictPolicy = ''fail'', mg_KeyFields = [], mg_RequireEvidence = True\<rparr>" by code_simp
  moreover have "\<not> conflicting (\<lambda>v. ''5'') ?ss []" by (auto simp: conflicting_def disagree_def)
  moreover have "committed ?ss \<noteq> {}"
  proof -
    have "TrimSpace ''ev'' = ''ev''" by code_simp
    then show ?thesis by (auto simp: committed_def exSource_def exResult_def)
  qed
  ultimately show ?thesis
    using ReduceMerge_meaning [OF exStructural_accepted(1) [of ?ss], of "\<lambda>v. ''5''" "\<lambda>k c f. ''00''"]
    by (auto simp: exStructural_def)
qed

definition exDecision :: StructuralDecision where
  "exDecision = PlanRepair (\<lambda>k c f. ''00'') (exStructural exGraph 2 [exSource ''e2'' ''qa'' ''a2''])"

theorem PlanRepair_accepted_witness:
  "sd_Event exDecision = ''success'' \<and>
   (\<exists>r. createRepairPlan exRunning (exPlan\<lparr>pl_GraphSnapshot := exGraph\<rparr>) ((exAttempt ''a3'' ''fix'' AttemptPassed)\<lparr>a_Result := sd_Result exDecision\<rparr>) =
      Inr r \<and> rpl_TargetNodeID r = ''impl'' \<and> rpl_SourceAttemptIDs r = [''a2''])"
proof -
  let ?inp = "exStructural exGraph 2 [exSource ''e2'' ''qa'' ''a2'']"
  let ?a = "(exAttempt ''a3'' ''fix'' AttemptPassed)\<lparr>a_Result := sd_Result exDecision\<rparr>"
  have k: "n_Kind (si_Node ?inp) = NodeRepair" "a_NodeID ?a = n_ID (si_Node ?inp)" by code_simp+
  have n: "\<forall>n\<in>set (g_Nodes (pl_GraphSnapshot (si_Plan ?inp))). TrimSpace (n_ID n) = n_ID n \<and> mget (p_Nodes exRunning) (n_ID n) \<noteq> None"
    by code_simp
  have "committed [exSource ''e2'' ''qa'' ''a2''] \<noteq> {}"
  proof -
    have "TrimSpace ''ev'' = ''ev''" by code_simp
    then show ?thesis by (auto simp: committed_def exSource_def exResult_def)
  qed
  moreover have "a_AttemptNo (si_Attempt ?inp) \<le> rep_MaxRounds (n_RepairPolicy (si_Node ?inp))" by code_simp
  moreover have "resolveRepairTarget exGraph (g_Nodes exGraph ! 2) = ''impl''" by code_simp
  ultimately show ?thesis
    using PlanRepair_accepted [OF exStructural_accepted(3) k(1) n k(2), of "\<lambda>k c f. ''00''"]
    by (auto simp: exDecision_def plans_repair_def exStructural_def exSource_def exAttempt_def)
qed

end
