(* ===== verification/Provider_Model.thy ===== *)
theory Provider_Model
  imports Orch_Model Telemetry_Trace
begin

text \<open>
  The execution interface of \<open>src/internal/provider/provider.go\<close> that orchestration depends on: the command that
  starts a run and its validation, the binding and the snapshot of a run, and capabilities. A provider is a record of
  the methods the orchestrator calls, each a function on the state of the world outside. Contexts carry no data here:
  their trace carrier is an argument.
\<close>

section \<open>Capabilities\<close>

record Capabilities =
  cb_Provider :: string
  cb_AdapterVersion :: string
  cb_ServerVersion :: string
  cb_Features :: "string list"
  cb_FeatureStatus :: "(string, string) gomap"

definition Supports :: "Capabilities \<Rightarrow> string \<Rightarrow> bool" where
  "Supports c feature =
     (case mget (cb_FeatureStatus c) feature of
        Some status \<Rightarrow> status \<in> set [''supported'', ''verified'', ''true'']
      | None \<Rightarrow> feature \<in> set (cb_Features c))"

section \<open>Commands\<close>

record StartRunCommand =
  rc_PlanID :: string
  rc_NodeID :: string
  rc_AttemptID :: string
  rc_WorkItemID :: string
  rc_AgentBindingID :: string
  rc_ProviderAssigneeID :: string
  rc_Input :: string
  rc_ProviderIssueID :: string
  rc_SessionID :: string
  rc_WorkDir :: string
  rc_ContextID :: string
  rc_ContextVersion :: int
  rc_ContextEnvelope :: ContextEnvelope
  rc_ExpectedRevision :: int
  rc_RepairAttempt :: int
  rc_LegacyAdapterVersion :: string
  rc_IdempotencyKey :: string
  rc_TraceParent :: string
  rc_TraceState :: string

definition ValidateGraphScope :: "(ContextEnvelope \<Rightarrow> go_error option) \<Rightarrow> StartRunCommand \<Rightarrow> go_error option" where
  "ValidateGraphScope validate c =
     (let unscoped = (rc_PlanID c = '''' \<or> rc_NodeID c = '''' \<or> rc_AttemptID c = '''') in
      if \<not> blank (rc_LegacyAdapterVersion c) \<and> unscoped then
        Some (Errorf ''legacy adapter dispatch requires plan_id, node_id and attempt_id'' [])
      else if rc_PlanID c = '''' \<and> rc_NodeID c = '''' \<and> rc_AttemptID c = '''' then None
      else if unscoped then Some (Errorf ''plan_id, node_id and attempt_id are required together'' [])
      else if blank (rc_SessionID c) then Some (Errorf ''graph dispatch session_id is required'' [])
      else if \<not> blank (rc_WorkDir c) \<and> CHR 0x00 \<in> set (rc_WorkDir c) then Some (Errorf ''graph dispatch work_dir contains NUL'' [])
      else case validate (rc_ContextEnvelope c) of
        Some e \<Rightarrow> Some (Wrapf e ''graph dispatch context envelope: '')
      | None \<Rightarrow>
          if cm_SessionID (ce_Manifest (rc_ContextEnvelope c)) \<noteq> rc_SessionID c then
            Some (Errorf ''graph dispatch context envelope session does not match command session'' [])
          else None)"

definition ValidateContext :: "(ContextEnvelope \<Rightarrow> go_error option) \<Rightarrow> StartRunCommand \<Rightarrow> go_error option" where
  "ValidateContext validate c =
     (let e = rc_ContextEnvelope c in
      if cm_SessionID (ce_Manifest e) = '''' \<and> cm_Digest (ce_Manifest e) = '''' \<and> ce_SelectionDigest e = '''' \<and> ce_ReplayKey e = '''' then None
      else case validate e of
        Some err \<Rightarrow> Some (Wrapf err ''context envelope: '')
      | None \<Rightarrow>
          if rc_PlanID c \<noteq> '''' \<and> rc_SessionID c \<noteq> '''' \<and> cm_SessionID (ce_Manifest e) \<noteq> rc_SessionID c then
            Some (Errorf ''context envelope session does not match command session'' [])
          else None)"

definition validateTraceCarrier :: "string \<Rightarrow> string \<Rightarrow> go_error option" where
  "validateTraceCarrier parent state =
     (if blank parent \<and> blank state then None
      else case ParseTraceParent parent state of
        Inl e \<Rightarrow> Some (Wrapf e ''invalid W3C trace context: '')
      | Inr _ \<Rightarrow> None)"

definition ValidateTraceContext :: "StartRunCommand \<Rightarrow> go_error option" where
  "ValidateTraceContext c = validateTraceCarrier (rc_TraceParent c) (rc_TraceState c)"

definition WithTraceContext :: "span_ctx \<Rightarrow> StartRunCommand \<Rightarrow> StartRunCommand" where
  "WithTraceContext ctx c =
     (if blank (rc_TraceParent c) \<and> blank (rc_TraceState c)
      then c\<lparr>rc_TraceParent := fst (Carrier ctx), rc_TraceState := snd (Carrier ctx)\<rparr> else c)"

section \<open>Runs\<close>

record RunBinding =
  rb_ID :: string
  rb_ProviderRunID :: string
  rb_SessionID :: string
  rb_WorkDir :: string
  rb_ContextID :: string
  rb_ContextVersion :: int
  rb_SessionReused :: bool
  rb_StartedAt :: int
  rb_TraceParent :: string
  rb_TraceState :: string

record Usage =
  us_InputTokens :: int
  us_OutputTokens :: int
  us_CacheReadTokens :: int
  us_CacheWriteTokens :: int
  us_DurationMS :: int
  us_EstimatedCost :: gofloat

record ToolEvent =
  te_CallID :: string
  te_Name :: string
  te_Phase :: string
  te_Payload :: string
  te_Sequence :: int

text \<open>The fields of a snapshot that orchestration reads.\<close>

record RunSnapshot =
  sn_ID :: string
  sn_Status :: string
  sn_LastEventID :: string
  sn_ExecutorPath :: string
  sn_OutputSHA256 :: string
  sn_Output :: string
  sn_Error :: string
  sn_Usage :: Usage
  sn_ToolEvents :: "ToolEvent list"

record 'w ExecutionProvider =
  pv_Capabilities :: "'w \<Rightarrow> 'w \<times> (go_error + Capabilities)"
  pv_StartRun :: "StartRunCommand \<Rightarrow> 'w \<Rightarrow> 'w \<times> (go_error + RunBinding)"
  pv_GetRun :: "string \<Rightarrow> 'w \<Rightarrow> 'w \<times> (go_error + RunSnapshot)"
  pv_CancelRun :: "string \<Rightarrow> 'w \<Rightarrow> 'w \<times> go_error option"

section \<open>Properties\<close>

text \<open>A scoped command with a session of its own validated envelope is in scope.\<close>

lemma ValidateGraphScope_scoped:
  assumes "rc_PlanID c \<noteq> ''''" and "rc_NodeID c \<noteq> ''''" and "rc_AttemptID c \<noteq> ''''" and "validate (rc_ContextEnvelope c) = None"
    and "rc_SessionID c = cm_SessionID (ce_Manifest (rc_ContextEnvelope c))" and "\<not> blank (rc_SessionID c)"
    and "rc_WorkDir c = ''''"
  shows "ValidateGraphScope validate c = None" and "ValidateContext validate c = None"
  using assms by (simp_all add: ValidateGraphScope_def ValidateContext_def Let_def)

end
