(* ===== verification/Go_Monad.thy ===== *)
theory Go_Monad
  imports Go_Prelude
begin

text \<open>
  Code that threads a state through calls that can fail: an action takes the state and gives the new state with an error
  or a value. The combinators are the control flow of the Go code (a call followed by \<open>if err != nil { return err }\<close>,
  wrapping an error, looking at an error instead of returning it, restoring a saved value before an error is
  returned). Properties are proved with the Hoare triples \<open>validE P m Q E\<close>: from a state with \<open>P\<close> the action either
  gives a value and a state with \<open>Q\<close>, or an error and a state with \<open>E\<close>.
\<close>

section \<open>Actions\<close>

type_synonym ('s, 'a) act = "'s \<Rightarrow> 's \<times> (go_error + 'a)"

definition ret :: "'a \<Rightarrow> ('s, 'a) act" where
  "ret a s = (s, Inr a)"

definition fails :: "go_error \<Rightarrow> ('s, 'a) act" where
  "fails e s = (s, Inl e)"

definition andThen :: "('s, 'a) act \<Rightarrow> ('a \<Rightarrow> ('s, 'b) act) \<Rightarrow> ('s, 'b) act" where
  "andThen m f s = (case m s of (s', Inl e) \<Rightarrow> (s', Inl e) | (s', Inr a) \<Rightarrow> f a s')"

text \<open>A call whose error is looked at.\<close>

definition outcome :: "('s, 'a) act \<Rightarrow> ('s, go_error + 'a) act" where
  "outcome m s = (case m s of (s', r) \<Rightarrow> (s', Inr r))"

definition wrapErr :: "(go_error \<Rightarrow> go_error) \<Rightarrow> ('s, 'a) act \<Rightarrow> ('s, 'a) act" where
  "wrapErr h m s = (case m s of (s', Inl e) \<Rightarrow> (s', Inl (h e)) | (s', Inr a) \<Rightarrow> (s', Inr a))"

text \<open>Calls of other types: one that only returns an error, one that cannot fail, one that only reads the state.\<close>

definition errOnly :: "('s \<Rightarrow> 's \<times> go_error option) \<Rightarrow> ('s, unit) act" where
  "errOnly m s = (case m s of (s', None) \<Rightarrow> (s', Inr ()) | (s', Some e) \<Rightarrow> (s', Inl e))"

definition yields :: "('s \<Rightarrow> 's \<times> 'a) \<Rightarrow> ('s, 'a) act" where
  "yields m s = (case m s of (s', a) \<Rightarrow> (s', Inr a))"

definition reads :: "('s \<Rightarrow> go_error + 'a) \<Rightarrow> ('s, 'a) act" where
  "reads f s = (s, f s)"

definition gets :: "('s \<Rightarrow> 'a) \<Rightarrow> ('s, 'a) act" where
  "gets f s = (s, Inr (f s))"

definition ensure :: "bool \<Rightarrow> go_error \<Rightarrow> ('s, unit) act" where
  "ensure b e = (if b then ret () else fails e)"

text \<open>Actions on one part of a state; an error after which the second part goes back to a saved value.\<close>

definition onFst :: "('s, 'a) act \<Rightarrow> ('s \<times> 't, 'a) act" where
  "onFst m s = (case m (fst s) of (s', r) \<Rightarrow> ((s', snd s), r))"

definition onSnd :: "('t, 'a) act \<Rightarrow> ('s \<times> 't, 'a) act" where
  "onSnd m s = (case m (snd s) of (t', r) \<Rightarrow> ((fst s, t'), r))"

definition withSnd :: "('t \<Rightarrow> ('s, 'a) act) \<Rightarrow> ('s \<times> 't, 'a) act" where
  "withSnd m s = onFst (m (snd s)) s"

definition putSnd :: "('t \<Rightarrow> 't) \<Rightarrow> ('s \<times> 't, unit) act" where
  "putSnd f s = ((fst s, f (snd s)), Inr ())"

definition restoring :: "'t \<Rightarrow> ('s \<times> 't, 'a) act \<Rightarrow> ('s \<times> 't, 'a) act" where
  "restoring before m s = (case m s of (s', Inl e) \<Rightarrow> ((fst s', before), Inl e) | (s', Inr a) \<Rightarrow> (s', Inr a))"

section \<open>Hoare triples\<close>

named_theorems hoare

definition validE :: "('s \<Rightarrow> bool) \<Rightarrow> ('s, 'a) act \<Rightarrow> ('a \<Rightarrow> 's \<Rightarrow> bool) \<Rightarrow> ('s \<Rightarrow> bool) \<Rightarrow> bool" where
  "validE P m Q E \<longleftrightarrow> (\<forall>s. P s \<longrightarrow> (case m s of (s', Inr a) \<Rightarrow> Q a s' | (s', Inl e) \<Rightarrow> E s'))"

lemma validE_Inr: "validE P m Q E \<Longrightarrow> P s \<Longrightarrow> m s = (s', Inr a) \<Longrightarrow> Q a s'"
  by (fastforce simp: validE_def)

lemma validE_Inl: "validE P m Q E \<Longrightarrow> P s \<Longrightarrow> m s = (s', Inl e) \<Longrightarrow> E s'"
  by (fastforce simp: validE_def)

lemma validEI:
  assumes "\<And>s s' a. P s \<Longrightarrow> m s = (s', Inr a) \<Longrightarrow> Q a s'" and "\<And>s s' e. P s \<Longrightarrow> m s = (s', Inl e) \<Longrightarrow> E s'"
  shows "validE P m Q E"
  using assms by (auto simp: validE_def split: prod.splits sum.splits)

lemma validE_weaken:
  assumes "validE P m Q E" and "\<And>s. P' s \<Longrightarrow> P s" and "\<And>a s. Q a s \<Longrightarrow> Q' a s" and "\<And>s. E s \<Longrightarrow> E' s"
  shows "validE P' m Q' E'"
  using assms by (fastforce simp: validE_def split: prod.splits sum.splits)

lemma validE_pre: "validE P m Q E \<Longrightarrow> (\<And>s. P' s \<Longrightarrow> P s) \<Longrightarrow> validE P' m Q E"
  by (rule validE_weaken)

lemma validE_post: "validE P m Q E \<Longrightarrow> (\<And>a s. Q a s \<Longrightarrow> Q' a s) \<Longrightarrow> validE P m Q' E"
  by (rule validE_weaken)

lemma validE_conj: "validE P m Q E \<Longrightarrow> validE P m Q' E \<Longrightarrow> validE P m (\<lambda>a s. Q a s \<and> Q' a s) E"
  by (fastforce simp: validE_def split: prod.splits sum.splits)

lemma validE_assume: "(A \<Longrightarrow> validE P m Q E) \<Longrightarrow> validE (\<lambda>s. A \<and> P s) m Q E"
  by (simp add: validE_def)

lemma validE_ret [hoare]: "(\<And>s. P s \<Longrightarrow> Q a s) \<Longrightarrow> validE P (ret a) Q E"
  by (simp add: validE_def ret_def)

lemma validE_fails [hoare]: "(\<And>s. P s \<Longrightarrow> E s) \<Longrightarrow> validE P (fails e) Q E"
  by (simp add: validE_def fails_def)

lemma validE_andThen [hoare]: "validE P m R E \<Longrightarrow> (\<And>a. validE (R a) (f a) Q E) \<Longrightarrow> validE P (andThen m f) Q E"
  by (fastforce simp: validE_def andThen_def split: prod.splits sum.splits)

lemma validE_wrapErr [hoare]: "validE P m Q E \<Longrightarrow> validE P (wrapErr h m) Q E"
  by (fastforce simp: validE_def wrapErr_def split: prod.splits sum.splits)

lemma validE_outcome: "validE P m (\<lambda>a. Q (Inr a)) (\<lambda>s. \<forall>e. Q (Inl e) s) \<Longrightarrow> validE P (outcome m) Q E"
proof (rule validEI)
  fix s s' a
  assume v: "validE P m (\<lambda>a. Q (Inr a)) (\<lambda>s. \<forall>e. Q (Inl e) s)" and "P s" and "outcome m s = (s', Inr a)"
  then have "m s = (s', a)" by (simp add: outcome_def split: prod.splits)
  with \<open>P s\<close> show "Q a s'" by (cases a) (auto dest: validE_Inr [OF v] validE_Inl [OF v])
qed (simp add: outcome_def split: prod.splits)

lemma validE_ensure [hoare]: "(\<And>s. P s \<Longrightarrow> if b then Q () s else E s) \<Longrightarrow> validE P (ensure b e) Q E"
  by (auto simp: ensure_def intro: hoare split: if_splits)

lemma validE_reads [hoare]: "(\<And>s. P s \<Longrightarrow> E s \<and> (\<forall>a. f s = Inr a \<longrightarrow> Q a s)) \<Longrightarrow> validE P (reads f) Q E"
  by (auto simp: validE_def reads_def split: sum.splits)

lemma validE_gets [hoare]: "(\<And>s. P s \<Longrightarrow> Q (f s) s) \<Longrightarrow> validE P (gets f) Q E"
  by (simp add: validE_def gets_def)

lemma validE_yields: "(\<And>s s' a. P s \<Longrightarrow> m s = (s', a) \<Longrightarrow> Q a s') \<Longrightarrow> validE P (yields m) Q E"
  by (auto simp: validE_def yields_def split: prod.splits)

lemma validE_errOnly:
  assumes "\<And>s s'. P s \<Longrightarrow> m s = (s', None) \<Longrightarrow> Q () s'" and "\<And>s s' e. P s \<Longrightarrow> m s = (s', Some e) \<Longrightarrow> E s'"
  shows "validE P (errOnly m) Q E"
  using assms by (auto simp: validE_def errOnly_def split: prod.splits option.splits)

lemma validE_onFst: "(\<And>t. validE (\<lambda>s. P (s, t)) m (\<lambda>a s. Q a (s, t)) (\<lambda>s. E (s, t))) \<Longrightarrow> validE P (onFst m) Q E"
  by (fastforce simp: validE_def onFst_def split: prod.splits sum.splits)

lemma validE_onSnd: "(\<And>s. validE (\<lambda>t. P (s, t)) m (\<lambda>a t. Q a (s, t)) (\<lambda>t. E (s, t))) \<Longrightarrow> validE P (onSnd m) Q E"
  by (fastforce simp: validE_def onSnd_def split: prod.splits sum.splits)

lemma validE_withSnd: "(\<And>t. validE (\<lambda>s. P (s, t)) (m t) (\<lambda>a s. Q a (s, t)) (\<lambda>s. E (s, t))) \<Longrightarrow> validE P (withSnd m) Q E"
  by (fastforce simp: validE_def withSnd_def onFst_def split: prod.splits sum.splits)

lemma validE_putSnd [hoare]: "(\<And>s t. P (s, t) \<Longrightarrow> Q () (s, f t)) \<Longrightarrow> validE P (putSnd f) Q E"
  by (auto simp: validE_def putSnd_def)

lemma validE_restoring [hoare]: "validE P m Q (\<lambda>s. E (fst s, before)) \<Longrightarrow> validE P (restoring before m) Q E"
  by (fastforce simp: validE_def restoring_def split: prod.splits sum.splits)

lemma validE_case_option [hoare]:
  "(x = None \<Longrightarrow> validE P m Q E) \<Longrightarrow> (\<And>y. x = Some y \<Longrightarrow> validE P (f y) Q E) \<Longrightarrow>
     validE P (case x of None \<Rightarrow> m | Some y \<Rightarrow> f y) Q E"
  by (cases x) simp_all

lemma validE_case_sum [hoare]:
  "(\<And>y. x = Inl y \<Longrightarrow> validE P (f y) Q E) \<Longrightarrow> (\<And>y. x = Inr y \<Longrightarrow> validE P (g y) Q E) \<Longrightarrow>
     validE P (case x of Inl y \<Rightarrow> f y | Inr y \<Rightarrow> g y) Q E"
  by (cases x) simp_all

lemma validE_case_prod [hoare]: "(\<And>a b. x = (a, b) \<Longrightarrow> validE P (f a b) Q E) \<Longrightarrow> validE P (case x of (a, b) \<Rightarrow> f a b) Q E"
  by (cases x) simp

lemma validE_if [hoare]:
  "(b \<Longrightarrow> validE P m Q E) \<Longrightarrow> (\<not> b \<Longrightarrow> validE P m' Q E) \<Longrightarrow> validE P (if b then m else m') Q E"
  by simp

section \<open>Actions that leave a part of the state alone\<close>

named_theorems quiet

text \<open>The observation \<open>view\<close> of the state is the same after the action, whatever its outcome.\<close>

definition quiet :: "('s \<Rightarrow> 'v) \<Rightarrow> ('s, 'a) act \<Rightarrow> bool" where
  "quiet view m \<longleftrightarrow> (\<forall>s. view (fst (m s)) = view s)"

lemma quiet_validE:
  assumes "quiet view m"
  shows "validE (\<lambda>s. P (view s)) m (\<lambda>_ s. P (view s)) (\<lambda>s. P (view s))"
  using assms by (auto simp: quiet_def validE_def split: prod.splits sum.splits) (metis fst_conv)+

lemma quiet_simple [quiet]:
  "quiet view (ret a)" "quiet view (fails e)" "quiet view (reads g)" "quiet view (gets f)" "quiet view (ensure b e)"
  by (simp_all add: quiet_def ret_def fails_def reads_def gets_def ensure_def)

lemma quiet_andThen [quiet]: "quiet view m \<Longrightarrow> (\<And>a. quiet view (f a)) \<Longrightarrow> quiet view (andThen m f)"
  unfolding quiet_def andThen_def by (auto split: prod.splits sum.splits) (metis fst_conv)+

lemma quiet_wrapErr [quiet]: "quiet view m \<Longrightarrow> quiet view (wrapErr h m)"
  unfolding quiet_def wrapErr_def by (auto split: prod.splits sum.splits) (metis fst_conv)+

lemma quiet_yields [quiet]: "(\<And>s. view (fst (m s)) = view s) \<Longrightarrow> quiet view (yields m)"
  unfolding quiet_def yields_def by (auto split: prod.splits) (metis fst_conv)

lemma quiet_if [quiet]: "(b \<Longrightarrow> quiet view m) \<Longrightarrow> (\<not> b \<Longrightarrow> quiet view m') \<Longrightarrow> quiet view (if b then m else m')"
  by simp

lemma quiet_case [quiet]:
  "(x = None \<Longrightarrow> quiet view m) \<Longrightarrow> (\<And>y. x = Some y \<Longrightarrow> quiet view (f y)) \<Longrightarrow> quiet view (case x of None \<Rightarrow> m | Some y \<Rightarrow> f y)"
  by (cases x) simp_all

lemma quiet_prod [quiet]: "(\<And>a b. x = (a, b) \<Longrightarrow> quiet view (g a b)) \<Longrightarrow> quiet view (case x of (a, b) \<Rightarrow> g a b)"
  by (cases x) simp

text \<open>What an action returns, whatever the state.\<close>

definition returns :: "('s, 'a) act \<Rightarrow> ('a \<Rightarrow> bool) \<Rightarrow> bool" where
  "returns m R \<longleftrightarrow> validE (\<lambda>_. True) m (\<lambda>a _. R a) (\<lambda>_. True)"

lemma returns_result: "returns m R \<Longrightarrow> m s = (s', Inr a) \<Longrightarrow> R a"
  using validE_Inr [of "\<lambda>_. True" m "\<lambda>a _. R a" "\<lambda>_. True" s s' a] by (simp add: returns_def)

lemma returns_andThen: "(\<And>a. returns (f a) R) \<Longrightarrow> returns (andThen m f) R"
  by (fastforce simp: returns_def validE_def andThen_def split: prod.splits sum.splits)

lemma quiet_andThen_returns:
  assumes "quiet view m" and "returns m R" and "\<And>a. R a \<Longrightarrow> quiet view (f a)"
  shows "quiet view (andThen m f)"
  using assms(1,3) returns_result [OF assms(2)] unfolding quiet_def andThen_def
  by (auto split: prod.splits sum.splits) (metis fst_conv)+

lemma validE_returns: "validE P m Q E \<Longrightarrow> returns m R \<Longrightarrow> validE P m (\<lambda>a s. Q a s \<and> R a) E"
  by (fastforce simp: returns_def validE_def split: prod.splits sum.splits)

end
