(* ===== verification/Orch_Executor.thy ===== *)
theory Orch_Executor
  imports Orch_Structural Orch_Outbox Orch_Definitions Provider_Model Go_Monad
begin

text \<open>
  The executor (\<open>executor.go\<close>): it starts attempts of ready nodes, commits each transition with its event, and calls
  the provider. What it calls through Go interfaces is a record of functions on the state \<open>'w\<close> of everything outside
  the projection; a type assertion on an interface value is a test of an optional component. A projection is passed by
  reference in the code, so the operations that change it are actions on the pair of \<open>'w\<close> and the projection.

  \<open>ExecEnv\<close> holds what the code takes from elsewhere: the clock, fresh identifiers, the encoding of event payloads, the
  rendering of errors and prompts, and the trace carrier of a child span. The context of a call is represented by its
  trace carrier. Spans that are only exported have no part in the model.
\<close>

section \<open>Interfaces\<close>

record 'w outboxStore =
  op_Enqueue :: "OutboxRecord \<Rightarrow> 'w \<Rightarrow> 'w \<times> (go_error + OutboxRecord \<times> bool)"
  op_ClaimByID :: "string \<Rightarrow> string \<Rightarrow> int \<Rightarrow> int \<Rightarrow> 'w \<Rightarrow> 'w \<times> (go_error + OutboxRecord)"
  op_Ack :: "string \<Rightarrow> string \<Rightarrow> int \<Rightarrow> string option \<Rightarrow> 'w \<Rightarrow> 'w \<times> go_error option"

record 'w outboxRecoveryStore =
  or_List :: "string \<Rightarrow> string \<Rightarrow> 'w \<Rightarrow> OutboxRecord list"
  or_ClaimByID :: "string \<Rightarrow> string \<Rightarrow> int \<Rightarrow> int \<Rightarrow> 'w \<Rightarrow> 'w \<times> (go_error + OutboxRecord)"
  or_Ack :: "string \<Rightarrow> string \<Rightarrow> int \<Rightarrow> string option \<Rightarrow> 'w \<Rightarrow> 'w \<times> go_error option"

text \<open>The event store: \<open>AppendEvent\<close>, and the interfaces it may implement besides.\<close>

record 'w EventStore =
  es_Append :: "Event \<Rightarrow> 'w \<Rightarrow> 'w \<times> go_error option"
  es_List :: "(string \<Rightarrow> int \<Rightarrow> 'w \<Rightarrow> Event list) option"
  es_Save :: "(PlanProjection \<Rightarrow> 'w \<Rightarrow> 'w \<times> go_error option) option"
  es_Commit :: "(Event \<Rightarrow> PlanProjection \<Rightarrow> 'w \<Rightarrow> 'w \<times> go_error option) option"
  es_Outbox :: "'w outboxStore option"
  es_Recovery :: "'w outboxRecoveryStore option"

text \<open>The methods of \<open>Repository\<close> that execution uses, and the interfaces a repository may implement besides.\<close>

record 'w RepositoryPort =
  rp_GetAgent :: "string \<Rightarrow> string \<Rightarrow> int \<Rightarrow> 'w \<Rightarrow> go_error + AgentDefinition"
  rp_GetSquad :: "string \<Rightarrow> string \<Rightarrow> int \<Rightarrow> 'w \<Rightarrow> go_error + SquadDefinition"
  rp_GetPlan :: "string \<Rightarrow> string \<Rightarrow> 'w \<Rightarrow> go_error + RequirementExecutionPlan"
  rp_GetProjection :: "string \<Rightarrow> 'w \<Rightarrow> go_error + PlanProjection"
  rp_SaveProjection :: "PlanProjection \<Rightarrow> 'w \<Rightarrow> 'w \<times> go_error option"
  rp_CreatePlan :: "RequirementExecutionPlan \<Rightarrow> 'w \<Rightarrow> 'w \<times> go_error option"
  rp_CreatePlanWithEvent :: "(RequirementExecutionPlan \<Rightarrow> Event \<Rightarrow> 'w \<Rightarrow> 'w \<times> go_error option) option"
  rp_Recovery :: "'w outboxRecoveryStore option"

type_synonym 'w controller = "StructuralInput \<Rightarrow> 'w \<Rightarrow> 'w \<times> (go_error + StructuralDecision)"

record 'w Executor =
  xc_Provider :: "'w ExecutionProvider option"
  xc_ProviderResolver :: "(AgentDefinition \<Rightarrow> 'w \<Rightarrow> 'w \<times> (go_error + 'w ExecutionProvider option)) option"
  xc_InstructionsResolver :: "(AgentDefinition \<Rightarrow> 'w \<Rightarrow> 'w \<times> (go_error + string)) option"
  xc_Repository :: "'w RepositoryPort option"
  xc_Events :: "'w EventStore option"
  xc_GateEvaluator :: "'w controller option"
  xc_MergeReducer :: "'w controller option"
  xc_RepairController :: "'w controller option"
  xc_Owner :: string
  xc_InvokerID :: string
  xc_Now :: "('w \<Rightarrow> 'w \<times> int) option"
  xc_LeaseTTL :: int

text \<open>The payloads of events; a constructor for each set of keys the code writes.\<close>

datatype payload =
    StartedFact StartedPayload
  | StartedWithChild StartedPayload
  | BoundFact BoundPayload
  | BoundWithChild BoundPayload
  | WaitingFact FinishedPayload
  | FinishedFact FinishedPayload
  | PlanFact RequirementExecutionPlan
  | RawFact string

record 'w ExecEnv =
  xe_Ambient :: Ambient
  xe_Codec :: Codec
  xe_Clock :: "'w \<Rightarrow> 'w \<times> int"
  xe_NewID :: "'w \<Rightarrow> 'w \<times> string"
  xe_Encode :: "payload \<Rightarrow> go_error + string"
  xe_PlanHash :: "RequirementExecutionPlan \<Rightarrow> go_error + string"
  xe_EncodeField :: "any \<Rightarrow> string"
  xe_DecisionHex :: "string \<Rightarrow> string \<Rightarrow> fields \<Rightarrow> string"
  xe_ErrorText :: "go_error \<Rightarrow> string"
  xe_ErrorCode :: "go_error \<Rightarrow> string"
  xe_NodeEnvelope :: "ContextEnvelope \<Rightarrow> RequirementExecutionPlan \<Rightarrow> WorkflowNode \<Rightarrow> string \<Rightarrow> string \<Rightarrow> go_error + ContextEnvelope"
  xe_NodeMetadata :: "ContextEnvelope \<Rightarrow> WorkflowNode \<Rightarrow> int \<Rightarrow> string \<Rightarrow> string"
  xe_RenderPrompt :: "ContextEnvelope \<Rightarrow> go_error + string"
  xe_Render :: "ContextEnvelope \<Rightarrow> go_error + string"
  xe_Blocks :: "ContextEnvelope \<Rightarrow> string list"
  xe_ChildSpan :: "string \<times> string \<Rightarrow> 'w \<Rightarrow> 'w \<times> (string \<times> string)"

section \<open>Clocks and leases\<close>

definition executorNow :: "'w ExecEnv \<Rightarrow> 'w Executor \<Rightarrow> ('w, int) act" where
  "executorNow env e = yields (case xc_Now e of Some f \<Rightarrow> f | None \<Rightarrow> xe_Clock env)"

definition leaseTTL :: "'w Executor \<Rightarrow> WorkflowNode \<Rightarrow> int" where
  "leaseTTL e n = (if 0 < n_Timeout n then n_Timeout n else if 0 < xc_LeaseTTL e then xc_LeaseTTL e else 15 * minute)"

definition attemptKey :: "RequirementExecutionPlan \<Rightarrow> string \<Rightarrow> int \<Rightarrow> string" where
  "attemptKey plan nodeID attemptNo = pl_ID plan @ '':'' @ nodeID @ '':'' @ itoa attemptNo"

definition executorLease :: "'w Executor \<Rightarrow> RequirementExecutionPlan \<Rightarrow> WorkflowNode \<Rightarrow> int \<Rightarrow> Lease" where
  "executorLease e plan n now = \<lparr>l_Key = pl_ID plan @ '':'' @ n_ID n, l_Owner = xc_Owner e, l_FencingToken = now,
     l_ExpiresAt = now + leaseTTL e n\<rparr>"

definition startInput :: "RequirementExecutionPlan \<Rightarrow> Lease \<Rightarrow> string \<Rightarrow> string \<Rightarrow> int \<Rightarrow> TransitionInput" where
  "startInput plan lease key hash now = \<lparr>in_PlanRevision = pl_Revision plan, in_AttemptID = '''', in_LeaseToken = l_FencingToken lease,
     in_Event = '''', in_Result = zeroResult, in_Failure = None, in_OutputArtifacts = [], in_IdempotencyKey = key,
     in_PayloadHash = hash, in_Now = now\<rparr>"

definition finishInput ::
  "RequirementExecutionPlan \<Rightarrow> string \<Rightarrow> int \<Rightarrow> string \<Rightarrow> StructuredResult \<Rightarrow> FailureReason option \<Rightarrow> string list \<Rightarrow> string \<Rightarrow> int \<Rightarrow>
     TransitionInput" where
  "finishInput plan attemptID token event result failure artifacts key now =
     \<lparr>in_PlanRevision = pl_Revision plan, in_AttemptID = attemptID, in_LeaseToken = token, in_Event = event, in_Result = result,
      in_Failure = failure, in_OutputArtifacts = artifacts, in_IdempotencyKey = key, in_PayloadHash = '''', in_Now = now\<rparr>"

section \<open>Committing transitions\<close>

definition lastEvent :: "Event list \<Rightarrow> Event option" where
  "lastEvent es = (if es = [] then None else Some (last es))"

text \<open>\<open>NewEventWithContext\<close> with its fresh ID and the current time.\<close>

definition freshEvent ::
  "'w ExecEnv \<Rightarrow> string \<times> string \<Rightarrow> Event option \<Rightarrow> string \<Rightarrow> string \<Rightarrow> string \<Rightarrow> string \<Rightarrow> payload \<Rightarrow> ('w, Event) act" where
  "freshEvent env ctx previous planID ws typ key body =
     andThen (yields (xe_NewID env)) (\<lambda>i.
     andThen (yields (xe_Clock env)) (\<lambda>now.
     reads (\<lambda>_. NewEvent (xe_Codec env) i now ctx previous planID ws typ key (xe_Encode env body))))"

text \<open>The next event of a plan: the tail of its log is read for the predecessor.\<close>

definition nextEvent ::
  "'w ExecEnv \<Rightarrow> string \<times> string \<Rightarrow> (string \<Rightarrow> int \<Rightarrow> 'w \<Rightarrow> Event list) \<Rightarrow> string \<Rightarrow> string \<Rightarrow> string \<Rightarrow> string \<Rightarrow> payload \<Rightarrow>
     ('w, Event) act" where
  "nextEvent env ctx list planID ws typ key body =
     andThen (gets (\<lambda>w. lastEvent (list planID 0 w))) (\<lambda>previous. freshEvent env ctx previous planID ws typ key body)"

definition appendWithTail ::
  "'w ExecEnv \<Rightarrow> 'w EventStore \<Rightarrow> (string \<Rightarrow> int \<Rightarrow> 'w \<Rightarrow> Event list) \<Rightarrow> Event \<Rightarrow> ('w, unit) act" where
  "appendWithTail env store list ev =
     andThen (outcome (errOnly (es_Append store ev))) (\<lambda>appended.
       case appended of
         Inr _ \<Rightarrow> ret ()
       | Inl _ \<Rightarrow>
           andThen (nextEvent env ('''', '''') list (ev_PlanID ev) (ev_WorkspaceID ev) (ev_Type ev) (ev_IdempotencyKey ev)
             (RawFact (ev_Payload ev))) (\<lambda>retry.
           errOnly (es_Append store (Seal (xe_Codec env) (retry\<lparr>ev_ID := ev_ID ev, ev_RunID := ev_RunID ev, ev_NodeID := ev_NodeID ev,
             ev_AttemptID := ev_AttemptID ev, ev_FencingToken := ev_FencingToken ev, ev_TraceParent := ev_TraceParent ev,
             ev_TraceState := ev_TraceState ev\<rparr>)))))"

text \<open>Commit the event with the projection when the store can, otherwise append it and \<open>save\<close> the projection.\<close>

definition commitOrAppend ::
  "'w ExecEnv \<Rightarrow> 'w EventStore \<Rightarrow> (string \<Rightarrow> int \<Rightarrow> 'w \<Rightarrow> Event list) \<Rightarrow> (PlanProjection \<Rightarrow> 'w \<Rightarrow> 'w \<times> go_error option) option \<Rightarrow>
     Event \<Rightarrow> PlanProjection \<Rightarrow> ('w, unit) act" where
  "commitOrAppend env store list save ev p =
     (case es_Commit store of
        Some f \<Rightarrow> errOnly (f ev p)
      | None \<Rightarrow>
          andThen (appendWithTail env store list ev) (\<lambda>_.
            case save of Some f \<Rightarrow> errOnly (f p) | None \<Rightarrow> ret ()))"

definition sealedEvent :: "Codec \<Rightarrow> Event \<Rightarrow> Event" where
  "sealedEvent cd ev = ev\<lparr>ev_EnvelopeHash := eventDigest cd ev\<rparr>"

definition commitAttemptEvent ::
  "'w ExecEnv \<Rightarrow> 'w Executor \<Rightarrow> string \<times> string \<Rightarrow> RequirementExecutionPlan \<Rightarrow> NodeAttempt \<Rightarrow> string \<Rightarrow> string \<Rightarrow> payload \<Rightarrow>
     int option \<Rightarrow> PlanProjection \<Rightarrow> ('w, unit) act" where
  "commitAttemptEvent env e ctx plan attempt typ key body fencing p =
     (case xc_Events e of
        None \<Rightarrow>
          (case xc_Repository e of
             None \<Rightarrow> ret ()
           | Some repo \<Rightarrow>
               andThen (gets (rp_GetPlan repo (pl_WorkspaceID plan) (pl_ID plan))) (\<lambda>found.
                 case found of
                   Inl err \<Rightarrow> if errors_Is err ErrNotFound then ret () else fails err
                 | Inr _ \<Rightarrow> errOnly (rp_SaveProjection repo p)))
      | Some store \<Rightarrow>
          (case es_List store of
             None \<Rightarrow> fails (Errorf ''event store must support append and tail reads'' [])
           | Some list \<Rightarrow>
               andThen (nextEvent env ctx list (pl_ID plan) (pl_WorkspaceID plan) typ key body) (\<lambda>ev.
               commitOrAppend env store list (es_Save store)
                 (sealedEvent (xe_Codec env) (ev\<lparr>ev_AttemptID := a_ID attempt, ev_NodeID := a_NodeID attempt,
                   ev_FencingToken := (case fencing of Some t \<Rightarrow> t | None \<Rightarrow> l_FencingToken (a_Lease attempt))\<rparr>)) p)))"

text \<open>
  \<open>Executor.FinishAttempt\<close>. The code reads the clock when the input has no time; the projection goes back to its old
  value when the event cannot be made or committed, but not when the reducer refuses the completion.
\<close>

definition executorSaver ::
  "'w Executor \<Rightarrow> RequirementExecutionPlan \<Rightarrow> 'w \<Rightarrow> (PlanProjection \<Rightarrow> 'w \<Rightarrow> 'w \<times> go_error option) option" where
  "executorSaver e plan w =
     (case (case xc_Events e of None \<Rightarrow> None | Some store \<Rightarrow> es_Save store) of
        Some f \<Rightarrow> Some f
      | None \<Rightarrow>
          (case xc_Repository e of
             None \<Rightarrow> None
           | Some repo \<Rightarrow>
               (case rp_GetPlan repo (pl_WorkspaceID plan) (pl_ID plan) w of Inl _ \<Rightarrow> None | Inr _ \<Rightarrow> Some (rp_SaveProjection repo))))"

definition finishedEventKey :: "TransitionInput \<Rightarrow> NodeAttempt \<Rightarrow> string" where
  "finishedEventKey inp a = (if in_IdempotencyKey inp = '''' then a_IdempotencyKey a else in_IdempotencyKey inp) @ '':finished''"

definition finishedPayload :: "string \<Rightarrow> TransitionInput \<Rightarrow> StructuredResult \<Rightarrow> NodeAttempt \<Rightarrow> FinishedPayload" where
  "finishedPayload attemptID inp result a = \<lparr>fi_AttemptID = attemptID, fi_Event = in_Event inp, fi_Result = result,
     fi_Failure = in_Failure inp, fi_ArtifactIDs = a_OutputArtifacts a,
     fi_TransitionIdempotencyKey = Some (in_IdempotencyKey inp), fi_TransitionAt = in_Now inp\<rparr>"

text \<open>\<open>e.Events.(eventAppender)\<close>.\<close>

definition eventAppender :: "'w Executor \<Rightarrow> ('w EventStore \<times> (string \<Rightarrow> int \<Rightarrow> 'w \<Rightarrow> Event list)) option" where
  "eventAppender e =
     (case xc_Events e of None \<Rightarrow> None | Some store \<Rightarrow> (case es_List store of None \<Rightarrow> None | Some list \<Rightarrow> Some (store, list)))"

definition commitFinished ::
  "'w ExecEnv \<Rightarrow> 'w Executor \<Rightarrow> string \<times> string \<Rightarrow> RequirementExecutionPlan \<Rightarrow> string \<Rightarrow> TransitionInput \<Rightarrow> NodeAttempt \<Rightarrow>
     PlanProjection \<Rightarrow> ('w, unit) act" where
  "commitFinished env e ctx plan attemptID inp a p =
     (case eventAppender e of
        Some (store, list) \<Rightarrow>
          andThen (nextEvent env ctx list (pl_ID plan) (pl_WorkspaceID plan) ''attempt.finished'' (finishedEventKey inp a)
            (FinishedFact (finishedPayload attemptID inp (in_Result inp) a))) (\<lambda>ev.
          commitOrAppend env store list None (sealedEvent (xe_Codec env) (ev\<lparr>ev_FencingToken := in_LeaseToken inp\<rparr>)) p)
      | None \<Rightarrow>
          andThen (gets (executorSaver e plan)) (\<lambda>saver. case saver of None \<Rightarrow> ret () | Some f \<Rightarrow> errOnly (f p)))"

definition executorFinishAttempt ::
  "'w ExecEnv \<Rightarrow> 'w Executor \<Rightarrow> string \<times> string \<Rightarrow> RequirementExecutionPlan \<Rightarrow> string \<Rightarrow> TransitionInput \<Rightarrow>
     ('w \<times> PlanProjection, NodeAttempt) act" where
  "executorFinishAttempt env e ctx plan attemptID inp0 =
     andThen (if IsZero (in_Now inp0) then onFst (executorNow env e) else ret (in_Now inp0)) (\<lambda>now.
     let inp = inp0\<lparr>in_Now := now\<rparr> in
     andThen (gets snd) (\<lambda>old.
     andThen (onSnd (FinishAttempt (xe_Ambient env) plan attemptID inp)) (\<lambda>a.
     andThen (restoring old (withSnd (commitFinished env e ctx plan attemptID inp a))) (\<lambda>_.
     ret a))))"

section \<open>Structural nodes\<close>

fun kindName :: "NodeKind \<Rightarrow> string" where
  "kindName NodeAgent = ''agent''"
| "kindName NodeSquad = ''squad''"
| "kindName NodeGate = ''gate''"
| "kindName NodeHuman = ''human''"
| "kindName NodeMerge = ''merge''"
| "kindName NodeRepair = ''repair''"
| "kindName (NodeKindOther s) = s"

definition evaluateStructural :: "'w ExecEnv \<Rightarrow> 'w Executor \<Rightarrow> 'w controller" where
  "evaluateStructural env e inp =
     (case n_Kind (si_Node inp) of
        NodeGate \<Rightarrow>
          (case xc_GateEvaluator e of Some f \<Rightarrow> f inp | None \<Rightarrow> reads (\<lambda>_. EvaluateGate (xe_DecisionHex env) inp))
      | NodeMerge \<Rightarrow>
          (case xc_MergeReducer e of Some f \<Rightarrow> f inp | None \<Rightarrow> reads (\<lambda>_. ReduceMerge (xe_EncodeField env) (xe_DecisionHex env) inp))
      | NodeRepair \<Rightarrow>
          (case xc_RepairController e of Some f \<Rightarrow> f inp | None \<Rightarrow> ret (PlanRepair (xe_DecisionHex env) inp))
      | _ \<Rightarrow> fails (Errorf ''unsupported structural node kind %q'' [ArgS (kindName (n_Kind (si_Node inp)))]))"

definition startedPayload :: "NodeAttempt \<Rightarrow> WorkflowNode \<Rightarrow> Lease \<Rightarrow> ContextEnvelope \<Rightarrow> string \<Rightarrow> int \<Rightarrow> StartedPayload" where
  "startedPayload a n lease envelope hash now = \<lparr>st_NodeID = n_ID n, st_AttemptID = a_ID a, st_AttemptNo = a_AttemptNo a,
     st_Lease = lease, st_Context = envelope, st_DispatchPayloadHash = hash, st_StartedAt = now, st_ChildPlanID = a_ChildPlanID a\<rparr>"

text \<open>The attempt is finished by the reducer and the completion is committed.\<close>

definition finishStructural ::
  "'w ExecEnv \<Rightarrow> 'w Executor \<Rightarrow> string \<times> string \<Rightarrow> RequirementExecutionPlan \<Rightarrow> string \<Rightarrow> Lease \<Rightarrow> NodeAttempt \<Rightarrow> TransitionInput \<Rightarrow>
     (FinishedPayload \<Rightarrow> payload) \<Rightarrow> ('w \<times> PlanProjection, NodeAttempt) act" where
  "finishStructural env e ctx plan key lease a inp mkFact =
     andThen (onSnd (FinishAttempt (xe_Ambient env) plan (a_ID a) inp)) (\<lambda>fin.
     andThen (withSnd (commitAttemptEvent env e ctx plan fin ''attempt.finished'' (key @ '':finished'')
       (mkFact (finishedPayload (a_ID fin) inp (a_Result fin) fin)) (Some (l_FencingToken lease)))) (\<lambda>_.
     ret fin))"

text \<open>The part of the loop for a human node: its attempt waits for approval.\<close>

definition waitForHuman ::
  "'w ExecEnv \<Rightarrow> 'w Executor \<Rightarrow> string \<times> string \<Rightarrow> RequirementExecutionPlan \<Rightarrow> string \<Rightarrow> Lease \<Rightarrow> int \<Rightarrow> NodeAttempt \<Rightarrow>
     ('w \<times> PlanProjection, NodeAttempt) act" where
  "waitForHuman env e ctx plan key lease now a =
     finishStructural env e ctx plan key lease a
       (finishInput plan (a_ID a) (l_FencingToken lease) ''waiting''
          (zeroResult\<lparr>sr_Outcome := ''approval_pending'', sr_Summary := ''human approval required''\<rparr>) None [] (key @ '':waiting'') now)
       WaitingFact"

text \<open>The part of the loop that decides a gate, merge or repair node and finishes its attempt.\<close>

definition decideStructural ::
  "'w ExecEnv \<Rightarrow> 'w Executor \<Rightarrow> string \<times> string \<Rightarrow> RequirementExecutionPlan \<Rightarrow> WorkflowNode \<Rightarrow> ContextEnvelope \<Rightarrow> string \<Rightarrow> Lease \<Rightarrow> int \<Rightarrow>
     NodeAttempt \<Rightarrow> ('w \<times> PlanProjection, NodeAttempt) act" where
  "decideStructural env e ctx plan n envelope key lease now a =
     andThen (gets snd) (\<lambda>p.
     andThen (onFst (evaluateStructural env e \<lparr>si_Plan = plan, si_Projection = p, si_Node = n, si_Attempt = a, si_Envelope = envelope,
       si_Incoming = incomingStructuralSources plan p (n_ID n)\<rparr>)) (\<lambda>d.
     andThen (ensure (\<not> (sd_Event d = '''' \<or> sr_ReasonCode (sd_Result d) = '''' \<or> sr_EvidenceIDs (sd_Result d) = []))
       (Errorf ''%s node %s returned an incomplete structural decision'' [ArgS (kindName (n_Kind n)), ArgS (n_ID n)])) (\<lambda>_.
     finishStructural env e ctx plan key lease a
       (finishInput plan (a_ID a) (l_FencingToken lease) (sd_Event d) (sd_Result d) (sd_Failure d) (sd_ArtifactIDs d)
          (key @ '':'' @ sr_ReasonCode (sd_Result d)) now)
       FinishedFact)))"

text \<open>The body of the loop of \<open>AdvanceStructural\<close>. Every error after the start of the attempt restores the projection.\<close>

definition advanceNode ::
  "'w ExecEnv \<Rightarrow> 'w Executor \<Rightarrow> string \<times> string \<Rightarrow> RequirementExecutionPlan \<Rightarrow> ContextEnvelope \<Rightarrow> WorkflowNode \<Rightarrow>
     ('w \<times> PlanProjection, NodeAttempt) act" where
  "advanceNode env e ctx plan envelope n =
     andThen (gets snd) (\<lambda>before.
     andThen (onFst (yields (xe_NewID env))) (\<lambda>attemptID.
     andThen (onFst (executorNow env e)) (\<lambda>now.
     let attemptNo = wrap64 (np_AttemptNo (mget0 zeroNodeProjection (p_Nodes before) (n_ID n)) + 1);
         lease = executorLease e plan n now; key = attemptKey plan (n_ID n) attemptNo;
         hash = cd_Sha256 (xe_Codec env) (key @ ce_ReplayKey envelope)
     in andThen (onSnd (StartAttempt (xe_Ambient env) plan (n_ID n) attemptID attemptNo lease envelope
          (startInput plan lease key hash now))) (\<lambda>a.
        restoring before
          (andThen (withSnd (commitAttemptEvent env e ctx plan a ''attempt.started'' key
             (StartedFact (startedPayload a n lease envelope hash now)) None)) (\<lambda>_.
           if n_Kind n = NodeHuman then waitForHuman env e ctx plan key lease now a
           else decideStructural env e ctx plan n envelope key lease now a))))))"

abbreviation providerNode :: "WorkflowNode \<Rightarrow> bool" where
  "providerNode n \<equiv> n_Kind n = NodeAgent \<or> n_Kind n = NodeSquad"

text \<open>The loops return the attempts they have made together with the error that ends them.\<close>

fun advanceLoop ::
  "'w ExecEnv \<Rightarrow> 'w Executor \<Rightarrow> string \<times> string \<Rightarrow> RequirementExecutionPlan \<Rightarrow> ContextEnvelope \<Rightarrow> int \<Rightarrow> WorkflowNode list \<Rightarrow>
     NodeAttempt list \<Rightarrow> 'w \<times> PlanProjection \<Rightarrow> ('w \<times> PlanProjection) \<times> NodeAttempt list \<times> go_error option" where
  "advanceLoop env e ctx plan envelope limit [] started s = (s, started, None)"
| "advanceLoop env e ctx plan envelope limit (n # ns) started s =
     (if providerNode n \<or> (0 < limit \<and> limit \<le> int (length started)) then
        advanceLoop env e ctx plan envelope limit ns started s
      else case advanceNode env e ctx plan envelope n s of
        (s', Inl err) \<Rightarrow> (s', started, Some err)
      | (s', Inr a) \<Rightarrow> advanceLoop env e ctx plan envelope limit ns (started @ [a]) s')"

definition AdvanceStructural ::
  "'w ExecEnv \<Rightarrow> 'w Executor \<Rightarrow> string \<times> string \<Rightarrow> RequirementExecutionPlan \<Rightarrow> ContextEnvelope \<Rightarrow> int \<Rightarrow> 'w \<times> PlanProjection \<Rightarrow>
     ('w \<times> PlanProjection) \<times> NodeAttempt list \<times> go_error option" where
  "AdvanceStructural env e ctx plan envelope limit s =
     (case am_ValidateContext (xe_Ambient env) envelope of
        Some err \<Rightarrow> (s, [], Some (Wrapf err ''context envelope: ''))
      | None \<Rightarrow>
          (case onFst (executorNow env e) s of
             (s', Inl err) \<Rightarrow> (s', [], Some err)
           | (s', Inr now) \<Rightarrow> advanceLoop env e ctx plan envelope limit (readyNodesAt plan (snd s') now) [] s'))"

end
