(* ===== verification/Orch_Dispatch.thy ===== *)
theory Orch_Dispatch
  imports Orch_Executor
begin

text \<open>
  The dispatch of ready agent and squad nodes to a provider (\<open>dispatchReady\<close> in \<open>executor.go\<close>): a node is resolved, its
  attempt is started and committed, the intent to call the provider is put into the outbox and leased, the provider is
  called, and the run it returns is committed as the binding of the attempt.
\<close>

section \<open>Capabilities\<close>

definition requireProviderCapabilities :: "'w ExecutionProvider option \<Rightarrow> AgentDefinition \<Rightarrow> ('w, unit) act" where
  "requireProviderCapabilities prov agent =
     (let required = x_RequiredCaps (ag_ExecutorBinding agent) in
      if required = [] then ret ()
      else case prov of
        None \<Rightarrow> fails (Errorf ''capability_unavailable: provider is required'' [])
      | Some pv \<Rightarrow>
          andThen (wrapErr (\<lambda>err. Wrapf err ''capability_unavailable: '') (pv_Capabilities pv)) (\<lambda>caps.
          let missing = filter (\<lambda>r. \<not> blank r \<and> \<not> Supports caps r) required in
          ensure (missing = []) (Errorf ''capability_unavailable: missing %s'' (map ArgS missing))))"

definition requireAgentCapabilities :: "'w Executor \<Rightarrow> AgentDefinition \<Rightarrow> ('w, unit) act" where
  "requireAgentCapabilities e agent =
     (case xc_ProviderResolver e of
        None \<Rightarrow> requireProviderCapabilities (xc_Provider e) agent
      | Some resolve \<Rightarrow> andThen (resolve agent) (\<lambda>prov. requireProviderCapabilities prov agent))"

section \<open>Resolving a node\<close>

definition resolveInstructions :: "'w Executor \<Rightarrow> AgentDefinition \<Rightarrow> ('w, string) act" where
  "resolveInstructions e agent = (case xc_InstructionsResolver e of None \<Rightarrow> ret (ag_Instructions agent) | Some f \<Rightarrow> f agent)"

definition resolveAgentNode :: "'w Executor \<Rightarrow> RequirementExecutionPlan \<Rightarrow> WorkflowNode \<Rightarrow> ('w, string \<times> AgentDefinition option) act" where
  "resolveAgentNode e plan n =
     (case (if n_Kind n = NodeAgent then xc_Repository e else None, n_AgentRef n) of
        (Some repo, Some ref) \<Rightarrow>
          andThen (wrapErr (\<lambda>err. Wrapf err (''resolve agent node '' @ n_ID n))
            (reads (rp_GetAgent repo (pl_WorkspaceID plan) (r_ID ref) (r_Revision ref)))) (\<lambda>agent.
          andThen (ensure (ag_Status agent = AgentActive) (Errorf ''agent node %s references non-active agent'' [ArgS (n_ID n)])) (\<lambda>_.
          andThen (ensure (CanInvoke agent (xc_InvokerID e))
            (Errorf ''agent node %s access denied for member %q'' [ArgS (n_ID n), ArgS (xc_InvokerID e)])) (\<lambda>_.
          andThen (wrapErr (\<lambda>err. Wrapf err (''agent node '' @ n_ID n)) (requireAgentCapabilities e agent)) (\<lambda>_.
          andThen (wrapErr (\<lambda>err. Wrapf err (''resolve agent node instructions '' @ n_ID n)) (resolveInstructions e agent)) (\<lambda>text.
          ret (text, Some agent))))))
      | _ \<Rightarrow> ret ('''', None))"

definition resolveSquadNode :: "'w Executor \<Rightarrow> RequirementExecutionPlan \<Rightarrow> WorkflowNode \<Rightarrow> ('w, SquadDefinition option) act" where
  "resolveSquadNode e plan n =
     (if n_Kind n \<noteq> NodeSquad then ret None
      else case (xc_Repository e, n_SquadRef n) of
        (Some repo, Some ref) \<Rightarrow>
          andThen (wrapErr (\<lambda>err. Wrapf err (''resolve squad node '' @ n_ID n))
            (reads (rp_GetSquad repo (pl_WorkspaceID plan) (r_ID ref) (r_Revision ref)))) (\<lambda>squad.
          andThen (ensure (sq_Status squad = SquadPublished) (Errorf ''squad node %s references non-published squad'' [ArgS (n_ID n)])) (\<lambda>_.
          andThen (ensure (length (filter sm_Leader (sq_Members squad)) = 1)
            (Errorf ''squad node %s squad must have exactly one leader'' [ArgS (n_ID n)])) (\<lambda>_.
          ret (Some squad))))
      | _ \<Rightarrow> fails (Errorf ''squad node %s requires a repository and squad_ref'' [ArgS (n_ID n)]))"

abbreviation contracted :: "'w Executor \<Rightarrow> WorkflowNode \<Rightarrow> bool" where
  "contracted e n \<equiv> xc_Repository e \<noteq> None \<or> n_Kind n = NodeSquad"

record resolved =
  rs_Instructions :: string
  rs_Agent :: "AgentDefinition option"
  rs_Squad :: "SquadDefinition option"
  rs_Envelope :: ContextEnvelope

definition resolveNode ::
  "'w ExecEnv \<Rightarrow> 'w Executor \<Rightarrow> RequirementExecutionPlan \<Rightarrow> ContextEnvelope \<Rightarrow> string \<Rightarrow> WorkflowNode \<Rightarrow> ('w, resolved) act" where
  "resolveNode env e plan envelope agentBindingID n =
     andThen (resolveAgentNode e plan n) (\<lambda>(text, agent).
     andThen (resolveSquadNode e plan n) (\<lambda>squad.
     andThen (reads (\<lambda>_. if contracted e n then xe_NodeEnvelope env envelope plan n agentBindingID text else Inr envelope)) (\<lambda>c.
     ret \<lparr>rs_Instructions = text, rs_Agent = agent, rs_Squad = squad, rs_Envelope = c\<rparr>)))"

section \<open>Nested squads\<close>

definition nestedPlan :: "RequirementExecutionPlan \<Rightarrow> NodeAttempt \<Rightarrow> SquadDefinition \<Rightarrow> int \<Rightarrow> RequirementExecutionPlan" where
  "nestedPlan parent a squad created =
     \<lparr>pl_ID = pl_ID parent @ ''/squad/'' @ a_ID a, pl_RequirementID = pl_RequirementID parent, pl_WorkspaceID = pl_WorkspaceID parent,
      pl_GraphSnapshot = sq_Graph squad,
      pl_SelectedRef = \<lparr>r_ID = sq_ID squad, r_Revision = sq_Revision squad, r_Version = sq_PublishedVersion squad\<rparr>,
      pl_PolicySnapshot = \<lparr>ps_Digest = ps_Digest (pl_PolicySnapshot parent), ps_ToolPolicy = sp_ToolPolicy (sq_Policy squad),
        ps_Budget = sp_Budget (sq_Policy squad), ps_CapturedAt = created\<rparr>,
      pl_ContextRoot = pl_ContextRoot parent, pl_PlanHash = '''', pl_Status = PlanDraft, pl_Revision = 0,
      pl_IdempotencyKey = pl_ID parent @ '':'' @ a_ID a @ '':nested'', pl_Deadline = pl_Deadline parent, pl_CreatedAt = created,
      pl_ParentPlanID = pl_ID parent, pl_ParentAttemptID = a_ID a\<rparr>"

definition childOf :: "RequirementExecutionPlan \<Rightarrow> NodeAttempt \<Rightarrow> RequirementExecutionPlan \<Rightarrow> bool" where
  "childOf parent a child \<longleftrightarrow> pl_ParentPlanID child = pl_ID parent \<and> pl_ParentAttemptID child = a_ID a"

text \<open>The plan is already there with the right parents: a competing worker has created it.\<close>

definition nestedExists :: "'w RepositoryPort \<Rightarrow> RequirementExecutionPlan \<Rightarrow> NodeAttempt \<Rightarrow> string \<Rightarrow> 'w \<Rightarrow> bool" where
  "nestedExists repo parent a childID w =
     (case rp_GetPlan repo (pl_WorkspaceID parent) childID w of Inl _ \<Rightarrow> False | Inr existing \<Rightarrow> childOf parent a existing)"

definition createdNested :: "'w RepositoryPort \<Rightarrow> RequirementExecutionPlan \<Rightarrow> NodeAttempt \<Rightarrow> string \<Rightarrow> ('w, unit) act \<Rightarrow> ('w, bool) act" where
  "createdNested repo parent a childID create =
     andThen (outcome create) (\<lambda>created.
       case created of
         Inr _ \<Rightarrow> ret True
       | Inl err \<Rightarrow>
           andThen (gets (nestedExists repo parent a childID)) (\<lambda>there.
           if there then ret False else fails (Wrapf err ''persist nested squad plan: '')))"

text \<open>Without \<open>CreatePlanWithEvent\<close> the plan, its projection and its event are written one after the other.\<close>

definition createNested ::
  "'w Executor \<Rightarrow> 'w RepositoryPort \<Rightarrow> RequirementExecutionPlan \<Rightarrow> NodeAttempt \<Rightarrow> RequirementExecutionPlan \<Rightarrow> Event \<Rightarrow> ('w, string) act" where
  "createNested e repo parent a frozen ev =
     (case rp_CreatePlanWithEvent repo of
        Some create \<Rightarrow> andThen (createdNested repo parent a (pl_ID frozen) (errOnly (create frozen ev))) (\<lambda>_. ret (pl_ID frozen))
      | None \<Rightarrow>
          andThen (createdNested repo parent a (pl_ID frozen) (errOnly (rp_CreatePlan repo frozen))) (\<lambda>new.
          if \<not> new then ret (pl_ID frozen)
          else
            andThen (reads (\<lambda>_. NewProjection frozen)) (\<lambda>childProjection.
            andThen (wrapErr (\<lambda>err. Wrapf err ''persist nested squad projection: '') (errOnly (rp_SaveProjection repo childProjection))) (\<lambda>_.
            andThen (case eventAppender e of
                None \<Rightarrow> ret ()
              | Some (store, _) \<Rightarrow> wrapErr (\<lambda>err. Wrapf err ''append nested squad plan event: '') (errOnly (es_Append store ev))) (\<lambda>_.
            ret (pl_ID frozen))))))"

definition ensureNestedSquadPlan ::
  "'w ExecEnv \<Rightarrow> 'w Executor \<Rightarrow> string \<times> string \<Rightarrow> RequirementExecutionPlan \<Rightarrow> WorkflowNode \<Rightarrow> NodeAttempt \<Rightarrow> SquadDefinition \<Rightarrow>
     ('w, string) act" where
  "ensureNestedSquadPlan env e ctx parent n a squad =
     (case xc_Repository e of
        None \<Rightarrow> fails (Errorf ''repository is required for nested squad execution'' [])
      | Some repo \<Rightarrow>
          let childID = pl_ID parent @ ''/squad/'' @ a_ID a in
          andThen (gets (rp_GetPlan repo (pl_WorkspaceID parent) childID)) (\<lambda>found.
            case found of
              Inr existing \<Rightarrow>
                if childOf parent a existing then ret childID
                else fails (Errorf ''nested squad plan %s has mismatched parent lineage'' [ArgS childID])
            | Inl _ \<Rightarrow>
                andThen (executorNow env e) (\<lambda>created.
                case Freeze (xe_PlanHash env) (nestedPlan parent a squad created) of
                  (_, Some err) \<Rightarrow> fails (Wrapf err (''freeze nested squad plan '' @ n_ID n))
                | (frozen, None) \<Rightarrow>
                    andThen (freshEvent env ctx None (pl_ID frozen) (pl_WorkspaceID frozen) ''plan.created'' (pl_IdempotencyKey frozen)
                      (PlanFact frozen)) (\<lambda>ev.
                    createNested e repo parent a frozen ev))))"

section \<open>Reserving the attempt\<close>

definition commitStarted ::
  "'w ExecEnv \<Rightarrow> 'w Executor \<Rightarrow> string \<times> string \<Rightarrow> RequirementExecutionPlan \<Rightarrow> (PlanProjection \<Rightarrow> 'w \<Rightarrow> 'w \<times> go_error option) option \<Rightarrow>
     string \<Rightarrow> StartedPayload \<Rightarrow> PlanProjection \<Rightarrow> ('w, unit) act" where
  "commitStarted env e ctx plan projectionStore key started p =
     (case eventAppender e of
        Some (store, list) \<Rightarrow>
          andThen (nextEvent env ctx list (pl_ID plan) (pl_WorkspaceID plan) ''attempt.started'' key (StartedWithChild started)) (\<lambda>ev0.
          let ev = sealedEvent (xe_Codec env) (ev0\<lparr>ev_FencingToken := l_FencingToken (st_Lease started)\<rparr>) in
          case es_Commit store of
            Some f \<Rightarrow> wrapErr (\<lambda>err. Wrapf err ''commit attempt.started projection: '') (errOnly (f ev p))
          | None \<Rightarrow> wrapErr (\<lambda>err. Wrapf err ''append attempt.started: '') (appendWithTail env store list ev))
      | None \<Rightarrow>
          (case projectionStore of
             Some f \<Rightarrow> wrapErr (\<lambda>err. Wrapf err ''persist attempt projection: '') (errOnly (f p))
           | None \<Rightarrow> ret ()))"

definition dispatchLease :: "'w Executor \<Rightarrow> RequirementExecutionPlan \<Rightarrow> WorkflowNode \<Rightarrow> int \<Rightarrow> Lease" where
  "dispatchLease e plan n now =
     (let lease = executorLease e plan n now in
      if \<not> IsZero (pl_Deadline plan) \<and> pl_Deadline plan < l_ExpiresAt lease then lease\<lparr>l_ExpiresAt := pl_Deadline plan\<rparr> else lease)"

text \<open>The child plan of a squad node is part of the attempt before the start is committed.\<close>

definition nestSquad ::
  "'w ExecEnv \<Rightarrow> 'w Executor \<Rightarrow> string \<times> string \<Rightarrow> RequirementExecutionPlan \<Rightarrow> WorkflowNode \<Rightarrow> SquadDefinition option \<Rightarrow> NodeAttempt \<Rightarrow>
     ('w \<times> PlanProjection, NodeAttempt) act" where
  "nestSquad env e ctx plan n squad a =
     (case squad of
        None \<Rightarrow> ret a
      | Some sq \<Rightarrow>
          andThen (onFst (ensureNestedSquadPlan env e ctx plan n a sq)) (\<lambda>childID.
          let a' = a\<lparr>a_ChildPlanID := childID\<rparr> in
          andThen (putSnd (\<lambda>p. p\<lparr>p_Attempts := mput (a_ID a) a' (p_Attempts p)\<rparr>)) (\<lambda>_.
          ret a')))"

record reservation =
  rv_Key :: string
  rv_Lease :: Lease
  rv_Attempt :: NodeAttempt

definition reserveNode ::
  "'w ExecEnv \<Rightarrow> 'w Executor \<Rightarrow> string \<times> string \<Rightarrow> RequirementExecutionPlan \<Rightarrow> (PlanProjection \<Rightarrow> 'w \<Rightarrow> 'w \<times> go_error option) option \<Rightarrow>
     WorkflowNode \<Rightarrow> resolved \<Rightarrow> ('w \<times> PlanProjection, reservation) act" where
  "reserveNode env e ctx plan projectionStore n r =
     andThen (gets snd) (\<lambda>before.
     andThen (onFst (yields (xe_NewID env))) (\<lambda>attemptID.
     andThen (onFst (executorNow env e)) (\<lambda>now.
     let attemptNo = wrap64 (np_AttemptNo (mget0 zeroNodeProjection (p_Nodes before) (n_ID n)) + 1);
         lease = dispatchLease e plan n now; key = attemptKey plan (n_ID n) attemptNo;
         hash = cd_Sha256 (xe_Codec env) (key @ ce_ReplayKey (rs_Envelope r))
     in andThen (onSnd (StartAttempt (xe_Ambient env) plan (n_ID n) attemptID attemptNo lease (rs_Envelope r)
          (startInput plan lease key hash now))) (\<lambda>a0.
        restoring before
          (andThen (nestSquad env e ctx plan n (rs_Squad r) a0) (\<lambda>a.
           andThen (withSnd (commitStarted env e ctx plan projectionStore key (startedPayload a n lease (rs_Envelope r) hash now))) (\<lambda>_.
           ret \<lparr>rv_Key = key, rv_Lease = lease, rv_Attempt = a\<rparr>)))))))"

section \<open>The intent\<close>

definition outboxOf :: "'w Executor \<Rightarrow> 'w outboxStore option" where
  "outboxOf e = (case xc_Events e of None \<Rightarrow> None | Some store \<Rightarrow> es_Outbox store)"

definition outboxOwner :: "'w Executor \<Rightarrow> string" where
  "outboxOwner e = (if xc_Owner e = '''' then ''executor'' else xc_Owner e)"

definition startIntent ::
  "string \<times> string \<Rightarrow> RequirementExecutionPlan \<Rightarrow> WorkflowNode \<Rightarrow> string \<Rightarrow> string \<Rightarrow> string \<Rightarrow> string \<Rightarrow> OutboxRecord" where
  "startIntent ctx plan n attemptID key workItemID agentBindingID =
     \<lparr>ob_ID = '''', ob_PlanID = pl_ID plan, ob_WorkspaceID = pl_WorkspaceID plan, ob_Kind = ''provider.start'', ob_IdempotencyKey = key,
      ob_TraceParent = fst ctx, ob_TraceState = snd ctx,
      ob_Payload = [(''node_id'', VString (n_ID n)), (''attempt_id'', VString attemptID), (''work_item_id'', VString workItemID),
        (''agent_binding_id'', VString agentBindingID)],
      ob_Status = '''', ob_Owner = '''', ob_LeaseExpiresAt = 0, ob_Attempts = 0, ob_MaxAttempts = 0, ob_LastError = '''', ob_CreatedAt = 0,
      ob_UpdatedAt = 0\<rparr>"

definition claimIntent :: "'w ExecEnv \<Rightarrow> 'w Executor \<Rightarrow> OutboxRecord \<Rightarrow> ('w, OutboxRecord option) act" where
  "claimIntent env e intent =
     (case outboxOf e of
        None \<Rightarrow> ret None
      | Some store \<Rightarrow>
          andThen (wrapErr (\<lambda>err. Wrapf err ''enqueue provider.start: '') (op_Enqueue store intent)) (\<lambda>(outbox, _).
          andThen (yields (xe_Clock env)) (\<lambda>now.
          andThen (wrapErr (\<lambda>err. Wrapf err ''claim provider.start outbox: '')
            (op_ClaimByID store (ob_ID outbox) (outboxOwner e) (15 * minute) now)) (\<lambda>_.
          ret (Some outbox)))))"

definition ackIntent :: "'w ExecEnv \<Rightarrow> 'w Executor \<Rightarrow> OutboxRecord option \<Rightarrow> string option \<Rightarrow> ('w, unit) act" where
  "ackIntent env e outbox deliveryErr =
     (case (outbox, outboxOf e) of
        (Some x, Some store) \<Rightarrow>
          andThen (yields (xe_Clock env)) (\<lambda>now. errOnly (op_Ack store (ob_ID x) (outboxOwner e) now deliveryErr))
      | _ \<Rightarrow> ret ())"

section \<open>The run\<close>

definition leaderOf :: "SquadDefinition \<Rightarrow> SquadMember option" where
  "leaderOf squad = find sm_Leader (sq_Members squad)"

text \<open>The leader of a squad: its agent, the binding and the instructions of the run.\<close>

definition resolveLeader ::
  "'w Executor \<Rightarrow> RequirementExecutionPlan \<Rightarrow> WorkflowNode \<Rightarrow> SquadDefinition option \<Rightarrow> string \<Rightarrow>
     ('w, string \<times> string \<times> AgentDefinition) act" where
  "resolveLeader e plan n squad binding =
     (case (squad, xc_Repository e) of
        (Some sq, Some repo) \<Rightarrow>
          (let leaderID = (case leaderOf sq of None \<Rightarrow> '''' | Some leader \<Rightarrow> sm_AgentID leader) in
           andThen (ensure (\<not> blank leaderID) (Errorf ''squad node %s squad has no leader agent'' [ArgS (n_ID n)])) (\<lambda>_.
           andThen (wrapErr (\<lambda>err. Wrapf err (''resolve squad leader '' @ leaderID))
             (reads (rp_GetAgent repo (pl_WorkspaceID plan) leaderID 0))) (\<lambda>agent.
           andThen (ensure (CanInvoke agent (xc_InvokerID e))
             (Errorf ''squad node %s leader access denied for member %q'' [ArgS (n_ID n), ArgS (xc_InvokerID e)])) (\<lambda>_.
           andThen (wrapErr (\<lambda>err. Wrapf err (''squad node '' @ n_ID n)) (requireAgentCapabilities e agent)) (\<lambda>_.
           andThen (wrapErr (\<lambda>err. Wrapf err (''resolve squad node leader instructions '' @ n_ID n)) (resolveInstructions e agent)) (\<lambda>text.
           ret (if binding = '''' then leaderID else binding, text, agent)))))))
      | _ \<Rightarrow> fails (Errorf ''squad node %s has no resolved squad'' [ArgS (n_ID n)]))"

record 'w runPlan =
  ru_Binding :: string
  ru_Instructions :: string
  ru_Provider :: "'w ExecutionProvider"

definition pickProvider :: "'w Executor \<Rightarrow> AgentDefinition option \<Rightarrow> ('w, 'w ExecutionProvider option) act" where
  "pickProvider e agent =
     (case (agent, xc_ProviderResolver e) of
        (Some a, Some resolve) \<Rightarrow> wrapErr (\<lambda>err. Wrapf err (''resolve provider for agent '' @ ag_ID a)) (resolve a)
      | _ \<Rightarrow> ret (xc_Provider e))"

definition chooseProvider :: "'w Executor \<Rightarrow> string \<Rightarrow> string \<Rightarrow> AgentDefinition option \<Rightarrow> ('w, 'w runPlan) act" where
  "chooseProvider e binding text agent =
     andThen (pickProvider e agent) (\<lambda>prov.
     case prov of
       None \<Rightarrow> fails (Errorf ''provider is required for agent %s'' [ArgS binding])
     | Some pv \<Rightarrow>
         andThen (case agent of
             None \<Rightarrow> ret ()
           | Some a \<Rightarrow> wrapErr (\<lambda>err. Wrapf err (''agent '' @ ag_ID a)) (requireProviderCapabilities prov a)) (\<lambda>_.
         ret \<lparr>ru_Binding = binding, ru_Instructions = text, ru_Provider = pv\<rparr>))"

definition resolveRun ::
  "'w Executor \<Rightarrow> RequirementExecutionPlan \<Rightarrow> WorkflowNode \<Rightarrow> resolved \<Rightarrow> string \<Rightarrow> ('w, 'w runPlan) act" where
  "resolveRun e plan n r agentBindingID =
     (let binding = (case n_AgentRef n of Some ref \<Rightarrow> if agentBindingID = '''' then r_ID ref else agentBindingID | None \<Rightarrow> agentBindingID) in
      if n_Kind n = NodeSquad then
        andThen (resolveLeader e plan n (rs_Squad r) binding) (\<lambda>(binding', text, agent). chooseProvider e binding' text (Some agent))
      else chooseProvider e binding (rs_Instructions r) (rs_Agent r))"

definition resultInstruction :: string where
  "resultInstruction = ''Always finish with one plain-text line exactly in this form: ADRO_RESULT_JSON={'' @ [CHR 0x22] @ ''outcome'' @ [CHR 0x22] @ '':'' @
     [CHR 0x22] @ ''pass|failure|bug'' @ [CHR 0x22] @ '','' @ [CHR 0x22] @ ''reason_code'' @ [CHR 0x22] @ '':'' @ [CHR 0x22] @ ''stable_reason'' @ [CHR 0x22] @
     '','' @ [CHR 0x22] @ ''summary'' @ [CHR 0x22] @ '':'' @ [CHR 0x22] @ ''what happened'' @ [CHR 0x22] @ '','' @ [CHR 0x22] @ ''evidence_ids'' @ [CHR 0x22] @
     '':['' @ [CHR 0x22] @ ''evidence'' @ [CHR 0x22] @ ''],'' @ [CHR 0x22] @ ''fields'' @ [CHR 0x22] @
     '':{}}. Use failure for a failed check, bug for a defect found after a previously passing step, and pass only when the node work is complete.'' @
     [CHR 0x0A, CHR 0x0A]"

definition nodeInput :: "'w ExecEnv \<Rightarrow> ContextEnvelope \<Rightarrow> WorkflowNode \<Rightarrow> int \<Rightarrow> string \<Rightarrow> string \<Rightarrow> string" where
  "nodeInput env envelope n attemptNo binding instructions =
     TrimSpace (''ADRO_GRAPH_NODE_JSON='' @ xe_NodeMetadata env envelope n attemptNo (TrimSpace binding) @ [CHR 0x0A] @
       ''You are executing one immutable ADRO graph attempt. Follow the node contract and the durable context below.'' @ [CHR 0x0A] @
       (if blank instructions then '''' else ''Agent instructions:'' @ [CHR 0x0A] @ TrimSpace instructions @ [CHR 0x0A]) @
       resultInstruction @
       (case xe_RenderPrompt env envelope of
          Inr rendered \<Rightarrow> rendered
        | Inl _ \<Rightarrow> ''[ADRO_PROMPT_MANIFEST_INVALID]'' @
            concat (map (\<lambda>b. CHR 0x0A # b) (filter (\<lambda>b. \<not> blank b) (xe_Blocks env envelope)))))"

definition envelopeInput :: "'w ExecEnv \<Rightarrow> ContextEnvelope \<Rightarrow> string" where
  "envelopeInput env envelope =
     (case xe_Render env envelope of
        Inr rendered \<Rightarrow> rendered
      | Inl _ \<Rightarrow> (case filter (\<lambda>b. \<not> blank b) (xe_Blocks env envelope) of [] \<Rightarrow> '''' | b # bs \<Rightarrow> b @ concat (map (\<lambda>x. CHR 0x0A # x) bs)))"

definition startCommand ::
  "'w ExecEnv \<Rightarrow> 'w Executor \<Rightarrow> RequirementExecutionPlan \<Rightarrow> WorkflowNode \<Rightarrow> string \<Rightarrow> ContextEnvelope \<Rightarrow> reservation \<Rightarrow> string \<Rightarrow> string \<Rightarrow>
     string \<times> string \<Rightarrow> StartRunCommand" where
  "startCommand env e plan n workItemID envelope rv binding text trace =
     \<lparr>rc_PlanID = pl_ID plan, rc_NodeID = n_ID n, rc_AttemptID = a_ID (rv_Attempt rv), rc_WorkItemID = workItemID, rc_AgentBindingID = binding,
      rc_ProviderAssigneeID = '''',
      rc_Input = (if contracted e n then nodeInput env envelope n (a_AttemptNo (rv_Attempt rv)) binding text else envelopeInput env envelope),
      rc_ProviderIssueID = '''', rc_SessionID = cm_SessionID (ce_Manifest envelope), rc_WorkDir = '''', rc_ContextID = '''', rc_ContextVersion = 0,
      rc_ContextEnvelope = envelope, rc_ExpectedRevision = pl_Revision plan, rc_RepairAttempt = 0, rc_LegacyAdapterVersion = '''',
      rc_IdempotencyKey = rv_Key rv, rc_TraceParent = fst trace, rc_TraceState = snd trace\<rparr>"

text \<open>A provider that fails to start a run: the attempt is finished as failed, the intent settled, and the error returned.\<close>

definition failStart ::
  "'w ExecEnv \<Rightarrow> 'w Executor \<Rightarrow> string \<times> string \<Rightarrow> RequirementExecutionPlan \<Rightarrow> reservation \<Rightarrow> OutboxRecord option \<Rightarrow> go_error \<Rightarrow>
     ('w \<times> PlanProjection, NodeAttempt) act" where
  "failStart env e ctx plan rv outbox runErr =
     (let a = rv_Attempt rv;
          failure = finishInput plan '''' (l_FencingToken (rv_Lease rv)) ''failure''
            (zeroResult\<lparr>sr_Outcome := ''failure'', sr_EvidenceIDs := [''provider-dispatch:'' @ a_ID a]\<rparr>)
            (Some \<lparr>f_Code = xe_ErrorCode env runErr, f_Message = xe_ErrorText env runErr, f_Retryable = True\<rparr>) [] '''' 0
      in andThen (wrapErr (\<lambda>err. Wrapf err ''provider failed, finish failed: '') (executorFinishAttempt env e ctx plan (a_ID a) failure)) (\<lambda>_.
         andThen (outcome (onFst (ackIntent env e outbox (Some (xe_ErrorText env runErr))))) (\<lambda>_.
         fails runErr)))"

definition commitBinding ::
  "'w ExecEnv \<Rightarrow> 'w Executor \<Rightarrow> string \<times> string \<Rightarrow> RequirementExecutionPlan \<Rightarrow> (PlanProjection \<Rightarrow> 'w \<Rightarrow> 'w \<times> go_error option) option \<Rightarrow>
     string \<Rightarrow> NodeAttempt \<Rightarrow> PlanProjection \<Rightarrow> ('w, unit) act" where
  "commitBinding env e ctx plan projectionStore key a p =
     (let save = (case projectionStore of
            None \<Rightarrow> ret ()
          | Some f \<Rightarrow> wrapErr (\<lambda>err. Wrapf err ''persist bound attempt projection: '') (errOnly (f p))) in
      case eventAppender e of
        None \<Rightarrow> save
      | Some (store, list) \<Rightarrow>
          andThen (nextEvent env ctx list (pl_ID plan) (pl_WorkspaceID plan) ''attempt.bound'' (key @ '':bound'')
            (BoundWithChild \<lparr>bd_AttemptID = a_ID a, bd_RunID = a_RunID a, bd_SessionID = a_SessionID a, bd_WorkDir = a_WorkDir a,
               bd_ChildPlanID = a_ChildPlanID a\<rparr>)) (\<lambda>ev0.
          let ev = sealedEvent (xe_Codec env)
                 (ev0\<lparr>ev_AttemptID := a_ID a, ev_NodeID := a_NodeID a, ev_FencingToken := l_FencingToken (a_Lease a)\<rparr>) in
          case es_Commit store of
            Some f \<Rightarrow> wrapErr (\<lambda>err. Wrapf err ''commit attempt.bound projection: '') (errOnly (f ev p))
          | None \<Rightarrow>
              andThen (wrapErr (\<lambda>err. Wrapf err ''append attempt.bound: '') (appendWithTail env store list ev)) (\<lambda>_. save)))"

definition boundAttempt :: "NodeAttempt \<Rightarrow> RunBinding \<Rightarrow> PlanProjection \<Rightarrow> NodeAttempt" where
  "boundAttempt a b p = (mget0 a (p_Attempts p) (a_ID a))\<lparr>a_RunID := rb_ID b, a_SessionID := rb_SessionID b, a_WorkDir := rb_WorkDir b\<rparr>"

definition bindRun ::
  "'w ExecEnv \<Rightarrow> 'w Executor \<Rightarrow> string \<times> string \<Rightarrow> RequirementExecutionPlan \<Rightarrow> (PlanProjection \<Rightarrow> 'w \<Rightarrow> 'w \<times> go_error option) option \<Rightarrow>
     reservation \<Rightarrow> OutboxRecord option \<Rightarrow> RunBinding \<Rightarrow> ('w \<times> PlanProjection, NodeAttempt) act" where
  "bindRun env e ctx plan projectionStore rv outbox b =
     andThen (gets (\<lambda>s. boundAttempt (rv_Attempt rv) b (snd s))) (\<lambda>a.
     andThen (putSnd (\<lambda>p. p\<lparr>p_Attempts := mput (a_ID (rv_Attempt rv)) a (p_Attempts p)\<rparr>)) (\<lambda>_.
     andThen (withSnd (commitBinding env e ctx plan projectionStore (rv_Key rv) a)) (\<lambda>_.
     andThen (wrapErr (\<lambda>err. Wrapf err ''ack provider.start outbox: '') (onFst (ackIntent env e outbox None))) (\<lambda>_.
     ret a))))"

definition runAttempt ::
  "'w ExecEnv \<Rightarrow> 'w Executor \<Rightarrow> string \<times> string \<Rightarrow> RequirementExecutionPlan \<Rightarrow> (PlanProjection \<Rightarrow> 'w \<Rightarrow> 'w \<times> go_error option) option \<Rightarrow>
     string \<Rightarrow> string \<Rightarrow> WorkflowNode \<Rightarrow> resolved \<Rightarrow> reservation \<Rightarrow> OutboxRecord option \<Rightarrow> ('w \<times> PlanProjection, NodeAttempt) act" where
  "runAttempt env e ctx plan projectionStore workItemID agentBindingID n r rv outbox =
     andThen (onFst (resolveRun e plan n r agentBindingID)) (\<lambda>ru.
     andThen (onFst (yields (xe_ChildSpan env ctx))) (\<lambda>trace.
     andThen (outcome (onFst (pv_StartRun (ru_Provider ru)
       (startCommand env e plan n workItemID (rs_Envelope r) rv (ru_Binding ru) (ru_Instructions ru) trace)))) (\<lambda>run.
     case run of
       Inl runErr \<Rightarrow> failStart env e ctx plan rv outbox runErr
     | Inr b \<Rightarrow> bindRun env e ctx plan projectionStore rv outbox b)))"

section \<open>The dispatch loop\<close>

definition dispatchNode ::
  "'w ExecEnv \<Rightarrow> 'w Executor \<Rightarrow> string \<times> string \<Rightarrow> RequirementExecutionPlan \<Rightarrow> (PlanProjection \<Rightarrow> 'w \<Rightarrow> 'w \<times> go_error option) option \<Rightarrow>
     ContextEnvelope \<Rightarrow> string \<Rightarrow> string \<Rightarrow> WorkflowNode \<Rightarrow> ('w \<times> PlanProjection, NodeAttempt) act" where
  "dispatchNode env e ctx plan projectionStore envelope workItemID agentBindingID n =
     andThen (gets snd) (\<lambda>before.
     andThen (onFst (resolveNode env e plan envelope agentBindingID n)) (\<lambda>r.
     andThen (reserveNode env e ctx plan projectionStore n r) (\<lambda>rv.
     andThen (restoring before
       (onFst (claimIntent env e (startIntent ctx plan n (a_ID (rv_Attempt rv)) (rv_Key rv) workItemID agentBindingID)))) (\<lambda>outbox.
     runAttempt env e ctx plan projectionStore workItemID agentBindingID n r rv outbox))))"

fun dispatchLoop ::
  "'w ExecEnv \<Rightarrow> 'w Executor \<Rightarrow> string \<times> string \<Rightarrow> RequirementExecutionPlan \<Rightarrow> (PlanProjection \<Rightarrow> 'w \<Rightarrow> 'w \<times> go_error option) option \<Rightarrow>
     ContextEnvelope \<Rightarrow> string \<Rightarrow> string \<Rightarrow> int \<Rightarrow> WorkflowNode list \<Rightarrow> NodeAttempt list \<Rightarrow> 'w \<times> PlanProjection \<Rightarrow>
     ('w \<times> PlanProjection) \<times> NodeAttempt list \<times> go_error option" where
  "dispatchLoop env e ctx plan ps envelope wi ab limit [] started s = (s, started, None)"
| "dispatchLoop env e ctx plan ps envelope wi ab limit (n # ns) started s =
     (if \<not> providerNode n then dispatchLoop env e ctx plan ps envelope wi ab limit ns started s
      else if 0 < limit \<and> limit \<le> int (length started) then (s, started, None)
      else case dispatchNode env e ctx plan ps envelope wi ab n s of
        (s', Inl err) \<Rightarrow> (s', started, Some err)
      | (s', Inr a) \<Rightarrow> dispatchLoop env e ctx plan ps envelope wi ab limit ns (started @ [a]) s')"

definition dispatchReady ::
  "'w ExecEnv \<Rightarrow> 'w Executor \<Rightarrow> string \<times> string \<Rightarrow> RequirementExecutionPlan \<Rightarrow> ContextEnvelope \<Rightarrow> string \<Rightarrow> string \<Rightarrow> int \<Rightarrow>
     'w \<times> PlanProjection \<Rightarrow> ('w \<times> PlanProjection) \<times> NodeAttempt list \<times> go_error option" where
  "dispatchReady env e ctx plan envelope workItemID agentBindingID limit s =
     (case am_ValidateContext (xe_Ambient env) envelope of
        Some err \<Rightarrow> (s, [], Some (Wrapf err ''context envelope: ''))
      | None \<Rightarrow>
          (case onFst (executorNow env e) s of
             (s', Inl err) \<Rightarrow> (s', [], Some err)
           | (s', Inr now) \<Rightarrow>
               (let ready = readyNodesAt plan (snd s') now in
                if list_ex providerNode ready \<and> xc_Provider e = None \<and> xc_ProviderResolver e = None then
                  (s', [], Some (Errorf ''provider is required for ready agent nodes'' []))
                else if xc_Events e \<noteq> None \<and> eventAppender e = None then
                  (s', [], Some (Errorf ''event store must support append and tail reads'' []))
                else dispatchLoop env e ctx plan (executorSaver e plan (fst s')) envelope workItemID agentBindingID limit ready [] s')))"

definition DispatchReady ::
  "'w ExecEnv \<Rightarrow> 'w Executor \<Rightarrow> string \<times> string \<Rightarrow> RequirementExecutionPlan \<Rightarrow> ContextEnvelope \<Rightarrow> string \<Rightarrow> string \<Rightarrow>
     'w \<times> PlanProjection \<Rightarrow> ('w \<times> PlanProjection) \<times> NodeAttempt list \<times> go_error option" where
  "DispatchReady env e ctx plan envelope workItemID agentBindingID = dispatchReady env e ctx plan envelope workItemID agentBindingID 0"

section \<open>An example\<close>

text \<open>The world is a counter, which gives the time and fresh identifiers; the provider accepts every run.\<close>

definition exProvider :: "nat ExecutionProvider" where
  "exProvider = \<lparr>pv_Capabilities = (\<lambda>n. (n, Inl ErrNotFound)),
     pv_StartRun = (\<lambda>c n. (n + 1, Inr \<lparr>rb_ID = ''run'' @ itoa (int n), rb_ProviderRunID = '''', rb_SessionID = rc_SessionID c, rb_WorkDir = ''/w'',
        rb_ContextID = '''', rb_ContextVersion = 0, rb_SessionReused = False, rb_StartedAt = int n, rb_TraceParent = '''', rb_TraceState = ''''\<rparr>)),
     pv_GetRun = (\<lambda>_ n. (n, Inl ErrNotFound)), pv_CancelRun = (\<lambda>_ n. (n, None))\<rparr>"

definition exExecutor :: "nat Executor" where
  "exExecutor = \<lparr>xc_Provider = Some exProvider, xc_ProviderResolver = None, xc_InstructionsResolver = None, xc_Repository = None,
     xc_Events = None, xc_GateEvaluator = None, xc_MergeReducer = None, xc_RepairController = None, xc_Owner = ''w'', xc_InvokerID = '''',
     xc_Now = None, xc_LeaseTTL = 0\<rparr>"

definition exExecEnv :: "nat ExecEnv" where
  "exExecEnv = \<lparr>xe_Ambient = exAmbient, xe_Codec = exCodec, xe_Clock = (\<lambda>n. (n + 1, int n)), xe_NewID = (\<lambda>n. (n + 1, ''id'' @ itoa (int n))),
     xe_Encode = (\<lambda>_. Inr ''{}''), xe_PlanHash = (\<lambda>_. Inr ''h''), xe_EncodeField = (\<lambda>_. ''''), xe_DecisionHex = (\<lambda>_ _ _. ''''),
     xe_ErrorText = (\<lambda>_. ''error''), xe_ErrorCode = (\<lambda>_. ''code''), xe_NodeEnvelope = (\<lambda>c _ _ _ _. Inr c), xe_NodeMetadata = (\<lambda>_ _ _ _. ''{}''),
     xe_RenderPrompt = (\<lambda>_. Inr ''prompt''), xe_Render = (\<lambda>_. Inr ''prompt''), xe_Blocks = (\<lambda>_. []), xe_ChildSpan = (\<lambda>c n. (n, c))\<rparr>"

definition exLine :: RequirementExecutionPlan where
  "exLine = exPlan\<lparr>pl_GraphSnapshot := exGraph\<lparr>g_Nodes := [exImpl, exNode ''qa'' NodeAgent], g_Edges := [exEdge ''e1'' ''impl'' ''qa'' EdgeSuccess 0]\<rparr>\<rparr>"

end
