(* ===== verification/Orch_Durable.thy ===== *)
theory Orch_Durable
  imports Orch_Dispatch Orch_RepoMachine
begin

text \<open>
  The executor on a durable store. The locale \<open>executor_store\<close> states what the executor relies on: a committed event
  brings its projection into the store, an intent is found under the ID the store gave it, a claim leases it, and clocks,
  resolvers and controllers leave the store alone. Its lemmas follow a dispatch through its calls: when the provider is
  called, the attempt and its leased intent are in the store; when an operation reports success, the projection in memory
  is the stored one. The locale is interpreted on the repository of \<open>repository.go\<close>, whose writes may fail at any time.
\<close>

section \<open>The contract\<close>

text \<open>The intent of a command: same plan, key and attempt.\<close>

definition intended :: "OutboxRecord \<Rightarrow> StartRunCommand \<Rightarrow> bool" where
  "intended x c \<longleftrightarrow> ob_Kind x = ''provider.start'' \<and> ob_PlanID x = rc_PlanID c \<and> ob_IdempotencyKey x = rc_IdempotencyKey c \<and>
     mget (ob_Payload x) ''node_id'' = Some (VString (rc_NodeID c)) \<and>
     mget (ob_Payload x) ''attempt_id'' = Some (VString (rc_AttemptID c))"

text \<open>The attempt of a command is part of a projection.\<close>

definition reserved :: "PlanProjection \<Rightarrow> string \<Rightarrow> string \<Rightarrow> bool" where
  "reserved p attemptID key \<longleftrightarrow> (\<exists>a\<in>set (mvals (p_Attempts p)). a_ID a = attemptID \<and> a_IdempotencyKey a = key)"

locale executor_store =
  fixes env :: "'w ExecEnv" and e :: "'w Executor" and view :: "'w \<Rightarrow> 'v" and ok :: "'v \<Rightarrow> bool"
    and stored :: "'v \<Rightarrow> string \<Rightarrow> PlanProjection option" and filedAs :: "'v \<Rightarrow> OutboxRecord \<Rightarrow> OutboxRecord \<Rightarrow> bool"
    and leased :: "'v \<Rightarrow> string \<Rightarrow> OutboxRecord \<Rightarrow> bool" and provider_ok :: "'w ExecutionProvider \<Rightarrow> bool"
    and store :: "'w EventStore" and tail :: "string \<Rightarrow> int \<Rightarrow> 'w \<Rightarrow> Event list"
    and committer :: "Event \<Rightarrow> PlanProjection \<Rightarrow> 'w \<Rightarrow> 'w \<times> go_error option" and outbox :: "'w outboxStore"
    and repo :: "'w RepositoryPort" and creator :: "RequirementExecutionPlan \<Rightarrow> Event \<Rightarrow> 'w \<Rightarrow> 'w \<times> go_error option"
  assumes parts: "xc_Events e = Some store" "es_List store = Some tail" "es_Commit store = Some committer"
      "es_Outbox store = Some outbox" "xc_Repository e = Some repo" "rp_CreatePlanWithEvent repo = Some creator"
    and clock_view: "view (fst (xe_Clock env w)) = view w" and newID_view: "view (fst (xe_NewID env w)) = view w"
    and span_view: "view (fst (xe_ChildSpan env c w)) = view w" and now_view: "xc_Now e = Some now \<Longrightarrow> view (fst (now w)) = view w"
    and instructions_quiet: "xc_InstructionsResolver e = Some instr \<Longrightarrow> quiet view (instr agent)"
    and controllers_quiet: "f \<in> set_option (xc_GateEvaluator e) \<union> set_option (xc_MergeReducer e) \<union> set_option (xc_RepairController e) \<Longrightarrow>
      quiet view (f inp)"
    and resolver_quiet: "xc_ProviderResolver e = Some f' \<Longrightarrow> quiet view (f' agent)"
    and resolver_ok: "xc_ProviderResolver e = Some f' \<Longrightarrow> returns (f' agent) (\<lambda>p. \<forall>pv. p = Some pv \<longrightarrow> provider_ok pv)"
    and provider: "xc_Provider e = Some pv \<Longrightarrow> provider_ok pv"
    and capabilities_quiet: "provider_ok pv \<Longrightarrow> quiet view (pv_Capabilities pv)"
    and start_run: "provider_ok pv \<Longrightarrow> intended x cmd \<Longrightarrow> reserved q (rc_AttemptID cmd) (rc_IdempotencyKey cmd) \<Longrightarrow>
      validE (\<lambda>w. ok (view w) \<and> stored (view w) (rc_PlanID cmd) = Some q \<and> leased (view w) (outboxOwner e) x) (pv_StartRun pv cmd)
        (\<lambda>_ w. ok (view w) \<and> stored (view w) (rc_PlanID cmd) = Some q) (\<lambda>w. ok (view w) \<and> stored (view w) (rc_PlanID cmd) = Some q)"
    and commit_event: "validE (\<lambda>w. ok (view w)) (errOnly (committer ev p))
      (\<lambda>_ w. ok (view w) \<and> stored (view w) (ev_PlanID ev) = Some p) (\<lambda>w. ok (view w))"
    and enqueue: "ob_ID x = '''' \<Longrightarrow> validE (\<lambda>w. ok (view w) \<and> stored (view w) k = q') (op_Enqueue outbox x)
      (\<lambda>r w. ok (view w) \<and> stored (view w) k = q' \<and> filedAs (view w) x (fst r)) (\<lambda>w. ok (view w))"
    and claim: "validE (\<lambda>w. ok (view w) \<and> stored (view w) k = q' \<and> filedAs (view w) x y) (op_ClaimByID outbox (ob_ID y) owner ttl t)
      (\<lambda>_ w. ok (view w) \<and> stored (view w) k = q' \<and> leased (view w) owner x) (\<lambda>w. ok (view w))"
    and ack: "validE (\<lambda>w. ok (view w) \<and> stored (view w) k = q') (errOnly (op_Ack outbox i owner t res))
      (\<lambda>_ w. ok (view w) \<and> stored (view w) k = q') (\<lambda>w. ok (view w) \<and> stored (view w) k = q')"
    and create: "validE (\<lambda>w. ok (view w)) (errOnly (creator child ev)) (\<lambda>_ w. ok (view w)) (\<lambda>w. ok (view w))"
begin

lemma appender: "eventAppender e = Some (store, tail)"
  by (simp add: eventAppender_def parts)

lemma outboxOf_e: "outboxOf e = Some outbox"
  by (simp add: outboxOf_def parts)

lemma yields_quiet: "quiet view (yields (xe_Clock env))" "quiet view (yields (xe_NewID env))" "quiet view (yields (xe_ChildSpan env c))"
  by (simp_all add: quiet clock_view newID_view span_view)

lemma executorNow_quiet: "quiet view (executorNow env e)"
  unfolding executorNow_def by (rule quiet_yields) (simp add: clock_view now_view split: option.splits)

lemma freshEvent_quiet: "quiet view (freshEvent env ctx previous planID ws typ key body)"
  unfolding freshEvent_def by (intro quiet yields_quiet)

lemma nextEvent_quiet: "quiet view (nextEvent env ctx l planID ws typ key body)"
  unfolding nextEvent_def by (intro quiet freshEvent_quiet)

lemma requireProviderCapabilities_quiet:
  "(\<And>pv. prov = Some pv \<Longrightarrow> provider_ok pv) \<Longrightarrow> quiet view (requireProviderCapabilities prov agent)"
  unfolding requireProviderCapabilities_def Let_def by (intro quiet capabilities_quiet) simp_all

lemma requireAgentCapabilities_quiet: "quiet view (requireAgentCapabilities e agent)"
proof (cases "xc_ProviderResolver e")
  case None
  then show ?thesis unfolding requireAgentCapabilities_def
    by (simp add: requireProviderCapabilities_quiet provider)
next
  case (Some f)
  have "quiet view (andThen (f agent) (\<lambda>prov. requireProviderCapabilities prov agent))"
    by (rule quiet_andThen_returns [OF resolver_quiet [OF Some] resolver_ok [OF Some]]) (simp add: requireProviderCapabilities_quiet)
  then show ?thesis by (simp add: requireAgentCapabilities_def Some)
qed

lemma resolveInstructions_quiet: "quiet view (resolveInstructions e agent)"
  unfolding resolveInstructions_def by (intro quiet instructions_quiet)

lemmas resolve_quiet = requireAgentCapabilities_quiet resolveInstructions_quiet executorNow_quiet freshEvent_quiet nextEvent_quiet

lemma resolveNode_quiet: "quiet view (resolveNode env e plan envelope binding n)"
  unfolding resolveNode_def resolveAgentNode_def resolveSquadNode_def by (intro quiet resolve_quiet)

lemma resolveLeader_quiet: "quiet view (resolveLeader e plan n squad binding)"
  unfolding resolveLeader_def Let_def by (intro quiet resolve_quiet)

lemma pickProvider_quiet: "quiet view (pickProvider e agent)"
  unfolding pickProvider_def
  by (cases agent; cases "xc_ProviderResolver e") (simp_all add: quiet resolver_quiet)

lemma pickProvider_ok: "returns (pickProvider e agent) (\<lambda>p. \<forall>pv. p = Some pv \<longrightarrow> provider_ok pv)"
  unfolding pickProvider_def returns_def
  by (cases agent; cases "xc_ProviderResolver e")
    (auto intro!: hoare simp: provider resolver_ok [unfolded returns_def])

lemma chooseProvider_quiet: "quiet view (chooseProvider e binding text agent)"
  unfolding chooseProvider_def
  by (rule quiet_andThen_returns [OF pickProvider_quiet pickProvider_ok]) (auto intro!: quiet requireProviderCapabilities_quiet)

lemma chooseProvider_ok: "returns (chooseProvider e binding text agent) (\<lambda>ru. provider_ok (ru_Provider ru))"
proof -
  have "validE (\<lambda>_. \<forall>pv. prov = Some pv \<longrightarrow> provider_ok pv)
     (case prov of None \<Rightarrow> fails err | Some pv \<Rightarrow> andThen (m pv) (\<lambda>_. ret \<lparr>ru_Binding = binding, ru_Instructions = text, ru_Provider = pv\<rparr>))
     (\<lambda>ru _. provider_ok (ru_Provider ru)) (\<lambda>_. True)" for prov :: "'w ExecutionProvider option" and err and m :: "'w ExecutionProvider \<Rightarrow> ('w, unit) act"
    by (cases prov) (auto simp: validE_def andThen_def ret_def fails_def split: prod.splits sum.splits)
  then show ?thesis unfolding chooseProvider_def returns_def
    by (rule validE_andThen [OF pickProvider_ok [unfolded returns_def]])
qed

lemma resolveRun_quiet: "quiet view (resolveRun e plan n r binding)"
  unfolding resolveRun_def Let_def by (intro quiet resolveLeader_quiet chooseProvider_quiet)

lemma resolveRun_ok: "returns (resolveRun e plan n r binding) (\<lambda>ru. provider_ok (ru_Provider ru))"
  unfolding resolveRun_def Let_def by (auto intro!: returns_andThen chooseProvider_ok)

lemma evaluateStructural_quiet: "quiet view (evaluateStructural env e inp)"
  unfolding evaluateStructural_def 
  by (cases "n_Kind (si_Node inp)"; cases "xc_GateEvaluator e"; cases "xc_MergeReducer e"; cases "xc_RepairController e")
    (simp_all add: quiet controllers_quiet)

lemma freshEvent_plan: "returns (freshEvent env ctx previous planID ws typ key body) (\<lambda>ev. ev_PlanID ev = planID)"
  unfolding freshEvent_def
  by (intro returns_andThen) (auto simp: returns_def validE_def reads_def NewEvent_def Let_def split: sum.splits if_splits option.splits)

lemma nextEvent_plan: "returns (nextEvent env ctx l planID ws typ key body) (\<lambda>ev. ev_PlanID ev = planID)"
  unfolding nextEvent_def by (intro returns_andThen freshEvent_plan)

section \<open>Commits\<close>

lemma nextEvent_then:
  assumes "\<And>ev. ev_PlanID ev = planID \<Longrightarrow> validE (\<lambda>w. P (view w)) (f ev) Q (\<lambda>w. E (view w))" and "\<And>v. P v \<Longrightarrow> E v"
  shows "validE (\<lambda>w. P (view w)) (andThen (nextEvent env ctx l planID ws typ key body) f) Q (\<lambda>w. E (view w))"
proof (rule validE_andThen)
  show "validE (\<lambda>w. P (view w)) (nextEvent env ctx l planID ws typ key body) (\<lambda>ev w. P (view w) \<and> ev_PlanID ev = planID) (\<lambda>w. E (view w))"
    by (rule validE_weaken [OF validE_returns [OF quiet_validE [OF nextEvent_quiet, where P = P] nextEvent_plan]]) (auto simp: assms(2))
  show "validE (\<lambda>w. P (view w) \<and> ev_PlanID ev = planID) (f ev) Q (\<lambda>w. E (view w))" for ev
    using assms(1) [of ev] by (auto simp: validE_def)
qed

abbreviation committed :: "string \<Rightarrow> PlanProjection \<Rightarrow> 'w \<Rightarrow> bool" where
  "committed k p \<equiv> \<lambda>w. ok (view w) \<and> stored (view w) k = Some p"

lemma commit_at: "ev_PlanID ev = k \<Longrightarrow> validE (\<lambda>w. ok (view w)) (errOnly (committer ev p)) (\<lambda>_. committed k p) (\<lambda>w. ok (view w))"
  using commit_event by blast

lemma commitOrAppend_ok:
  "ev_PlanID ev = k \<Longrightarrow> validE (\<lambda>w. ok (view w)) (commitOrAppend env store l save ev p) (\<lambda>_. committed k p) (\<lambda>w. ok (view w))"
  by (simp add: commitOrAppend_def parts commit_at)

lemma commitAttemptEvent_ok:
  "validE (\<lambda>w. ok (view w)) (commitAttemptEvent env e ctx plan a typ key body fencing p) (\<lambda>_. committed (pl_ID plan) p) (\<lambda>w. ok (view w))"
  by (auto simp: commitAttemptEvent_def parts sealedEvent_def intro!: nextEvent_then commitOrAppend_ok)

lemma commitFinished_ok:
  "validE (\<lambda>w. ok (view w)) (commitFinished env e ctx plan i inp a p) (\<lambda>_. committed (pl_ID plan) p) (\<lambda>w. ok (view w))"
  by (auto simp: commitFinished_def appender sealedEvent_def intro!: nextEvent_then commitOrAppend_ok)

lemma commitStarted_ok:
  "validE (\<lambda>w. ok (view w)) (commitStarted env e ctx plan ps key started p) (\<lambda>_. committed (pl_ID plan) p) (\<lambda>w. ok (view w))"
  by (auto simp: commitStarted_def appender parts sealedEvent_def Let_def intro!: nextEvent_then commit_at validE_wrapErr)

lemma commitBinding_ok:
  "validE (\<lambda>w. ok (view w)) (commitBinding env e ctx plan ps key a p) (\<lambda>_. committed (pl_ID plan) p) (\<lambda>w. ok (view w))"
  by (auto simp: commitBinding_def appender parts sealedEvent_def Let_def intro!: nextEvent_then commit_at validE_wrapErr)

section \<open>Actions on the store and the projection\<close>

abbreviation good :: "'w \<times> PlanProjection \<Rightarrow> bool" where
  "good \<equiv> \<lambda>s. ok (view (fst s))"

abbreviation sync :: "RequirementExecutionPlan \<Rightarrow> 'w \<times> PlanProjection \<Rightarrow> bool" where
  "sync plan \<equiv> \<lambda>s. committed (pl_ID plan) (snd s) (fst s)"

lemma onFst_quiet:
  assumes "quiet view m"
  shows "validE (\<lambda>s. P (view (fst s)) (snd s)) (onFst m) (\<lambda>_ s. P (view (fst s)) (snd s)) (\<lambda>s. P (view (fst s)) (snd s))"
  using quiet_validE [OF assms] by (intro validE_onFst) simp

lemma onFst_quiet_good: "quiet view m \<Longrightarrow> validE good (onFst m) (\<lambda>_. good) good"
  using onFst_quiet [of m "\<lambda>v _. ok v"] .

lemma onSnd_good:
  assumes "\<And>p p' a. m p = (p', Inr a) \<Longrightarrow> R a p'"
  shows "validE good (onSnd m) (\<lambda>a s. good s \<and> R a (snd s)) good"
  using assms by (auto simp: validE_def onSnd_def split: prod.splits sum.splits)

lemma withSnd_commit:
  assumes "\<And>p. validE (\<lambda>w. ok (view w)) (m p) (\<lambda>_. committed (pl_ID plan) p) (\<lambda>w. ok (view w))"
  shows "validE (\<lambda>s. good s \<and> R (snd s)) (withSnd m) (\<lambda>_ s. sync plan s \<and> R (snd s)) good"
  using assms by (fastforce simp: validE_def withSnd_def onFst_def split: prod.splits sum.splits)

lemmas withSnd_commit_good = withSnd_commit [where R = "\<lambda>_. True", simplified]

lemma gets_snd: "validE P (gets f) (\<lambda>_. P) E"
  by (rule validE_gets)

lemma then_ret: "validE P m (\<lambda>_. Q) E \<Longrightarrow> validE P (andThen m (\<lambda>_. ret a)) (\<lambda>_. Q) E"
  by (rule validE_andThen) (auto intro: validE_ret)

lemmas reduce_good = onSnd_good [where R = "\<lambda>_ _. True", simplified]

lemma executorFinishAttempt_ok: "validE good (executorFinishAttempt env e ctx plan i inp) (\<lambda>_. sync plan) good"
proof -
  have commit: "validE good (andThen (restoring old (withSnd (commitFinished env e ctx plan i inp' a))) (\<lambda>_. ret a)) (\<lambda>_. sync plan) good"
    for old inp' a
    by (intro then_ret validE_restoring) (simp add: withSnd_commit_good commitFinished_ok)
  have now: "validE good (if IsZero (in_Now inp) then onFst (executorNow env e) else ret (in_Now inp)) (\<lambda>_. good) good"
    by (intro validE_if onFst_quiet_good executorNow_quiet validE_ret)
  show ?thesis unfolding executorFinishAttempt_def Let_def
    by (rule validE_andThen [OF now], rule validE_andThen [OF gets_snd], rule validE_andThen [OF reduce_good], rule commit)
qed

lemma finishStructural_ok: "validE good (finishStructural env e ctx plan key lease a inp f) (\<lambda>_. sync plan) good"
  unfolding finishStructural_def
  by (intro validE_andThen [where R = "\<lambda>_. good"] then_ret withSnd_commit_good commitAttemptEvent_ok
      reduce_good)

lemma decideStructural_ok: "validE good (decideStructural env e ctx plan n envelope key lease now a) (\<lambda>_. sync plan) good"
  unfolding decideStructural_def
  by (intro validE_andThen [where R = "\<lambda>_. good"] finishStructural_ok onFst_quiet_good evaluateStructural_quiet gets_snd validE_ensure)
    simp

lemma advanceNode_ok: "validE good (advanceNode env e ctx plan envelope n) (\<lambda>_. sync plan) good"
proof -
  have "validE good (restoring before (andThen (withSnd (commitAttemptEvent env e ctx plan a ty key body fencing)) (\<lambda>_.
      if b then waitForHuman env e ctx plan key lease now a else decideStructural env e ctx plan n envelope key lease now a)))
    (\<lambda>_. sync plan) good" for before a ty key body fencing b lease now
    unfolding waitForHuman_def
    by (rule validE_restoring, rule validE_andThen, simp, rule withSnd_commit_good [OF commitAttemptEvent_ok])
      (auto intro!: validE_if intro: validE_weaken [OF finishStructural_ok] validE_weaken [OF decideStructural_ok])
  then show ?thesis unfolding advanceNode_def Let_def
    by (intro validE_andThen [where R = "\<lambda>_. good"] onFst_quiet_good executorNow_quiet yields_quiet gets_snd
        reduce_good)
qed

lemma advanceLoop_ok:
  "advanceLoop env e ctx plan envelope limit ns started s = (s', started', err) \<Longrightarrow> sync plan s \<Longrightarrow>
     good s' \<and> (err = None \<longrightarrow> sync plan s')"
proof (induction ns arbitrary: started s)
  case (Cons n ns)
  show ?case
  proof (cases "providerNode n \<or> 0 < limit \<and> limit \<le> int (length started)")
    case True
    then show ?thesis using Cons.IH [OF _ Cons.prems(2)] Cons.prems(1) by auto
  next
    case False
    obtain s1 r where run: "advanceNode env e ctx plan envelope n s = (s1, r)" by fastforce
    show ?thesis
    proof (cases r)
      case (Inl err)
      then have "good s1" using Cons.prems(2) run validE_Inl [OF advanceNode_ok] by blast
      then show ?thesis using Cons.prems(1) False run Inl by auto
    next
      case (Inr a)
      then have "sync plan s1" using Cons.prems(2) run validE_Inr [OF advanceNode_ok] by blast
      from Cons.IH [OF _ this] show ?thesis using Cons.prems(1) False run Inr by auto
    qed
  qed
qed simp

section \<open>Dispatch\<close>

lemma keeps_ok: "quiet view m \<Longrightarrow> validE (\<lambda>w. ok (view w)) m (\<lambda>_ w. ok (view w)) (\<lambda>w. ok (view w))"
  by (rule quiet_validE)

lemma createNested_ok: "validE (\<lambda>w. ok (view w)) (createNested e repo parent a frozen ev) (\<lambda>_ w. ok (view w)) (\<lambda>w. ok (view w))"
  unfolding createNested_def createdNested_def
  by (auto simp: parts intro!: then_ret validE_andThen [where R = "\<lambda>_ w. ok (view w)"] validE_outcome validE_weaken [OF create] hoare)

lemma ensureNestedSquadPlan_ok:
  "validE (\<lambda>w. ok (view w)) (ensureNestedSquadPlan env e ctx plan n a squad) (\<lambda>_ w. ok (view w)) (\<lambda>w. ok (view w))"
  unfolding ensureNestedSquadPlan_def
  by (auto simp: parts Let_def intro!: validE_andThen [where R = "\<lambda>_ w. ok (view w)"] keeps_ok [OF executorNow_quiet]
      keeps_ok [OF freshEvent_quiet] gets_snd createNested_ok validE_fails validE_ret split: sum.splits prod.splits option.splits)

lemma mput_value: "v \<in> snd ` set (mput k v m)"
  by (induction m) auto

definition holds_attempt :: "string \<Rightarrow> NodeAttempt \<Rightarrow> PlanProjection \<Rightarrow> bool" where
  "holds_attempt key a p \<longleftrightarrow> a \<in> set (mvals (p_Attempts p)) \<and> a_IdempotencyKey a = key"

lemma StartAttempt_holds:
  assumes "StartAttempt am plan nodeID attemptID attemptNo lease c (startInput plan lease key hash now) p = (p', Inr a)"
  shows "holds_attempt key a p'"
  using assms
proof (cases rule: StartAttempt_cases)
  case (fresh a' n no)
  have "a' \<in> set (mvals (p_Attempts (startedState a' n (startInput plan lease key hash now) p)))"
    by (simp add: startedState_def beginNode_def Let_def mput_value)
  moreover have "a_IdempotencyKey a' = key" by (simp add: fresh(2) newAttempt_def startInput_def Let_def split: prod.splits)
  ultimately show ?thesis using fresh by (simp add: holds_attempt_def)
qed (auto simp: holds_attempt_def startInput_def)

lemma nestSquad_ok:
  "validE (\<lambda>s. good s \<and> holds_attempt key a (snd s)) (nestSquad env e ctx plan n squad a)
     (\<lambda>a' s. good s \<and> holds_attempt key a' (snd s)) good"
proof (cases squad)
  case None
  then show ?thesis by (auto simp: nestSquad_def intro: validE_ret)
next
  case (Some sq)
  have "validE (\<lambda>s. good s \<and> a_IdempotencyKey a = key) (onFst (ensureNestedSquadPlan env e ctx plan n a sq))
      (\<lambda>_ s. good s \<and> a_IdempotencyKey a = key) good"
    using ensureNestedSquadPlan_ok [of ctx plan n a sq] by (intro validE_onFst) (fastforce simp: validE_def split: prod.splits sum.splits)
  then have "validE (\<lambda>s. good s \<and> a_IdempotencyKey a = key) (nestSquad env e ctx plan n squad a)
      (\<lambda>a' s. good s \<and> holds_attempt key a' (snd s)) good"
    unfolding nestSquad_def Some option.case Let_def
    by (rule validE_andThen) (auto simp: validE_def andThen_def putSnd_def ret_def holds_attempt_def mput_value)
  then show ?thesis by (rule validE_pre) (auto simp: holds_attempt_def)
qed

lemma reserveNode_ok:
  "validE good (reserveNode env e ctx plan ps n r)
     (\<lambda>rv s. sync plan s \<and> reserved (snd s) (a_ID (rv_Attempt rv)) (rv_Key rv)) good"
proof -
  have commit: "validE (\<lambda>s. good s \<and> holds_attempt key a0 (snd s))
      (restoring before (andThen (nestSquad env e ctx plan n sq a0) (\<lambda>a.
         andThen (withSnd (commitStarted env e ctx plan ps key (f a))) (\<lambda>_. ret \<lparr>rv_Key = key, rv_Lease = lease, rv_Attempt = a\<rparr>))))
      (\<lambda>rv s. sync plan s \<and> reserved (snd s) (a_ID (rv_Attempt rv)) (rv_Key rv)) good" for key a0 before sq f lease
    by (rule validE_restoring, rule validE_andThen, simp, rule nestSquad_ok, rule validE_andThen, simp,
        rule withSnd_commit [OF commitStarted_ok], rule validE_ret) (auto simp: holds_attempt_def reserved_def)
  show ?thesis unfolding reserveNode_def Let_def
    by (rule validE_andThen [OF gets_snd], rule validE_andThen [OF onFst_quiet_good [OF yields_quiet(2)]],
        rule validE_andThen [OF onFst_quiet_good [OF executorNow_quiet]], rule validE_andThen [OF onSnd_good [OF StartAttempt_holds]],
        assumption, rule commit)
qed

lemma claimIntent_ok:
  "ob_ID x = '''' \<Longrightarrow> validE (\<lambda>w. ok (view w) \<and> stored (view w) k = q) (claimIntent env e x)
     (\<lambda>_ w. ok (view w) \<and> stored (view w) k = q \<and> leased (view w) (outboxOwner e) x) (\<lambda>w. ok (view w))"
proof -
  have lease: "validE (\<lambda>w. ok (view w) \<and> stored (view w) k = q \<and> filedAs (view w) x y)
      (andThen (yields (xe_Clock env)) (\<lambda>now.
       andThen (wrapErr h (op_ClaimByID outbox (ob_ID y) (outboxOwner e) ttl now)) (\<lambda>_. ret (Some y))))
      (\<lambda>_ w. ok (view w) \<and> stored (view w) k = q \<and> leased (view w) (outboxOwner e) x) (\<lambda>w. ok (view w))" for y h ttl
    by (rule validE_andThen [where R = "\<lambda>_ w. ok (view w) \<and> stored (view w) k = q \<and> filedAs (view w) x y"],
        rule validE_weaken [OF quiet_validE [OF yields_quiet(1), where P = "\<lambda>v. ok v \<and> stored v k = q \<and> filedAs v x y"]])
      (auto intro!: then_ret validE_wrapErr claim)
  assume "ob_ID x = ''''"
  then have "validE (\<lambda>w. ok (view w) \<and> stored (view w) k = q) (wrapErr h (op_Enqueue outbox x))
      (\<lambda>r w. ok (view w) \<and> stored (view w) k = q \<and> filedAs (view w) x (fst r)) (\<lambda>w. ok (view w))" for h
    by (intro validE_wrapErr enqueue)
  then show "validE (\<lambda>w. ok (view w) \<and> stored (view w) k = q) (claimIntent env e x)
     (\<lambda>_ w. ok (view w) \<and> stored (view w) k = q \<and> leased (view w) (outboxOwner e) x) (\<lambda>w. ok (view w))" unfolding claimIntent_def outboxOf_e option.case
    by (rule validE_andThen) (auto simp: lease split: prod.splits)
qed

lemma ackIntent_ok:
  "validE (\<lambda>w. ok (view w) \<and> stored (view w) k = q) (ackIntent env e x res)
     (\<lambda>_ w. ok (view w) \<and> stored (view w) k = q) (\<lambda>w. ok (view w) \<and> stored (view w) k = q)"
  unfolding ackIntent_def outboxOf_e
  by (cases x) (auto intro: validE_ret validE_andThen [OF quiet_validE [OF yields_quiet(1), where P = "\<lambda>v. ok v \<and> stored v k = q"] ack])

lemma failStart_ok: "validE good (failStart env e ctx plan rv x err) Q good"
proof -
  have "validE good (outcome (onFst (ackIntent env e x res))) (\<lambda>_. good) good" for res
    using ackIntent_ok [of "pl_ID plan" _ x res] by (intro validE_outcome validE_onFst) (fastforce simp: validE_def split: prod.splits sum.splits)
  then show ?thesis unfolding failStart_def Let_def
    by (intro validE_andThen [where R = "\<lambda>_. good"] validE_wrapErr validE_weaken [OF executorFinishAttempt_ok] validE_fails) auto
qed

lemma bindRun_ok: "validE good (bindRun env e ctx plan ps rv x b) (\<lambda>_. sync plan) good"
proof -
  have "validE (sync plan) (onFst (ackIntent env e x None)) (\<lambda>_. sync plan) good"
    using ackIntent_ok [of "pl_ID plan" _ x None] by (intro validE_onFst) (fastforce simp: validE_def split: prod.splits sum.splits)
  then show ?thesis unfolding bindRun_def
    by (intro validE_andThen [OF gets_snd] validE_andThen [OF validE_putSnd [where Q = "\<lambda>_. good"]]
        validE_andThen [OF withSnd_commit_good [OF commitBinding_ok]] then_ret validE_wrapErr) auto
qed

lemma intended_start:
  "intended (startIntent ctx plan n (a_ID (rv_Attempt rv)) (rv_Key rv) wi ab) (startCommand env e plan n wi envelope rv binding text trace)"
  by (simp add: intended_def startIntent_def startCommand_def)

lemma startIntent_id: "ob_ID (startIntent ctx plan n i key wi ab) = ''''"
  by (simp add: startIntent_def)

text \<open>When the provider is called, the attempt is stored and its intent is leased.\<close>

lemma runAttempt_ok:
  defines "x \<equiv> \<lambda>ctx plan n rv wi ab. startIntent ctx plan n (a_ID (rv_Attempt rv)) (rv_Key rv) wi ab"
  shows "validE (\<lambda>s. sync plan s \<and> reserved (snd s) (a_ID (rv_Attempt rv)) (rv_Key rv) \<and>
       leased (view (fst s)) (outboxOwner e) (x ctx plan n rv wi ab))
     (runAttempt env e ctx plan ps wi ab n r rv y) (\<lambda>_. sync plan) good"
proof -
  let ?P = "\<lambda>v p. ok v \<and> stored v (pl_ID plan) = Some p \<and> reserved p (a_ID (rv_Attempt rv)) (rv_Key rv) \<and>
    leased v (outboxOwner e) (x ctx plan n rv wi ab)"
  let ?S = "\<lambda>s. ?P (view (fst s)) (snd s)"
  have start: "validE ?S (outcome (onFst (pv_StartRun pv (startCommand env e plan n wi c rv b t trace)))) (\<lambda>_. good) good"
    if "provider_ok pv" for pv c b t trace
  proof (intro validE_outcome validE_onFst)
    fix p
    let ?cmd = "startCommand env e plan n wi c rv b t trace"
    have cmd: "rc_PlanID ?cmd = pl_ID plan" "rc_AttemptID ?cmd = a_ID (rv_Attempt rv)" "rc_IdempotencyKey ?cmd = rv_Key rv"
      by (simp_all add: startCommand_def)
    show "validE (\<lambda>w. ?S (w, p)) (pv_StartRun pv ?cmd) (\<lambda>_ w. good (w, p)) (\<lambda>w. \<forall>err. good (w, p))"
    proof (cases "reserved p (a_ID (rv_Attempt rv)) (rv_Key rv)")
      case True
      have "intended (x ctx plan n rv wi ab) ?cmd" unfolding x_def by (rule intended_start)
      from start_run [OF that this, of p] True show ?thesis unfolding cmd by (auto intro: validE_weaken)
    qed (simp add: validE_def)
  qed
  have run: "validE ?S (onFst (resolveRun e plan n r ab)) (\<lambda>ru s. ?S s \<and> provider_ok (ru_Provider ru)) good"
  proof -
    have "returns (onFst (resolveRun e plan n r ab)) (\<lambda>ru. provider_ok (ru_Provider ru))"
      using returns_result [OF resolveRun_ok] unfolding returns_def validE_def onFst_def by (auto split: prod.splits sum.splits)
    from validE_returns [OF onFst_quiet [OF resolveRun_quiet, of ?P] this] show ?thesis by (rule validE_weaken) auto
  qed
  have trace: "validE (\<lambda>s. ?S s \<and> provider_ok pv) (onFst (yields (xe_ChildSpan env ctx))) (\<lambda>_ s. ?S s \<and> provider_ok pv) good" for pv
    by (rule validE_weaken [OF onFst_quiet [OF yields_quiet(3), of "\<lambda>v p. ?P v p \<and> provider_ok pv"]]) auto
  have call: "validE (\<lambda>s. ?S s \<and> provider_ok pv) (outcome (onFst (pv_StartRun pv (startCommand env e plan n wi c rv b t trace))))
      (\<lambda>_. good) good" for pv c b t trace
    using start [of pv c b t trace] by (cases "provider_ok pv") (auto simp: validE_def)
  show ?thesis unfolding runAttempt_def
    by (rule validE_pre [where P = ?S], rule validE_andThen [OF run], rule validE_andThen [OF trace], rule validE_andThen [OF call])
      (auto intro!: validE_case_sum failStart_ok bindRun_ok)
qed

lemma dispatchNode_ok: "validE good (dispatchNode env e ctx plan ps envelope wi ab n) (\<lambda>_. sync plan) good"
proof -
  have claim: "validE (\<lambda>s. sync plan s \<and> reserved (snd s) i key)
      (restoring before (onFst (claimIntent env e x)))
      (\<lambda>_ s. sync plan s \<and> reserved (snd s) i key \<and> leased (view (fst s)) (outboxOwner e) x) good" if "ob_ID x = ''''" for before x i key
    using claimIntent_ok [OF that, of "pl_ID plan"]
    by (intro validE_restoring validE_onFst) (fastforce simp: validE_def split: prod.splits sum.splits)
  show ?thesis unfolding dispatchNode_def
    by (rule validE_andThen [OF gets_snd], rule validE_andThen [OF onFst_quiet_good [OF resolveNode_quiet]],
        rule validE_andThen [OF reserveNode_ok], rule validE_andThen [OF claim])
      (rule startIntent_id, rule runAttempt_ok)
qed

lemma dispatchLoop_ok:
  "dispatchLoop env e ctx plan ps envelope wi ab limit ns started s = (s', started', err) \<Longrightarrow> sync plan s \<Longrightarrow>
     good s' \<and> (err = None \<longrightarrow> sync plan s')"
proof (induction ns arbitrary: started s)
  case (Cons n ns)
  consider (skip) "\<not> providerNode n" | (full) "providerNode n" "0 < limit \<and> limit \<le> int (length started)"
    | (go) "providerNode n" "\<not> (0 < limit \<and> limit \<le> int (length started))" by blast
  then show ?case
  proof cases
    case skip
    then show ?thesis using Cons.IH [OF _ Cons.prems(2), of started] Cons.prems(1) by auto
  next
    case full
    then show ?thesis using Cons.prems by auto
  next
    case go
    obtain s1 r where run: "dispatchNode env e ctx plan ps envelope wi ab n s = (s1, r)" by fastforce
    show ?thesis
    proof (cases r)
      case (Inl err)
      then have "good s1" using Cons.prems(2) run validE_Inl [OF dispatchNode_ok] by blast
      then show ?thesis using Cons.prems(1) go run Inl by auto
    next
      case (Inr a)
      then have "sync plan s1" using Cons.prems(2) run validE_Inr [OF dispatchNode_ok] by blast
      from Cons.IH [OF _ this] show ?thesis using Cons.prems(1) go run Inr by auto
    qed
  qed
qed simp

lemma now_sync: "onFst (executorNow env e) s = (s1, r) \<Longrightarrow> sync plan s \<Longrightarrow> sync plan s1"
  using onFst_quiet [OF executorNow_quiet, of "\<lambda>v p. ok v \<and> stored v (pl_ID plan) = Some p"]
  by (cases r) (blast dest: validE_Inr validE_Inl)+

lemma dispatchReady_ok:
  assumes "dispatchReady env e ctx plan envelope wi ab limit s = (s', started, err)" and "sync plan s"
  shows "good s' \<and> (err = None \<longrightarrow> sync plan s')"
proof -
  obtain s1 r where now: "onFst (executorNow env e) s = (s1, r)" by fastforce
  have "sync plan s1" using now_sync [OF now assms(2)] .
  then show ?thesis using assms now dispatchLoop_ok
    by (auto simp: dispatchReady_def Let_def split: option.splits sum.splits if_splits)
qed

lemma AdvanceStructural_ok:
  assumes "AdvanceStructural env e ctx plan envelope limit s = (s', started, err)" and "sync plan s"
  shows "good s' \<and> (err = None \<longrightarrow> sync plan s')"
proof -
  obtain s1 r where now: "onFst (executorNow env e) s = (s1, r)" by fastforce
  have "sync plan s1" using now_sync [OF now assms(2)] .
  then show ?thesis using assms now advanceLoop_ok
    by (auto simp: AdvanceStructural_def split: option.splits sum.splits)
qed

end

section \<open>The executor on the memory repository\<close>

text \<open>
  The world of an executor on a \<open>MemoryRepository\<close>: the repository with its file, the rest of the world, and the calls
  of \<open>StartRun\<close> with the repository each call has found. \<open>draw\<close> takes the outcome of a file write and
  two readings of the clock from the rest of the world.
\<close>

record 'x world =
  wd_Repo :: repo
  wd_Rest :: 'x
  wd_Calls :: "(StartRunCommand \<times> MemoryRepository) list"

definition rest :: "('x \<Rightarrow> 'x \<times> 'a) \<Rightarrow> 'x world \<Rightarrow> 'x world \<times> 'a" where
  "rest f w = (case f (wd_Rest w) of (x, a) \<Rightarrow> (w\<lparr>wd_Rest := x\<rparr>, a))"

text \<open>An operation of the repository with the outcome of its write and the time.\<close>

definition repoCall ::
  "('x \<Rightarrow> 'x \<times> io \<times> int \<times> int) \<Rightarrow> (io \<Rightarrow> int \<Rightarrow> int \<Rightarrow> repo \<Rightarrow> repo \<times> 'a) \<Rightarrow> 'x world \<Rightarrow> 'x world \<times> 'a" where
  "repoCall draw f w =
     (case draw (wd_Rest w) of (x, i, nano, t) \<Rightarrow>
      case f i nano t (wd_Repo w) of (s, a) \<Rightarrow> (w\<lparr>wd_Repo := s, wd_Rest := x\<rparr>, a))"

definition memoryOutbox :: "('x \<Rightarrow> 'x \<times> io \<times> int \<times> int) \<Rightarrow> RepoEnv \<Rightarrow> 'x world outboxStore" where
  "memoryOutbox draw r = \<lparr>op_Enqueue = (\<lambda>x. repoCall draw (\<lambda>i nano t. EnqueueOutbox r i nano t x)),
     op_ClaimByID = (\<lambda>k owner ttl now. repoCall draw (\<lambda>i _ t. ClaimOutboxByID r i t k owner ttl now)),
     op_Ack = (\<lambda>k owner now err. repoCall draw (\<lambda>i _ t. AckOutbox r i t k owner now err))\<rparr>"

definition memoryRecovery :: "('x \<Rightarrow> 'x \<times> io \<times> int \<times> int) \<Rightarrow> RepoEnv \<Rightarrow> 'x world outboxRecoveryStore" where
  "memoryRecovery draw r = \<lparr>or_List = (\<lambda>planID status w. ListOutbox r planID status (snd (wd_Repo w))),
     or_ClaimByID = (\<lambda>k owner ttl now. repoCall draw (\<lambda>i _ t. ClaimOutboxByID r i t k owner ttl now)),
     or_Ack = (\<lambda>k owner now err. repoCall draw (\<lambda>i _ t. AckOutbox r i t k owner now err))\<rparr>"

definition memoryEvents :: "('x \<Rightarrow> 'x \<times> io \<times> int \<times> int) \<Rightarrow> RepoEnv \<Rightarrow> 'x world EventStore" where
  "memoryEvents draw r = \<lparr>es_Append = (\<lambda>ev. repoCall draw (\<lambda>i _ t. AppendEvent r i ev)),
     es_List = Some (\<lambda>planID after w. ListEvents r planID after (snd (wd_Repo w))),
     es_Save = Some (\<lambda>p. repoCall draw (\<lambda>i _ t. SaveProjection r i p)),
     es_Commit = Some (\<lambda>ev p. repoCall draw (\<lambda>i _ t. CommitEventProjection r i ev p)),
     es_Outbox = Some (memoryOutbox draw r), es_Recovery = Some (memoryRecovery draw r)\<rparr>"

definition memoryPort :: "('x \<Rightarrow> 'x \<times> io \<times> int \<times> int) \<Rightarrow> RepoEnv \<Rightarrow> 'x world RepositoryPort" where
  "memoryPort draw r = \<lparr>rp_GetAgent = (\<lambda>ws i n w. GetAgent r ws i n (snd (wd_Repo w))),
     rp_GetSquad = (\<lambda>ws i n w. GetSquad r ws i n (snd (wd_Repo w))),
     rp_GetPlan = (\<lambda>ws i w. GetPlan r ws i (snd (wd_Repo w))),
     rp_GetProjection = (\<lambda>i w. GetProjection i (snd (wd_Repo w))),
     rp_SaveProjection = (\<lambda>p. repoCall draw (\<lambda>i _ t. SaveProjection r i p)),
     rp_CreatePlan = (\<lambda>p. repoCall draw (\<lambda>i _ t. CreatePlan r i p)),
     rp_CreatePlanWithEvent = Some (\<lambda>p ev. repoCall draw (\<lambda>i _ t. CreatePlanWithEvent r i p ev)),
     rp_Recovery = Some (memoryRecovery draw r)\<rparr>"

text \<open>A provider of the rest of the world, with its calls of \<open>StartRun\<close> written down.\<close>

definition observed :: "'x ExecutionProvider \<Rightarrow> 'x world ExecutionProvider" where
  "observed pv = \<lparr>pv_Capabilities = rest (pv_Capabilities pv),
     pv_StartRun = (\<lambda>c w. rest (pv_StartRun pv c) (w\<lparr>wd_Calls := wd_Calls w @ [(c, snd (wd_Repo w))]\<rparr>)),
     pv_GetRun = (\<lambda>i. rest (pv_GetRun pv i)), pv_CancelRun = (\<lambda>i. rest (pv_CancelRun pv i))\<rparr>"

definition memoryExecutor :: "('x \<Rightarrow> 'x \<times> io \<times> int \<times> int) \<Rightarrow> RepoEnv \<Rightarrow> 'x Executor \<Rightarrow> 'x world Executor" where
  "memoryExecutor draw r x = \<lparr>xc_Provider = map_option observed (xc_Provider x),
     xc_ProviderResolver = map_option (\<lambda>f a w. apsnd (map_sum id (map_option observed)) (rest (f a) w)) (xc_ProviderResolver x),
     xc_InstructionsResolver = map_option (\<lambda>f a. rest (f a)) (xc_InstructionsResolver x),
     xc_Repository = Some (memoryPort draw r), xc_Events = Some (memoryEvents draw r),
     xc_GateEvaluator = map_option (\<lambda>f i. rest (f i)) (xc_GateEvaluator x),
     xc_MergeReducer = map_option (\<lambda>f i. rest (f i)) (xc_MergeReducer x),
     xc_RepairController = map_option (\<lambda>f i. rest (f i)) (xc_RepairController x),
     xc_Owner = xc_Owner x, xc_InvokerID = xc_InvokerID x, xc_Now = map_option rest (xc_Now x), xc_LeaseTTL = xc_LeaseTTL x\<rparr>"

definition memoryEnv :: "'x ExecEnv \<Rightarrow> 'x world ExecEnv" where
  "memoryEnv x = \<lparr>xe_Ambient = xe_Ambient x, xe_Codec = xe_Codec x, xe_Clock = rest (xe_Clock x), xe_NewID = rest (xe_NewID x),
     xe_Encode = xe_Encode x, xe_PlanHash = xe_PlanHash x, xe_EncodeField = xe_EncodeField x, xe_DecisionHex = xe_DecisionHex x,
     xe_ErrorText = xe_ErrorText x, xe_ErrorCode = xe_ErrorCode x, xe_NodeEnvelope = xe_NodeEnvelope x,
     xe_NodeMetadata = xe_NodeMetadata x, xe_RenderPrompt = xe_RenderPrompt x, xe_Render = xe_Render x, xe_Blocks = xe_Blocks x,
     xe_ChildSpan = (\<lambda>c. rest (xe_ChildSpan x c))\<rparr>"

section \<open>What the memory repository guarantees\<close>

text \<open>Records of the outbox are filed under their IDs, which have no space around them.\<close>

definition outbox_ok :: "MemoryRepository \<Rightarrow> bool" where
  "outbox_ok r \<longleftrightarrow> repo_wf r \<and> (\<forall>i x. mget (mr_outbox r) i = Some x \<longrightarrow> ob_ID x = i \<and> TrimSpace i = i)"

definition intentMatches :: "RepoEnv \<Rightarrow> OutboxRecord \<Rightarrow> OutboxRecord \<Rightarrow> bool" where
  "intentMatches env y x \<longleftrightarrow> ob_Kind y = ob_Kind x \<and> ob_PlanID y = TrimSpace (ob_PlanID x) \<and>
     ob_IdempotencyKey y = TrimSpace (ob_IdempotencyKey x) \<and>
     (ob_Payload y = ob_Payload x \<or> jsonEqual env (ob_Payload y) (ob_Payload x))"

definition filedIntent :: "RepoEnv \<Rightarrow> MemoryRepository \<Rightarrow> OutboxRecord \<Rightarrow> OutboxRecord \<Rightarrow> bool" where
  "filedIntent env r x y \<longleftrightarrow> (\<exists>z. mget (mr_outbox r) (TrimSpace (ob_ID y)) = Some z \<and> intentMatches env z x)"

definition leasedIntent :: "RepoEnv \<Rightarrow> MemoryRepository \<Rightarrow> string \<Rightarrow> OutboxRecord \<Rightarrow> bool" where
  "leasedIntent env r owner x \<longleftrightarrow>
     (\<exists>i y. mget (mr_outbox r) i = Some y \<and> intentMatches env y x \<and> ob_Status y = ''leased'' \<and> ob_Owner y = owner)"

definition same_outbox :: "MemoryRepository \<Rightarrow> MemoryRepository \<Rightarrow> bool" where
  "same_outbox r r' \<longleftrightarrow> mget (mr_outbox r') = mget (mr_outbox r) \<and> (repo_wf r \<longrightarrow> repo_wf r')"

lemma same_outbox_ok: "same_outbox r r' \<Longrightarrow> outbox_ok r \<Longrightarrow> outbox_ok r'"
  by (simp add: outbox_ok_def same_outbox_def)

lemma same_outbox_trans: "same_outbox r r1 \<Longrightarrow> same_outbox r1 r2 \<Longrightarrow> same_outbox r r2"
  by (simp add: same_outbox_def)

lemma same_view_intents: "same_view r r' \<Longrightarrow> same_outbox r r'"
  by (simp add: same_outbox_def same_view_def viewOf_def)

lemma outbox_ok_filed: "outbox_ok r \<Longrightarrow> filed r"
  by (simp add: outbox_ok_def filed_def)

lemma outbox_ok_put: "outbox_ok r \<Longrightarrow> TrimSpace (ob_ID x) = ob_ID x \<Longrightarrow> outbox_ok (r\<lparr>mr_outbox := mput (ob_ID x) x (mr_outbox r)\<rparr>)"
  by (auto simp: outbox_ok_def repo_wf_def)

lemma CommitEventProjection_stored:
  assumes "CommitEventProjection env i ev p (d, r) = ((d', r'), res)" and "outbox_ok r"
  shows "outbox_ok r'" and "res = None \<Longrightarrow> mget (mr_projections r') (ev_PlanID ev) = Some p"
proof -
  have plan: "ev_PlanID ev = p_PlanID p" if "commitChecks ev p r = None" using that by (auto simp: commitChecks_def check_simps)
  have "outbox_ok r' \<and> (res = None \<longrightarrow> mget (mr_projections r') (ev_PlanID ev) = Some p)"
    using assms(1)
  proof (cases rule: CommitEventProjection_cases)
    case refused
    then show ?thesis using assms(2) same_outbox_ok same_view_intents by blast
  next
    case (replayed old)
    let ?r = "r\<lparr>mr_projections := mput (p_PlanID p) p (mr_projections r)\<rparr>"
    have "same_outbox r ?r" by (simp add: same_outbox_def repo_wf_def)
    then show ?thesis using assms(2) replayed(2,6) plan same_outbox_ok same_view_intents [OF replayed(6)]
      by (auto simp: same_view_def viewOf_def)
  next
    case committed
    let ?r = "(logged env ev r)\<lparr>mr_projections := mput (p_PlanID p) p (mr_projections r)\<rparr>"
    have "same_outbox r ?r" by (simp add: same_outbox_def repo_wf_def logged_def Let_def)
    then show ?thesis using assms(2) committed(2,4) plan same_outbox_ok same_view_intents [OF committed(4)]
      by (auto simp: same_view_def viewOf_def)
  qed
  then show "outbox_ok r'" and "res = None \<Longrightarrow> mget (mr_projections r') (ev_PlanID ev) = Some p" by auto
qed

lemma commit_outbox:
  assumes "commit env w undo (d, r1) = ((d', r'), res)" and "same_outbox r r1" and "same_outbox r (undo r1)"
  shows "same_outbox r r'"
  using assms(1) by (cases rule: commit_view) (use assms(2,3) same_outbox_trans same_view_intents in blast)+

lemma appendEventLocked_outbox: "appendEventLocked env e r = (r1, res) \<Longrightarrow> same_outbox r r1"
  by (erule appendEventLocked_cases) (auto simp: same_outbox_def repo_wf_def logged_def Let_def)

lemma dropPlan_outbox: "same_outbox r r1 \<Longrightarrow> same_outbox r (dropPlan p before r1)"
  by (auto simp: same_outbox_def dropPlan_def repo_wf_def)

lemma CreatePlanWithEvent_outbox:
  assumes "CreatePlanWithEvent env w p e0 (d, r) = ((d', r'), res)"
  shows "same_outbox r r'"
proof -
  let ?e = "planEvent env p e0"
  have refl: "same_outbox r r" by (simp add: same_outbox_def)
  obtain ra resa where a: "appendEventLocked env ?e r = (ra, resa)" by fastforce
  have retry: "same_outbox r r'" if "retryPlanEvent env w p ?e (d, r) = ((d', r'), res)"
  proof (cases resa)
    case None
    show ?thesis
      by (rule commit_outbox [of env w "\<lambda>r'. r'\<lparr>mr_events := mput (pl_ID p) (mget0 [] (mr_events r) (pl_ID p)) (mr_events r'),
            mr_dirty := mr_dirty r, mr_revision := mr_revision r\<rparr>" d ra])
        (use that a None appendEventLocked_outbox [OF a] in \<open>auto simp: retryPlanEvent_def same_outbox_def repo_wf_def\<close>)
  qed (use that a appendEventLocked_outbox [OF a] in \<open>auto simp: retryPlanEvent_def\<close>)
  have create: "same_outbox r r'"
    if "(case appendEventLocked env ?e (planned p q r) of
          (r1, Some err) \<Rightarrow> ((d, dropPlan p r r1), Some err)
        | (r1, None) \<Rightarrow> commit env w (\<lambda>r'. dropPlan p r (r'\<lparr>mr_events := mdel (pl_ID p) (mr_events r')\<rparr>)) (d, r1\<lparr>mr_dirty := True\<rparr>)) =
        ((d', r'), res)" for q
  proof -
    obtain r1 res1 where b: "appendEventLocked env ?e (planned p q r) = (r1, res1)" by fastforce
    have "same_outbox r (planned p q r)" by (simp add: same_outbox_def withPlan_def withPlanKey_def repo_wf_def)
    then have r1: "same_outbox r r1" using appendEventLocked_outbox [OF b] same_outbox_trans by blast
    show ?thesis
    proof (cases res1)
      case None
      let ?d = "r1\<lparr>mr_dirty := True\<rparr>"
      let ?undo = "\<lambda>r'. dropPlan p r (r'\<lparr>mr_events := mdel (pl_ID p) (mr_events r')\<rparr>)"
      have c: "commit env w ?undo (d, ?d) = ((d', r'), res)" using that b None by simp
      have "same_outbox r ?d" "same_outbox r (?d\<lparr>mr_events := mdel (pl_ID p) (mr_events ?d)\<rparr>)"
        using r1 by (auto simp: same_outbox_def repo_wf_def)
      from commit_outbox [OF c this(1) dropPlan_outbox [OF this(2)]] show ?thesis .
    qed (use that b dropPlan_outbox [OF r1] in auto)
  qed
  note def = assms [unfolded CreatePlanWithEvent_def Let_def, simplified prod.case]
  show ?thesis
  proof (cases "planChecks env p")
    case (Inl err)
    then show ?thesis using def refl by simp
  next
    case (Inr q)
    show ?thesis
    proof (cases "mget (mr_plans r) (pl_ID p)")
      case None
      then show ?thesis using def Inr refl create [of q] by (simp split: if_splits)
    next
      case (Some existing)
      then show ?thesis using def Inr refl retry by (simp split: if_splits)
    qed
  qed
qed

lemma utoa_plain: "list_all (\<lambda>c. \<not> ascii_space c \<and> (of_char c :: nat) < 128) (utoa n)"
proof (induction n rule: utoa.induct)
  case (1 n)
  have digit: "\<not> ascii_space (char_of (48 + k)) \<and> of_char (char_of (48 + k) :: char) < (128::nat)" if "k < 10" for k :: nat
  proof -
    have "of_char (char_of (48 + k) :: char) = 48 + k" using that by simp
    moreover have "of_char c \<le> (32::nat)" if "ascii_space c" for c using that by (auto simp: ascii_space_def)
    ultimately show ?thesis using that by force
  qed
  show ?case
  proof (cases "n < 10")
    case True
    then show ?thesis using digit [of n] by (simp add: utoa.simps [of n])
  next
    case False
    then show ?thesis using 1 digit [of "n mod 10"] by (simp add: utoa.simps [of n])
  qed
qed

lemma outbox_id: "TrimSpace (''outbox-'' @ itoa n) = ''outbox-'' @ itoa n"
  by (rule TrimSpace_plain) (use utoa_plain in \<open>auto simp: itoa_def ascii_space_def\<close>)

lemma EnqueueOutbox_filed:
  assumes run: "EnqueueOutbox env i nano now x (d, r) = ((d', r'), res)" and ok: "outbox_ok r" and "ob_ID x = ''''"
    and json: "\<And>y. cloneValue (re_Record env) y = y"
  shows "outbox_ok r' \<and> mget (mr_projections r') = mget (mr_projections r) \<and> (\<forall>y b. res = Inr (y, b) \<longrightarrow> filedIntent env r' x y)"
proof -
  let ?t = "trimmedRecord x"
  let ?x = "recordDefaults nano now ?t"
  let ?bad = "ob_PlanID ?t = '''' \<or> ob_WorkspaceID ?t = '''' \<or> ob_IdempotencyKey ?t = '''' \<or> blank (ob_Kind ?t)"
  let ?same = "\<lambda>y. ob_PlanID y = ob_PlanID ?t \<and> ob_IdempotencyKey y = ob_IdempotencyKey ?t"
  let ?undo = "\<lambda>r'. r'\<lparr>mr_outbox := mdel (ob_ID ?x) (mr_outbox r'), mr_dirty := mr_dirty r, mr_revision := mr_revision r\<rparr>"
  let ?r1 = "r\<lparr>mr_outbox := mput (ob_ID ?x) ?x (mr_outbox r), mr_dirty := True\<rparr>"
  have t: "ob_Kind ?t = ob_Kind x" "ob_Payload ?t = ob_Payload x" by (simp_all add: trimmedRecord_def)
  consider (bad) "?bad" | (old) y where "\<not> ?bad" "find ?same (mvals (mr_outbox r)) = Some y"
    | (max) "\<not> ?bad" "find ?same (mvals (mr_outbox r)) = None" "ob_MaxAttempts ?x < 1"
    | (new) "\<not> ?bad" "find ?same (mvals (mr_outbox r)) = None" "\<not> ob_MaxAttempts ?x < 1" by fastforce
  then show ?thesis
  proof cases
    case bad
    then show ?thesis using run ok by (auto simp: EnqueueOutbox_def)
  next
    case (old y)
    then have y: "y \<in> set (mvals (mr_outbox r))" "?same y" by (auto simp: find_Some_iff)
    have wf: "mwf (mr_outbox r)" using ok by (simp add: outbox_ok_def repo_wf_def)
    then obtain k where "mget (mr_outbox r) k = Some y" using y(1) [unfolded mvals_mget [OF wf]] by auto
    then have k: "mget (mr_outbox r) (TrimSpace (ob_ID y)) = Some y" using ok by (auto simp: outbox_ok_def)
    have "filedIntent env r x y" if "jsonEqual env (ob_Payload y) (ob_Payload ?t)" "ob_Kind y = ob_Kind ?t"
      unfolding filedIntent_def using k y(2) that t by (intro exI [of _ y]) (simp add: intentMatches_def trimmedRecord_def)
    then show ?thesis using run ok old by (auto simp: EnqueueOutbox_def Let_def json split: if_splits)
  next
    case max
    then show ?thesis using run ok by (auto simp: EnqueueOutbox_def Let_def)
  next
    case new
    have "ob_ID ?x = ''outbox-'' @ itoa nano" using assms(3) by (simp add: recordDefaults_def trimmedRecord_def Let_def)
    then have trim: "TrimSpace (ob_ID ?x) = ob_ID ?x" by (simp only: outbox_id)
    obtain d1 r1 res1 where c: "commit env i ?undo (d, ?r1) = ((d1, r1), res1)" by (rule nested_pair)
    have res: "d' = d1 \<and> r' = r1 \<and> res = (case res1 of Some e \<Rightarrow> Inl e | None \<Rightarrow> Inr (?x, True))"
      using run new c by (auto simp: EnqueueOutbox_def Let_def json split: option.splits)
    from c show ?thesis
    proof (cases rule: commit_view)
      case (failed e)
      then have "outbox_ok r1" using ok by (auto simp: outbox_ok_def repo_wf_def split: if_splits)
      then show ?thesis using failed res by simp
    next
      case written
      have o: "outbox_ok (r\<lparr>mr_outbox := mput (ob_ID ?x) ?x (mr_outbox r)\<rparr>)"
        by (rule outbox_ok_put [OF ok trim])
      have "mget (mr_outbox r1) (TrimSpace (ob_ID ?x)) = Some ?x"
        using written(2) by (simp add: trim same_view_def viewOf_def)
      moreover have "intentMatches env ?x x" by (simp add: intentMatches_def recordDefaults_def trimmedRecord_def Let_def)
      ultimately have "filedIntent env r1 x ?x" by (auto simp: filedIntent_def)
      moreover have "outbox_ok r1" using same_outbox_ok [OF same_view_intents o] written(2) by simp
      ultimately show ?thesis using written res by (simp add: same_view_def viewOf_def)
    qed
  qed
qed

lemma ClaimOutboxByID_leased:
  assumes run: "ClaimOutboxByID env i clock (ob_ID y) owner ttl now (d, r) = ((d', r'), res)" and ok: "outbox_ok r"
    and "filedIntent env r x y"
  shows "outbox_ok r' \<and> mget (mr_projections r') = mget (mr_projections r) \<and> ((\<exists>z. res = Inr z) \<longrightarrow> leasedIntent env r' owner x)"
proof -
  obtain z where z: "mget (mr_outbox r) (TrimSpace (ob_ID y)) = Some z" "intentMatches env z x" using assms(3) by (auto simp: filedIntent_def)
  let ?now = "if IsZero now then clock else now"
  consider "r' = r" "isl res" | "claimOutboxLocked env i (TrimSpace (ob_ID y)) owner ttl ?now (d, r) = ((d', r'), res)"
    using run by (auto simp: ClaimOutboxByID_def split: if_splits)
  then show ?thesis
  proof cases
    case 1
    then show ?thesis using ok by auto
  next
    case 2
    from 2 outbox_ok_filed [OF ok] show ?thesis
    proof (cases rule: claimOutboxLocked_cases)
      case (unchanged e)
      then show ?thesis using same_outbox_ok [OF same_view_intents ok] by (auto simp: same_view_def viewOf_def)
    next
      case (leased u)
      then have u: "u = z" using z by simp
      let ?c = "claimed owner ttl ?now z"
      have id: "ob_ID ?c = TrimSpace (ob_ID y)" "TrimSpace (ob_ID ?c) = ob_ID ?c" using ok z by (auto simp: outbox_ok_def)
      have "outbox_ok r'" using same_outbox_ok [OF same_view_intents outbox_ok_put [OF ok id(2)]] leased(5) u id(1) by simp
      moreover have "mget (mr_outbox r') (TrimSpace (ob_ID y)) = Some ?c" using leased(5) u by (simp add: same_view_def viewOf_def)
      moreover have "intentMatches env ?c x" using z(2) by (simp add: intentMatches_def claimed_def)
      ultimately show ?thesis using leased(5) by (auto simp: leasedIntent_def same_view_def viewOf_def claimed_def)
    qed
  qed
qed

lemma AckOutbox_kept:
  assumes "AckOutbox env i clock k owner now err (d, r) = ((d', r'), res)" and ok: "outbox_ok r"
  shows "outbox_ok r' \<and> mget (mr_projections r') = mget (mr_projections r)"
  using disjI1 [OF assms(1)] outbox_ok_filed [OF ok]
proof (cases rule: settle_cases)
  case unchanged
  then show ?thesis using same_outbox_ok [OF same_view_intents ok] by (auto simp: same_view_def viewOf_def)
next
  case (settled x y)
  then have id: "ob_ID y = TrimSpace k" "TrimSpace (ob_ID y) = ob_ID y" using ok settledBy_sel [OF settled(3)] by (auto simp: outbox_ok_def)
  show ?thesis using same_outbox_ok [OF same_view_intents outbox_ok_put [OF ok id(2)]] settled(4) id(1)
    by (simp add: same_view_def viewOf_def)
qed

section \<open>The contract holds\<close>

text \<open>A call of \<open>StartRun\<close> that found its attempt stored and its intent leased.\<close>

definition called :: "RepoEnv \<Rightarrow> string \<Rightarrow> StartRunCommand \<Rightarrow> MemoryRepository \<Rightarrow> bool" where
  "called env owner c r \<longleftrightarrow> (\<exists>x q. intended x c \<and> leasedIntent env r owner x \<and>
     mget (mr_projections r) (rc_PlanID c) = Some q \<and> reserved q (rc_AttemptID c) (rc_IdempotencyKey c))"

definition memoryView :: "'x world \<Rightarrow> MemoryRepository \<times> (StartRunCommand \<times> MemoryRepository) list" where
  "memoryView w = (snd (wd_Repo w), wd_Calls w)"

text \<open>Records survive the JSON round trip of the repository, the outbox is in order, and so were all calls.\<close>

definition world_ok :: "RepoEnv \<Rightarrow> string \<Rightarrow> MemoryRepository \<times> (StartRunCommand \<times> MemoryRepository) list \<Rightarrow> bool" where
  "world_ok env owner v \<longleftrightarrow> (\<forall>y. cloneValue (re_Record env) y = y) \<and> outbox_ok (fst v) \<and> (\<forall>(c, r)\<in>set (snd v). called env owner c r)"

lemma rest_view [simp]: "memoryView (fst (rest f w)) = memoryView w"
  by (simp add: rest_def memoryView_def split: prod.splits)

lemma rest_quiet [simp]: "quiet memoryView (rest f)"
  by (simp add: quiet_def)

lemma repoCall_result:
  assumes "repoCall draw f w = (w', a)"
  obtains i nano t d r d' r' where "wd_Repo w = (d, r)" "wd_Repo w' = (d', r')" "f i nano t (d, r) = ((d', r'), a)" "wd_Calls w' = wd_Calls w"
  using assms unfolding repoCall_def by (cases "wd_Repo w") (auto split: prod.splits)

lemma repoCall_validE:
  assumes "\<And>i nano t d r d' r' calls a. P (r, calls) \<Longrightarrow> f i nano t (d, r) = ((d', r'), Inr a) \<Longrightarrow> Q a (r', calls)"
    and "\<And>i nano t d r d' r' calls e. P (r, calls) \<Longrightarrow> f i nano t (d, r) = ((d', r'), Inl e) \<Longrightarrow> E (r', calls)"
  shows "validE (\<lambda>w. P (memoryView w)) (repoCall draw f) (\<lambda>a w. Q a (memoryView w)) (\<lambda>w. E (memoryView w))"
  by (rule validEI; erule repoCall_result) (auto simp: memoryView_def intro: assms)

lemma repoCall_errOnly:
  assumes "\<And>i nano t d r d' r' calls. P (r, calls) \<Longrightarrow> f i nano t (d, r) = ((d', r'), None) \<Longrightarrow> Q () (r', calls)"
    and "\<And>i nano t d r d' r' calls e. P (r, calls) \<Longrightarrow> f i nano t (d, r) = ((d', r'), Some e) \<Longrightarrow> E (r', calls)"
  shows "validE (\<lambda>w. P (memoryView w)) (errOnly (repoCall draw f)) (\<lambda>a w. Q a (memoryView w)) (\<lambda>w. E (memoryView w))"
  by (rule validE_errOnly; erule repoCall_result) (auto simp: memoryView_def intro: assms)

lemma observed_start:
  assumes "intended x c" and "reserved q (rc_AttemptID c) (rc_IdempotencyKey c)"
  shows "validE (\<lambda>w. world_ok env owner (memoryView w) \<and> mget (mr_projections (fst (memoryView w))) (rc_PlanID c) = Some q \<and>
       leasedIntent env (fst (memoryView w)) owner x) (pv_StartRun (observed pv) c)
     (\<lambda>_ w. world_ok env owner (memoryView w) \<and> mget (mr_projections (fst (memoryView w))) (rc_PlanID c) = Some q)
     (\<lambda>w. world_ok env owner (memoryView w) \<and> mget (mr_projections (fst (memoryView w))) (rc_PlanID c) = Some q)"
proof -
  have "called env owner c (snd (wd_Repo w))"
    if "leasedIntent env (snd (wd_Repo w)) owner x" "mget (mr_projections (snd (wd_Repo w))) (rc_PlanID c) = Some q" for w :: "'a world"
    using that assms unfolding called_def by blast
  then show ?thesis
    by (auto simp: validE_def observed_def rest_def memoryView_def world_ok_def split: prod.splits sum.splits)
qed

lemma observed_quiet: "quiet memoryView (pv_Capabilities (observed pv))"
  by (simp add: observed_def)

lemma memory_commit:
  "validE (\<lambda>w. world_ok env owner (memoryView w)) (errOnly (repoCall draw (\<lambda>i _ t. CommitEventProjection env i ev p)))
     (\<lambda>_ w. world_ok env owner (memoryView w) \<and> mget (mr_projections (fst (memoryView w))) (ev_PlanID ev) = Some p)
     (\<lambda>w. world_ok env owner (memoryView w))"
  by (rule repoCall_errOnly) (auto simp: world_ok_def dest: CommitEventProjection_stored)

lemma memory_enqueue:
  assumes "ob_ID x = ''''"
  shows "validE (\<lambda>w. world_ok env owner (memoryView w) \<and> mget (mr_projections (fst (memoryView w))) k = q) (op_Enqueue (memoryOutbox draw env) x)
     (\<lambda>r w. world_ok env owner (memoryView w) \<and> mget (mr_projections (fst (memoryView w))) k = q \<and> filedIntent env (fst (memoryView w)) x (fst r))
     (\<lambda>w. world_ok env owner (memoryView w))"
  unfolding memoryOutbox_def outboxStore.select_convs
  by (rule repoCall_validE) (auto simp: world_ok_def dest!: EnqueueOutbox_filed [OF _ _ assms])

lemma memory_claim:
  "validE (\<lambda>w. world_ok env owner' (memoryView w) \<and> mget (mr_projections (fst (memoryView w))) k = q \<and> filedIntent env (fst (memoryView w)) x y)
     (op_ClaimByID (memoryOutbox draw env) (ob_ID y) owner ttl t)
     (\<lambda>_ w. world_ok env owner' (memoryView w) \<and> mget (mr_projections (fst (memoryView w))) k = q \<and> leasedIntent env (fst (memoryView w)) owner x)
     (\<lambda>w. world_ok env owner' (memoryView w))"
  unfolding memoryOutbox_def outboxStore.select_convs
  by (rule repoCall_validE) (auto simp: world_ok_def dest: ClaimOutboxByID_leased)

lemma memory_ack:
  "validE (\<lambda>w. world_ok env owner' (memoryView w) \<and> mget (mr_projections (fst (memoryView w))) k = q)
     (errOnly (op_Ack (memoryOutbox draw env) i owner t res))
     (\<lambda>_ w. world_ok env owner' (memoryView w) \<and> mget (mr_projections (fst (memoryView w))) k = q)
     (\<lambda>w. world_ok env owner' (memoryView w) \<and> mget (mr_projections (fst (memoryView w))) k = q)"
  unfolding memoryOutbox_def outboxStore.select_convs
  by (rule repoCall_errOnly) (auto simp: world_ok_def dest: AckOutbox_kept)

lemma memory_create:
  "validE (\<lambda>w. world_ok env owner (memoryView w)) (errOnly (repoCall draw (\<lambda>i _ t. CreatePlanWithEvent env i p ev)))
     (\<lambda>_ w. world_ok env owner (memoryView w)) (\<lambda>w. world_ok env owner (memoryView w))"
  by (rule repoCall_errOnly) (auto simp: world_ok_def dest: CreatePlanWithEvent_outbox same_outbox_ok)

lemma resolver_observed:
  "quiet memoryView (\<lambda>w. apsnd (map_sum id (map_option observed)) (rest f w))"
  "returns (\<lambda>w. apsnd (map_sum id (map_option observed)) (rest f w)) (\<lambda>p. \<forall>pv. p = Some pv \<longrightarrow> (\<exists>q. pv = observed q))"
proof -
  show "quiet memoryView (\<lambda>w. apsnd (map_sum id (map_option observed)) (rest f w))" by (simp add: quiet_def)
  have "\<exists>q. pv = observed q" if "map_sum id (map_option observed) r = Inr (Some pv)" for pv r
    using that by (cases r) auto
  then show "returns (\<lambda>w. apsnd (map_sum id (map_option observed)) (rest f w)) (\<lambda>p. \<forall>pv. p = Some pv \<longrightarrow> (\<exists>q. pv = observed q))"
    by (auto simp: returns_def validE_def apsnd_def map_prod_def split: prod.splits sum.splits)
qed

interpretation memory: executor_store "memoryEnv env" "memoryExecutor draw renv x" memoryView "world_ok renv (outboxOwner (memoryExecutor draw renv x))"
  "\<lambda>v. mget (mr_projections (fst v))" "\<lambda>v. filedIntent renv (fst v)" "\<lambda>v. leasedIntent renv (fst v)" "\<lambda>pv. \<exists>q. pv = observed q"
  "memoryEvents draw renv" "\<lambda>planID after w. ListEvents renv planID after (snd (wd_Repo w))"
  "\<lambda>ev p. repoCall draw (\<lambda>i _ t. CommitEventProjection renv i ev p)" "memoryOutbox draw renv" "memoryPort draw renv"
  "\<lambda>p ev. repoCall draw (\<lambda>i _ t. CreatePlanWithEvent renv i p ev)"
  for env :: "'x ExecEnv" and draw and renv and x :: "'x Executor"
  by unfold_locales
    (auto simp: memoryExecutor_def memoryEvents_def memoryPort_def memoryEnv_def resolver_observed observed_quiet
      intro: memory_commit memory_enqueue memory_claim memory_ack memory_create observed_start)

section \<open>An example\<close>

text \<open>
  The rest of the world is the counter of the dispatch example. The agent of the example plan is active.
\<close>

definition exDraw :: "nat \<Rightarrow> nat \<times> io \<times> int \<times> int" where
  "exDraw n = (n + 1, IODone, int n, int n)"

definition exLineRepo :: repo where
  "exLineRepo = fst (CreatePlanWithEvent exEnv0 IODone exLine exStarted ([], newMemoryRepository ''''))"

definition exAgentRepo :: MemoryRepository where
  "exAgentRepo = (snd exLineRepo)\<lparr>mr_agents := [(''w1:agent:1'', zeroAgent\<lparr>ag_ID := ''agent'', ag_WorkspaceID := ''w1'', ag_Revision := 1,
     ag_Status := AgentActive\<rparr>)]\<rparr>"

definition exWorld :: "nat world" where
  "exWorld = \<lparr>wd_Repo = (fst exLineRepo, exAgentRepo), wd_Rest = 100, wd_Calls = []\<rparr>"

definition exDispatch :: "(nat world \<times> PlanProjection) \<times> NodeAttempt list \<times> go_error option" where
  "exDispatch = dispatchReady (memoryEnv exExecEnv) (memoryExecutor exDraw exEnv0 exExecutor) ('''', '''') exLine exEnvelope ''item'' ''''
     0 (exWorld, projr (NewProjection exLine))"

lemma exDispatch_run:
  "(map a_ID (fst (snd exDispatch)), snd (snd exDispatch), map (\<lambda>(c, r). rc_NodeID c) (wd_Calls (fst (fst exDispatch)))) =
     ([''id101''], None, [''impl''])"
  by code_simp

lemma exWorld_ok: "outbox_ok (snd (wd_Repo exWorld))" "wd_Calls exWorld = []"
    "GetProjection (pl_ID exLine) (snd (wd_Repo exWorld)) = Inr (projr (NewProjection exLine))"
proof -
  have "mr_outbox exAgentRepo = []" "repo_wf exAgentRepo" by code_simp+
  then show "outbox_ok (snd (wd_Repo exWorld))" by (simp add: outbox_ok_def exWorld_def)
  show "GetProjection (pl_ID exLine) (snd (wd_Repo exWorld)) = Inr (projr (NewProjection exLine))" by code_simp
qed (simp add: exWorld_def)

lemma exEnv0_json: "cloneValue (re_Record exEnv0) y = y"
  by (simp add: exEnv0_def exEnv_def cloneValue_def noJSON_def)

lemma exDispatch_result:
  "dispatchReady (memoryEnv exExecEnv) (memoryExecutor exDraw exEnv0 exExecutor) ('''', '''') exLine exEnvelope ''item'' '''' 0
     (exWorld, projr (NewProjection exLine)) = ((fst (fst exDispatch), snd (fst exDispatch)), fst (snd exDispatch), None)"
  using exDispatch_run by (simp add: exDispatch_def prod_eq_iff)

section \<open>Properties\<close>

text \<open>
  C4: No run is started behind the back of the store. On a memory repository whose file writes may fail at any time, and
  with any provider, whenever \<open>dispatchReady\<close> calls \<open>StartRun\<close>, the repository already holds the projection with the
  attempt of the call and a \<open>provider.start\<close> intent for that plan, node and attempt, leased by this executor. So a
  process that dies during the call leaves enough behind to find the run again.\<close>

theorem dispatch_intent_before_call:
  fixes w :: "'x world"
  assumes "dispatchReady (memoryEnv env) (memoryExecutor draw renv x) ctx plan envelope wi ab limit (w, p) = ((w', p'), started, err)"
    and "\<And>y. cloneValue (re_Record renv) y = y" and "outbox_ok (snd (wd_Repo w))"
    and "GetProjection (pl_ID plan) (snd (wd_Repo w)) = Inr p" and "wd_Calls w = []" and "(c, r) \<in> set (wd_Calls w')"
  shows "\<exists>intent k i q a. mget (mr_outbox r) i = Some k \<and> ob_Status k = ''leased'' \<and>
      ob_Owner k = outboxOwner (memoryExecutor draw renv x) \<and> intended intent c \<and> intentMatches renv k intent \<and>
      GetProjection (rc_PlanID c) r = Inr q \<and> a \<in> set (mvals (p_Attempts q)) \<and> a_ID a = rc_AttemptID c \<and>
      a_IdempotencyKey a = rc_IdempotencyKey c"
proof -
  have "mget (mr_projections (snd (wd_Repo w))) (pl_ID plan) = Some p"
    using assms(4) by (simp add: GetProjection_def cloneProjection_def split: option.splits)
  then have "called renv (outboxOwner (memoryExecutor draw renv x)) c r"
    using memory.dispatchReady_ok [OF assms(1)] assms(2,3,5,6) by (auto simp: world_ok_def memoryView_def)
  then show ?thesis
    unfolding called_def leasedIntent_def reserved_def by (fastforce simp: GetProjection_def cloneProjection_def)
qed

theorem dispatch_intent_before_call_witness:
  "\<exists>c r intent k i q a. wd_Calls (fst (fst exDispatch)) = [(c, r)] \<and> rc_NodeID c = ''impl'' \<and> mget (mr_outbox r) i = Some k \<and>
     ob_Status k = ''leased'' \<and> intended intent c \<and> GetProjection (rc_PlanID c) r = Inr q \<and> a \<in> set (mvals (p_Attempts q)) \<and>
     a_ID a = rc_AttemptID c"
proof -
  have "map (\<lambda>(c, r). rc_NodeID c) (wd_Calls (fst (fst exDispatch))) = [''impl'']" using exDispatch_run by simp
  then obtain c r where c: "wd_Calls (fst (fst exDispatch)) = [(c, r)]" "rc_NodeID c = ''impl''" by (auto simp: map_eq_Cons_conv)
  then have "(c, r) \<in> set (wd_Calls (fst (fst exDispatch)))" by simp
  from dispatch_intent_before_call [OF exDispatch_result exEnv0_json exWorld_ok(1,3,2) this] c show ?thesis by blast
qed

text \<open>
  C8: Success is durable. When \<open>dispatchReady\<close>, \<open>AdvanceStructural\<close> or \<open>FinishAttempt\<close> of an executor on a memory
  repository returns without an error, \<open>GetProjection\<close> gives the very projection the caller holds, whatever the file
  writes and the provider did.\<close>

theorem executor_success_durable:
  fixes w :: "'x world"
  assumes "\<And>y. cloneValue (re_Record renv) y = y" and "outbox_ok (snd (wd_Repo w))"
    and "GetProjection (pl_ID plan) (snd (wd_Repo w)) = Inr p" and "wd_Calls w = []"
    and "dispatchReady (memoryEnv env) (memoryExecutor draw renv x) ctx plan envelope wi ab limit (w, p) = ((w', p'), started, None) \<or>
      AdvanceStructural (memoryEnv env) (memoryExecutor draw renv x) ctx plan envelope limit (w, p) = ((w', p'), started, None) \<or>
      executorFinishAttempt (memoryEnv env) (memoryExecutor draw renv x) ctx plan i inp (w, p) = ((w', p'), Inr a)"
  shows "GetProjection (pl_ID plan) (snd (wd_Repo w')) = Inr p'"
proof -
  let ?ok = "\<lambda>w. world_ok renv (outboxOwner (memoryExecutor draw renv x)) (memoryView w)"
  let ?sync = "\<lambda>w p. ?ok w \<and> mget (mr_projections (fst (memoryView w))) (pl_ID plan) = Some p"
  have "mget (mr_projections (snd (wd_Repo w))) (pl_ID plan) = Some p"
    using assms(3) by (simp add: GetProjection_def cloneProjection_def split: option.splits)
  then have s: "?sync (fst (w, p)) (snd (w, p))" using assms(1,2,4) by (simp add: world_ok_def memoryView_def)
  have "?sync (fst (w', p')) (snd (w', p'))"
    using assms(5)
  proof (elim disjE)
    assume "dispatchReady (memoryEnv env) (memoryExecutor draw renv x) ctx plan envelope wi ab limit (w, p) = ((w', p'), started, None)"
    from memory.dispatchReady_ok [OF this s] show ?thesis by simp
  next
    assume "AdvanceStructural (memoryEnv env) (memoryExecutor draw renv x) ctx plan envelope limit (w, p) = ((w', p'), started, None)"
    from memory.AdvanceStructural_ok [OF this s] show ?thesis by simp
  next
    assume "executorFinishAttempt (memoryEnv env) (memoryExecutor draw renv x) ctx plan i inp (w, p) = ((w', p'), Inr a)"
    from validE_Inr [OF memory.executorFinishAttempt_ok _ this] s show ?thesis by simp
  qed
  then show ?thesis by (simp add: memoryView_def GetProjection_def cloneProjection_def)
qed

theorem executor_success_durable_witness:
  "map a_ID (fst (snd exDispatch)) = [''id101''] \<and>
     GetProjection ''p1'' (snd (wd_Repo (fst (fst exDispatch)))) = Inr (snd (fst exDispatch))"
proof
  show "map a_ID (fst (snd exDispatch)) = [''id101'']" using exDispatch_run by simp
  have "pl_ID exLine = ''p1''" by (simp add: exLine_def exPlan_def)
  then show "GetProjection ''p1'' (snd (wd_Repo (fst (fst exDispatch)))) = Inr (snd (fst exDispatch))"
    using executor_success_durable [OF exEnv0_json exWorld_ok(1,3,2) disjI1 [OF exDispatch_result]] by simp
qed

end
