(* ===== verification/Orch_Tick.thy ===== *)
theory Orch_Tick
  imports Orch_Dispatch
begin

text \<open>
  The tick of the scheduler (\<open>scheduler.go\<close>): past the deadline every running attempt is closed through the reducer and
  the plan ends; otherwise structural nodes are advanced and ready agents and squads are dispatched within the permits.
\<close>

section \<open>The scheduler\<close>

record 'w Scheduler =
  sc_Repository :: "'w RepositoryPort option"
  sc_Executor :: "'w Executor"
  sc_MaxConcurrent :: int
  sc_LeaseTTL :: int
  sc_Now :: "('w \<Rightarrow> 'w \<times> int) option"

record ScheduleReport =
  sch_Started :: "NodeAttempt list"
  sch_Advanced :: "NodeAttempt list"
  sch_Waiting :: "string list"
  sch_Blocked :: "(string, string) gomap"
  sch_Terminal :: bool

definition zeroSchedule :: ScheduleReport where
  "zeroSchedule = \<lparr>sch_Started = [], sch_Advanced = [], sch_Waiting = [], sch_Blocked = [], sch_Terminal = False\<rparr>"

definition schedulerNow :: "'w ExecEnv \<Rightarrow> 'w Scheduler \<Rightarrow> ('w, int) act" where
  "schedulerNow env sc = yields (case sc_Now sc of Some f \<Rightarrow> f | None \<Rightarrow> xe_Clock env)"

text \<open>The executor with the repository, the clock and the lease time of the scheduler.\<close>

definition schedulerExecutor :: "'w Scheduler \<Rightarrow> 'w Executor" where
  "schedulerExecutor sc = (sc_Executor sc)\<lparr>xc_Repository := sc_Repository sc, xc_Now := sc_Now sc, xc_LeaseTTL := sc_LeaseTTL sc\<rparr>"

type_synonym 'w tick = "('w \<times> PlanProjection) \<times> ScheduleReport \<times> go_error option"

section \<open>Past the deadline\<close>

definition runningIDs :: "PlanProjection \<Rightarrow> string list" where
  "runningIDs p = sort_stable (<) (map fst (filter (\<lambda>(k, a). a_Status a = AttemptRunning) (p_Attempts p)))"

definition deadlineInput :: "RequirementExecutionPlan \<Rightarrow> string \<Rightarrow> int \<Rightarrow> int \<Rightarrow> TransitionInput" where
  "deadlineInput plan attemptID token now =
     finishInput plan attemptID token ''timeout''
       (zeroResult\<lparr>sr_Outcome := ''timeout'', sr_Summary := ''plan deadline exceeded'',
          sr_EvidenceIDs := [''deadline:'' @ pl_ID plan @ '':'' @ attemptID]\<rparr>)
       (Some \<lparr>f_Code = ''plan_deadline_exceeded'', f_Message = ''plan deadline exceeded'', f_Retryable = False\<rparr>) [] '''' now"

fun closeLoop ::
  "'w ExecEnv \<Rightarrow> 'w Executor \<Rightarrow> string \<times> string \<Rightarrow> RequirementExecutionPlan \<Rightarrow> int \<Rightarrow> string list \<Rightarrow> NodeAttempt list \<Rightarrow>
     'w \<times> PlanProjection \<Rightarrow> ('w \<times> PlanProjection) \<times> NodeAttempt list \<times> go_error option" where
  "closeLoop env e ctx plan now [] advanced s = (s, advanced, None)"
| "closeLoop env e ctx plan now (i # is) advanced s =
     (let token = (case mget (p_Attempts (snd s)) i of Some a \<Rightarrow> l_FencingToken (a_Lease a) | None \<Rightarrow> 0) in
      case executorFinishAttempt env e ctx plan i (deadlineInput plan i token now) s of
        (s', Inl err) \<Rightarrow> (s', advanced, Some err)
      | (s', Inr a) \<Rightarrow> closeLoop env e ctx plan now is (advanced @ [a]) s')"

text \<open>The plan ends as timed out unless a completion has ended it.\<close>

definition endPlan :: "'w Scheduler \<Rightarrow> ('w \<times> PlanProjection, unit) act" where
  "endPlan sc =
     andThen (gets snd) (\<lambda>p.
     if p_Status p = PlanTerminal then ret ()
     else
       andThen (putSnd (\<lambda>p. p\<lparr>p_Status := PlanTerminal, p_TerminalOutcome := ''timed_out''\<rparr>)) (\<lambda>_.
       case sc_Repository sc of None \<Rightarrow> ret () | Some repo \<Rightarrow> withSnd (\<lambda>p. errOnly (rp_SaveProjection repo p))))"

definition closePlan ::
  "'w ExecEnv \<Rightarrow> 'w Scheduler \<Rightarrow> string \<times> string \<Rightarrow> RequirementExecutionPlan \<Rightarrow> 'w \<times> PlanProjection \<Rightarrow> 'w tick" where
  "closePlan env sc ctx plan s =
     (let report = zeroSchedule\<lparr>sch_Blocked := [(''plan'', ''deadline_exceeded'')]\<rparr> in
      case onFst (schedulerNow env sc) s of
        (s1, Inl err) \<Rightarrow> (s1, report, Some err)
      | (s1, Inr now) \<Rightarrow>
          (case closeLoop env (schedulerExecutor sc) ctx plan now (runningIDs (snd s1)) [] s1 of
             (s2, advanced, Some err) \<Rightarrow> (s2, report\<lparr>sch_Advanced := advanced\<rparr>, Some err)
           | (s2, advanced, None) \<Rightarrow>
               (case endPlan sc s2 of
                  (s3, Inl err) \<Rightarrow> (s3, report\<lparr>sch_Advanced := advanced\<rparr>, Some err)
                | (s3, Inr _) \<Rightarrow> (s3, report\<lparr>sch_Advanced := advanced, sch_Terminal := True\<rparr>, Some ErrDeadlineExceeded))))"

section \<open>Before the deadline\<close>

definition blockedNodes :: "WorkflowNode list \<Rightarrow> NodeAttempt list \<Rightarrow> (string, string) gomap" where
  "blockedNodes ready started =
     fold (\<lambda>n m. if providerNode n \<and> \<not> containsAttemptNode started (n_ID n) then mput (n_ID n) ''concurrency_limit'' m else m) ready []"

definition waitingNodes :: "WorkflowNode list \<Rightarrow> string list" where
  "waitingNodes ready = map n_ID (filter (\<lambda>n. \<not> providerNode n) ready)"

text \<open>What follows the structural step: the queue is computed again and dispatched within the permits.\<close>

definition tickDispatch ::
  "'w ExecEnv \<Rightarrow> 'w Scheduler \<Rightarrow> string \<times> string \<Rightarrow> RequirementExecutionPlan \<Rightarrow> ContextEnvelope \<Rightarrow> string \<Rightarrow> string \<Rightarrow> NodeAttempt list \<Rightarrow>
     'w \<times> PlanProjection \<Rightarrow> 'w tick" where
  "tickDispatch env sc ctx plan envelope workItemID agentBindingID structural s =
     (let report = zeroSchedule\<lparr>sch_Advanced := structural\<rparr> in
      case onFst (schedulerNow env sc) s of
        (s1, Inl err) \<Rightarrow> (s1, report, Some err)
      | (s1, Inr now) \<Rightarrow>
          (let ready = readyNodesAt plan (snd s1) now;
               limit = tickLimit plan (sc_MaxConcurrent sc) (int (length ready)) (snd s1);
               report1 = report\<lparr>sch_Waiting := waitingNodes ready\<rparr>
           in if limit = 0 then
                (s1, report1\<lparr>sch_Blocked := blockedNodes ready [], sch_Terminal := (p_Status (snd s1) = PlanTerminal)\<rparr>, None)
              else case dispatchReady env (schedulerExecutor sc) ctx plan envelope workItemID agentBindingID limit s1 of
                (s2, started, Some err) \<Rightarrow> (s2, report1, Some err)
              | (s2, started, None) \<Rightarrow>
                  (s2, report1\<lparr>sch_Started := started, sch_Blocked := blockedNodes ready started,
                     sch_Terminal := (p_Status (snd s2) = PlanTerminal)\<rparr>, None)))"

text \<open>The structural step runs on the executor as it was given, without the repository, the clock and the lease time of the scheduler.\<close>

definition tickReady ::
  "'w ExecEnv \<Rightarrow> 'w Scheduler \<Rightarrow> string \<times> string \<Rightarrow> RequirementExecutionPlan \<Rightarrow> ContextEnvelope \<Rightarrow> string \<Rightarrow> string \<Rightarrow>
     'w \<times> PlanProjection \<Rightarrow> 'w tick" where
  "tickReady env sc ctx plan envelope workItemID agentBindingID s =
     (case onFst (schedulerNow env sc) s of
        (s1, Inl err) \<Rightarrow> (s1, zeroSchedule, Some err)
      | (s1, Inr now) \<Rightarrow>
          if readyNodesAt plan (snd s1) now = [] then (s1, zeroSchedule\<lparr>sch_Terminal := (p_Status (snd s1) = PlanTerminal)\<rparr>, None)
          else case AdvanceStructural env (sc_Executor sc) ctx plan envelope (limitForStructural plan (sc_MaxConcurrent sc)) s1 of
            (s2, structural, Some err) \<Rightarrow> (s2, zeroSchedule, Some err)
          | (s2, structural, None) \<Rightarrow> tickDispatch env sc ctx plan envelope workItemID agentBindingID structural s2)"

definition pastDeadline :: "'w ExecEnv \<Rightarrow> 'w Scheduler \<Rightarrow> RequirementExecutionPlan \<Rightarrow> ('w \<times> PlanProjection, bool) act" where
  "pastDeadline env sc plan =
     (if IsZero (pl_Deadline plan) then ret False
      else andThen (onFst (schedulerNow env sc)) (\<lambda>now. ret (\<not> now < pl_Deadline plan)))"

definition Tick ::
  "'w ExecEnv \<Rightarrow> 'w Scheduler \<Rightarrow> string \<times> string \<Rightarrow> RequirementExecutionPlan \<Rightarrow> ContextEnvelope \<Rightarrow> string \<Rightarrow> string \<Rightarrow>
     'w \<times> PlanProjection \<Rightarrow> 'w tick" where
  "Tick env sc ctx plan envelope workItemID agentBindingID s =
     (case pastDeadline env sc plan s of
        (s1, Inl err) \<Rightarrow> (s1, zeroSchedule, Some err)
      | (s1, Inr True) \<Rightarrow> closePlan env sc ctx plan s1
      | (s1, Inr False) \<Rightarrow> tickReady env sc ctx plan envelope workItemID agentBindingID s1)"

section \<open>Running attempts\<close>

lemma count_mput:
  "mget m k = Some v \<Longrightarrow> length (filter P (map snd (mput k v' m))) + (if P v then 1 else 0) =
     length (filter P (map snd m)) + (if P v' then 1 else 0)"
  by (induction m) auto

lemma finishStatus_not_running: "finishStatus event = Some st \<Longrightarrow> st \<noteq> AttemptRunning"
  by (auto simp: finishStatus_def split: if_splits)

text \<open>An accepted completion puts its attempt, no longer running, in the place of the old one.\<close>

lemma FinishAttempt_closed:
  assumes "FinishAttempt am plan k inp p = (p', Inr b)"
  shows "\<exists>a. mget (p_Attempts p) k = Some a \<and> a_ID b = a_ID a \<and> a_Status b \<noteq> AttemptRunning \<and> p_Attempts p' = mput k b (p_Attempts p)"
  using assms
proof (cases rule: FinishAttempt_cases)
  case unchanged
  then show ?thesis by (auto simp: mput_same)
next
  case (finished a n st p1 a1 b' p2)
  have f: "p_Attempts p1 = p_Attempts p" "same_attempt (applyResult inp st a) a1"
    using finishRepair_frame [OF finished(3)] repair_frame_fields by blast+
  have p2: "p_Attempts p2 = mput k b' (p_Attempts p)" using finished(5) route_kept f(1) by (auto simp: kept_def)
  have "a_Status b = st" "a_ID b = a_ID a" using finished(4,7) f(2) by (auto dest!: same_attempt_fields)
  then show ?thesis using finished finishStatus_not_running p2 by (auto simp: finish_conditions_def)
qed auto

definition filedAttempts :: "PlanProjection \<Rightarrow> bool" where
  "filedAttempts p \<longleftrightarrow> mwf (p_Attempts p) \<and> (\<forall>k a. mget (p_Attempts p) k = Some a \<longrightarrow> a_ID a = k)"

lemma put_running:
  assumes "filedAttempts p" and "mget (p_Attempts p) k = Some a" and "a_ID b = k" and "p_Attempts p' = mput k b (p_Attempts p)"
  shows "filedAttempts p'"
    and "runningCount p' + (if a_Status a = AttemptRunning then 1 else 0) = runningCount p + (if a_Status b = AttemptRunning then 1 else 0)"
  using assms count_mput [OF assms(2), of "\<lambda>a. a_Status a = AttemptRunning" b]
  by (auto simp: filedAttempts_def runningCount_def split: if_splits)

lemma FinishAttempt_running:
  assumes "FinishAttempt am plan k inp p = (p', Inr b)" and "filedAttempts p"
  shows "filedAttempts p' \<and> runningCount p' \<le> runningCount p \<and>
    (\<forall>a. mget (p_Attempts p) k = Some a \<longrightarrow> a_Status a = AttemptRunning \<longrightarrow> runningCount p' < runningCount p)"
proof -
  obtain a where a: "mget (p_Attempts p) k = Some a" "a_ID b = a_ID a" "a_Status b \<noteq> AttemptRunning" "p_Attempts p' = mput k b (p_Attempts p)"
    using FinishAttempt_closed [OF assms(1)] by blast
  have "a_ID b = k" using a assms(2) by (simp add: filedAttempts_def)
  from put_running [OF assms(2) a(1) this a(4)] a show ?thesis by (auto split: if_splits)
qed

lemma StartAttempt_running:
  assumes "StartAttempt am plan nodeID attemptID attemptNo lease c inp p = (p', Inr a)" and "filedAttempts p"
  shows "filedAttempts p' \<and> mget (p_Attempts p') (a_ID a) = Some a \<and>
    (p' = p \<or> a_Status a = AttemptRunning \<and> runningCount p' = runningCount p + 1)"
  using assms(1)
proof (cases rule: StartAttempt_cases)
  case (replay b)
  have wf: "mwf (p_Attempts p)" using assms(2) by (simp add: filedAttempts_def)
  obtain k where "mget (p_Attempts p) k = Some a" using replay(1,3) [unfolded mvals_mget [OF wf]] by auto
  then show ?thesis using assms(2) replay by (auto simp: filedAttempts_def)
next
  case (fresh b n no)
  have new: "mget (p_Attempts p) attemptID = None" using fresh(5) by (simp add: start_conditions_def)
  have att: "p_Attempts p' = p_Attempts p @ [(attemptID, a)]" using fresh new by (simp add: mput_fresh)
  have a: "a_ID a = attemptID" "a_Status a = AttemptRunning" using fresh(2,3) by (simp_all add: newAttempt_def Let_def split: prod.splits)
  have "runningCount p' = runningCount p + 1" using att a by (simp add: runningCount_def)
  moreover have "p_Attempts p' = mput attemptID a (p_Attempts p)" using att new by (simp add: mput_fresh)
  ultimately show ?thesis using a assms(2) by (simp add: filedAttempts_def)
qed simp

section \<open>Closing the plan\<close>

lemma executorFinishAttempt_reduces:
  assumes "executorFinishAttempt env e ctx plan i inp s = (s', r)"
  obtains (refused) inp' err where "FinishAttempt (xe_Ambient env) plan i inp' (snd s) = (snd s', Inl err)" "r = Inl err"
  | (restored) "snd s' = snd s" "\<exists>err. r = Inl err"
  | (closed) inp' a where "FinishAttempt (xe_Ambient env) plan i inp' (snd s) = (snd s', Inr a)" "r = Inr a"
  using assms unfolding executorFinishAttempt_def Let_def andThen_def gets_def onSnd_def restoring_def withSnd_def onFst_def ret_def
  by (auto split: prod.splits sum.splits if_splits)

text \<open>After the loop the listed attempts are not running, and no other attempt has changed.\<close>

lemma closeLoop_closed:
  assumes "closeLoop env e ctx plan now is advanced s = (s', advanced', None)"
  shows "\<forall>k a. mget (p_Attempts (snd s')) k = Some a \<longrightarrow> a_Status a = AttemptRunning \<longrightarrow>
    k \<notin> set is \<and> mget (p_Attempts (snd s)) k = Some a"
  using assms
proof (induction "is" arbitrary: advanced s)
  case (Cons i "is")
  define token where "token = (case mget (p_Attempts (snd s)) i of Some a \<Rightarrow> l_FencingToken (a_Lease a) | None \<Rightarrow> 0)"
  obtain s1 r where run: "executorFinishAttempt env e ctx plan i (deadlineInput plan i token now) s = (s1, r)" by fastforce
  then obtain a where r: "r = Inr a" and rest: "closeLoop env e ctx plan now is (advanced @ [a]) s1 = (s', advanced', None)"
    using Cons.prems by (cases r) (simp_all add: token_def [symmetric])
  obtain inp' where "FinishAttempt (xe_Ambient env) plan i inp' (snd s) = (snd s1, Inr a)"
    using run [unfolded r] by (cases rule: executorFinishAttempt_reduces) auto
  then have "a_Status a \<noteq> AttemptRunning" "p_Attempts (snd s1) = mput i a (p_Attempts (snd s))" using FinishAttempt_closed by blast+
  then show ?case using Cons.IH [OF rest] by (auto split: if_splits)
qed simp

lemma runningIDs_complete: "mget (p_Attempts p) k = Some a \<Longrightarrow> a_Status a = AttemptRunning \<Longrightarrow> k \<in> set (runningIDs p)"
  by (force simp: runningIDs_def dest: map_of_SomeD)

lemma endPlan_terminal:
  assumes "endPlan sc s = (s', Inr u)"
  shows "p_Status (snd s') = PlanTerminal \<and> p_Attempts (snd s') = p_Attempts (snd s)"
  using assms unfolding endPlan_def andThen_def gets_def putSnd_def withSnd_def onFst_def ret_def
  by (auto split: if_splits option.splits prod.splits sum.splits)

lemma closePlan_closed:
  assumes "closePlan env sc ctx plan s = (s', report, err)" and "sch_Terminal report"
  shows "err = Some ErrDeadlineExceeded \<and> p_Status (snd s') = PlanTerminal \<and>
    (\<forall>k a. mget (p_Attempts (snd s')) k = Some a \<longrightarrow> a_Status a \<noteq> AttemptRunning)"
proof -
  obtain s1 r where now: "onFst (schedulerNow env sc) s = (s1, r)" by fastforce
  then obtain t where r: "r = Inr t" using assms by (cases r) (auto simp: closePlan_def zeroSchedule_def)
  obtain s2 advanced e where c: "closeLoop env (schedulerExecutor sc) ctx plan t (runningIDs (snd s1)) [] s1 = (s2, advanced, e)" by (metis prod.exhaust)
  then have e: "e = None" using assms now r by (cases e) (auto simp: closePlan_def zeroSchedule_def)
  obtain s3 r3 where d: "endPlan sc s2 = (s3, r3)" by fastforce
  then obtain u where r3: "r3 = Inr u" using assms now r c e by (cases r3) (auto simp: closePlan_def zeroSchedule_def)
  have "s' = s3" "err = Some ErrDeadlineExceeded" using assms now r c e d r3 by (auto simp: closePlan_def)
  moreover have "a_Status a \<noteq> AttemptRunning" if "mget (p_Attempts (snd s2)) k = Some a" for k a
    using closeLoop_closed [OF c [unfolded e]] runningIDs_complete that by blast
  ultimately show ?thesis using endPlan_terminal [OF d [unfolded r3]] by auto
qed

section \<open>Permits\<close>

text \<open>At most \<open>n\<close> attempts are running, and attempts are filed under their IDs.\<close>

definition permits :: "int \<Rightarrow> PlanProjection \<Rightarrow> bool" where
  "permits n p \<longleftrightarrow> filedAttempts p \<and> runningCount p \<le> n"

text \<open>An attempt that may hold one permit more.\<close>

definition started :: "int \<Rightarrow> NodeAttempt \<Rightarrow> PlanProjection \<Rightarrow> bool" where
  "started n a p \<longleftrightarrow> filedAttempts p \<and> mget (p_Attempts p) (a_ID a) = Some a \<and>
     (runningCount p \<le> n \<or> a_Status a = AttemptRunning \<and> runningCount p \<le> n + 1)"

lemma started_permits: "started n a p \<Longrightarrow> permits (n + 1) p"
  by (auto simp: started_def permits_def)

lemma validE_either: "validE P m (\<lambda>_. Q) Q \<Longrightarrow> P s \<Longrightarrow> m s = (s', r) \<Longrightarrow> Q s'"
  by (auto simp: validE_def split: prod.splits sum.splits)

lemma onFst_snd: "(\<And>s. P (snd s) \<Longrightarrow> E s) \<Longrightarrow> validE (\<lambda>s. P (snd s)) (onFst m) (\<lambda>_ s. P (snd s)) E"
  by (auto simp: validE_def onFst_def split: prod.splits sum.splits)

lemma withSnd_snd: "(\<And>s. P (snd s) \<Longrightarrow> E s) \<Longrightarrow> validE (\<lambda>s. P (snd s)) (withSnd m) (\<lambda>_ s. P (snd s)) E"
  by (auto simp: validE_def withSnd_def onFst_def split: prod.splits sum.splits)

lemma same_attempts: "p_Attempts p' = p_Attempts p \<Longrightarrow> filedAttempts p' = filedAttempts p \<and> runningCount p' = runningCount p"
  by (simp add: filedAttempts_def runningCount_def)

lemma refused_permits: "FinishAttempt am plan i inp p = (p', Inl err) \<Longrightarrow> permits n p' = permits n p"
  using FinishAttempt_rejected [of am plan i inp p p' err] same_attempts [of p' p] by (simp add: permits_def)

lemma StartAttempt_started:
  "validE (\<lambda>s. permits n (snd s)) (onSnd (StartAttempt am plan nodeID attemptID attemptNo lease c inp)) (\<lambda>a s. started n a (snd s))
     (\<lambda>s. permits n (snd s))"
proof (rule validEI)
  fix s s' a
  assume "permits n (snd s)" and "onSnd (StartAttempt am plan nodeID attemptID attemptNo lease c inp) s = (s', Inr a)"
  then show "started n a (snd s')"
    by (auto simp: onSnd_def permits_def started_def split: prod.splits dest!: StartAttempt_running)
next
  fix s s' e
  assume p: "permits n (snd s)" and "onSnd (StartAttempt am plan nodeID attemptID attemptNo lease c inp) s = (s', Inl e)"
  then have "StartAttempt am plan nodeID attemptID attemptNo lease c inp (snd s) = (snd s', Inl e)" by (auto simp: onSnd_def split: prod.splits)
  then show "permits n (snd s')" using p by (cases rule: StartAttempt_cases) auto
qed

lemma FinishAttempt_started:
  "validE (\<lambda>s. started n a (snd s)) (onSnd (FinishAttempt am plan (a_ID a) inp)) (\<lambda>_ s. permits n (snd s)) (\<lambda>_. True)"
proof (rule validEI)
  fix s s' b
  assume s: "started n a (snd s)" and "onSnd (FinishAttempt am plan (a_ID a) inp) s = (s', Inr b)"
  then have "FinishAttempt am plan (a_ID a) inp (snd s) = (snd s', Inr b)" by (auto simp: onSnd_def split: prod.splits)
  from FinishAttempt_running [OF this] s show "permits n (snd s')" by (auto simp: permits_def started_def)
qed simp

text \<open>The step of a structural node gives its permit back, whatever its outcome.\<close>

lemma finishStructural_permits:
  "validE (\<lambda>s. started n a (snd s)) (finishStructural env e ctx plan key lease a inp f) (\<lambda>_ s. permits n (snd s)) (\<lambda>_. True)"
  unfolding finishStructural_def
  by (rule validE_andThen [OF FinishAttempt_started], rule validE_andThen [OF withSnd_snd [where P = "permits n"]], simp, rule validE_ret)

lemma decideStructural_permits:
  "validE (\<lambda>s. started n a (snd s)) (decideStructural env e ctx plan nd envelope key lease now a) (\<lambda>_ s. permits n (snd s)) (\<lambda>_. True)"
  unfolding decideStructural_def
  by (rule validE_andThen [where R = "\<lambda>_ s. started n a (snd s)"], rule validE_gets, assumption,
      rule validE_andThen [OF onFst_snd [where P = "started n a"]], simp,
      rule validE_andThen [where R = "\<lambda>_ s. started n a (snd s)"], rule validE_ensure, simp, rule finishStructural_permits)

lemma advanceNode_permits:
  "validE (\<lambda>s. permits n (snd s)) (advanceNode env e ctx plan envelope nd) (\<lambda>_ s. permits n (snd s)) (\<lambda>s. permits n (snd s))"
  unfolding advanceNode_def Let_def
proof (rule validE_andThen [where R = "\<lambda>b s. permits n b \<and> permits n (snd s)"], rule validE_gets, simp, rule validE_assume,
    rule validE_andThen [OF onFst_snd [where P = "permits n"]], simp, rule validE_andThen [OF onFst_snd [where P = "permits n"]], simp,
    rule validE_andThen [OF StartAttempt_started], rule validE_restoring, rule validE_andThen [OF withSnd_snd], simp, rule validE_if)
  fix b attemptID now a
  assume b: "permits n b"
  show "validE (\<lambda>s. started n a (snd s)) (waitForHuman env e ctx plan key lease now a) (\<lambda>_ s. permits n (snd s)) (\<lambda>s. permits n (snd (fst s, b)))"
    for key lease
    unfolding waitForHuman_def by (rule validE_weaken [OF finishStructural_permits]) (simp_all add: b)
  show "validE (\<lambda>s. started n a (snd s)) (decideStructural env e ctx plan nd envelope key lease now a) (\<lambda>_ s. permits n (snd s))
      (\<lambda>s. permits n (snd (fst s, b)))" for key lease
    by (rule validE_weaken [OF decideStructural_permits]) (simp_all add: b)
qed

lemma advanceLoop_permits:
  "advanceLoop env e ctx plan envelope limit ns acc s = (s', r) \<Longrightarrow> permits n (snd s) \<Longrightarrow> permits n (snd s')"
proof (induction ns arbitrary: acc s)
  case (Cons nd ns)
  obtain s1 r1 where run: "advanceNode env e ctx plan envelope nd s = (s1, r1)" by fastforce
  have "permits n (snd s1)" by (rule validE_either [OF advanceNode_permits Cons.prems(2) run])
  then show ?case using Cons.IH Cons.prems run by (cases r1) (auto split: if_splits)
qed simp

lemma AdvanceStructural_permits:
  assumes "AdvanceStructural env e ctx plan envelope limit s = (s', r)" and "permits n (snd s)"
  shows "permits n (snd s')"
proof -
  obtain s1 r1 where now: "onFst (executorNow env e) s = (s1, r1)" by fastforce
  then have "snd s1 = snd s" by (auto simp: onFst_def split: prod.splits)
  then show ?thesis
    using assms now advanceLoop_permits [of env e ctx plan envelope limit _ _ s1] unfolding AdvanceStructural_def
    by (cases r1) (auto split: option.splits)
qed

text \<open>A dispatch takes one permit; what is put in the place of the attempt keeps its ID and status.\<close>

lemma started_put:
  assumes "started n a p" and "a_ID b = a_ID a" and "a_Status b = a_Status a"
  shows "started n b (p\<lparr>p_Attempts := mput (a_ID a) b (p_Attempts p)\<rparr>)"
  using assms put_running [of p "a_ID a" a b "p\<lparr>p_Attempts := mput (a_ID a) b (p_Attempts p)\<rparr>"]
  by (auto simp: started_def split: if_splits)

lemma nestSquad_started:
  "validE (\<lambda>s. started n a (snd s)) (nestSquad env e ctx plan nd squad a) (\<lambda>b s. started n b (snd s)) (\<lambda>_. True)"
  unfolding nestSquad_def Let_def
proof (rule validE_case_option, rule validE_ret, assumption, rule validE_andThen [OF onFst_snd [where P = "started n a"]], simp)
  fix childID
  let ?b = "a\<lparr>a_ChildPlanID := childID\<rparr>"
  show "validE (\<lambda>s. started n a (snd s)) (andThen (putSnd (\<lambda>p. p\<lparr>p_Attempts := mput (a_ID a) ?b (p_Attempts p)\<rparr>)) (\<lambda>_. ret ?b))
      (\<lambda>b s. started n b (snd s)) (\<lambda>_. True)"
    by (rule validE_andThen [where R = "\<lambda>_ s. started n ?b (snd s)"], rule validE_putSnd) (auto intro: validE_ret started_put)
qed

lemma reserveNode_started:
  "validE (\<lambda>s. permits n (snd s)) (reserveNode env e ctx plan ps nd r) (\<lambda>rv s. started n (rv_Attempt rv) (snd s)) (\<lambda>s. permits n (snd s))"
  unfolding reserveNode_def Let_def
proof (rule validE_andThen [where R = "\<lambda>b s. permits n b \<and> permits n (snd s)"], rule validE_gets, simp, rule validE_assume,
    rule validE_andThen [OF onFst_snd [where P = "permits n"]], simp, rule validE_andThen [OF onFst_snd [where P = "permits n"]], simp,
    rule validE_andThen [OF StartAttempt_started], rule validE_restoring)
  fix b attemptID now a
  assume b: "permits n b"
  show "validE (\<lambda>s. started n a (snd s))
      (andThen (nestSquad env e ctx plan nd (rs_Squad r) a) (\<lambda>a. andThen (withSnd (m a)) (\<lambda>_. ret \<lparr>rv_Key = key, rv_Lease = lease, rv_Attempt = a\<rparr>)))
      (\<lambda>rv s. started n (rv_Attempt rv) (snd s)) (\<lambda>s. permits n (snd (fst s, b)))" for m key lease
    by (rule validE_andThen, rule validE_weaken [OF nestSquad_started, where E' = "\<lambda>s. permits n (snd (fst s, b))"], assumption, assumption, simp add: b,
        rule validE_andThen [OF withSnd_snd], simp add: b, rule validE_ret, simp)
qed

lemma bindRun_permits:
  "validE (\<lambda>s. started n (rv_Attempt rv) (snd s)) (bindRun env e ctx plan ps rv outbox b) (\<lambda>_ s. permits (n + 1) (snd s))
     (\<lambda>s. permits (n + 1) (snd s))"
proof -
  have put: "started n a s \<Longrightarrow> started n (boundAttempt a b s) (s\<lparr>p_Attempts := mput (a_ID a) (boundAttempt a b s) (p_Attempts s)\<rparr>)" for a s
    by (rule started_put) (auto simp: boundAttempt_def started_def mget0_def)
  show ?thesis
    unfolding bindRun_def
    by (rule validE_andThen [where R = "\<lambda>a s. started n (rv_Attempt rv) (snd s) \<and> a = boundAttempt (rv_Attempt rv) b (snd s)"],
        rule validE_gets, simp, rule validE_andThen [where R = "\<lambda>_ s. permits (n + 1) (snd s)"], rule validE_putSnd,
        use put started_permits in fastforce, rule validE_andThen [OF withSnd_snd [where P = "permits (n + 1)"]], simp,
        rule validE_andThen [OF validE_wrapErr [OF onFst_snd [where P = "permits (n + 1)"]]], simp, rule validE_ret, simp)
qed

lemma executorFinishAttempt_permits:
  "validE (\<lambda>s. permits n (snd s)) (executorFinishAttempt env e ctx plan i inp) (\<lambda>_ s. permits n (snd s)) (\<lambda>s. permits n (snd s))"
proof -
  have "permits n (snd s')" if "executorFinishAttempt env e ctx plan i inp s = (s', r)" and p: "permits n (snd s)" for s s' r
    using that(1)
  proof (cases rule: executorFinishAttempt_reduces)
    case (refused inp' err)
    then show ?thesis using refused_permits p by simp
  next
    case (closed inp' a)
    then show ?thesis using FinishAttempt_running p by (fastforce simp: permits_def)
  qed (simp add: p)
  then show ?thesis by (auto intro: validEI)
qed

lemma runAttempt_permits:
  "validE (\<lambda>s. started n (rv_Attempt rv) (snd s)) (runAttempt env e ctx plan ps wi ab nd r rv outbox) (\<lambda>_ s. permits (n + 1) (snd s))
     (\<lambda>s. permits (n + 1) (snd s))"
  unfolding runAttempt_def
proof (rule validE_andThen [OF onFst_snd], erule started_permits, rule validE_andThen [OF onFst_snd], erule started_permits,
    rule validE_andThen [where R = "\<lambda>_ s. started n (rv_Attempt rv) (snd s)"])
  show "validE (\<lambda>s. started n (rv_Attempt rv) (snd s)) (outcome (onFst m)) (\<lambda>_ s. started n (rv_Attempt rv) (snd s)) (\<lambda>s. permits (n + 1) (snd s))"
    for m :: "('a, RunBinding) act"
    by (rule validE_outcome, rule onFst_snd) simp
  show "validE (\<lambda>s. started n (rv_Attempt rv) (snd s))
      (case run of Inl runErr \<Rightarrow> failStart env e ctx plan rv outbox runErr | Inr b \<Rightarrow> bindRun env e ctx plan ps rv outbox b)
      (\<lambda>_ s. permits (n + 1) (snd s)) (\<lambda>s. permits (n + 1) (snd s))" for run
    unfolding failStart_def Let_def
    by (rule validE_case_sum, rule validE_andThen [OF validE_wrapErr [OF validE_pre [OF executorFinishAttempt_permits]]], erule started_permits,
        rule validE_andThen [OF validE_outcome [OF onFst_snd]], simp, rule validE_fails, assumption, rule bindRun_permits)
qed

lemma dispatchNode_permits:
  "validE (\<lambda>s. permits n (snd s)) (dispatchNode env e ctx plan ps envelope wi ab nd) (\<lambda>_ s. permits (n + 1) (snd s))
     (\<lambda>s. permits (n + 1) (snd s))"
  unfolding dispatchNode_def
proof (rule validE_andThen [where R = "\<lambda>b s. permits n b \<and> permits n (snd s)"], rule validE_gets, simp, rule validE_assume,
    rule validE_andThen [OF onFst_snd [where P = "permits n"]])
  fix b r
  assume b: "permits n b"
  show "validE (\<lambda>s. permits n (snd s)) (andThen (reserveNode env e ctx plan ps nd r) (\<lambda>rv. andThen (restoring b (onFst (m rv))) (\<lambda>outbox.
      runAttempt env e ctx plan ps wi ab nd r rv outbox))) (\<lambda>_ s. permits (n + 1) (snd s)) (\<lambda>s. permits (n + 1) (snd s))" for m
    using b
    by (intro validE_andThen [OF validE_weaken [OF reserveNode_started [where n = n], where Q' = "\<lambda>rv s. started n (rv_Attempt rv) (snd s)"]]
        validE_andThen [OF validE_restoring [OF onFst_snd]] runAttempt_permits) (auto simp: permits_def)
qed (simp add: permits_def)

lemma dispatchLoop_permits:
  assumes "dispatchLoop env e ctx plan ps envelope wi ab limit ns acc s = (s', r)" and "0 < limit" and "permits n (snd s)"
  shows "permits (n + max 0 (limit - int (length acc))) (snd s')"
  using assms
proof (induction ns arbitrary: acc s n)
  case Nil
  then show ?case by (auto simp: permits_def max_def)
next
  case (Cons nd ns)
  obtain s1 r1 where run: "dispatchNode env e ctx plan ps envelope wi ab nd s = (s1, r1)" by fastforce
  have step: "permits (n + 1) (snd s1)" by (rule validE_either [OF dispatchNode_permits Cons.prems(3) run])
  show ?case
  proof (cases "providerNode nd \<and> int (length acc) < limit")
    case True
    then show ?thesis
      using Cons.IH [OF _ \<open>0 < limit\<close> step] Cons.prems(1) run step
      by (cases r1) (fastforce simp: permits_def max_def split: if_splits)+
  next
    case False
    then show ?thesis using Cons.IH [OF _ \<open>0 < limit\<close> Cons.prems(3)] Cons.prems by (auto simp: permits_def split: if_splits)
  qed
qed

lemma dispatchReady_permits:
  assumes "dispatchReady env e ctx plan envelope wi ab limit s = (s', r)" and "0 < limit" and "permits n (snd s)"
  shows "permits (n + limit) (snd s')"
proof -
  obtain s1 r1 where now: "onFst (executorNow env e) s = (s1, r1)" by fastforce
  then have s1: "permits n (snd s1)" using assms(3) by (auto simp: onFst_def split: prod.splits)
  then have "permits (n + limit) (snd s1)" "permits (n + limit) (snd s)" using assms(2,3) by (simp_all add: permits_def)
  then show ?thesis
    using assms now s1 dispatchLoop_permits [of env e ctx plan _ envelope wi ab limit _ "[]" s1]
    unfolding dispatchReady_def Let_def by (cases r1) (fastforce split: option.splits if_splits)+
qed

lemma closeLoop_permits:
  "closeLoop env e ctx plan now is acc s = (s', r) \<Longrightarrow> permits n (snd s) \<Longrightarrow> permits n (snd s')"
proof (induction "is" arbitrary: acc s)
  case (Cons i "is")
  define token where "token = (case mget (p_Attempts (snd s)) i of Some a \<Rightarrow> l_FencingToken (a_Lease a) | None \<Rightarrow> 0)"
  obtain s1 r1 where run: "executorFinishAttempt env e ctx plan i (deadlineInput plan i token now) s = (s1, r1)" by fastforce
  have "permits n (snd s1)" by (rule validE_either [OF executorFinishAttempt_permits Cons.prems(2) run])
  then show ?case using Cons.IH Cons.prems run by (cases r1) (auto simp: token_def [symmetric])
qed simp

lemma closePlan_permits:
  assumes "closePlan env sc ctx plan s = (s', r)" and "permits n (snd s)"
  shows "permits n (snd s')"
proof -
  obtain s1 r1 where now: "onFst (schedulerNow env sc) s = (s1, r1)" by fastforce
  then have s1: "permits n (snd s1)" using assms(2) by (auto simp: onFst_def split: prod.splits)
  show ?thesis
  proof (cases r1)
    case (Inr t)
    obtain s2 adv e where c: "closeLoop env (schedulerExecutor sc) ctx plan t (runningIDs (snd s1)) [] s1 = (s2, adv, e)" by (metis prod.exhaust)
    then have s2: "permits n (snd s2)" using closeLoop_permits s1 by blast
    obtain s3 r3 where d: "endPlan sc s2 = (s3, r3)" by fastforce
    then have "p_Attempts (snd s3) = p_Attempts (snd s2)"
      unfolding endPlan_def andThen_def gets_def putSnd_def withSnd_def onFst_def ret_def
      by (auto split: if_splits option.splits prod.splits sum.splits)
    then have "permits n (snd s3)" using s2 same_attempts [of "snd s3" "snd s2"] by (simp add: permits_def)
    then show ?thesis using assms(1) now Inr c s2 d unfolding closePlan_def Let_def by (cases e; cases r3) auto
  qed (use assms now s1 in \<open>auto simp: closePlan_def\<close>)
qed

text \<open>The permits of the tick: the configured limit and the budget of the plan, less what is running.\<close>

lemma tickLimit_bound:
  "0 < tickLimit plan m ready p \<Longrightarrow> (0 < m \<longrightarrow> runningCount p + tickLimit plan m ready p \<le> m) \<and>
     (0 < b_Concurrent (ps_Budget (pl_PolicySnapshot plan)) \<longrightarrow>
        runningCount p + tickLimit plan m ready p \<le> b_Concurrent (ps_Budget (pl_PolicySnapshot plan)))"
  by (auto simp: tickLimit_def Let_def runningCount_def split: if_splits)

lemma permits_self: "filedAttempts p \<Longrightarrow> permits (runningCount p) p"
  by (simp add: permits_def)

lemma tickDispatch_permits:
  assumes "tickDispatch env sc ctx plan envelope wi ab structural s = (s', r)" and "filedAttempts (snd s)"
  shows "permits (runningCount (snd s)) (snd s') \<or>
    (\<exists>ready. 0 < tickLimit plan (sc_MaxConcurrent sc) ready (snd s) \<and>
      permits (runningCount (snd s) + tickLimit plan (sc_MaxConcurrent sc) ready (snd s)) (snd s'))"
proof -
  obtain s1 r1 where now: "onFst (schedulerNow env sc) s = (s1, r1)" by fastforce
  then have s1: "snd s1 = snd s" by (auto simp: onFst_def split: prod.splits)
  show ?thesis
  proof (cases r1)
    case (Inr t)
    define limit where "limit = tickLimit plan (sc_MaxConcurrent sc) (int (length (readyNodesAt plan (snd s) t))) (snd s)"
    have nonneg: "0 \<le> limit" by (simp add: limit_def tickLimit_def Let_def)
    show ?thesis
    proof (cases "limit = 0")
      case True
      then show ?thesis using assms now Inr s1 permits_self by (auto simp: tickDispatch_def Let_def limit_def)
    next
      case False
      obtain s2 st e where d: "dispatchReady env (schedulerExecutor sc) ctx plan envelope wi ab limit s1 = (s2, st, e)" by (metis prod.exhaust)
      have "permits (runningCount (snd s) + limit) (snd s2)"
        using dispatchReady_permits [OF d] False nonneg permits_self [OF assms(2)] s1 by simp
      moreover have "s' = s2" using assms(1) now Inr s1 d False by (cases e) (auto simp: tickDispatch_def Let_def limit_def)
      moreover have "0 < limit" using False nonneg by simp
      ultimately show ?thesis unfolding limit_def by blast
    qed
  qed (use assms now s1 permits_self in \<open>auto simp: tickDispatch_def\<close>)
qed

definition withinPermits :: "'w Scheduler \<Rightarrow> RequirementExecutionPlan \<Rightarrow> PlanProjection \<Rightarrow> PlanProjection \<Rightarrow> bool" where
  "withinPermits sc plan p p' \<longleftrightarrow>
     (0 < sc_MaxConcurrent sc \<longrightarrow> runningCount p' \<le> max (runningCount p) (sc_MaxConcurrent sc)) \<and>
     (0 < b_Concurrent (ps_Budget (pl_PolicySnapshot plan)) \<longrightarrow>
        runningCount p' \<le> max (runningCount p) (b_Concurrent (ps_Budget (pl_PolicySnapshot plan))))"

lemma tickReady_within:
  assumes "tickReady env sc ctx plan envelope wi ab s = (s', r)" and "filedAttempts (snd s)"
  shows "filedAttempts (snd s') \<and> withinPermits sc plan (snd s) (snd s')"
proof -
  obtain s1 r1 where now: "onFst (schedulerNow env sc) s = (s1, r1)" by fastforce
  then have s1: "snd s1 = snd s" by (auto simp: onFst_def split: prod.splits)
  obtain s2 st e where a: "AdvanceStructural env (sc_Executor sc) ctx plan envelope (limitForStructural plan (sc_MaxConcurrent sc)) s1 = (s2, st, e)"
    by (metis prod.exhaust)
  then have s2: "filedAttempts (snd s2)" "runningCount (snd s2) \<le> runningCount (snd s)"
    using AdvanceStructural_permits [OF a, of "runningCount (snd s)"] permits_self [OF assms(2)] s1 by (auto simp: permits_def)
  have "s' = s1 \<or> s' = s2 \<or> tickDispatch env sc ctx plan envelope wi ab st s2 = (s', r)"
    using assms(1) now a by (cases r1; cases e) (auto simp: tickReady_def split: if_splits)
  moreover have "filedAttempts (snd s') \<and> withinPermits sc plan (snd s) (snd s')"
    if "tickDispatch env sc ctx plan envelope wi ab st s2 = (s', r)"
    using tickDispatch_permits [OF that s2(1)] s2(2) tickLimit_bound [of plan "sc_MaxConcurrent sc" _ "snd s2"]
    by (fastforce simp: permits_def withinPermits_def)
  ultimately show ?thesis using assms(2) s1 s2 by (auto simp: withinPermits_def)
qed

text \<open>
  A tick never exceeds the permits, whatever its outcome. When a concurrency limit is configured, or the frozen budget
  has one, then after the tick no more attempts are running than the limit allows, or than were running before. (The
  attempts of the projection are filed under their IDs, as the validation of projections demands.)
\<close>

theorem Tick_concurrency:
  assumes "Tick env sc ctx plan envelope workItemID agentBindingID s = (s', report, err)" and "filedAttempts (snd s)"
  shows "(0 < sc_MaxConcurrent sc \<longrightarrow> runningCount (snd s') \<le> max (runningCount (snd s)) (sc_MaxConcurrent sc)) \<and>
    (0 < b_Concurrent (ps_Budget (pl_PolicySnapshot plan)) \<longrightarrow>
       runningCount (snd s') \<le> max (runningCount (snd s)) (b_Concurrent (ps_Budget (pl_PolicySnapshot plan)))) \<and>
    filedAttempts (snd s')"
proof -
  obtain s1 r1 where d: "pastDeadline env sc plan s = (s1, r1)" by fastforce
  then have s1: "snd s1 = snd s" by (auto simp: pastDeadline_def ret_def andThen_def onFst_def split: prod.splits sum.splits if_splits)
  have "filedAttempts (snd s') \<and> withinPermits sc plan (snd s) (snd s')"
  proof (cases r1)
    case (Inr b)
    then show ?thesis
      using assms d s1 tickReady_within [of env sc ctx plan envelope workItemID agentBindingID s1 s'] permits_self [OF assms(2)]
        closePlan_permits [of env sc ctx plan s1 s' _ "runningCount (snd s)"]
      by (cases b) (auto simp: Tick_def permits_def withinPermits_def)
  qed (use assms d s1 in \<open>auto simp: Tick_def withinPermits_def\<close>)
  then show ?thesis by (simp add: withinPermits_def)
qed

lemma Tick_closes:
  assumes "\<not> IsZero (pl_Deadline plan)" and "schedulerNow env sc (fst s) = (w, Inr now)" and "pl_Deadline plan \<le> now"
  shows "Tick env sc ctx plan envelope workItemID agentBindingID s = closePlan env sc ctx plan (w, snd s)"
  using assms by (simp add: Tick_def pastDeadline_def andThen_def onFst_def ret_def)

lemma closePlan_report: "closePlan env sc ctx plan s = (s', report, err) \<Longrightarrow> sch_Started report = [] \<and> err \<noteq> None"
  by (auto simp: closePlan_def zeroSchedule_def Let_def split: prod.splits sum.splits option.splits)

text \<open>
  C9: Past the deadline a tick ends the plan. When the scheduler reads a time that is not before the deadline of the plan,
  the tick dispatches nothing; when it reports the plan as terminal, it returns the deadline error, the plan is
  terminal, and no attempt is running, so that a late result finds no running attempt to finish.
\<close>

theorem Tick_deadline:
  assumes "Tick env sc ctx plan envelope workItemID agentBindingID s = (s', report, err)"
    and "\<not> IsZero (pl_Deadline plan)" and "schedulerNow env sc (fst s) = (w, Inr now)" and "pl_Deadline plan \<le> now"
  shows "sch_Started report = [] \<and> err \<noteq> None \<and>
    (sch_Terminal report \<longrightarrow> err = Some ErrDeadlineExceeded \<and> p_Status (snd s') = PlanTerminal \<and>
       (\<forall>k a. mget (p_Attempts (snd s')) k = Some a \<longrightarrow> a_Status a \<noteq> AttemptRunning))"
proof -
  have c: "closePlan env sc ctx plan (w, snd s) = (s', report, err)" using assms by (simp add: Tick_closes)
  then show ?thesis using closePlan_closed [OF c] closePlan_report [OF c] by blast
qed

section \<open>Witnesses\<close>

definition exScheduler :: "nat Scheduler" where
  "exScheduler = \<lparr>sc_Repository = None, sc_Executor = exExecutor, sc_MaxConcurrent = 1, sc_LeaseTTL = 0, sc_Now = None\<rparr>"

text \<open>A ready agent takes the only permit.\<close>

definition exTick :: "nat tick" where
  "exTick = Tick exExecEnv exScheduler ('''', '''') exLine exEnvelope ''item'' '''' (100, projr (NewProjection exLine))"

lemma exTick_run:
  "(map a_NodeID (sch_Started (fst (snd exTick))), snd (snd exTick), runningCount (snd (fst exTick))) = ([''impl''], None, 1)"
  by code_simp

theorem Tick_concurrency_witness:
  "map a_NodeID (sch_Started (fst (snd exTick))) = [''impl''] \<and> runningCount (snd (fst exTick)) \<le> 1"
proof -
  have "p_Attempts (projr (NewProjection exLine)) = []" by code_simp
  then have p: "filedAttempts (snd (100 :: nat, projr (NewProjection exLine)))" "runningCount (snd (100 :: nat, projr (NewProjection exLine))) = 0"
    by (simp_all add: filedAttempts_def runningCount_def)
  have "Tick exExecEnv exScheduler ('''', '''') exLine exEnvelope ''item'' '''' (100, projr (NewProjection exLine)) =
      (fst exTick, fst (snd exTick), snd (snd exTick))" by (simp add: exTick_def)
  from Tick_concurrency [OF this p(1)] p(2) exTick_run show ?thesis by (simp add: exScheduler_def)
qed

text \<open>The running attempt of the example plan is closed when the deadline has passed.\<close>

definition exTimeout :: "nat tick" where
  "exTimeout = Tick exExecEnv exScheduler ('''', '''') (exPlan\<lparr>pl_Deadline := 90\<rparr>) exEnvelope ''item'' '''' (100, exRunning)"

lemma exTimeout_run:
  "(map a_Status (sch_Advanced (fst (snd exTimeout))), sch_Terminal (fst (snd exTimeout))) = ([AttemptTimedOut], True)"
  by code_simp

theorem Tick_deadline_witness:
  "map a_Status (sch_Advanced (fst (snd exTimeout))) = [AttemptTimedOut] \<and> snd (snd exTimeout) = Some ErrDeadlineExceeded \<and>
   p_Status (snd (fst exTimeout)) = PlanTerminal"
proof -
  have run: "Tick exExecEnv exScheduler ('''', '''') (exPlan\<lparr>pl_Deadline := 90\<rparr>) exEnvelope ''item'' '''' (100, exRunning) =
      (fst exTimeout, fst (snd exTimeout), snd (snd exTimeout))" by (simp add: exTimeout_def)
  have now: "schedulerNow exExecEnv exScheduler (fst (100 :: nat, exRunning)) = (101, Inr 100)" by code_simp
  have "\<not> IsZero (pl_Deadline (exPlan\<lparr>pl_Deadline := 90\<rparr>))" "pl_Deadline (exPlan\<lparr>pl_Deadline := 90\<rparr>) \<le> 100" by simp_all
  from Tick_deadline [OF run this(1) now this(2)] exTimeout_run show ?thesis by simp
qed

end
