(* ===== verification/Orch_Outcome.thy ===== *)
theory Orch_Outcome
  imports Orch_Definitions Provider_Model
begin

text \<open>
  What a worker makes of the snapshot of a provider run (\<open>worker.go\<close>): the marker \<open>ADRO_RESULT_JSON\<close> is looked for in the
  messages of the agent, the tool events must prove that something was executed, and the status of the run with the
  marker gives the event, the result and the failure the attempt is finished with. JSON decoding is an argument
  (\<open>decode\<close>, which gives no value for a text that is not JSON); everything around it is modelled byte by byte.
\<close>

section \<open>Texts\<close>

text \<open>The lines of \<open>bufio.Scanner\<close>: without the newline and a carriage return before it, up to a line that fills the buffer.\<close>

definition maxLine :: int where "maxLine = 2097152"

definition dropCR :: "string \<Rightarrow> string" where
  "dropCR line = (if line \<noteq> [] \<and> last line = CHR 0x0D then butlast line else line)"

definition scanLines :: "string \<Rightarrow> string list" where
  "scanLines output = map dropCR (takeWhile (\<lambda>line. int (length line) < maxLine) (Split CHR 0x0A output))"

text \<open>What follows the last occurrence of \<open>sep\<close>.\<close>

fun afterLast :: "string \<Rightarrow> string \<Rightarrow> string option" where
  "afterLast sep [] = (if sep = [] then Some [] else None)"
| "afterLast sep (c # s) =
     (case afterLast sep s of
        Some t \<Rightarrow> Some t
      | None \<Rightarrow> if HasPrefix (c # s) sep then Some (drop (length sep) (c # s)) else None)"

text \<open>
  The scanner of \<open>extractJSONObject\<close>: the number of open braces, whether it is inside a string literal, and whether the
  next character is escaped. It gives the text up to the brace that closes the first one. The code walks over runes; no
  byte of a rune beyond ASCII is one of the characters it looks for.
\<close>

fun scanObject :: "int \<Rightarrow> bool \<Rightarrow> bool \<Rightarrow> string \<Rightarrow> string option" where
  "scanObject depth inString escaped [] = None"
| "scanObject depth inString escaped (c # s) =
     map_option ((#) c)
       (if inString then
          (if escaped then scanObject depth True False s
           else if c = CHR 0x5C then scanObject depth True True s
           else scanObject depth (c \<noteq> CHR 0x22) False s)
        else if c = CHR 0x22 then scanObject depth True False s
        else if c = CHR ''{'' then scanObject (depth + 1) False False s
        else if c = CHR ''}'' then (if depth - 1 = 0 then Some [] else scanObject (depth - 1) False False s)
        else scanObject depth False False s)"

definition extractJSONObject :: "string \<Rightarrow> string" where
  "extractJSONObject s = (case scanObject 0 False False s of Some t \<Rightarrow> t | None \<Rightarrow> [])"

definition underscoreless :: "string \<Rightarrow> string" where
  "underscoreless s = ToLower (replaceAll ''_'' '''' s)"

section \<open>The marker\<close>

type_synonym decoder = "string \<Rightarrow> any option"

text \<open>\<open>json.Unmarshal\<close> into a map.\<close>

definition decodeObject :: "decoder \<Rightarrow> string \<Rightarrow> fields option" where
  "decodeObject decode s = (case decode s of Some (VMap ElemAny fs) \<Rightarrow> Some fs | Some VNil \<Rightarrow> Some [] | _ \<Rightarrow> None)"

definition resultMarker :: string where "resultMarker = ''ADRO_RESULT_JSON''"

definition markerFragment :: "string \<Rightarrow> string" where
  "markerFragment s =
     (let fragment = TrimSpace s in
      if HasPrefix fragment ''='' \<or> HasPrefix fragment '':'' then TrimSpace (tl fragment) else fragment)"

definition parseProviderMarker :: "decoder \<Rightarrow> string \<Rightarrow> fields option" where
  "parseProviderMarker decode text =
     (case afterLast resultMarker text of
        None \<Rightarrow> None
      | Some rest \<Rightarrow>
          (let start = dropWhile (\<lambda>c. c \<noteq> CHR ''{'') (markerFragment rest); raw = extractJSONObject start in
           if start = [] \<or> raw = [] then None
           else case decodeObject decode raw of
             Some payload \<Rightarrow> Some payload
           | None \<Rightarrow> decodeObject decode (replaceAll [CHR 0x5C, CHR 0x22] [CHR 0x22] raw)))"

definition isProviderTerminalResultType :: "string \<Rightarrow> bool" where
  "isProviderTerminalResultType v \<longleftrightarrow>
     (let normalized = underscoreless (TrimSpace v) in normalized = ''result'' \<or> normalized = ''finalresult'')"

definition isProviderAgentMessageType :: "string \<Rightarrow> bool" where
  "isProviderAgentMessageType v \<longleftrightarrow>
     (let normalized = underscoreless (TrimSpace v) in normalized = ''agentmessage'' \<or> normalized = ''assistantmessage'')"

definition stringField :: "fields \<Rightarrow> string \<Rightarrow> string" where
  "stringField fs key = (case mget fs key of Some (VString s) \<Rightarrow> s | _ \<Rightarrow> [])"

definition textField :: "fields \<Rightarrow> string \<Rightarrow> string list" where
  "textField fs key = (if blank (stringField fs key) then [] else [stringField fs key])"

lemma mget_size: "mget fs k = Some (v :: any) \<Longrightarrow> size v < Suc (size_list (size_prod (\<lambda>_. 0) size) fs)"
  by (induction fs) (auto split: if_splits)

lemma elem_size: "v \<in> set vs \<Longrightarrow> size (v :: any) < Suc (size_list size vs)"
  by (induction vs) auto

function collectProviderMessageTexts :: "bool \<Rightarrow> any \<Rightarrow> string list" where
  "collectProviderMessageTexts inMessage (VSlice ElemAny vs) = concat (map (collectProviderMessageTexts inMessage) vs)"
| "collectProviderMessageTexts inMessage (VMap ElemAny fs) =
     (let typ = stringField fs ''type''; message = inMessage \<or> isProviderAgentMessageType typ in
      (if message then textField fs ''text'' else []) @
      (if isProviderTerminalResultType typ then textField fs ''output'' else []) @
      concat (map (\<lambda>key. case mget fs key of Some child \<Rightarrow> collectProviderMessageTexts message child | None \<Rightarrow> [])
        [''item'', ''params'', ''payload'', ''content'']))"
| "collectProviderMessageTexts inMessage VNil = []"
| "collectProviderMessageTexts inMessage (VBool b) = []"
| "collectProviderMessageTexts inMessage (VString s) = []"
| "collectProviderMessageTexts inMessage (VInt i) = []"
| "collectProviderMessageTexts inMessage (VInt8 i) = []"
| "collectProviderMessageTexts inMessage (VInt16 i) = []"
| "collectProviderMessageTexts inMessage (VInt32 i) = []"
| "collectProviderMessageTexts inMessage (VInt64 i) = []"
| "collectProviderMessageTexts inMessage (VUint i) = []"
| "collectProviderMessageTexts inMessage (VUint64 i) = []"
| "collectProviderMessageTexts inMessage (VFloat64 f) = []"
| "collectProviderMessageTexts inMessage (VFloat32 f) = []"
| "collectProviderMessageTexts inMessage (VStrings ss) = []"
| "collectProviderMessageTexts inMessage (VSlice ElemMap vs) = []"
| "collectProviderMessageTexts inMessage (VSlice ElemSlice vs) = []"
| "collectProviderMessageTexts inMessage (VMap ElemMap fs) = []"
| "collectProviderMessageTexts inMessage (VMap ElemSlice fs) = []"
| "collectProviderMessageTexts inMessage (VBudget b) = []"
  by pat_completeness auto
termination
  by (relation "measure (\<lambda>(_, v). size v)") (auto dest: mget_size elem_size)

function firstOutcome :: "fields \<Rightarrow> string" where
  "firstOutcome payload =
     (case concat (map (textField payload) [''adro_outcome'', ''final_outcome'', ''outcome'']) of
        v # _ \<Rightarrow> TrimSpace v
      | [] \<Rightarrow> (case mget payload ''result'' of Some (VMap ElemAny nested) \<Rightarrow> firstOutcome nested | _ \<Rightarrow> []))"
  by pat_completeness auto
termination
  by (relation "measure (size_list (size_prod (\<lambda>_. 0) size))") (auto dest: mget_size)

declare firstOutcome.simps [simp del]

fun providerStringSlice :: "any \<Rightarrow> string list option" where
  "providerStringSlice (VStrings ss) = Some ss"
| "providerStringSlice (VSlice ElemAny vs) =
     (if list_all (\<lambda>v. case v of VString s \<Rightarrow> \<not> blank s | _ \<Rightarrow> False) vs
      then Some (map (\<lambda>v. case v of VString s \<Rightarrow> s | _ \<Rightarrow> []) vs) else None)"
| "providerStringSlice _ = None"

definition normalizeProviderOutcome :: "string \<Rightarrow> string" where
  "normalizeProviderOutcome v =
     (let s = ToLower (TrimSpace v) in
      if s \<in> set [''bug'', ''defect'', ''regression''] then ''bug''
      else if s \<in> set [''failure'', ''failed'', ''fail'', ''error''] then ''failure''
      else if s \<in> set [''pass'', ''passed'', ''success'', ''succeeded'', ''ok''] then ''pass''
      else if s \<in> set [''timeout'', ''timed_out''] then ''timeout''
      else if s \<in> set [''cancel'', ''cancelled'', ''canceled''] then ''cancelled''
      else [])"

definition putAll :: "fields \<Rightarrow> fields \<Rightarrow> fields" where
  "putAll extra base = fold (\<lambda>(k, v). mput k v) extra base"

text \<open>The fields of the result a payload gives.\<close>

definition outcomeFields :: "fields \<Rightarrow> fields" where
  "outcomeFields payload =
     (let own = (case mget payload ''fields'' of Some (VMap ElemAny raw) \<Rightarrow> putAll raw [] | _ \<Rightarrow> []);
          reason = (if blank (stringField payload ''reason_code'') then own
            else mput ''provider_reason_code'' (VString (TrimSpace (stringField payload ''reason_code''))) own);
          summary = (if blank (stringField payload ''summary'') then reason
            else mput ''provider_summary'' (VString (stringField payload ''summary'')) reason);
          evidence = (case Option.bind (mget payload ''evidence_ids'') providerStringSlice of
              Some ids \<Rightarrow> mput ''provider_evidence_ids'' (VStrings ids) summary | None \<Rightarrow> summary)
      in mput ''provider_outcome'' (VString (firstOutcome payload)) evidence)"

definition outcomeCandidates :: "decoder \<Rightarrow> string \<Rightarrow> string list" where
  "outcomeCandidates decode output =
     (let found = concat (map (\<lambda>line. case decode line of
              Some v \<Rightarrow> collectProviderMessageTexts False v | None \<Rightarrow> [line])
            (filter (\<lambda>line. line \<noteq> []) (map TrimSpace (scanLines output))))
      in if found = [] \<and> \<not> blank output then [output] else found)"

definition usablePayload :: "decoder \<Rightarrow> string \<Rightarrow> fields option" where
  "usablePayload decode candidate =
     (case parseProviderMarker decode candidate of
        Some payload \<Rightarrow> if firstOutcome payload = [] then None else Some payload
      | None \<Rightarrow> None)"

definition providerOutcome :: "decoder \<Rightarrow> string \<Rightarrow> string \<times> fields" where
  "providerOutcome decode output =
     (case List.map_filter (usablePayload decode) (rev (outcomeCandidates decode output)) of
        payload # _ \<Rightarrow> (normalizeProviderOutcome (firstOutcome payload), outcomeFields payload)
      | [] \<Rightarrow> ([], []))"

section \<open>Tool evidence\<close>

text \<open>\<open>filepath.Base\<close> and \<open>filepath.Ext\<close>, with a slash as the separator.\<close>

definition filepathBase :: "string \<Rightarrow> string" where
  "filepathBase path =
     (let stripped = rev (dropWhile (\<lambda>c. c = CHR ''/'') (rev path)) in
      if path = [] then ''.'' else if stripped = [] then ''/'' else last (Split CHR ''/'' stripped))"

definition filepathExt :: "string \<Rightarrow> string" where
  "filepathExt path =
     (let element = last (Split CHR ''/'' path); tail = rev (takeWhile (\<lambda>c. c \<noteq> CHR ''.'') (rev element)) in
      if CHR ''.'' \<in> set element then CHR ''.'' # tail else [])"

definition TrimSuffix :: "string \<Rightarrow> string \<Rightarrow> string" where
  "TrimSuffix s suffix = (if HasPrefix (rev s) (rev suffix) then take (length s - length suffix) s else s)"

definition isCommandExecutionName :: "string \<Rightarrow> bool" where
  "isCommandExecutionName name \<longleftrightarrow> underscoreless (TrimSpace name) = ''commandexecution''"

definition mentionsCommand :: "RunSnapshot \<Rightarrow> bool" where
  "mentionsCommand snapshot \<longleftrightarrow> Contains (underscoreless (sn_Output snapshot)) ''commandexecution''"

definition requireCommandExecution :: "RunSnapshot \<Rightarrow> bool" where
  "requireCommandExecution snapshot \<longleftrightarrow>
     EqualFold (TrimSuffix (filepathBase (sn_ExecutorPath snapshot)) (filepathExt (sn_ExecutorPath snapshot))) ''codex'' \<or>
     mentionsCommand snapshot"

text \<open>The phases seen of each call, before and after.\<close>

definition notePhase :: "bool \<Rightarrow> ToolEvent \<Rightarrow> (string, bool \<times> bool) gomap \<Rightarrow> (string, bool \<times> bool) gomap" where
  "notePhase commandOnly event pairs =
     (if blank (te_CallID event) \<or> commandOnly \<and> \<not> isCommandExecutionName (te_Name event) then pairs
      else let phase = ToLower (TrimSpace (te_Phase event)); (b, a) = mget0 (False, False) pairs (te_CallID event)
           in mput (te_CallID event) (b \<or> phase = ''before'', a \<or> phase = ''after'') pairs)"

definition hasProviderToolEvidence :: "RunSnapshot \<Rightarrow> bool" where
  "hasProviderToolEvidence snapshot =
     (if \<not> mentionsCommand snapshot \<and> requireCommandExecution snapshot then False
      else list_ex (\<lambda>(b, a). b \<and> a) (mvals (fold (notePhase (requireCommandExecution snapshot)) (sn_ToolEvents snapshot) [])))"

section \<open>Usage\<close>

text \<open>
  Rounding to \<open>float64\<close>: 53 bits of mantissa, the nearest value and the even one of two, gradual underflow and infinity
  beyond the range.
\<close>

definition pow2 :: "int \<Rightarrow> rat" where
  "pow2 e = (if 0 \<le> e then 2 ^ nat e else 1 / 2 ^ nat (- e))"

definition roundEven :: "rat \<Rightarrow> int" where
  "roundEven r =
     (let q = \<lfloor>r\<rfloor>; h = r - of_int q in if h < 1 / 2 \<or> h = 1 / 2 \<and> even q then q else q + 1)"

function bitLength :: "int \<Rightarrow> int" where
  "bitLength n = (if n \<le> 0 then 0 else bitLength (n div 2) + 1)"
  by pat_completeness auto
termination by (relation "measure nat") auto

declare bitLength.simps [simp del]

definition roundFloat :: "rat \<Rightarrow> gofloat" where
  "roundFloat r =
     (let (n, d) = quotient_of \<bar>r\<bar>; e0 = bitLength n - bitLength d - 53;
          e1 = (if 2 ^ 53 \<le> \<bar>r\<bar> / pow2 e0 then e0 + 1 else e0); e = max e1 (- 1074); m = roundEven (\<bar>r\<bar> / pow2 e)
      in if 971 < e \<or> e = 971 \<and> m = 2 ^ 53 then FInf (0 < r) else FFin (sgn r * of_int m * pow2 e))"

fun times100 :: "gofloat \<Rightarrow> gofloat" where
  "times100 (FFin r) = roundFloat (r * 100)"
| "times100 f = f"

definition usageFields :: "RunSnapshot \<Rightarrow> fields" where
  "usageFields snapshot =
     (let usage = sn_Usage snapshot;
          counts = [(''tokens'', VInt64 (wrap64 (us_InputTokens usage + us_OutputTokens usage))), (''tool_calls'', VInt (int (length (sn_ToolEvents snapshot))))]
      in if float_less (FFin 0) (us_EstimatedCost usage)
         then counts @ [(''cost_cents'', VInt64 (int_of_float (times100 (us_EstimatedCost usage))))] else counts)"

section \<open>The outcome of a run\<close>

definition providerStringField :: "fields \<Rightarrow> string \<Rightarrow> string" where
  "providerStringField fs key = TrimSpace (stringField fs key)"

definition providerStringSliceField :: "fields \<Rightarrow> string \<Rightarrow> string list" where
  "providerStringSliceField fs key =
     (case Option.bind (mget fs key) providerStringSlice of Some ids \<Rightarrow> ids | None \<Rightarrow> [])"

definition appendProviderEvidence :: "string list \<Rightarrow> string \<Rightarrow> string list" where
  "appendProviderEvidence ids addition =
     (let v = TrimSpace addition in if v = [] \<or> v \<in> set (filter (\<lambda>x. \<not> blank x) ids) then ids else ids @ [v])"

definition mergeProviderFields :: "fields \<Rightarrow> fields \<Rightarrow> fields" where
  "mergeProviderFields base extra = putAll extra (putAll base [])"

record runOutcome =
  ro_Event :: string
  ro_Result :: StructuredResult
  ro_Failure :: "FailureReason option"
  ro_Artifacts :: "string list"

definition retryable :: "string \<Rightarrow> string \<Rightarrow> FailureReason option" where
  "retryable code message = Some \<lparr>f_Code = code, f_Message = message, f_Retryable = True\<rparr>"

text \<open>What the marker of a run says.\<close>

record report =
  pr_Outcome :: string
  pr_Fields :: fields
  pr_Reason :: string
  pr_Summary :: string
  pr_Evidence :: "string list"

definition runReport :: "decoder \<Rightarrow> RunSnapshot \<Rightarrow> report" where
  "runReport decode snapshot =
     (let (explicit, fs) = providerOutcome decode (sn_Output snapshot); summary = providerStringField fs ''provider_summary'' in
      \<lparr>pr_Outcome = explicit, pr_Fields = fs, pr_Reason = providerStringField fs ''provider_reason_code'',
       pr_Summary = (if summary = [] then sn_Output snapshot else summary),
       pr_Evidence = providerStringSliceField fs ''provider_evidence_ids''\<rparr>)"

definition reported :: "report \<Rightarrow> string \<Rightarrow> fields \<Rightarrow> string list \<Rightarrow> StructuredResult" where
  "reported r out fs ids =
     zeroResult\<lparr>sr_Outcome := out, sr_ReasonCode := pr_Reason r, sr_Summary := pr_Summary r, sr_Fields := fs, sr_EvidenceIDs := ids\<rparr>"

text \<open>
  A completed run. The branch for a run without a marker does not leave the switch: the assignments after it replace its
  event and result, and only its failure stays.
\<close>

definition completedOutcome :: "RunSnapshot \<Rightarrow> string \<Rightarrow> report \<Rightarrow> runOutcome" where
  "completedOutcome snapshot runID r =
     (let usage = usageFields snapshot; merged = mergeProviderFields usage (pr_Fields r);
          missing = ''provider completed without ADRO_RESULT_JSON evidence'';
          unproved = ''provider completed without a matched tool before/after pair'' in
      if pr_Outcome r \<noteq> [] \<and> \<not> hasProviderToolEvidence snapshot then
        \<lparr>ro_Event = ''failure'',
         ro_Result = zeroResult\<lparr>sr_Outcome := ''failure'', sr_ReasonCode := ''provider_tool_evidence_missing'', sr_Summary := unproved,
           sr_Fields := mergeProviderFields usage [(''provider_output_sha256'', VString (sn_OutputSHA256 snapshot)),
             (''tool_event_count'', VInt (int (length (sn_ToolEvents snapshot))))],
           sr_EvidenceIDs := [''provider-run:'' @ runID @ '':missing-tool-evidence'']\<rparr>,
         ro_Failure = retryable ''provider_tool_evidence_missing'' unproved, ro_Artifacts = pr_Evidence r\<rparr>
      else
        let (event, result, failure) =
              (if pr_Outcome r = ''bug'' then
                 (''bug'', reported r ''bug'' merged (pr_Evidence r), retryable ''provider_reported_bug'' (pr_Summary r))
               else if pr_Outcome r = ''failure'' then
                 (''failure'', reported r ''failure'' merged (pr_Evidence r), retryable ''provider_reported_failure'' (pr_Summary r))
               else
                 (''success'', reported r ''pass'' (if pr_Fields r = [] then usage else merged) (pr_Evidence r),
                  if pr_Outcome r = [] then retryable ''provider_result_missing'' missing else None));
            ids = appendProviderEvidence (sr_EvidenceIDs result) (sn_LastEventID snapshot)
        in \<lparr>ro_Event = event,
            ro_Result = result\<lparr>sr_EvidenceIDs := (if ids = [] then [''provider-run:'' @ runID @ '':completed''] else ids)\<rparr>,
            ro_Failure = failure, ro_Artifacts = pr_Evidence r\<rparr>)"

text \<open>The switch of \<open>Reconcile\<close> over the status; a run in any other state is left alone.\<close>

definition classifyRun :: "decoder \<Rightarrow> RunSnapshot \<Rightarrow> string \<Rightarrow> runOutcome option" where
  "classifyRun decode snapshot runID =
     (let r = runReport decode snapshot; status = ToLower (TrimSpace (sn_Status snapshot));
          merged = mergeProviderFields (usageFields snapshot) (pr_Fields r);
          ended = (\<lambda>out code suffix. Some \<lparr>ro_Event = out,
            ro_Result = reported r out merged (appendProviderEvidence (pr_Evidence r) (''provider-run:'' @ runID @ suffix)),
            ro_Failure = retryable code (pr_Summary r), ro_Artifacts = pr_Evidence r\<rparr>)
      in if status \<in> set [''completed'', ''passed'', ''success'', ''succeeded''] then Some (completedOutcome snapshot runID r)
         else if status \<in> set [''failed'', ''error'', ''failure''] then
           (if pr_Outcome r = ''bug'' then ended ''bug'' ''provider_reported_bug'' '':bug'' else ended ''failure'' ''provider_failed'' '':failed'')
         else if status \<in> set [''timed_out'', ''timeout'', ''timedout''] then ended ''timeout'' ''provider_timeout'' '':timeout''
         else if status \<in> set [''cancelled'', ''canceled''] then
           Some \<lparr>ro_Event = ''cancel'',
             ro_Result = zeroResult\<lparr>sr_Outcome := ''cancelled'', sr_Summary := sn_Error snapshot, sr_Fields := usageFields snapshot,
               sr_EvidenceIDs := [''provider-run:'' @ runID @ '':cancelled'']\<rparr>,
             ro_Failure = Some \<lparr>f_Code = ''cancelled'', f_Message = sn_Error snapshot, f_Retryable = False\<rparr>, ro_Artifacts = pr_Evidence r\<rparr>
         else None)"

section \<open>JSON objects\<close>

text \<open>
  Texts with balanced braces outside their string literals: every JSON object is a brace, such a text, and a brace. The
  body of a literal has no bare quote, and an escape takes the next character with it.
\<close>

fun literalBody :: "string \<Rightarrow> bool" where
  "literalBody [] = True"
| "literalBody (c # s) =
     (if c = CHR 0x5C then (case s of [] \<Rightarrow> False | _ # t \<Rightarrow> literalBody t) else c \<noteq> CHR 0x22 \<and> literalBody s)"

inductive balanced :: "string \<Rightarrow> bool" where
  empty: "balanced []"
| plain: "c \<noteq> CHR 0x22 \<Longrightarrow> c \<noteq> CHR ''{'' \<Longrightarrow> c \<noteq> CHR ''}'' \<Longrightarrow> balanced t \<Longrightarrow> balanced (c # t)"
| literal: "literalBody b \<Longrightarrow> balanced t \<Longrightarrow> balanced (CHR 0x22 # b @ CHR 0x22 # t)"
| object: "balanced t \<Longrightarrow> balanced u \<Longrightarrow> balanced (CHR ''{'' # t @ CHR ''}'' # u)"

text \<open>The scanner passes over a literal and over a balanced text.\<close>

lemma scan_literal:
  "literalBody b \<Longrightarrow> scanObject d True False (b @ CHR 0x22 # s) = map_option ((@) (b @ [CHR 0x22])) (scanObject d False False s)"
proof (induction b rule: literalBody.induct)
  case 1
  then show ?case by (cases "scanObject d False False s") simp_all
next
  case (2 c b)
  show ?case
  proof (cases "c = CHR 0x5C")
    case True
    then obtain e u where b: "b = e # u" "literalBody u" using 2(3) by (cases b) auto
    then show ?thesis using 2(1) [OF True b(1)] True by (cases "scanObject d False False s") simp_all
  next
    case False
    then show ?thesis using 2(2,3) by (cases "scanObject d False False s") simp_all
  qed
qed

lemma scan_balanced:
  assumes "balanced t" and "0 < d"
  shows "scanObject d False False (t @ s) = map_option ((@) t) (scanObject d False False s)"
  using assms
proof (induction arbitrary: d s rule: balanced.induct)
  case empty
  then show ?case by (cases "scanObject d False False s") simp_all
next
  case (plain c t)
  then show ?case by (cases "scanObject d False False s") simp_all
next
  case (literal b t)
  then show ?case by (cases "scanObject d False False s") (simp_all add: scan_literal)
next
  case (object t u)
  then show ?case by (cases "scanObject d False False s") simp_all
qed

text \<open>What the scanner returns closes the open braces, one balanced text after the other.\<close>

fun closing :: "nat \<Rightarrow> string \<Rightarrow> bool" where
  "closing 0 r \<longleftrightarrow> r = []"
| "closing (Suc d) r \<longleftrightarrow> (\<exists>t r'. balanced t \<and> r = t @ CHR ''}'' # r' \<and> closing d r')"

lemma closingI: "balanced t \<Longrightarrow> closing d r \<Longrightarrow> closing (Suc d) (t @ CHR ''}'' # r)"
  by auto

lemma closingE:
  assumes "closing (Suc d) r"
  obtains t r' where "balanced t" "r = t @ CHR ''}'' # r'" "closing d r'"
  using assms by auto

lemma closing_plain:
  assumes "closing (Suc d) r" and "c \<noteq> CHR 0x22" and "c \<noteq> CHR ''{''" and "c \<noteq> CHR ''}''"
  shows "closing (Suc d) (c # r)"
proof -
  obtain t r' where "balanced t" "r = t @ CHR ''}'' # r'" "closing d r'" using assms(1) by (rule closingE)
  then show ?thesis using closingI [OF balanced.plain [OF assms(2-4)], of t d r'] by simp
qed

lemma closing_literal:
  assumes "closing (Suc d) r" and "literalBody b"
  shows "closing (Suc d) (CHR 0x22 # b @ CHR 0x22 # r)"
proof -
  obtain t r' where "balanced t" "r = t @ CHR ''}'' # r'" "closing d r'" using assms(1) by (rule closingE)
  then show ?thesis using closingI [OF balanced.literal [OF assms(2)], of t d r'] by simp
qed

lemma closing_open:
  assumes "closing (Suc (Suc d)) r"
  shows "closing (Suc d) (CHR ''{'' # r)"
proof -
  obtain t r' where t: "balanced t" "r = t @ CHR ''}'' # r'" "closing (Suc d) r'" using assms by (rule closingE)
  obtain u r'' where u: "balanced u" "r' = u @ CHR ''}'' # r''" "closing d r''" using t(3) by (rule closingE)
  show ?thesis using closingI [OF balanced.object [OF t(1) u(1)] u(3)] t(2) u(2) by simp
qed

declare closing.simps(2) [simp del]

lemma scan_in_literal:
  assumes "scanObject d True False s = Some r"
  shows "\<exists>b s' r'. literalBody b \<and> s = b @ CHR 0x22 # s' \<and> r = b @ CHR 0x22 # r' \<and> scanObject d False False s' = Some r'"
  using assms
proof (induction "length s" arbitrary: s r rule: less_induct)
  case less
  show ?case
  proof (cases s)
    case (Cons c t)
    show ?thesis
    proof (cases "c = CHR 0x5C")
      case True
      then obtain e u r0 where t: "t = e # u" "scanObject d True False u = Some r0" "r = c # e # r0" using less.prems Cons by (cases t) auto
      then obtain b s' r' where "literalBody b" "u = b @ CHR 0x22 # s'" "r0 = b @ CHR 0x22 # r'" "scanObject d False False s' = Some r'"
        using less.hyps [of u r0] Cons by auto
      then show ?thesis using t Cons True by (intro exI [of _ "c # e # b"] exI [of _ s'] exI [of _ r']) simp
    next
      case other: False
      show ?thesis
      proof (cases "c = CHR 0x22")
        case True
        then obtain r' where "scanObject d False False t = Some r'" "r = c # r'" using less.prems Cons by auto
        then show ?thesis using Cons True by (intro exI [of _ "[]"] exI [of _ t] exI [of _ r']) simp
      next
        case False
        then obtain r0 where r0: "scanObject d True False t = Some r0" "r = c # r0" using less.prems Cons other by auto
        then obtain b s' r' where "literalBody b" "t = b @ CHR 0x22 # s'" "r0 = b @ CHR 0x22 # r'" "scanObject d False False s' = Some r'"
          using less.hyps [of t r0] Cons by auto
        then show ?thesis using r0 Cons other False by (intro exI [of _ "c # b"] exI [of _ s'] exI [of _ r']) simp
      qed
    qed
  qed (use less.prems in simp)
qed

lemma scan_closing:
  assumes "scanObject (int (Suc d)) False False s = Some r"
  shows "closing (Suc d) r \<and> (\<exists>rest. s = r @ rest)"
  using assms
proof (induction "length s" arbitrary: s d r rule: less_induct)
  case less
  show ?case
  proof (cases s)
    case (Cons c t)
    consider "c = CHR 0x22" | "c = CHR ''{''" | "c = CHR ''}''" | "c \<noteq> CHR 0x22" "c \<noteq> CHR ''{''" "c \<noteq> CHR ''}''" by blast
    then show ?thesis
    proof cases
      case 1
      then obtain r0 where r0: "scanObject (int (Suc d)) True False t = Some r0" "r = c # r0" using less.prems Cons by auto
      then obtain b s' r' where b: "literalBody b" "t = b @ CHR 0x22 # s'" "r0 = b @ CHR 0x22 # r'" "scanObject (int (Suc d)) False False s' = Some r'"
        using scan_in_literal by blast
      then show ?thesis using less.hyps [of s' d r'] Cons r0 1 closing_literal by auto
    next
      case 2
      then obtain r0 where r0: "scanObject (int (Suc (Suc d))) False False t = Some r0" "r = c # r0"
        using less.prems Cons by (auto simp: algebra_simps)
      then show ?thesis using less.hyps [of t "Suc d" r0] Cons 2 closing_open by auto
    next
      case 3
      show ?thesis
      proof (cases d)
        case 0
        then have "r = [c]" using less.prems Cons 3 by simp
        then show ?thesis using closingI [OF balanced.empty, of 0 "[]"] 0 Cons 3 by simp
      next
        case (Suc d')
        then obtain r0 where r0: "scanObject (int (Suc d')) False False t = Some r0" "r = c # r0" using less.prems Cons 3 by auto
        then have "closing (Suc d') r0 \<and> (\<exists>rest. t = r0 @ rest)" using less.hyps [of t d' r0] Cons by simp
        then show ?thesis using closingI [OF balanced.empty, of "Suc d'" r0] r0(2) Cons 3 Suc by auto
      qed
    next
      case 4
      then obtain r0 where r0: "scanObject (int (Suc d)) False False t = Some r0" "r = c # r0" using less.prems Cons by auto
      then show ?thesis using less.hyps [of t d r0] Cons 4 closing_plain by auto
    qed
  qed (use less.prems in simp)
qed

text \<open>
  C19: The object after the marker is cut out exactly. On a text that starts with a brace \<open>extractJSONObject\<close> returns a
  non-empty text exactly when the brace is closed in it, and then it returns the text up to that brace: braces in string
  literals, and escaped quotes in them, do not count.
\<close>

theorem extractJSONObject_decides:
  "extractJSONObject (CHR ''{'' # s) = r \<and> r \<noteq> [] \<longleftrightarrow>
     (\<exists>t rest. balanced t \<and> s = t @ CHR ''}'' # rest \<and> r = CHR ''{'' # t @ ''}'')"
proof
  assume "extractJSONObject (CHR ''{'' # s) = r \<and> r \<noteq> []"
  then obtain r0 where r0: "scanObject (int (Suc 0)) False False s = Some r0" "r = CHR ''{'' # r0"
    by (auto simp: extractJSONObject_def split: option.splits)
  then show "\<exists>t rest. balanced t \<and> s = t @ CHR ''}'' # rest \<and> r = CHR ''{'' # t @ ''}''"
    using scan_closing [OF r0(1)] by (auto elim!: closingE)
next
  assume "\<exists>t rest. balanced t \<and> s = t @ CHR ''}'' # rest \<and> r = CHR ''{'' # t @ ''}''"
  then show "extractJSONObject (CHR ''{'' # s) = r \<and> r \<noteq> []" by (auto simp: extractJSONObject_def scan_balanced)
qed

section \<open>The marker round trip\<close>

lemma Split_join: "Split c (a @ c # b) = Split c a @ Split c b"
proof (induction a)
  case (Cons x a)
  then show ?case using Split_nonempty [of c a] by (cases "Split c a") auto
qed simp

lemma Split_single: "c \<notin> set l \<Longrightarrow> Split c l = [l]"
  by (induction l) auto

definition plainChar :: "char \<Rightarrow> bool" where
  "plainChar c \<longleftrightarrow> \<not> ascii_space c \<and> (of_char c :: nat) < 128"

lemma TrimSpace_ends:
  assumes "plainChar c" and "plainChar d" and "s = c # u" and "s = v @ [d]"
  shows "TrimSpace s = s"
proof -
  have "space_prefix s = 0"
    using assms(1,3) by (cases "c # u" rule: space_prefix.cases) (auto simp: plainChar_def dest: space2_high space3_high)
  moreover have "space_suffix (rev s) = 0"
    using assms(2,4) by (cases "d # rev v" rule: space_suffix.cases) (auto simp: plainChar_def dest: space2_high space3_high)
  ultimately show ?thesis by (simp add: TrimSpace_def trim_by_fixed)
qed

lemma plain_chars: "plainChar CHR ''A''" "plainChar CHR ''=''" "plainChar CHR ''{''" "plainChar CHR ''}''"
  by (simp_all add: plainChar_def ascii_space_def)

lemma afterLast_None: "sep \<noteq> [] \<Longrightarrow> afterLast sep s = None \<longleftrightarrow> \<not> Contains s sep"
  by (induction s) (auto split: option.splits)

lemma marker_last:
  assumes "\<not> Contains s resultMarker"
  shows "afterLast resultMarker (resultMarker @ ''='' @ s) = Some (CHR ''='' # s)"
proof -
  have cons: "resultMarker @ ''='' @ s = CHR ''A'' # (tl resultMarker @ ''='' @ s)" and ne: "resultMarker \<noteq> []" by (simp_all add: resultMarker_def)
  have "\<not> Contains (tl resultMarker @ ''='' @ s) resultMarker" using assms by (simp add: resultMarker_def)
  then have "afterLast resultMarker (tl resultMarker @ ''='' @ s) = None" using afterLast_None [OF ne] by blast
  then show ?thesis by (simp only: cons afterLast.simps(2) option.case) (simp add: resultMarker_def)
qed

lemma marker_parsed:
  assumes "balanced t" and "\<not> Contains (CHR ''{'' # t @ ''}'') resultMarker" and "decode (CHR ''{'' # t @ ''}'') = Some (VMap ElemAny payload)"
  shows "parseProviderMarker decode (resultMarker @ ''='' @ CHR ''{'' # t @ ''}'') = Some payload"
proof -
  let ?o = "CHR ''{'' # t @ ''}''"
  have "TrimSpace (CHR ''='' # ?o) = CHR ''='' # ?o"
    by (rule TrimSpace_ends [OF plain_chars(2,4), where u = ?o and v = "CHR ''='' # CHR ''{'' # t"]) simp_all
  moreover have "TrimSpace ?o = ?o" by (rule TrimSpace_ends [OF plain_chars(3,4), where u = "t @ ''}''" and v = "CHR ''{'' # t"]) simp_all
  ultimately have fragment: "markerFragment (CHR ''='' # ?o) = ?o" by (simp add: markerFragment_def)
  have raw: "extractJSONObject ?o = ?o" using scan_balanced [OF assms(1), of 1 "''}''"] by (simp add: extractJSONObject_def)
  show ?thesis
    using marker_last [OF assms(2)] fragment raw assms(3) by (simp add: parseProviderMarker_def decodeObject_def Let_def)
qed

text \<open>
  C25: The result a provider is asked for is read back. When the output ends with the line \<open>ADRO_RESULT_JSON=\<close> and a JSON
  object (which does not contain the marker again), the outcome and the fields are those of the object, whatever other
  lines, messages and markers come before it, as long as no earlier line overflows the scanner.
\<close>

theorem providerOutcome_roundtrip:
  assumes "balanced t" and "obj = CHR ''{'' # t @ ''}''" and "line = resultMarker @ ''='' @ obj"
    and "CHR 0x0A \<notin> set obj" and "\<not> Contains obj resultMarker"
    and "decode obj = Some (VMap ElemAny payload)" and "decode line = None" and "firstOutcome payload \<noteq> []"
    and "\<forall>l\<in>set (Split CHR 0x0A earlier). int (length l) < maxLine" and "int (length line) < maxLine" and "trail = [] \<or> trail = [CHR 0x0A]"
  shows "providerOutcome decode (earlier @ [CHR 0x0A] @ line @ trail) = (normalizeProviderOutcome (firstOutcome payload), outcomeFields payload)"
proof -
  have "CHR 0x0A \<notin> set line" using assms(3,4) by (simp add: resultMarker_def)
  then have lines: "Split CHR 0x0A (line @ trail) = [line] \<or> Split CHR 0x0A (line @ trail) = [line, []]"
    using assms(11) Split_join [of "CHR 0x0A" line "[]"] by (auto simp: Split_single)
  have short: "takeWhile (\<lambda>l. int (length l) < maxLine) (Split CHR 0x0A earlier @ Split CHR 0x0A (line @ trail)) =
      Split CHR 0x0A earlier @ Split CHR 0x0A (line @ trail)"
    unfolding takeWhile_eq_all_conv using assms(9,10) lines by (auto simp: maxLine_def)
  have "Split CHR 0x0A (earlier @ [CHR 0x0A] @ line @ trail) = Split CHR 0x0A earlier @ Split CHR 0x0A (line @ trail)"
    using Split_join [of "CHR 0x0A" earlier "line @ trail"] by simp
  then have scan: "scanLines (earlier @ [CHR 0x0A] @ line @ trail) = map dropCR (Split CHR 0x0A earlier @ Split CHR 0x0A (line @ trail))"
    unfolding scanLines_def by (simp only: short)
  have "dropCR line = line" using assms(2,3) by (simp add: dropCR_def)
  moreover have "TrimSpace line = line"
    using assms(2,3)
    by (intro TrimSpace_ends [OF plain_chars(1,4), where u = "tl line" and v = "butlast line"]) (simp_all add: resultMarker_def)
  moreover have "line \<noteq> []" "dropCR [] = []" using assms(3) by (simp_all add: resultMarker_def dropCR_def)
  ultimately have kept: "filter (\<lambda>l. l \<noteq> []) (map TrimSpace (map dropCR (Split CHR 0x0A (line @ trail)))) = [line]" using lines by auto
  obtain xs where "outcomeCandidates decode (earlier @ [CHR 0x0A] @ line @ trail) = xs @ [line]"
    unfolding outcomeCandidates_def Let_def scan map_append filter_append concat_append kept by (simp add: assms(7))
  moreover have "usablePayload decode line = Some payload"
    using marker_parsed [OF assms(1)] assms(2,3,5,6,8) by (simp add: usablePayload_def)
  ultimately show ?thesis by (simp add: providerOutcome_def map_filter_simps)
qed

text \<open>The text of a JSON object, and the decoder of the examples, which knows one text.\<close>

definition quoted :: "string \<Rightarrow> string" where "quoted s = CHR 0x22 # s @ [CHR 0x22]"

definition exObject :: string where "exObject = CHR ''{'' # (quoted ''outcome'' @ '':'' @ quoted ''defect'') @ ''}''"

definition exDecode :: "string \<Rightarrow> any \<Rightarrow> decoder" where "exDecode s v t = (if t = s then Some v else None)"

definition exPayload :: fields where "exPayload = [(''outcome'', VString ''defect'')]"

theorem providerOutcome_roundtrip_witness:
  "providerOutcome (exDecode exObject (VMap ElemAny exPayload)) (''hello'' @ [CHR 0x0A] @ (resultMarker @ ''='' @ exObject) @ [CHR 0x0A]) =
     (''bug'', [(''provider_outcome'', VString ''defect'')])"
proof -
  have b: "balanced (quoted ''outcome'' @ '':'' @ quoted ''defect'')"
    using balanced.literal [of "''outcome''", OF _ balanced.plain [OF _ _ _ balanced.literal [of "''defect''", OF _ balanced.empty]], of "CHR '':''"]
    by (simp add: quoted_def)
  have facts: "CHR 0x0A \<notin> set exObject" "\<not> Contains exObject resultMarker"
      "exDecode exObject (VMap ElemAny exPayload) exObject = Some (VMap ElemAny exPayload)"
      "exDecode exObject (VMap ElemAny exPayload) (resultMarker @ ''='' @ exObject) = None" "firstOutcome exPayload \<noteq> []" by code_simp+
  have short: "int (length (resultMarker @ ''='' @ exObject)) < maxLine" by (simp add: resultMarker_def exObject_def quoted_def maxLine_def)
  have "\<forall>l\<in>set (Split CHR 0x0A ''hello''). int (length l) < maxLine" by (simp add: maxLine_def)
  moreover have "(normalizeProviderOutcome (firstOutcome exPayload), outcomeFields exPayload) = (''bug'', [(''provider_outcome'', VString ''defect'')])"
    by code_simp
  ultimately show ?thesis
    using providerOutcome_roundtrip [OF b exObject_def refl facts(1-5) _ short, of "''hello''" "[CHR 0x0A]"] by simp
qed

section \<open>What proves a run\<close>

abbreviation phaseOf :: "ToolEvent \<Rightarrow> string" where
  "phaseOf e \<equiv> ToLower (TrimSpace (te_Phase e))"

definition counted :: "bool \<Rightarrow> string \<Rightarrow> ToolEvent \<Rightarrow> bool" where
  "counted commandOnly i e \<longleftrightarrow> te_CallID e = i \<and> \<not> blank i \<and> (commandOnly \<longrightarrow> isCommandExecutionName (te_Name e))"

lemma phases_noted:
  "mget0 (False, False) (fold (notePhase c) es m) i =
     (fst (mget0 (False, False) m i) \<or> (\<exists>e\<in>set es. counted c i e \<and> phaseOf e = ''before''),
      snd (mget0 (False, False) m i) \<or> (\<exists>e\<in>set es. counted c i e \<and> phaseOf e = ''after''))"
proof (induction es arbitrary: m)
  case (Cons e es)
  have "mget0 (False, False) (notePhase c e m) i =
      (fst (mget0 (False, False) m i) \<or> counted c i e \<and> phaseOf e = ''before'',
       snd (mget0 (False, False) m i) \<or> counted c i e \<and> phaseOf e = ''after'')"
    by (auto simp: notePhase_def counted_def Let_def split: prod.splits)
  then show ?case using Cons.IH by auto
qed simp

lemma both_noted: "mget0 (False, False) m i = (True, True) \<longleftrightarrow> mget m i = Some (True, True)"
  by (simp add: mget0_def split: option.splits)

lemma both_listed: "list_ex (\<lambda>(b, a). b \<and> a) ps \<longleftrightarrow> (True, True) \<in> set ps"
  by (induction ps) auto

lemma phases_wf: "mwf m \<Longrightarrow> mwf (fold (notePhase c) es m)"
proof (induction es arbitrary: m)
  case (Cons e es)
  have "mwf (notePhase c e m)" using Cons.prems by (auto simp: notePhase_def Let_def split: prod.splits)
  then show ?case using Cons.IH by simp
qed simp

text \<open>
  What counts as proof of work. A completed run counts as proved exactly when some call, with a call ID that is not
  blank, has an event before and an event after it; for a run of the Codex executable, or one whose output mentions
  command executions, both events must be of a command execution and the output must mention one.
\<close>

theorem hasProviderToolEvidence_meaning:
  "hasProviderToolEvidence snapshot \<longleftrightarrow>
     (requireCommandExecution snapshot \<longrightarrow> mentionsCommand snapshot) \<and>
     (\<exists>i. \<exists>b\<in>set (sn_ToolEvents snapshot). \<exists>a\<in>set (sn_ToolEvents snapshot).
        counted (requireCommandExecution snapshot) i b \<and> phaseOf b = ''before'' \<and>
        counted (requireCommandExecution snapshot) i a \<and> phaseOf a = ''after'')"
proof -
  let ?m = "fold (notePhase (requireCommandExecution snapshot)) (sn_ToolEvents snapshot) []"
  have wf: "mwf ?m" by (rule phases_wf) simp
  have "list_ex (\<lambda>(b, a). b \<and> a) (mvals ?m) \<longleftrightarrow> (True, True) \<in> set (mvals ?m)" by (rule both_listed)
  also have "\<dots> \<longleftrightarrow> (\<exists>i. mget0 (False, False) ?m i = (True, True))"
    unfolding mvals_mget [OF wf] both_noted ..
  also have "\<dots> \<longleftrightarrow> (\<exists>i. (\<exists>b\<in>set (sn_ToolEvents snapshot). counted (requireCommandExecution snapshot) i b \<and> phaseOf b = ''before'') \<and>
      (\<exists>a\<in>set (sn_ToolEvents snapshot). counted (requireCommandExecution snapshot) i a \<and> phaseOf a = ''after''))"
    unfolding phases_noted prod.inject mget0_def [of _ "[]"] by simp
  finally show ?thesis unfolding hasProviderToolEvidence_def by auto
qed

definition exEvent :: "string \<Rightarrow> ToolEvent" where
  "exEvent phase = \<lparr>te_CallID = ''c1'', te_Name = ''command_execution'', te_Phase = phase, te_Payload = [], te_Sequence = 0\<rparr>"

definition exSnapshot :: "string \<Rightarrow> ToolEvent list \<Rightarrow> RunSnapshot" where
  "exSnapshot output events = \<lparr>sn_ID = ''r1'', sn_Status = ''Completed'', sn_LastEventID = '''', sn_ExecutorPath = ''/usr/bin/codex'',
     sn_OutputSHA256 = '''', sn_Output = output, sn_Error = '''',
     sn_Usage = \<lparr>us_InputTokens = 7, us_OutputTokens = 5, us_CacheReadTokens = 0, us_CacheWriteTokens = 0, us_DurationMS = 0, us_EstimatedCost = FFin (3 / 2)\<rparr>,
     sn_ToolEvents = events\<rparr>"

theorem hasProviderToolEvidence_meaning_witness:
  "hasProviderToolEvidence (exSnapshot ''Command_Execution'' [exEvent ''before'', exEvent ''After'']) \<and>
   \<not> hasProviderToolEvidence (exSnapshot ''done'' [exEvent ''before'', exEvent ''After''])"
proof -
  let ?e = "[exEvent ''before'', exEvent ''After'']"
  have r: "requireCommandExecution (exSnapshot ''Command_Execution'' ?e)" "mentionsCommand (exSnapshot ''Command_Execution'' ?e)"
    "requireCommandExecution (exSnapshot ''done'' ?e)" "\<not> mentionsCommand (exSnapshot ''done'' ?e)"
    "counted True ''c1'' (exEvent ''before'')" "counted True ''c1'' (exEvent ''After'')"
    "phaseOf (exEvent ''before'') = ''before''" "phaseOf (exEvent ''After'') = ''after''" by code_simp+
  then show ?thesis
    using hasProviderToolEvidence_meaning [of "exSnapshot ''Command_Execution'' ?e"] hasProviderToolEvidence_meaning [of "exSnapshot ''done'' ?e"]
    by (auto simp: exSnapshot_def)
qed

section \<open>The outcome of a run\<close>

lemma evidence_added: "\<not> blank x \<Longrightarrow> appendProviderEvidence ids x \<noteq> []"
  by (auto simp: appendProviderEvidence_def Let_def)

lemma run_evidence_plain: "\<not> blank (''provider-run:'' @ s)"
  using plain_not_blank [of "CHR ''p''" "''rovider-run:'' @ s"] by (simp add: ascii_space_def)

definition statusOf :: "RunSnapshot \<Rightarrow> string" where
  "statusOf snapshot = ToLower (TrimSpace (sn_Status snapshot))"

definition completedRun :: "RunSnapshot \<Rightarrow> bool" where
  "completedRun snapshot \<longleftrightarrow> statusOf snapshot \<in> set [''completed'', ''passed'', ''success'', ''succeeded'']"

definition failedRun :: "RunSnapshot \<Rightarrow> bool" where
  "failedRun snapshot \<longleftrightarrow> statusOf snapshot \<in> set [''failed'', ''error'', ''failure'']"

lemma completedOutcome_event:
  "ro_Event (completedOutcome snapshot runID r) =
     (if pr_Outcome r \<noteq> [] \<and> \<not> hasProviderToolEvidence snapshot then ''failure''
      else if pr_Outcome r = ''bug'' then ''bug'' else if pr_Outcome r = ''failure'' then ''failure'' else ''success'')"
  by (simp add: completedOutcome_def Let_def)

lemma completedOutcome_failure:
  "ro_Failure (completedOutcome snapshot runID r) = None \<longleftrightarrow>
     pr_Outcome r \<notin> {[], ''bug'', ''failure''} \<and> hasProviderToolEvidence snapshot"
  by (auto simp: completedOutcome_def Let_def retryable_def)

lemma completedOutcome_evidence: "sr_EvidenceIDs (ro_Result (completedOutcome snapshot runID r)) \<noteq> []"
  by (simp add: completedOutcome_def Let_def)

lemma report_outcome: "pr_Outcome (runReport decode snapshot) = fst (providerOutcome decode (sn_Output snapshot))"
  by (cases "providerOutcome decode (sn_Output snapshot)") (simp add: runReport_def Let_def)

text \<open>
  C10: What a run can do to the graph. Every run that is finished has at least one piece of evidence. A success comes only
  from a completed run, and when the run has an outcome, only with proof of work, a matched pair of tool events. A bug comes
  only from a marker that says so, of a completed run with proof of work or of a run that ended as failed, of which no proof
  is asked (\<open>failed_run_bug_unproved\<close>). A completed run with an outcome and without proof of work is a failure to be retried.
  A finished run without a failure on record is a completed one with an outcome and proof of work. A completed run without
  a marker is a success with the failure \<open>provider_result_missing\<close> on record (\<open>missing_result_passes\<close>).
\<close>

theorem classifyRun_sound:
  assumes "classifyRun decode snapshot runID = Some x"
  shows "sr_EvidenceIDs (ro_Result x) \<noteq> [] \<and>
    (ro_Event x = ''success'' \<longrightarrow> completedRun snapshot \<and>
       (hasProviderToolEvidence snapshot \<or> fst (providerOutcome decode (sn_Output snapshot)) = [])) \<and>
    (ro_Event x = ''bug'' \<longrightarrow> fst (providerOutcome decode (sn_Output snapshot)) = ''bug'' \<and>
       (completedRun snapshot \<and> hasProviderToolEvidence snapshot \<or> ToLower (TrimSpace (sn_Status snapshot)) \<in> {''failed'', ''error'', ''failure''})) \<and>
    (completedRun snapshot \<and> fst (providerOutcome decode (sn_Output snapshot)) \<noteq> [] \<and> \<not> hasProviderToolEvidence snapshot \<longrightarrow>
       ro_Event x = ''failure'' \<and> (\<exists>f. ro_Failure x = Some f \<and> f_Code f = ''provider_tool_evidence_missing'' \<and> f_Retryable f)) \<and>
    (ro_Failure x = None \<longrightarrow> ro_Event x = ''success'' \<and> hasProviderToolEvidence snapshot \<and>
       fst (providerOutcome decode (sn_Output snapshot)) \<noteq> [])"
proof -
  let ?r = "runReport decode snapshot"
  show ?thesis
  proof (cases "completedRun snapshot")
    case True
    then have x: "x = completedOutcome snapshot runID ?r" using assms by (auto simp: classifyRun_def Let_def completedRun_def statusOf_def)
    have "ro_Event x = ''failure'' \<and> (\<exists>f. ro_Failure x = Some f \<and> f_Code f = ''provider_tool_evidence_missing'' \<and> f_Retryable f)"
      if "pr_Outcome ?r \<noteq> []" "\<not> hasProviderToolEvidence snapshot"
      using that by (simp add: x completedOutcome_def Let_def retryable_def)
    then show ?thesis
      using True x completedOutcome_evidence completedOutcome_failure [of snapshot runID ?r] completedOutcome_event [of snapshot runID ?r]
      unfolding report_outcome [symmetric] by auto
  next
    case False
    then show ?thesis
      using assms evidence_added [OF run_evidence_plain] unfolding report_outcome [symmetric]
      by (auto simp: classifyRun_def Let_def completedRun_def statusOf_def reported_def retryable_def split: if_splits)
  qed
qed

text \<open>
  The proof of work that a completed run needs is not asked of a failed one: its marker alone makes a bug, which can take
  a feedback edge.
\<close>

theorem failed_run_bug_unproved:
  assumes "ToLower (TrimSpace (sn_Status snapshot)) = ''failed''" and "fst (providerOutcome decode (sn_Output snapshot)) = ''bug''"
  shows "\<exists>x. classifyRun decode snapshot runID = Some x \<and> ro_Event x = ''bug''"
proof -
  have "pr_Outcome (runReport decode snapshot) = ''bug''" using assms(2) by (simp add: report_outcome)
  then show ?thesis using assms(1) by (simp add: classifyRun_def Let_def)
qed

text \<open>
  A completed run without a marker succeeds: the branch that reports a missing result does not leave the switch, so the
  attempt passes, with the failure \<open>provider_result_missing\<close> on record.
\<close>

theorem missing_result_passes:
  assumes "completedRun snapshot" and "fst (providerOutcome decode (sn_Output snapshot)) = []"
  obtains x f where "classifyRun decode snapshot runID = Some x" "ro_Event x = ''success''" "sr_Outcome (ro_Result x) = ''pass''"
    "ro_Failure x = Some f" "f_Code f = ''provider_result_missing''"
proof -
  let ?x = "completedOutcome snapshot runID (runReport decode snapshot)"
  have "pr_Outcome (runReport decode snapshot) = []" using assms(2) by (simp add: report_outcome)
  then have "ro_Event ?x = ''success''" "sr_Outcome (ro_Result ?x) = ''pass''"
    "ro_Failure ?x = retryable ''provider_result_missing'' ''provider completed without ADRO_RESULT_JSON evidence''"
    by (simp_all add: completedOutcome_def Let_def reported_def)
  moreover have "classifyRun decode snapshot runID = Some ?x" using assms(1) by (simp add: classifyRun_def completedRun_def statusOf_def Let_def)
  ultimately show ?thesis using that by (simp add: retryable_def)
qed

text \<open>An example: no marker, no tool, and yet a pass.\<close>

definition exMissing :: runOutcome where
  "exMissing = the (classifyRun (\<lambda>_. None) (exSnapshot ''done'' []) ''r1'')"

theorem classifyRun_sound_witness:
  "ro_Event exMissing = ''success'' \<and> ro_Failure exMissing \<noteq> None \<and> sr_EvidenceIDs (ro_Result exMissing) = [''provider-run:r1:completed''] \<and>
   sr_Fields (ro_Result exMissing) = [(''tokens'', VInt64 12), (''tool_calls'', VInt 0), (''cost_cents'', VInt64 150)] \<and>
   fst (providerOutcome (\<lambda>_. None) ''done'') = []"
proof -
  have v: "ro_Event exMissing = ''success''" "ro_Failure exMissing \<noteq> None" "sr_EvidenceIDs (ro_Result exMissing) = [''provider-run:r1:completed'']"
    "sr_Fields (ro_Result exMissing) = [(''tokens'', VInt64 12), (''tool_calls'', VInt 0), (''cost_cents'', VInt64 150)]"
    "\<not> hasProviderToolEvidence (exSnapshot ''done'' [])" "classifyRun (\<lambda>_. None) (exSnapshot ''done'' []) ''r1'' \<noteq> None"
    by code_simp+
  then have "classifyRun (\<lambda>_. None) (exSnapshot ''done'' []) ''r1'' = Some exMissing" by (auto simp: exMissing_def)
  from classifyRun_sound [OF this] v show ?thesis by (simp add: exSnapshot_def)
qed

end
