(* ===== verification/Orch_Worker.thy ===== *)
theory Orch_Worker
  imports Orch_Tick Orch_Outcome
begin

text \<open>
  The worker (\<open>worker.go\<close>): a loop of scheduler ticks, each followed by \<open>Reconcile\<close>, which observes the runs of the running
  attempts and finishes those that have ended. An attempt of a squad owns a child plan, which a child worker advances by
  one tick before the attempt is looked at.

  The context is \<open>we_Err\<close>, the cause of its cancellation once it is cancelled, and \<open>we_Wait\<close>, the \<open>select\<close> on its channel
  and a timer: it tells whether the context ended the wait.

  A child plan can own further child plans, and the code follows them without a bound: a plan that owns itself would exhaust
  the stack of the program. \<open>childRun\<close> takes the depth to which it follows them, and gives beyond it the panic of an exhausted
  stack, which no caller handles. The depth is only a device: a run that ends in any other way is the same at every greater
  depth (\<open>Run_depth\<close>), so such a run is the run of the code.
\<close>

section \<open>The worker\<close>

record 'w Worker =
  wk_Scheduler :: "'w Scheduler"
  wk_PollInterval :: int
  wk_MaxTicks :: int

record WorkerReport =
  wr_Ticks :: int
  wr_Started :: "NodeAttempt list"
  wr_Finished :: "NodeAttempt list"
  wr_LastStatus :: ScheduleReport

definition zeroWorkerReport :: WorkerReport where
  "zeroWorkerReport = \<lparr>wr_Ticks = 0, wr_Started = [], wr_Finished = [], wr_LastStatus = zeroSchedule\<rparr>"

record 'w WorkerEnv =
  we_Exec :: "'w ExecEnv"
  we_Decode :: decoder
  we_Err :: "'w \<Rightarrow> go_error option"
  we_Wait :: "int \<Rightarrow> 'w \<Rightarrow> 'w \<times> bool"
  we_RemoteSpan :: "string \<times> string \<Rightarrow> string \<Rightarrow> string \<Rightarrow> 'w \<Rightarrow> 'w \<times> (string \<times> string)"

abbreviation wk_Executor :: "'w Worker \<Rightarrow> 'w Executor" where
  "wk_Executor wk \<equiv> sc_Executor (wk_Scheduler wk)"

definition workerNow :: "'w WorkerEnv \<Rightarrow> 'w Worker \<Rightarrow> ('w, int) act" where
  "workerNow env wk = schedulerNow (we_Exec env) (wk_Scheduler wk)"

section \<open>Finding the provider of an attempt\<close>

definition attemptAgent ::
  "'w RepositoryPort \<Rightarrow> RequirementExecutionPlan \<Rightarrow> WorkflowNode \<Rightarrow> ('w, AgentDefinition option) act" where
  "attemptAgent repo plan n =
     (let wrap = (\<lambda>err. Wrapf err (''resolve provider for node '' @ n_ID n)) in
      case n_Kind n of
        NodeAgent \<Rightarrow>
          (case n_AgentRef n of
             None \<Rightarrow> fails (Errorf ''agent node %s has no agent_ref'' [ArgS (n_ID n)])
           | Some ref \<Rightarrow> andThen (wrapErr wrap (reads (rp_GetAgent repo (pl_WorkspaceID plan) (r_ID ref) (r_Revision ref)))) (\<lambda>a. ret (Some a)))
      | NodeSquad \<Rightarrow>
          (case n_SquadRef n of
             None \<Rightarrow> fails (Errorf ''squad node %s has no squad_ref'' [ArgS (n_ID n)])
           | Some ref \<Rightarrow>
               andThen (wrapErr wrap (reads (rp_GetSquad repo (pl_WorkspaceID plan) (r_ID ref) (r_Revision ref)))) (\<lambda>squad.
               let leaderID = (case leaderOf squad of None \<Rightarrow> '''' | Some leader \<Rightarrow> sm_AgentID leader) in
               andThen (ensure (leaderID \<noteq> '''') (Errorf ''squad node %s has no leader agent'' [ArgS (n_ID n)])) (\<lambda>_.
               andThen (wrapErr wrap (reads (rp_GetAgent repo (pl_WorkspaceID plan) leaderID 0))) (\<lambda>a. ret (Some a)))))
      | _ \<Rightarrow> ret None)"

definition providerForAttempt ::
  "'w Executor \<Rightarrow> 'w ExecutionProvider \<Rightarrow> RequirementExecutionPlan \<Rightarrow> NodeAttempt \<Rightarrow> ('w, 'w ExecutionProvider) act" where
  "providerForAttempt e own plan a =
     (case xc_ProviderResolver e of
        None \<Rightarrow> ret own
      | Some resolve \<Rightarrow>
          (case xc_Repository e of
             None \<Rightarrow> fails (Errorf ''repository is required to resolve an attempt provider'' [])
           | Some repo \<Rightarrow>
               (case find (\<lambda>n. n_ID n = a_NodeID a) (g_Nodes (pl_GraphSnapshot plan)) of
                  None \<Rightarrow> fails (Errorf ''attempt %s references unknown node %s'' [ArgS (a_ID a), ArgS (a_NodeID a)])
                | Some n \<Rightarrow>
                    andThen (attemptAgent repo plan n) (\<lambda>agent.
                    case agent of
                      None \<Rightarrow> ret own
                    | Some ag \<Rightarrow>
                        andThen (wrapErr (\<lambda>err. Wrapf err (''resolve provider for agent '' @ ag_ID ag)) (resolve ag)) (\<lambda>prov.
                        case prov of
                          None \<Rightarrow> fails (Errorf ''resolved provider is nil for agent %s'' [ArgS (ag_ID ag)])
                        | Some pv \<Rightarrow> ret pv)))))"

section \<open>Recovering an attempt without a run\<close>

definition workflowNodeFor :: "RequirementExecutionPlan \<Rightarrow> string \<Rightarrow> WorkflowNode" where
  "workflowNodeFor plan nodeID =
     (case find (\<lambda>n. n_ID n = nodeID) (g_Nodes (pl_GraphSnapshot plan)) of Some n \<Rightarrow> n | None \<Rightarrow> zeroNode\<lparr>n_ID := nodeID\<rparr>)"

definition PayloadString :: "OutboxRecord \<Rightarrow> string \<Rightarrow> string" where
  "PayloadString x key = TrimSpace (stringField (ob_Payload x) key)"

definition recoveryStore :: "'w Worker \<Rightarrow> 'w outboxRecoveryStore option" where
  "recoveryStore wk =
     (case (case xc_Events (wk_Executor wk) of None \<Rightarrow> None | Some store \<Rightarrow> es_Recovery store) of
        Some store \<Rightarrow> Some store
      | None \<Rightarrow> (case sc_Repository (wk_Scheduler wk) of None \<Rightarrow> None | Some repo \<Rightarrow> rp_Recovery repo))"

definition pendingIntent :: "NodeAttempt \<Rightarrow> OutboxRecord \<Rightarrow> bool" where
  "pendingIntent a x \<longleftrightarrow> ob_Status x \<noteq> ''acked'' \<and> ob_Status x \<noteq> ''failed'' \<and> mget (ob_Payload x) ''attempt_id'' = Some (VString (a_ID a))"

definition recoveryCommand ::
  "'w ExecEnv \<Rightarrow> RequirementExecutionPlan \<Rightarrow> NodeAttempt \<Rightarrow> OutboxRecord \<Rightarrow> string \<times> string \<Rightarrow> StartRunCommand" where
  "recoveryCommand env plan a x trace =
     (let binding = PayloadString x ''agent_binding_id'' in
      \<lparr>rc_PlanID = pl_ID plan, rc_NodeID = a_NodeID a, rc_AttemptID = a_ID a, rc_WorkItemID = PayloadString x ''work_item_id'',
       rc_AgentBindingID = binding, rc_ProviderAssigneeID = '''',
       rc_Input = nodeInput env (a_InputManifest a) (workflowNodeFor plan (a_NodeID a)) (a_AttemptNo a) binding '''',
       rc_ProviderIssueID = '''', rc_SessionID = cm_SessionID (ce_Manifest (a_InputManifest a)), rc_WorkDir = '''', rc_ContextID = '''',
       rc_ContextVersion = 0, rc_ContextEnvelope = a_InputManifest a, rc_ExpectedRevision = pl_Revision plan, rc_RepairAttempt = 0,
       rc_LegacyAdapterVersion = '''', rc_IdempotencyKey = a_IdempotencyKey a, rc_TraceParent = fst trace, rc_TraceState = snd trace\<rparr>)"

definition recoveryOwner :: "'w Worker \<Rightarrow> string" where
  "recoveryOwner wk = (let owner = TrimSpace (xc_Owner (wk_Executor wk)) in if owner = '''' then ''worker-recovery'' else owner)"

text \<open>A call whose error is dropped.\<close>

definition ackDropped ::
  "'w WorkerEnv \<Rightarrow> 'w Worker \<Rightarrow> 'w outboxRecoveryStore \<Rightarrow> string \<Rightarrow> string option \<Rightarrow> ('w, unit) act" where
  "ackDropped env wk store i deliveryErr =
     andThen (workerNow env wk) (\<lambda>now.
     andThen (outcome (errOnly (or_Ack store i (recoveryOwner wk) now deliveryErr))) (\<lambda>_. ret ()))"

definition commitRecovered ::
  "'w WorkerEnv \<Rightarrow> 'w Worker \<Rightarrow> RequirementExecutionPlan \<Rightarrow> string \<times> string \<Rightarrow> NodeAttempt \<Rightarrow> PlanProjection \<Rightarrow> ('w, unit) act" where
  "commitRecovered env wk plan trace a p =
     wrapErr (\<lambda>err. Wrapf err ''persist recovered provider binding: '')
       (commitAttemptEvent (we_Exec env) (wk_Executor wk) trace plan a ''attempt.bound'' (a_IdempotencyKey a @ '':bound'')
          (BoundFact \<lparr>bd_AttemptID = a_ID a, bd_RunID = a_RunID a, bd_SessionID = a_SessionID a, bd_WorkDir = a_WorkDir a, bd_ChildPlanID = ''''\<rparr>)
          (Some (l_FencingToken (a_Lease a))) p)"

text \<open>The run is started again under the lease of its intent, with the idempotency key of the attempt, and bound.\<close>

definition restartRun ::
  "'w WorkerEnv \<Rightarrow> 'w Worker \<Rightarrow> string \<times> string \<Rightarrow> RequirementExecutionPlan \<Rightarrow> 'w ExecutionProvider \<Rightarrow> 'w outboxRecoveryStore \<Rightarrow>
     NodeAttempt \<Rightarrow> OutboxRecord \<Rightarrow> ('w \<times> PlanProjection, NodeAttempt option) act" where
  "restartRun env wk ctx plan own store a x =
     andThen (onFst (yields (we_RemoteSpan env ctx (ob_TraceParent x) (ob_TraceState x)))) (\<lambda>trace.
     andThen (outcome (onFst (pv_StartRun own (recoveryCommand (we_Exec env) plan a x trace)))) (\<lambda>run.
     case run of
       Inl err \<Rightarrow> andThen (onFst (ackDropped env wk store (ob_ID x) (Some (xe_ErrorText (we_Exec env) err)))) (\<lambda>_. ret None)
     | Inr b \<Rightarrow>
         if blank (rb_ID b) \<or> blank (rb_SessionID b) \<or> blank (rb_WorkDir b) then
           andThen (onFst (ackDropped env wk store (ob_ID x) (Some ''provider returned incomplete binding''))) (\<lambda>_.
           fails (Errorf ''provider returned incomplete binding during recovery'' []))
         else
           let bound = a\<lparr>a_RunID := rb_ID b, a_SessionID := rb_SessionID b, a_WorkDir := rb_WorkDir b\<rparr> in
           andThen (putSnd (\<lambda>p. p\<lparr>p_Attempts := mput (a_ID a) bound (p_Attempts p)\<rparr>)) (\<lambda>_.
           andThen (withSnd (commitRecovered env wk plan trace bound)) (\<lambda>_.
           andThen (onFst (workerNow env wk)) (\<lambda>now.
           andThen (wrapErr (\<lambda>err. Wrapf err ''ack recovered provider outbox: '')
             (onFst (errOnly (or_Ack store (ob_ID x) (recoveryOwner wk) now None)))) (\<lambda>_.
           ret (Some bound)))))))"

definition recoverUnboundAttempt ::
  "'w WorkerEnv \<Rightarrow> 'w Worker \<Rightarrow> string \<times> string \<Rightarrow> RequirementExecutionPlan \<Rightarrow> 'w ExecutionProvider \<Rightarrow> NodeAttempt \<Rightarrow>
     ('w \<times> PlanProjection, NodeAttempt option) act" where
  "recoverUnboundAttempt env wk ctx plan own a =
     (if a_ID a = '''' \<or> a_IdempotencyKey a = '''' then ret None
      else case recoveryStore wk of
        None \<Rightarrow> ret None
      | Some store \<Rightarrow>
          andThen (gets (\<lambda>s. find (pendingIntent a) (or_List store (pl_ID plan) '''' (fst s)))) (\<lambda>intent.
          case intent of
            None \<Rightarrow> ret None
          | Some x \<Rightarrow>
              andThen (onFst (workerNow env wk)) (\<lambda>now.
              andThen (outcome (onFst (or_ClaimByID store (ob_ID x) (recoveryOwner wk)
                (leaseTTL (wk_Executor wk) (workflowNodeFor plan (a_NodeID a))) now))) (\<lambda>claim.
              case claim of
                Inl err \<Rightarrow> if errors_Is err ErrNotFound then ret None else fails (Wrapf err ''claim unbound provider outbox: '')
              | Inr y \<Rightarrow> restartRun env wk ctx plan own store a y))))"

section \<open>Reconciling\<close>

text \<open>The result of a loop: the attempts it has finished and the error that ends it.\<close>

type_synonym 'w reconciled = "('w \<times> PlanProjection) \<times> NodeAttempt list \<times> go_error option"

text \<open>A child worker: it advances a child plan and its projection.\<close>

type_synonym 'w child =
  "RequirementExecutionPlan \<Rightarrow> ContextEnvelope \<Rightarrow> string \<Rightarrow> 'w \<times> PlanProjection \<Rightarrow> ('w \<times> PlanProjection) \<times> go_error option"

fun isPanic :: "go_error \<Rightarrow> bool" where
  "isPanic (Panic _) = True"
| "isPanic _ = False"

definition childInput :: "RequirementExecutionPlan \<Rightarrow> NodeAttempt \<Rightarrow> RequirementExecutionPlan \<Rightarrow> PlanProjection \<Rightarrow> int \<Rightarrow> TransitionInput" where
  "childInput plan a childPlan childProjection now =
     (let passed = p_TerminalOutcome childProjection = ''succeeded'' in
      finishInput plan (a_ID a) (l_FencingToken (a_Lease a)) (if passed then ''success'' else ''failure'')
        (zeroResult\<lparr>sr_Outcome := (if passed then ''pass'' else ''failure''), sr_Summary := ''nested squad plan completed'',
           sr_EvidenceIDs := [''child-plan:'' @ pl_ID childPlan]\<rparr>)
        (if passed then None
         else Some \<lparr>f_Code = ''nested_squad_failed'', f_Message = p_TerminalOutcome childProjection, f_Retryable = True\<rparr>) [] '''' now)"

text \<open>An attempt that owns a child plan: it ends with the child, and only then.\<close>

definition advanceChild ::
  "'w WorkerEnv \<Rightarrow> 'w RepositoryPort \<Rightarrow> 'w child \<Rightarrow> RequirementExecutionPlan \<Rightarrow> NodeAttempt \<Rightarrow>
     ('w \<times> PlanProjection, RequirementExecutionPlan \<times> PlanProjection) act" where
  "advanceChild env repo child plan a =
     andThen (onFst (wrapErr (\<lambda>err. Wrapf err (''load nested squad plan '' @ a_ChildPlanID a))
       (reads (rp_GetPlan repo (pl_WorkspaceID plan) (a_ChildPlanID a))))) (\<lambda>childPlan.
     andThen (onFst (wrapErr (\<lambda>err. Wrapf err (''load nested squad projection '' @ pl_ID childPlan))
       (reads (rp_GetProjection repo (pl_ID childPlan))))) (\<lambda>childProjection.
     onFst (\<lambda>w. case child childPlan (a_InputManifest a) (a_RunID a) (w, childProjection) of
       ((w', q), None) \<Rightarrow> (w', Inr (childPlan, q))
     | ((w', q), Some err) \<Rightarrow> if isPanic err \<or> we_Err env w' \<noteq> None then (w', Inl err) else (w', Inr (childPlan, q)))))"

definition reconcileChild ::
  "'w WorkerEnv \<Rightarrow> 'w Worker \<Rightarrow> string \<times> string \<Rightarrow> RequirementExecutionPlan \<Rightarrow> int \<Rightarrow> 'w RepositoryPort \<Rightarrow> 'w child \<Rightarrow> NodeAttempt \<Rightarrow>
     ('w \<times> PlanProjection, NodeAttempt option) act" where
  "reconcileChild env wk ctx plan now repo child a =
     andThen (advanceChild env repo child plan a) (\<lambda>(childPlan, q).
     if p_Status q = PlanTerminal then
       andThen (executorFinishAttempt (we_Exec env) (wk_Executor wk) ctx plan (a_ID a) (childInput plan a childPlan q now)) (\<lambda>b. ret (Some b))
     else ret None)"

definition expiredInput :: "RequirementExecutionPlan \<Rightarrow> NodeAttempt \<Rightarrow> int \<Rightarrow> TransitionInput" where
  "expiredInput plan a now =
     finishInput plan (a_ID a) (l_FencingToken (a_Lease a)) ''timeout''
       (zeroResult\<lparr>sr_Outcome := ''timeout'', sr_Summary := ''provider lease expired'', sr_EvidenceIDs := [''lease-expired:'' @ a_ID a]\<rparr>)
       (Some \<lparr>f_Code = ''lease_expired'', f_Message = ''provider lease expired'', f_Retryable = True\<rparr>) [] '''' now"

definition boundRun ::
  "'w WorkerEnv \<Rightarrow> 'w Worker \<Rightarrow> string \<times> string \<Rightarrow> RequirementExecutionPlan \<Rightarrow> 'w ExecutionProvider \<Rightarrow> NodeAttempt \<Rightarrow>
     ('w \<times> PlanProjection, NodeAttempt option) act" where
  "boundRun env wk ctx plan own a = (if blank (a_RunID a) then recoverUnboundAttempt env wk ctx plan own a else ret (Some a))"

definition observeRun ::
  "'w WorkerEnv \<Rightarrow> 'w Worker \<Rightarrow> string \<times> string \<Rightarrow> RequirementExecutionPlan \<Rightarrow> int \<Rightarrow> 'w ExecutionProvider \<Rightarrow> NodeAttempt \<Rightarrow>
     ('w \<times> PlanProjection, NodeAttempt option) act" where
  "observeRun env wk ctx plan now own a0 =
     andThen (boundRun env wk ctx plan own a0) (\<lambda>bound.
     case bound of
       None \<Rightarrow> ret None
     | Some a \<Rightarrow>
         andThen (onFst (providerForAttempt (wk_Executor wk) own plan a)) (\<lambda>pv.
         andThen (onFst (pv_GetRun pv (TrimSpace (a_RunID a)))) (\<lambda>snapshot.
         case classifyRun (we_Decode env) snapshot (TrimSpace (a_RunID a)) of
           None \<Rightarrow> ret None
         | Some x \<Rightarrow>
             andThen (executorFinishAttempt (we_Exec env) (wk_Executor wk) ctx plan (a_ID a)
               (finishInput plan (a_ID a) (l_FencingToken (a_Lease a)) (ro_Event x) (ro_Result x) (ro_Failure x) (ro_Artifacts x) '''' now)) (\<lambda>b.
             ret (Some b)))))"

definition reconcileAttempt ::
  "'w WorkerEnv \<Rightarrow> 'w Worker \<Rightarrow> string \<times> string \<Rightarrow> RequirementExecutionPlan \<Rightarrow> int \<Rightarrow> 'w ExecutionProvider \<Rightarrow> 'w child \<Rightarrow> NodeAttempt \<Rightarrow>
     ('w \<times> PlanProjection, NodeAttempt option) act" where
  "reconcileAttempt env wk ctx plan now own child a =
     (case (if a_ChildPlanID a = '''' then None else sc_Repository (wk_Scheduler wk)) of
        Some repo \<Rightarrow> reconcileChild env wk ctx plan now repo child a
      | None \<Rightarrow>
          if \<not> IsZero (l_ExpiresAt (a_Lease a)) \<and> \<not> now < l_ExpiresAt (a_Lease a) then
            andThen (executorFinishAttempt (we_Exec env) (wk_Executor wk) ctx plan (a_ID a) (expiredInput plan a now)) (\<lambda>b. ret (Some b))
          else observeRun env wk ctx plan now own a)"

fun reconcileLoop ::
  "'w WorkerEnv \<Rightarrow> 'w Worker \<Rightarrow> string \<times> string \<Rightarrow> RequirementExecutionPlan \<Rightarrow> int \<Rightarrow> 'w ExecutionProvider \<Rightarrow> 'w child \<Rightarrow> NodeAttempt list \<Rightarrow>
     NodeAttempt list \<Rightarrow> 'w \<times> PlanProjection \<Rightarrow> 'w reconciled" where
  "reconcileLoop env wk ctx plan now own child [] done s = (s, done, None)"
| "reconcileLoop env wk ctx plan now own child (a # as) done s =
     (if a_Status a \<noteq> AttemptRunning then reconcileLoop env wk ctx plan now own child as done s
      else case reconcileAttempt env wk ctx plan now own child a s of
        (s', Inl err) \<Rightarrow> (s', done, Some err)
      | (s', Inr None) \<Rightarrow> reconcileLoop env wk ctx plan now own child as done s'
      | (s', Inr (Some b)) \<Rightarrow> reconcileLoop env wk ctx plan now own child as (done @ [b]) s')"

text \<open>The loop runs over a copy of the attempts.\<close>

definition Reconcile ::
  "'w WorkerEnv \<Rightarrow> 'w Worker \<Rightarrow> string \<times> string \<Rightarrow> RequirementExecutionPlan \<Rightarrow> 'w child \<Rightarrow> 'w \<times> PlanProjection \<Rightarrow> 'w reconciled" where
  "Reconcile env wk ctx plan child s =
     (case xc_Provider (wk_Executor wk) of
        None \<Rightarrow> (s, [], Some (Errorf ''provider is required'' []))
      | Some own \<Rightarrow>
          (case onFst (workerNow env wk) s of
             (s', Inl err) \<Rightarrow> (s', [], Some err)
           | (s', Inr now) \<Rightarrow> reconcileLoop env wk ctx plan now own child (mvals (p_Attempts (snd s'))) [] s'))"

section \<open>The loop of the worker\<close>

text \<open>The earliest retry in the future; a zero time is replaced by the clock.\<close>

definition earliestRetry :: "int \<Rightarrow> PlanProjection \<Rightarrow> int" where
  "earliestRetry now p =
     fold (\<lambda>n next. case np_RetryAt n of
         None \<Rightarrow> next
       | Some t \<Rightarrow> if np_Status n \<noteq> AttemptReady \<or> \<not> now < t then next else if IsZero next \<or> t < next then t else next)
       (mvals (p_Nodes p)) 0"

definition nextRetryAt :: "'w WorkerEnv \<Rightarrow> PlanProjection \<Rightarrow> int \<Rightarrow> ('w, int option) act" where
  "nextRetryAt env p now =
     andThen (if IsZero now then yields (xe_Clock (we_Exec env)) else ret now) (\<lambda>t.
     let next = earliestRetry t p in ret (if IsZero next then None else Some next))"

definition hasRunningAttempts :: "PlanProjection \<Rightarrow> bool" where
  "hasRunningAttempts p \<longleftrightarrow> list_ex (\<lambda>a. a_Status a = AttemptRunning) (mvals (p_Attempts p))"

definition cancelRuns :: "'w Worker \<Rightarrow> PlanProjection \<Rightarrow> 'w \<Rightarrow> 'w" where
  "cancelRuns wk p w =
     (case xc_Provider (wk_Executor wk) of
        None \<Rightarrow> w
      | Some pv \<Rightarrow> fold (\<lambda>a w. fst (pv_CancelRun pv (a_RunID a) w))
          (filter (\<lambda>a. a_Status a = AttemptRunning \<and> a_RunID a \<noteq> '''') (mvals (p_Attempts p))) w)"

text \<open>The plan is closed as if its deadline had just passed; the carrier of \<open>context.Background()\<close> is empty.\<close>

definition closeOnContextCancellation ::
  "'w WorkerEnv \<Rightarrow> 'w Worker \<Rightarrow> RequirementExecutionPlan \<Rightarrow> ContextEnvelope \<Rightarrow> string \<Rightarrow> string \<Rightarrow> go_error \<Rightarrow> WorkerReport \<Rightarrow>
     'w \<times> PlanProjection \<Rightarrow> ('w \<times> PlanProjection) \<times> WorkerReport \<times> go_error option" where
  "closeOnContextCancellation env wk plan envelope wi ab cause report s =
     (if p_Status (snd s) = PlanTerminal then (s, report, Some cause)
      else case onFst (workerNow env wk) (cancelRuns wk (snd s) (fst s), snd s) of
        (s1, Inl err) \<Rightarrow> (s1, report, Some err)
      | (s1, Inr now) \<Rightarrow>
          (case Tick (we_Exec env) (wk_Scheduler wk) ('''', '''') (plan\<lparr>pl_Deadline := now - 1\<rparr>) envelope wi ab s1 of
             (s2, status, err) \<Rightarrow>
               (let report' = report\<lparr>wr_LastStatus := status, wr_Finished := wr_Finished report @ sch_Advanced status,
                      wr_Started := wr_Started report @ sch_Started status\<rparr>
                in (s2, report', case err of
                     Some e \<Rightarrow> Some (if errors_Is e ErrDeadlineExceeded then cause else Wrapf e ''close cancelled graph: '')
                   | None \<Rightarrow> Some cause))))"

text \<open>One round of the loop: the worker stops with a report and an error, or goes on.\<close>

datatype round = Stop WorkerReport "go_error option" | Again WorkerReport

abbreviation stopped :: "'s \<times> WorkerReport \<times> go_error option \<Rightarrow> 's \<times> round" where
  "stopped r \<equiv> (case r of (s, report, err) \<Rightarrow> (s, Stop report err))"

definition pollInterval :: "'w Worker \<Rightarrow> int" where
  "pollInterval wk = (if wk_PollInterval wk \<le> 0 then 25000000 else wk_PollInterval wk)"

text \<open>Whether a failed tick has left work to wait for.\<close>

definition recoverable :: "'w WorkerEnv \<Rightarrow> 'w Worker \<Rightarrow> RequirementExecutionPlan \<Rightarrow> ('w \<times> PlanProjection, bool) act" where
  "recoverable env wk plan =
     andThen (onFst (workerNow env wk)) (\<lambda>now.
     andThen (withSnd (\<lambda>p. nextRetryAt env p now)) (\<lambda>retry.
     andThen (onFst (workerNow env wk)) (\<lambda>now'.
     gets (\<lambda>s. retry \<noteq> None \<or> readyNodesAt plan (snd s) now' \<noteq> [] \<or> p_Status (snd s) = PlanTerminal))))"

text \<open>The pause before the next round, \<open>None\<close> when there is nothing to wait for.\<close>

definition pause :: "'w WorkerEnv \<Rightarrow> 'w Worker \<Rightarrow> RequirementExecutionPlan \<Rightarrow> bool \<Rightarrow> ('w \<times> PlanProjection, int option) act" where
  "pause env wk plan idle =
     andThen (onFst (workerNow env wk)) (\<lambda>now.
     andThen (gets (\<lambda>s. idle \<and> readyNodesAt plan (snd s) now = [] \<and> \<not> hasRunningAttempts (snd s))) (\<lambda>quiescent.
     if \<not> quiescent then ret (Some (pollInterval wk))
     else
       andThen (onFst (workerNow env wk)) (\<lambda>now.
       andThen (withSnd (\<lambda>p. nextRetryAt env p now)) (\<lambda>retry.
       case retry of
         None \<Rightarrow> ret None
       | Some t \<Rightarrow>
           andThen (onFst (workerNow env wk)) (\<lambda>now.
           ret (Some (min (time_Sub t now) (pollInterval wk))))))))"

definition workerPause ::
  "'w WorkerEnv \<Rightarrow> 'w Worker \<Rightarrow> RequirementExecutionPlan \<Rightarrow> ContextEnvelope \<Rightarrow> string \<Rightarrow> string \<Rightarrow> bool \<Rightarrow> WorkerReport \<Rightarrow>
     'w \<times> PlanProjection \<Rightarrow> ('w \<times> PlanProjection) \<times> round" where
  "workerPause env wk plan envelope wi ab idle report s =
     (case pause env wk plan idle s of
        (s1, Inl err) \<Rightarrow> (s1, Stop report (Some err))
      | (s1, Inr None) \<Rightarrow> (s1, Stop report None)
      | (s1, Inr (Some d)) \<Rightarrow>
          (case we_Wait env d (fst s1) of
             (w, False) \<Rightarrow> ((w, snd s1), Again report)
           | (w, True) \<Rightarrow>
               stopped (closeOnContextCancellation env wk plan envelope wi ab
                 (case we_Err env w of Some cause \<Rightarrow> cause | None \<Rightarrow> Panic ''context without error'') report (w, snd s1))))"

text \<open>What follows the tick: the runs are reconciled, and the worker stops, waits or closes the plan.\<close>

definition workerReconcile ::
  "'w WorkerEnv \<Rightarrow> 'w Worker \<Rightarrow> string \<times> string \<Rightarrow> RequirementExecutionPlan \<Rightarrow> ContextEnvelope \<Rightarrow> string \<Rightarrow> string \<Rightarrow> 'w child \<Rightarrow>
     go_error option \<Rightarrow> WorkerReport \<Rightarrow> 'w \<times> PlanProjection \<Rightarrow> ('w \<times> PlanProjection) \<times> round" where
  "workerReconcile env wk ctx plan envelope wi ab child tickErr report s =
     (case Reconcile env wk ctx plan child s of
        (s1, fin, Some err) \<Rightarrow>
          (case (if isPanic err then None else we_Err env (fst s1)) of
             Some cause \<Rightarrow> stopped (closeOnContextCancellation env wk plan envelope wi ab cause report s1)
           | None \<Rightarrow> (s1, Stop report (Some err)))
      | (s1, fin, None) \<Rightarrow>
          (let report1 = report\<lparr>wr_Finished := wr_Finished report @ fin\<rparr> in
           if p_Status (snd s1) = PlanTerminal \<or> opt_any (\<lambda>e. errors_Is e ErrDeadlineExceeded) tickErr \<or>
              0 < wk_MaxTicks wk \<and> wk_MaxTicks wk \<le> wr_Ticks report1
           then (s1, Stop report1 None)
           else workerPause env wk plan envelope wi ab (sch_Started (wr_LastStatus report) = [] \<and> fin = []) report1 s1))"

definition workerRound ::
  "'w WorkerEnv \<Rightarrow> 'w Worker \<Rightarrow> string \<times> string \<Rightarrow> RequirementExecutionPlan \<Rightarrow> ContextEnvelope \<Rightarrow> string \<Rightarrow> string \<Rightarrow> 'w child \<Rightarrow>
     WorkerReport \<Rightarrow> 'w \<times> PlanProjection \<Rightarrow> ('w \<times> PlanProjection) \<times> round" where
  "workerRound env wk ctx plan envelope wi ab child report0 s =
     (case we_Err env (fst s) of
        Some cause \<Rightarrow> stopped (closeOnContextCancellation env wk plan envelope wi ab cause report0 s)
      | None \<Rightarrow>
          (let report = report0\<lparr>wr_Ticks := wr_Ticks report0 + 1\<rparr> in
           case Tick (we_Exec env) (wk_Scheduler wk) ctx plan envelope wi ab s of
             (s1, status, tickErr) \<Rightarrow>
               (let report1 = report\<lparr>wr_LastStatus := status, wr_Started := wr_Started report @ sch_Started status\<rparr> in
                case tickErr of
                  None \<Rightarrow> workerReconcile env wk ctx plan envelope wi ab child None report1 s1
                | Some err \<Rightarrow>
                    if errors_Is err ErrDeadlineExceeded then workerReconcile env wk ctx plan envelope wi ab child tickErr report1 s1
                    else case recoverable env wk plan s1 of
                      (s2, Inr True) \<Rightarrow> workerReconcile env wk ctx plan envelope wi ab child tickErr report1 s2
                    | (s2, _) \<Rightarrow> (s2, Stop report (Some err)))))"

text \<open>A child worker makes one tick.\<close>

definition childWorker :: "'w Worker \<Rightarrow> 'w Worker" where
  "childWorker wk =
     (let sc = wk_Scheduler wk in
      \<lparr>wk_Scheduler = sc\<lparr>sc_Executor := (sc_Executor sc)\<lparr>xc_Repository := sc_Repository sc\<rparr>\<rparr>, wk_PollInterval = 0, wk_MaxTicks = 1\<rparr>)"

fun childRun :: "nat \<Rightarrow> 'w WorkerEnv \<Rightarrow> 'w Worker \<Rightarrow> string \<times> string \<Rightarrow> 'w child" where
  "childRun 0 env wk ctx plan envelope runID s = (s, Some (Panic ''stack overflow''))"
| "childRun (Suc depth) env wk ctx plan envelope runID s =
     (case workerRound env (childWorker wk) ctx plan envelope runID '''' (childRun depth env (childWorker wk) ctx) zeroWorkerReport s of
        (s', Stop report err) \<Rightarrow> (s', err)
      | (s', Again report) \<Rightarrow> (s', None))"

text \<open>
  \<open>Run\<close>, up to a number of rounds: \<open>None\<close> means that the worker has not stopped by then.
\<close>

fun runLoop ::
  "nat \<Rightarrow> nat \<Rightarrow> 'w WorkerEnv \<Rightarrow> 'w Worker \<Rightarrow> string \<times> string \<Rightarrow> RequirementExecutionPlan \<Rightarrow> ContextEnvelope \<Rightarrow> string \<Rightarrow> string \<Rightarrow>
     WorkerReport \<Rightarrow> 'w \<times> PlanProjection \<Rightarrow> (('w \<times> PlanProjection) \<times> WorkerReport \<times> go_error option) option" where
  "runLoop 0 depth env wk ctx plan envelope wi ab report s = None"
| "runLoop (Suc rounds) depth env wk ctx plan envelope wi ab report s =
     (case workerRound env wk ctx plan envelope wi ab (childRun depth env wk ctx) report s of
        (s', Stop report' err) \<Rightarrow> Some (s', report', err)
      | (s', Again report') \<Rightarrow> runLoop rounds depth env wk ctx plan envelope wi ab report' s')"

definition Run ::
  "nat \<Rightarrow> nat \<Rightarrow> 'w WorkerEnv \<Rightarrow> 'w Worker \<Rightarrow> string \<times> string \<Rightarrow> RequirementExecutionPlan \<Rightarrow> ContextEnvelope \<Rightarrow> string \<Rightarrow> string \<Rightarrow>
     'w \<times> PlanProjection \<Rightarrow> (('w \<times> PlanProjection) \<times> WorkerReport \<times> go_error option) option" where
  "Run rounds depth env wk ctx plan envelope wi ab s = runLoop rounds depth env wk ctx plan envelope wi ab zeroWorkerReport s"

section \<open>Rounds\<close>

lemma closed_ticks: "closeOnContextCancellation env wk plan envelope wi ab cause report s = (s', report', err) \<Longrightarrow> wr_Ticks report' = wr_Ticks report"
  by (auto simp: closeOnContextCancellation_def Let_def split: if_splits prod.splits sum.splits)

definition ticksOf :: "round \<Rightarrow> int" where
  "ticksOf r = wr_Ticks (case r of Stop report _ \<Rightarrow> report | Again report \<Rightarrow> report)"

lemma workerPause_ticks: "workerPause env wk plan envelope wi ab idle report s = (s', r) \<Longrightarrow> ticksOf r = wr_Ticks report"
  by (auto simp: workerPause_def ticksOf_def dest: closed_ticks split: prod.splits sum.splits option.splits bool.splits)

lemma workerReconcile_ticks:
  assumes "workerReconcile env wk ctx plan envelope wi ab child tickErr report s = (s', r)"
  shows "ticksOf r = wr_Ticks report \<and> (\<forall>report'. r = Again report' \<longrightarrow> 0 < wk_MaxTicks wk \<longrightarrow> ticksOf r < wk_MaxTicks wk)"
  using assms
  by (auto simp: workerReconcile_def Let_def ticksOf_def
      dest: closed_ticks workerPause_ticks [unfolded ticksOf_def] split: prod.splits option.splits if_splits)

lemma quiet_onFst: "quiet snd (onFst m)"
  by (simp add: quiet_def onFst_def split: prod.splits)

lemma quiet_withSnd: "quiet snd (withSnd m)"
  by (simp add: quiet_def withSnd_def onFst_def split: prod.splits)

lemma recoverable_quiet: "quiet snd (recoverable env wk plan)"
  unfolding recoverable_def by (intro quiet quiet_onFst quiet_withSnd)

text \<open>A round is a cancellation, or a tick that is followed by the rest of the round or ends it.\<close>

lemma workerRound_cases:
  assumes "workerRound env wk ctx plan envelope wi ab child report s = (s', r)"
  obtains (cancelled) cause where "we_Err env (fst s) = Some cause" "stopped (closeOnContextCancellation env wk plan envelope wi ab cause report s) = (s', r)"
  | (reconciled) s1 status tickErr s2 where "Tick (we_Exec env) (wk_Scheduler wk) ctx plan envelope wi ab s = (s1, status, tickErr)" "snd s2 = snd s1"
      "workerReconcile env wk ctx plan envelope wi ab child tickErr
        (report\<lparr>wr_Ticks := wr_Ticks report + 1, wr_LastStatus := status, wr_Started := wr_Started report @ sch_Started status\<rparr>) s2 = (s', r)"
  | (failed) s1 status tickErr where "Tick (we_Exec env) (wk_Scheduler wk) ctx plan envelope wi ab s = (s1, status, tickErr)" "snd s' = snd s1"
      "r = Stop (report\<lparr>wr_Ticks := wr_Ticks report + 1\<rparr>) tickErr"
proof (cases "we_Err env (fst s)")
  case (Some cause)
  then show ?thesis using cancelled assms by (simp add: workerRound_def)
next
  case None
  obtain s1 status tickErr where t: "Tick (we_Exec env) (wk_Scheduler wk) ctx plan envelope wi ab s = (s1, status, tickErr)" by (metis prod.exhaust)
  obtain s2 b where rec: "recoverable env wk plan s1 = (s2, b)" by fastforce
  then have s2: "snd s2 = snd s1" using recoverable_quiet [of env wk plan] by (metis fst_conv quiet_def)
  show ?thesis
  proof (cases "b = Inr True \<or> tickErr = None \<or> opt_any (\<lambda>e. errors_Is e ErrDeadlineExceeded) tickErr")
    case True
    then show ?thesis
      using assms None t rec reconciled [OF t s2] reconciled [OF t refl] by (auto simp: workerRound_def Let_def opt_any_iff split: option.splits if_splits)
  next
    case False
    then show ?thesis
      using assms None t rec failed [OF t] s2 by (auto simp: workerRound_def Let_def opt_any_iff split: option.splits if_splits sum.splits bool.splits)
  qed
qed

lemma workerRound_ticks:
  assumes "workerRound env wk ctx plan envelope wi ab child report s = (s', r)"
  shows "ticksOf r \<le> wr_Ticks report + 1 \<and>
    (\<forall>report'. r = Again report' \<longrightarrow> ticksOf r = wr_Ticks report + 1 \<and> (0 < wk_MaxTicks wk \<longrightarrow> ticksOf r < wk_MaxTicks wk))"
  using assms
proof (cases rule: workerRound_cases)
  case (cancelled cause)
  then show ?thesis by (auto simp: ticksOf_def dest: closed_ticks split: prod.splits)
next
  case (reconciled s1 status tickErr s2)
  then show ?thesis using workerReconcile_ticks [OF reconciled(3)] by auto
qed (simp add: ticksOf_def)

lemma runLoop_ends:
  assumes "0 < wk_MaxTicks wk" and "wr_Ticks report < wk_MaxTicks wk" and "nat (wk_MaxTicks wk - wr_Ticks report) \<le> rounds"
  shows "\<exists>s' report' err. runLoop rounds depth env wk ctx plan envelope wi ab report s = Some (s', report', err) \<and>
    wr_Ticks report' \<le> wk_MaxTicks wk"
  using assms
proof (induction rounds arbitrary: report s)
  case (Suc rounds)
  obtain s' r where run: "workerRound env wk ctx plan envelope wi ab (childRun depth env wk ctx) report s = (s', r)" by fastforce
  show ?case
  proof (cases r)
    case (Stop report' err)
    then show ?thesis using run workerRound_ticks [OF run] Suc.prems by (simp add: ticksOf_def)
  next
    case (Again report')
    then have "wr_Ticks report' = wr_Ticks report + 1" "wr_Ticks report' < wk_MaxTicks wk"
      using workerRound_ticks [OF run] Suc.prems by (auto simp: ticksOf_def)
    then show ?thesis using run Again Suc.IH [of report' s'] Suc.prems by auto
  qed
qed simp

text \<open>
  The loop of a worker with a bound on its ticks stops. Whatever the provider, the stores and the clock do, \<open>runLoop\<close> ends
  after at most \<open>MaxTicks\<close> rounds, and the report counts no more ticks than that. This is about the loop alone: that the
  recursion into the child plans ends is not shown, it is cut by the depth of the model.
\<close>

theorem Run_terminates:
  assumes "0 < wk_MaxTicks wk" and "nat (wk_MaxTicks wk) \<le> rounds"
  shows "\<exists>s' report err. Run rounds depth env wk ctx plan envelope wi ab s = Some (s', report, err) \<and> wr_Ticks report \<le> wk_MaxTicks wk"
  using runLoop_ends [of wk zeroWorkerReport rounds depth env ctx plan envelope wi ab s] assms
  by (simp add: Run_def zeroWorkerReport_def)

section \<open>The depth of child plans\<close>

text \<open>A child worker that gives the results of another one wherever that does not exhaust the stack.\<close>

abbreviation stackOverflow :: go_error where
  "stackOverflow \<equiv> Panic ''stack overflow''"

definition deeper :: "'w child \<Rightarrow> 'w child \<Rightarrow> bool" where
  "deeper c c' \<longleftrightarrow> (\<forall>plan envelope runID s. snd (c plan envelope runID s) \<noteq> Some stackOverflow \<longrightarrow> c' plan envelope runID s = c plan envelope runID s)"

lemma deeperD: "deeper c c' \<Longrightarrow> c plan envelope runID s = (s', err) \<Longrightarrow> err \<noteq> Some stackOverflow \<Longrightarrow> c' plan envelope runID s = (s', err)"
  unfolding deeper_def by (metis snd_conv)

definition follows :: "('s, 'a) act \<Rightarrow> ('s, 'a) act \<Rightarrow> bool" where
  "follows m m' \<longleftrightarrow> (\<forall>s. snd (m s) \<noteq> Inl stackOverflow \<longrightarrow> m' s = m s)"

lemma follows_refl: "follows m m"
  by (simp add: follows_def)

lemma follows_andThen:
  assumes "follows m m'" and "\<And>x. follows (f x) (f' x)"
  shows "follows (andThen m f) (andThen m' f')"
proof -
  have "andThen m' f' s = andThen m f s" if "snd (andThen m f s) \<noteq> Inl stackOverflow" for s
  proof -
    obtain s1 x where run: "m s = (s1, x)" by fastforce
    then have "x \<noteq> Inl stackOverflow" using that by (auto simp: andThen_def)
    then have "m' s = (s1, x)" using assms(1) run by (simp add: follows_def)
    then show ?thesis using run assms(2) that by (auto simp: follows_def andThen_def split: sum.splits)
  qed
  then show ?thesis by (simp add: follows_def)
qed

lemma follows_onFst: "follows m m' \<Longrightarrow> follows (onFst m) (onFst m')"
  by (auto simp: follows_def onFst_def split: prod.splits)

lemma advanceChild_deeper:
  assumes "deeper c c'"
  shows "follows (advanceChild env repo c plan a) (advanceChild env repo c' plan a)"
proof -
  have "follows
      (\<lambda>w. case c cp e i (w, q0) of ((w', q), None) \<Rightarrow> (w', Inr (cp, q))
         | ((w', q), Some err) \<Rightarrow> if isPanic err \<or> we_Err env w' \<noteq> None then (w', Inl err) else (w', Inr (cp, q)))
      (\<lambda>w. case c' cp e i (w, q0) of ((w', q), None) \<Rightarrow> (w', Inr (cp, q))
         | ((w', q), Some err) \<Rightarrow> if isPanic err \<or> we_Err env w' \<noteq> None then (w', Inl err) else (w', Inr (cp, q)))" for cp e i q0
    unfolding follows_def
  proof (intro allI impI)
    fix w
    obtain w' q err where run: "c cp e i (w, q0) = ((w', q), err)" by (metis prod.exhaust)
    assume "snd (case c cp e i (w, q0) of ((w', q), None) \<Rightarrow> (w', Inr (cp, q))
         | ((w', q), Some err) \<Rightarrow> if isPanic err \<or> we_Err env w' \<noteq> None then (w', Inl err) else (w', Inr (cp, q))) \<noteq> Inl stackOverflow"
    then have "err \<noteq> Some stackOverflow" using run by auto
    then show "(case c' cp e i (w, q0) of ((w', q), None) \<Rightarrow> (w', Inr (cp, q))
         | ((w', q), Some err) \<Rightarrow> if isPanic err \<or> we_Err env w' \<noteq> None then (w', Inl err) else (w', Inr (cp, q))) =
       (case c cp e i (w, q0) of ((w', q), None) \<Rightarrow> (w', Inr (cp, q))
         | ((w', q), Some err) \<Rightarrow> if isPanic err \<or> we_Err env w' \<noteq> None then (w', Inl err) else (w', Inr (cp, q)))"
      using deeperD [OF assms run] run by simp
  qed
  then show ?thesis unfolding advanceChild_def by (intro follows_andThen follows_refl follows_onFst)
qed

lemma reconcileAttempt_deeper:
  assumes "deeper c c'" and "reconcileAttempt env wk ctx plan now own c a s = (s', x)" and "x \<noteq> Inl stackOverflow"
  shows "reconcileAttempt env wk ctx plan now own c' a s = (s', x)"
proof -
  have "follows (reconcileAttempt env wk ctx plan now own c a) (reconcileAttempt env wk ctx plan now own c' a)"
    unfolding reconcileAttempt_def reconcileChild_def
    by (auto intro!: follows_andThen follows_refl advanceChild_deeper [OF assms(1)] split: option.splits)
  then show ?thesis using assms(2,3) by (metis follows_def snd_conv)
qed

lemma reconcileLoop_deeper:
  assumes "deeper c c'" and "reconcileLoop env wk ctx plan now own c as fin s = (s', fin', err)" and "err \<noteq> Some stackOverflow"
  shows "reconcileLoop env wk ctx plan now own c' as fin s = (s', fin', err)"
  using assms(2,3)
proof (induction as arbitrary: fin s)
  case (Cons a as)
  obtain s1 x where run: "reconcileAttempt env wk ctx plan now own c a s = (s1, x)" by fastforce
  show ?case
  proof (cases "x = Inl stackOverflow")
    case True
    then show ?thesis using Cons run by (auto split: if_splits)
  next
    case False
    then show ?thesis
      using Cons run reconcileAttempt_deeper [OF assms(1) run] by (auto split: if_splits sum.splits option.splits)
  qed
qed simp

lemma workerRound_deeper:
  assumes "deeper c c'" and "workerRound env wk ctx plan envelope wi ab c report s = (s', r)" and "\<forall>report'. r \<noteq> Stop report' (Some stackOverflow)"
  shows "workerRound env wk ctx plan envelope wi ab c' report s = (s', r)"
proof -
  have "workerReconcile env wk ctx plan envelope wi ab c' tickErr report s = (s', r)"
    if run: "workerReconcile env wk ctx plan envelope wi ab c tickErr report s = (s', r)" for tickErr report s
  proof -
    obtain s1 fin err where rec: "Reconcile env wk ctx plan c s = (s1, fin, err)" by (metis prod.exhaust)
    have "err \<noteq> Some stackOverflow" using run rec assms(3) by (auto simp: workerReconcile_def)
    then have "Reconcile env wk ctx plan c' s = (s1, fin, err)"
      using rec by (auto simp: Reconcile_def split: option.splits prod.splits sum.splits intro: reconcileLoop_deeper [OF assms(1)])
    then show ?thesis using run rec by (simp add: workerReconcile_def)
  qed
  then show ?thesis
    using assms(2) by (auto simp: workerRound_def Let_def split: option.splits prod.splits sum.splits bool.splits if_splits)
qed

lemma childRun_deeper: "deeper (childRun depth env wk ctx) (childRun (Suc depth) env wk ctx)"
proof (induction depth arbitrary: wk)
  case (Suc depth)
  have "childRun (Suc (Suc depth)) env wk ctx plan envelope runID s = childRun (Suc depth) env wk ctx plan envelope runID s"
    if "snd (childRun (Suc depth) env wk ctx plan envelope runID s) \<noteq> Some stackOverflow" for plan envelope runID s
  proof -
    obtain s' r where run: "workerRound env (childWorker wk) ctx plan envelope runID '''' (childRun depth env (childWorker wk) ctx) zeroWorkerReport s = (s', r)"
      by fastforce
    then have "\<forall>report. r \<noteq> Stop report (Some stackOverflow)" using that by auto
    from workerRound_deeper [OF Suc.IH run this] show ?thesis
      unfolding childRun.simps(2) using run by (simp del: childRun.simps)
  qed
  then show ?case by (simp add: deeper_def del: childRun.simps)
qed (simp add: deeper_def)

lemma runLoop_deeper:
  assumes "runLoop rounds depth env wk ctx plan envelope wi ab report s = Some (s', report', err)" and "err \<noteq> Some stackOverflow"
  shows "runLoop rounds (Suc depth) env wk ctx plan envelope wi ab report s = Some (s', report', err)"
  using assms
proof (induction rounds arbitrary: report s)
  case (Suc rounds)
  obtain s1 r where run: "workerRound env wk ctx plan envelope wi ab (childRun depth env wk ctx) report s = (s1, r)" by fastforce
  then have "\<forall>report''. r \<noteq> Stop report'' (Some stackOverflow)" using Suc.prems by auto
  from workerRound_deeper [OF childRun_deeper run this] show ?case using run Suc by (auto split: round.splits)
qed simp

text \<open>The depth does not change a run that it does not cut off.\<close>

theorem Run_depth:
  assumes "Run rounds depth env wk ctx plan envelope wi ab s = Some (s', report, err)" and "err \<noteq> Some stackOverflow" and "depth \<le> depth'"
  shows "Run rounds depth' env wk ctx plan envelope wi ab s = Some (s', report, err)"
  using assms(3,1,2)
proof (induction depth' rule: dec_induct)
  case (step d)
  then show ?case using runLoop_deeper [of rounds d env wk ctx plan envelope wi ab zeroWorkerReport s s' report err] by (simp add: Run_def)
qed

section \<open>Permits\<close>

text \<open>At most \<open>n\<close> attempts are running, and all attempts but one are as in \<open>M\<close>.\<close>

definition aside :: "int \<Rightarrow> string \<Rightarrow> (string \<Rightarrow> NodeAttempt option) \<Rightarrow> PlanProjection \<Rightarrow> bool" where
  "aside n i M p \<longleftrightarrow> permits n p \<and> (\<forall>k. k \<noteq> i \<longrightarrow> mget (p_Attempts p) k = M k)"

lemma executorFinishAttempt_aside:
  "validE (\<lambda>s. aside n i M (snd s)) (executorFinishAttempt env e ctx plan i inp) (\<lambda>_ s. aside n i M (snd s)) (\<lambda>s. aside n i M (snd s))"
proof -
  have "aside n i M (snd s')" if run: "executorFinishAttempt env e ctx plan i inp s = (s', r)" and p: "aside n i M (snd s)" for s s' r
  proof -
    have n: "permits n (snd s')" using validE_either [OF executorFinishAttempt_permits _ run] p by (simp add: aside_def)
    have "mget (p_Attempts (snd s')) k = mget (p_Attempts (snd s)) k" if "k \<noteq> i" for k
      using run
    proof (cases rule: executorFinishAttempt_reduces)
      case (refused inp' err)
      then show ?thesis using FinishAttempt_rejected by metis
    next
      case (closed inp' b)
      then show ?thesis using FinishAttempt_closed [OF closed(1)] that by auto
    qed simp
    then show ?thesis using n p by (simp add: aside_def)
  qed
  then show ?thesis by (auto intro: validEI)
qed

lemma finished_aside:
  "validE (\<lambda>s. aside n i M (snd s)) (andThen (executorFinishAttempt env e ctx plan i inp) (\<lambda>b. ret (Some b)))
     (\<lambda>_ s. aside n i M (snd s)) (\<lambda>s. aside n i M (snd s))"
  by (rule validE_andThen [OF executorFinishAttempt_aside], rule validE_ret)

text \<open>The attempt a worker binds is the one the projection holds.\<close>

definition held :: "int \<Rightarrow> NodeAttempt \<Rightarrow> (string \<Rightarrow> NodeAttempt option) \<Rightarrow> PlanProjection \<Rightarrow> bool" where
  "held n a M p \<longleftrightarrow> aside n (a_ID a) M p \<and> mget (p_Attempts p) (a_ID a) = Some a"

lemma held_bound:
  assumes "held n a M p" and "a_ID b = a_ID a" and "a_Status b = a_Status a"
  shows "aside n (a_ID a) M (p\<lparr>p_Attempts := mput (a_ID a) b (p_Attempts p)\<rparr>)"
  using assms put_running [of p "a_ID a" a b "p\<lparr>p_Attempts := mput (a_ID a) b (p_Attempts p)\<rparr>"]
  by (auto simp: held_def aside_def permits_def split: if_splits)

lemma restartRun_aside:
  "validE (\<lambda>s. held n a M (snd s)) (restartRun env wk ctx plan own store a x)
     (\<lambda>b s. aside n (a_ID a) M (snd s) \<and> (\<forall>y. b = Some y \<longrightarrow> a_ID y = a_ID a)) (\<lambda>s. aside n (a_ID a) M (snd s))"
  unfolding restartRun_def Let_def
proof (rule validE_andThen [OF onFst_snd [where P = "held n a M"]], simp add: held_def, rule validE_andThen [where R = "\<lambda>_ s. held n a M (snd s)"],
    rule validE_outcome, rule onFst_snd, simp, rule validE_case_sum)
  show "validE (\<lambda>s. held n a M (snd s)) (andThen (onFst m) (\<lambda>_. ret None))
      (\<lambda>b s. aside n (a_ID a) M (snd s) \<and> (\<forall>y. b = Some y \<longrightarrow> a_ID y = a_ID a)) (\<lambda>s. aside n (a_ID a) M (snd s))" for m :: "('w, unit) act"
    by (rule validE_andThen [OF onFst_snd [where P = "held n a M"]]) (auto simp: held_def intro: validE_ret)
  fix trace b
  let ?b = "a\<lparr>a_RunID := rb_ID b, a_SessionID := rb_SessionID b, a_WorkDir := rb_WorkDir b\<rparr>"
  have bound: "validE (\<lambda>s. held n a M (snd s)) (putSnd (\<lambda>p. p\<lparr>p_Attempts := mput (a_ID a) ?b (p_Attempts p)\<rparr>))
      (\<lambda>_ s. aside n (a_ID a) M (snd s)) (\<lambda>s. aside n (a_ID a) M (snd s))"
    by (rule validE_putSnd) (simp add: held_bound)
  show "validE (\<lambda>s. held n a M (snd s))
      (if blank (rb_ID b) \<or> blank (rb_SessionID b) \<or> blank (rb_WorkDir b) then andThen (onFst m1) (\<lambda>_. fails err)
       else andThen (putSnd (\<lambda>p. p\<lparr>p_Attempts := mput (a_ID a) ?b (p_Attempts p)\<rparr>)) (\<lambda>_. andThen (withSnd m2) (\<lambda>_. andThen (onFst m3) (\<lambda>now.
         andThen (wrapErr h (onFst (m4 now))) (\<lambda>_. ret (Some ?b))))))
      (\<lambda>b s. aside n (a_ID a) M (snd s) \<and> (\<forall>y. b = Some y \<longrightarrow> a_ID y = a_ID a)) (\<lambda>s. aside n (a_ID a) M (snd s))"
    for m1 :: "('w, unit) act" and err m2 and m3 :: "('w, int) act" and m4 :: "int \<Rightarrow> ('w, unit) act" and h
    by (rule validE_if, rule validE_andThen [OF onFst_snd [where P = "held n a M"]], simp add: held_def, rule validE_fails, simp add: held_def,
        rule validE_andThen [OF bound], rule validE_andThen [OF withSnd_snd [where P = "aside n (a_ID a) M"]], simp,
        rule validE_andThen [OF onFst_snd [where P = "aside n (a_ID a) M"]], simp,
        rule validE_andThen [OF validE_wrapErr [OF onFst_snd [where P = "aside n (a_ID a) M"]]], simp, rule validE_ret, simp)
qed

abbreviation boundTo :: "int \<Rightarrow> NodeAttempt \<Rightarrow> (string \<Rightarrow> NodeAttempt option) \<Rightarrow> NodeAttempt option \<Rightarrow> 'w \<times> PlanProjection \<Rightarrow> bool" where
  "boundTo n a M b s \<equiv> aside n (a_ID a) M (snd s) \<and> (\<forall>y. b = Some y \<longrightarrow> a_ID y = a_ID a)"

lemma held_aside: "held n a M p \<Longrightarrow> aside n (a_ID a) M p"
  by (simp add: held_def)

lemma boundRun_aside:
  fixes env :: "'w WorkerEnv"
  shows "validE (\<lambda>s. held n a M (snd s)) (boundRun env wk ctx plan own a) (boundTo n a M) (\<lambda>s. aside n (a_ID a) M (snd s))"
proof -
  have none: "validE (\<lambda>s. held n a M (snd s)) (ret None) (boundTo n a M) (\<lambda>s. aside n (a_ID a) M (snd s))"
    by (rule validE_ret) (simp add: held_def)
  have claimed: "validE (\<lambda>s. held n a M (snd s))
      (case claim of Inl err \<Rightarrow> if errors_Is err ErrNotFound then ret None else fails (e err) | Inr y \<Rightarrow> restartRun env wk ctx plan own store a y)
      (boundTo n a M) (\<lambda>s. aside n (a_ID a) M (snd s))" for claim e store
    by (rule validE_case_sum, rule validE_if, rule none, rule validE_fails, erule held_aside, rule restartRun_aside)
  have intent: "validE (\<lambda>s. held n a M (snd s)) (case intent of None \<Rightarrow> ret None | Some x \<Rightarrow>
      andThen (onFst m) (\<lambda>now. andThen (outcome (onFst (m' x now))) (\<lambda>claim.
        case claim of Inl err \<Rightarrow> if errors_Is err ErrNotFound then ret None else fails (e err) | Inr y \<Rightarrow> restartRun env wk ctx plan own store a y)))
      (boundTo n a M) (\<lambda>s. aside n (a_ID a) M (snd s))"
    for intent :: "OutboxRecord option" and m :: "('w, int) act" and m' :: "OutboxRecord \<Rightarrow> int \<Rightarrow> ('w, OutboxRecord) act" and e store
    by (rule validE_case_option, rule none, rule validE_andThen [OF onFst_snd [where P = "held n a M"]], erule held_aside,
        rule validE_andThen [where R = "\<lambda>_ s. held n a M (snd s)"], rule validE_outcome, rule onFst_snd, simp, rule claimed)
  have recover: "validE (\<lambda>s. held n a M (snd s)) (recoverUnboundAttempt env wk ctx plan own a) (boundTo n a M) (\<lambda>s. aside n (a_ID a) M (snd s))"
    unfolding recoverUnboundAttempt_def
    by (rule validE_if, rule none, rule validE_case_option, rule none, rule validE_andThen [where R = "\<lambda>_ s. held n a M (snd s)"],
        rule validE_gets, assumption, rule intent)
  show ?thesis
    unfolding boundRun_def by (rule validE_if, rule recover, rule validE_ret) (simp add: held_def)
qed

lemma observeRun_aside:
  fixes env :: "'w WorkerEnv"
  shows "validE (\<lambda>s. held n a M (snd s)) (observeRun env wk ctx plan now own a) (\<lambda>_ s. aside n (a_ID a) M (snd s)) (\<lambda>s. aside n (a_ID a) M (snd s))"
  unfolding observeRun_def
proof (rule validE_andThen [OF boundRun_aside], rule validE_case_option)
  fix b :: "NodeAttempt option" and y
  assume b: "b = Some y"
  show "validE (boundTo n a M b) (andThen (onFst m) (\<lambda>pv. andThen (onFst (m' pv)) (\<lambda>snapshot. case c snapshot of None \<Rightarrow> ret None
      | Some x \<Rightarrow> andThen (executorFinishAttempt (we_Exec env) (wk_Executor wk) ctx plan (a_ID y) (inp x)) (\<lambda>b. ret (Some b)))))
      (\<lambda>_ s. aside n (a_ID a) M (snd s)) (\<lambda>s. aside n (a_ID a) M (snd s))"
    for m :: "('w, 'w ExecutionProvider) act" and m' :: "'w ExecutionProvider \<Rightarrow> ('w, RunSnapshot) act" and c and inp :: "runOutcome \<Rightarrow> TransitionInput"
  proof (cases "a_ID y = a_ID a")
    case True
    have first: "validE (boundTo n a M b) (onFst m) (\<lambda>_ s. aside n (a_ID a) M (snd s)) (\<lambda>s. aside n (a_ID a) M (snd s))"
      by (rule validE_pre [OF onFst_snd]) simp_all
    show ?thesis
      unfolding True
      by (rule validE_andThen [OF first], rule validE_andThen [OF onFst_snd [where P = "aside n (a_ID a) M"]], assumption,
          rule validE_case_option, rule validE_ret, assumption, rule finished_aside)
  qed (simp add: b validE_def)
qed (simp add: validE_def ret_def)

lemma advanceChild_aside:
  "validE (\<lambda>s. aside n i M (snd s)) (advanceChild env repo child plan a) (\<lambda>_ s. aside n i M (snd s)) (\<lambda>s. aside n i M (snd s))"
  unfolding advanceChild_def
  by (rule validE_andThen [OF onFst_snd [where P = "aside n i M"]], assumption, rule validE_andThen [OF onFst_snd [where P = "aside n i M"]], assumption,
      rule onFst_snd)

lemma reconcileAttempt_aside:
  "validE (\<lambda>s. held n a M (snd s)) (reconcileAttempt env wk ctx plan now own child a) (\<lambda>_ s. aside n (a_ID a) M (snd s))
     (\<lambda>s. aside n (a_ID a) M (snd s))"
proof -
  have child: "validE (\<lambda>s. held n a M (snd s)) (reconcileChild env wk ctx plan now repo child a) (\<lambda>_ s. aside n (a_ID a) M (snd s))
      (\<lambda>s. aside n (a_ID a) M (snd s))" for repo
    unfolding reconcileChild_def
    by (rule validE_pre, rule validE_andThen [OF advanceChild_aside [where n = n and i = "a_ID a" and M = M]], rule validE_case_prod, rule validE_if,
        rule finished_aside, rule validE_ret, assumption, erule held_aside)
  show ?thesis
    unfolding reconcileAttempt_def
    by (rule validE_case_option, rule validE_if, rule validE_pre [OF finished_aside], erule held_aside, rule observeRun_aside, rule child)
qed

lemma reconcileLoop_permits:
  assumes "reconcileLoop env wk ctx plan now own child as acc s = (s', r)" and "permits n (snd s)"
    and "distinct (map a_ID as)" and "\<forall>a\<in>set as. mget (p_Attempts (snd s)) (a_ID a) = Some a"
  shows "permits n (snd s')"
  using assms
proof (induction "as" arbitrary: acc s)
  case (Cons a "as")
  obtain s1 r1 where run: "reconcileAttempt env wk ctx plan now own child a s = (s1, r1)" by fastforce
  have "held n a (mget (p_Attempts (snd s))) (snd s)" using Cons.prems by (simp add: held_def aside_def)
  from validE_either [OF reconcileAttempt_aside this run]
  have s1: "permits n (snd s1)" "\<forall>b\<in>set as. mget (p_Attempts (snd s1)) (a_ID b) = Some b"
    using Cons.prems(3,4) by (auto simp: aside_def) (metis image_eqI)
  show ?case
  proof (cases "a_Status a = AttemptRunning")
    case True
    then show ?thesis
      using Cons.IH [OF _ s1(1) _ s1(2)] Cons.prems(1,3) run s1(1) by (cases r1) (auto split: option.splits)
  next
    case False
    then show ?thesis using Cons.IH [OF _ Cons.prems(2)] Cons.prems by simp
  qed
qed simp

lemma Reconcile_permits:
  assumes "Reconcile env wk ctx plan child s = (s', r)" and "permits n (snd s)"
  shows "permits n (snd s')"
proof -
  obtain s1 r1 where now: "onFst (workerNow env wk) s = (s1, r1)" by fastforce
  then have s1: "snd s1 = snd s" by (auto simp: onFst_def split: prod.splits)
  let ?as = "mvals (p_Attempts (snd s))"
  have filed: "mwf (p_Attempts (snd s))" "\<And>k a. mget (p_Attempts (snd s)) k = Some a \<Longrightarrow> a_ID a = k"
    using assms(2) by (auto simp: permits_def filedAttempts_def)
  have eq: "map a_ID ?as = mkeys (p_Attempts (snd s))" using filed by (auto simp: map_of_is_SomeI)
  have "distinct (map a_ID ?as)" unfolding eq by (rule filed(1))
  moreover have "\<forall>a\<in>set ?as. mget (p_Attempts (snd s)) (a_ID a) = Some a"
    using filed by (auto simp: map_of_is_SomeI)
  ultimately show ?thesis
    using assms now s1 reconcileLoop_permits [of env wk ctx plan _ _ child ?as "[]" s1]
    unfolding Reconcile_def by (cases r1) (auto split: option.splits)
qed

text \<open>From one projection to another the running attempts stay within the permits.\<close>

definition heldWithin :: "'w Scheduler \<Rightarrow> RequirementExecutionPlan \<Rightarrow> PlanProjection \<Rightarrow> PlanProjection \<Rightarrow> bool" where
  "heldWithin sc plan p p' \<longleftrightarrow> (filedAttempts p \<longrightarrow> filedAttempts p' \<and> withinPermits sc plan p p')"

lemma heldWithin_refl: "heldWithin sc plan p p"
  by (simp add: heldWithin_def withinPermits_def)

lemma heldWithin_trans: "heldWithin sc plan p p' \<Longrightarrow> heldWithin sc plan p' p'' \<Longrightarrow> heldWithin sc plan p p''"
  by (fastforce simp: heldWithin_def withinPermits_def)

lemma Tick_within: "Tick env sc ctx plan envelope wi ab s = (s', report, err) \<Longrightarrow> heldWithin sc plan (snd s) (snd s')"
  using Tick_concurrency by (metis heldWithin_def withinPermits_def)

lemma Reconcile_within: "Reconcile env wk ctx plan child s = (s', r) \<Longrightarrow> heldWithin sc plan (snd s) (snd s')"
  using Reconcile_permits [OF _ permits_self] by (fastforce simp: heldWithin_def withinPermits_def permits_def)

lemma closeOnContextCancellation_within:
  assumes "closeOnContextCancellation env wk plan envelope wi ab cause report s = (s', report', err)"
  shows "heldWithin (wk_Scheduler wk) plan (snd s) (snd s')"
proof (cases "p_Status (snd s) = PlanTerminal")
  case False
  obtain s1 r where now: "onFst (workerNow env wk) (cancelRuns wk (snd s) (fst s), snd s) = (s1, r)" by fastforce
  then have s1: "snd s1 = snd s" by (auto simp: onFst_def split: prod.splits)
  show ?thesis
  proof (cases r)
    case (Inl e)
    then show ?thesis using assms False now s1 by (simp add: closeOnContextCancellation_def heldWithin_refl)
  next
    case (Inr t)
    obtain s2 status e where t: "Tick (we_Exec env) (wk_Scheduler wk) ('''', '''') (plan\<lparr>pl_Deadline := t - 1\<rparr>) envelope wi ab s1 = (s2, status, e)"
      by (metis prod.exhaust)
    then have "s' = s2" using assms False now Inr by (simp add: closeOnContextCancellation_def Let_def)
    then show ?thesis using Tick_within [OF t] s1 by (simp add: heldWithin_def withinPermits_def)
  qed
qed (use assms in \<open>simp add: closeOnContextCancellation_def heldWithin_refl\<close>)

lemma stopped_within:
  "stopped (closeOnContextCancellation env wk plan envelope wi ab cause report s) = (s', r) \<Longrightarrow> heldWithin (wk_Scheduler wk) plan (snd s) (snd s')"
  using closeOnContextCancellation_within by (fastforce split: prod.splits)

lemma pause_quiet: "quiet snd (pause env wk plan idle)"
proof -
  have "quiet snd (case r of None \<Rightarrow> ret None | Some t \<Rightarrow> andThen (onFst m) (h t))"
    if "\<And>t now. quiet snd (h t now)" for r and m :: "('a, int) act" and h :: "int \<Rightarrow> int \<Rightarrow> ('a \<times> PlanProjection, int option) act"
    using that by (cases r) (auto intro!: quiet quiet_onFst)
  then show ?thesis unfolding pause_def by (intro quiet quiet_onFst quiet_withSnd)
qed

lemma workerPause_within:
  assumes "workerPause env wk plan envelope wi ab idle report s = (s', r)"
  shows "heldWithin (wk_Scheduler wk) plan (snd s) (snd s')"
proof -
  obtain s1 q where p: "pause env wk plan idle s = (s1, q)" by fastforce
  then have s1: "snd s1 = snd s" using pause_quiet [of env wk plan idle] by (metis fst_conv quiet_def)
  show ?thesis
    using assms p s1
    by (auto simp: workerPause_def heldWithin_refl dest!: closeOnContextCancellation_within split: sum.splits option.splits prod.splits bool.splits)
qed

lemma workerReconcile_within:
  assumes "workerReconcile env wk ctx plan envelope wi ab child tickErr report s = (s', r)"
  shows "heldWithin (wk_Scheduler wk) plan (snd s) (snd s')"
proof -
  obtain s1 fin e where c: "Reconcile env wk ctx plan child s = (s1, fin, e)" by (metis prod.exhaust)
  have "heldWithin (wk_Scheduler wk) plan (snd s1) (snd s')"
  proof (cases e)
    case None
    then show ?thesis
      using assms c workerPause_within [of env wk plan envelope wi ab _ _ s1 s' r]
      by (auto simp: workerReconcile_def Let_def heldWithin_refl split: if_splits)
  next
    case (Some err)
    then show ?thesis
      using assms c stopped_within [of env wk plan envelope wi ab _ report s1 s' r]
      by (auto simp: workerReconcile_def heldWithin_refl split: if_splits option.splits)
  qed
  with Reconcile_within [OF c] show ?thesis by (rule heldWithin_trans)
qed

lemma workerRound_within:
  assumes "workerRound env wk ctx plan envelope wi ab child report s = (s', r)"
  shows "heldWithin (wk_Scheduler wk) plan (snd s) (snd s')"
  using assms
proof (cases rule: workerRound_cases)
  case (cancelled cause)
  then show ?thesis by (auto intro: stopped_within)
next
  case (reconciled s1 status tickErr s2)
  then show ?thesis using heldWithin_trans [OF Tick_within [OF reconciled(1)]] workerReconcile_within [OF reconciled(3)] by simp
next
  case (failed s1 status tickErr)
  then show ?thesis using Tick_within [OF failed(1)] by simp
qed

lemma runLoop_within:
  "runLoop rounds depth env wk ctx plan envelope wi ab report s = Some (s', report', err) \<Longrightarrow> heldWithin (wk_Scheduler wk) plan (snd s) (snd s')"
proof (induction rounds arbitrary: report s)
  case (Suc rounds)
  obtain s1 r where run: "workerRound env wk ctx plan envelope wi ab (childRun depth env wk ctx) report s = (s1, r)" by fastforce
  then show ?case
    using Suc.prems Suc.IH [of _ s1] workerRound_within [OF run] by (cases r) (auto intro: heldWithin_trans simp del: split_paired_All)
qed simp

text \<open>
  C5: A worker never runs more attempts than its permits allow. However many rounds it makes, with retries, recovered
  runs, finished child plans and cancellation among them, and whatever error it returns: when it stops, no more attempts
  are running than the concurrency limit of its scheduler or the frozen budget allows, or than were running when it was
  started.
\<close>

theorem Run_concurrency:
  assumes "Run rounds depth env wk ctx plan envelope wi ab s = Some (s', report, err)" and "filedAttempts (snd s)"
  shows "(0 < sc_MaxConcurrent (wk_Scheduler wk) \<longrightarrow>
       runningCount (snd s') \<le> max (runningCount (snd s)) (sc_MaxConcurrent (wk_Scheduler wk))) \<and>
    (0 < b_Concurrent (ps_Budget (pl_PolicySnapshot plan)) \<longrightarrow>
       runningCount (snd s') \<le> max (runningCount (snd s)) (b_Concurrent (ps_Budget (pl_PolicySnapshot plan)))) \<and>
    filedAttempts (snd s')"
  using runLoop_within [OF assms(1) [unfolded Run_def]] assms(2) by (simp add: heldWithin_def withinPermits_def)

section \<open>Cancellation\<close>

lemma errors_Is_refl: "errors_Is e e"
  by (cases e) auto

text \<open>
  C11: A cancelled worker ends its plan. When the context is cancelled before the first round and the clock does not run
  backwards, \<open>Run\<close> makes no tick, starts nothing and returns an error; when the plan could be closed, the error is the cause
  of the cancellation, the plan is terminal and no attempt is running, so that no late result can revive it.
\<close>

theorem Run_cancelled:
  assumes "Run (Suc rounds) depth env wk ctx plan envelope wi ab s = Some (s', report, err)"
    and "we_Err env (fst s) = Some cause" and "p_Status (snd s) \<noteq> PlanTerminal"
    and "workerNow env wk (cancelRuns wk (snd s) (fst s)) = (w1, Inr t1)" and "workerNow env wk w1 = (w2, Inr t2)" and "t1 \<le> t2"
    and "\<not> IsZero (t1 - 1)"
  shows "wr_Ticks report = 0 \<and> wr_Started report = [] \<and> err \<noteq> None \<and>
    (sch_Terminal (wr_LastStatus report) \<longrightarrow> err = Some cause \<and> p_Status (snd s') = PlanTerminal \<and>
       (\<forall>k a. mget (p_Attempts (snd s')) k = Some a \<longrightarrow> a_Status a \<noteq> AttemptRunning))"
proof -
  let ?plan = "plan\<lparr>pl_Deadline := t1 - 1\<rparr>"
  obtain s2 status e where c: "closePlan (we_Exec env) (wk_Scheduler wk) ('''', '''') ?plan (w2, snd s) = (s2, status, e)" by (metis prod.exhaust)
  have "Tick (we_Exec env) (wk_Scheduler wk) ('''', '''') ?plan envelope wi ab (w1, snd s) = (s2, status, e)"
    using Tick_closes [of ?plan "we_Exec env" "wk_Scheduler wk" "(w1, snd s)" w2 t2] assms(5,6,7) c by (simp add: workerNow_def)
  then have "s' = s2" "report = zeroWorkerReport\<lparr>wr_LastStatus := status, wr_Finished := sch_Advanced status, wr_Started := sch_Started status\<rparr>"
    "err = (case e of Some e \<Rightarrow> Some (if errors_Is e ErrDeadlineExceeded then cause else Wrapf e ''close cancelled graph: '') | None \<Rightarrow> Some cause)"
    using assms by (auto simp: Run_def workerRound_def closeOnContextCancellation_def onFst_def zeroWorkerReport_def)
  then show ?thesis
    using closePlan_report [OF c] closePlan_closed [OF c] by (auto simp: zeroWorkerReport_def errors_Is_refl split: option.splits)
qed

section \<open>Witnesses\<close>

definition exWorkerEnv :: "nat WorkerEnv" where
  "exWorkerEnv = \<lparr>we_Exec = exExecEnv, we_Decode = (\<lambda>_. None), we_Err = (\<lambda>_. None), we_Wait = (\<lambda>_ n. (n + 1, False)),
     we_RemoteSpan = (\<lambda>ctx _ _ n. (n + 1, ctx))\<rparr>"

text \<open>The runs of the examples stay running.\<close>

definition exWorkerProvider :: "nat ExecutionProvider" where
  "exWorkerProvider = exProvider\<lparr>pv_GetRun := \<lambda>_ n. (n + 1, Inr ((exSnapshot '''' [])\<lparr>sn_Status := ''running''\<rparr>))\<rparr>"

definition exWorker :: "nat Worker" where
  "exWorker = \<lparr>wk_Scheduler = exScheduler\<lparr>sc_Executor := exExecutor\<lparr>xc_Provider := Some exWorkerProvider\<rparr>\<rparr>, wk_PollInterval = 0, wk_MaxTicks = 1\<rparr>"

theorem Run_terminates_witness:
  "\<exists>s' report err. Run 1 1 exWorkerEnv exWorker ('''', '''') exLine exEnvelope ''item'' '''' (100, projr (NewProjection exLine)) =
    Some (s', report, err) \<and> wr_Ticks report \<le> 1"
  using Run_terminates [of exWorker 1 1 exWorkerEnv "('''', '''')" exLine exEnvelope "''item''" "''''" "(100, projr (NewProjection exLine))"]
  by (simp add: exWorker_def)

text \<open>The tick of the worker starts an attempt, which takes the only permit and is still running when the worker stops.\<close>

definition exRun :: "((nat \<times> PlanProjection) \<times> WorkerReport \<times> go_error option) option" where
  "exRun = Run 1 1 exWorkerEnv exWorker ('''', '''') exLine exEnvelope ''item'' '''' (100, projr (NewProjection exLine))"

lemma exRun_run:
  "(map a_NodeID (wr_Started (fst (snd (the exRun)))), snd (snd (the exRun)), runningCount (snd (fst (the exRun)))) = ([''impl''], None, 1)"
  by code_simp

theorem Run_concurrency_witness:
  "map a_NodeID (wr_Started (fst (snd (the exRun)))) = [''impl''] \<and> runningCount (snd (fst (the exRun))) \<le> 1"
proof -
  have "p_Attempts (projr (NewProjection exLine)) = []" by code_simp
  then have p: "filedAttempts (snd (100 :: nat, projr (NewProjection exLine)))" "runningCount (snd (100 :: nat, projr (NewProjection exLine))) = 0"
    by (simp_all add: filedAttempts_def runningCount_def)
  have "exRun \<noteq> None" by code_simp
  then have "Run 1 1 exWorkerEnv exWorker ('''', '''') exLine exEnvelope ''item'' '''' (100, projr (NewProjection exLine)) =
      Some (fst (the exRun), fst (snd (the exRun)), snd (snd (the exRun)))" by (auto simp: exRun_def)
  from Run_concurrency [OF this p(1)] p(2) exRun_run show ?thesis by (simp add: exWorker_def exScheduler_def)
qed

text \<open>The same worker, cancelled before it starts, closes the running attempt of the example plan.\<close>

definition exCancelled :: "((nat \<times> PlanProjection) \<times> WorkerReport \<times> go_error option) option" where
  "exCancelled = Run (Suc 0) 1 (exWorkerEnv\<lparr>we_Err := \<lambda>_. Some (Sentinel ''context canceled'')\<rparr>) exWorker ('''', '''') exPlan exEnvelope
     ''item'' '''' (100, exRunning)"

lemma exCancelled_run:
  "(map a_Status (wr_Finished (fst (snd (the exCancelled)))), sch_Terminal (wr_LastStatus (fst (snd (the exCancelled))))) = ([AttemptTimedOut], True)"
  by code_simp

theorem Run_cancelled_witness:
  "snd (snd (the exCancelled)) = Some (Sentinel ''context canceled'') \<and> p_Status (snd (fst (the exCancelled))) = PlanTerminal \<and>
   map a_Status (wr_Finished (fst (snd (the exCancelled)))) = [AttemptTimedOut]"
proof -
  let ?env = "exWorkerEnv\<lparr>we_Err := \<lambda>_. Some (Sentinel ''context canceled'')\<rparr>"
  have "exCancelled \<noteq> None" by code_simp
  then have run: "Run (Suc 0) 1 ?env exWorker ('''', '''') exPlan exEnvelope ''item'' '''' (100, exRunning) =
      Some (fst (the exCancelled), fst (snd (the exCancelled)), snd (snd (the exCancelled)))" by (auto simp: exCancelled_def)
  have clock: "workerNow ?env exWorker (cancelRuns exWorker (snd (100 :: nat, exRunning)) (fst (100, exRunning))) = (101, Inr 100)"
    "workerNow ?env exWorker 101 = (102, Inr 101)" by code_simp+
  have "p_Status (snd (100 :: nat, exRunning)) \<noteq> PlanTerminal" "we_Err ?env (fst (100 :: nat, exRunning)) = Some (Sentinel ''context canceled'')"
    by (simp_all add: exRunning_def)
  from Run_cancelled [OF run this(2,1) clock] exCancelled_run show ?thesis by simp
qed

end
