(* ===== verification/Pipeline_Model.thy ===== *)
theory Pipeline_Model
  imports Orch_Model
begin

text \<open>
  The data of the seven-stage pipeline (\<open>internal/domain/pipeline.go\<close> and \<open>workflow_chat.go\<close>): stages, roles, steps of a
  workflow, the handoff context and the run, with their validation and the selection of steps. A stage is any integer,
  as in the code; the seven named ones are valid.
\<close>

section \<open>Stages and steps\<close>

type_synonym PipelineStage = int

abbreviation (input) PipelineDesign :: PipelineStage where "PipelineDesign \<equiv> 1"
abbreviation (input) PipelineDevelopment :: PipelineStage where "PipelineDevelopment \<equiv> 2"
abbreviation (input) PipelineUnitTest :: PipelineStage where "PipelineUnitTest \<equiv> 3"
abbreviation (input) PipelineIntegration :: PipelineStage where "PipelineIntegration \<equiv> 4"
abbreviation (input) PipelineArbitration :: PipelineStage where "PipelineArbitration \<equiv> 5"
abbreviation (input) PipelineRevalidation :: PipelineStage where "PipelineRevalidation \<equiv> 6"
abbreviation (input) PipelineReport :: PipelineStage where "PipelineReport \<equiv> 7"

definition stageValid :: "PipelineStage \<Rightarrow> bool" where
  "stageValid s \<longleftrightarrow> PipelineDesign \<le> s \<and> s \<le> PipelineReport"

definition stageString :: "PipelineStage \<Rightarrow> string" where
  "stageString s =
     mget0 '''' [(PipelineDesign, ''design''), (PipelineDevelopment, ''development''), (PipelineUnitTest, ''unit_test''),
       (PipelineIntegration, ''integration_test''), (PipelineArbitration, ''arbitration''), (PipelineRevalidation, ''revalidation''),
       (PipelineReport, ''report'')] s"

datatype PipelineStatus =
  PipelineRunning | PipelineWaiting | PipelineWaitingApproval | PipelineSuspended | PipelineCompleted | PipelineFailed
  | PipelineStatusOther string

fun statusString :: "PipelineStatus \<Rightarrow> string" where
  "statusString PipelineRunning = ''running''"
| "statusString PipelineWaiting = ''waiting_provider''"
| "statusString PipelineWaitingApproval = ''waiting_approval''"
| "statusString PipelineSuspended = ''suspended''"
| "statusString PipelineCompleted = ''completed''"
| "statusString PipelineFailed = ''failed''"
| "statusString (PipelineStatusOther s) = s"

datatype WorkflowMode = WorkflowAutomatic | WorkflowDesignApproval | WorkflowModeOther string

record PipelineAgentRoles =
  ar_Designer :: string
  ar_Developer :: string
  ar_Tester :: string
  ar_Arbitrator :: string

record WorkflowStep =
  ws_ID :: string
  ws_Stage :: PipelineStage
  ws_Name :: string
  ws_Role :: string
  ws_AgentID :: string
  ws_Required :: bool
  ws_RetryLimit :: int
  ws_Config :: fields

definition zeroStep :: WorkflowStep where
  "zeroStep = \<lparr>ws_ID = '''', ws_Stage = 0, ws_Name = '''', ws_Role = '''', ws_AgentID = '''', ws_Required = False, ws_RetryLimit = 0,
     ws_Config = []\<rparr>"

definition rolesMissing :: "PipelineAgentRoles \<Rightarrow> string list" where
  "rolesMissing r =
     (if blank (ar_Designer r) then [''designer_agent_id''] else []) @
     (if blank (ar_Developer r) then [''developer_agent_id''] else []) @
     (if blank (ar_Tester r) then [''tester_agent_id''] else []) @
     (if blank (ar_Arbitrator r) then [''arbitrator_agent_id''] else [])"

fun joinStrings :: "string \<Rightarrow> string list \<Rightarrow> string" where
  "joinStrings sep [] = []"
| "joinStrings sep [s] = s"
| "joinStrings sep (s # t # ss) = s @ sep @ joinStrings sep (t # ss)"

definition rolesValidate :: "PipelineAgentRoles \<Rightarrow> go_error option" where
  "rolesValidate r = guard (rolesMissing r \<noteq> []) (Errorf ''missing pipeline agents: %s'' [ArgS (joinStrings '', '' (rolesMissing r))])"

definition rolesAgentFor :: "PipelineAgentRoles \<Rightarrow> PipelineStage \<Rightarrow> string" where
  "rolesAgentFor r s =
     (if s = PipelineDesign then ar_Designer r
      else if s = PipelineDevelopment then ar_Developer r
      else if s \<in> set [PipelineUnitTest, PipelineIntegration, PipelineRevalidation, PipelineReport] then ar_Tester r
      else if s = PipelineArbitration then ar_Arbitrator r
      else '''')"

definition stepValidate :: "WorkflowStep \<Rightarrow> go_error option" where
  "stepValidate s = first_err
     [guard (blank (ws_ID s)) (Errorf ''workflow step id is required'' []),
      guard (\<not> stageValid (ws_Stage s)) (Errorf ''workflow step %q has invalid stage'' [ArgS (ws_ID s)]),
      guard (blank (ws_AgentID s)) (Errorf ''workflow step %q has no agent_id'' [ArgS (ws_ID s)]),
      guard (ws_RetryLimit s < 0) (Errorf ''workflow step %q retry_limit cannot be negative'' [ArgS (ws_ID s)])]"

definition defaultStep :: "string \<Rightarrow> PipelineStage \<Rightarrow> string \<Rightarrow> string \<Rightarrow> string \<Rightarrow> WorkflowStep" where
  "defaultStep i s name role agent = zeroStep\<lparr>ws_ID := i, ws_Stage := s, ws_Name := name, ws_Role := role, ws_AgentID := agent, ws_Required := True\<rparr>"

definition DefaultWorkflow :: "PipelineAgentRoles \<Rightarrow> WorkflowStep list" where
  "DefaultWorkflow r =
     [defaultStep ''design'' PipelineDesign ''Design'' ''designer'' (ar_Designer r),
      defaultStep ''development'' PipelineDevelopment ''Development'' ''developer'' (ar_Developer r),
      defaultStep ''unit_test'' PipelineUnitTest ''Unit tests'' ''tester'' (ar_Tester r),
      defaultStep ''integration_test'' PipelineIntegration ''Integration tests'' ''tester'' (ar_Tester r),
      defaultStep ''arbitration'' PipelineArbitration ''Repair arbitration'' ''arbitrator'' (ar_Arbitrator r),
      defaultStep ''revalidation'' PipelineRevalidation ''Revalidation'' ''tester'' (ar_Tester r),
      defaultStep ''report'' PipelineReport ''Final report'' ''tester'' (ar_Tester r)]"

definition NormalizeWorkflow :: "WorkflowStep list \<Rightarrow> WorkflowStep list" where
  "NormalizeWorkflow steps = sort_stable (\<lambda>s t. ws_Stage s < ws_Stage t) steps"

text \<open>The loop over the steps, with the stages seen so far.\<close>

definition stepChecks :: "WorkflowStep list \<Rightarrow> go_error option" where
  "stepChecks steps =
     check_seen 0 ws_Stage (\<lambda>_ seen s. first_err
       [stepValidate s, guard (ws_Stage s \<in> set seen) (Errorf ''workflow stage %d is duplicated'' [ArgI (ws_Stage s)])]) [] steps"

section \<open>Templates\<close>

record WorkflowTemplate =
  wt_ID :: string
  wt_WorkspaceID :: string
  wt_Name :: string
  wt_Description :: string
  wt_Mode :: WorkflowMode
  wt_Steps :: "WorkflowStep list"
  wt_Version :: int
  wt_CreatedAt :: int
  wt_UpdatedAt :: int

definition templateSteps :: "WorkflowStep list \<Rightarrow> go_error option" where
  "templateSteps steps =
     check_seen 0 (\<lambda>s. (ws_ID s, ws_Stage s)) (\<lambda>_ seen s. first_err
       [stepValidate s,
        guard (ws_ID s \<in> set (map fst seen)) (Errorf ''workflow step id %q is duplicated'' [ArgS (ws_ID s)]),
        guard (ws_Stage s \<in> set (map snd seen)) (Errorf ''workflow stage %d is duplicated'' [ArgI (ws_Stage s)])]) [] steps"

definition templateValidate :: "WorkflowTemplate \<Rightarrow> go_error option" where
  "templateValidate w = first_err
     [guard (blank (wt_WorkspaceID w) \<or> blank (wt_Name w)) (Errorf ''workspace_id and name are required'' []),
      guard (wt_Mode w \<notin> set [WorkflowModeOther '''', WorkflowAutomatic, WorkflowDesignApproval]) (Errorf ''mode must be automatic or design_approval'' []),
      guard (wt_Steps w = []) (Errorf ''at least one workflow step is required'' []),
      templateSteps (wt_Steps w),
      guard (PipelineReport \<notin> set (map ws_Stage (wt_Steps w))) (Errorf ''workflow must include the report stage'' [])]"

definition StepsForRun :: "WorkflowTemplate \<Rightarrow> WorkflowStep list" where
  "StepsForRun w = NormalizeWorkflow (wt_Steps w)"

section \<open>Runs\<close>

record PipelineContext =
  pc_RequirementText :: string
  pc_DesignDoc :: string
  pc_BaselineCommit :: string
  pc_CurrentCommit :: string
  pc_PassedTests :: "string list"
  pc_FailedTests :: "string list"
  pc_ErrorLogs :: "string list"
  pc_RepairNotes :: "string list"
  pc_Coverage :: gofloat

record PipelineTransition =
  pt_Sequence :: int
  pt_From :: PipelineStage
  pt_To :: PipelineStage
  pt_Outcome :: string
  pt_AgentID :: string
  pt_ProviderIssueID :: string
  pt_ProviderTaskID :: string
  pt_ProviderSessionID :: string
  pt_ProviderWorkDir :: string
  pt_Summary :: string
  pt_CreatedAt :: int

record PipelineRun =
  pn_ID :: string
  pn_WorkspaceID :: string
  pn_RequirementID :: string
  pn_SessionID :: string
  pn_PipelineWorkItemID :: string
  pn_BugID :: string
  pn_ParentSessionID :: string
  pn_ProviderWorkDir :: string
  pn_PipelineStage :: PipelineStage
  pn_Status :: PipelineStatus
  pn_Roles :: PipelineAgentRoles
  pn_WorkflowMode :: WorkflowMode
  pn_LegacyAdapterVersion :: string
  pn_ExecutionPlanID :: string
  pn_ActiveGraphNodeID :: string
  pn_ActiveGraphAttemptID :: string
  pn_Workflow :: "WorkflowStep list"
  pn_DesignApprovalID :: string
  pn_DesignApprovalStatus :: string
  pn_Context :: PipelineContext
  pn_MaxRetries :: int
  pn_RetryCount :: int
  pn_UnitRetryCount :: int
  pn_CoverageThreshold :: gofloat
  pn_ActiveProviderIssueID :: string
  pn_ActiveProviderTaskID :: string
  pn_ActiveAgentID :: string
  pn_FinalReport :: string
  pn_SuspendReason :: string
  pn_Version :: int
  pn_History :: "PipelineTransition list"
  pn_CreatedAt :: int
  pn_UpdatedAt :: int

record PipelineStepResult =
  st_Stage :: PipelineStage
  st_AgentID :: string
  st_Outcome :: string
  st_Summary :: string
  st_DesignDoc :: string
  st_CodeVersion :: string
  st_Coverage :: gofloat
  st_PassedTests :: "string list"
  st_FailedTests :: "string list"
  st_ErrorLog :: string
  st_RepairNote :: string
  st_Report :: string
  st_ProviderIssueID :: string
  st_ProviderTaskID :: string
  st_ProviderSessionID :: string
  st_ProviderWorkDir :: string

definition runValidate :: "PipelineRun \<Rightarrow> go_error option" where
  "runValidate r = first_err
     [guard (blank (pn_WorkspaceID r) \<or> blank (pn_RequirementID r)) (Errorf ''workspace_id and requirement_id are required'' []),
      guard (blank (pn_SessionID r)) (Errorf ''session_id is required'' []),
      guard (\<not> stageValid (pn_PipelineStage r)) (Errorf ''pipeline_stage must be between 1 and 7'' []),
      if pn_Workflow r = [] then rolesValidate (pn_Roles r)
      else first_err [stepChecks (pn_Workflow r),
        guard (PipelineReport \<notin> set (map ws_Stage (pn_Workflow r))) (Errorf ''workflow must include the report stage'' [])],
      guard (pn_MaxRetries r < 1) (Errorf ''max_retries must be at least 1'' []),
      guard (float_less (pn_CoverageThreshold r) (FFin 0) \<or> float_eq (pn_CoverageThreshold r) (FFin 0) \<or> float_less (FFin 100) (pn_CoverageThreshold r))
        (Errorf ''coverage_threshold must be in (0,100]'' [])]"

definition Steps :: "PipelineRun \<Rightarrow> WorkflowStep list" where
  "Steps r = (if pn_Workflow r \<noteq> [] then NormalizeWorkflow (pn_Workflow r) else DefaultWorkflow (pn_Roles r))"

definition findStep :: "WorkflowStep list \<Rightarrow> PipelineStage \<Rightarrow> WorkflowStep" where
  "findStep steps s = (case find (\<lambda>x. ws_Stage x = s) steps of Some x \<Rightarrow> x | None \<Rightarrow> zeroStep)"

definition rolesStepFor :: "PipelineAgentRoles \<Rightarrow> PipelineStage \<Rightarrow> WorkflowStep" where
  "rolesStepFor r s = findStep (DefaultWorkflow r) s"

definition StepFor :: "PipelineRun \<Rightarrow> PipelineStage \<Rightarrow> WorkflowStep" where
  "StepFor r s = findStep (Steps r) s"

definition AgentFor :: "PipelineRun \<Rightarrow> PipelineStage \<Rightarrow> string" where
  "AgentFor r s = (let step = StepFor r s in if ws_AgentID step \<noteq> '''' then ws_AgentID step else rolesAgentFor (pn_Roles r) s)"

definition HasStage :: "PipelineRun \<Rightarrow> PipelineStage \<Rightarrow> bool" where
  "HasStage r s \<longleftrightarrow> ws_Stage (StepFor r s) = s"

fun stageAfter :: "PipelineStage \<Rightarrow> WorkflowStep list \<Rightarrow> PipelineStage" where
  "stageAfter s [] = s"
| "stageAfter s (x # xs) = (if ws_Stage x \<noteq> s then stageAfter s xs else case xs of [] \<Rightarrow> s | y # _ \<Rightarrow> ws_Stage y)"

definition NextSelectedStage :: "PipelineRun \<Rightarrow> PipelineStage \<Rightarrow> PipelineStage" where
  "NextSelectedStage r s = stageAfter s (Steps r)"

section \<open>Selected stages\<close>

text \<open>The steps of a valid run have different stages and are in their order, so that the next selected stage is a later one.\<close>

abbreviation stagesOf :: "PipelineRun \<Rightarrow> PipelineStage list" where
  "stagesOf r \<equiv> map ws_Stage (Steps r)"

lemma stepValidate_None: "stepValidate s = None \<Longrightarrow> stageValid (ws_Stage s) \<and> \<not> blank (ws_AgentID s) \<and> 0 \<le> ws_RetryLimit s"
  by (auto simp: stepValidate_def check_simps)

lemma stepChecks_None: "stepChecks steps = None \<longleftrightarrow> distinct (map ws_Stage steps) \<and> (\<forall>s\<in>set steps. stepValidate s = None)"
  unfolding stepChecks_def by (subst check_seen_None [where P = "\<lambda>s. stepValidate s = None"]) (auto simp: check_simps)

lemma NormalizeWorkflow_strict:
  assumes "distinct (map ws_Stage steps)"
  shows "sorted_wrt (<) (map ws_Stage (NormalizeWorkflow steps))"
proof -
  have "sorted_wrt (\<lambda>s t. ws_Stage s \<le> ws_Stage t) (NormalizeWorkflow steps)"
    unfolding NormalizeWorkflow_def by (rule sorted_sort_stable) auto
  moreover have "distinct (map ws_Stage (NormalizeWorkflow steps))" using assms by (simp add: NormalizeWorkflow_def distinct_sort_stable)
  ultimately show ?thesis by (simp add: strict_sorted_iff sorted_map)
qed

lemma validated_steps:
  assumes "runValidate r = None"
  shows "sorted_wrt (<) (stagesOf r)"
    and "\<forall>s\<in>set (Steps r). stageValid (ws_Stage s) \<and> \<not> blank (ws_AgentID s) \<and> 0 \<le> ws_RetryLimit s" and "PipelineReport \<in> set (stagesOf r)"
    and "stageValid (pn_PipelineStage r)" and "1 \<le> pn_MaxRetries r"
proof -
  show "stageValid (pn_PipelineStage r)" "1 \<le> pn_MaxRetries r" using assms by (auto simp: runValidate_def check_simps)
  show "sorted_wrt (<) (stagesOf r)"
    using assms NormalizeWorkflow_strict [of "pn_Workflow r"]
    by (cases "pn_Workflow r = []") (auto simp: runValidate_def check_simps stepChecks_None Steps_def DefaultWorkflow_def defaultStep_def)
  show "\<forall>s\<in>set (Steps r). stageValid (ws_Stage s) \<and> \<not> blank (ws_AgentID s) \<and> 0 \<le> ws_RetryLimit s"
    using assms by (auto simp: runValidate_def check_simps stepChecks_None Steps_def NormalizeWorkflow_def DefaultWorkflow_def defaultStep_def
      rolesValidate_def rolesMissing_def stageValid_def zeroStep_def split: if_splits dest: stepValidate_None [unfolded stageValid_def])
  show "PipelineReport \<in> set (stagesOf r)"
    using assms by (auto simp: runValidate_def check_simps Steps_def NormalizeWorkflow_def DefaultWorkflow_def defaultStep_def split: if_splits)
qed

lemma stageAfter_later:
  assumes "sorted_wrt (<) (map ws_Stage steps)" and "stageAfter s steps \<noteq> s"
  shows "s < stageAfter s steps \<and> stageAfter s steps \<in> set (map ws_Stage steps) \<and>
    (\<forall>t\<in>set (map ws_Stage steps). s < t \<longrightarrow> stageAfter s steps \<le> t)"
  using assms
proof (induction steps)
  case (Cons a steps)
  show ?case
  proof (cases "ws_Stage a = s")
    case True
    then show ?thesis using Cons.prems by (cases steps) auto
  next
    case False
    then have ih: "s < stageAfter s steps \<and> stageAfter s steps \<in> set (map ws_Stage steps) \<and>
        (\<forall>t\<in>set (map ws_Stage steps). s < t \<longrightarrow> stageAfter s steps \<le> t)" using Cons by simp
    have "s \<in> set (map ws_Stage steps)" using False Cons.prems(2) by (induction steps) (auto split: if_splits)
    then have "ws_Stage a < s" using Cons.prems(1) by auto
    then show ?thesis using ih False by auto
  qed
qed simp

lemma findStep_stage: "ws_Stage (findStep steps s) = s \<longleftrightarrow> s \<in> set (map ws_Stage steps) \<or> s = 0"
  by (auto simp: findStep_def zeroStep_def find_None_iff find_Some_iff split: option.splits)

lemma HasStage_iff: "s \<noteq> 0 \<Longrightarrow> HasStage r s \<longleftrightarrow> s \<in> set (stagesOf r)"
  by (simp only: HasStage_def StepFor_def findStep_stage simp_thms)

end
