(* ===== verification/Pipeline_Engine.thy ===== *)
theory Pipeline_Engine
  imports Pipeline_Model Transition_System "HOL-Library.Sublist"
begin

text \<open>
  The engine of the seven-stage pipeline (\<open>internal/pipeline/engine.go\<close>): \<open>Apply\<close> merges the result of a stage into the
  run and takes one edge of the state machine, and the decision on a design that waits for approval
  (\<open>resumePipelineAfterApproval\<close> in \<open>internal/api/workflow_chat.go\<close>). The clock is an argument. On an error the code returns
  the run with what was merged before it; the model does too.
\<close>

section \<open>Applying a result\<close>

definition ErrStaleStage :: go_error where "ErrStaleStage = Sentinel ''pipeline result is for a stale stage''"

definition ErrWrongAgent :: go_error where "ErrWrongAgent = Sentinel ''pipeline result is from the wrong role agent''"

definition ErrSessionContinuity :: go_error where
  "ErrSessionContinuity = Sentinel ''development repair did not reuse the original provider session''"

definition addUnique :: "string \<Rightarrow> string list \<Rightarrow> string list" where
  "addUnique item existing = (let t = TrimSpace item in if t = [] \<or> t \<in> set existing then existing else existing @ [t])"

definition appendUniqueItems :: "string list \<Rightarrow> string list \<Rightarrow> string list" where
  "appendUniqueItems existing values = fold addUnique values existing"

definition mergeContext :: "PipelineContext \<Rightarrow> PipelineStepResult \<Rightarrow> PipelineContext" where
  "mergeContext c x =
     (let c1 = (if st_DesignDoc x \<noteq> '''' then c\<lparr>pc_DesignDoc := st_DesignDoc x\<rparr> else c);
          c2 = (if st_CodeVersion x \<noteq> ''''
                then c1\<lparr>pc_BaselineCommit := (if pc_BaselineCommit c1 = '''' then st_CodeVersion x else pc_BaselineCommit c1),
                        pc_CurrentCommit := st_CodeVersion x\<rparr>
                else c1);
          c3 = (if float_less (FFin 0) (st_Coverage x) then c2\<lparr>pc_Coverage := st_Coverage x\<rparr> else c2)
      in c3\<lparr>pc_PassedTests := appendUniqueItems (pc_PassedTests c3) (st_PassedTests x),
            pc_FailedTests := appendUniqueItems (pc_FailedTests c3) (st_FailedTests x),
            pc_ErrorLogs := (if blank (st_ErrorLog x) then pc_ErrorLogs c3 else pc_ErrorLogs c3 @ [st_ErrorLog x]),
            pc_RepairNotes := (if blank (st_RepairNote x) then pc_RepairNotes c3 else pc_RepairNotes c3 @ [st_RepairNote x])\<rparr>)"

definition retried :: "PipelineRun \<Rightarrow> PipelineRun" where
  "retried r = r\<lparr>pn_RetryCount := wrap64 (pn_RetryCount r + 1)\<rparr>"

text \<open>A development result pins the session and the working directory, or has to present the pinned ones.\<close>

definition developed :: "PipelineRun \<Rightarrow> PipelineStepResult \<Rightarrow> PipelineRun \<times> go_error option" where
  "developed r x =
     (let counted = (\<lambda>r. if st_Outcome x = ''fail'' then retried r else r) in
      if blank (st_ProviderSessionID x) then (r, Some (Errorf ''development result requires provider_session_id'' []))
      else if blank (st_ProviderWorkDir x) then (r, Some (Errorf ''development result requires provider_work_dir'' []))
      else if pn_ParentSessionID r = '''' then
        (counted (r\<lparr>pn_ParentSessionID := st_ProviderSessionID x, pn_ProviderWorkDir := st_ProviderWorkDir x\<rparr>), None)
      else if st_ProviderSessionID x \<noteq> pn_ParentSessionID r then (r, Some ErrSessionContinuity)
      else if st_ProviderWorkDir x \<noteq> pn_ProviderWorkDir r then (r, Some ErrSessionContinuity)
      else (counted r, None))"

definition lowCoverage :: "PipelineRun \<Rightarrow> PipelineStepResult \<Rightarrow> bool" where
  "lowCoverage r x \<longleftrightarrow> float_less (st_Coverage x) (pn_CoverageThreshold r)"

definition countRetries :: "PipelineRun \<Rightarrow> PipelineStepResult \<Rightarrow> PipelineRun" where
  "countRetries r x =
     (let from = pn_PipelineStage r;
          r1 = (if from = PipelineUnitTest \<and> (st_Outcome x = ''fail'' \<or> lowCoverage r x)
                then r\<lparr>pn_UnitRetryCount := wrap64 (pn_UnitRetryCount r + 1)\<rparr> else r);
          r2 = (if from = PipelineArbitration \<and> st_Outcome x = ''pass'' then retried r1 else r1)
      in if from = PipelineIntegration \<and> st_Outcome x = ''fail'' \<and> pn_Workflow r2 \<noteq> [] \<and> \<not> HasStage r2 PipelineArbitration
         then retried r2 else r2)"

section \<open>The next stage\<close>

type_synonym routing = "go_error + PipelineStage \<times> PipelineStatus \<times> string"

abbreviation goes :: "PipelineStage \<Rightarrow> routing" where "goes s \<equiv> Inr (s, PipelineRunning, '''')"

abbreviation suspends :: "PipelineStage \<Rightarrow> string \<Rightarrow> routing" where "suspends s reason \<equiv> Inr (s, PipelineSuspended, reason)"

definition awaitsApproval :: "PipelineRun \<Rightarrow> bool" where
  "awaitsApproval r \<longleftrightarrow> pn_WorkflowMode r = WorkflowDesignApproval \<and> pn_DesignApprovalStatus r \<noteq> ''approved''"

definition retryLimit :: "PipelineRun \<Rightarrow> PipelineStage \<Rightarrow> int" where
  "retryLimit r s = (let step = StepFor r s in if 0 < ws_RetryLimit step then ws_RetryLimit step else pn_MaxRetries r)"

definition nextCustomStage :: "PipelineRun \<Rightarrow> PipelineStepResult \<Rightarrow> routing" where
  "nextCustomStage r x =
     (let pass = (st_Outcome x = ''pass''); current = pn_PipelineStage r; next = NextSelectedStage r current;
          onward = (if next = current \<and> current \<noteq> PipelineReport then suspends current ''workflow has no subsequent stage'' else goes next)
      in
      if current = PipelineDesign \<and> \<not> pass then suspends current ''design generation failed''
      else if current = PipelineDesign \<and> blank (st_DesignDoc x) then Inl (Errorf ''design stage requires design_doc'' [])
      else if current = PipelineDesign \<and> awaitsApproval r then Inr (current, PipelineWaitingApproval, ''design approval required'')
      else if current = PipelineDevelopment \<and> \<not> pass then
        (if retryLimit r current \<le> pn_RetryCount r then suspends current ''development retry limit reached'' else goes current)
      else if current = PipelineDevelopment \<and> blank (st_CodeVersion x) then Inl (Errorf ''development stage requires code_version'' [])
      else if current = PipelineUnitTest \<and> (\<not> pass \<or> lowCoverage r x) then
        (if retryLimit r current \<le> pn_UnitRetryCount r then suspends current ''unit-test or coverage retry limit reached'' else goes current)
      else if current = PipelineReport then
        (if \<not> pass then suspends current ''report generation failed''
         else if blank (st_Report x) then Inl (Errorf ''report stage requires report'' [])
         else Inr (current, PipelineCompleted, ''''))
      else if current = PipelineIntegration \<and> \<not> pass then
        (if HasStage r PipelineArbitration then goes PipelineArbitration
         else if HasStage r PipelineDevelopment \<and> pn_RetryCount r < retryLimit r PipelineDevelopment then goes PipelineDevelopment
         else suspends current ''integration failed and no repair stage is configured'')
      else if current = PipelineArbitration \<and> \<not> pass then suspends current ''arbitrator rejected automatic repair''
      else if current = PipelineArbitration \<and> retryLimit r current < pn_RetryCount r then suspends current ''repair retry limit reached''
      else if current = PipelineArbitration \<and> HasStage r PipelineDevelopment then goes PipelineDevelopment
      else if current = PipelineRevalidation \<and> \<not> pass then
        (if HasStage r PipelineArbitration then goes PipelineArbitration
         else suspends current ''revalidation failed and no arbitration stage is configured'')
      else onward)"

definition nextStage :: "PipelineRun \<Rightarrow> PipelineStepResult \<Rightarrow> routing" where
  "nextStage r x =
     (if pn_Workflow r \<noteq> [] then nextCustomStage r x
      else
        let pass = (st_Outcome x = ''pass''); current = pn_PipelineStage r in
        if current = PipelineDesign then
          (if \<not> pass then suspends PipelineDesign ''design generation failed''
           else if blank (st_DesignDoc x) then Inl (Errorf ''design stage requires design_doc'' [])
           else if awaitsApproval r then Inr (PipelineDesign, PipelineWaitingApproval, ''design approval required'')
           else goes PipelineDevelopment)
        else if current = PipelineDevelopment then
          (if \<not> pass then
             (if pn_MaxRetries r \<le> pn_RetryCount r then suspends PipelineDevelopment ''development retry limit reached''
              else goes PipelineDevelopment)
           else if blank (st_CodeVersion x) then Inl (Errorf ''development stage requires code_version'' [])
           else goes PipelineUnitTest)
        else if current = PipelineUnitTest then
          (if \<not> pass \<or> lowCoverage r x then
             (if pn_MaxRetries r \<le> pn_UnitRetryCount r then suspends PipelineUnitTest ''unit-test or coverage retry limit reached''
              else goes PipelineUnitTest)
           else goes PipelineIntegration)
        else if current = PipelineIntegration then
          (if \<not> pass then goes PipelineArbitration
           else if 0 < pn_RetryCount r then goes PipelineRevalidation
           else goes PipelineReport)
        else if current = PipelineArbitration then
          (if \<not> pass then suspends PipelineArbitration ''arbitrator rejected automatic repair''
           else if pn_MaxRetries r < pn_RetryCount r then suspends PipelineArbitration ''repair retry limit reached''
           else goes PipelineDevelopment)
        else if current = PipelineRevalidation then (if \<not> pass then goes PipelineArbitration else goes PipelineReport)
        else if current = PipelineReport then
          (if \<not> pass then suspends PipelineReport ''report generation failed''
           else if blank (st_Report x) then Inl (Errorf ''report stage requires report'' [])
           else Inr (PipelineReport, PipelineCompleted, ''''))
        else Inl (Errorf ''invalid pipeline stage'' []))"

section \<open>One edge of the machine\<close>

definition transitionOf :: "int \<Rightarrow> PipelineRun \<Rightarrow> PipelineStage \<Rightarrow> PipelineStage \<Rightarrow> PipelineStepResult \<Rightarrow> PipelineTransition" where
  "transitionOf now r from next x =
     \<lparr>pt_Sequence = int (length (pn_History r)) + 1, pt_From = from, pt_To = next, pt_Outcome = st_Outcome x, pt_AgentID = st_AgentID x,
      pt_ProviderIssueID = st_ProviderIssueID x, pt_ProviderTaskID = st_ProviderTaskID x, pt_ProviderSessionID = st_ProviderSessionID x,
      pt_ProviderWorkDir = st_ProviderWorkDir x, pt_Summary = st_Summary x, pt_CreatedAt = now\<rparr>"

definition enterStage :: "int \<Rightarrow> PipelineRun \<Rightarrow> PipelineStepResult \<Rightarrow> PipelineStage \<times> PipelineStatus \<times> string \<Rightarrow> PipelineRun" where
  "enterStage now r x to =
     (case to of (next, status, reason) \<Rightarrow>
        let r1 = r\<lparr>pn_PipelineStage := next, pn_Status := status, pn_SuspendReason := reason, pn_ActiveProviderIssueID := st_ProviderIssueID x,
                   pn_ActiveProviderTaskID := st_ProviderTaskID x\<rparr>;
            r2 = r1\<lparr>pn_ActiveAgentID := AgentFor r1 next\<rparr>;
            r3 = (if next = PipelineReport \<and> st_Report x \<noteq> '''' then r2\<lparr>pn_FinalReport := st_Report x\<rparr> else r2);
            r4 = (if status = PipelineCompleted
                  then r3\<lparr>pn_FinalReport := st_Report x, pn_ActiveAgentID := '''', pn_ActiveProviderTaskID := ''''\<rparr> else r3)
        in r4\<lparr>pn_History := pn_History r4 @ [transitionOf now r4 (pn_PipelineStage r) next x],
              pn_Version := wrap64 (pn_Version r4 + 1), pn_UpdatedAt := now\<rparr>)"

definition pipelineTerminal :: "PipelineRun \<Rightarrow> bool" where
  "pipelineTerminal r \<longleftrightarrow> pn_Status r \<in> set [PipelineCompleted, PipelineSuspended, PipelineFailed]"

definition Apply :: "int \<Rightarrow> PipelineRun \<Rightarrow> PipelineStepResult \<Rightarrow> PipelineRun \<times> go_error option" where
  "Apply now r x =
     (if pipelineTerminal r then (r, Some (Errorf ''pipeline is terminal: %s'' [ArgS (statusString (pn_Status r))]))
      else if st_Stage x \<noteq> pn_PipelineStage r then (r, Some ErrStaleStage)
      else if blank (st_AgentID x) \<or> st_AgentID x \<noteq> AgentFor r (pn_PipelineStage r) then (r, Some ErrWrongAgent)
      else if st_Outcome x \<noteq> ''pass'' \<and> st_Outcome x \<noteq> ''fail'' then (r, Some (Errorf ''outcome must be pass or fail'' []))
      else
        let r1 = r\<lparr>pn_Context := mergeContext (pn_Context r) x\<rparr> in
        case (if pn_PipelineStage r = PipelineDevelopment then developed r1 x else (r1, None)) of
          (r2, Some err) \<Rightarrow> (r2, Some err)
        | (r2, None) \<Rightarrow>
            (let r3 = countRetries r2 x in
             case nextStage r3 x of
               Inl err \<Rightarrow> (r3, Some err)
             | Inr to \<Rightarrow> (enterStage now r3 x to, None)))"

text \<open>A human decision on a design: the run is suspended, or goes on with the stage after the design.\<close>

definition rejectDesign :: "int \<Rightarrow> string \<Rightarrow> PipelineRun \<Rightarrow> PipelineRun" where
  "rejectDesign now reason r =
     r\<lparr>pn_Status := PipelineSuspended, pn_DesignApprovalStatus := ''rejected'', pn_SuspendReason := ''design rejected: '' @ TrimSpace reason,
       pn_Version := wrap64 (pn_Version r + 1), pn_UpdatedAt := now\<rparr>"

definition approveDesign :: "PipelineRun \<Rightarrow> PipelineRun" where
  "approveDesign r =
     (let next = NextSelectedStage r PipelineDesign;
          r1 = r\<lparr>pn_DesignApprovalStatus := ''approved'', pn_PipelineStage := next, pn_Status := PipelineRunning, pn_SuspendReason := ''''\<rparr>
      in r1\<lparr>pn_ActiveAgentID := AgentFor r1 next, pn_Version := wrap64 (pn_Version r1 + 1)\<rparr>)"

text \<open>A new run, as \<open>CreatePipeline\<close> of \<open>internal/store/memory.go\<close> prepares it before it is stored.\<close>

definition newPipeline :: "string \<Rightarrow> string \<Rightarrow> int \<Rightarrow> PipelineRun \<Rightarrow> go_error + PipelineRun" where
  "newPipeline newID newSession now r =
     (let r1 = (if pn_Workflow r \<noteq> [] then r\<lparr>pn_Workflow := NormalizeWorkflow (pn_Workflow r)\<rparr> else r);
          r2 = (if pn_ID r1 = '''' then r1\<lparr>pn_ID := newID\<rparr> else r1);
          r3 = (if pn_SessionID r2 = '''' then r2\<lparr>pn_SessionID := newSession\<rparr> else r2);
          r4 = (if pn_PipelineStage r3 = 0
                then r3\<lparr>pn_PipelineStage := (case pn_Workflow r3 of [] \<Rightarrow> PipelineDesign | s # _ \<Rightarrow> ws_Stage s)\<rparr> else r3);
          r5 = (if pn_Status r4 = PipelineStatusOther '''' then r4\<lparr>pn_Status := PipelineRunning\<rparr> else r4);
          r6 = (if pn_MaxRetries r5 = 0 then r5\<lparr>pn_MaxRetries := 3\<rparr> else r5);
          r7 = (if float_eq (pn_CoverageThreshold r6) (FFin 0) then r6\<lparr>pn_CoverageThreshold := FFin 80\<rparr> else r6);
          r8 = (if blank (pn_LegacyAdapterVersion r7) then r7\<lparr>pn_LegacyAdapterVersion := ''pipeline-stage-compat-v1''\<rparr> else r7)
      in case runValidate r8 of
           Some err \<Rightarrow> Inl err
         | None \<Rightarrow> Inr (r8\<lparr>pn_CreatedAt := now, pn_UpdatedAt := now, pn_Version := 1, pn_ActiveAgentID := AgentFor r8 (pn_PipelineStage r8)\<rparr>))"

section \<open>What a result changes\<close>

definition sameConfig :: "PipelineRun \<Rightarrow> PipelineRun \<Rightarrow> bool" where
  "sameConfig r r' \<longleftrightarrow> pn_Workflow r' = pn_Workflow r \<and> pn_Roles r' = pn_Roles r \<and> pn_MaxRetries r' = pn_MaxRetries r \<and>
     pn_WorkflowMode r' = pn_WorkflowMode r \<and> pn_DesignApprovalStatus r' = pn_DesignApprovalStatus r \<and>
     pn_CoverageThreshold r' = pn_CoverageThreshold r"

lemma sameConfig_trans: "sameConfig r r' \<Longrightarrow> sameConfig r' r'' \<Longrightarrow> sameConfig r r''"
  by (simp add: sameConfig_def)

lemma sameConfig_steps:
  assumes "sameConfig r r'"
  shows "Steps r' = Steps r" and "retryLimit r' s = retryLimit r s" and "HasStage r' s = HasStage r s" and "awaitsApproval r' = awaitsApproval r"
    and "NextSelectedStage r' s = NextSelectedStage r s"
proof -
  show eq: "Steps r' = Steps r" using assms by (simp add: sameConfig_def Steps_def)
  show "retryLimit r' s = retryLimit r s" "HasStage r' s = HasStage r s" "NextSelectedStage r' s = NextSelectedStage r s" "awaitsApproval r' = awaitsApproval r"
    using assms by (simp_all add: sameConfig_def eq retryLimit_def HasStage_def StepFor_def NextSelectedStage_def awaitsApproval_def Let_def)
qed

text \<open>The run with the result merged and the retries counted, from which the next stage is chosen.\<close>

definition mergedRun :: "PipelineRun \<Rightarrow> PipelineStepResult \<Rightarrow> PipelineRun" where
  "mergedRun r x =
     (let r1 = r\<lparr>pn_Context := mergeContext (pn_Context r) x\<rparr>
      in countRetries (if pn_PipelineStage r = PipelineDevelopment then fst (developed r1 x) else r1) x)"

text \<open>A result that is accepted, in one rule.\<close>

lemma Apply_accepted:
  assumes "Apply now r x = (r', None)"
  obtains to where "\<not> pipelineTerminal r" "st_Stage x = pn_PipelineStage r" "st_AgentID x = AgentFor r (pn_PipelineStage r)"
    "st_Outcome x = ''pass'' \<or> st_Outcome x = ''fail''"
    "pn_PipelineStage r = PipelineDevelopment \<longrightarrow> \<not> blank (st_ProviderSessionID x) \<and> \<not> blank (st_ProviderWorkDir x) \<and>
       (pn_ParentSessionID r \<noteq> '''' \<longrightarrow> st_ProviderSessionID x = pn_ParentSessionID r \<and> st_ProviderWorkDir x = pn_ProviderWorkDir r)"
    "nextStage (mergedRun r x) x = Inr to" "r' = enterStage now (mergedRun r x) x to"
proof -
  let ?r1 = "r\<lparr>pn_Context := mergeContext (pn_Context r) x\<rparr>"
  obtain r2 err where d: "(if pn_PipelineStage r = PipelineDevelopment then developed ?r1 x else (?r1, None)) = (r2, err)" by fastforce
  have ok: "\<not> pipelineTerminal r" "st_Stage x = pn_PipelineStage r" "st_AgentID x = AgentFor r (pn_PipelineStage r)"
    "st_Outcome x = ''pass'' \<or> st_Outcome x = ''fail''" "err = None"
    using assms d by (auto simp: Apply_def Let_def split: if_splits option.splits)
  have m: "mergedRun r x = countRetries r2 x" using d by (auto simp: mergedRun_def split: if_splits)
  have a: "(case nextStage (countRetries r2 x) x of Inl err \<Rightarrow> (countRetries r2 x, Some err)
      | Inr to \<Rightarrow> (enterStage now (countRetries r2 x) x to, None)) = (r', None)"
    using assms d ok by (auto simp: Apply_def Let_def split: if_splits)
  have "pn_PipelineStage r = PipelineDevelopment \<longrightarrow> \<not> blank (st_ProviderSessionID x) \<and> \<not> blank (st_ProviderWorkDir x) \<and>
       (pn_ParentSessionID r \<noteq> '''' \<longrightarrow> st_ProviderSessionID x = pn_ParentSessionID r \<and> st_ProviderWorkDir x = pn_ProviderWorkDir r)"
    using d ok(5) by (auto simp: developed_def Let_def split: if_splits)
  then show ?thesis using that [OF ok(1-4)] a by (auto simp: m split: sum.splits)
qed

lemma developed_frame:
  "sameConfig r (fst (developed r x)) \<and> pn_PipelineStage (fst (developed r x)) = pn_PipelineStage r \<and>
   pn_History (fst (developed r x)) = pn_History r \<and> pn_UnitRetryCount (fst (developed r x)) = pn_UnitRetryCount r \<and>
   pn_Context (fst (developed r x)) = pn_Context r"
  by (simp add: developed_def Let_def retried_def sameConfig_def)

lemma countRetries_frame:
  "sameConfig r (countRetries r x) \<and> pn_PipelineStage (countRetries r x) = pn_PipelineStage r \<and> pn_History (countRetries r x) = pn_History r \<and>
   pn_ParentSessionID (countRetries r x) = pn_ParentSessionID r \<and> pn_ProviderWorkDir (countRetries r x) = pn_ProviderWorkDir r \<and>
   pn_Context (countRetries r x) = pn_Context r"
  by (simp add: countRetries_def Let_def retried_def sameConfig_def)

lemma mergedRun_frame:
  "sameConfig r (mergedRun r x)" "pn_PipelineStage (mergedRun r x) = pn_PipelineStage r" "pn_History (mergedRun r x) = pn_History r"
  "pn_Context (mergedRun r x) = mergeContext (pn_Context r) x"
  using countRetries_frame [of "if pn_PipelineStage r = PipelineDevelopment then fst (developed (r\<lparr>pn_Context := mergeContext (pn_Context r) x\<rparr>) x)
      else r\<lparr>pn_Context := mergeContext (pn_Context r) x\<rparr>" x]
    developed_frame [of "r\<lparr>pn_Context := mergeContext (pn_Context r) x\<rparr>" x]
  by (auto simp: mergedRun_def Let_def sameConfig_def split: if_splits)

lemma enterStage_frame:
  "sameConfig r (enterStage now r x (s, st, reason)) \<and> pn_PipelineStage (enterStage now r x (s, st, reason)) = s \<and>
   pn_Status (enterStage now r x (s, st, reason)) = st \<and>
   pn_History (enterStage now r x (s, st, reason)) = pn_History r @ [transitionOf now r (pn_PipelineStage r) s x] \<and>
   pn_RetryCount (enterStage now r x (s, st, reason)) = pn_RetryCount r \<and>
   pn_UnitRetryCount (enterStage now r x (s, st, reason)) = pn_UnitRetryCount r \<and>
   pn_ParentSessionID (enterStage now r x (s, st, reason)) = pn_ParentSessionID r \<and>
   pn_ProviderWorkDir (enterStage now r x (s, st, reason)) = pn_ProviderWorkDir r \<and>
   pn_Context (enterStage now r x (s, st, reason)) = pn_Context r"
  by (simp add: enterStage_def Let_def sameConfig_def transitionOf_def)

lemma Apply_frame:
  assumes "Apply now r x = (r', None)"
  shows "sameConfig r r'" and "\<exists>t. pn_History r' = pn_History r @ [t] \<and> pt_From t = pn_PipelineStage r \<and> pt_To t = pn_PipelineStage r' \<and>
    pt_Sequence t = int (length (pn_History r)) + 1 \<and> pt_Outcome t = st_Outcome x"
  using assms
proof -
  obtain s st reason where a: "r' = enterStage now (mergedRun r x) x (s, st, reason)" using Apply_accepted [OF assms] by (metis prod_cases3)
  show "sameConfig r r'" using sameConfig_trans [OF mergedRun_frame(1)] enterStage_frame a by metis
  show "\<exists>t. pn_History r' = pn_History r @ [t] \<and> pt_From t = pn_PipelineStage r \<and> pt_To t = pn_PipelineStage r' \<and>
      pt_Sequence t = int (length (pn_History r)) + 1 \<and> pt_Outcome t = st_Outcome x"
    using enterStage_frame [of "mergedRun r x" now x s st reason] mergedRun_frame [of r x]
    unfolding a by (intro exI [of _ "transitionOf now (mergedRun r x) (pn_PipelineStage r) s x"]) (simp add: transitionOf_def)
qed

section \<open>Every run ends\<close>

definition countsRetry :: "PipelineRun \<Rightarrow> PipelineStepResult \<Rightarrow> bool" where
  "countsRetry r x \<longleftrightarrow> pn_PipelineStage r = PipelineDevelopment \<and> st_Outcome x = ''fail'' \<or>
     pn_PipelineStage r = PipelineArbitration \<and> st_Outcome x = ''pass'' \<or>
     pn_PipelineStage r = PipelineIntegration \<and> st_Outcome x = ''fail'' \<and> pn_Workflow r \<noteq> [] \<and> \<not> HasStage r PipelineArbitration"

definition countsUnit :: "PipelineRun \<Rightarrow> PipelineStepResult \<Rightarrow> bool" where
  "countsUnit r x \<longleftrightarrow> pn_PipelineStage r = PipelineUnitTest \<and> (st_Outcome x = ''fail'' \<or> lowCoverage r x)"

lemma HasStage_context [simp]: "HasStage (r\<lparr>pn_Context := c\<rparr>) s = HasStage r s"
  by (rule sameConfig_steps) (simp add: sameConfig_def)

lemma HasStage_units [simp]: "HasStage (r\<lparr>pn_UnitRetryCount := n\<rparr>) s = HasStage r s"
  by (rule sameConfig_steps) (simp add: sameConfig_def)

lemma mergedRun_counts:
  assumes "Apply now r x = (r', None)" and "0 \<le> pn_RetryCount r" "pn_RetryCount r < maxInt64" "0 \<le> pn_UnitRetryCount r" "pn_UnitRetryCount r < maxInt64"
  shows "pn_RetryCount (mergedRun r x) = pn_RetryCount r + of_bool (countsRetry r x)"
    and "pn_UnitRetryCount (mergedRun r x) = pn_UnitRetryCount r + of_bool (countsUnit r x)"
proof -
  have w: "wrap64 (pn_RetryCount r + 1) = pn_RetryCount r + 1" "wrap64 (pn_UnitRetryCount r + 1) = pn_UnitRetryCount r + 1"
    using assms by (auto simp: wrap64_id in64_def maxInt64_def minInt64_def)
  obtain to where ok: "st_Outcome x = ''pass'' \<or> st_Outcome x = ''fail''"
    "pn_PipelineStage r = PipelineDevelopment \<longrightarrow> \<not> blank (st_ProviderSessionID x) \<and> \<not> blank (st_ProviderWorkDir x) \<and>
       (pn_ParentSessionID r \<noteq> '''' \<longrightarrow> st_ProviderSessionID x = pn_ParentSessionID r \<and> st_ProviderWorkDir x = pn_ProviderWorkDir r)"
    using Apply_accepted [OF assms(1)] by metis
  show "pn_RetryCount (mergedRun r x) = pn_RetryCount r + of_bool (countsRetry r x)"
    "pn_UnitRetryCount (mergedRun r x) = pn_UnitRetryCount r + of_bool (countsUnit r x)"
    using ok w by (auto simp: mergedRun_def Let_def countRetries_def developed_def retried_def countsRetry_def countsUnit_def lowCoverage_def)
qed

definition stageRank :: "PipelineStage \<Rightarrow> int" where
  "stageRank s = (if s = PipelineArbitration \<or> s = PipelineReport then 5 else if s = PipelineRevalidation then 4 else s - 1)"

lemma retryLimit_default: "pn_Workflow r = [] \<Longrightarrow> retryLimit r s = pn_MaxRetries r"
  by (auto simp: retryLimit_def StepFor_def findStep_def Steps_def DefaultWorkflow_def defaultStep_def zeroStep_def Let_def)

text \<open>Every edge of the machine ends the run, waits for an approval, moves to a later stage or repeats within a limit.\<close>

inductive edge :: "PipelineRun \<Rightarrow> PipelineStepResult \<Rightarrow> PipelineStage \<Rightarrow> PipelineStatus \<Rightarrow> bool" for r x where
  suspended: "edge r x (pn_PipelineStage r) PipelineSuspended"
| waiting: "awaitsApproval r \<Longrightarrow> pn_PipelineStage r = PipelineDesign \<Longrightarrow> edge r x PipelineDesign PipelineWaitingApproval"
| completed: "pn_PipelineStage r = PipelineReport \<Longrightarrow> st_Outcome x = ''pass'' \<Longrightarrow> \<not> blank (st_Report x) \<Longrightarrow> edge r x PipelineReport PipelineCompleted"
| developing: "pn_PipelineStage r = PipelineDevelopment \<Longrightarrow> st_Outcome x = ''fail'' \<Longrightarrow> pn_RetryCount r < retryLimit r PipelineDevelopment \<Longrightarrow>
    edge r x PipelineDevelopment PipelineRunning"
| testing: "pn_PipelineStage r = PipelineUnitTest \<Longrightarrow> countsUnit r x \<Longrightarrow> pn_UnitRetryCount r < retryLimit r PipelineUnitTest \<Longrightarrow>
    edge r x PipelineUnitTest PipelineRunning"
| repairing: "pn_PipelineStage r = PipelineArbitration \<Longrightarrow> st_Outcome x = ''pass'' \<Longrightarrow> pn_RetryCount r \<le> retryLimit r PipelineArbitration \<Longrightarrow>
    HasStage r PipelineDevelopment \<Longrightarrow> edge r x PipelineDevelopment PipelineRunning"
| skipping: "pn_PipelineStage r = PipelineArbitration \<Longrightarrow> st_Outcome x = ''pass'' \<Longrightarrow> pn_RetryCount r \<le> retryLimit r PipelineArbitration \<Longrightarrow>
    \<not> HasStage r PipelineDevelopment \<Longrightarrow> pn_Workflow r \<noteq> [] \<Longrightarrow> NextSelectedStage r PipelineArbitration \<noteq> PipelineArbitration \<Longrightarrow>
    edge r x (NextSelectedStage r PipelineArbitration) PipelineRunning"
| returning: "pn_PipelineStage r = PipelineIntegration \<Longrightarrow> countsRetry r x \<Longrightarrow> pn_RetryCount r < retryLimit r PipelineDevelopment \<Longrightarrow>
    HasStage r PipelineDevelopment \<Longrightarrow> edge r x PipelineDevelopment PipelineRunning"
| arbitrating: "pn_PipelineStage r = PipelineIntegration \<or> pn_PipelineStage r = PipelineRevalidation \<Longrightarrow> st_Outcome x = ''fail'' \<Longrightarrow>
    HasStage r PipelineArbitration \<Longrightarrow> edge r x PipelineArbitration PipelineRunning"
| advancing: "pn_Workflow r = [] \<Longrightarrow> pn_PipelineStage r \<in> {PipelineDesign, PipelineDevelopment, PipelineUnitTest, PipelineRevalidation} \<Longrightarrow>
    st_Outcome x = ''pass'' \<Longrightarrow> \<not> countsUnit r x \<Longrightarrow> edge r x (pn_PipelineStage r + 1) PipelineRunning"
| integrated: "pn_Workflow r = [] \<Longrightarrow> pn_PipelineStage r = PipelineIntegration \<Longrightarrow> st_Outcome x = ''pass'' \<Longrightarrow>
    s = (if 0 < pn_RetryCount r then PipelineRevalidation else PipelineReport) \<Longrightarrow> edge r x s PipelineRunning"
| selecting: "pn_Workflow r \<noteq> [] \<Longrightarrow> pn_PipelineStage r \<notin> {PipelineArbitration, PipelineReport} \<Longrightarrow> st_Outcome x = ''pass'' \<Longrightarrow> \<not> countsUnit r x \<Longrightarrow>
    NextSelectedStage r (pn_PipelineStage r) \<noteq> pn_PipelineStage r \<Longrightarrow> edge r x (NextSelectedStage r (pn_PipelineStage r)) PipelineRunning"

lemma stageValid_cases:
  assumes "stageValid s"
  obtains "s = PipelineDesign" | "s = PipelineDevelopment" | "s = PipelineUnitTest" | "s = PipelineIntegration" | "s = PipelineArbitration"
    | "s = PipelineRevalidation" | "s = PipelineReport"
  using assms unfolding stageValid_def by linarith

lemma HasStage_default: "pn_Workflow r = [] \<Longrightarrow> stageValid s \<Longrightarrow> HasStage r s"
  by (elim stageValid_cases) (simp_all add: HasStage_iff Steps_def DefaultWorkflow_def defaultStep_def)

lemma nextStage_edge:
  assumes "nextStage r x = Inr (s, st, reason)" and "st_Outcome x = ''pass'' \<or> st_Outcome x = ''fail''" and "stageValid (pn_PipelineStage r)"
  shows "edge r x s st"
proof (cases "pn_Workflow r = []")
  case True
  then show ?thesis
    using assms(1,2) edge.intros [of r x] HasStage_default [OF True]
    by (cases rule: stageValid_cases [OF assms(3)]) (auto simp: stageValid_def nextStage_def Let_def retryLimit_default countsUnit_def split: if_splits)
next
  case False
  then show ?thesis
    using assms(1,2) edge.intros [of r x]
    by (cases rule: stageValid_cases [OF assms(3)])
      (auto simp: nextStage_def nextCustomStage_def Let_def countsUnit_def countsRetry_def split: if_splits)
qed

text \<open>
  The budget of a run: the repairs and the unit-test rounds its limits allow. The potential grows with every accepted
  result that leaves the run active.
\<close>

definition repairLimit :: "PipelineRun \<Rightarrow> int" where
  "repairLimit r = max (retryLimit r PipelineDevelopment) (retryLimit r PipelineArbitration)"

definition potential :: "PipelineRun \<Rightarrow> int" where
  "potential r = 6 * (pn_RetryCount r + pn_UnitRetryCount r) + stageRank (pn_PipelineStage r)"

definition withinLimits :: "PipelineRun \<Rightarrow> bool" where
  "withinLimits r \<longleftrightarrow> sorted_wrt (<) (stagesOf r) \<and> (\<forall>t\<in>set (stagesOf r). stageValid t) \<and> stageValid (pn_PipelineStage r) \<and>
     0 \<le> pn_RetryCount r \<and> pn_RetryCount r \<le> repairLimit r \<and> repairLimit r < maxInt64 \<and>
     0 \<le> pn_UnitRetryCount r \<and> pn_UnitRetryCount r \<le> retryLimit r PipelineUnitTest \<and> retryLimit r PipelineUnitTest < maxInt64"

lemma selected_later:
  assumes "withinLimits r" and "NextSelectedStage r s \<noteq> s"
  shows "s < NextSelectedStage r s" and "stageValid (NextSelectedStage r s)"
  using stageAfter_later [of "Steps r" s] assms by (auto simp: withinLimits_def NextSelectedStage_def)

lemma edge_progress:
  assumes "edge (mergedRun r x) x s st" and "withinLimits r" and "Apply now r x = (r', None)" and "st = PipelineRunning"
  shows "stageValid s" and "potential r < 6 * (pn_RetryCount (mergedRun r x) + pn_UnitRetryCount (mergedRun r x)) + stageRank s"
    and "pn_RetryCount (mergedRun r x) \<le> repairLimit r" and "pn_UnitRetryCount (mergedRun r x) \<le> retryLimit r PipelineUnitTest"
proof -
  let ?m = "mergedRun r x"
  have c: "pn_RetryCount ?m = pn_RetryCount r + of_bool (countsRetry r x)" "pn_UnitRetryCount ?m = pn_UnitRetryCount r + of_bool (countsUnit r x)"
    using mergedRun_counts [OF assms(3)] assms(2) by (auto simp: withinLimits_def)
  note same = sameConfig_steps [OF mergedRun_frame(1) [of r x]] mergedRun_frame(2) [of r x]
  have low: "lowCoverage ?m x = lowCoverage r x" "pn_Workflow ?m = pn_Workflow r" using mergedRun_frame(1) [of r x] by (auto simp: lowCoverage_def sameConfig_def)
  have ranks: "stageValid u \<Longrightarrow> 0 \<le> stageRank u \<and> stageRank u \<le> 5" for u by (auto simp: stageRank_def stageValid_def)
  have later: "NextSelectedStage r u \<noteq> u \<Longrightarrow> stageValid (NextSelectedStage r u) \<and> u < NextSelectedStage r u" for u
    using selected_later [OF assms(2)] by blast
  have "stageValid s \<and> potential r < 6 * (pn_RetryCount ?m + pn_UnitRetryCount ?m) + stageRank s \<and> pn_RetryCount ?m \<le> repairLimit r \<and>
      pn_UnitRetryCount ?m \<le> retryLimit r PipelineUnitTest"
    using assms(1,2,4) later [of "pn_PipelineStage r"] ranks [of s]
    by cases (auto simp: same c low potential_def withinLimits_def repairLimit_def countsRetry_def countsUnit_def stageRank_def stageValid_def)
  then show "stageValid s" "potential r < 6 * (pn_RetryCount ?m + pn_UnitRetryCount ?m) + stageRank s" "pn_RetryCount ?m \<le> repairLimit r"
    "pn_UnitRetryCount ?m \<le> retryLimit r PipelineUnitTest" by auto
qed

text \<open>
  An accepted result ends the run, makes the potential grow, or is a design that waits for an approval and leaves the run
  where it was.
\<close>

lemma Apply_progress:
  assumes "Apply now r x = (r', None)" and "withinLimits r" and "\<not> pipelineTerminal r'"
  shows "withinLimits r' \<and> (pn_Status r' = PipelineRunning \<and> potential r < potential r' \<or>
    awaitsApproval r \<and> st_Stage x = PipelineDesign \<and> pn_PipelineStage r' = PipelineDesign \<and> potential r' = potential r)"
proof -
  obtain s st reason where m: "st_Outcome x = ''pass'' \<or> st_Outcome x = ''fail''" "nextStage (mergedRun r x) x = Inr (s, st, reason)"
    and stage: "st_Stage x = pn_PipelineStage r" and r': "r' = enterStage now (mergedRun r x) x (s, st, reason)"
    using Apply_accepted [OF assms(1)] by (metis prod_cases3)
  note frame = enterStage_frame [of "mergedRun r x" now x s st reason, folded r'] sameConfig_steps [OF Apply_frame(1) [OF assms(1)]]
  have edge: "edge (mergedRun r x) x s st"
    using nextStage_edge [OF m(2,1)] assms(2) by (simp add: mergedRun_frame withinLimits_def)
  have counts: "pn_RetryCount (mergedRun r x) = pn_RetryCount r + of_bool (countsRetry r x)"
    "pn_UnitRetryCount (mergedRun r x) = pn_UnitRetryCount r + of_bool (countsUnit r x)"
    using mergedRun_counts [OF assms(1)] assms(2) by (auto simp: withinLimits_def)
  consider (running) "st = PipelineRunning" | (waiting) "awaitsApproval r" "pn_PipelineStage r = PipelineDesign" "s = PipelineDesign"
    using edge assms(3) frame sameConfig_steps(4) [OF mergedRun_frame(1) [of r x]] mergedRun_frame(2) [of r x]
    by cases (auto simp: pipelineTerminal_def)
  then show ?thesis
  proof cases
    case running
    note p = edge_progress [OF edge assms(2,1) running]
    then show ?thesis
      using assms(2) frame counts running by (auto simp: withinLimits_def potential_def repairLimit_def)
  next
    case waiting
    then have "\<not> countsRetry r x" "\<not> countsUnit r x" by (simp_all add: countsRetry_def countsUnit_def)
    then show ?thesis
      using waiting stage frame counts assms(2) by (auto simp: withinLimits_def potential_def repairLimit_def)
  qed
qed

text \<open>A sequence of results, each accepted at its time.\<close>

fun applyAll :: "PipelineRun \<Rightarrow> (int \<times> PipelineStepResult) list \<Rightarrow> PipelineRun option" where
  "applyAll r [] = Some r"
| "applyAll r ((now, x) # xs) = (case Apply now r x of (r', None) \<Rightarrow> applyAll r' xs | (_, Some _) \<Rightarrow> None)"

lemma terminal_refuses: "pipelineTerminal r \<Longrightarrow> applyAll r xs = Some r' \<Longrightarrow> xs = []"
  by (cases xs) (auto simp: Apply_def split: prod.splits)

lemma withinLimits_potential: "withinLimits r \<Longrightarrow> potential r \<le> 6 * (repairLimit r + retryLimit r PipelineUnitTest) + 5"
  by (auto simp: withinLimits_def potential_def stageRank_def stageValid_def)

lemma applyAll_bounded:
  assumes "applyAll r xs = Some r'" and "withinLimits r" and "\<not> awaitsApproval r"
  shows "int (length xs) \<le> 6 * (repairLimit r + retryLimit r PipelineUnitTest) + 6 - potential r"
  using assms
proof (induction xs arbitrary: r)
  case Nil
  then show ?case using withinLimits_potential by force
next
  case (Cons y xs)
  obtain now x where y: "y = (now, x)" by fastforce
  obtain r1 where run: "Apply now r x = (r1, None)" "applyAll r1 xs = Some r'"
    using Cons.prems(1) unfolding y by (auto split: prod.splits option.splits)
  note same = sameConfig_steps [OF Apply_frame(1) [OF run(1)]]
  show ?case
  proof (cases "pipelineTerminal r1")
    case True
    then show ?thesis using terminal_refuses [OF True run(2)] withinLimits_potential [OF Cons.prems(2)] by simp
  next
    case False
    then show ?thesis
      using Apply_progress [OF run(1) Cons.prems(2) False] Cons.IH [OF run(2)] Cons.prems(3) by (simp add: same repairLimit_def)
  qed
qed

text \<open>Results and decisions on the design, in any order, each accepted where it is made.\<close>

datatype move = Submit int PipelineStepResult | ApproveMove | RejectMove int string

fun makeMoves :: "PipelineRun \<Rightarrow> move list \<Rightarrow> PipelineRun option" where
  "makeMoves r [] = Some r"
| "makeMoves r (Submit now x # ms) = (case Apply now r x of (r', None) \<Rightarrow> makeMoves r' ms | (_, Some _) \<Rightarrow> None)"
| "makeMoves r (ApproveMove # ms) = (if pn_Status r = PipelineWaitingApproval then makeMoves (approveDesign r) ms else None)"
| "makeMoves r (RejectMove now reason # ms) = (if pn_Status r = PipelineWaitingApproval then makeMoves (rejectDesign now reason r) ms else None)"

text \<open>The moves that count: results of the stages after the design.\<close>

fun counted :: "move \<Rightarrow> bool" where
  "counted (Submit now x) \<longleftrightarrow> st_Stage x \<noteq> PipelineDesign"
| "counted m \<longleftrightarrow> False"

lemma terminal_no_moves: "pipelineTerminal r \<Longrightarrow> makeMoves r ms = Some r' \<Longrightarrow> ms = []"
proof (cases ms)
  case (Cons m ms')
  assume "pipelineTerminal r" "makeMoves r ms = Some r'"
  then show ?thesis using Cons by (cases m) (auto simp: Apply_def pipelineTerminal_def split: prod.splits)
qed simp

lemma approveDesign_config:
  "Steps (approveDesign r) = Steps r" "retryLimit (approveDesign r) s = retryLimit r s" "repairLimit (approveDesign r) = repairLimit r"
  "pn_RetryCount (approveDesign r) = pn_RetryCount r" "pn_UnitRetryCount (approveDesign r) = pn_UnitRetryCount r"
  "pn_PipelineStage (approveDesign r) = NextSelectedStage r PipelineDesign" "pn_Status (approveDesign r) = PipelineRunning"
  by (simp_all add: approveDesign_def Let_def Steps_def retryLimit_def StepFor_def repairLimit_def)

lemma approveDesign_progress:
  assumes "withinLimits r" and "pn_PipelineStage r = PipelineDesign"
  shows "withinLimits (approveDesign r) \<and> potential r \<le> potential (approveDesign r)"
proof -
  let ?s = "NextSelectedStage r PipelineDesign"
  have "stageValid ?s" using selected_later(2) [OF assms(1), of PipelineDesign] by (cases "?s = PipelineDesign") (auto simp: stageValid_def)
  moreover from this have "0 \<le> stageRank ?s" by (auto simp: stageRank_def stageValid_def)
  ultimately show ?thesis using assms by (auto simp: withinLimits_def potential_def approveDesign_config stageRank_def)
qed

lemma makeMoves_bounded:
  assumes "makeMoves r ms = Some r'" and "withinLimits r" and "pn_Status r = PipelineWaitingApproval \<longrightarrow> pn_PipelineStage r = PipelineDesign"
  shows "int (length (filter counted ms)) \<le> 6 * (repairLimit r + retryLimit r PipelineUnitTest) + 6 - potential r"
  using assms
proof (induction ms arbitrary: r)
  case Nil
  then show ?case using withinLimits_potential by force
next
  case (Cons m ms)
  have one: "1 \<le> 6 * (repairLimit r + retryLimit r PipelineUnitTest) + 6 - potential r"
    using withinLimits_potential [OF Cons.prems(2)] by simp
  show ?case
  proof (cases m)
    case (Submit now x)
    obtain r1 where run: "Apply now r x = (r1, None)" "makeMoves r1 ms = Some r'"
      using Cons.prems(1) unfolding Submit by (auto split: prod.splits option.splits)
    note same = sameConfig_steps [OF Apply_frame(1) [OF run(1)]]
    show ?thesis
    proof (cases "pipelineTerminal r1")
      case True
      then show ?thesis using terminal_no_moves [OF True run(2)] one by simp
    next
      case False
      note p = Apply_progress [OF run(1) Cons.prems(2) False]
      have "int (length (filter counted ms)) \<le> 6 * (repairLimit r1 + retryLimit r1 PipelineUnitTest) + 6 - potential r1"
        by (rule Cons.IH [OF run(2)]) (use p in auto)
      then show ?thesis using p Submit by (auto simp: same repairLimit_def)
    qed
  next
    case ApproveMove
    then have run: "makeMoves (approveDesign r) ms = Some r'" "pn_PipelineStage r = PipelineDesign"
      using Cons.prems by (auto split: if_splits)
    note p = approveDesign_progress [OF Cons.prems(2) run(2)]
    have "int (length (filter counted ms)) \<le> 6 * (repairLimit r + retryLimit r PipelineUnitTest) + 6 - potential (approveDesign r)"
      using Cons.IH [OF run(1)] p by (simp add: approveDesign_config)
    then show ?thesis using p ApproveMove by simp
  next
    case (RejectMove now reason)
    then have "makeMoves (rejectDesign now reason r) ms = Some r'" using Cons.prems(1) by (simp split: if_splits)
    moreover have "pipelineTerminal (rejectDesign now reason r)" by (simp add: pipelineTerminal_def rejectDesign_def)
    ultimately show ?thesis using terminal_no_moves RejectMove one by fastforce
  qed
qed

text \<open>
  C20: A pipeline takes a bounded number of results. Take a valid running run with its retry counters at zero and limits below
  the largest integer, and let R be the larger retry limit of
  development and arbitration and U the one of the unit tests. In whatever order stages pass and fail, designs are approved
  or rejected and whatever stages the workflow selects, the run accepts at most 6(R + U) + 6 results of the stages after the
  design. When no approval of the design is awaited, it accepts at most 6(R + U) + 6 results altogether. Designs themselves are
  not bounded while an approval is awaited (\<open>designs_unbounded\<close>).
\<close>

theorem pipeline_bounded:
  assumes "runValidate r = None" and "pn_Status r = PipelineRunning" and "pn_RetryCount r = 0" and "pn_UnitRetryCount r = 0"
    and "repairLimit r < maxInt64" and "retryLimit r PipelineUnitTest < maxInt64"
  shows "(makeMoves r ms = Some r' \<longrightarrow> int (length (filter counted ms)) \<le> 6 * (repairLimit r + retryLimit r PipelineUnitTest) + 6) \<and>
    (applyAll r xs = Some r' \<and> \<not> awaitsApproval r \<longrightarrow> int (length xs) \<le> 6 * (repairLimit r + retryLimit r PipelineUnitTest) + 6)"
proof -
  note v = validated_steps [OF assms(1)]
  have "1 \<le> retryLimit r s" for s using v(5) by (auto simp: retryLimit_def Let_def)
  from this [of PipelineDevelopment] this [of PipelineUnitTest] have w: "withinLimits r"
    using v assms(3-6) by (auto simp: withinLimits_def repairLimit_def)
  have "0 \<le> potential r" using assms(3,4) v(4) by (auto simp: potential_def stageRank_def stageValid_def)
  then show ?thesis using makeMoves_bounded [of r ms r'] applyAll_bounded [of r xs r'] w assms(2) by fastforce
qed

text \<open>
  While an approval of the design is awaited, a passed design is accepted again and again: \<open>Apply\<close> does not refuse a run that
  waits for an approval.
\<close>

theorem designs_unbounded:
  assumes "awaitsApproval r" and "pn_PipelineStage r = PipelineDesign" and "pn_Status r \<in> {PipelineRunning, PipelineWaitingApproval}"
    and "\<not> blank (AgentFor r PipelineDesign)" and "st_Stage x = PipelineDesign" and "st_AgentID x = AgentFor r PipelineDesign"
    and "st_Outcome x = ''pass''" and "\<not> blank (st_DesignDoc x)"
  shows "applyAll r (replicate n (now, x)) \<noteq> None"
  using assms(1-4,6)
proof (induction n arbitrary: r)
  case (Suc n)
  have m: "pn_PipelineStage (mergedRun r x) = PipelineDesign" "awaitsApproval (mergedRun r x)"
    using mergedRun_frame(1,2) [of r x] sameConfig_steps(4) [of r "mergedRun r x"] Suc.prems by auto
  have next_: "nextStage (mergedRun r x) x = Inr (PipelineDesign, PipelineWaitingApproval, ''design approval required'')"
    using m assms(7,8) by (simp add: nextStage_def nextCustomStage_def Let_def)
  let ?r1 = "enterStage now (mergedRun r x) x (PipelineDesign, PipelineWaitingApproval, ''design approval required'')"
  have run: "Apply now r x = (?r1, None)"
    using Suc.prems assms(5,7) next_ by (auto simp: Apply_def pipelineTerminal_def mergedRun_def Let_def)
  note frame = enterStage_frame [of "mergedRun r x" now x PipelineDesign PipelineWaitingApproval "''design approval required''"]
  have same: "sameConfig r ?r1" by (rule Apply_frame(1) [OF run])
  then have agent: "AgentFor ?r1 PipelineDesign = AgentFor r PipelineDesign"
    using sameConfig_steps(1) [OF same] by (simp add: AgentFor_def StepFor_def sameConfig_def Let_def)
  have "applyAll ?r1 (replicate n (now, x)) \<noteq> None"
    by (rule Suc.IH) (use Suc.prems same agent frame sameConfig_steps(4) [OF same] in auto)
  then show ?case using run by simp
qed simp

section \<open>What a run keeps\<close>

inductive pipeline_step :: "PipelineRun \<Rightarrow> PipelineRun \<Rightarrow> bool" where
  applied: "Apply now r x = (r', None) \<Longrightarrow> pipeline_step r r'"
| approved: "pn_Status r = PipelineWaitingApproval \<Longrightarrow> pipeline_step r (approveDesign r)"
| rejected: "pn_Status r = PipelineWaitingApproval \<Longrightarrow> pipeline_step r (rejectDesign now reason r)"

definition fresh_pipeline :: "PipelineRun \<Rightarrow> bool" where
  "fresh_pipeline r \<longleftrightarrow> (\<exists>i s now raw. newPipeline i s now raw = Inr r) \<and> pn_History r = [] \<and> pn_ParentSessionID r = '''' \<and>
     pn_Status r = PipelineRunning"

text \<open>The entries of the history are numbered, and every development result carries the pinned session and directory.\<close>

definition pinned :: "PipelineRun \<Rightarrow> bool" where
  "pinned r \<longleftrightarrow> map pt_Sequence (pn_History r) = [1..int (length (pn_History r))] \<and>
     (\<forall>t\<in>set (pn_History r). pt_From t = PipelineDevelopment \<longrightarrow> pn_ParentSessionID r \<noteq> '''' \<and>
        pt_ProviderSessionID t = pn_ParentSessionID r \<and> pt_ProviderWorkDir t = pn_ProviderWorkDir r)"

definition carried :: "PipelineRun \<Rightarrow> PipelineRun \<Rightarrow> bool" where
  "carried r r' \<longleftrightarrow> prefix (pn_History r) (pn_History r') \<and>
     (pn_ParentSessionID r \<noteq> '''' \<longrightarrow> pn_ParentSessionID r' = pn_ParentSessionID r \<and> pn_ProviderWorkDir r' = pn_ProviderWorkDir r) \<and>
     (pc_BaselineCommit (pn_Context r) \<noteq> '''' \<longrightarrow> pc_BaselineCommit (pn_Context r') = pc_BaselineCommit (pn_Context r)) \<and>
     prefix (pc_ErrorLogs (pn_Context r)) (pc_ErrorLogs (pn_Context r')) \<and> prefix (pc_RepairNotes (pn_Context r)) (pc_RepairNotes (pn_Context r')) \<and>
     prefix (pc_PassedTests (pn_Context r)) (pc_PassedTests (pn_Context r')) \<and> prefix (pc_FailedTests (pn_Context r)) (pc_FailedTests (pn_Context r'))"

lemma appendUniqueItems_prefix: "prefix existing (appendUniqueItems existing vs)"
  unfolding appendUniqueItems_def
proof (induction vs arbitrary: existing)
  case (Cons v vs)
  have "prefix existing (addUnique v existing)" by (simp add: addUnique_def Let_def)
  then show ?case using Cons.IH [of "addUnique v existing"] by (auto intro: prefix_order.trans)
qed simp

lemma mergedRun_session:
  assumes "pn_PipelineStage r \<noteq> PipelineDevelopment \<or> pn_ParentSessionID r \<noteq> ''''"
  shows "pn_ParentSessionID (mergedRun r x) = pn_ParentSessionID r" "pn_ProviderWorkDir (mergedRun r x) = pn_ProviderWorkDir r"
  using assms by (auto simp: mergedRun_def Let_def countRetries_frame developed_def retried_def)

lemma mergedRun_pins:
  assumes "pn_PipelineStage r = PipelineDevelopment" "pn_ParentSessionID r = ''''" "\<not> blank (st_ProviderSessionID x)" "\<not> blank (st_ProviderWorkDir x)"
  shows "pn_ParentSessionID (mergedRun r x) = st_ProviderSessionID x" "pn_ProviderWorkDir (mergedRun r x) = st_ProviderWorkDir x"
  using assms by (auto simp: mergedRun_def Let_def countRetries_frame developed_def retried_def)

lemma Apply_carried:
  assumes "Apply now r x = (r', None)"
  shows "carried r r'"
proof -
  obtain s st reason where r': "r' = enterStage now (mergedRun r x) x (s, st, reason)" using Apply_accepted [OF assms] by (metis prod_cases3)
  note frame = enterStage_frame [of "mergedRun r x" now x s st reason, folded r'] mergedRun_frame [of r x] mergedRun_session [of r x]
  have "prefix (pc_ErrorLogs (pn_Context r)) (pc_ErrorLogs (mergeContext (pn_Context r) x))"
    "prefix (pc_RepairNotes (pn_Context r)) (pc_RepairNotes (mergeContext (pn_Context r) x))"
    "prefix (pc_PassedTests (pn_Context r)) (pc_PassedTests (mergeContext (pn_Context r) x))"
    "prefix (pc_FailedTests (pn_Context r)) (pc_FailedTests (mergeContext (pn_Context r) x))"
    "pc_BaselineCommit (pn_Context r) \<noteq> '''' \<Longrightarrow> pc_BaselineCommit (mergeContext (pn_Context r) x) = pc_BaselineCommit (pn_Context r)"
    by (simp_all add: mergeContext_def Let_def appendUniqueItems_prefix)
  then show ?thesis using frame by (auto simp: carried_def)
qed

lemma Apply_pinned:
  assumes "Apply now r x = (r', None)" and "pinned r"
  shows "pinned r'"
proof -
  obtain s st reason where dev: "pn_PipelineStage r = PipelineDevelopment \<longrightarrow> \<not> blank (st_ProviderSessionID x) \<and> \<not> blank (st_ProviderWorkDir x) \<and>
       (pn_ParentSessionID r \<noteq> '''' \<longrightarrow> st_ProviderSessionID x = pn_ParentSessionID r \<and> st_ProviderWorkDir x = pn_ProviderWorkDir r)"
    and r': "r' = enterStage now (mergedRun r x) x (s, st, reason)" using Apply_accepted [OF assms(1)] by (metis prod_cases3)
  let ?t = "transitionOf now (mergedRun r x) (pn_PipelineStage r) s x"
  note frame = enterStage_frame [of "mergedRun r x" now x s st reason, folded r'] mergedRun_frame [of r x]
  have h: "pn_History r' = pn_History r @ [?t]" "pt_Sequence ?t = int (length (pn_History r)) + 1"
    using frame by (simp_all add: transitionOf_def)
  have old: "pn_ParentSessionID r' = pn_ParentSessionID r \<and> pn_ProviderWorkDir r' = pn_ProviderWorkDir r" if "pn_ParentSessionID r \<noteq> ''''"
    using mergedRun_session [of r x] that frame by simp
  have new: "pn_ParentSessionID r' \<noteq> '''' \<and> st_ProviderSessionID x = pn_ParentSessionID r' \<and> st_ProviderWorkDir x = pn_ProviderWorkDir r'"
    if "pn_PipelineStage r = PipelineDevelopment"
    using mergedRun_session [of r x] mergedRun_pins [OF that] dev that frame not_blank_not_Nil by (cases "pn_ParentSessionID r = ''''") auto
  have "map pt_Sequence (pn_History r') = [1..int (length (pn_History r'))]"
    using assms(2) h by (simp add: pinned_def upto_rec2)
  moreover have "\<forall>t\<in>set (pn_History r'). pt_From t = PipelineDevelopment \<longrightarrow> pn_ParentSessionID r' \<noteq> '''' \<and>
      pt_ProviderSessionID t = pn_ParentSessionID r' \<and> pt_ProviderWorkDir t = pn_ProviderWorkDir r'"
    using assms(2) old new by (auto simp: h(1) pinned_def transitionOf_def)
  ultimately show ?thesis by (simp add: pinned_def)
qed

lemma decided_pinned:
  "pinned (approveDesign r) = pinned r" "pinned (rejectDesign now reason r) = pinned r" "carried r (approveDesign r)" "carried r (rejectDesign now reason r)"
  by (simp_all add: pinned_def carried_def approveDesign_def rejectDesign_def Let_def)

interpretation pipeline: history_system fresh_pipeline pipeline_step pinned carried
proof
  show "pinned r" if "fresh_pipeline r" for r using that by (simp add: fresh_pipeline_def pinned_def)
  show "pinned r'" if "pinned r" "pipeline_step r r'" for r r'
    using that(2,1) by cases (auto intro: Apply_pinned simp: decided_pinned)
  show "carried r r" for r by (simp add: carried_def)
  show "carried r t" if "carried r s" "carried s t" for r s t
    using that unfolding carried_def by (metis prefix_order.trans)
  show "carried r r'" if "pinned r" "pipeline_step r r'" for r r'
    using that(2) by cases (auto intro: Apply_carried simp: decided_pinned)
qed

text \<open>
  C22: The evidence of a pipeline is append-only. From any state a new run reaches, through results and design decisions, to
  any later one the history, the error logs, the repair notes and the test lists only grow, and the baseline commit and
  the session and directory of the first development result stay. The history is numbered without gaps, and every
  development result in it came from that session and directory.
\<close>

theorem pipeline_history:
  assumes "fresh_pipeline r0" and "pipeline_step\<^sup>*\<^sup>* r0 r" and "pipeline_step\<^sup>*\<^sup>* r r'"
  shows "prefix (pn_History r) (pn_History r') \<and>
     (pn_ParentSessionID r \<noteq> '''' \<longrightarrow> pn_ParentSessionID r' = pn_ParentSessionID r \<and> pn_ProviderWorkDir r' = pn_ProviderWorkDir r) \<and>
     (pc_BaselineCommit (pn_Context r) \<noteq> '''' \<longrightarrow> pc_BaselineCommit (pn_Context r') = pc_BaselineCommit (pn_Context r)) \<and>
     prefix (pc_ErrorLogs (pn_Context r)) (pc_ErrorLogs (pn_Context r')) \<and> prefix (pc_RepairNotes (pn_Context r)) (pc_RepairNotes (pn_Context r')) \<and>
     prefix (pc_PassedTests (pn_Context r)) (pc_PassedTests (pn_Context r')) \<and> prefix (pc_FailedTests (pn_Context r)) (pc_FailedTests (pn_Context r')) \<and>
     map pt_Sequence (pn_History r) = [1..int (length (pn_History r))] \<and>
     (\<forall>t\<in>set (pn_History r). pt_From t = PipelineDevelopment \<longrightarrow>
        pt_ProviderSessionID t = pn_ParentSessionID r \<and> pt_ProviderWorkDir t = pn_ProviderWorkDir r)"
  using pipeline.before_reachable [OF assms] pipeline.inv_reachable [OF assms(1,2)] unfolding carried_def pinned_def by blast

section \<open>What completion means\<close>

text \<open>
  The history shows a passed development result after which nothing was developed again, and after it passed unit tests
  (\<open>1 \<le> n\<close>) and a passed integration test (\<open>2 \<le> n\<close>).
\<close>

definition verifiedUpTo :: "nat \<Rightarrow> PipelineTransition list \<Rightarrow> bool" where
  "verifiedUpTo n h \<longleftrightarrow> (\<exists>h1 d h2. h = h1 @ d # h2 \<and> pt_From d = PipelineDevelopment \<and> pt_Outcome d = ''pass'' \<and>
     (\<forall>t\<in>set h2. pt_From t \<noteq> PipelineDevelopment) \<and>
     (1 \<le> n \<longrightarrow> (\<exists>u\<in>set h2. pt_From u = PipelineUnitTest \<and> pt_To u = PipelineIntegration \<and> pt_Outcome u = ''pass'')) \<and>
     (2 \<le> n \<longrightarrow> (\<exists>u\<in>set h2. pt_From u = PipelineIntegration \<and> pt_Outcome u = ''pass'')))"

lemma verifiedUpTo_more:
  assumes "verifiedUpTo n h" and "pt_From t \<noteq> PipelineDevelopment"
  shows "verifiedUpTo n (h @ [t])"
proof -
  obtain h1 d h2 where "h = h1 @ d # h2" "pt_From d = PipelineDevelopment" "pt_Outcome d = ''pass''" "\<forall>t\<in>set h2. pt_From t \<noteq> PipelineDevelopment"
    "1 \<le> n \<longrightarrow> (\<exists>u\<in>set h2. pt_From u = PipelineUnitTest \<and> pt_To u = PipelineIntegration \<and> pt_Outcome u = ''pass'')"
    "2 \<le> n \<longrightarrow> (\<exists>u\<in>set h2. pt_From u = PipelineIntegration \<and> pt_Outcome u = ''pass'')"
    using assms(1) unfolding verifiedUpTo_def by blast
  with assms(2) show ?thesis
    unfolding verifiedUpTo_def by (intro exI [of _ h1] exI [of _ d] exI [of _ "h2 @ [t]"]) auto
qed

lemma verifiedUpTo_developed: "pt_From t = PipelineDevelopment \<Longrightarrow> pt_Outcome t = ''pass'' \<Longrightarrow> verifiedUpTo 0 (h @ [t])"
  unfolding verifiedUpTo_def by fastforce

lemma verifiedUpTo_Suc:
  assumes "verifiedUpTo n h" and "pt_Outcome t = ''pass''"
    and "n = 0 \<and> pt_From t = PipelineUnitTest \<and> pt_To t = PipelineIntegration \<or> n = 1 \<and> pt_From t = PipelineIntegration"
  shows "verifiedUpTo (Suc n) (h @ [t])"
proof -
  obtain h1 d h2 where "h = h1 @ d # h2" "pt_From d = PipelineDevelopment" "pt_Outcome d = ''pass''" "\<forall>t\<in>set h2. pt_From t \<noteq> PipelineDevelopment"
    "1 \<le> n \<longrightarrow> (\<exists>u\<in>set h2. pt_From u = PipelineUnitTest \<and> pt_To u = PipelineIntegration \<and> pt_Outcome u = ''pass'')"
    using assms(1) unfolding verifiedUpTo_def by blast
  with assms(2,3) show ?thesis
    unfolding verifiedUpTo_def by (intro exI [of _ h1] exI [of _ d] exI [of _ "h2 @ [t]"]) auto
qed

text \<open>What the stage of a run with the default workflow says about its history.\<close>

definition evidenced :: "PipelineRun \<Rightarrow> bool" where
  "evidenced r \<longleftrightarrow> pn_Workflow r = [] \<and> stageValid (pn_PipelineStage r) \<and>
     (pn_PipelineStage r = PipelineUnitTest \<longrightarrow> verifiedUpTo 0 (pn_History r)) \<and>
     (pn_PipelineStage r = PipelineIntegration \<longrightarrow> verifiedUpTo 1 (pn_History r)) \<and>
     (pn_PipelineStage r \<in> {PipelineRevalidation, PipelineReport} \<longrightarrow> verifiedUpTo 2 (pn_History r)) \<and>
     (pn_Status r = PipelineCompleted \<longrightarrow> pn_PipelineStage r = PipelineReport \<and> \<not> blank (pn_FinalReport r)) \<and>
     (pn_Status r = PipelineWaitingApproval \<longrightarrow> pn_PipelineStage r = PipelineDesign)"

lemma Apply_evidenced:
  assumes "Apply now r x = (r', None)" and "evidenced r"
  shows "evidenced r'"
proof -
  obtain s st reason where m: "st_Outcome x = ''pass'' \<or> st_Outcome x = ''fail''" "nextStage (mergedRun r x) x = Inr (s, st, reason)"
    and r': "r' = enterStage now (mergedRun r x) x (s, st, reason)"
    using Apply_accepted [OF assms(1)] by (metis prod_cases3)
  let ?t = "transitionOf now (mergedRun r x) (pn_PipelineStage r) s x" and ?h = "pn_History r"
  note frame = enterStage_frame [of "mergedRun r x" now x s st reason, folded r'] mergedRun_frame(2,3) [of r x]
  have w: "pn_Workflow (mergedRun r x) = []" "pn_Workflow r' = []"
    using assms(2) mergedRun_frame(1) [of r x] Apply_frame(1) [OF assms(1)] by (auto simp: evidenced_def sameConfig_def)
  have t: "pt_From ?t = pn_PipelineStage r" "pt_To ?t = s" "pt_Outcome ?t = st_Outcome x" by (simp_all add: transitionOf_def)
  have final: "st = PipelineCompleted \<Longrightarrow> pn_FinalReport r' = st_Report x" unfolding r' by (simp add: enterStage_def Let_def)
  have unit: "countsUnit (mergedRun r x) x \<Longrightarrow> pn_PipelineStage r = PipelineUnitTest" by (simp add: countsUnit_def frame)
  note grow = verifiedUpTo_more [where h = ?h and t = ?t, unfolded t] verifiedUpTo_developed [where h = ?h and t = ?t, unfolded t]
    verifiedUpTo_Suc [where n = 0 and h = ?h and t = ?t, unfolded t] verifiedUpTo_Suc [where n = 1 and h = ?h and t = ?t, unfolded t]
  have edge: "edge (mergedRun r x) x s st" using nextStage_edge [OF m(2,1)] assms(2) by (simp add: frame evidenced_def)
  then show ?thesis
    using assms(2) grow final
    by cases (auto simp: evidenced_def frame w unit stageValid_def numeral_2_eq_2 split: if_splits)
qed

definition default_pipeline :: "PipelineRun \<Rightarrow> bool" where
  "default_pipeline r \<longleftrightarrow> fresh_pipeline r \<and> pn_Workflow r = [] \<and> pn_PipelineStage r = PipelineDesign"

lemma approve_default: "pn_Workflow r = [] \<Longrightarrow> NextSelectedStage r PipelineDesign = PipelineDevelopment"
  by (simp add: NextSelectedStage_def Steps_def DefaultWorkflow_def defaultStep_def)

interpretation default: invariant_system default_pipeline pipeline_step evidenced
proof
  show "evidenced r" if "default_pipeline r" for r
    using that by (auto simp: default_pipeline_def fresh_pipeline_def evidenced_def stageValid_def)
  show "evidenced r'" if "evidenced r" "pipeline_step r r'" for r r'
    using that(2,1)
  proof cases
    case (applied now x)
    then show ?thesis using Apply_evidenced that(1) by blast
  next
    case approved
    then show ?thesis using that(1) approve_default [of r] by (auto simp: evidenced_def approveDesign_def Let_def stageValid_def)
  next
    case (rejected now reason)
    then show ?thesis using that(1) by (auto simp: evidenced_def rejectDesign_def)
  qed
qed

text \<open>
  C21: A pipeline with the default workflow completes only with tested code. When a run that started at the design is
  completed, its history holds a passed development result after which nothing was developed again, and after that
  result passed unit tests that opened the integration stage and a passed integration test; and there is a report.
\<close>

theorem pipeline_completed:
  assumes "default_pipeline r0" and "pipeline_step\<^sup>*\<^sup>* r0 r" and "pn_Status r = PipelineCompleted"
  shows "(\<exists>h1 d h2. pn_History r = h1 @ d # h2 \<and> pt_From d = PipelineDevelopment \<and> pt_Outcome d = ''pass'' \<and>
     (\<forall>t\<in>set h2. pt_From t \<noteq> PipelineDevelopment) \<and>
     (\<exists>u\<in>set h2. pt_From u = PipelineUnitTest \<and> pt_To u = PipelineIntegration \<and> pt_Outcome u = ''pass'') \<and>
     (\<exists>u\<in>set h2. pt_From u = PipelineIntegration \<and> pt_Outcome u = ''pass'')) \<and> \<not> blank (pn_FinalReport r)"
proof -
  have "verifiedUpTo 2 (pn_History r)" "\<not> blank (pn_FinalReport r)"
    using default.inv_reachable [OF assms(1,2)] assms(3) by (auto simp: evidenced_def)
  then show ?thesis unfolding verifiedUpTo_def by auto
qed

section \<open>A workflow that cannot complete\<close>

text \<open>
  In a custom workflow the stage after integration is the next selected one, which is arbitration when it is selected; a
  passed arbitration goes back to development. A run whose workflow selects both therefore goes round until its retries
  are used up, and is never completed, even when every stage passes.
\<close>

definition circling :: "PipelineRun \<Rightarrow> bool" where
  "circling r \<longleftrightarrow> pn_Workflow r \<noteq> [] \<and> sorted_wrt (<) (stagesOf r) \<and> (\<forall>t\<in>set (stagesOf r). stageValid t) \<and>
     {PipelineDevelopment, PipelineArbitration} \<subseteq> set (stagesOf r) \<and> stageValid (pn_PipelineStage r) \<and>
     pn_PipelineStage r \<le> PipelineArbitration \<and> pn_Status r \<noteq> PipelineCompleted"

lemma circling_next:
  assumes "circling r" and "s < PipelineArbitration" and "1 \<le> s"
  shows "NextSelectedStage r s \<le> PipelineArbitration \<and> stageValid (NextSelectedStage r s)"
  using stageAfter_later [of "Steps r" s] assms unfolding circling_def NextSelectedStage_def
  by (cases "stageAfter s (Steps r) = s") (auto simp: stageValid_def)

lemma Apply_circling:
  assumes "Apply now r x = (r', None)" and "circling r"
  shows "circling r'"
proof -
  obtain s st reason where m: "st_Outcome x = ''pass'' \<or> st_Outcome x = ''fail''" "nextStage (mergedRun r x) x = Inr (s, st, reason)"
    and r': "r' = enterStage now (mergedRun r x) x (s, st, reason)"
    using Apply_accepted [OF assms(1)] by (metis prod_cases3)
  note frame = enterStage_frame [of "mergedRun r x" now x s st reason, folded r'] mergedRun_frame(2) [of r x]
  note same = sameConfig_steps [OF mergedRun_frame(1) [of r x]] sameConfig_steps [OF Apply_frame(1) [OF assms(1)]]
  have w: "pn_Workflow (mergedRun r x) \<noteq> []" "pn_Workflow r' \<noteq> []"
    using assms(2) mergedRun_frame(1) [of r x] Apply_frame(1) [OF assms(1)] by (auto simp: circling_def sameConfig_def)
  have edge: "edge (mergedRun r x) x s st" using nextStage_edge [OF m(2,1)] assms(2) by (simp add: frame circling_def)
  then have "stageValid s \<and> s \<le> PipelineArbitration \<and> st \<noteq> PipelineCompleted"
    using assms(2) circling_next [OF assms(2), of "pn_PipelineStage r"]
    by cases (auto simp: circling_def frame same w HasStage_iff stageValid_def)
  then show ?thesis using assms(2) w by (simp add: circling_def frame same)
qed

lemma decided_circling:
  assumes "circling r"
  shows "circling (approveDesign r)" and "circling (rejectDesign now reason r)"
proof -
  have same: "Steps (approveDesign r) = Steps r" "Steps (rejectDesign now reason r) = Steps r"
    by (simp_all add: approveDesign_def rejectDesign_def Let_def Steps_def)
  show "circling (approveDesign r)" "circling (rejectDesign now reason r)"
    using assms circling_next [OF assms, of PipelineDesign] unfolding circling_def same
    by (simp_all add: approveDesign_def rejectDesign_def Let_def)
qed

theorem arbitration_never_completes:
  assumes "pipeline_step\<^sup>*\<^sup>* r r'" and "runValidate r = None" and "pn_Workflow r \<noteq> []"
    and "{PipelineDevelopment, PipelineArbitration} \<subseteq> set (stagesOf r)" and "pn_PipelineStage r \<le> PipelineArbitration" and "pn_Status r = PipelineRunning"
  shows "pn_Status r' \<noteq> PipelineCompleted"
proof -
  have "circling r" using validated_steps [OF assms(2)] assms by (auto simp: circling_def)
  with assms(1) have "circling r'"
  proof (induction rule: rtranclp_induct)
    case (step s t)
    from step(2) step.IH [OF step.prems] show ?case by cases (auto intro: Apply_circling decided_circling)
  qed simp
  then show ?thesis by (simp add: circling_def)
qed

section \<open>Witnesses\<close>

lemma applyAll_steps: "applyAll r xs = Some r' \<Longrightarrow> pipeline_step\<^sup>*\<^sup>* r r'"
proof (induction xs arbitrary: r)
  case (Cons y xs)
  obtain now x where y: "y = (now, x)" by fastforce
  obtain r1 where "Apply now r x = (r1, None)" "applyAll r1 xs = Some r'"
    using Cons.prems unfolding y by (auto split: prod.splits option.splits)
  then show ?case using Cons.IH applied by (meson converse_rtranclp_into_rtranclp)
qed simp

definition exRoles :: PipelineAgentRoles where
  "exRoles = \<lparr>ar_Designer = ''design'', ar_Developer = ''dev'', ar_Tester = ''test'', ar_Arbitrator = ''arb''\<rparr>"

definition exRequest :: PipelineRun where
  "exRequest = \<lparr>pn_ID = ''pipe'', pn_WorkspaceID = ''ws'', pn_RequirementID = ''req'', pn_SessionID = ''s1'', pn_PipelineWorkItemID = '''',
     pn_BugID = '''', pn_ParentSessionID = '''', pn_ProviderWorkDir = '''', pn_PipelineStage = 0, pn_Status = PipelineStatusOther '''',
     pn_Roles = exRoles, pn_WorkflowMode = WorkflowAutomatic, pn_LegacyAdapterVersion = '''', pn_ExecutionPlanID = '''',
     pn_ActiveGraphNodeID = '''', pn_ActiveGraphAttemptID = '''', pn_Workflow = [], pn_DesignApprovalID = '''', pn_DesignApprovalStatus = '''',
     pn_Context = \<lparr>pc_RequirementText = '''', pc_DesignDoc = '''', pc_BaselineCommit = '''', pc_CurrentCommit = '''', pc_PassedTests = [],
       pc_FailedTests = [], pc_ErrorLogs = [], pc_RepairNotes = [], pc_Coverage = FFin 0\<rparr>,
     pn_MaxRetries = 0, pn_RetryCount = 0, pn_UnitRetryCount = 0, pn_CoverageThreshold = FFin 0, pn_ActiveProviderIssueID = '''',
     pn_ActiveProviderTaskID = '''', pn_ActiveAgentID = '''', pn_FinalReport = '''', pn_SuspendReason = '''', pn_Version = 0, pn_History = [],
     pn_CreatedAt = 0, pn_UpdatedAt = 0\<rparr>"

definition exPipeline :: PipelineRun where
  "exPipeline = projr (newPipeline ''id'' ''session'' 100 exRequest)"

definition exStep :: "PipelineStage \<Rightarrow> string \<Rightarrow> string \<Rightarrow> PipelineStepResult" where
  "exStep s agent out = \<lparr>st_Stage = s, st_AgentID = agent, st_Outcome = out, st_Summary = '''', st_DesignDoc = ''doc'', st_CodeVersion = '''',
     st_Coverage = FFin 86, st_PassedTests = [], st_FailedTests = [], st_ErrorLog = '''', st_RepairNote = '''', st_Report = ''all green'',
     st_ProviderIssueID = '''', st_ProviderTaskID = '''', st_ProviderSessionID = ''native'', st_ProviderWorkDir = ''/repo''\<rparr>"

definition exDeveloped :: "string \<Rightarrow> PipelineStepResult" where
  "exDeveloped v = (exStep PipelineDevelopment ''dev'' ''pass'')\<lparr>st_CodeVersion := v\<rparr>"

text \<open>A run that repairs its code once: the integration test fails, and the repaired code is tested again.\<close>

definition exRepairs :: "(int \<times> PipelineStepResult) list" where
  "exRepairs = map (Pair 200) [exStep PipelineDesign ''design'' ''pass'', exDeveloped ''a1'', exStep PipelineUnitTest ''test'' ''pass'',
     exStep PipelineIntegration ''test'' ''fail'', exStep PipelineArbitration ''arb'' ''pass'']"

definition exDelivers :: "(int \<times> PipelineStepResult) list" where
  "exDelivers = map (Pair 300) [exDeveloped ''a2'', exStep PipelineUnitTest ''test'' ''pass'', exStep PipelineIntegration ''test'' ''pass'',
     exStep PipelineRevalidation ''test'' ''pass'', exStep PipelineReport ''test'' ''pass'']"

definition exRepaired :: PipelineRun where "exRepaired = the (applyAll exPipeline exRepairs)"

definition exDelivered :: PipelineRun where "exDelivered = the (applyAll exRepaired exDelivers)"

lemma exPipeline_fresh: "default_pipeline exPipeline"
proof -
  have "newPipeline ''id'' ''session'' 100 exRequest = Inr exPipeline" unfolding exPipeline_def by (cases "newPipeline ''id'' ''session'' 100 exRequest") (code_simp | simp)+
  moreover have "pn_History exPipeline = [] \<and> pn_ParentSessionID exPipeline = '''' \<and> pn_Status exPipeline = PipelineRunning \<and> pn_Workflow exPipeline = [] \<and>
    pn_PipelineStage exPipeline = PipelineDesign" by code_simp
  ultimately show ?thesis unfolding default_pipeline_def fresh_pipeline_def by blast
qed

lemma exRepaired_run: "applyAll exPipeline exRepairs = Some exRepaired"
proof -
  have "applyAll exPipeline exRepairs \<noteq> None" by code_simp
  then show ?thesis by (auto simp: exRepaired_def)
qed

lemma exDelivered_run: "applyAll exRepaired exDelivers = Some exDelivered"
proof -
  have "applyAll exRepaired exDelivers \<noteq> None" by code_simp
  then show ?thesis by (auto simp: exDelivered_def)
qed

text \<open>The run with repairs, and a run whose design is submitted twice, approved and then developed.\<close>

definition exAwaiting :: PipelineRun where
  "exAwaiting = exPipeline\<lparr>pn_WorkflowMode := WorkflowDesignApproval\<rparr>"

definition exMoves :: "move list" where
  "exMoves = (case hd exRepairs of (now, x) \<Rightarrow> [Submit now x, Submit now x, ApproveMove, Submit now (exDeveloped ''a1'')])"

theorem pipeline_bounded_witness:
  "length exRepairs = 5 \<and> int (length exRepairs) \<le> 6 * (3 + 3) + 6 \<and>
   makeMoves exAwaiting exMoves \<noteq> None \<and> length (filter counted exMoves) = 1 \<and> int (length (filter counted exMoves)) \<le> 6 * (3 + 3) + 6"
proof -
  have a: "runValidate exPipeline = None" "pn_Status exPipeline = PipelineRunning" "pn_RetryCount exPipeline = 0" "pn_UnitRetryCount exPipeline = 0"
    "repairLimit exPipeline < maxInt64" "retryLimit exPipeline PipelineUnitTest < maxInt64" by code_simp+
  have b: "runValidate exAwaiting = None" "pn_Status exAwaiting = PipelineRunning" "pn_RetryCount exAwaiting = 0" "pn_UnitRetryCount exAwaiting = 0"
    "repairLimit exAwaiting < maxInt64" "retryLimit exAwaiting PipelineUnitTest < maxInt64" by code_simp+
  have l: "repairLimit exPipeline = 3" "retryLimit exPipeline PipelineUnitTest = 3" "repairLimit exAwaiting = 3" "retryLimit exAwaiting PipelineUnitTest = 3"
    "\<not> awaitsApproval exPipeline" "length exRepairs = 5" "makeMoves exAwaiting exMoves \<noteq> None" "length (filter counted exMoves) = 1" by code_simp+
  from l(7) obtain r where "makeMoves exAwaiting exMoves = Some r" by blast
  with pipeline_bounded [OF a, of "[]" exRepaired exRepairs] pipeline_bounded [OF b, of exMoves r "[]"] exRepaired_run l show ?thesis by simp
qed

theorem pipeline_history_witness:
  "length (pn_History exRepaired) = 5 \<and> length (pn_History exDelivered) = 10 \<and> prefix (pn_History exRepaired) (pn_History exDelivered) \<and>
   pc_BaselineCommit (pn_Context exDelivered) = ''a1''"
proof -
  have "length (pn_History exRepaired) = 5 \<and> length (pn_History exDelivered) = 10" by code_simp
  moreover have "pc_BaselineCommit (pn_Context exRepaired) = ''a1''" by code_simp
  ultimately show ?thesis
    using pipeline_history [OF _ applyAll_steps [OF exRepaired_run] applyAll_steps [OF exDelivered_run]] exPipeline_fresh
    by (simp add: default_pipeline_def)
qed

theorem pipeline_completed_witness:
  "pn_Status exDelivered = PipelineCompleted \<and> \<not> blank (pn_FinalReport exDelivered) \<and>
   (\<exists>d\<in>set (pn_History exDelivered). pt_From d = PipelineDevelopment \<and> pt_Outcome d = ''pass'')"
proof -
  have ended: "pn_Status exDelivered = PipelineCompleted" by code_simp
  have "pipeline_step\<^sup>*\<^sup>* exPipeline exDelivered"
    using applyAll_steps [OF exRepaired_run] applyAll_steps [OF exDelivered_run] by (rule rtranclp_trans)
  from pipeline_completed [OF exPipeline_fresh this ended] ended show ?thesis by fastforce
qed

end
