(* ===== verification/Pipeline_Compat.thy ===== *)
theory Pipeline_Compat
  imports Pipeline_Engine Orch_Graph Orch_Definitions
begin

text \<open>
  The bridge from the pipeline to graph orchestration (\<open>internal/compat/pipeline_stage.go\<close>): the graph and the frozen plan
  of a run, and the identities under which its provider calls are dispatched. The SHA-256 digest and the plan hash are
  arguments.
\<close>

section \<open>Dispatch scopes\<close>

record DispatchScope =
  ds_PlanID :: string
  ds_NodeID :: string
  ds_AttemptID :: string

definition PipelineNodeID :: "PipelineStage \<Rightarrow> string" where
  "PipelineNodeID s = ''legacy-node-'' @ itoa s"

definition scopeOf :: "(string \<Rightarrow> string) \<Rightarrow> string \<Rightarrow> string \<Rightarrow> string \<Rightarrow> DispatchScope" where
  "scopeOf sha plan node key =
     \<lparr>ds_PlanID = plan, ds_NodeID = node, ds_AttemptID = ''legacy-attempt-'' @ sha (plan @ [CHR 0x00] @ node @ [CHR 0x00] @ key)\<rparr>"

definition PipelineDispatchScope :: "(string \<Rightarrow> string) \<Rightarrow> PipelineRun \<Rightarrow> string \<Rightarrow> go_error + DispatchScope" where
  "PipelineDispatchScope sha r turnKey =
     (let key = TrimSpace turnKey in
      if blank (pn_ID r) \<or> \<not> stageValid (pn_PipelineStage r) then Inl (Errorf ''legacy pipeline id and valid stage are required'' [])
      else if key = [] then Inl (Errorf ''legacy pipeline turn key is required'' [])
      else Inr (scopeOf sha (''legacy-plan-'' @ pn_ID r) (PipelineNodeID (pn_PipelineStage r)) key))"

definition genericDispatchScope :: "(string \<Rightarrow> string) \<Rightarrow> string \<Rightarrow> string \<Rightarrow> string \<Rightarrow> go_error + DispatchScope" where
  "genericDispatchScope sha plan node turnKey =
     (if blank plan \<or> blank node \<or> blank turnKey then Inl (Errorf ''legacy dispatch scope requires plan, node and turn key'' [])
      else Inr (scopeOf sha plan node turnKey))"

definition WorkItemDispatchScope :: "(string \<Rightarrow> string) \<Rightarrow> string \<Rightarrow> string \<Rightarrow> go_error + DispatchScope" where
  "WorkItemDispatchScope sha workItemID turnKey = genericDispatchScope sha (''legacy-work-item-'' @ TrimSpace workItemID) ''work-item'' turnKey"

definition BugDispatchScope :: "(string \<Rightarrow> string) \<Rightarrow> string \<Rightarrow> string \<Rightarrow> go_error + DispatchScope" where
  "BugDispatchScope sha bugID turnKey = genericDispatchScope sha (''legacy-bug-'' @ TrimSpace bugID) ''bug-repair'' turnKey"

definition CommentDispatchScope :: "(string \<Rightarrow> string) \<Rightarrow> string \<Rightarrow> string \<Rightarrow> string \<Rightarrow> go_error + DispatchScope" where
  "CommentDispatchScope sha commentID targetID turnKey =
     genericDispatchScope sha (''legacy-comment-'' @ TrimSpace commentID) (''target-'' @ TrimSpace targetID) turnKey"

section \<open>The graph of a run\<close>

definition legacyNode :: "WorkflowStep \<Rightarrow> WorkflowNode" where
  "legacyNode s = zeroNode\<lparr>n_ID := PipelineNodeID (ws_Stage s), n_Kind := NodeAgent,
     n_AgentRef := Some \<lparr>r_ID = ws_AgentID s, r_Revision = 1, r_Version = 0\<rparr>,
     n_RetryPolicy := \<lparr>rp_MaxAttempts = ws_RetryLimit s, rp_Backoff = 0, rp_RetryOn = []\<rparr>\<rparr>"

definition legacySteps :: "WorkflowStep list \<Rightarrow> go_error option" where
  "legacySteps steps =
     check_seen 0 (\<lambda>s. itoa (ws_Stage s)) (\<lambda>_ seen s. first_err
       [guard (\<not> stageValid (ws_Stage s) \<or> blank (ws_AgentID s)) (Errorf ''legacy workflow step %d requires a valid stage and agent'' [ArgI (ws_Stage s)]),
        guard (itoa (ws_Stage s) \<in> set seen) (Errorf ''legacy workflow stage %d is duplicated'' [ArgI (ws_Stage s)])]) [] steps"

definition stageNodes :: "WorkflowStep list \<Rightarrow> (string, string) gomap" where
  "stageNodes steps = fold (\<lambda>s m. mput (itoa (ws_Stage s)) (PipelineNodeID (ws_Stage s)) m) steps []"

text \<open>An edge is taken when the result says to go on, with its target as the next node.\<close>

definition legacyPredicate :: "string \<Rightarrow> Predicate" where
  "legacyPredicate to = Predicate ''all'' '''' '''' VNil
     [Predicate ''field_eq'' ''continue'' '''' (VBool True) [], Predicate ''field_eq'' ''next_node_id'' '''' (VString to) []]"

definition legacyEvents :: "(EdgeEvent \<times> string) list" where
  "legacyEvents = [(EdgeSuccess, ''success''), (EdgeFailure, ''failure''), (EdgeApproval, ''approval'')]"

definition legacyEdge :: "int \<Rightarrow> WorkflowNode \<Rightarrow> WorkflowNode \<Rightarrow> EdgeEvent \<times> string \<Rightarrow> WorkflowEdge" where
  "legacyEdge loopLimit from to ev =
     \<lparr>e_ID = ''legacy-edge-'' @ n_ID from @ ''-'' @ n_ID to @ ''-'' @ snd ev, e_From = n_ID from, e_To = n_ID to, e_On = fst ev,
      e_Predicate = legacyPredicate (n_ID to), e_Priority = 0, e_MaxTraversals = loopLimit, e_RequiredEvidence = [], e_LoopGroup = '''',
      e_FanOut = False\<rparr>"

definition legacyEdges :: "int \<Rightarrow> WorkflowNode list \<Rightarrow> WorkflowEdge list" where
  "legacyEdges loopLimit nodes = map (\<lambda>(from, to, ev). legacyEdge loopLimit from to ev) (List.product nodes (List.product nodes legacyEvents))"

definition loopLimitOf :: "PipelineRun \<Rightarrow> int" where
  "loopLimitOf r = (let n = wrap64 (pn_MaxRetries r + 1) in if n < 1 then 1 else n)"

definition legacyGraph :: "PipelineRun \<Rightarrow> WorkflowGraph" where
  "legacyGraph r =
     (let nodes = map legacyNode (Steps r) in
      \<lparr>g_ID = ''legacy-graph-'' @ pn_ID r, g_Version = (if pn_Version r < 1 then 1 else pn_Version r), g_EntryNodeIDs = [n_ID (hd nodes)],
       g_ExitNodeIDs = map n_ID nodes, g_Nodes = nodes, g_Edges = legacyEdges (loopLimitOf r) nodes, g_ValidationDigest = ''''\<rparr>)"

definition GraphFromPipeline :: "PipelineRun \<Rightarrow> go_error + WorkflowGraph \<times> (string, string) gomap" where
  "GraphFromPipeline r =
     (if Steps r = [] then Inl (Errorf ''legacy pipeline has no workflow steps'' [])
      else case legacySteps (Steps r) of
        Some err \<Rightarrow> Inl err
      | None \<Rightarrow>
          (case ValidateGraph (legacyGraph r) of
             Some err \<Rightarrow> Inl err
           | None \<Rightarrow> Inr (legacyGraph r, stageNodes (Steps r))))"

record MigrationResult =
  mi_Plan :: RequirementExecutionPlan
  mi_LegacyVersion :: string
  mi_StageNodeMap :: "(string, string) gomap"
  mi_ShadowWarnings :: "string list"

definition legacyPlan :: "PipelineRun \<Rightarrow> WorkflowGraph \<Rightarrow> RequirementExecutionPlan" where
  "legacyPlan r g =
     \<lparr>pl_ID = ''legacy-plan-'' @ pn_ID r, pl_RequirementID = pn_RequirementID r, pl_WorkspaceID = pn_WorkspaceID r, pl_GraphSnapshot = g,
      pl_SelectedRef = \<lparr>r_ID = '''', r_Revision = 0, r_Version = 0\<rparr>,
      pl_PolicySnapshot = \<lparr>ps_Digest = '''', ps_ToolPolicy = zeroToolPolicy, ps_Budget = zeroBudget, ps_CapturedAt = 0\<rparr>,
      pl_ContextRoot = \<lparr>cr_SessionID = pn_SessionID r, cr_ManifestDigest = ''legacy:'' @ pn_SessionID r, cr_ReplayKey = ''''\<rparr>,
      pl_PlanHash = '''', pl_Status = PlanDraft, pl_Revision = (if 0 < pn_Version r then pn_Version r else 0), pl_IdempotencyKey = '''',
      pl_Deadline = 0, pl_CreatedAt = 0, pl_ParentPlanID = '''', pl_ParentAttemptID = ''''\<rparr>"

definition MigratePipeline :: "(RequirementExecutionPlan \<Rightarrow> go_error + string) \<Rightarrow> PipelineRun \<Rightarrow> go_error + MigrationResult" where
  "MigratePipeline hashOf r =
     (case GraphFromPipeline r of
        Inl err \<Rightarrow> Inl err
      | Inr (g, mapping) \<Rightarrow>
          (case Freeze hashOf (legacyPlan r g) of
             (_, Some err) \<Rightarrow> Inl err
           | (plan, None) \<Rightarrow> Inr \<lparr>mi_Plan = plan, mi_LegacyVersion = ''pipeline-stage-compat-v1'', mi_StageNodeMap = mapping,
               mi_ShadowWarnings = [''legacy pipeline feedback and evidence are not inferred; configure graph edges explicitly'']\<rparr>))"

section \<open>The graph is accepted\<close>

lemma legacy_ids: "map PipelineNodeID [1, 2, 3, 4, 5, 6, 7] =
    [''legacy-node-1'', ''legacy-node-2'', ''legacy-node-3'', ''legacy-node-4'', ''legacy-node-5'', ''legacy-node-6'', ''legacy-node-7'']"
  by code_simp

lemma PipelineNodeID_inj: "stageValid s \<Longrightarrow> stageValid t \<Longrightarrow> PipelineNodeID s = PipelineNodeID t \<longleftrightarrow> s = t"
  by (elim stageValid_cases) (use legacy_ids in simp_all)

lemma PipelineNodeID_shape: "stageValid s \<Longrightarrow> length (PipelineNodeID s) = 13 \<and> \<not> blank (PipelineNodeID s)"
proof -
  have "\<not> blank (PipelineNodeID s)" unfolding PipelineNodeID_def append_Cons by (rule plain_not_blank) (simp_all add: ascii_space_def)
  then show "stageValid s \<Longrightarrow> length (PipelineNodeID s) = 13 \<and> \<not> blank (PipelineNodeID s)"
    by (elim stageValid_cases) (use legacy_ids in simp_all)
qed

lemma legacyNode_ok:
  assumes "stageValid (ws_Stage s)" and "\<not> blank (ws_AgentID s)" and "0 \<le> ws_RetryLimit s"
  shows "node_ok (legacyNode s)" and "join_ok g (legacyNode s)"
proof -
  have b: "ValidatePredicate zeroPredicate 0 [] = None" "blank ''''" by code_simp+
  show "node_ok (legacyNode s)" "join_ok g (legacyNode s)"
    using assms PipelineNodeID_shape b
    by (simp_all add: node_ok_def refs_ok_def limits_ok_def gate_ok_def merge_ok_def repair_ok_def join_ok_def legacyNode_def zeroNode_def
        nonneg_budget_def zeroBudget_def zeroPredicate_def Let_def)
qed

lemma legacyPredicate_ok: "ValidatePredicate (legacyPredicate i) 0 path = None"
proof -
  have "\<not> blank ''all''" "\<not> blank ''field_eq''" "\<not> blank ''continue''" "\<not> blank ''next_node_id''" by code_simp+
  then show ?thesis
    by (simp add: legacyPredicate_def fieldKind_def compositeKind_def validateArity_def validateField_def guard_def)
qed

lemma deepEqual_plain: "deepEqual v (VBool b) \<longleftrightarrow> v = VBool b" "deepEqual v (VString s) \<longleftrightarrow> v = VString s"
  by (cases v; auto)+

lemma legacyPredicate_eval:
  "EvaluatePredicate (legacyPredicate i) f =
     Inr (mget f ''continue'' = Some (VBool True) \<and> mget f ''next_node_id'' = Some (VString i))"
proof -
  have "\<not> blank ''all''" by code_simp
  then show ?thesis
    unfolding EvaluatePredicate_def legacyPredicate_ok
    by (auto simp: legacyPredicate_def predKindOf_def evalField_def deepEqual_plain split: option.splits)
qed

text \<open>The steps of a valid run, as far as the graph is concerned.\<close>

definition drawable :: "WorkflowStep list \<Rightarrow> bool" where
  "drawable steps \<longleftrightarrow> steps \<noteq> [] \<and> distinct (map ws_Stage steps) \<and>
     (\<forall>s\<in>set steps. stageValid (ws_Stage s) \<and> \<not> blank (ws_AgentID s) \<and> 0 \<le> ws_RetryLimit s)"

lemma validated_drawable: "runValidate r = None \<Longrightarrow> drawable (Steps r)"
  using validated_steps [of r] by (auto simp: drawable_def strict_sorted_iff)

lemma drawable_length: "drawable steps \<Longrightarrow> length steps \<le> 7"
proof -
  assume d: "drawable steps"
  then have "card (set (map ws_Stage steps)) = length steps" unfolding drawable_def by (metis distinct_card length_map)
  moreover have "set (map ws_Stage steps) \<subseteq> {1..7}" using d by (auto simp: drawable_def stageValid_def)
  then have "card (set (map ws_Stage steps)) \<le> card {1..7::int}" by (intro card_mono) auto
  ultimately show ?thesis by simp
qed

lemma n_ID_legacyNode [simp]: "n_ID (legacyNode s) = PipelineNodeID (ws_Stage s)"
  by (simp add: legacyNode_def)

lemma drawable_ids: "drawable steps \<Longrightarrow> distinct (map n_ID (map legacyNode steps))"
  by (auto simp: drawable_def distinct_map inj_on_def PipelineNodeID_inj)

lemma legacyEdges_iff:
  "e \<in> set (legacyEdges n nodes) \<longleftrightarrow> (\<exists>a\<in>set nodes. \<exists>b\<in>set nodes. \<exists>ev\<in>set legacyEvents. e = legacyEdge n a b ev)"
  by (force simp: legacyEdges_def)

lemma legacyEdges_ids:
  assumes "drawable steps"
  shows "distinct (map e_ID (legacyEdges n (map legacyNode steps)))"
proof -
  let ?nodes = "map legacyNode steps"
  have "distinct ?nodes" using drawable_ids [OF assms] by (simp only: distinct_map [of n_ID])
  then have "distinct (List.product ?nodes (List.product ?nodes legacyEvents))" by (simp add: distinct_product legacyEvents_def)
  moreover have "inj_on (\<lambda>(a, b, ev). e_ID (legacyEdge n a b ev)) (set (List.product ?nodes (List.product ?nodes legacyEvents)))"
  proof (rule inj_onI, clarsimp simp: legacyEdge_def)
    fix ev d ev' d' x x' y y'
    assume s: "x \<in> set steps" "x' \<in> set steps" "y \<in> set steps" "y' \<in> set steps" and ev: "(ev, d) \<in> set legacyEvents" "(ev', d') \<in> set legacyEvents"
      and eq: "PipelineNodeID (ws_Stage x) @ CHR ''-'' # PipelineNodeID (ws_Stage y) @ CHR ''-'' # d =
        PipelineNodeID (ws_Stage x') @ CHR ''-'' # PipelineNodeID (ws_Stage y') @ CHR ''-'' # d'"
    have len: "length (PipelineNodeID (ws_Stage z)) = 13" if "z \<in> set steps" for z
      using assms that PipelineNodeID_shape by (auto simp: drawable_def)
    have "PipelineNodeID (ws_Stage x) = PipelineNodeID (ws_Stage x')" "PipelineNodeID (ws_Stage y) = PipelineNodeID (ws_Stage y')" "d = d'"
      using eq len [OF s(1)] len [OF s(2)] len [OF s(3)] len [OF s(4)] by auto
    then have "ws_Stage x = ws_Stage x'" "ws_Stage y = ws_Stage y'" "d = d'"
      using assms s PipelineNodeID_inj by (auto simp: drawable_def)
    then have "x = x'" "y = y'" "d = d'" using assms s by (auto simp: drawable_def distinct_map inj_on_def)
    then show "legacyNode x = legacyNode x' \<and> legacyNode y = legacyNode y' \<and> ev = ev' \<and> d = d'" using ev by (auto simp: legacyEvents_def)
  qed
  ultimately show ?thesis by (simp add: legacyEdges_def distinct_map case_prod_unfold comp_def)
qed

lemma legacyNode_contracts:
  "n_OutputContract (find_node (map legacyNode steps) i) = zeroSchema" "n_InputContract (find_node (map legacyNode steps) i) = zeroSchema"
  by (induction steps) (simp_all add: legacyNode_def zeroNode_def)

lemma loopLimit_bounds: "1 \<le> loopLimitOf r"
  by (simp add: loopLimitOf_def Let_def)

lemma legacyGraph_ok:
  assumes "drawable (Steps r)"
  shows "graph_ok (legacyGraph r)"
proof -
  let ?g = "legacyGraph r" and ?nodes = "map legacyNode (Steps r)"
  have g: "g_Nodes ?g = ?nodes" "g_Edges ?g = legacyEdges (loopLimitOf r) ?nodes" "g_ExitNodeIDs ?g = map n_ID ?nodes"
    "g_EntryNodeIDs ?g = [n_ID (hd ?nodes)]" "1 \<le> g_Version ?g" by (simp_all add: legacyGraph_def Let_def)
  have steps: "Steps r \<noteq> []" "\<And>s. s \<in> set (Steps r) \<Longrightarrow> stageValid (ws_Stage s) \<and> \<not> blank (ws_AgentID s) \<and> 0 \<le> ws_RetryLimit s"
    using assms by (auto simp: drawable_def)
  have name: "\<not> blank (g_ID ?g)" unfolding legacyGraph_def Let_def WorkflowGraph.simps append_Cons by (rule plain_not_blank) (simp_all add: ascii_space_def)
  have nodes: "nodeIDs ?g = (\<lambda>s. PipelineNodeID (ws_Stage s)) ` set (Steps r)" by (simp add: nodeIDs_def g image_image)
  have len: "length ?nodes \<le> maxWorkflowNodes" "length (g_Edges ?g) \<le> maxWorkflowEdges"
  proof -
    have "length (Steps r) * length (Steps r) \<le> 7 * 7" using drawable_length [OF assms] by (intro mult_le_mono) auto
    then show "length ?nodes \<le> maxWorkflowNodes" "length (g_Edges ?g) \<le> maxWorkflowEdges"
      using drawable_length [OF assms] by (simp_all add: g legacyEdges_def legacyEvents_def maxWorkflowNodes_def maxWorkflowEdges_def distrib_left)
  qed
  have edge: "(PipelineNodeID (ws_Stage a), PipelineNodeID (ws_Stage b)) \<in> edgeStep ?g" if "a \<in> set (Steps r)" "b \<in> set (Steps r)" for a b
    using that unfolding edgeStep_def g by (force simp: legacyEdges_iff legacyEdge_def legacyEvents_def)
  have ids: "\<not> blank (e_ID e)" if e: "e \<in> set (g_Edges ?g)" for e
  proof -
    obtain t where "e_ID e = CHR ''l'' # t" using e by (auto simp: g legacyEdges_iff legacyEdge_def)
    then show ?thesis using plain_not_blank [of "CHR ''l''" t] by (simp add: ascii_space_def)
  qed
  have "edge_ok ?g e" if "e \<in> set (g_Edges ?g)" for e
    using that ids [OF that] loopLimit_bounds [of r]
    by (auto simp: g legacyEdges_iff legacyEdge_def edge_ok_def nodes legacyPredicate_ok contract_ok_def legacyEvents_def legacyNode_contracts)
  moreover have "acyclic (unboundedStep ?g)"
  proof -
    have "unboundedStep ?g = {}" using loopLimit_bounds [of r] by (auto simp: unboundedStep_def g legacyEdges_iff legacyEdge_def)
    then show ?thesis by (simp add: acyclic_def)
  qed
  moreover have "human_exit_ok ?g e" if "e \<in> set (g_Edges ?g)" for e
    using that by (auto simp: human_exit_ok_def g legacyEdges_iff legacyEdge_def)
  moreover have "nodeIDs ?g \<subseteq> (edgeStep ?g)\<^sup>* `` set (g_EntryNodeIDs ?g)"
    using edge [of "hd (Steps r)"] steps(1) by (auto simp: nodes g hd_map)
  ultimately show ?thesis
    using name len steps drawable_ids [OF assms] legacyEdges_ids [OF assms] legacyNode_ok
    by (auto simp: graph_ok_def g nodes hd_map)
qed

lemma legacySteps_ok:
  assumes "drawable steps"
  shows "legacySteps steps = None"
proof -
  have "PipelineNodeID s = PipelineNodeID t \<longleftrightarrow> itoa s = itoa t" for s t by (simp add: PipelineNodeID_def)
  then have "distinct (map (\<lambda>s. itoa (ws_Stage s)) steps)"
    using assms PipelineNodeID_inj by (auto simp: drawable_def distinct_map inj_on_def)
  then show ?thesis
    unfolding legacySteps_def
    by (subst check_seen_None [where P = "\<lambda>s. stageValid (ws_Stage s) \<and> \<not> blank (ws_AgentID s)"]) (use assms in \<open>auto simp: check_simps drawable_def\<close>)
qed

lemma GraphFromPipeline_valid:
  assumes "runValidate r = None"
  shows "GraphFromPipeline r = Inr (legacyGraph r, stageNodes (Steps r))"
proof -
  note d = validated_drawable [OF assms]
  have "ValidateGraph (legacyGraph r) = None" using legacyGraph_ok [OF d] by (simp add: ValidateGraph_iff)
  then show ?thesis using legacySteps_ok [OF d] d by (simp add: GraphFromPipeline_def drawable_def)
qed

text \<open>The engine stays within the selected stages.\<close>

lemma Apply_selected:
  assumes "Apply now r x = (r', None)" and "runValidate r = None" and "pn_PipelineStage r \<in> set (stagesOf r)" and "pn_Status r' = PipelineRunning"
  shows "pn_PipelineStage r' \<in> set (stagesOf r)"
proof -
  obtain s st reason where m: "st_Outcome x = ''pass'' \<or> st_Outcome x = ''fail''" "nextStage (mergedRun r x) x = Inr (s, st, reason)"
    and r': "r' = enterStage now (mergedRun r x) x (s, st, reason)"
    using Apply_accepted [OF assms(1)] by (metis prod_cases3)
  note frame = enterStage_frame [of "mergedRun r x" now x s st reason, folded r'] mergedRun_frame(2) [of r x]
  note same = sameConfig_steps [OF mergedRun_frame(1) [of r x]]
  have w: "pn_Workflow (mergedRun r x) = pn_Workflow r" using mergedRun_frame(1) [of r x] by (simp add: sameConfig_def)
  have all: "pn_Workflow r = [] \<Longrightarrow> stageValid u \<Longrightarrow> u \<in> set (stagesOf r)" for u
    using HasStage_default [of r u] HasStage_iff [of u r] by (auto simp: stageValid_def)
  have later: "NextSelectedStage r u \<noteq> u \<Longrightarrow> NextSelectedStage r u \<in> set (stagesOf r)" for u
    using stageAfter_later [OF validated_steps(1) [OF assms(2)]] by (auto simp: NextSelectedStage_def)
  have edge: "edge (mergedRun r x) x s st"
    using nextStage_edge [OF m(2,1)] validated_steps(4) [OF assms(2)] by (simp add: frame)
  have "st = PipelineRunning" using assms(4) frame by simp
  with edge have "s \<in> set (stagesOf r)"
    using assms(3) all later by cases (auto simp: frame same w HasStage_iff stageValid_def split: if_splits)
  then show ?thesis by (simp add: frame)
qed

text \<open>
  C23: The graph of a migrated run can follow the engine. The run of a valid pipeline has a graph, which the validator
  accepts; and whenever the engine takes a result and goes on, then for each of the events success, failure and
  approval exactly one edge leaves the node of the stage and is selected by a result that names the node of the next
  stage, and it leads to that node. Among these moves are the repeated stages and the ways back to development: the code
  draws an edge between any two selected stages, as its inner comment says, and not only the forward ones, as the comment on
  the function and the warning of the migration say (\<open>migration_has_feedback\<close>).
\<close>

theorem migration_follows_engine:
  assumes "Apply now r x = (r', None)" and "runValidate r = None" and "pn_PipelineStage r \<in> set (stagesOf r)" and "pn_Status r' = PipelineRunning"
    and "mget f ''continue'' = Some (VBool True)" and "mget f ''next_node_id'' = Some (VString (PipelineNodeID (pn_PipelineStage r')))"
    and "ev = EdgeSuccess \<or> ev = EdgeFailure \<or> ev = EdgeApproval"
  shows "\<exists>g m e. GraphFromPipeline r = Inr (g, m) \<and> ValidateGraph g = None \<and> e_To e = PipelineNodeID (pn_PipelineStage r') \<and>
    {e' \<in> set (g_Edges g). e_From e' = PipelineNodeID (pn_PipelineStage r) \<and> e_On e' = ev \<and> EvaluatePredicate (e_Predicate e') f = Inr True} = {e}"
proof -
  note d = validated_drawable [OF assms(2)]
  have "pn_PipelineStage r' \<in> set (stagesOf r)" by (rule Apply_selected [OF assms(1-4)])
  then obtain a b where a: "a \<in> set (Steps r)" "ws_Stage a = pn_PipelineStage r" and b: "b \<in> set (Steps r)" "ws_Stage b = pn_PipelineStage r'"
    using assms(3) by force
  obtain name where ev: "(ev, name) \<in> set legacyEvents" "\<And>n. (ev, n) \<in> set legacyEvents \<Longrightarrow> n = name" using assms(7) by (auto simp: legacyEvents_def)
  let ?e = "legacyEdge (loopLimitOf r) (legacyNode a) (legacyNode b) (ev, name)"
  have same: "s = t" if "s \<in> set (Steps r)" "t \<in> set (Steps r)" "PipelineNodeID (ws_Stage s) = PipelineNodeID (ws_Stage t)" for s t
    using d that PipelineNodeID_inj by (auto simp: drawable_def distinct_map inj_on_def)
  have "{e' \<in> set (g_Edges (legacyGraph r)). e_From e' = PipelineNodeID (pn_PipelineStage r) \<and> e_On e' = ev \<and> EvaluatePredicate (e_Predicate e') f = Inr True} = {?e}"
    (is "?S = _")
  proof (intro equalityI subsetI)
    fix e
    assume "e \<in> ?S"
    then obtain a' b' n where e: "e = legacyEdge (loopLimitOf r) (legacyNode a') (legacyNode b') (ev, n)" "a' \<in> set (Steps r)" "b' \<in> set (Steps r)"
      "(ev, n) \<in> set legacyEvents" "PipelineNodeID (ws_Stage a') = PipelineNodeID (ws_Stage a)" "PipelineNodeID (ws_Stage b') = PipelineNodeID (ws_Stage b)"
      using assms(5,6) by (auto simp: legacyGraph_def Let_def legacyEdges_iff legacyEdge_def legacyPredicate_eval a b)
    then have "a' = a" "b' = b" "n = name" using same a b ev(2) by blast+
    then show "e \<in> {?e}" using e(1) by simp
  next
    fix e
    assume "e \<in> {?e}"
    moreover have "?e \<in> set (g_Edges (legacyGraph r))" using a b ev(1) by (auto simp: legacyGraph_def Let_def legacyEdges_iff)
    ultimately show "e \<in> ?S" using assms(5,6) by (simp add: legacyEdge_def legacyPredicate_eval a b)
  qed
  moreover have "e_To ?e = PipelineNodeID (pn_PipelineStage r')" by (simp add: legacyEdge_def b)
  moreover have "ValidateGraph (legacyGraph r) = None" using legacyGraph_ok [OF d] by (simp add: ValidateGraph_iff)
  ultimately show ?thesis
    using GraphFromPipeline_valid [OF assms(2)] by (intro exI [of _ "legacyGraph r"] exI [of _ "stageNodes (Steps r)"] exI [of _ ?e]) simp
qed

text \<open>Feedback is inferred: any two selected stages are joined by an edge for every event, in both directions.\<close>

theorem migration_has_feedback:
  assumes "a \<in> set (stagesOf r)" and "b \<in> set (stagesOf r)" and "ev = EdgeSuccess \<or> ev = EdgeFailure \<or> ev = EdgeApproval"
  shows "\<exists>e\<in>set (g_Edges (legacyGraph r)). e_From e = PipelineNodeID a \<and> e_To e = PipelineNodeID b \<and> e_On e = ev"
proof -
  obtain s t where st: "s \<in> set (Steps r)" "ws_Stage s = a" "t \<in> set (Steps r)" "ws_Stage t = b" using assms(1,2) by force
  obtain name where name: "(ev, name) \<in> set legacyEvents" using assms(3) by (auto simp: legacyEvents_def)
  let ?e = "legacyEdge (loopLimitOf r) (legacyNode s) (legacyNode t) (ev, name)"
  have "?e \<in> set (g_Edges (legacyGraph r))" using st name by (auto simp: legacyGraph_def Let_def legacyEdges_iff)
  moreover have "e_From ?e = PipelineNodeID a \<and> e_To ?e = PipelineNodeID b \<and> e_On ?e = ev" using st by (simp add: legacyEdge_def)
  ultimately show ?thesis by blast
qed

lemma MigratePipeline_ready:
  assumes "runValidate r = None" and "canonicalPlanHash hashOf (legacyPlan r (legacyGraph r)) = Inr h"
  shows "\<exists>m. MigratePipeline hashOf r = Inr m \<and> pl_Status (mi_Plan m) = PlanReady \<and> pl_GraphSnapshot (mi_Plan m) = legacyGraph r"
proof -
  have "\<not> blank (''legacy-plan-'' @ pn_ID r)" unfolding append_Cons by (rule plain_not_blank) (simp_all add: ascii_space_def)
  moreover have "\<not> blank (pn_RequirementID r)" "\<not> blank (pn_WorkspaceID r)" using assms(1) by (auto simp: runValidate_def check_simps)
  moreover have "ValidateGraph (legacyGraph r) = None" using legacyGraph_ok [OF validated_drawable [OF assms(1)]] by (simp add: ValidateGraph_iff)
  moreover have "blank ''''" by code_simp
  ultimately have "freezeChecks (legacyPlan r (legacyGraph r)) = None" by (simp add: freezeChecks_def legacyPlan_def check_simps)
  then show ?thesis
    using assms(2) GraphFromPipeline_valid [OF assms(1)] by (simp add: MigratePipeline_def Freeze_def) (simp add: legacyPlan_def)
qed

section \<open>Witnesses\<close>

definition exDesigned :: PipelineRun where
  "exDesigned = fst (Apply 200 exPipeline (exStep PipelineDesign ''design'' ''pass''))"

theorem migration_follows_engine_witness:
  "pn_PipelineStage exDesigned = PipelineDevelopment \<and> (\<exists>g m e. GraphFromPipeline exPipeline = Inr (g, m) \<and> ValidateGraph g = None \<and>
     e_To e = ''legacy-node-2'' \<and> e \<in> set (g_Edges g))"
proof -
  have "snd (Apply 200 exPipeline (exStep PipelineDesign ''design'' ''pass'')) = None" by code_simp
  then have run: "Apply 200 exPipeline (exStep PipelineDesign ''design'' ''pass'') = (exDesigned, None)" by (simp add: exDesigned_def prod_eq_iff)
  have v: "runValidate exPipeline = None" "pn_PipelineStage exPipeline \<in> set (stagesOf exPipeline)" "pn_Status exDesigned = PipelineRunning"
    "pn_PipelineStage exDesigned = PipelineDevelopment" by code_simp+
  let ?f = "[(''continue'', VBool True), (''next_node_id'', VString (PipelineNodeID (pn_PipelineStage exDesigned)))]"
  have f: "mget ?f ''continue'' = Some (VBool True)" "mget ?f ''next_node_id'' = Some (VString (PipelineNodeID (pn_PipelineStage exDesigned)))" by simp_all
  have "PipelineNodeID (pn_PipelineStage exDesigned) = ''legacy-node-2''" using legacy_ids v(4) by simp
  then show ?thesis
    using migration_follows_engine [OF run v(1-3) f, of EdgeSuccess] v(4) by fastforce
qed

text \<open>
  A step can have a larger retry limit than the run. The engine then allows as many development results to fail, but
  every edge of the graph, and so the one from development to itself, is bounded by the limit of the run.
\<close>

definition exPatient :: PipelineRun where
  "exPatient = exPipeline\<lparr>pn_Workflow := [(defaultStep ''d'' PipelineDevelopment '''' '''' ''dev'')\<lparr>ws_RetryLimit := 5\<rparr>,
     defaultStep ''r'' PipelineReport '''' '''' ''test''], pn_PipelineStage := PipelineDevelopment, pn_MaxRetries := 1\<rparr>"

theorem retry_limit_outruns_graph:
  "map_option (\<lambda>r. (pn_PipelineStage r, pn_Status r)) (applyAll exPatient (replicate 4 (200, exStep PipelineDevelopment ''dev'' ''fail''))) =
     Some (PipelineDevelopment, PipelineRunning)"
  "\<forall>e\<in>set (g_Edges (legacyGraph exPatient)). e_MaxTraversals e = 2"
  by code_simp+

end
