(* ===== verification/Requirement_Gates.thy ===== *)
theory Requirement_Gates
  imports Orch_Model Transition_System
begin

text \<open>
  The status of a requirement (\<open>internal/domain/domain.go\<close>) and the quality gates that move it
  (\<open>internal/workflow/workflow.go\<close>). The table of permitted transitions is a Go map of maps; a status that is not in it has
  no transition.
\<close>

datatype RequirementStatus =
  RequirementReceived | RequirementTriaged | RequirementAssigneesConfirmed | RequirementDesigning | RequirementDesignReview
  | RequirementDeveloping | RequirementUnitVerified | RequirementAPIDocReady | RequirementTestDeploying | RequirementTesting
  | RequirementReadyForHumanQA | RequirementAccepted | RequirementReleased | RequirementDesignRework | RequirementTestFailed
  | RequirementAutoRepairing | RequirementHumanTriageRequired | RequirementHumanApprovalNeeded | RequirementBlockedProvider
  | RequirementBlockedEnvironment | RequirementBlockedArtifactStore | RequirementCancelled | RequirementStatusOther string

fun requirementString :: "RequirementStatus \<Rightarrow> string" where
  "requirementString RequirementReceived = ''RECEIVED''"
| "requirementString RequirementTriaged = ''TRIAGED''"
| "requirementString RequirementAssigneesConfirmed = ''ASSIGNEES_CONFIRMED''"
| "requirementString RequirementDesigning = ''DESIGNING''"
| "requirementString RequirementDesignReview = ''DESIGN_REVIEW''"
| "requirementString RequirementDeveloping = ''DEVELOPING''"
| "requirementString RequirementUnitVerified = ''UNIT_VERIFIED''"
| "requirementString RequirementAPIDocReady = ''API_DOC_READY''"
| "requirementString RequirementTestDeploying = ''TEST_DEPLOYING''"
| "requirementString RequirementTesting = ''TESTING''"
| "requirementString RequirementReadyForHumanQA = ''READY_FOR_HUMAN_QA''"
| "requirementString RequirementAccepted = ''ACCEPTED''"
| "requirementString RequirementReleased = ''RELEASED''"
| "requirementString RequirementDesignRework = ''DESIGN_REWORK''"
| "requirementString RequirementTestFailed = ''TEST_FAILED''"
| "requirementString RequirementAutoRepairing = ''AUTO_REPAIRING''"
| "requirementString RequirementHumanTriageRequired = ''HUMAN_TRIAGE_REQUIRED''"
| "requirementString RequirementHumanApprovalNeeded = ''HUMAN_APPROVAL_REQUIRED''"
| "requirementString RequirementBlockedProvider = ''BLOCKED_PROVIDER''"
| "requirementString RequirementBlockedEnvironment = ''BLOCKED_ENVIRONMENT''"
| "requirementString RequirementBlockedArtifactStore = ''BLOCKED_ARTIFACT_STORE''"
| "requirementString RequirementCancelled = ''CANCELLED''"
| "requirementString (RequirementStatusOther s) = s"

definition transitions :: "(RequirementStatus, RequirementStatus list) gomap" where
  "transitions =
     [(RequirementReceived, [RequirementTriaged, RequirementCancelled]),
      (RequirementTriaged, [RequirementAssigneesConfirmed, RequirementCancelled]),
      (RequirementAssigneesConfirmed, [RequirementDesigning, RequirementCancelled]),
      (RequirementDesigning, [RequirementDesignReview, RequirementDesignRework, RequirementBlockedProvider]),
      (RequirementDesignReview, [RequirementDeveloping, RequirementDesignRework, RequirementHumanApprovalNeeded]),
      (RequirementDesignRework, [RequirementDesigning, RequirementCancelled]),
      (RequirementDeveloping, [RequirementUnitVerified, RequirementTestFailed, RequirementBlockedProvider]),
      (RequirementUnitVerified, [RequirementAPIDocReady, RequirementTestFailed]),
      (RequirementAPIDocReady, [RequirementTestDeploying, RequirementBlockedEnvironment]),
      (RequirementTestDeploying, [RequirementTesting, RequirementBlockedEnvironment]),
      (RequirementTesting, [RequirementReadyForHumanQA, RequirementTestFailed, RequirementBlockedEnvironment]),
      (RequirementTestFailed, [RequirementAutoRepairing, RequirementHumanTriageRequired]),
      (RequirementAutoRepairing, [RequirementDeveloping, RequirementTestFailed, RequirementHumanTriageRequired]),
      (RequirementReadyForHumanQA, [RequirementAccepted, RequirementDeveloping, RequirementHumanApprovalNeeded]),
      (RequirementAccepted, [RequirementReleased]),
      (RequirementHumanTriageRequired, [RequirementDeveloping, RequirementCancelled]),
      (RequirementHumanApprovalNeeded, [RequirementDeveloping, RequirementAccepted, RequirementCancelled]),
      (RequirementBlockedProvider, [RequirementDesigning, RequirementDeveloping, RequirementCancelled]),
      (RequirementBlockedEnvironment, [RequirementTestDeploying, RequirementTesting, RequirementCancelled]),
      (RequirementBlockedArtifactStore, [RequirementTesting, RequirementReadyForHumanQA, RequirementCancelled])]"

definition requirementValid :: "RequirementStatus \<Rightarrow> bool" where
  "requirementValid s \<longleftrightarrow> mget transitions s \<noteq> None \<or> s = RequirementReleased \<or> s = RequirementAccepted \<or> s = RequirementCancelled"

definition CanTransition :: "RequirementStatus \<Rightarrow> RequirementStatus \<Rightarrow> bool" where
  "CanTransition from to \<longleftrightarrow> from = to \<or> to \<in> set (mget0 [] transitions from)"

definition Transition :: "RequirementStatus \<Rightarrow> RequirementStatus \<Rightarrow> go_error option" where
  "Transition from to = guard (\<not> requirementValid from \<or> \<not> requirementValid to \<or> \<not> CanTransition from to)
     (Errorf ''invalid requirement status transition %q -> %q'' [ArgS (requirementString from), ArgS (requirementString to)])"

record GateInput =
  gi_Name :: string
  gi_Decision :: string
  gi_RepairAttempts :: int

definition NewGateEngine :: "int \<Rightarrow> int" where
  "NewGateEngine maxRepairAttempts = (if maxRepairAttempts < 1 then 3 else maxRepairAttempts)"

definition gateTarget :: "int \<Rightarrow> RequirementStatus \<Rightarrow> GateInput \<Rightarrow> RequirementStatus option" where
  "gateTarget maxRepairAttempts current gate =
     (let name = gi_Name gate; pass = (gi_Decision gate = ''pass'') in
      if name = ''design'' then Some (if pass then RequirementDesignReview else RequirementDesignRework)
      else if name = ''design_review'' then Some (if pass then RequirementDeveloping else RequirementDesignRework)
      else if name = ''unit_test'' then Some (if pass then RequirementUnitVerified else RequirementTestFailed)
      else if name = ''api_doc'' then Some (if pass then RequirementAPIDocReady else current)
      else if name = ''test_deploy'' then Some (if pass then RequirementTesting else RequirementBlockedEnvironment)
      else if name = ''api_log_data'' then Some (if pass then RequirementReadyForHumanQA else RequirementTestFailed)
      else if name = ''repair'' then
        Some (if maxRepairAttempts \<le> gi_RepairAttempts gate then RequirementHumanTriageRequired
              else if pass then RequirementDeveloping else RequirementTestFailed)
      else None)"

definition ApplyGate :: "int \<Rightarrow> RequirementStatus \<Rightarrow> GateInput \<Rightarrow> RequirementStatus \<times> go_error option" where
  "ApplyGate maxRepairAttempts current gate =
     (if gi_Decision gate \<noteq> ''pass'' \<and> gi_Decision gate \<noteq> ''fail'' then (current, Some (Errorf ''gate decision must be pass or fail'' []))
      else case gateTarget maxRepairAttempts current gate of
        None \<Rightarrow> (current, Some (Errorf ''unknown gate %q'' [ArgS (gi_Name gate)]))
      | Some to \<Rightarrow>
          (case Transition current to of
             Some err \<Rightarrow> (current, Some err)
           | None \<Rightarrow> (to, None)))"

section \<open>What gates can do\<close>

lemma ApplyGate_table:
  assumes "ApplyGate n s g = (t, None)"
  shows "t = s \<or> t \<in> set (mget0 [] transitions s)"
  using assms by (auto simp: ApplyGate_def Transition_def CanTransition_def guard_def split: if_splits option.splits)

lemma ApplyGate_refused: "ApplyGate n s g = (t, Some e) \<Longrightarrow> t = s"
  by (auto simp: ApplyGate_def split: if_splits option.splits)

inductive gate_step :: "int \<Rightarrow> RequirementStatus \<Rightarrow> RequirementStatus \<Rightarrow> bool" for n where
  gate: "ApplyGate n s g = (t, err) \<Longrightarrow> gate_step n s t"

text \<open>
  Gates work on a requirement but never accept, release or cancel it: whatever gates are applied, with whatever decisions,
  a requirement that is not in one of these states does not get there.
\<close>

definition undecided :: "RequirementStatus \<Rightarrow> bool" where
  "undecided s \<longleftrightarrow> s \<notin> {RequirementAccepted, RequirementReleased, RequirementCancelled, RequirementHumanApprovalNeeded}"

interpretation gates: invariant_system undecided "gate_step n" undecided for n
proof
  show "undecided t" if "undecided s" "gate_step n s t" for s t
    using that(2,1) by cases (auto simp: ApplyGate_def gateTarget_def undecided_def Let_def split: if_splits option.splits)
qed simp

theorem gates_undecided: "undecided s \<Longrightarrow> (gate_step n)\<^sup>*\<^sup>* s t \<Longrightarrow> undecided t"
  by (rule gates.inv_reachable)

text \<open>A requirement is handed to human testing only by its last gate, and only from the test stage or a blocked artifact store.\<close>

theorem ready_only_tested:
  assumes "ApplyGate n s g = (RequirementReadyForHumanQA, None)" and "s \<noteq> RequirementReadyForHumanQA"
  shows "s \<in> {RequirementTesting, RequirementBlockedArtifactStore} \<and> gi_Name g = ''api_log_data'' \<and> gi_Decision g = ''pass''"
proof -
  have "gi_Name g = ''api_log_data'' \<and> gi_Decision g = ''pass''"
    using assms by (auto simp: ApplyGate_def gateTarget_def Let_def split: if_splits option.splits)
  then show ?thesis using ApplyGate_table [OF assms(1)] assms(2) by (cases s) (auto simp: transitions_def mget0_def)
qed

end
