(* ===== verification/Core_Encoding.thy ===== *)
theory Core_Encoding
  imports Go_Prelude
begin

text \<open>
  Canonical JSON (\<open>core/encoding/canonical.go\<close>): the decimal spelling of numbers and the writer of decoded values. The JSON
  decoder and the encoding of string literals belong to the standard library and are arguments; a decoded object is a Go
  map, so its entries come in any order.
\<close>

section \<open>Numbers\<close>

definition maxExponent :: int where "maxExponent = 10000"

definition digit :: "char \<Rightarrow> bool" where
  "digit c \<longleftrightarrow> c \<in> set ''0123456789''"

definition digitVal :: "char \<Rightarrow> nat" where
  "digitVal c = of_char c - 48"

definition decVal :: "string \<Rightarrow> nat" where
  "decVal s = foldl (\<lambda>n c. 10 * n + digitVal c) 0 s"

text \<open>\<open>strconv.Atoi\<close>: an optional sign and at least one digit, within 64 bits.\<close>

definition Atoi :: "string \<Rightarrow> int option" where
  "Atoi s =
     (let (neg, ds) = (case s of c # t \<Rightarrow> if c = CHR ''-'' then (True, t) else if c = CHR ''+'' then (False, t) else (False, s) | [] \<Rightarrow> (False, s));
          n = (if neg then - int (decVal ds) else int (decVal ds))
      in if ds = [] \<or> \<not> list_all digit ds \<or> \<not> in64 n then None else Some n)"

definition exponentMark :: "char \<Rightarrow> bool" where
  "exponentMark c \<longleftrightarrow> c = CHR ''e'' \<or> c = CHR ''E''"

text \<open>The loop that drops trailing zeros of the fraction.\<close>

function trimScale :: "string \<Rightarrow> int \<Rightarrow> string \<times> int" where
  "trimScale ds scale = (if 0 < scale \<and> ds \<noteq> [] \<and> last ds = CHR ''0'' then trimScale (butlast ds) (scale - 1) else (ds, scale))"
  by pat_completeness auto

termination by (relation "measure (\<lambda>(ds, _). length ds)") auto

declare trimScale.simps [simp del]

definition placed :: "string \<Rightarrow> int \<Rightarrow> string" where
  "placed ds scale =
     (if scale \<le> 0 then ds @ replicate (nat (- scale)) (CHR ''0'')
      else if scale < int (length ds) then
        (let point = length ds - nat scale in take point ds @ ''.'' @ drop point ds)
      else ''0.'' @ replicate (nat scale - length ds) (CHR ''0'') @ ds)"

text \<open>What follows once the sign, the integer, the fraction and the exponent are known.\<close>

definition canonicalDigits :: "string \<Rightarrow> string \<Rightarrow> string \<Rightarrow> int \<Rightarrow> string" where
  "canonicalDigits sign integer fraction expo =
     (let ds = dropWhile (\<lambda>c. c = CHR ''0'') (integer @ fraction) in
      if ds = [] then ''0''
      else case trimScale ds (int (length fraction) - expo) of (ds', scale) \<Rightarrow> sign @ placed ds' scale)"

definition canonicalNumber :: "string \<Rightarrow> go_error + string" where
  "canonicalNumber text =
     (let (sign, s) = (case text of c # t \<Rightarrow> if c = CHR ''-'' then (''-'', t) else ('''', text) | [] \<Rightarrow> ('''', text));
          mantissa = takeWhile (\<lambda>c. \<not> exponentMark c) s; rest = dropWhile (\<lambda>c. \<not> exponentMark c) s;
          integer = takeWhile (\<lambda>c. c \<noteq> CHR ''.'') mantissa; fraction = drop 1 (dropWhile (\<lambda>c. c \<noteq> CHR ''.'') mantissa)
      in case (if rest = [] then Some 0 else Atoi (tl rest)) of
           None \<Rightarrow> Inl (Errorf ''number exponent is outside canonical bounds: %q'' [ArgS s])
         | Some n \<Rightarrow>
             if n < - maxExponent \<or> maxExponent < n then Inl (Errorf ''number exponent is outside canonical bounds: %q'' [ArgS s])
             else Inr (canonicalDigits sign integer fraction n))"

section \<open>Values\<close>

datatype json = JNull | JBool bool | JString string | JNumber string | JArray "json list" | JObject "(string \<times> json) list"

text \<open>The parts of an array or object, up to the first that cannot be written.\<close>

fun writeAll :: "(go_error + string) list \<Rightarrow> go_error + string list" where
  "writeAll [] = Inr []"
| "writeAll (Inl e # xs) = Inl e"
| "writeAll (Inr s # xs) = (case writeAll xs of Inl e \<Rightarrow> Inl e | Inr ss \<Rightarrow> Inr (s # ss))"

fun commaJoin :: "string list \<Rightarrow> string" where
  "commaJoin [] = []"
| "commaJoin [s] = s"
| "commaJoin (s # t # ss) = s @ '','' @ commaJoin (t # ss)"

definition enclosed :: "string \<Rightarrow> go_error + string list \<Rightarrow> string \<Rightarrow> go_error + string" where
  "enclosed l parts r = (case parts of Inl e \<Rightarrow> Inl e | Inr ss \<Rightarrow> Inr (l @ commaJoin ss @ r))"

definition member :: "(string \<Rightarrow> string) \<Rightarrow> string \<times> (go_error + string) \<Rightarrow> go_error + string" where
  "member quote kv = (case snd kv of Inl e \<Rightarrow> Inl e | Inr s \<Rightarrow> Inr (quote (fst kv) @ '':'' @ s))"

fun writeValue :: "(string \<Rightarrow> string) \<Rightarrow> json \<Rightarrow> go_error + string" where
  "writeValue quote JNull = Inr ''null''"
| "writeValue quote (JBool b) = Inr (if b then ''true'' else ''false'')"
| "writeValue quote (JString s) = Inr (quote s)"
| "writeValue quote (JNumber s) = canonicalNumber s"
| "writeValue quote (JArray vs) = enclosed ''['' (writeAll (map (writeValue quote) vs)) '']''"
| "writeValue quote (JObject m) =
     enclosed ''{'' (writeAll (map (member quote) (sort_stable (\<lambda>a b. fst a < fst b) (map (\<lambda>(k, v). (k, writeValue quote v)) m)))) ''}''"

text \<open>The decoder reads one value from a text and gives the rest of the text; at the end of the text it reports \<open>io.EOF\<close>.\<close>

definition EOF :: go_error where "EOF = Sentinel ''EOF''"

definition ensureEOF :: "(string \<Rightarrow> go_error + json \<times> string) \<Rightarrow> string \<Rightarrow> go_error option" where
  "ensureEOF decode rest =
     (case decode rest of
        Inl e \<Rightarrow> if errors_Is e EOF then None else Some (Wrapf e ''decode trailing JSON: '')
      | Inr _ \<Rightarrow> Some (Errorf ''multiple JSON values are not canonical'' []))"

definition Canonicalize :: "(string \<Rightarrow> go_error + json \<times> string) \<Rightarrow> (string \<Rightarrow> string) \<Rightarrow> string \<Rightarrow> go_error + string" where
  "Canonicalize decode quote raw =
     (case decode raw of
        Inl e \<Rightarrow> Inl (Wrapf e ''decode JSON: '')
      | Inr (v, rest) \<Rightarrow> (case ensureEOF decode rest of Some e \<Rightarrow> Inl e | None \<Rightarrow> writeValue quote v))"

text \<open>A Go value is encoded by the standard library first.\<close>

definition Marshal :: "('v \<Rightarrow> go_error + string) \<Rightarrow> (string \<Rightarrow> go_error + json \<times> string) \<Rightarrow> (string \<Rightarrow> string) \<Rightarrow> 'v \<Rightarrow> go_error + string" where
  "Marshal encode decode quote v = (case encode v of Inl e \<Rightarrow> Inl (Wrapf e ''encode JSON: '') | Inr raw \<Rightarrow> Canonicalize decode quote raw)"

definition Digest ::
  "('v \<Rightarrow> go_error + string) \<Rightarrow> (string \<Rightarrow> go_error + json \<times> string) \<Rightarrow> (string \<Rightarrow> string) \<Rightarrow> (string \<Rightarrow> string) \<Rightarrow> 'v \<Rightarrow> go_error + string" where
  "Digest encode decode quote sha v = (case Marshal encode decode quote v of Inl e \<Rightarrow> Inl e | Inr s \<Rightarrow> Inr (sha s))"

definition DigestRaw :: "(string \<Rightarrow> go_error + json \<times> string) \<Rightarrow> (string \<Rightarrow> string) \<Rightarrow> (string \<Rightarrow> string) \<Rightarrow> string \<Rightarrow> go_error + string" where
  "DigestRaw decode quote sha raw = (case Canonicalize decode quote raw of Inl e \<Rightarrow> Inl e | Inr s \<Rightarrow> Inr (sha s))"

section \<open>Decimal digits\<close>

lemma digit_cases:
  assumes "digit c"
  obtains "c = CHR ''0''" | "c = CHR ''1''" | "c = CHR ''2''" | "c = CHR ''3''" | "c = CHR ''4''" | "c = CHR ''5''" | "c = CHR ''6''"
    | "c = CHR ''7''" | "c = CHR ''8''" | "c = CHR ''9''"
  using assms by (auto simp: digit_def)

lemma digitVal_less: "digit c \<Longrightarrow> digitVal c < 10"
  by (elim digit_cases) (simp_all add: digitVal_def)

lemma digitVal_inj: "digit c \<Longrightarrow> digit d \<Longrightarrow> digitVal c = digitVal d \<longleftrightarrow> c = d"
  by (elim digit_cases) (simp_all add: digitVal_def)

lemma digitVal_zero [simp]: "digitVal (CHR ''0'') = 0"
  by (simp add: digitVal_def)

lemma digit_zero [simp]: "digit (CHR ''0'')"
  by (simp add: digit_def)

lemma digitVal_pos: "digit c \<Longrightarrow> c \<noteq> CHR ''0'' \<Longrightarrow> 0 < digitVal c"
  using digitVal_inj [of c "CHR ''0''"] by force

lemma decVal_Nil [simp]: "decVal [] = 0"
  by (simp add: decVal_def)

lemma decVal_snoc [simp]: "decVal (s @ [c]) = 10 * decVal s + digitVal c"
  by (simp add: decVal_def)

lemma decVal_append: "decVal (s @ t) = decVal s * 10 ^ length t + decVal t"
  by (induction t rule: rev_induct) (simp_all flip: append_assoc add: algebra_simps)

lemma decVal_Cons: "decVal (c # s) = digitVal c * 10 ^ length s + decVal s"
  using decVal_append [of "[c]" s] decVal_snoc [of "[]" c] by simp

lemma decVal_zeros [simp]: "decVal (replicate n (CHR ''0'')) = 0"
  by (induction n) (simp_all add: decVal_Cons)

lemma decVal_dropWhile [simp]: "decVal (dropWhile (\<lambda>c. c = CHR ''0'') s) = decVal s"
  by (induction s) (simp_all add: decVal_Cons)

lemma decVal_less: "list_all digit s \<Longrightarrow> decVal s < 10 ^ length s"
proof (induction s)
  case (Cons c s)
  then have c: "digitVal c + 1 \<le> 10" and s: "decVal s < 10 ^ length s" using digitVal_less by (auto simp: Suc_le_eq)
  have "(digitVal c + 1) * 10 ^ length s \<le> 10 * 10 ^ length s" using c by (rule mult_le_mono1)
  then have "digitVal c * 10 ^ length s + 10 ^ length s \<le> 10 * 10 ^ length s" by (simp only: add_mult_distrib mult_1)
  with s show ?case unfolding decVal_Cons list.size(4) One_nat_def add_Suc_right add_0_right power_Suc by linarith
qed simp

lemma decVal_inj:
  "list_all digit s \<Longrightarrow> list_all digit t \<Longrightarrow> length s = length t \<Longrightarrow> decVal s = decVal t \<Longrightarrow> s = t"
proof (induction s arbitrary: t rule: rev_induct)
  case (snoc c s)
  then obtain t' d where t: "t = t' @ [d]" by (cases t rule: rev_cases) auto
  then have d: "digit c" "digit d" "10 * decVal s + digitVal c = 10 * decVal t' + digitVal d" using snoc.prems by auto
  moreover have "digitVal c < 10" "digitVal d < 10" using d digitVal_less by auto
  ultimately have "digitVal c = digitVal d" "decVal s = decVal t'" by presburger+
  then show ?case using snoc d t digitVal_inj by auto
qed simp

text \<open>Numerals without leading zeros are determined by their values.\<close>

definition unpadded :: "string \<Rightarrow> bool" where
  "unpadded s \<longleftrightarrow> list_all digit s \<and> s \<noteq> [] \<and> hd s \<noteq> CHR ''0''"

lemma unpadded_le: "unpadded s \<Longrightarrow> 10 ^ (length s - 1) \<le> decVal s"
proof (cases s)
  case (Cons c t)
  assume "unpadded s"
  then have "1 \<le> digitVal c" using digitVal_pos [of c] Cons by (simp add: unpadded_def)
  then have "1 * 10 ^ length t \<le> digitVal c * 10 ^ length t" by (rule mult_le_mono1)
  then have "10 ^ length t \<le> digitVal c * 10 ^ length t + decVal t" by (simp only: mult_1 trans_le_add1)
  then show ?thesis by (simp only: Cons decVal_Cons list.size(4) One_nat_def add_Suc_right add_0_right diff_Suc_Suc diff_zero)
qed (simp add: unpadded_def)

lemma unpadded_inj:
  assumes "unpadded s" and "unpadded t" and "decVal s = decVal t"
  shows "s = t"
proof -
  have le: "length u \<le> length v" if "unpadded u" "unpadded v" "decVal u = decVal v" for u v
  proof (rule ccontr)
    assume "\<not> length u \<le> length v"
    then have "length v \<le> length u - 1" by simp
    then have "(10::nat) ^ length v \<le> 10 ^ (length u - 1)" by (rule power_increasing) simp
    then show False using unpadded_le [OF that(1)] decVal_less [of v] that(2,3) unfolding unpadded_def by linarith
  qed
  have "length s = length t" using le [of s t] le [of t s] assms by simp
  then show ?thesis using decVal_inj assms by (simp add: unpadded_def)
qed

section \<open>The value of a number\<close>

definition scaled :: "nat \<Rightarrow> int \<Rightarrow> rat" where
  "scaled n s = of_nat n * 10 ^ nat (- s) / 10 ^ nat s"

lemma scaled_trim:
  assumes "0 < s"
  shows "scaled (10 * n) s = scaled n (s - 1)"
proof -
  have "nat s = Suc (nat (s - 1))" "nat (- s) = 0" "nat (- (s - 1)) = 0" using assms by auto
  then show ?thesis by (simp add: scaled_def)
qed

lemma trimScale_props:
  assumes "unpadded ds" and "trimScale ds s = (ds', s')"
  shows "unpadded ds' \<and> scaled (decVal ds') s' = scaled (decVal ds) s \<and> (0 < s' \<longrightarrow> last ds' \<noteq> CHR ''0'')"
  using assms
proof (induction ds s rule: trimScale.induct)
  case (1 ds s)
  show ?case
  proof (cases "0 < s \<and> ds \<noteq> [] \<and> last ds = CHR ''0''")
    case True
    then obtain es where ds: "ds = es @ [CHR ''0'']" by (metis append_butlast_last_id)
    then have es: "unpadded es" using 1(2) by (cases es) (auto simp: unpadded_def)
    have "trimScale es (s - 1) = (ds', s')" using 1(3) True ds by (simp add: trimScale.simps [of "es @ [CHR ''0'']"])
    then have "unpadded ds' \<and> scaled (decVal ds') s' = scaled (decVal es) (s - 1) \<and> (0 < s' \<longrightarrow> last ds' \<noteq> CHR ''0'')"
      using 1(1) True ds es by simp
    then show ?thesis using scaled_trim [of s "decVal es"] True ds by simp
  next
    case False
    then show ?thesis using 1(2,3) by (auto simp: trimScale.simps [of ds] unpadded_def)
  qed
qed

text \<open>The value of a canonical text, read digit by digit.\<close>

definition readBody :: "string \<Rightarrow> rat" where
  "readBody s =
     (let frac = drop 1 (dropWhile (\<lambda>c. c \<noteq> CHR ''.'') s)
      in of_nat (decVal (takeWhile (\<lambda>c. c \<noteq> CHR ''.'') s @ frac)) / 10 ^ length frac)"

lemma digit_no_point: "list_all digit s \<Longrightarrow> \<forall>c\<in>set s. c \<noteq> CHR ''.''"
proof -
  have "digit c \<Longrightarrow> c \<noteq> CHR ''.''" for c by (elim digit_cases) simp_all
  then show "list_all digit s \<Longrightarrow> \<forall>c\<in>set s. c \<noteq> CHR ''.''" by (auto simp: list_all_iff)
qed

lemma readBody_whole: "list_all digit s \<Longrightarrow> readBody s = of_nat (decVal s)"
proof -
  assume "list_all digit s"
  from digit_no_point [OF this] have e: "takeWhile (\<lambda>c. c \<noteq> CHR ''.'') s = s" "dropWhile (\<lambda>c. c \<noteq> CHR ''.'') s = []"
    by (simp_all add: takeWhile_eq_all_conv dropWhile_eq_Nil_conv)
  show ?thesis unfolding readBody_def Let_def e by simp
qed

lemma readBody_point:
  assumes "list_all digit a"
  shows "readBody (a @ ''.'' @ b) = of_nat (decVal (a @ b)) / 10 ^ length b"
proof -
  note a = digit_no_point [OF assms]
  have "takeWhile (\<lambda>c. c \<noteq> CHR ''.'') (a @ ''.'' @ b) = a" "dropWhile (\<lambda>c. c \<noteq> CHR ''.'') (a @ ''.'' @ b) = ''.'' @ b"
    using a by (simp_all add: takeWhile_append2 dropWhile_append2)
  then show ?thesis by (simp add: readBody_def Let_def)
qed

lemma digits_take_drop: "list_all digit s \<Longrightarrow> list_all digit (take n s) \<and> list_all digit (drop n s)"
  by (auto simp: list_all_iff dest: in_set_takeD in_set_dropD)

lemma readBody_placed:
  assumes "list_all digit ds"
  shows "readBody (placed ds s) = scaled (decVal ds) s"
proof (cases "s \<le> 0")
  case True
  have "list_all digit (ds @ replicate (nat (- s)) (CHR ''0''))" using assms by (auto simp: list_all_iff)
  then show ?thesis using True by (simp add: placed_def readBody_whole decVal_append scaled_def)
next
  case False
  show ?thesis
  proof (cases "s < int (length ds)")
    case True
    let ?n = "length ds - nat s"
    have "length (drop ?n ds) = nat s" using True False by simp
    then show ?thesis
      using False True digits_take_drop [OF assms, of ?n] readBody_point [of "take ?n ds" "drop ?n ds"] by (simp add: placed_def Let_def scaled_def)
  next
    case short: False
    let ?z = "replicate (nat s - length ds) (CHR ''0'')"
    have "readBody (''0'' @ ''.'' @ (?z @ ds)) = of_nat (decVal (''0'' @ (?z @ ds))) / 10 ^ length (?z @ ds)"
      by (rule readBody_point) simp
    moreover have "length (?z @ ds) = nat s" using short False by simp
    ultimately show ?thesis using short False by (simp add: placed_def scaled_def decVal_append decVal_Cons)
  qed
qed

text \<open>A trimmed unpadded with its scale is determined by the value, up to the zeros of a whole number.\<close>

definition trimmed :: "string \<Rightarrow> int \<Rightarrow> bool" where
  "trimmed ds s \<longleftrightarrow> unpadded ds \<and> (0 < s \<longrightarrow> last ds \<noteq> CHR ''0'')"

lemma last_not_tens:
  assumes "unpadded ds" and "last ds \<noteq> CHR ''0''"
  shows "decVal ds mod 10 \<noteq> 0"
proof -
  obtain es c where ds: "ds = es @ [c]" using assms(1) by (cases ds rule: rev_cases) (auto simp: unpadded_def)
  then have "digit c" "c \<noteq> CHR ''0''" using assms by (auto simp: unpadded_def)
  then have "0 < digitVal c" "digitVal c < 10" using digitVal_pos digitVal_less by auto
  then show ?thesis unfolding ds decVal_snoc by presburger
qed

lemma scaled_eq_pow:
  assumes "scaled n s = scaled m t" and "0 < s" and "t \<le> s"
  shows "n = m * 10 ^ nat (s - t)"
proof -
  have "nat (- s) = 0" using assms(2) by simp
  then have "of_nat n = scaled n s * 10 ^ nat s" by (simp add: scaled_def)
  also have "\<dots> = of_nat m * 10 ^ nat (- t) / 10 ^ nat t * 10 ^ nat s" unfolding assms(1) by (simp add: scaled_def)
  also have "\<dots> = of_nat m * 10 ^ nat (s - t)"
  proof (cases "0 \<le> t")
    case True
    then have "nat s = nat (s - t) + nat t" "nat (- t) = 0" using assms(3) by auto
    then show ?thesis by (simp add: power_add)
  next
    case False
    then have "nat (s - t) = nat (- t) + nat s" "nat t = 0" using assms(2) by auto
    then show ?thesis by (simp add: power_add)
  qed
  finally have "(of_nat n :: rat) = of_nat (m * 10 ^ nat (s - t))" by simp
  then show ?thesis by (simp only: of_nat_eq_iff)
qed

lemma trimmed_scale:
  assumes "trimmed ds s" and "trimmed es t" and "scaled (decVal ds) s = scaled (decVal es) t" and "0 < s"
  shows "s \<le> t"
proof (rule ccontr)
  assume "\<not> s \<le> t"
  then obtain k where k: "nat (s - t) = Suc k" by (cases "nat (s - t)") auto
  have "decVal ds = decVal es * 10 ^ nat (s - t)" using scaled_eq_pow assms(3,4) \<open>\<not> s \<le> t\<close> by simp
  then have "decVal ds mod 10 = 0" unfolding k by simp
  then show False using last_not_tens [of ds] assms(1,4) by (simp add: trimmed_def)
qed

lemma placed_unique:
  assumes "trimmed ds s" and "trimmed es t" and "scaled (decVal ds) s = scaled (decVal es) t"
  shows "placed ds s = placed es t"
proof (cases "0 < s \<or> 0 < t")
  case True
  then have "s = t" using trimmed_scale [OF assms] trimmed_scale [OF assms(2,1) assms(3) [symmetric]] by fastforce
  moreover from this have "decVal ds = decVal es" using scaled_eq_pow [OF assms(3)] True by simp
  ultimately show ?thesis using unpadded_inj [of ds es] assms(1,2) by (simp add: trimmed_def)
next
  case False
  then have n: "unpadded (placed ds s)" "unpadded (placed es t)"
    using assms(1,2) by (auto simp: placed_def trimmed_def unpadded_def list_all_iff hd_append)
  then have "readBody (placed ds s) = of_nat (decVal (placed ds s))" "readBody (placed es t) = of_nat (decVal (placed es t))"
    by (simp_all add: readBody_whole unpadded_def)
  moreover have "readBody (placed ds s) = readBody (placed es t)"
    using readBody_placed [of ds s] readBody_placed [of es t] assms by (simp add: trimmed_def unpadded_def)
  ultimately show ?thesis using unpadded_inj n by (metis of_nat_eq_iff)
qed

section \<open>Canonical numbers\<close>

text \<open>
  A JSON number and its value: a sign, an integer, a fraction and an exponent, which is within the bounds of the encoder.
\<close>

definition spelled :: "bool \<Rightarrow> string \<Rightarrow> string \<Rightarrow> string \<Rightarrow> int \<Rightarrow> string \<Rightarrow> bool" where
  "spelled neg i f x e text \<longleftrightarrow> list_all digit i \<and> i \<noteq> [] \<and> list_all digit f \<and>
     (x = [] \<and> e = 0 \<or> (\<exists>c t. x = c # t \<and> exponentMark c \<and> Atoi t = Some e)) \<and> - maxExponent \<le> e \<and> e \<le> maxExponent \<and>
     text = (if neg then ''-'' else '''') @ i @ (if f = [] then '''' else ''.'' @ f) @ x"

definition numberOf :: "bool \<Rightarrow> string \<Rightarrow> string \<Rightarrow> int \<Rightarrow> rat" where
  "numberOf neg i f e = (if neg then -1 else 1) * scaled (decVal (i @ f)) (int (length f) - e)"

lemma digit_no_mark: "list_all digit s \<Longrightarrow> \<forall>c\<in>set s. \<not> exponentMark c"
proof -
  have "digit c \<Longrightarrow> \<not> exponentMark c" for c by (elim digit_cases) (simp_all add: exponentMark_def)
  then show "list_all digit s \<Longrightarrow> \<forall>c\<in>set s. \<not> exponentMark c" by (auto simp: list_all_iff)
qed

lemma span_append:
  assumes "\<forall>c\<in>set s. P c" and "t = [] \<or> \<not> P (hd t)"
  shows "takeWhile P (s @ t) = s" and "dropWhile P (s @ t) = t"
  using assms by (cases t; simp add: takeWhile_append dropWhile_append takeWhile_eq_all_conv)+

lemma canonicalNumber_spelled:
  assumes "spelled neg i f x e text"
  shows "canonicalNumber text = Inr (canonicalDigits (if neg then ''-'' else '''') i f e)"
proof -
  let ?m = "i @ (if f = [] then '''' else ''.'' @ f)"
  have s: "list_all digit i" "i \<noteq> []" "list_all digit f" "text = (if neg then ''-'' else '''') @ ?m @ x" "- maxExponent \<le> e" "e \<le> maxExponent"
    and x: "x = [] \<and> e = 0 \<or> (\<exists>c t. x = c # t \<and> exponentMark c \<and> Atoi t = Some e)"
    using assms by (auto simp: spelled_def)
  have "hd i \<noteq> CHR ''-''"
  proof -
    have "digit (hd i)" using s(1,2) by (cases i) auto
    then show ?thesis by (elim digit_cases) simp_all
  qed
  then have sign: "(case text of c # t \<Rightarrow> if c = CHR ''-'' then (''-'', t) else ('''', text) | [] \<Rightarrow> ('''', text)) = ((if neg then ''-'' else ''''), ?m @ x)"
    using s(2,4) by (cases i) auto
  have "\<forall>c\<in>set ?m. \<not> exponentMark c" using digit_no_mark s(1,3) by (auto simp: exponentMark_def)
  moreover have "x = [] \<or> \<not> \<not> exponentMark (hd x)" using x by auto
  ultimately have mant: "takeWhile (\<lambda>c. \<not> exponentMark c) (?m @ x) = ?m" "dropWhile (\<lambda>c. \<not> exponentMark c) (?m @ x) = x"
    using span_append [of ?m "\<lambda>c. \<not> exponentMark c" x] by blast+
  have point: "takeWhile (\<lambda>c. c \<noteq> CHR ''.'') ?m = i" "dropWhile (\<lambda>c. c \<noteq> CHR ''.'') ?m = (if f = [] then '''' else ''.'' @ f)"
    using span_append [of i "\<lambda>c. c \<noteq> CHR ''.''" "if f = [] then '''' else ''.'' @ f"] digit_no_point [OF s(1)] by auto
  have "(if x = [] then Some 0 else Atoi (tl x)) = Some e" using x by auto
  then show ?thesis
    unfolding canonicalNumber_def Let_def sign prod.case mant point using s(5,6) by simp
qed

lemma canonicalDigits_zero: "decVal (i @ f) = 0 \<Longrightarrow> list_all digit (i @ f) \<Longrightarrow> canonicalDigits sign i f e = ''0''"
proof -
  assume z: "decVal (i @ f) = 0" and d: "list_all digit (i @ f)"
  let ?ds = "dropWhile (\<lambda>c. c = CHR ''0'') (i @ f)"
  have "?ds = []"
  proof (rule ccontr)
    assume "?ds \<noteq> []"
    moreover have "list_all digit ?ds" using d by (auto simp: list_all_iff dest: set_dropWhileD)
    ultimately have "unpadded ?ds" using hd_dropWhile [of "\<lambda>c. c = CHR ''0''" "i @ f"] by (auto simp: unpadded_def)
    then have "10 ^ (length ?ds - 1) \<le> decVal ?ds" by (rule unpadded_le)
    then show False using z by simp
  qed
  then show ?thesis by (simp add: canonicalDigits_def)
qed

lemma canonicalDigits_pos:
  assumes "decVal (i @ f) \<noteq> 0" and "list_all digit (i @ f)"
  obtains ds s where "canonicalDigits sign i f e = sign @ placed ds s" "trimmed ds s" "scaled (decVal ds) s = scaled (decVal (i @ f)) (int (length f) - e)"
proof -
  let ?ds = "dropWhile (\<lambda>c. c = CHR ''0'') (i @ f)"
  have "?ds \<noteq> []" using assms(1) decVal_dropWhile [of "i @ f"] by (metis decVal_Nil)
  moreover have "list_all digit ?ds" using assms(2) by (auto simp: list_all_iff dest: set_dropWhileD)
  ultimately have n: "unpadded ?ds" using hd_dropWhile [of "\<lambda>c. c = CHR ''0''" "i @ f"] by (auto simp: unpadded_def)
  obtain ds s where t: "trimScale ?ds (int (length f) - e) = (ds, s)" by fastforce
  have "canonicalDigits sign i f e = sign @ placed ds s" using \<open>?ds \<noteq> []\<close> t by (auto simp: canonicalDigits_def Let_def)
  then show ?thesis using that trimScale_props [OF n t] by (simp add: trimmed_def)
qed

definition readNumber :: "string \<Rightarrow> rat" where
  "readNumber s = (case s of [] \<Rightarrow> 0 | c # t \<Rightarrow> if c = CHR ''-'' then - readBody t else readBody s)"

lemma scaled_pos: "0 < n \<Longrightarrow> 0 < scaled n s"
  by (simp add: scaled_def)

lemma readNumber_placed:
  assumes "trimmed ds s"
  shows "readNumber ((if neg then ''-'' else '''') @ placed ds s) = (if neg then -1 else 1) * scaled (decVal ds) s"
proof -
  obtain c es where ds: "ds = c # es" and c: "digit c" and d: "list_all digit ds" using assms by (cases ds) (auto simp: trimmed_def unpadded_def)
  have "c \<noteq> CHR ''-''" using c by (elim digit_cases) simp_all
  then have "\<exists>b u. placed ds s = b # u \<and> b \<noteq> CHR ''-''"
    unfolding ds placed_def Let_def by (cases "length (c # es) - nat s") auto
  then show ?thesis using readBody_placed [OF d, of s] by (auto simp: readNumber_def)
qed

lemma canonicalDigits_value:
  assumes "list_all digit (i @ f)"
  shows "readNumber (canonicalDigits (if neg then ''-'' else '''') i f e) = numberOf neg i f e"
proof (cases "decVal (i @ f) = 0")
  case True
  have "readBody ''0'' = 0" using readBody_whole [of "''0''"] by (simp add: decVal_Cons)
  then show ?thesis using canonicalDigits_zero [OF True assms] by (simp add: readNumber_def numberOf_def True scaled_def)
next
  case False
  obtain ds s where "canonicalDigits (if neg then ''-'' else '''') i f e = (if neg then ''-'' else '''') @ placed ds s" "trimmed ds s"
    "scaled (decVal ds) s = scaled (decVal (i @ f)) (int (length f) - e)"
    using canonicalDigits_pos [OF False assms] by blast
  then show ?thesis using readNumber_placed [of ds s neg] by (simp add: numberOf_def)
qed

lemma canonicalDigits_unique:
  assumes "list_all digit (i @ f)" and "list_all digit (i' @ f')" and eq: "numberOf neg i f e = numberOf neg' i' f' e'"
  shows "canonicalDigits (if neg then ''-'' else '''') i f e = canonicalDigits (if neg' then ''-'' else '''') i' f' e'"
proof (cases "decVal (i @ f) = 0 \<or> decVal (i' @ f') = 0")
  case True
  have "numberOf b j g n = 0 \<longleftrightarrow> decVal (j @ g) = 0" for b j g n by (simp add: numberOf_def scaled_def)
  then have "decVal (i @ f) = 0" "decVal (i' @ f') = 0" using True eq by metis+
  then show ?thesis using canonicalDigits_zero assms(1,2) by metis
next
  case False
  then have pos: "0 < scaled (decVal (i @ f)) (int (length f) - e)" "0 < scaled (decVal (i' @ f')) (int (length f') - e')" by (auto intro: scaled_pos)
  then have neg: "neg = neg'" and val: "scaled (decVal (i @ f)) (int (length f) - e) = scaled (decVal (i' @ f')) (int (length f') - e')"
    using eq by (auto simp: numberOf_def split: if_splits)
  obtain ds s where d: "canonicalDigits (if neg then ''-'' else '''') i f e = (if neg then ''-'' else '''') @ placed ds s" "trimmed ds s"
    "scaled (decVal ds) s = scaled (decVal (i @ f)) (int (length f) - e)" using canonicalDigits_pos assms(1) False by blast
  obtain ds' s' where d': "canonicalDigits (if neg then ''-'' else '''') i' f' e' = (if neg then ''-'' else '''') @ placed ds' s'" "trimmed ds' s'"
    "scaled (decVal ds') s' = scaled (decVal (i' @ f')) (int (length f') - e')" using canonicalDigits_pos assms(2) False by blast
  then show ?thesis using placed_unique [OF d(2) d'(2)] d d' val neg by simp
qed

lemma canonicalNumber_same:
  assumes "spelled neg i f x e s" and "spelled neg' i' f' x' e' t" and "numberOf neg i f e = numberOf neg' i' f' e'"
  shows "canonicalNumber s = canonicalNumber t"
proof -
  have "list_all digit (i @ f)" "list_all digit (i' @ f')" using assms(1,2) by (auto simp: spelled_def)
  then show ?thesis
    unfolding canonicalNumber_spelled [OF assms(1)] canonicalNumber_spelled [OF assms(2)] sum.inject using assms(3) by (rule canonicalDigits_unique)
qed

text \<open>
  C37: Canonical numbers are canonical. Two JSON numbers with exponents within the bounds get the same canonical text
  exactly when they denote the same number, however they are spelled (sign of zero, leading and trailing zeros,
  position of the point, exponent); so equal payloads have equal digests.
\<close>

theorem canonicalNumber_decides:
  assumes "spelled neg i f x e s" and "spelled neg' i' f' x' e' t"
  shows "canonicalNumber s = canonicalNumber t \<longleftrightarrow> numberOf neg i f e = numberOf neg' i' f' e'"
proof -
  have "list_all digit (i @ f)" "list_all digit (i' @ f')" using assms by (auto simp: spelled_def)
  then have "numberOf neg i f e = numberOf neg' i' f' e'" if "canonicalNumber s = canonicalNumber t"
    using that canonicalDigits_value [of i f neg e] canonicalDigits_value [of i' f' neg' e']
    unfolding canonicalNumber_spelled [OF assms(1)] canonicalNumber_spelled [OF assms(2)] sum.inject by metis
  then show ?thesis using canonicalNumber_same [OF assms] by blast
qed

text \<open>One and a half, in two spellings.\<close>

theorem canonicalNumber_decides_witness:
  "canonicalNumber ''1.50'' = canonicalNumber ''0.015e2'' \<and> canonicalNumber ''1.50'' = Inr ''1.5''"
proof -
  have "spelled False ''1'' ''50'' '''' 0 ''1.50''" "spelled False ''0'' ''015'' ''e2'' 2 ''0.015e2''"
  proof -
    have "Atoi ''2'' = Some 2" by code_simp
    then show "spelled False ''1'' ''50'' '''' 0 ''1.50''" "spelled False ''0'' ''015'' ''e2'' 2 ''0.015e2''"
      by (auto simp: spelled_def digit_def exponentMark_def maxExponent_def)
  qed
  moreover have "numberOf False ''1'' ''50'' 0 = numberOf False ''0'' ''015'' 2" by code_simp
  moreover have "canonicalNumber ''1.50'' = Inr ''1.5''" by code_simp
  ultimately show ?thesis using canonicalNumber_decides by blast
qed

section \<open>Canonical values\<close>

text \<open>Two decoded values that say the same: numbers may be spelled differently, and objects list their members in any order.\<close>

inductive sameJSON :: "json \<Rightarrow> json \<Rightarrow> bool" where
  null: "sameJSON JNull JNull"
| bool: "sameJSON (JBool b) (JBool b)"
| string: "sameJSON (JString s) (JString s)"
| number: "spelled neg i f x e s \<Longrightarrow> spelled neg' i' f' x' e' t \<Longrightarrow> numberOf neg i f e = numberOf neg' i' f' e' \<Longrightarrow> sameJSON (JNumber s) (JNumber t)"
| array: "list_all2 sameJSON vs ws \<Longrightarrow> sameJSON (JArray vs) (JArray ws)"
| object: "list_all2 (\<lambda>x y. fst x = fst y \<and> sameJSON (snd x) (snd y)) m n \<Longrightarrow> distinct (map fst n) \<Longrightarrow> set n' = set n \<Longrightarrow> distinct (map fst n') \<Longrightarrow>
    sameJSON (JObject m) (JObject n')"

lemma sort_keys_unique:
  assumes "set xs = set ys" and "distinct (map fst xs)" and "distinct (map fst ys)"
  shows "sort_stable (\<lambda>a b. fst a < fst b) xs = sort_stable (\<lambda>a b. fst a < fst b) (ys :: (string \<times> 'a) list)"
proof -
  have s: "sorted (map fst (sort_stable (\<lambda>a b. fst a < fst b) zs))" for zs :: "(string \<times> 'a) list"
    using sorted_sort_stable [where le = "\<lambda>a b. fst a \<le> fst b" and lt = "\<lambda>a b. fst a < fst b" and xs = zs] by (force simp: sorted_map)
  have "inj_on fst (set xs)" using assms(2) by (simp add: distinct_map)
  then show ?thesis
    using map_sorted_distinct_set_unique [of fst "sort_stable (\<lambda>a b. fst a < fst b) xs" "sort_stable (\<lambda>a b. fst a < fst b) ys"] s assms
    by (simp add: distinct_sort_stable)
qed

text \<open>
  The canonical text does not depend on how a value was written. Two decoded values that differ only in the spelling
  of numbers and in the order of the members of their objects, at any depth, have the same canonical text, whatever the
  encoding of string literals.
\<close>

theorem writeValue_canonical:
  assumes "sameJSON v w"
  shows "writeValue quote v = writeValue quote w"
  using assms
proof (induction rule: sameJSON.induct)
  case (number neg i f x e s neg' i' f' x' e' t)
  show ?case unfolding writeValue.simps by (rule canonicalNumber_same [OF number])
next
  case (array vs ws)
  have "map (writeValue quote) vs = map (writeValue quote) ws"
    using array by (induction rule: list_all2_induct) auto
  then show ?case by (simp del: map_eq_conv)
next
  case (object m n n')
  let ?w = "\<lambda>(k, v). (k, writeValue quote v)"
  have "map ?w m = map ?w n" using object(1) by (induction rule: list_all2_induct) auto
  moreover have keys: "map fst (map ?w zs) = map fst zs" for zs by (auto simp: case_prod_unfold)
  have "sort_stable (\<lambda>a b. fst a < fst b) (map ?w n) = sort_stable (\<lambda>a b. fst a < fst b) (map ?w n')"
  proof (rule sort_keys_unique)
    show "set (map ?w n) = set (map ?w n')" using object(3) by auto
    show "distinct (map fst (map ?w n))" "distinct (map fst (map ?w n'))" using object(2,4) by (simp_all only: keys)
  qed
  ultimately show ?case by (simp del: map_eq_conv)
qed simp_all

text \<open>
  So the digest of a payload only depends on what it says: two payloads that hold one value each, the values saying the
  same, have the same digest.
\<close>

corollary DigestRaw_canonical:
  assumes "decode raw = Inr (v, r)" and "ensureEOF decode r = None"
    and "decode raw' = Inr (w, r')" and "ensureEOF decode r' = None" and "sameJSON v w"
  shows "DigestRaw decode quote sha raw = DigestRaw decode quote sha raw'"
  using assms(1-4) writeValue_canonical [OF assms(5)] by (simp add: DigestRaw_def Canonicalize_def)

text \<open>What stands after the value is never ignored: a second value is refused, and so is anything the decoder cannot read.\<close>

lemma Canonicalize_trailing:
  assumes "Canonicalize decode quote raw = Inr out"
  shows "\<exists>v rest e. decode raw = Inr (v, rest) \<and> decode rest = Inl e \<and> errors_Is e EOF \<and> writeValue quote v = Inr out"
  using assms by (auto simp: Canonicalize_def ensureEOF_def split: sum.splits option.splits if_splits prod.splits)

end
