(* ===== verification/Spec2Isabelle.thy ===== *)
theory Spec2Isabelle
  imports Orch_Predicate Orch_Graph Orch_Repair Orch_Projection Orch_Route Orch_Attempts Orch_Finish Orch_Scheduler
    Telemetry_Trace Orch_Events Orch_Definitions Orch_RepoMachine Orch_RepoProps Orch_RepoFindings Orch_Bundle
    Orch_Drain Runtime_Lifecycle Orch_Durable Orch_Tick Orch_Outcome Orch_Worker
    Pipeline_Compat Requirement_Gates Core_Encoding
begin

text \<open>
  ADRO is an orchestrator for software agents written in Go. This development models its orchestration core, the
  package \<open>src/internal/orchestration\<close>, the contract of its providers (\<open>src/internal/provider/provider.go\<close>), the trace
  context (\<open>src/internal/telemetry/trace.go\<close>), the lifecycle manager (\<open>src/runtime/lifecycle/manager.go\<close>), the older
  seven-stage pipeline (\<open>src/internal/pipeline\<close>, \<open>src/internal/domain\<close>) with its migration to graphs (\<open>src/internal/compat\<close>),
  and the canonical JSON of the core contracts (\<open>src/core/encoding\<close>).

  \<^bold>\<open>The program.\<close> Agents and squads are versioned definitions. A requirement is executed by a plan, which is
  frozen with a workflow graph of nodes (agents, squads, gates, joins, human decisions, repairs) and edges with events,
  predicates and traversal bounds. Per plan a projection records what has happened: the attempts, the state of each
  node, repair plans, traversal counters, decisions, usage. The projection changes only through a reducer
  (\<open>StartAttempt\<close>, \<open>FinishAttempt\<close> and the operator actions); a scheduler derives from it the nodes that can run. The
  repository stores definitions, plans, projections, hash-chained event logs and an outbox of side effects, each change
  as one write of a snapshot file; the event log rebuilds a projection after a crash.

  A worker (\<open>Run\<close>) drives a plan in rounds. Each round is a tick of the scheduler followed by \<open>Reconcile\<close>. A tick closes the
  plan when its deadline has passed; otherwise it lets the executor decide the structural nodes (gates, joins, repairs)
  and dispatch ready agents and squads within the permits. A dispatch commits the start of the attempt, files and leases
  an outbox intent, and then calls the provider. \<open>Reconcile\<close> looks at the runs of the running attempts, reads the result
  marker out of the output of a finished run, classifies it and finishes the attempt; it advances the child plans of
  squads by a nested worker, and starts runs that a crash has lost from their intents. The dispatcher of the outbox
  delivers other intents. The lifecycle manager starts and stops the components of a process in dependency order. The
  older pipeline takes a requirement through design, development, unit tests, integration, arbitration, revalidation and
  report; a run of it is also kept as a graph plan, and its requirement has a status that quality gates move.

  \<^bold>\<open>The theories\<close>, from the bottom up:

  \<^item> \<open>Go_Prelude\<close>: errors as values (\<open>go_error\<close>, \<open>first_err\<close>, \<open>guard\<close>), Go maps as association lists, strings with
    \<open>TrimSpace\<close> on UTF-8 bytes and ASCII case folding, 64-bit arithmetic (\<open>wrap64\<close>), float64 as rationals rounded to 53
    bits, stable sorting.
  \<^item> \<open>Graph_Search\<close>: the breadth-first loops and the three-colour depth-first search, with their locales, proved to
    decide reachability and acyclicity. Each loop is a total function: its measure counts the vertices not yet marked.
  \<^item> \<open>Transition_System\<close>: the locales \<open>invariant_system\<close>, \<open>history_system\<close> and \<open>refinement\<close>: invariants of reachable
    states, preorders kept by every step, forward simulation along runs.
  \<^item> \<open>Orch_Model\<close>: the structs and string enumerations of \<open>model.go\<close> and \<open>transition.go\<close>, field by field. An
    unknown string of an enumeration is a constructor of its own.
  \<^item> \<open>Orch_Predicate\<close>, \<open>Orch_Graph\<close> (\<open>validate.go\<close>): predicates over dynamically typed fields and \<open>ValidateGraph\<close>,
    with the declarative \<open>graph_ok\<close> it decides and the bound on walks in an accepted graph.
  \<^item> \<open>Orch_Repair\<close>, \<open>Orch_Projection\<close>, \<open>Orch_Route\<close>, \<open>Orch_Attempts\<close>, \<open>Orch_Finish\<close> (\<open>transition.go\<close>): the repair
    lifecycle, \<open>Validate\<close> and \<open>NewProjection\<close>, routing with retries and fan-out, starting and finishing attempts.
    \<open>Orch_Example\<close> holds the concrete plan of the witnesses.
  \<^item> \<open>Orch_Scheduler\<close> (\<open>scheduler.go\<close>): the ready queue, the operator actions, and the step relation \<open>reducer_step\<close> with
    its invariant and history by rule induction.
  \<^item> \<open>Telemetry_Trace\<close> (\<open>trace.go\<close>), \<open>Orch_Events\<close> (\<open>events.go\<close>): the trace context; events, their hash chain and
    \<open>ReplayProjection\<close>.
  \<^item> \<open>Orch_Definitions\<close> (\<open>model.go\<close>): validation of agents and squads, the access contract, \<open>Freeze\<close>.
  \<^item> \<open>Orch_Store\<close>, \<open>Orch_Repository\<close>, \<open>Orch_Outbox\<close> (\<open>repository.go\<close>): the state of the repository, its snapshot
    file, every operation, and the outbox. \<open>Orch_RepoSpec\<close> gives the view a client has of a repository and what each
    operation does to it on every branch; \<open>Orch_RepoMachine\<close> has the abstract machine \<open>spec_step\<close> and the simulation;
    \<open>Orch_RepoProps\<close> the properties of operations on reachable repositories; \<open>Orch_RepoFindings\<close> concrete runs where
    the code does not do what it means to.
  \<^item> \<open>Orch_Bundle\<close> (\<open>definition_bundle.go\<close>): the import of definitions from another workspace.
  \<^item> \<open>Orch_Drain\<close> (\<open>outbox_worker.go\<close>): the dispatcher, over the locale \<open>outbox_store\<close>, which the memory repository
    interprets.
  \<^item> \<open>Runtime_Lifecycle\<close> (\<open>manager.go\<close>): the start order, \<open>Start\<close> with its rollback, \<open>Stop\<close>, health, and the step relation
    of a manager.
  \<^item> \<open>Go_Monad\<close>: computations that change a state and can fail (\<open>act\<close>), the way the methods below call their stores and
    providers, with rules for pre- and postconditions on success and on failure (\<open>validE\<close>).
  \<^item> \<open>Orch_Structural\<close> (\<open>structural.go\<close>, \<open>diagnostics.go\<close>): the default controllers of gates, joins and repairs; each
    interprets the locale \<open>structural_controller\<close>. \<open>Provider_Model\<close> (\<open>provider.go\<close>): commands, bindings, snapshots and the
    interface of a provider.
  \<^item> \<open>Orch_Executor\<close>, \<open>Orch_Dispatch\<close> (\<open>executor.go\<close>): committing events, structural nodes, dispatch and completion, over
    the event store, the repository and the provider as records of functions. \<open>Orch_Durable\<close> states what the executor
    relies on as the locale \<open>executor_store\<close> and interprets it on the memory repository.
  \<^item> \<open>Orch_Tick\<close> (\<open>scheduler.go\<close>): the tick. \<open>Orch_Outcome\<close>, \<open>Orch_Worker\<close> (\<open>worker.go\<close>): the reading and classification of
    the output of a run; reconciliation, recovery and the loop of the worker.
  \<^item> \<open>Pipeline_Model\<close> (\<open>domain/pipeline.go\<close>, \<open>domain/workflow_chat.go\<close>), \<open>Pipeline_Engine\<close> (\<open>pipeline/engine.go\<close>): runs of the
    pipeline and the engine, with the relation \<open>edge\<close> that says what each move of the engine is, and the step relation
    \<open>pipeline_step\<close>. \<open>Pipeline_Compat\<close> (\<open>compat/pipeline_stage.go\<close>): the graph of a run. \<open>Requirement_Gates\<close>
    (\<open>domain/domain.go\<close>, \<open>workflow/workflow.go\<close>): the status of a requirement and the gates.
  \<^item> \<open>Core_Encoding\<close> (\<open>core/encoding/canonical.go\<close>): the canonical form of JSON values over which digests are taken.

  \<^bold>\<open>What is shown.\<close> \<^emph>\<open>Graphs\<close>: validation decides well-formedness, and every walk in an accepted graph is bounded.
  \<^emph>\<open>Reducer\<close>: fencing, idempotency, budgets, traversal bounds, the conditions of success, what a refused
  operation leaves unchanged, and the history of attempts along every interleaving. \<^emph>\<open>Scheduler\<close>: the ready queue
  is sound for the join policies and independent of map order; past the deadline a tick ends the plan. \<^emph>\<open>Events\<close>: the chain is tamper evident and extended
  by \<open>NewEvent\<close>; replay is incremental and consistent. \<^emph>\<open>Repository\<close>: for any caller (\<open>any_step\<close>), under failing
  writes and foreign changes of its file, plans and logs are kept, failed operations are atomic and leases exclusive, with the
  exceptions named in the statements: a released key, and an intent whose ID is used again for another one. When callers keep to \<open>op_ok\<close>
  (names without a colon, values that survive JSON, no ID of an intent used for another one; the code tests none of them) it
  refines an append-only machine and its snapshots are always valid; committed operations survive a restart and waiting
  intents can be claimed. \<open>Restore\<close> and the import of definitions are modelled and not steps of these relations:
  the first replaces the whole state, the second has its own theory. \<^emph>\<open>Definitions\<close>: accepted agents
  carry no secrets, frozen plans are storable, bundles are imported as a whole, every definition of them. \<^emph>\<open>Trace\<close>: the textual form round
  trips and malformed carriers fail closed. \<^emph>\<open>Structural nodes\<close>: gates and merges compute what their policies say, and
  the repairs a controller plans are ones the reducer accepts. \<^emph>\<open>Executor\<close>: when an operation succeeds, the store holds
  the projection of the caller, and whenever the provider is called, the attempt and a leased intent are already stored.
  \<^emph>\<open>Worker\<close>: its loop stops within the bound on ticks, it never holds more running attempts than its permits, and ends the plan
  when it is cancelled; a result object in the output is cut out exactly and read back, and the marker of a
  completed run counts only with proof of work. \<^emph>\<open>Outbox dispatcher\<close>: a drain settles every waiting intent. \<^emph>\<open>Lifecycle\<close>: a component runs only while
  its dependencies do, whatever fails. \<^emph>\<open>Pipeline\<close>: a run takes a number of results that its retry limits bound
  (designs apart while their approval is awaited), keeps its evidence, completes only with tested code, and its graph can follow every move of the engine.
  \<^emph>\<open>Canonical JSON\<close>: numbers get the same text exactly when they are equal, and the text of a value does not depend on
  the order of members or the spelling of numbers.

  \<^bold>\<open>Modelling choices.\<close> What the code takes from outside is an argument: the clock, random identifiers, JSON
  encoding and decoding (\<open>Codec\<close>, \<open>RepoEnv\<close>), SHA-256, and the outcome of each step of a file write (\<open>io\<close>). Hypotheses
  on them are written in the statements. A method that mutates its receiver returns the new state, also on error paths.
  Every operation of the repository holds one lock, so concurrency is the interleaving of whole operations. Times
  are integers (nanoseconds, 0 for the zero time); \<open>int\<close> and \<open>int64\<close> are integers with wrap-around written where a
  sum can leave the range. A nil map and an empty map are one value, so the test of \<open>Validate\<close> for nil maps is
  left out. Iteration over a Go map sees the entries in the order of the association list; theorems
  quantify over all orders. \<open>sort.Slice\<close> is a stable sort. Error values keep their format and arguments; the text
  of wrapped errors is not rendered. Recursion is structural or has a measure: \<open>validateSquadGraphRefsLocked\<close>
  terminates because the keys on its path are distinct keys of stored squads, \<open>backoff_loop\<close> because the delay reaches
  the cap, the searches because vertices get marked.

  Fuel is used in the worker only. \<open>Run\<close> takes a number of rounds and gives \<open>None\<close> when the worker has not stopped by then:
  a worker without a bound on its ticks may poll a run for ever. With a bound, that many rounds are enough
  (\<open>Run_terminates\<close>). \<open>childRun\<close> takes the depth to which child plans own further child plans and gives a panic beyond
  it, as an exhausted stack does. The code has no such bound, and that the recursion ends is not shown; a run that does not end
  in this panic is the same at every greater depth (\<open>Run_depth\<close>), and the statements hold for every depth. Stores, providers and handlers are records of
  functions on a state of any type \<open>'w\<close>, so that they can do anything between two calls; the cancellation of the context,
  timers and the tracer act on the same state.

  \<^bold>\<open>Not modelled.\<close> \<open>sql_repository.go\<close> and the event store adapters are SQL, which means something only with the
  database engine. The adapters of \<open>src/internal/provider\<close> other than its contract and the runtime kernel drive external
  processes. The HTTP API, the commands and the web interface decode requests and call the parts above. The stores of
  requirements, comments and memories and the harness are separate subsystems beside the orchestration core.
\<close>

end
